(* ===== verification/Prelude.thy ===== *)
theory Prelude
  imports Complex_Main "HOL-Library.AList" "HOL-Library.Multiset"
begin

section \<open>Shared vocabulary of the development\<close>

text \<open>
  This theory holds what every component uses: the clock type, Python dictionaries as
  association lists in insertion order, the stable \<open>sorted\<close> of Python as \<^const>\<open>sort_key\<close>,
  suffixes of bounded histories, and the named fact collections that carry the component
  proofs.

  Time stamps (\<open>datetime.now()\<close>, \<open>time.monotonic()\<close>, \<open>time.perf_counter()\<close>) are real numbers
  of seconds that every operation receives as an argument, because the clock belongs to the
  environment. Python floats are idealised as real numbers.
\<close>

named_theorems dict_simps "lookup, keys and size of Python dictionaries"
named_theorems step_simps "one-step behaviour of the operations"
named_theorems inv_intros "operations keep the invariants of their components"

type_synonym time = real
type_synonym ('k, 'v) dict = "('k \<times> 'v) list"

subsection \<open>Python dictionaries\<close>

text \<open>
  A Python \<open>dict\<close> remembers the insertion order of its keys: assigning to a present key keeps
  its position, a new key goes to the end. \<^const>\<open>AList.update\<close> does exactly this. A well-formed
  dictionary has no key twice.
\<close>

definition dict_wf :: "('k, 'v) dict \<Rightarrow> bool" where
  "dict_wf d \<longleftrightarrow> distinct (map fst d)"

definition dict_get :: "('k, 'v) dict \<Rightarrow> 'k \<Rightarrow> 'v option" where
  "dict_get d k = map_of d k"

definition dict_set :: "'k \<Rightarrow> 'v \<Rightarrow> ('k, 'v) dict \<Rightarrow> ('k, 'v) dict" where
  "dict_set k v d = AList.update k v d"

definition dict_del :: "'k \<Rightarrow> ('k, 'v) dict \<Rightarrow> ('k, 'v) dict" where
  "dict_del k d = AList.delete k d"

definition dict_keys :: "('k, 'v) dict \<Rightarrow> 'k list" where
  "dict_keys d = map fst d"

definition dict_values :: "('k, 'v) dict \<Rightarrow> 'v list" where
  "dict_values d = map snd d"

lemma dict_wf_Nil [simp, intro]: "dict_wf []"
  by (simp add: dict_wf_def)

lemma dict_get_Nil [simp, dict_simps]: "dict_get [] k = None"
  by (simp add: dict_get_def)

lemma dict_get_Cons [dict_simps]: "dict_get ((k', v) # d) k = (if k = k' then Some v else dict_get d k)"
  by (simp add: dict_get_def)

lemma dict_get_set [simp, dict_simps]:
  "dict_get (dict_set k v d) k' = (if k' = k then Some v else dict_get d k')"
  by (simp add: dict_get_def dict_set_def update_conv')

lemma dict_get_del [simp, dict_simps]:
  "dict_get (dict_del k d) k' = (if k' = k then None else dict_get d k')"
  by (simp add: dict_get_def dict_del_def delete_conv')

lemma dict_wf_set [simp, intro, inv_intros]: "dict_wf d \<Longrightarrow> dict_wf (dict_set k v d)"
  by (simp add: dict_wf_def dict_set_def distinct_update)

lemma dict_wf_del [simp, intro, inv_intros]: "dict_wf d \<Longrightarrow> dict_wf (dict_del k d)"
  by (simp add: dict_wf_def dict_del_def distinct_delete)

lemma dict_wf_filter [simp, intro, inv_intros]: "dict_wf d \<Longrightarrow> dict_wf (filter P d)"
  by (auto simp: dict_wf_def distinct_map_filter)

lemma dict_get_None_iff [dict_simps]: "dict_get d k = None \<longleftrightarrow> k \<notin> fst ` set d"
  by (simp add: dict_get_def map_of_eq_None_iff)

lemma dict_get_Some_iff: "dict_wf d \<Longrightarrow> dict_get d k = Some v \<longleftrightarrow> (k, v) \<in> set d"
  by (simp add: dict_wf_def dict_get_def)

lemma dict_get_in_set: "dict_get d k = Some v \<Longrightarrow> (k, v) \<in> set d"
  by (simp add: dict_get_def map_of_SomeD)

lemma set_dict_keys_set [simp]: "set (dict_keys (dict_set k v d)) = insert k (set (dict_keys d))"
  using dom_update [of k v d] by (simp add: dict_keys_def dict_set_def)

lemma set_dict_keys_del [simp]: "set (dict_keys (dict_del k d)) = set (dict_keys d) - {k}"
  by (auto simp: dict_keys_def dict_del_def AList.delete_eq)

lemma set_dict_set: "dict_wf d \<Longrightarrow> set (dict_set k v d) = insert (k, v) {p \<in> set d. fst p \<noteq> k}"
  by (induction d) (auto simp: dict_wf_def dict_set_def image_iff)

lemma set_dict_del: "set (dict_del k d) = {p \<in> set d. fst p \<noteq> k}"
  by (auto simp: dict_del_def AList.delete_eq)

lemma length_dict_set:
  "length (dict_set k v d) = (if k \<in> fst ` set d then length d else Suc (length d))"
  by (induction d) (auto simp: dict_set_def)

lemma length_dict_set_le: "length (dict_set k v d) \<le> Suc (length d)"
  by (simp add: length_dict_set)

lemma length_dict_del_le [simp]: "length (dict_del k d) \<le> length d"
  by (simp add: dict_del_def AList.delete_eq)

lemma length_dict_del:
  "dict_wf d \<Longrightarrow> length (dict_del k d) = (if k \<in> fst ` set d then length d - 1 else length d)"
proof (induction d)
  case (Cons p d)
  have pos: "k \<in> fst ` set d \<Longrightarrow> 0 < length d"
    by auto
  have id: "k \<notin> fst ` set d \<Longrightarrow> AList.delete k d = d"
    by simp
  show ?case
    using Cons pos id by (cases "fst p = k") (auto simp: dict_wf_def dict_del_def)
qed (simp add: dict_del_def)

subsection \<open>Bounded histories\<close>

text \<open>The Python slice \<open>xs[-n:]\<close> for a positive \<open>n\<close>: the last \<open>n\<close> entries.\<close>

definition take_last :: "nat \<Rightarrow> 'a list \<Rightarrow> 'a list" where
  "take_last n xs = drop (length xs - n) xs"

lemma length_take_last [simp]: "length (take_last n xs) = min n (length xs)"
  by (simp add: take_last_def)

lemma take_last_id [simp]: "length xs \<le> n \<Longrightarrow> take_last n xs = xs"
  by (simp add: take_last_def)

lemma take_last_snoc: "take_last n (take_last n xs @ [x]) = take_last n (xs @ [x])"
proof (cases "length xs \<le> n")
  case False
  then have "drop (length xs - n) xs = take_last n xs"
    by (simp add: take_last_def)
  with False show ?thesis
    by (auto simp: take_last_def drop_Cons' Suc_diff_le)
qed simp

lemma set_take_last: "set (take_last n xs) \<subseteq> set xs"
  by (auto simp: take_last_def dest: in_set_dropD)

text \<open>The part of a history after the last entry that satisfies a predicate.\<close>

definition since_last :: "('a \<Rightarrow> bool) \<Rightarrow> 'a list \<Rightarrow> 'a list" where
  "since_last P xs = rev (takeWhile (\<lambda>x. \<not> P x) (rev xs))"

lemma since_last_Nil [simp]: "since_last P [] = []"
  by (simp add: since_last_def)

lemma since_last_snoc [simp]: "since_last P (xs @ [x]) = (if P x then [] else since_last P xs @ [x])"
  by (simp add: since_last_def)

subsection \<open>Histories\<close>

text \<open>
  A component's history is a list of events that its step function consumes from the left. An
  invariant of the step function is an invariant of every history, and a step function whose
  events satisfy a side condition keeps it along the histories whose events all do.
\<close>

locale step_system =
  fixes step :: "'s \<Rightarrow> 'e \<Rightarrow> 's" and inv :: "'s \<Rightarrow> bool" and allowed :: "'e \<Rightarrow> bool"
  assumes step_inv: "inv s \<Longrightarrow> allowed e \<Longrightarrow> inv (step s e)"
begin

lemma run_inv: "inv s \<Longrightarrow> list_all allowed es \<Longrightarrow> inv (foldl step s es)"
  by (induction es arbitrary: s) (simp_all add: step_inv)

end

subsection \<open>Runs with effects and exceptions\<close>

text \<open>
  The effect of a piece of code that changes a state, schedules outputs and may raise: the state at
  the end or at the exception, the outputs so far and the exception, if any. \<open>then_do\<close> goes on only
  without an exception, as the sequence of statements does.
\<close>

type_synonym ('s, 'o, 'e) run = "'s \<times> 'o list \<times> 'e option"

definition then_do :: "('s, 'o, 'e) run \<Rightarrow> ('s \<Rightarrow> ('t, 'o, 'e) run) \<Rightarrow> ('s \<Rightarrow> 't) \<Rightarrow> ('t, 'o, 'e) run" where
  "then_do r k stuck =
     (case r of
        (s, os, Some e) \<Rightarrow> (stuck s, os, Some e)
      | (s, os, None) \<Rightarrow> (case k s of (t, os', e) \<Rightarrow> (t, os @ os', e)))"

lemma then_do_simps [simp]:
  "then_do (s, os, Some e) k stuck = (stuck s, os, Some e)"
  "then_do (s, os, None) k stuck = (case k s of (t, os', e) \<Rightarrow> (t, os @ os', e))"
  by (simp_all add: then_do_def)

subsection \<open>Guarded state machines\<close>

text \<open>
  Both state machines of the library (\<open>client/state_machine.py\<close>, \<open>central/state_machine.py\<close>)
  follow one contract: a table gives the successors of each state, \<open>transition_to\<close> moves to a
  successor and raises otherwise. \<open>run_machine\<close> performs a sequence of such calls and stops at
  the first exception, as the code that makes the calls does. The locale collects what follows
  from the contract alone.
\<close>

fun run_machine :: "('a \<Rightarrow> 's \<Rightarrow> 'm \<Rightarrow> 'e + 'm \<times> 'o list) \<Rightarrow> ('a \<times> 's) list \<Rightarrow> 'm \<Rightarrow> 'e + 'm \<times> 'o list" where
  "run_machine step [] m = Inr (m, [])"
| "run_machine step ((a, t) # ats) m =
     (case step a t m of
        Inl e \<Rightarrow> Inl e
      | Inr (m', os) \<Rightarrow>
          (case run_machine step ats m' of
             Inl e \<Rightarrow> Inl e
           | Inr (m'', os') \<Rightarrow> Inr (m'', os @ os')))"

fun valid_walk :: "('s \<Rightarrow> 's set) \<Rightarrow> 's \<Rightarrow> 's list \<Rightarrow> bool" where
  "valid_walk succs s [] = True"
| "valid_walk succs s (t # ts) = (t \<in> succs s \<and> valid_walk succs t ts)"

lemma valid_walk_through:
  assumes "valid_walk succs s ts" and "s \<in> S" and "\<And>x. x \<in> S \<Longrightarrow> succs x \<subseteq> S \<union> C"
    and "set ts \<inter> C = {}"
  shows "last (s # ts) \<in> S"
  using assms
proof (induction ts arbitrary: s)
  case (Cons t ts)
  then have "t \<in> S" by auto
  with Cons show ?case by auto
qed simp

locale guarded_machine =
  fixes succs :: "'s \<Rightarrow> 's set"
    and state :: "'m \<Rightarrow> 's"
    and step :: "'a \<Rightarrow> 's \<Rightarrow> 'm \<Rightarrow> 'e + 'm \<times> 'o list"
  assumes step_valid: "t \<in> succs (state m) \<Longrightarrow> \<exists>m' os. step a t m = Inr (m', os) \<and> state m' = t"
    and step_invalid: "t \<notin> succs (state m) \<Longrightarrow> \<exists>e. step a t m = Inl e"
begin

lemma step_InrD:
  assumes "step a t m = Inr (m', os)"
  shows "t \<in> succs (state m)" and "state m' = t"
proof -
  show "t \<in> succs (state m)"
    using step_invalid [of t m a] assms by auto
  then show "state m' = t"
    using step_valid [of t m a] assms by auto
qed

lemma run_walk:
  "run_machine step ats m = Inr (m', os) \<Longrightarrow>
     valid_walk succs (state m) (map snd ats) \<and> state m' = last (state m # map snd ats)"
proof (induction ats arbitrary: m m' os)
  case (Cons p ats)
  obtain a t where p: "p = (a, t)" by force
  with Cons.prems obtain m1 os1 os2 where s: "step a t m = Inr (m1, os1)"
    and r: "run_machine step ats m1 = Inr (m', os2)"
    by (auto split: sum.splits prod.splits)
  from Cons.IH [OF r] step_InrD [OF s] p show ?case by auto
qed simp

lemma walk_run:
  "valid_walk succs (state m) (map snd ats) \<Longrightarrow> \<exists>m' os. run_machine step ats m = Inr (m', os)"
proof (induction ats arbitrary: m)
  case (Cons p ats)
  obtain a t where p: "p = (a, t)" by force
  with Cons.prems obtain m1 os1 where s: "step a t m = Inr (m1, os1)" "state m1 = t"
    using step_valid [of t m a] by auto
  with Cons.prems p have "valid_walk succs (state m1) (map snd ats)" by simp
  from Cons.IH [OF this] s p show ?case by auto
qed simp

theorem run_iff_walk:
  "(\<exists>m' os. run_machine step ats m = Inr (m', os)) \<longleftrightarrow> valid_walk succs (state m) (map snd ats)"
  using run_walk walk_run by blast

lemma terminal_run:
  assumes "succs (state m) = {}" and "run_machine step ats m = Inr (m', os)"
  shows "ats = []"
proof -
  have "valid_walk succs (state m) (map snd ats)"
    using run_walk [OF assms(2)] ..
  with assms(1) show ?thesis by (cases ats) auto
qed

lemma run_through:
  assumes run: "run_machine step ats m = Inr (m', os)" and init: "state m \<in> S"
    and closed: "\<And>x. x \<in> S \<Longrightarrow> succs x \<subseteq> S \<union> C" and outside: "state m' \<notin> S"
  shows "set (map snd ats) \<inter> C \<noteq> {}"
proof
  assume "set (map snd ats) \<inter> C = {}"
  with run_walk [OF run] init closed have "last (state m # map snd ats) \<in> S"
    by (intro valid_walk_through [where succs = succs and C = C]) auto
  with run_walk [OF run] outside show False by simp
qed

end

end
