(* ===== verification/Text_Format.thy ===== *)
theory Text_Format
  imports Prelude
begin

section \<open>Python text primitives\<close>

text \<open>
  The string operations of the language that the schedule code uses: decimal formatting
  (\<open>str(n)\<close>, \<open>f"{n:02d}"\<close>), \<open>int(text)\<close>, \<open>str.split\<close> with a bound, \<open>str.isdigit\<close>. Strings are lists
  of characters with codes below 256, for which the decimal digits of the regular expression
  class \<open>\d\<close> are exactly \<open>0\<close> to \<open>9\<close>. The interpreter's limit on the number of digits \<open>int\<close> accepts
  is left out.
\<close>

definition code :: "char \<Rightarrow> nat" where
  "code c = of_char c"

definition is_digit :: "char \<Rightarrow> bool" where
  "is_digit c \<longleftrightarrow> 48 \<le> code c \<and> code c \<le> 57"

definition digit_val :: "char \<Rightarrow> nat" where
  "digit_val c = code c - 48"

definition digit_char :: "nat \<Rightarrow> char" where
  "digit_char n = char_of (48 + n)"

text \<open>\<open>str(n)\<close> of a natural number.\<close>

fun dec :: "nat \<Rightarrow> string" where
  "dec n = (if n < 10 then [digit_char n] else dec (n div 10) @ [digit_char (n mod 10)])"

declare dec.simps [simp del]

definition nat_of_digits :: "string \<Rightarrow> nat" where
  "nat_of_digits cs = foldl (\<lambda>a c. 10 * a + digit_val c) 0 cs"

definition str_int :: "int \<Rightarrow> string" where
  "str_int i = (if i < 0 then CHR ''-'' # dec (nat (- i)) else dec (nat i))"

text \<open>
  \<open>f"{n:02d}"\<close>, and also \<open>f"{n:0=2}"\<close>: zeros between the sign and the digits up to width two. A
  negative number has its sign and a digit, so no zero is added.
\<close>

definition pad2 :: "int \<Rightarrow> string" where
  "pad2 i = (if 0 \<le> i \<and> i < 10 then CHR ''0'' # dec (nat i) else str_int i)"

text \<open>\<open>int(text)\<close>: surrounding white space, a sign, digits with single underscores between them.\<close>

definition is_space :: "char \<Rightarrow> bool" where
  "is_space c \<longleftrightarrow> code c \<in> {9..13} \<union> {28..32} \<union> {133, 160}"

definition strip :: "string \<Rightarrow> string" where
  "strip s = rev (dropWhile is_space (rev (dropWhile is_space s)))"

fun int_literal :: "string \<Rightarrow> bool" where
  "int_literal [] \<longleftrightarrow> False"
| "int_literal [c] \<longleftrightarrow> is_digit c"
| "int_literal (c # d # cs) \<longleftrightarrow> is_digit c \<and> (if d = CHR ''_'' then int_literal cs else int_literal (d # cs))"

fun signed :: "string \<Rightarrow> int \<times> string" where
  "signed [] = (1, [])"
| "signed (c # cs) = (if c = CHR ''-'' then (-1, cs) else if c = CHR ''+'' then (1, cs) else (1, c # cs))"

definition python_int :: "string \<Rightarrow> int option" where
  "python_int s =
     (let (sg, u) = signed (strip s)
      in if int_literal u then Some (sg * int (nat_of_digits (filter is_digit u))) else None)"

text \<open>\<open>str.isdigit()\<close>.\<close>

definition isdigit :: "string \<Rightarrow> bool" where
  "isdigit s \<longleftrightarrow> s \<noteq> [] \<and> list_all is_digit s"

text \<open>\<open>s.split(c, n)\<close>: at most \<open>n\<close> splits from the left.\<close>

fun split_max :: "char \<Rightarrow> nat \<Rightarrow> string \<Rightarrow> string list" where
  "split_max c 0 s = [s]"
| "split_max c (Suc n) s =
     (if c \<in> set s then takeWhile (\<lambda>x. x \<noteq> c) s # split_max c n (tl (dropWhile (\<lambda>x. x \<noteq> c) s)) else [s])"

text \<open>\<open>s.split(c)\<close>.\<close>

definition split_all :: "char \<Rightarrow> string \<Rightarrow> string list" where
  "split_all c s = split_max c (length s) s"

definition starts_with :: "string \<Rightarrow> string \<Rightarrow> bool" where
  "starts_with p s \<longleftrightarrow> take (length p) s = p"

text \<open>\<open>str.lower()\<close> as far as the comparison with ASCII names goes.\<close>

definition lower_char :: "char \<Rightarrow> char" where
  "lower_char c = (if 65 \<le> code c \<and> code c \<le> 90 then char_of (code c + 32) else c)"

definition lower :: "string \<Rightarrow> string" where
  "lower s = map lower_char s"

text \<open>\<open>int(x)\<close> of a float cuts off the fraction.\<close>

definition py_truncate :: "real \<Rightarrow> int" where
  "py_truncate r = (if 0 \<le> r then \<lfloor>r\<rfloor> else \<lceil>r\<rceil>)"

text \<open>
  \<open>float(text)\<close>: surrounding white space, a sign, digits with a point, an exponent. Floats are real
  numbers here, so the texts of infinities and of not-a-number have no value.
\<close>

definition digits_or_none :: "string \<Rightarrow> bool" where
  "digits_or_none s \<longleftrightarrow> s = [] \<or> int_literal s"

definition mantissa :: "string \<Rightarrow> real option" where
  "mantissa s =
     (let ip = takeWhile (\<lambda>c. c \<noteq> CHR ''.'') s; fp = tl (dropWhile (\<lambda>c. c \<noteq> CHR ''.'') s);
          ds = filter is_digit ip; es = filter is_digit fp
      in if digits_or_none ip \<and> digits_or_none fp \<and> (ds \<noteq> [] \<or> es \<noteq> [])
         then Some (real (nat_of_digits ds) + real (nat_of_digits es) / 10 ^ length es) else None)"

definition exponent :: "string \<Rightarrow> int option" where
  "exponent s = (case s of [] \<Rightarrow> Some 0 | e # r \<Rightarrow> (let (sg, u) = signed r in if int_literal u then Some (sg * int (nat_of_digits (filter is_digit u))) else None))"

definition python_float :: "string \<Rightarrow> real option" where
  "python_float s =
     (let (sg, u) = signed (strip s); is_e = (\<lambda>c. c = CHR ''e'' \<or> c = CHR ''E'')
      in case (mantissa (takeWhile (\<lambda>c. \<not> is_e c) u), exponent (dropWhile (\<lambda>c. \<not> is_e c) u)) of
           (Some m, Some e) \<Rightarrow> Some (of_int sg * m * 10 powi e)
         | _ \<Rightarrow> None)"

subsection \<open>Digits and numbers\<close>

lemma code_digit_char [simp]: "n < 10 \<Longrightarrow> code (digit_char n) = 48 + n"
  by (simp add: code_def digit_char_def)

lemma is_digit_digit_char [simp]: "n < 10 \<Longrightarrow> is_digit (digit_char n)"
  by (simp add: is_digit_def)

lemma digit_val_digit_char [simp]: "n < 10 \<Longrightarrow> digit_val (digit_char n) = n"
  by (simp add: digit_val_def)

lemma digit_val_less: "is_digit c \<Longrightarrow> digit_val c < 10"
  unfolding is_digit_def digit_val_def by arith

lemma code_inj: "code c = code d \<Longrightarrow> c = d"
  by (simp add: code_def)

lemma not_digit [simp]:
  "\<not> is_digit CHR ''_''" "\<not> is_digit CHR '':''" "\<not> is_digit CHR ''-''" "\<not> is_digit CHR ''+''"
  by (simp_all add: is_digit_def code_def)

lemma digit_not_space: "is_digit c \<Longrightarrow> \<not> is_space c"
  by (auto simp: is_digit_def is_space_def)

lemma digit_neq: "is_digit c \<Longrightarrow> c \<noteq> CHR ''_'' \<and> c \<noteq> CHR '':'' \<and> c \<noteq> CHR ''-'' \<and> c \<noteq> CHR ''+''"
  using not_digit by metis

lemma nat_of_digits_Nil [simp]: "nat_of_digits [] = 0"
  by (simp add: nat_of_digits_def)

lemma nat_of_digits_snoc [simp]: "nat_of_digits (cs @ [c]) = 10 * nat_of_digits cs + digit_val c"
  by (simp add: nat_of_digits_def)

lemma nat_of_digits_single [simp]: "nat_of_digits [c] = digit_val c"
  by (simp add: nat_of_digits_def)

lemma nat_of_digits_pair [simp]: "nat_of_digits [c, d] = 10 * digit_val c + digit_val d"
  by (simp add: nat_of_digits_def)

lemma dec_digits: "list_all is_digit (dec n)"
  by (induction n rule: dec.induct) (subst dec.simps, simp)

lemma dec_nonempty [simp]: "dec n \<noteq> []"
  by (subst dec.simps) simp

lemma nat_of_digits_dec [simp]: "nat_of_digits (dec n) = n"
proof (induction n rule: dec.induct)
  case (1 n)
  show ?case
  proof (cases "n < 10")
    case True
    then show ?thesis by (subst dec.simps) simp
  next
    case False
    with 1 have "nat_of_digits (dec (n div 10)) = n div 10" by simp
    with False show ?thesis by (subst dec.simps) simp
  qed
qed

lemma dec_small: "n < 10 \<Longrightarrow> dec n = [digit_char n]"
  by (subst dec.simps) simp

lemma dec_two: "10 \<le> n \<Longrightarrow> n < 100 \<Longrightarrow> dec n = [digit_char (n div 10), digit_char (n mod 10)]"
  by (subst dec.simps) (simp add: dec_small)

lemma int_literal_digits: "s \<noteq> [] \<Longrightarrow> list_all is_digit s \<Longrightarrow> int_literal s"
  by (induction s rule: int_literal.induct) (auto dest: digit_neq)

lemma strip_digits: "list_all is_digit s \<Longrightarrow> strip s = s"
proof -
  assume digits: "list_all is_digit s"
  then have "dropWhile is_space s = s"
    by (cases s) (auto simp: digit_not_space)
  moreover have "dropWhile is_space (rev s) = rev s"
    using digits by (cases s rule: rev_cases) (auto simp: digit_not_space)
  ultimately show ?thesis by (simp add: strip_def)
qed

text \<open>\<open>int\<close> of a text of digits is its decimal value.\<close>

lemma python_int_digits:
  assumes "s \<noteq> []" and "list_all is_digit s"
  shows "python_int s = Some (int (nat_of_digits s))"
proof -
  obtain c cs where s: "s = c # cs" using assms(1) by (cases s) auto
  then have "signed s = (1, s)"
    using assms(2) digit_neq [of c] by simp
  moreover have "filter is_digit s = s"
    using assms(2) by (simp add: list_all_iff)
  ultimately show ?thesis
    using assms by (simp add: python_int_def strip_digits int_literal_digits)
qed

lemma pad2_digits: "0 \<le> i \<Longrightarrow> list_all is_digit (pad2 i)"
  using dec_digits [of "nat i"] by (auto simp: pad2_def str_int_def is_digit_def code_def)

lemma nat_of_digits_zero: "nat_of_digits (CHR ''0'' # cs) = nat_of_digits cs"
  by (simp add: nat_of_digits_def digit_val_def code_def)

lemma nat_of_digits_pad2 [simp]: "0 \<le> i \<Longrightarrow> nat_of_digits (pad2 i) = nat i"
  by (auto simp: pad2_def str_int_def nat_of_digits_zero)

lemma pad2_nonempty [simp]: "pad2 i \<noteq> []"
  by (simp add: pad2_def str_int_def)

lemma pad2_two:
  assumes "0 \<le> i" and "i < 100"
  shows "pad2 i = [digit_char (nat i div 10), digit_char (nat i mod 10)]"
proof (cases "i < 10")
  case True
  with assms have "nat i < 10" by simp
  moreover have "digit_char 0 = CHR ''0''"
    by (rule code_inj) (simp add: code_def digit_char_def)
  ultimately show ?thesis
    using assms True by (simp add: pad2_def dec_small)
next
  case False
  with assms show ?thesis by (simp add: pad2_def str_int_def dec_two)
qed

lemma python_int_pad2 [simp]: "0 \<le> i \<Longrightarrow> python_int (pad2 i) = Some i"
  by (simp add: python_int_digits pad2_digits)

lemma python_int_dec [simp]: "python_int (dec n) = Some (int n)"
  by (simp add: python_int_digits dec_digits)

subsection \<open>Splitting\<close>

lemma takeWhile_sep: "c \<notin> set a \<Longrightarrow> takeWhile (\<lambda>x. x \<noteq> c) (a @ c # b) = a"
  by (induction a) auto

lemma dropWhile_sep: "c \<notin> set a \<Longrightarrow> dropWhile (\<lambda>x. x \<noteq> c) (a @ c # b) = c # b"
  by (induction a) auto

lemma split_max_sep [simp]: "c \<notin> set a \<Longrightarrow> split_max c (Suc n) (a @ c # b) = a # split_max c n b"
  by (simp add: takeWhile_sep dropWhile_sep)

lemma split_max_none: "c \<notin> set s \<Longrightarrow> split_max c n s = [s]"
  by (cases n) auto

lemma split_all_two: "c \<notin> set a \<Longrightarrow> c \<notin> set b \<Longrightarrow> split_all c (a @ c # b) = [a, b]"
  by (simp add: split_all_def split_max_none takeWhile_sep dropWhile_sep)

lemma digits_no_sep: "list_all is_digit s \<Longrightarrow> CHR ''_'' \<notin> set s \<and> CHR '':'' \<notin> set s"
  using not_digit by (metis list_all_iff)

end
