(* ===== verification/Schedule_Time.thy ===== *)
theory Schedule_Time
  imports Text_Format
begin

section \<open>Times of day and durations of device schedules\<close>

text \<open>
  The text formats of \<open>model/schedule_models.py\<close> and \<open>model/week_profile.py\<close>: the regular
  expressions for times and durations with Python's reading of them, the conversions between times
  and minutes, and the encoding of a duration as a time base and a factor of at most 30.

  Exceptions are values. A \<open>ValueError\<close> stands for the validators' own and for the
  \<open>ValidationError\<close> of the model classes, which is a subclass; \<open>ValidationErr\<close> is the library's
  \<open>ValidationException\<close>, which is not. Messages are their translation keys.
\<close>

datatype schedule_error = ValueErr string | ValidationErr string | KeyErr string | AttributeErr

definition res_bind :: "'e + 'a \<Rightarrow> ('a \<Rightarrow> 'e + 'b) \<Rightarrow> 'e + 'b" where
  "res_bind r k = (case r of Inl e \<Rightarrow> Inl e | Inr x \<Rightarrow> k x)"

lemma res_bind_simps [simp]: "res_bind (Inl e) k = Inl e" "res_bind (Inr x) k = k x"
  by (simp_all add: res_bind_def)

lemma res_bind_Inr_iff: "res_bind r k = Inr y \<longleftrightarrow> (\<exists>x. r = Inr x \<and> k x = Inr y)"
  by (cases r) auto

fun res_list :: "('e + 'a) list \<Rightarrow> 'e + 'a list" where
  "res_list [] = Inr []"
| "res_list (r # rs) = res_bind r (\<lambda>x. res_bind (res_list rs) (\<lambda>xs. Inr (x # xs)))"

lemma res_list_Inr: "res_list (map Inr xs) = Inr xs"
  by (induction xs) simp_all

subsection \<open>Patterns\<close>

text \<open>
  \<open>_TIME_PATTERN\<close>: \<open>^([01]?\d|2[0-3]):([0-5]\d)$\<close>, with the two groups. The end anchor also accepts
  one line feed at the end of the text.
\<close>

fun hour_text :: "string \<Rightarrow> bool" where
  "hour_text [d] \<longleftrightarrow> is_digit d"
| "hour_text [t, d] \<longleftrightarrow>
     t \<in> {CHR ''0'', CHR ''1''} \<and> is_digit d \<or> t = CHR ''2'' \<and> d \<in> set ''0123''"
| "hour_text _ \<longleftrightarrow> False"

fun minute_text :: "string \<Rightarrow> bool" where
  "minute_text [t, d] \<longleftrightarrow> t \<in> set ''012345'' \<and> is_digit d"
| "minute_text _ \<longleftrightarrow> False"

definition at_end :: "string \<Rightarrow> bool" where
  "at_end s \<longleftrightarrow> s = [] \<or> map code s = [10]"

definition TIME_PATTERN :: "string \<Rightarrow> (string \<times> string) option" where
  "TIME_PATTERN s =
     (let h = takeWhile (\<lambda>x. x \<noteq> CHR '':'') s; r = dropWhile (\<lambda>x. x \<noteq> CHR '':'') s; m = take 2 (drop 1 r)
      in if hour_text h \<and> r \<noteq> [] \<and> minute_text m \<and> at_end (drop 3 r) then Some (h, m) else None)"

text \<open>
  \<open>SCHEDULER_TIME_PATTERN\<close>: \<open>^(([0-1]{0,1}[0-9])|(2[0-4])):[0-5][0-9]\<close>. It has no end anchor, so any
  text may follow, and the hour 24 is accepted with every minute.
\<close>

fun scheduler_hour :: "string \<Rightarrow> bool" where
  "scheduler_hour [d] \<longleftrightarrow> is_digit d"
| "scheduler_hour [t, d] \<longleftrightarrow>
     t \<in> {CHR ''0'', CHR ''1''} \<and> is_digit d \<or> t = CHR ''2'' \<and> d \<in> set ''01234''"
| "scheduler_hour _ \<longleftrightarrow> False"

definition SCHEDULER_TIME_PATTERN :: "string \<Rightarrow> bool" where
  "SCHEDULER_TIME_PATTERN s \<longleftrightarrow>
     (let h = takeWhile (\<lambda>x. x \<noteq> CHR '':'') s; r = dropWhile (\<lambda>x. x \<noteq> CHR '':'') s
      in scheduler_hour h \<and> r \<noteq> [] \<and> minute_text (take 2 (drop 1 r)))"

subsection \<open>Times\<close>

definition convert_time_to_hour_minute :: "string \<Rightarrow> schedule_error + nat \<times> nat" where
  "convert_time_to_hour_minute s =
     (case TIME_PATTERN s of
        None \<Rightarrow> Inl (ValueErr ''exception.model.schedule.invalid_time_format'')
      | Some (h, m) \<Rightarrow> Inr (nat_of_digits h, nat_of_digits m))"

definition convert_hour_minute_to_time :: "int \<Rightarrow> int \<Rightarrow> string" where
  "convert_hour_minute_to_time h m = pad2 h @ '':'' @ pad2 m"

definition time_to_minutes :: "string \<Rightarrow> schedule_error + int" where
  "time_to_minutes s =
     (if s = ''24:00'' then Inr 1440
      else case TIME_PATTERN s of
             None \<Rightarrow> Inl (ValueErr ''exception.model.schedule.invalid_time_format'')
           | Some (h, m) \<Rightarrow> Inr (int (nat_of_digits h) * 60 + int (nat_of_digits m)))"

definition convert_minutes_to_time_str :: "int \<Rightarrow> schedule_error + string" where
  "convert_minutes_to_time_str m =
     (let s = pad2 (m div 60) @ '':'' @ pad2 (m mod 60)
      in if SCHEDULER_TIME_PATTERN s then Inr s
         else Inl (ValidationErr ''exception.model.week_profile.validate.time_invalid_format''))"

definition convert_time_str_to_minutes :: "string \<Rightarrow> schedule_error + int" where
  "convert_time_str_to_minutes s =
     (if \<not> SCHEDULER_TIME_PATTERN s then Inl (ValidationErr ''exception.model.week_profile.validate.time_invalid_format'')
      else case map python_int (split_all CHR '':'' s) of
             [Some h, Some m] \<Rightarrow> Inr (h * 60 + m)
           | _ \<Rightarrow> Inl (ValidationErr ''exception.model.week_profile.validate.time_convert_failed''))"

subsection \<open>Durations\<close>

datatype time_base = MS_100 | SEC_1 | SEC_5 | SEC_10 | MIN_1 | MIN_5 | MIN_10 | HOUR_1

fun time_base_value :: "time_base \<Rightarrow> int" where
  "time_base_value MS_100 = 0"
| "time_base_value SEC_1 = 1"
| "time_base_value SEC_5 = 2"
| "time_base_value SEC_10 = 3"
| "time_base_value MIN_1 = 4"
| "time_base_value MIN_5 = 5"
| "time_base_value MIN_10 = 6"
| "time_base_value HOUR_1 = 7"

definition all_time_bases :: "time_base list" where
  "all_time_bases = [MS_100, SEC_1, SEC_5, SEC_10, MIN_1, MIN_5, MIN_10, HOUR_1]"

text \<open>\<open>TimeBase(n)\<close>, which raises \<open>ValueError\<close> for a value that no member has.\<close>

definition time_base_of :: "int \<Rightarrow> time_base option" where
  "time_base_of n = find (\<lambda>b. time_base_value b = n) all_time_bases"

datatype dur_unit = U_ms | U_s | U_min | U_h

fun unit_text :: "dur_unit \<Rightarrow> string" where
  "unit_text U_ms = ''ms''"
| "unit_text U_s = ''s''"
| "unit_text U_min = ''min''"
| "unit_text U_h = ''h''"

definition unit_of_text :: "string \<Rightarrow> dur_unit option" where
  "unit_of_text s = find (\<lambda>u. take (length (unit_text u)) s = unit_text u \<and> at_end (drop (length (unit_text u)) s))
                      [U_ms, U_s, U_min, U_h]"

text \<open>\<open>_DURATION_PATTERN\<close>: \<open>^(\d+)\s*(ms|s|min|h)$\<close> with the number and the unit.\<close>

definition DURATION_PATTERN :: "string \<Rightarrow> (nat \<times> dur_unit) option" where
  "DURATION_PATTERN s =
     (let ds = takeWhile is_digit s; r = dropWhile is_space (dropWhile is_digit s)
      in if ds = [] then None else map_option (\<lambda>u. (nat_of_digits ds, u)) (unit_of_text r))"

definition MAX_DURATION_FACTOR :: nat where
  "MAX_DURATION_FACTOR = 30"

definition TIME_BASE_IN_100MS :: "(time_base \<times> nat) list" where
  "TIME_BASE_IN_100MS =
     [(MS_100, 1), (SEC_1, 10), (SEC_5, 50), (SEC_10, 100), (MIN_1, 600), (MIN_5, 3000), (MIN_10, 6000), (HOUR_1, 36000)]"

fun NATURAL_BASE_INDEX :: "dur_unit \<Rightarrow> nat" where
  "NATURAL_BASE_INDEX U_ms = 0"
| "NATURAL_BASE_INDEX U_s = 1"
| "NATURAL_BASE_INDEX U_min = 4"
| "NATURAL_BASE_INDEX U_h = 7"

fun DURATION_UNIT_IN_100MS :: "dur_unit \<Rightarrow> nat" where
  "DURATION_UNIT_IN_100MS U_ms = 1"
| "DURATION_UNIT_IN_100MS U_s = 10"
| "DURATION_UNIT_IN_100MS U_min = 600"
| "DURATION_UNIT_IN_100MS U_h = 36000"

definition convert_duration_to_base_factor :: "string \<Rightarrow> schedule_error + time_base \<times> nat" where
  "convert_duration_to_base_factor s =
     (case DURATION_PATTERN s of
        None \<Rightarrow> Inl (ValueErr ''exception.model.schedule.invalid_duration_format'')
      | Some (v, u) \<Rightarrow>
          (let total_100ms = v * DURATION_UNIT_IN_100MS u
           in if u = U_ms \<and> total_100ms mod 100 \<noteq> 0
              then Inl (ValueErr ''exception.model.schedule.duration_factor_out_of_range'')
              else let total_100ms = (if u = U_ms then total_100ms div 100 else total_100ms)
                   in case find (\<lambda>(b, k). total_100ms mod k = 0 \<and> total_100ms div k \<le> MAX_DURATION_FACTOR)
                               (drop (NATURAL_BASE_INDEX u) TIME_BASE_IN_100MS) of
                        None \<Rightarrow> Inl (ValueErr ''exception.model.schedule.duration_factor_out_of_range'')
                      | Some (b, k) \<Rightarrow> Inr (b, total_100ms div k)))"

fun base_to_unit :: "time_base \<Rightarrow> dur_unit \<times> nat" where
  "base_to_unit MS_100 = (U_ms, 100)"
| "base_to_unit SEC_1 = (U_s, 1)"
| "base_to_unit SEC_5 = (U_s, 5)"
| "base_to_unit SEC_10 = (U_s, 10)"
| "base_to_unit MIN_1 = (U_min, 1)"
| "base_to_unit MIN_5 = (U_min, 5)"
| "base_to_unit MIN_10 = (U_min, 10)"
| "base_to_unit HOUR_1 = (U_h, 1)"

definition convert_base_factor_to_duration :: "time_base \<Rightarrow> int \<Rightarrow> string" where
  "convert_base_factor_to_duration b factor =
     (case base_to_unit b of (u, multiplier) \<Rightarrow> str_int (factor * int multiplier) @ unit_text u)"

subsection \<open>Facts on times\<close>

lemma digit_char_eqs:
  "digit_char 0 = CHR ''0''" "digit_char 1 = CHR ''1''" "digit_char (Suc 0) = CHR ''1''" "digit_char 2 = CHR ''2''"
  "digit_char 3 = CHR ''3''" "digit_char 4 = CHR ''4''" "digit_char 5 = CHR ''5''"
  by (rule code_inj, simp add: code_def digit_char_def)+

lemma less_cases_nat:
  "(n::nat) < 4 \<longleftrightarrow> n = 0 \<or> n = 1 \<or> n = 2 \<or> n = 3"
  "n < 5 \<longleftrightarrow> n = 0 \<or> n = 1 \<or> n = 2 \<or> n = 3 \<or> n = 4"
  "n < 6 \<longleftrightarrow> n = 0 \<or> n = 1 \<or> n = 2 \<or> n = 3 \<or> n = 4 \<or> n = 5"
  by arith+

lemma scheduler_hour_pad2:
  assumes "0 \<le> h" and "h < 25"
  shows "scheduler_hour (pad2 h)"
proof -
  define n where "n = nat h"
  have "n < 25" and pad: "pad2 h = [digit_char (n div 10), digit_char (n mod 10)]"
    using assms by (simp_all add: n_def pad2_two)
  then have "n div 10 = 0 \<or> n div 10 = 1 \<or> n div 10 = 2 \<and> n mod 10 < 5"
    by presburger
  then show ?thesis
    unfolding pad less_cases_nat by (elim disjE conjE) (simp_all add: digit_char_eqs)
qed

lemma hour_text_pad2:
  assumes "0 \<le> h" and "h < 24"
  shows "hour_text (pad2 h)"
proof -
  define n where "n = nat h"
  have "n < 24" and pad: "pad2 h = [digit_char (n div 10), digit_char (n mod 10)]"
    using assms by (simp_all add: n_def pad2_two)
  then have "n div 10 = 0 \<or> n div 10 = 1 \<or> n div 10 = 2 \<and> n mod 10 < 4"
    by presburger
  then show ?thesis
    unfolding pad less_cases_nat by (elim disjE conjE) (simp_all add: digit_char_eqs)
qed

lemma minute_text_pad2:
  assumes "0 \<le> m" and "m < 60"
  shows "minute_text (pad2 m)"
proof -
  define n where "n = nat m"
  have "n < 60" and pad: "pad2 m = [digit_char (n div 10), digit_char (n mod 10)]"
    using assms by (simp_all add: n_def pad2_two)
  then have "n div 10 < 6"
    by presburger
  then show ?thesis
    unfolding pad less_cases_nat by (elim disjE) (simp_all add: digit_char_eqs)
qed

lemma pad2_no_colon: "0 \<le> i \<Longrightarrow> CHR '':'' \<notin> set (pad2 i)"
  using digits_no_sep pad2_digits by blast

lemma length_pad2: "0 \<le> i \<Longrightarrow> i < 100 \<Longrightarrow> length (pad2 i) = 2"
  by (simp add: pad2_two)

lemma time_split:
  assumes "0 \<le> h" and "0 \<le> m" and "m < 60"
  shows "takeWhile (\<lambda>x. x \<noteq> CHR '':'') (pad2 h @ '':'' @ pad2 m) = pad2 h"
    and "dropWhile (\<lambda>x. x \<noteq> CHR '':'') (pad2 h @ '':'' @ pad2 m) = CHR '':'' # pad2 m"
  using takeWhile_sep [OF pad2_no_colon [OF assms(1)], of "pad2 m"]
    dropWhile_sep [OF pad2_no_colon [OF assms(1)], of "pad2 m"] by simp_all

lemma TIME_PATTERN_pad2:
  assumes "0 \<le> h" "h < 24" "0 \<le> m" "m < 60"
  shows "TIME_PATTERN (pad2 h @ '':'' @ pad2 m) = Some (pad2 h, pad2 m)"
  unfolding TIME_PATTERN_def time_split [OF assms(1,3,4)]
  using assms by (simp add: Let_def hour_text_pad2 minute_text_pad2 length_pad2 at_end_def)

text \<open>The time an hour and a minute print as reads back as them.\<close>

lemma hour_minute_roundtrip:
  assumes "0 \<le> h" "h < 24" "0 \<le> m" "m < 60"
  shows "convert_time_to_hour_minute (convert_hour_minute_to_time h m) = Inr (nat h, nat m)"
  using assms TIME_PATTERN_pad2 [of h m]
  by (simp add: convert_time_to_hour_minute_def convert_hour_minute_to_time_def)

definition clock :: "int \<Rightarrow> string" where
  "clock m = pad2 (m div 60) @ '':'' @ pad2 (m mod 60)"

lemma clock_24 [simp]: "clock 1440 = ''24:00''"
  by (simp add: clock_def pad2_two digit_char_eqs)

lemma clock_0 [simp]: "clock 0 = ''00:00''"
  by (simp add: clock_def pad2_two digit_char_eqs)

lemma minutes_of_day: "0 \<le> (m::int) \<Longrightarrow> m \<le> 1440 \<Longrightarrow> 0 \<le> m div 60 \<and> m div 60 < 25 \<and> 0 \<le> m mod 60 \<and> m mod 60 < 60"
  by (simp add: pos_imp_zdiv_nonneg_iff)

lemma scheduler_time_clock:
  assumes "0 \<le> m" "m \<le> 1440"
  shows "SCHEDULER_TIME_PATTERN (clock m)"
  using minutes_of_day [OF assms] time_split [of "m div 60" "m mod 60"]
  by (simp add: SCHEDULER_TIME_PATTERN_def clock_def Let_def scheduler_hour_pad2 minute_text_pad2 length_pad2)

lemma convert_minutes_clock:
  assumes "0 \<le> m" "m \<le> 1440"
  shows "convert_minutes_to_time_str m = Inr (clock m)"
  using scheduler_time_clock [OF assms] by (simp add: convert_minutes_to_time_str_def clock_def)

lemma convert_time_str_clock:
  assumes "0 \<le> m" "m \<le> 1440"
  shows "convert_time_str_to_minutes (clock m) = Inr m"
proof -
  have "split_all CHR '':'' (clock m) = [pad2 (m div 60), pad2 (m mod 60)]"
    using minutes_of_day [OF assms] pad2_no_colon split_all_two [of "CHR '':''" "pad2 (m div 60)" "pad2 (m mod 60)"]
    by (simp add: clock_def)
  then show ?thesis
    using scheduler_time_clock [OF assms] minutes_of_day [OF assms]
    by (simp add: convert_time_str_to_minutes_def)
qed

lemma time_to_minutes_clock:
  assumes "0 \<le> m" "m \<le> 1440"
  shows "time_to_minutes (clock m) = Inr m"
proof (cases "m = 1440")
  case False
  with assms have "m div 60 < 24" by simp
  with minutes_of_day [OF assms] have "TIME_PATTERN (clock m) = Some (pad2 (m div 60), pad2 (m mod 60))"
    by (simp only: clock_def) (rule TIME_PATTERN_pad2, simp_all)
  moreover have "clock m \<noteq> ''24:00''"
  proof
    assume "clock m = ''24:00''"
    then have "Inr m = (Inr 1440 :: schedule_error + int)"
      using convert_time_str_clock [OF assms] convert_time_str_clock [of 1440] by simp
    with False show False by simp
  qed
  ultimately show ?thesis
    using minutes_of_day [OF assms] by (simp add: time_to_minutes_def)
qed (simp add: time_to_minutes_def)

lemma hour_text_digits: "hour_text h \<Longrightarrow> h \<noteq> [] \<and> list_all is_digit h \<and> nat_of_digits h < 24 \<and> scheduler_hour h"
  by (cases h rule: hour_text.cases)
    (auto simp: is_digit_def digit_val_def code_def less_Suc_eq_le dest: digit_val_less)

lemma minute_text_digits: "minute_text m \<Longrightarrow> m \<noteq> [] \<and> list_all is_digit m \<and> nat_of_digits m < 60 \<and> length m = 2"
  by (cases m rule: minute_text.cases)
    (auto simp: is_digit_def digit_val_def code_def less_Suc_eq_le dest: digit_val_less)

lemma at_end_space: "at_end t \<Longrightarrow> list_all is_space t \<and> CHR '':'' \<notin> set t"
  by (auto simp: at_end_def is_space_def map_eq_Cons_conv code_def)

lemma python_int_trailing:
  assumes "s \<noteq> []" and "list_all is_digit s" and "list_all is_space t"
  shows "python_int (s @ t) = Some (int (nat_of_digits s))"
proof -
  obtain c cs where s: "s = c # cs" using assms(1) by (cases s) auto
  then have "\<not> is_space c"
    using assms(2) digit_not_space by simp
  then have "dropWhile is_space (s @ t) = s @ t"
    by (simp add: s)
  moreover have "dropWhile is_space (rev (s @ t)) = rev s"
  proof -
    have "dropWhile is_space (rev s) = rev s"
      using assms(2) by (cases s rule: rev_cases) (auto simp: digit_not_space)
    then show ?thesis
      using assms(3) dropWhile_append2 [of "rev t" is_space "rev s"] by (simp add: list_all_iff)
  qed
  ultimately have "strip (s @ t) = strip s"
    using assms(2) by (simp add: strip_def [of "s @ t"] strip_digits)
  then show ?thesis
    using python_int_digits [OF assms(1,2)] by (simp add: python_int_def)
qed

lemma TIME_PATTERN_SomeD:
  assumes "TIME_PATTERN s = Some (h, m)"
  shows "\<exists>t. s = h @ CHR '':'' # m @ t \<and> hour_text h \<and> minute_text m \<and> at_end t"
proof -
  let ?r = "dropWhile (\<lambda>x. x \<noteq> CHR '':'') s"
  have h: "h = takeWhile (\<lambda>x. x \<noteq> CHR '':'') s" and m: "m = take 2 (drop 1 ?r)"
    and *: "hour_text h" "?r \<noteq> []" "minute_text m" "at_end (drop 3 ?r)"
    using assms by (auto simp: TIME_PATTERN_def Let_def split: if_splits)
  obtain r where r: "?r = CHR '':'' # r"
    using \<open>?r \<noteq> []\<close> hd_dropWhile [OF \<open>?r \<noteq> []\<close>] by (cases ?r) auto
  have "s = h @ CHR '':'' # m @ drop 2 r"
    using takeWhile_dropWhile_id [of "\<lambda>x. x \<noteq> CHR '':''" s] by (simp add: h m r)
  moreover have "at_end (drop 2 r)"
    using *(4) by (simp add: r)
  ultimately show ?thesis
    using * by blast
qed

text \<open>A time the schedule models accept means the same in both conversions to minutes.\<close>

lemma time_to_minutesD:
  assumes "time_to_minutes s = Inr m"
  shows "convert_time_str_to_minutes s = Inr m" and "0 \<le> m" and "m \<le> 1440"
    and "m = 1440 \<longleftrightarrow> s = ''24:00''"
proof -
  have "convert_time_str_to_minutes s = Inr m \<and> 0 \<le> m \<and> m \<le> 1440 \<and> (m = 1440 \<longleftrightarrow> s = ''24:00'')"
  proof (cases "s = ''24:00''")
    case True
    with assms convert_time_str_clock [of 1440] show ?thesis
      by (simp add: time_to_minutes_def)
  next
    case False
    with assms obtain h mm where pat: "TIME_PATTERN s = Some (h, mm)"
      and m: "m = int (nat_of_digits h) * 60 + int (nat_of_digits mm)"
      by (auto simp: time_to_minutes_def split: option.splits)
    then obtain t where s: "s = h @ CHR '':'' # mm @ t" and h: "hour_text h" and mm: "minute_text mm" and t: "at_end t"
      using TIME_PATTERN_SomeD by blast
    note hd = hour_text_digits [OF h] and md = minute_text_digits [OF mm] and ts = at_end_space [OF t]
    have nc: "CHR '':'' \<notin> set h" "CHR '':'' \<notin> set (mm @ t)"
      using hd md ts digits_no_sep by auto
    have "SCHEDULER_TIME_PATTERN s"
      using hd md mm by (simp add: SCHEDULER_TIME_PATTERN_def Let_def s takeWhile_sep [OF nc(1)] dropWhile_sep [OF nc(1)])
    moreover have "split_all CHR '':'' s = [h, mm @ t]"
      using split_all_two [OF nc] by (simp add: s)
    ultimately have "convert_time_str_to_minutes s = Inr m"
      using hd md ts by (simp add: convert_time_str_to_minutes_def python_int_digits python_int_trailing m)
    with False hd md m show ?thesis by linarith
  qed
  then show "convert_time_str_to_minutes s = Inr m" "0 \<le> m" "m \<le> 1440" "m = 1440 \<longleftrightarrow> s = ''24:00''"
    by simp_all
qed

lemma convert_time_to_hour_minuteD:
  assumes "convert_time_to_hour_minute s = Inr (h, m)"
  shows "h < 24" and "m < 60" and "time_to_minutes s = Inr (int h * 60 + int m)"
proof -
  obtain ht mt where pat: "TIME_PATTERN s = Some (ht, mt)" and hm: "h = nat_of_digits ht" "m = nat_of_digits mt"
    using assms by (auto simp: convert_time_to_hour_minute_def split: option.splits)
  have "hour_text ht" "minute_text mt"
    using TIME_PATTERN_SomeD [OF pat] by blast+
  then show "h < 24" "m < 60"
    using hour_text_digits minute_text_digits hm by blast+
  have "s \<noteq> ''24:00''"
    using pat by (auto simp: TIME_PATTERN_def)
  then show "time_to_minutes s = Inr (int h * 60 + int m)"
    by (simp add: time_to_minutes_def pat hm)
qed

subsection \<open>Facts on durations\<close>

fun unit_ms :: "dur_unit \<Rightarrow> nat" where
  "unit_ms U_ms = 1"
| "unit_ms U_s = 1000"
| "unit_ms U_min = 60000"
| "unit_ms U_h = 3600000"

fun base_ms :: "time_base \<Rightarrow> nat" where
  "base_ms MS_100 = 100"
| "base_ms SEC_1 = 1000"
| "base_ms SEC_5 = 5000"
| "base_ms SEC_10 = 10000"
| "base_ms MIN_1 = 60000"
| "base_ms MIN_5 = 300000"
| "base_ms MIN_10 = 600000"
| "base_ms HOUR_1 = 3600000"

text \<open>What a duration means: the milliseconds a text that fits the pattern denotes.\<close>

definition duration_ms :: "string \<Rightarrow> nat option" where
  "duration_ms s = map_option (\<lambda>(v, u). v * unit_ms u) (DURATION_PATTERN s)"

lemma unit_of_text_unit [simp]: "unit_of_text (unit_text u) = Some u"
  by (cases u) (simp_all add: unit_of_text_def at_end_def code_def)

lemma DURATION_PATTERN_print: "DURATION_PATTERN (dec n @ unit_text u) = Some (n, u)"
proof -
  obtain c cs where u: "unit_text u = c # cs" and c: "\<not> is_digit c" "\<not> is_space c"
    by (cases u) (auto simp: is_digit_def is_space_def code_def)
  have "takeWhile is_digit (dec n @ unit_text u) = dec n" and "dropWhile is_digit (dec n @ unit_text u) = unit_text u"
    using dec_digits [of n] c u by (simp_all add: list_all_iff)
  moreover have "dropWhile is_space (unit_text u) = unit_text u"
    using c u by simp
  ultimately show ?thesis by (simp add: DURATION_PATTERN_def)
qed

lemma duration_ms_print: "duration_ms (convert_base_factor_to_duration b (int f)) = Some (f * base_ms b)"
proof -
  obtain u k where bu: "base_to_unit b = (u, k)" by force
  then have "convert_base_factor_to_duration b (int f) = dec (f * k) @ unit_text u"
    by (simp add: convert_base_factor_to_duration_def str_int_def nat_mult_distrib mult_less_0_iff)
  moreover have "k * unit_ms u = base_ms b"
    using bu by (cases b) auto
  ultimately show ?thesis
    by (simp add: duration_ms_def DURATION_PATTERN_print)
qed

lemma find_SomeD: "find P xs = Some x \<Longrightarrow> x \<in> set xs \<and> P x"
  by (induction xs) (auto split: if_splits)

text \<open>The search of the encoder finds a base exactly when some base represents the duration.\<close>

lemma base_search_sound:
  assumes "find (\<lambda>(b, k). ttl mod k = 0 \<and> ttl div k \<le> MAX_DURATION_FACTOR) (drop i TIME_BASE_IN_100MS) = Some (b, k)"
  shows "ttl div k \<le> 30" and "ttl div k * base_ms b = ttl * 100"
proof -
  have in_table: "(b, k) \<in> set TIME_BASE_IN_100MS" and div: "ttl mod k = 0" "ttl div k \<le> MAX_DURATION_FACTOR"
    using find_SomeD [OF assms] by (auto dest: in_set_dropD)
  then show "ttl div k \<le> 30" by (simp add: MAX_DURATION_FACTOR_def)
  have "base_ms b = k * 100"
    using in_table by (auto simp: TIME_BASE_IN_100MS_def)
  then show "ttl div k * base_ms b = ttl * 100"
    using div(1) mod_mult_div_eq [of ttl k] by (simp add: mult.assoc [symmetric] mult.commute)
qed

lemma base_search_complete:
  assumes none: "find (\<lambda>(b, k). ttl mod k = 0 \<and> ttl div k \<le> MAX_DURATION_FACTOR)
                   (drop (NATURAL_BASE_INDEX u) TIME_BASE_IN_100MS) = None"
    and nat: "ttl = v * DURATION_UNIT_IN_100MS u" and f: "f \<le> 30"
  shows "f * base_ms b \<noteq> ttl * 100"
proof
  assume eq: "f * base_ms b = ttl * 100"
  have no: "\<And>b' k. (b', k) \<in> set (drop (NATURAL_BASE_INDEX u) TIME_BASE_IN_100MS) \<Longrightarrow>
      ttl mod k = 0 \<Longrightarrow> 30 < ttl div k"
    using none by (force simp: find_None_iff MAX_DURATION_FACTOR_def)
  have table: "\<exists>k. (b, k) \<in> set TIME_BASE_IN_100MS \<and> base_ms b = k * 100"
    by (cases b) (auto simp: TIME_BASE_IN_100MS_def)
  then obtain k where bk: "(b, k) \<in> set TIME_BASE_IN_100MS" and kb: "base_ms b = k * 100" by blast
  then have fk: "f * k = ttl" and k: "0 < k"
    using eq by (auto simp: TIME_BASE_IN_100MS_def)
  define n where "n = (if u = U_ms then 1 else DURATION_UNIT_IN_100MS u)"
  have natural: "\<exists>b'. (b', n) \<in> set (drop (NATURAL_BASE_INDEX u) TIME_BASE_IN_100MS)" and n: "0 < n" and tn: "ttl = v * n"
    using nat by (cases u; auto simp: TIME_BASE_IN_100MS_def n_def)+
  show False
  proof (cases "(b, k) \<in> set (drop (NATURAL_BASE_INDEX u) TIME_BASE_IN_100MS)")
    case True
    from no [OF this] fk k f show False by auto
  next
    case False
    with bk have "k \<le> n"
      by (cases u) (auto simp: TIME_BASE_IN_100MS_def n_def)
    then have "v * k \<le> f * k"
      using fk tn by (metis mult_le_mono2)
    with k f have "v \<le> 30" by simp
    moreover from natural no tn n have "30 < v" by force
    ultimately show False by simp
  qed
qed

text \<open>The meaning of both outcomes of the encoder.\<close>

lemma convert_duration_InrD:
  assumes "convert_duration_to_base_factor s = Inr (b, f)"
  shows "f \<le> 30" and "duration_ms s = Some (f * base_ms b)"
proof -
  obtain v u where pat: "DURATION_PATTERN s = Some (v, u)"
    using assms by (auto simp: convert_duration_to_base_factor_def split: option.splits)
  define ttl where "ttl = (if u = U_ms then v div 100 else v * DURATION_UNIT_IN_100MS u)"
  have ms: "u = U_ms \<Longrightarrow> v mod 100 = 0"
    using assms by (auto simp: convert_duration_to_base_factor_def pat split: if_splits)
  obtain k where found: "find (\<lambda>(b, k). ttl mod k = 0 \<and> ttl div k \<le> MAX_DURATION_FACTOR)
      (drop (NATURAL_BASE_INDEX u) TIME_BASE_IN_100MS) = Some (b, k)" and f: "f = ttl div k"
    using assms
    by (cases "u = U_ms") (auto simp: convert_duration_to_base_factor_def pat ttl_def Let_def split: if_splits option.splits)
  show "f \<le> 30" using base_search_sound(1) [OF found] f by simp
  have "ttl * 100 = v * unit_ms u"
    using ms by (cases u) (auto simp: ttl_def)
  then show "duration_ms s = Some (f * base_ms b)"
    using base_search_sound(2) [OF found] by (simp add: duration_ms_def pat f)
qed

lemma convert_duration_InlD:
  assumes "convert_duration_to_base_factor s = Inl e" and "duration_ms s = Some t" and "f \<le> 30"
  shows "f * base_ms b \<noteq> t"
proof -
  obtain v u where pat: "DURATION_PATTERN s = Some (v, u)" and t: "t = v * unit_ms u"
    using assms(2) by (auto simp: duration_ms_def)
  have hundred: "\<exists>k. base_ms b = k * 100" by (cases b) (auto intro: exI [of _ 1] exI [of _ 10] exI [of _ 50]
      exI [of _ 100] exI [of _ 600] exI [of _ 3000] exI [of _ 6000] exI [of _ 36000])
  show ?thesis
  proof (cases "u = U_ms \<and> v mod 100 \<noteq> 0")
    case True
    with hundred t show ?thesis by auto
  next
    case False
    define ttl where "ttl = (if u = U_ms then v div 100 else v * DURATION_UNIT_IN_100MS u)"
    have none: "find (\<lambda>(b, k). ttl mod k = 0 \<and> ttl div k \<le> MAX_DURATION_FACTOR)
        (drop (NATURAL_BASE_INDEX u) TIME_BASE_IN_100MS) = None"
      using assms(1) False
      by (cases "u = U_ms") (auto simp: convert_duration_to_base_factor_def pat ttl_def Let_def split: option.splits)
    have "ttl = (if u = U_ms then ttl else v) * DURATION_UNIT_IN_100MS u"
      by (cases u) (simp_all add: ttl_def)
    from base_search_complete [OF none this assms(3), of b] False t show ?thesis
      by (cases u) (auto simp: ttl_def)
  qed
qed

text \<open>
  C36: The encoding of durations is exact and complete. A duration text is encoded as a time base and
  a factor of at most 30 whose product is the duration, and the text these print as denotes the same
  duration and is accepted and encoded without loss again. The encoder refuses a text only when no
  time base and factor up to 30 at all represents its duration, although it never looks below the
  base its unit suggests.
\<close>

theorem duration_encoding:
  assumes "duration_ms s = Some t"
  shows "case convert_duration_to_base_factor s of
           Inr (b, f) \<Rightarrow>
             f \<le> 30 \<and> f * base_ms b = t \<and>
             duration_ms (convert_base_factor_to_duration b (int f)) = Some t \<and>
             (\<exists>b' f'. convert_duration_to_base_factor (convert_base_factor_to_duration b (int f)) = Inr (b', f') \<and>
                      f' * base_ms b' = t)
         | Inl e \<Rightarrow> \<forall>b f. f \<le> 30 \<longrightarrow> f * base_ms b \<noteq> t"
proof (cases "convert_duration_to_base_factor s")
  case (Inl e)
  then show ?thesis
    using convert_duration_InlD [OF _ assms] by auto
next
  case (Inr r)
  obtain b f where bf: "convert_duration_to_base_factor s = Inr (b, f)"
    using Inr by (cases r) auto
  have f: "f \<le> 30" "f * base_ms b = t"
    using convert_duration_InrD [OF bf] assms by auto
  let ?s' = "convert_base_factor_to_duration b (int f)"
  have ms: "duration_ms ?s' = Some t"
    by (simp add: duration_ms_print f)
  obtain b' f' where "convert_duration_to_base_factor ?s' = Inr (b', f')"
    using convert_duration_InlD [OF _ ms f(1), of _ b] f(2) by (cases "convert_duration_to_base_factor ?s'") auto
  with bf f ms convert_duration_InrD(2) [of ?s'] show ?thesis
    by (auto simp del: base_ms.simps)
qed

lemmas duration_eval = convert_duration_to_base_factor_def DURATION_PATTERN_def unit_of_text_def at_end_def
  TIME_BASE_IN_100MS_def MAX_DURATION_FACTOR_def nat_of_digits_def is_digit_def digit_val_def is_space_def code_def Let_def

theorem duration_encoding_witness:
  "convert_duration_to_base_factor ''600s'' = Inr (MIN_1, 10) \<and> 10 * base_ms MIN_1 = 600000 \<and>
   (\<exists>e. convert_duration_to_base_factor ''31h'' = Inl e)"
proof -
  have 600: "convert_duration_to_base_factor ''600s'' = Inr (MIN_1, 10)"
    by (simp add: duration_eval)
  have "duration_ms ''600s'' = Some 600000"
    by (simp add: duration_ms_def duration_eval)
  from duration_encoding [OF this] 600 have "10 * base_ms MIN_1 = 600000"
    by simp
  moreover have "\<exists>e. convert_duration_to_base_factor ''31h'' = Inl e"
    by (simp add: duration_eval)
  ultimately show ?thesis
    using 600 by blast
qed

end
