(* ===== verification/Schedule_Const.thy ===== *)
theory Schedule_Const
  imports Schedule_Time
begin

section \<open>Enumerations of device schedules\<close>

text \<open>
  The enumerations of \<open>const.py\<close> that device schedules are made of, with their values and the
  look-ups of a member by name or value, which fail where Python raises. \<open>WeekdayInt\<close> and \<open>WeekdayStr\<close>
  have the same members in different order and share one type.
\<close>

datatype raw_value = RInt int | RFloat real

datatype weekday = SUNDAY | MONDAY | TUESDAY | WEDNESDAY | THURSDAY | FRIDAY | SATURDAY

fun weekday_name :: "weekday \<Rightarrow> string" where
  "weekday_name SUNDAY = ''SUNDAY''"
| "weekday_name MONDAY = ''MONDAY''"
| "weekday_name TUESDAY = ''TUESDAY''"
| "weekday_name WEDNESDAY = ''WEDNESDAY''"
| "weekday_name THURSDAY = ''THURSDAY''"
| "weekday_name FRIDAY = ''FRIDAY''"
| "weekday_name SATURDAY = ''SATURDAY''"

text \<open>The members of \<open>WeekdayInt\<close> in order, whose values are the powers of two.\<close>

definition all_weekdays :: "weekday list" where
  "all_weekdays = [SUNDAY, MONDAY, TUESDAY, WEDNESDAY, THURSDAY, FRIDAY, SATURDAY]"

fun weekday_value :: "weekday \<Rightarrow> nat" where
  "weekday_value SUNDAY = 1"
| "weekday_value MONDAY = 2"
| "weekday_value TUESDAY = 4"
| "weekday_value WEDNESDAY = 8"
| "weekday_value THURSDAY = 16"
| "weekday_value FRIDAY = 32"
| "weekday_value SATURDAY = 64"

definition weekday_of_name :: "string \<Rightarrow> weekday option" where
  "weekday_of_name s = find (\<lambda>d. weekday_name d = s) all_weekdays"

datatype schedule_profile = P1 | P2 | P3 | P4 | P5 | P6

fun profile_name :: "schedule_profile \<Rightarrow> string" where
  "profile_name P1 = ''P1''"
| "profile_name P2 = ''P2''"
| "profile_name P3 = ''P3''"
| "profile_name P4 = ''P4''"
| "profile_name P5 = ''P5''"
| "profile_name P6 = ''P6''"

definition all_profiles :: "schedule_profile list" where
  "all_profiles = [P1, P2, P3, P4, P5, P6]"

definition profile_of_name :: "string \<Rightarrow> schedule_profile option" where
  "profile_of_name s = find (\<lambda>p. profile_name p = s) all_profiles"

lemma weekday_of_name [simp]: "weekday_of_name (weekday_name d) = Some d"
  by (cases d) (simp_all add: weekday_of_name_def all_weekdays_def)

lemma profile_of_name [simp]: "profile_of_name (profile_name p) = Some p"
  by (cases p) (simp_all add: profile_of_name_def all_profiles_def)

lemma weekday_in_all [simp]: "d \<in> set all_weekdays"
  by (cases d) (simp_all add: all_weekdays_def)

lemma profile_in_all [simp]: "p \<in> set all_profiles"
  by (cases p) (simp_all add: all_profiles_def)

lemma names_no_underscore [simp]: "CHR ''_'' \<notin> set (weekday_name d)" "CHR ''_'' \<notin> set (profile_name p)"
  by (cases d, simp_all, cases p, simp_all)

lemma lower_slot_types: "lower ''ENDTIME'' = ''endtime''" "lower ''TEMPERATURE'' = ''temperature''"
  by (simp add: lower_def, intro conjI; rule code_inj; simp add: lower_char_def code_def)+

subsection \<open>Paramsets of a device\<close>

text \<open>What a device holds once a paramset was put: the parameters sent replace those of the device and leave the others.\<close>

definition put_paramset_values :: "(string, raw_value) dict \<Rightarrow> (string, raw_value) dict \<Rightarrow> (string, raw_value) dict" where
  "put_paramset_values vals device = foldl (\<lambda>d (k, v). dict_set k v d) device vals"

lemma put_values_get:
  "dict_wf vals \<Longrightarrow> dict_get (put_paramset_values vals device) k =
     (case dict_get vals k of Some v \<Rightarrow> Some v | None \<Rightarrow> dict_get device k)"
proof (induction vals arbitrary: device)
  case (Cons kv vals)
  obtain k' v where kv: "kv = (k', v)" by force
  have "dict_wf vals" "dict_get vals k' = None"
    using Cons.prems by (auto simp: dict_wf_def kv dict_get_None_iff)
  with Cons.IH [of "dict_set k' v device"] show ?case
    by (auto simp: put_paramset_values_def kv dict_get_Cons split: option.splits)
qed (simp add: put_paramset_values_def)

lemma put_values_wf: "dict_wf device \<Longrightarrow> dict_wf (put_paramset_values vals device)"
  by (induction vals arbitrary: device) (auto simp: put_paramset_values_def split_beta)

lemma put_values_set: "set (put_paramset_values vals device) \<subseteq> set vals \<union> set device"
proof (induction vals arbitrary: device)
  case (Cons kv vals)
  have "set (dict_set k v d) \<subseteq> insert (k, v) (set d)" for k v and d :: "(string, raw_value) dict"
    by (induction d) (auto simp: dict_set_def)
  then show ?case
    using Cons [of "dict_set (fst kv) (snd kv) device"] by (fastforce simp: put_paramset_values_def split_beta)
qed (simp add: put_paramset_values_def)

end
