(* ===== verification/Climate_Profile.thy ===== *)
theory Climate_Profile
  imports Schedule_Const
begin

section \<open>Week profiles of thermostats\<close>

text \<open>
  The climate part of \<open>model/schedule_models.py\<close> (periods, weekday schedules and their validators)
  and of \<open>model/week_profile.py\<close> (\<open>ClimateWeekProfile\<close> and its helpers): the simple format of a
  weekday, a base temperature and periods, the thirteen slots the device stores, the raw parameters
  of the paramset, and the conversions in both directions.

  A device program is given its meaning by \<open>slot_temp\<close>, the temperature of the first slot that ends
  after a minute; a simple schedule by \<open>simple_temp\<close>, the temperature of the period around a minute
  or else the base temperature.
\<close>

subsection \<open>Simple format\<close>

record climate_period =
  cp_starttime :: string
  cp_endtime :: string
  cp_temperature :: real

record climate_weekday =
  cw_base_temperature :: real
  cw_periods :: "climate_period list"

definition validate_time_format :: "string \<Rightarrow> schedule_error + string" where
  "validate_time_format v =
     (if v = ''24:00'' then Inr v
      else if TIME_PATTERN v = None then Inl (ValueErr ''exception.model.schedule.invalid_time_format'')
      else Inr v)"

definition validate_time_range :: "climate_period \<Rightarrow> schedule_error + climate_period" where
  "validate_time_range p =
     res_bind (time_to_minutes (cp_starttime p)) (\<lambda>s.
     res_bind (time_to_minutes (cp_endtime p)) (\<lambda>e.
       if e \<le> s then Inl (ValueErr ''exception.model.week_profile.validate.start_before_end'') else Inr p))"

text \<open>Construction of a \<open>ClimateSchedulePeriod\<close>: the field validators, then the range check.\<close>

definition make_period :: "string \<Rightarrow> string \<Rightarrow> real \<Rightarrow> schedule_error + climate_period" where
  "make_period st en t =
     res_bind (validate_time_format st) (\<lambda>_.
     res_bind (validate_time_format en) (\<lambda>_.
       validate_time_range \<lparr>cp_starttime = st, cp_endtime = en, cp_temperature = t\<rparr>))"

text \<open>
  The minutes a time stands for, as the key of a sort. The code's key function raises for a text that
  is no time; the texts it is applied to have passed the validators.
\<close>

definition minutes_of :: "string \<Rightarrow> int" where
  "minutes_of s = (case time_to_minutes s of Inr m \<Rightarrow> m | Inl _ \<Rightarrow> 0)"

fun check_overlaps :: "climate_period list \<Rightarrow> bool" where
  "check_overlaps (p # q # ps) \<longleftrightarrow> minutes_of (cp_endtime p) \<le> minutes_of (cp_starttime q) \<and> check_overlaps (q # ps)"
| "check_overlaps _ \<longleftrightarrow> True"

definition validate_non_overlapping_periods :: "climate_weekday \<Rightarrow> schedule_error + climate_weekday" where
  "validate_non_overlapping_periods w =
     (if check_overlaps (sort_key (\<lambda>p. minutes_of (cp_starttime p)) (cw_periods w)) then Inr w
      else Inl (ValueErr ''exception.model.week_profile.validate.overlap''))"

definition make_weekday :: "real \<Rightarrow> climate_period list \<Rightarrow> schedule_error + climate_weekday" where
  "make_weekday base ps = validate_non_overlapping_periods \<lparr>cw_base_temperature = base, cw_periods = ps\<rparr>"

text \<open>\<open>ClimateWeekdaySchedule.model_validate\<close> on the fields of a weekday.\<close>

definition validate_weekday :: "climate_weekday \<Rightarrow> schedule_error + climate_weekday" where
  "validate_weekday w =
     res_bind (res_list (map (\<lambda>p. make_period (cp_starttime p) (cp_endtime p) (cp_temperature p)) (cw_periods w)))
       (\<lambda>ps. make_weekday (cw_base_temperature w) ps)"

subsection \<open>Slots of a weekday\<close>

text \<open>
  A slot is a dictionary with the keys \<open>endtime\<close> and \<open>temperature\<close>, either of which the device data may
  lack. The end time is an integer or a text; a raw value that is a float stays one.
\<close>

datatype slot_time = TInt int | TFloat real | TText string

record schedule_slot =
  sl_endtime :: "slot_time option"
  sl_temperature :: "real option"

type_synonym weekday_slots = "(int, schedule_slot) dict"

definition CLIMATE_MAX_SCHEDULER_TIME :: string where
  "CLIMATE_MAX_SCHEDULER_TIME = ''24:00''"

definition CLIMATE_MIN_SCHEDULER_TIME :: string where
  "CLIMATE_MIN_SCHEDULER_TIME = ''00:00''"

definition CLIMATE_SCHEDULE_SLOT_IN_RANGE :: "int list" where
  "CLIMATE_SCHEDULE_SLOT_IN_RANGE = [1..13]"

definition DEFAULT_CLIMATE_FILL_TEMPERATURE :: real where
  "DEFAULT_CLIMATE_FILL_TEMPERATURE = 18"

definition text_slot :: "string \<Rightarrow> real \<Rightarrow> schedule_slot" where
  "text_slot e t = \<lparr>sl_endtime = Some (TText e), sl_temperature = Some t\<rparr>"

text \<open>\<open>slot["endtime"]\<close> and \<open>float(slot["temperature"])\<close>.\<close>

definition slot_endtime :: "schedule_slot \<Rightarrow> schedule_error + slot_time" where
  "slot_endtime sl = (case sl_endtime sl of None \<Rightarrow> Inl (KeyErr ''endtime'') | Some e \<Rightarrow> Inr e)"

definition slot_temperature :: "schedule_slot \<Rightarrow> schedule_error + real" where
  "slot_temperature sl = (case sl_temperature sl of None \<Rightarrow> Inl (KeyErr ''temperature'') | Some t \<Rightarrow> Inr t)"

fun endtime_to_minutes :: "slot_time \<Rightarrow> schedule_error + int" where
  "endtime_to_minutes (TInt m) = Inr m"
| "endtime_to_minutes (TFloat r) = Inl AttributeErr"
| "endtime_to_minutes (TText s) = (if isdigit s then Inr (int (nat_of_digits s)) else convert_time_str_to_minutes s)"

definition fillup_weekday_data :: "real \<Rightarrow> weekday_slots \<Rightarrow> weekday_slots" where
  "fillup_weekday_data base d =
     foldl (\<lambda>d n. if dict_get d n = None then dict_set n (text_slot CLIMATE_MAX_SCHEDULER_TIME base) d else d)
       d CLIMATE_SCHEDULE_SLOT_IN_RANGE"

text \<open>Python's \<open>sorted\<close> of the entries of a dictionary by their keys.\<close>

definition sorted_items :: "(int, 'v) dict \<Rightarrow> (int \<times> 'v) list" where
  "sorted_items d = sort_key fst d"

fun upto_max_time :: "schedule_slot list \<Rightarrow> schedule_slot list" where
  "upto_max_time [] = []"
| "upto_max_time (sl # sls) =
     (if sl_endtime sl = Some (TText CLIMATE_MAX_SCHEDULER_TIME) then [sl] else sl # upto_max_time sls)"

definition filter_weekday_entries :: "weekday_slots \<Rightarrow> weekday_slots" where
  "filter_weekday_entries d =
     (let sls = upto_max_time (map snd (sorted_items d)) in zip [1..int (length sls)] sls)"

fun tally_minutes :: "schedule_slot list \<Rightarrow> int \<Rightarrow> (real, int) dict \<Rightarrow> schedule_error + (real, int) dict" where
  "tally_minutes [] prev acc = Inr acc"
| "tally_minutes (sl # sls) prev acc =
     res_bind (slot_endtime sl) (\<lambda>e.
     res_bind (endtime_to_minutes e) (\<lambda>m.
     res_bind (slot_temperature sl) (\<lambda>t.
       tally_minutes sls m
         (dict_set t ((case dict_get acc t of None \<Rightarrow> 0 | Some n \<Rightarrow> n) + (m - prev)) acc))))"

text \<open>\<open>max(d, key=...)\<close>: the first key with the largest value.\<close>

fun max_key :: "real \<times> int \<Rightarrow> (real, int) dict \<Rightarrow> real" where
  "max_key (t, n) [] = t"
| "max_key (t, n) ((t', n') # d) = max_key (if n < n' then (t', n') else (t, n)) d"

definition identify_base_temperature :: "weekday_slots \<Rightarrow> schedule_error + real" where
  "identify_base_temperature d =
     (if d = [] then Inr DEFAULT_CLIMATE_FILL_TEMPERATURE
      else res_bind (tally_minutes (map snd (sorted_items d)) 0 []) (\<lambda>acc.
             case acc of [] \<Rightarrow> Inr DEFAULT_CLIMATE_FILL_TEMPERATURE | p # ps \<Rightarrow> Inr (max_key p ps)))"

definition normalize_weekday_data :: "weekday_slots \<Rightarrow> schedule_error + weekday_slots" where
  "normalize_weekday_data d =
     res_bind (res_list (map (\<lambda>(n, sl). res_bind (slot_endtime sl) (\<lambda>e.
         res_bind (endtime_to_minutes e) (\<lambda>m. Inr (m, sl)))) d)) (\<lambda>keyed.
       let sls = map snd (sort_key fst keyed) in
       Inr (zip [1..int (length sls)] sls @
            (if sls = [] then []
             else let fill = (case sl_temperature (last sls) of None \<Rightarrow> DEFAULT_CLIMATE_FILL_TEMPERATURE | Some t \<Rightarrow> t)
                  in map (\<lambda>n. (n, text_slot CLIMATE_MAX_SCHEDULER_TIME fill)) [int (length sls) + 1..13])))"

subsection \<open>From the simple format to slots\<close>

definition require_temp_bounds :: "real option \<Rightarrow> real option \<Rightarrow> schedule_error + real \<times> real" where
  "require_temp_bounds min_temp max_temp =
     (case (min_temp, max_temp) of
        (Some lo, Some hi) \<Rightarrow> Inr (lo, hi)
      | _ \<Rightarrow> Inl (ValidationErr ''exception.model.week_profile.validate.temperature_bounds_unavailable''))"

fun write_periods ::
  "real \<Rightarrow> real \<Rightarrow> real \<Rightarrow> climate_period list \<Rightarrow> string \<Rightarrow> int \<Rightarrow> weekday_slots \<Rightarrow> schedule_error + weekday_slots" where
  "write_periods lo hi base [] previous_endtime slot_no d = Inr d"
| "write_periods lo hi base (p # ps) previous_endtime slot_no d =
     res_bind (convert_time_str_to_minutes (cp_starttime p)) (\<lambda>st.
     res_bind (convert_time_str_to_minutes previous_endtime) (\<lambda>pe.
       if st < pe then Inl (ValidationErr ''exception.model.week_profile.validate.overlap'')
       else if \<not> (lo \<le> cp_temperature p \<and> cp_temperature p \<le> hi)
       then Inl (ValidationErr ''exception.model.week_profile.validate.temperature_out_of_range_for_times'')
       else let (slot_no, d) = (if pe < st then (slot_no + 1, dict_set slot_no (text_slot (cp_starttime p) base) d)
                                else (slot_no, d))
            in write_periods lo hi base ps (cp_endtime p) (slot_no + 1)
                 (dict_set slot_no (text_slot (cp_endtime p) (cp_temperature p)) d)))"

definition simple_to_weekday :: "real option \<Rightarrow> real option \<Rightarrow> climate_weekday \<Rightarrow> schedule_error + weekday_slots" where
  "simple_to_weekday min_temp max_temp w =
     (case validate_weekday w of
        Inl e \<Rightarrow> Inl (ValidationErr ''str(ex)'')
      | Inr w \<Rightarrow>
          res_bind (require_temp_bounds min_temp max_temp) (\<lambda>(lo, hi).
            let base = cw_base_temperature w in
            if \<not> (lo \<le> base \<and> base \<le> hi)
            then Inl (ValidationErr ''exception.model.week_profile.validate.base_temperature_out_of_range'')
            else res_bind (write_periods lo hi base (sort_key (\<lambda>p. minutes_of (cp_starttime p)) (cw_periods w))
                            CLIMATE_MIN_SCHEDULER_TIME 1 [])
                   (\<lambda>d. Inr (fillup_weekday_data base d))))"

subsection \<open>From slots to the simple format\<close>

text \<open>The variables of the merging loop: finished periods, previous end, open range, its temperature.\<close>

record merge_state =
  ms_periods :: "climate_period list"
  ms_previous_end :: string
  ms_open_range :: "climate_period option"
  ms_last_temp :: "real option"

definition merge_slot :: "real \<Rightarrow> merge_state \<Rightarrow> schedule_slot \<Rightarrow> schedule_error + merge_state" where
  "merge_slot base st sl =
     res_bind (slot_endtime sl) (\<lambda>e.
     res_bind (endtime_to_minutes e) (\<lambda>m.
     res_bind (convert_minutes_to_time_str m) (\<lambda>endtime_str.
     res_bind (slot_temperature sl) (\<lambda>temp.
     res_bind (convert_time_str_to_minutes endtime_str) (\<lambda>now.
     res_bind (convert_time_str_to_minutes (ms_previous_end st)) (\<lambda>before.
       if now < before
       then Inl (ValidationErr ''exception.model.week_profile.validate.time_out_of_bounds_profile_slot'')
       else res_bind
         (if temp \<noteq> base then
            (case ms_open_range st of
               None \<Rightarrow> res_bind (make_period (ms_previous_end st) endtime_str temp)
                         (\<lambda>p. Inr (st\<lparr>ms_open_range := Some p, ms_last_temp := Some temp\<rparr>))
             | Some r \<Rightarrow>
                 if ms_last_temp st = Some temp
                 then res_bind (make_period (cp_starttime r) endtime_str temp)
                        (\<lambda>p. Inr (st\<lparr>ms_open_range := Some p\<rparr>))
                 else res_bind (make_period (ms_previous_end st) endtime_str temp)
                        (\<lambda>p. Inr (st\<lparr>ms_periods := ms_periods st @ [r], ms_open_range := Some p, ms_last_temp := Some temp\<rparr>)))
          else (case ms_open_range st of
                  None \<Rightarrow> Inr st
                | Some r \<Rightarrow> Inr (st\<lparr>ms_periods := ms_periods st @ [r], ms_open_range := None, ms_last_temp := None\<rparr>)))
         (\<lambda>st. Inr (st\<lparr>ms_previous_end := endtime_str\<rparr>))))))))"

fun merge_slots :: "real \<Rightarrow> schedule_slot list \<Rightarrow> merge_state \<Rightarrow> schedule_error + merge_state" where
  "merge_slots base [] st = Inr st"
| "merge_slots base (sl # sls) st = res_bind (merge_slot base st sl) (merge_slots base sls)"

definition close_range :: "merge_state \<Rightarrow> climate_period list" where
  "close_range st = ms_periods st @ (case ms_open_range st of None \<Rightarrow> [] | Some r \<Rightarrow> [r])"

definition weekday_to_simple :: "real option \<Rightarrow> real option \<Rightarrow> weekday_slots \<Rightarrow> schedule_error + climate_weekday" where
  "weekday_to_simple min_temp max_temp d =
     res_bind (require_temp_bounds min_temp max_temp) (\<lambda>(lo, hi).
     res_bind (identify_base_temperature d) (\<lambda>base.
       if \<not> (lo \<le> base \<and> base \<le> hi)
       then Inl (ValidationErr ''exception.model.week_profile.validate.base_temperature_out_of_range'')
       else res_bind (normalize_weekday_data (filter_weekday_entries d)) (\<lambda>normalized.
            res_bind (merge_slots base (map snd (sorted_items normalized))
                       \<lparr>ms_periods = [], ms_previous_end = CLIMATE_MIN_SCHEDULER_TIME, ms_open_range = None, ms_last_temp = None\<rparr>)
              (\<lambda>st. make_weekday base (sort_key (\<lambda>p. minutes_of (cp_starttime p)) (close_range st))))))"

subsection \<open>Raw parameters\<close>

text \<open>
  A raw schedule maps parameter names to integers or floats. \<open>SCHEDULER_PROFILE_PATTERN\<close> is
  \<open>^P[1-6]_(ENDTIME|TEMPERATURE)_(MONDAY|...|SUNDAY)_([1-9]|1[0-3])$\<close>; none of its parts contains an
  underscore.
\<close>

type_synonym climate_slots = "(schedule_profile, (weekday, weekday_slots) dict) dict"

definition SCHEDULER_PROFILE_PATTERN :: "string \<Rightarrow> bool" where
  "SCHEDULER_PROFILE_PATTERN s =
     (case split_all CHR ''_'' s of
        [p, ty, day, no] \<Rightarrow>
          p \<in> set (map profile_name all_profiles) \<and> ty \<in> {''ENDTIME'', ''TEMPERATURE''} \<and>
          day \<in> set (map weekday_name all_weekdays) \<and>
          takeWhile is_digit no \<in> set (map dec [1..<14]) \<and> at_end (dropWhile is_digit no)
      | _ \<Rightarrow> False)"

definition raw_name :: "schedule_profile \<Rightarrow> string \<Rightarrow> weekday \<Rightarrow> int \<Rightarrow> string" where
  "raw_name p ty day no = profile_name p @ ''_'' @ ty @ ''_'' @ weekday_name day @ ''_'' @ str_int no"

text \<open>The entries of a slot in the order of its dictionary, with the converted value.\<close>

definition raw_endtime :: "slot_time \<Rightarrow> schedule_error + raw_value" where
  "raw_endtime e =
     (case e of
        TText s \<Rightarrow> res_bind (convert_time_str_to_minutes s) (\<lambda>m. Inr (RInt m))
      | TInt m \<Rightarrow> Inr (RInt m)
      | TFloat r \<Rightarrow> Inr (RFloat r))"

definition slot_items :: "schedule_slot \<Rightarrow> (string \<times> (schedule_error + raw_value)) list" where
  "slot_items sl =
     (case sl_endtime sl of None \<Rightarrow> [] | Some e \<Rightarrow> [(''ENDTIME'', raw_endtime e)]) @
     (case sl_temperature sl of None \<Rightarrow> [] | Some t \<Rightarrow> [(''TEMPERATURE'', Inr (RFloat t))])"

fun put_raw :: "(string \<times> (schedule_error + raw_value)) list \<Rightarrow> (string, raw_value) dict \<Rightarrow> schedule_error + (string, raw_value) dict" where
  "put_raw [] raw = Inr raw"
| "put_raw ((name, v) # items) raw =
     (if \<not> SCHEDULER_PROFILE_PATTERN name
      then Inl (ValidationErr ''exception.model.week_profile.validate.profile_name_invalid'')
      else res_bind v (\<lambda>x. put_raw items (dict_set name x raw)))"

definition climate_items :: "climate_slots \<Rightarrow> (string \<times> (schedule_error + raw_value)) list" where
  "climate_items sched =
     concat (map (\<lambda>(p, days). concat (map (\<lambda>(day, slots). concat (map (\<lambda>(no, sl).
       map (\<lambda>(ty, v). (raw_name p ty day no, v)) (slot_items sl)) slots)) days)) sched)"

definition climate_to_raw :: "climate_slots \<Rightarrow> schedule_error + (string, raw_value) dict" where
  "climate_to_raw sched = put_raw (climate_items sched) []"

definition set_slot_field :: "string \<Rightarrow> raw_value \<Rightarrow> schedule_slot \<Rightarrow> schedule_error + schedule_slot" where
  "set_slot_field ty v sl =
     (if ty = ''endtime''
      then (case v of
              RInt m \<Rightarrow> res_bind (convert_minutes_to_time_str m) (\<lambda>s. Inr (sl\<lparr>sl_endtime := Some (TText s)\<rparr>))
            | RFloat r \<Rightarrow> Inr (sl\<lparr>sl_endtime := Some (TFloat r)\<rparr>))
      else if ty = ''temperature''
      then Inr (sl\<lparr>sl_temperature := Some (case v of RInt i \<Rightarrow> real_of_int i | RFloat r \<Rightarrow> r)\<rparr>)
      else Inr sl)"

text \<open>
  One parameter of the raw schedule. A slot type other than the two is stored under a key nobody
  reads, so only the empty slot it creates remains of it.
\<close>

definition get_or :: "'v \<Rightarrow> 'v option \<Rightarrow> 'v" where
  "get_or d x = (case x of None \<Rightarrow> d | Some v \<Rightarrow> v)"

definition read_raw_item :: "climate_slots \<Rightarrow> string \<times> raw_value \<Rightarrow> schedule_error + climate_slots" where
  "read_raw_item sched item =
     (case split_max CHR ''_'' 3 (fst item) of
        [pn, ty, dn, no] \<Rightarrow>
          (case (profile_of_name pn, weekday_of_name dn, python_int no) of
             (Some p, Some day, Some n) \<Rightarrow>
               (let days = get_or [] (dict_get sched p);
                    slots = get_or [] (dict_get days day);
                    sl = get_or \<lparr>sl_endtime = None, sl_temperature = None\<rparr> (dict_get slots n)
                in res_bind (set_slot_field (lower ty) (snd item) sl)
                     (\<lambda>sl. Inr (dict_set p (dict_set day (dict_set n sl slots) days) sched)))
           | _ \<Rightarrow> Inr sched)
      | _ \<Rightarrow> Inr sched)"

fun read_raw_items :: "climate_slots \<Rightarrow> (string \<times> raw_value) list \<Rightarrow> schedule_error + climate_slots" where
  "read_raw_items sched [] = Inr sched"
| "read_raw_items sched (item # items) = res_bind (read_raw_item sched item) (\<lambda>sched. read_raw_items sched items)"

definition raw_to_climate :: "(string, raw_value) dict \<Rightarrow> schedule_error + climate_slots" where
  "raw_to_climate raw = read_raw_items [] raw"

subsection \<open>Profiles and whole schedules\<close>

type_synonym climate_profile = "(weekday, climate_weekday) dict"
type_synonym climate_schedule = "(schedule_profile, climate_profile) dict"

fun map_values :: "('a \<Rightarrow> schedule_error + 'b) \<Rightarrow> ('k, 'a) dict \<Rightarrow> schedule_error + ('k, 'b) dict" where
  "map_values f [] = Inr []"
| "map_values f ((k, v) # d) = res_bind (f v) (\<lambda>x. res_bind (map_values f d) (\<lambda>d. Inr ((k, x) # d)))"

definition simple_to_profile :: "real option \<Rightarrow> real option \<Rightarrow> climate_profile \<Rightarrow> schedule_error + (weekday, weekday_slots) dict" where
  "simple_to_profile lo hi = map_values (simple_to_weekday lo hi)"

definition simple_to_schedule :: "real option \<Rightarrow> real option \<Rightarrow> climate_schedule \<Rightarrow> schedule_error + climate_slots" where
  "simple_to_schedule lo hi = map_values (simple_to_profile lo hi)"

definition profile_to_simple :: "real option \<Rightarrow> real option \<Rightarrow> (weekday, weekday_slots) dict \<Rightarrow> schedule_error + climate_profile" where
  "profile_to_simple lo hi = map_values (weekday_to_simple lo hi)"

definition schedule_to_simple :: "real option \<Rightarrow> real option \<Rightarrow> climate_slots \<Rightarrow> schedule_error + climate_schedule" where
  "schedule_to_simple lo hi = map_values (profile_to_simple lo hi)"

definition convert_raw_to_pydantic :: "real option \<Rightarrow> real option \<Rightarrow> (string, raw_value) dict \<Rightarrow> schedule_error + climate_schedule" where
  "convert_raw_to_pydantic lo hi raw = res_bind (raw_to_climate raw) (schedule_to_simple lo hi)"

subsection \<open>Meaning of both formats\<close>

definition slot_view :: "schedule_slot \<Rightarrow> (int \<times> real) option" where
  "slot_view sl =
     (case (sl_endtime sl, sl_temperature sl) of
        (Some e, Some t) \<Rightarrow> (case endtime_to_minutes e of Inr m \<Rightarrow> Some (m, t) | Inl _ \<Rightarrow> None)
      | _ \<Rightarrow> None)"

definition prog_temp :: "(int \<times> real) list \<Rightarrow> int \<Rightarrow> real option" where
  "prog_temp vs m = map_option snd (find (\<lambda>(e, t). m < e) vs)"

definition slot_temp :: "weekday_slots \<Rightarrow> int \<Rightarrow> real option" where
  "slot_temp d m = prog_temp (List.map_filter slot_view (map snd (sorted_items d))) m"

definition period_around :: "int \<Rightarrow> climate_period \<Rightarrow> bool" where
  "period_around m p \<longleftrightarrow> minutes_of (cp_starttime p) \<le> m \<and> m < minutes_of (cp_endtime p)"

definition periods_temp :: "real \<Rightarrow> climate_period list \<Rightarrow> int \<Rightarrow> real" where
  "periods_temp base ps m = (case find (period_around m) ps of Some p \<Rightarrow> cp_temperature p | None \<Rightarrow> base)"

definition simple_temp :: "climate_weekday \<Rightarrow> int \<Rightarrow> real" where
  "simple_temp w m = periods_temp (cw_base_temperature w) (cw_periods w) m"

text \<open>Periods in order from a minute on, each valid and none overlapping the next.\<close>

definition good_period :: "climate_period \<Rightarrow> bool" where
  "good_period p \<longleftrightarrow>
     time_to_minutes (cp_starttime p) = Inr (minutes_of (cp_starttime p)) \<and>
     time_to_minutes (cp_endtime p) = Inr (minutes_of (cp_endtime p)) \<and>
     minutes_of (cp_starttime p) < minutes_of (cp_endtime p)"

fun period_chain :: "int \<Rightarrow> climate_period list \<Rightarrow> bool" where
  "period_chain m [] \<longleftrightarrow> True"
| "period_chain m (p # ps) \<longleftrightarrow>
     good_period p \<and> m \<le> minutes_of (cp_starttime p) \<and> period_chain (minutes_of (cp_endtime p)) ps"

lemma prog_temp_Nil [simp]: "prog_temp [] m = None"
  by (simp add: prog_temp_def)

lemma prog_temp_Cons [simp]: "prog_temp ((e, t) # vs) m = (if m < e then Some t else prog_temp vs m)"
  by (simp add: prog_temp_def)

lemma prog_temp_append: "prog_temp (us @ vs) m = (case prog_temp us m of None \<Rightarrow> prog_temp vs m | Some t \<Rightarrow> Some t)"
  by (induction us) auto

lemma prog_temp_None_iff: "prog_temp vs m = None \<longleftrightarrow> (\<forall>(e, t) \<in> set vs. e \<le> m)"
  by (induction vs) (auto split: if_splits)

lemma minutes_of_eq: "time_to_minutes s = Inr m \<Longrightarrow> minutes_of s = m"
  by (simp add: minutes_of_def)

lemma time_ok_minutes: "time_to_minutes s = Inr m \<Longrightarrow> time_to_minutes s = Inr (minutes_of s)"
  by (simp add: minutes_of_def)

lemma good_periodD:
  assumes "good_period p"
  shows "convert_time_str_to_minutes (cp_starttime p) = Inr (minutes_of (cp_starttime p))"
    and "convert_time_str_to_minutes (cp_endtime p) = Inr (minutes_of (cp_endtime p))"
    and "0 \<le> minutes_of (cp_starttime p)" and "minutes_of (cp_endtime p) \<le> 1440"
    and "minutes_of (cp_starttime p) < minutes_of (cp_endtime p)"
  using assms time_to_minutesD by (auto simp: good_period_def)

lemma good_period_bounds: "good_period p \<Longrightarrow> 0 < minutes_of (cp_endtime p)"
  using good_periodD(3,5) by fastforce

lemma period_chain_ge: "period_chain m ps \<Longrightarrow> p \<in> set ps \<Longrightarrow> m \<le> minutes_of (cp_starttime p)"
proof (induction ps arbitrary: m)
  case (Cons q ps)
  then show ?case
    using good_periodD(5) [of q] by fastforce
qed simp

lemma period_chain_good: "period_chain m ps \<Longrightarrow> p \<in> set ps \<Longrightarrow> good_period p"
  by (induction ps arbitrary: m) auto

lemma period_around_unique:
  "period_chain c ps \<Longrightarrow> p \<in> set ps \<Longrightarrow> q \<in> set ps \<Longrightarrow> period_around m p \<Longrightarrow> period_around m q \<Longrightarrow> p = q"
proof (induction ps arbitrary: c)
  case (Cons r ps)
  have "\<not> (period_around m r \<and> period_around m x)" if "x \<in> set ps" for x
    using period_chain_ge [of "minutes_of (cp_endtime r)" ps x] Cons.prems(1) that by (auto simp: period_around_def)
  with Cons show ?case by auto
qed simp

lemma find_unique:
  assumes "set xs = set ys" and "\<And>x y. x \<in> set xs \<Longrightarrow> y \<in> set xs \<Longrightarrow> P x \<Longrightarrow> P y \<Longrightarrow> x = y"
  shows "find P xs = find P ys"
proof (cases "find P xs")
  case None
  with assms(1) have "find P ys = None" by (simp add: find_None_iff)
  with None show ?thesis by simp
next
  case (Some x)
  then have x: "x \<in> set xs" "P x" using find_SomeD [of P xs x] by auto
  with assms(1) have "find P ys \<noteq> None" by (auto simp: find_None_iff)
  then obtain y where y: "find P ys = Some y" by blast
  then have "y \<in> set ys" "P y" using find_SomeD [of P ys y] by auto
  with assms x Some y show ?thesis by auto
qed

text \<open>The order of the periods does not matter for the temperature.\<close>

lemma periods_temp_perm:
  "period_chain c ps \<Longrightarrow> set qs = set ps \<Longrightarrow> periods_temp base qs m = periods_temp base ps m"
  unfolding periods_temp_def using find_unique [of qs ps "period_around m"] period_around_unique [of c ps] by metis

lemma periods_temp_before:
  assumes "period_chain c ps" and "m < c"
  shows "periods_temp base ps m = base"
proof -
  have "\<not> period_around m p" if "p \<in> set ps" for p
    using period_chain_ge [OF assms(1) that] assms(2) by (simp add: period_around_def)
  then have "find (period_around m) ps = None"
    by (simp add: find_None_iff)
  then show ?thesis by (simp add: periods_temp_def)
qed

lemma period_chain_last: "period_chain c ps \<Longrightarrow> p \<in> set ps \<Longrightarrow> minutes_of (cp_endtime p) \<le> minutes_of (cp_endtime (last ps))"
proof (induction ps arbitrary: c)
  case (Cons q ps)
  then have ps: "period_chain (minutes_of (cp_endtime q)) ps" by simp
  show ?case
  proof (cases "ps = [] \<or> p \<in> set ps")
    case True
    with Cons.IH [OF ps] Cons.prems(2) show ?thesis by auto
  next
    case False
    then have l: "p = q" "last ps \<in> set ps" using Cons.prems(2) by auto
    then have "minutes_of (cp_endtime q) \<le> minutes_of (cp_starttime (last ps))" "good_period (last ps)"
      using period_chain_ge [OF ps] period_chain_good [OF ps] by auto
    with l False good_periodD(5) [of "last ps"] show ?thesis by simp
  qed
qed simp

lemma periods_temp_after:
  assumes "period_chain c ps" and "ps = [] \<or> minutes_of (cp_endtime (last ps)) \<le> m"
  shows "periods_temp base ps m = base"
proof -
  have "\<not> period_around m p" if "p \<in> set ps" for p
    using period_chain_last [OF assms(1) that] assms(2) that by (auto simp: period_around_def)
  then have "find (period_around m) ps = None"
    by (simp add: find_None_iff)
  then show ?thesis by (simp add: periods_temp_def)
qed

subsection \<open>The slots a weekday needs\<close>

fun needed_slots :: "real \<Rightarrow> int \<Rightarrow> climate_period list \<Rightarrow> (string \<times> real) list" where
  "needed_slots base c [] = []"
| "needed_slots base c (p # ps) =
     (if c < minutes_of (cp_starttime p) then [(cp_starttime p, base)] else []) @
     (cp_endtime p, cp_temperature p) # needed_slots base (minutes_of (cp_endtime p)) ps"

definition view_of :: "string \<times> real \<Rightarrow> int \<times> real" where
  "view_of st = (minutes_of (fst st), snd st)"

lemma needed_slots_temp:
  assumes "period_chain c ps" and "c \<le> m"
  shows "prog_temp (map view_of (needed_slots base c ps)) m =
           (if ps \<noteq> [] \<and> m < minutes_of (cp_endtime (last ps)) then Some (periods_temp base ps m) else None)"
  using assms
proof (induction ps arbitrary: c)
  case (Cons p ps)
  let ?e = "minutes_of (cp_endtime p)"
  have p: "good_period p" "c \<le> minutes_of (cp_starttime p)" "minutes_of (cp_starttime p) < ?e" and ps: "period_chain ?e ps"
    using Cons.prems good_periodD(5) by auto
  have last: "?e \<le> minutes_of (cp_endtime (last (p # ps)))"
    by (rule period_chain_last [OF Cons.prems(1)]) simp
  consider "m < minutes_of (cp_starttime p)" | "period_around m p" | "?e \<le> m"
    unfolding period_around_def by linarith
  then show ?case
  proof cases
    case 1
    then have "periods_temp base (p # ps) m = base"
      using p ps by (intro periods_temp_before [where c = "minutes_of (cp_starttime p)"]) auto
    with 1 p last Cons.prems show ?thesis by (simp add: view_of_def)
  next
    case 2
    with last show ?thesis by (simp add: period_around_def periods_temp_def view_of_def)
  next
    case 3
    with Cons.IH [OF ps 3] p show ?thesis
      by (auto simp: period_around_def periods_temp_def view_of_def)
  qed
qed simp

lemma dict_set_fresh: "k \<notin> fst ` set d \<Longrightarrow> dict_set k v d = d @ [(k, v)]"
  by (induction d) (auto simp: dict_set_def)

lemma zip_upto_snoc: "length xs = nat (j - i + 1) \<Longrightarrow> i \<le> j + 1 \<Longrightarrow> zip [i..j] xs @ [(j + 1, x)] = zip [i..j + 1] (xs @ [x])"
  by (simp add: upto_rec2 zip_append)

definition slots_from :: "int \<Rightarrow> (string \<times> real) list \<Rightarrow> weekday_slots" where
  "slots_from i sts = zip [i..i + int (length sts) - 1] (map (\<lambda>(e, t). text_slot e t) sts)"

lemma slots_from_Nil [simp]: "slots_from i [] = []"
  by (simp add: slots_from_def)

lemma slots_from_Cons [simp]: "slots_from i (st # sts) = (i, text_slot (fst st) (snd st)) # slots_from (i + 1) sts"
  by (simp add: slots_from_def upto_rec1 split_beta)

lemma slots_from_append: "slots_from i (us @ vs) = slots_from i us @ slots_from (i + int (length us)) vs"
  by (induction us arbitrary: i) (simp_all add: algebra_simps)

lemma fst_slots_from: "fst ` set (slots_from i sts) = {i..<i + int (length sts)}"
proof (induction sts arbitrary: i)
  case (Cons st sts)
  then show ?case by auto
qed simp

lemma map_snd_slots_from: "map snd (slots_from i sts) = map (\<lambda>(e, t). text_slot e t) sts"
  by (induction sts arbitrary: i) auto

lemma sorted_slots_from: "sorted (map fst (slots_from i sts))"
proof (induction sts arbitrary: i)
  case (Cons st sts)
  have "fst x \<ge> i" if "x \<in> set (slots_from (i + 1) sts)" for x
    using imageI [OF that, of fst] by (simp add: fst_slots_from)
  with Cons show ?case by auto
qed simp

lemma sorted_items_slots_from [simp]: "sorted_items (slots_from i sts) = slots_from i sts"
  by (simp add: sorted_items_def sort_key_id_if_sorted sorted_slots_from)

lemma dict_set_slots_from:
  assumes "n = int (length us) + 1"
  shows "dict_set n (text_slot e t) (slots_from 1 us) = slots_from 1 (us @ [(e, t)])"
proof -
  have "n \<notin> fst ` set (slots_from 1 us)"
    using assms by (simp add: fst_slots_from)
  then show ?thesis
    using assms by (simp add: dict_set_fresh slots_from_append)
qed

text \<open>The writing loop lays out exactly the needed slots.\<close>

lemma write_periods_needed:
  assumes "period_chain c ps" and "convert_time_str_to_minutes prev = Inr c"
    and "\<forall>p \<in> set ps. lo \<le> cp_temperature p \<and> cp_temperature p \<le> hi"
    and "n = int (length us) + 1"
  shows "write_periods lo hi base ps prev n (slots_from 1 us) = Inr (slots_from 1 (us @ needed_slots base c ps))"
  using assms
proof (induction ps arbitrary: c prev n us)
  case (Cons p ps)
  note p = good_periodD [of p]
  have c: "c \<le> minutes_of (cp_starttime p)" "good_period p"
    using Cons.prems(1) by auto
  let ?pre = "if c < minutes_of (cp_starttime p) then [(cp_starttime p, base)] else []"
  let ?us = "us @ ?pre @ [(cp_endtime p, cp_temperature p)]"
  have "write_periods lo hi base ps (cp_endtime p) (int (length ?us) + 1) (slots_from 1 ?us)
          = Inr (slots_from 1 (?us @ needed_slots base (minutes_of (cp_endtime p)) ps))"
    using Cons.prems p c by (intro Cons.IH) auto
  moreover have "dict_set n (text_slot (cp_starttime p) base) (slots_from 1 us) = slots_from 1 (us @ [(cp_starttime p, base)])"
    using Cons.prems(4) by (rule dict_set_slots_from)
  moreover have "dict_set (int (length (us @ ?pre)) + 1) (text_slot (cp_endtime p) (cp_temperature p)) (slots_from 1 (us @ ?pre))
          = slots_from 1 ?us"
    using dict_set_slots_from [of "int (length (us @ ?pre)) + 1" "us @ ?pre"] by simp
  ultimately show ?case
    using Cons.prems c p by (cases "c < minutes_of (cp_starttime p)") (simp_all add: add.commute)
qed simp

lemma fillup_slots:
  "fillup_weekday_data base (slots_from 1 sts) = slots_from 1 (sts @ replicate (13 - length sts) (''24:00'', base))"
proof -
  let ?step = "\<lambda>d n. if dict_get d n = None then dict_set n (text_slot CLIMATE_MAX_SCHEDULER_TIME base) d else d"
  have present: "foldl ?step (slots_from 1 us) ns = slots_from 1 us"
    if "set ns \<subseteq> {1..int (length us)}" for us ns
    using that by (induction ns) (auto simp: dict_get_None_iff fst_slots_from)
  have absent: "foldl ?step (slots_from 1 us) [int (length us) + 1..int (length us) + int k]
      = slots_from 1 (us @ replicate k (''24:00'', base))" for us k
  proof (induction k arbitrary: us)
    case (Suc k)
    have "[int (length us) + 1..int (length us) + int (Suc k)]
        = (int (length us) + 1) # [int (length us) + 2..int (length us) + int (Suc k)]"
      by (subst upto_rec1) (simp_all add: add.commute)
    moreover have "foldl ?step (slots_from 1 (us @ [(''24:00'', base)])) [int (length us) + 2..int (length us) + int (Suc k)]
        = slots_from 1 ((us @ [(''24:00'', base)]) @ replicate k (''24:00'', base))"
      using Suc [of "us @ [(''24:00'', base)]"] by (simp add: algebra_simps)
    moreover have "dict_get (slots_from 1 us) (int (length us) + 1) = None"
      by (simp add: dict_get_None_iff fst_slots_from)
    ultimately show ?case
      using dict_set_slots_from [of "int (length us) + 1" us]
      by (simp add: CLIMATE_MAX_SCHEDULER_TIME_def replicate_append_same [symmetric])
  qed simp
  show ?thesis
  proof (cases "length sts \<le> 13")
    case True
    then have range: "CLIMATE_SCHEDULE_SLOT_IN_RANGE = [1..int (length sts)] @ [int (length sts) + 1..int (length sts) + int (13 - length sts)]"
      unfolding CLIMATE_SCHEDULE_SLOT_IN_RANGE_def
      using upto_split2 [of 1 "int (length sts)" 13] by (cases sts) (auto simp: of_nat_diff)
    have "foldl ?step (slots_from 1 sts) [1..int (length sts)] = slots_from 1 sts"
      by (rule present) auto
    then show ?thesis
      unfolding fillup_weekday_data_def range foldl_append by (simp only: absent)
  next
    case False
    then show ?thesis
      using present [of "[1..13]" sts] by (auto simp: fillup_weekday_data_def CLIMATE_SCHEDULE_SLOT_IN_RANGE_def)
  qed
qed

subsection \<open>What writing a weekday programs\<close>

lemma make_period_Inr:
  assumes "make_period st en t = Inr p"
  shows "p = \<lparr>cp_starttime = st, cp_endtime = en, cp_temperature = t\<rparr>" and "good_period p"
proof -
  obtain a b where a: "time_to_minutes st = Inr a" and b: "time_to_minutes en = Inr b" and less: "a < b"
    and p: "p = \<lparr>cp_starttime = st, cp_endtime = en, cp_temperature = t\<rparr>"
    using assms by (auto simp: make_period_def validate_time_range_def res_bind_Inr_iff split: if_splits)
  then show "p = \<lparr>cp_starttime = st, cp_endtime = en, cp_temperature = t\<rparr>" "good_period p"
    by (simp_all add: good_period_def minutes_of_def)
qed

lemma res_list_map_Inr:
  "res_list (map f xs) = Inr ys \<Longrightarrow> length ys = length xs \<and> (\<forall>i < length xs. f (xs ! i) = Inr (ys ! i))"
proof (induction xs arbitrary: ys)
  case (Cons x xs)
  then obtain y ys' where y: "f x = Inr y" "res_list (map f xs) = Inr ys'" "ys = y # ys'"
    by (auto simp: res_bind_Inr_iff)
  with Cons.IH [of ys'] show ?case
    by (auto simp: nth_Cons split: nat.splits)
qed simp

lemma validate_weekday_Inr:
  assumes "validate_weekday w = Inr w'"
  shows "w' = w" and "\<forall>p \<in> set (cw_periods w). good_period p"
    and "check_overlaps (sort_key (\<lambda>p. minutes_of (cp_starttime p)) (cw_periods w))"
proof -
  let ?mk = "\<lambda>p. make_period (cp_starttime p) (cp_endtime p) (cp_temperature p)"
  obtain ps where ps: "res_list (map ?mk (cw_periods w)) = Inr ps"
    and mk: "make_weekday (cw_base_temperature w) ps = Inr w'"
    using assms by (auto simp: validate_weekday_def res_bind_Inr_iff)
  have nth: "ps ! i = cw_periods w ! i \<and> good_period (ps ! i)" if "i < length (cw_periods w)" for i
    using res_list_map_Inr [OF ps] that make_period_Inr by fastforce
  have same: "ps = cw_periods w"
    using res_list_map_Inr [OF ps] nth by (intro nth_equalityI) auto
  with nth show "\<forall>p \<in> set (cw_periods w). good_period p"
    by (metis in_set_conv_nth)
  show "w' = w" "check_overlaps (sort_key (\<lambda>p. minutes_of (cp_starttime p)) (cw_periods w))"
    using mk same by (auto simp: make_weekday_def validate_non_overlapping_periods_def split: if_splits)
qed

lemma period_chain_overlaps:
  "ps = [] \<or> c \<le> minutes_of (cp_starttime (hd ps)) \<Longrightarrow> \<forall>p \<in> set ps. good_period p \<Longrightarrow> check_overlaps ps \<Longrightarrow> period_chain c ps"
  by (induction ps arbitrary: c rule: check_overlaps.induct) auto

definition sorted_periods :: "climate_weekday \<Rightarrow> climate_period list" where
  "sorted_periods w = sort_key (\<lambda>p. minutes_of (cp_starttime p)) (cw_periods w)"

definition slots_needed :: "climate_weekday \<Rightarrow> (string \<times> real) list" where
  "slots_needed w = needed_slots (cw_base_temperature w) 0 (sorted_periods w)"

lemma valid_weekday_chain:
  assumes "validate_weekday w = Inr w'"
  shows "period_chain 0 (sorted_periods w)"
proof (rule period_chain_overlaps)
  show good: "\<forall>p \<in> set (sorted_periods w). good_period p"
    using validate_weekday_Inr(2) [OF assms] by (simp add: sorted_periods_def)
  show "check_overlaps (sorted_periods w)"
    using validate_weekday_Inr(3) [OF assms] by (simp add: sorted_periods_def)
  show "sorted_periods w = [] \<or> 0 \<le> minutes_of (cp_starttime (hd (sorted_periods w)))"
    using good good_periodD(3) by (cases "sorted_periods w") auto
qed

text \<open>The slots exist exactly for a valid weekday whose temperatures are within the device's bounds.\<close>

definition temps_within :: "real \<Rightarrow> real \<Rightarrow> climate_weekday \<Rightarrow> bool" where
  "temps_within lo hi w \<longleftrightarrow>
     lo \<le> cw_base_temperature w \<and> cw_base_temperature w \<le> hi \<and>
     list_all (\<lambda>p. lo \<le> cp_temperature p \<and> cp_temperature p \<le> hi) (cw_periods w)"

lemma write_periods_temps:
  "write_periods lo hi base ps prev n d = Inr d' \<Longrightarrow> p \<in> set ps \<Longrightarrow> lo \<le> cp_temperature p \<and> cp_temperature p \<le> hi"
  by (induction ps arbitrary: prev n d) (auto simp: res_bind_Inr_iff Let_def split: if_splits)

lemma simple_to_weekday_eq:
  "simple_to_weekday (Some lo) (Some hi) w = Inr d \<longleftrightarrow>
     (\<exists>w'. validate_weekday w = Inr w') \<and> temps_within lo hi w \<and>
     d = slots_from 1 (slots_needed w @ replicate (13 - length (slots_needed w)) (''24:00'', cw_base_temperature w))"
proof (cases "validate_weekday w")
  case (Inl e)
  then show ?thesis by (simp add: simple_to_weekday_def)
next
  case (Inr w')
  have w': "w' = w" using validate_weekday_Inr(1) [OF Inr] .
  let ?b = "cw_base_temperature w"
  let ?loop = "write_periods lo hi ?b (sorted_periods w) CLIMATE_MIN_SCHEDULER_TIME 1 []"
  have start: "convert_time_str_to_minutes CLIMATE_MIN_SCHEDULER_TIME = Inr 0"
    using convert_time_str_clock [of 0] by (simp add: CLIMATE_MIN_SCHEDULER_TIME_def)
  have loop: "?loop = Inr (slots_from 1 (slots_needed w))" if "temps_within lo hi w"
    using that write_periods_needed [OF valid_weekday_chain [OF Inr] start, of lo hi 1 "[]" ?b]
    by (simp add: temps_within_def list_all_iff sorted_periods_def slots_needed_def)
  have "temps_within lo hi w" if "?loop = Inr d'" "lo \<le> ?b" "?b \<le> hi" for d'
    using write_periods_temps [OF that(1)] that(2,3) by (auto simp: temps_within_def list_all_iff sorted_periods_def)
  moreover have "simple_to_weekday (Some lo) (Some hi) w =
      (if lo \<le> ?b \<and> ?b \<le> hi then res_bind ?loop (\<lambda>d. Inr (fillup_weekday_data ?b d))
       else Inl (ValidationErr ''exception.model.week_profile.validate.base_temperature_out_of_range''))"
    by (auto simp: simple_to_weekday_def require_temp_bounds_def Inr w' Let_def sorted_periods_def)
  ultimately show ?thesis
    using loop Inr by (cases "temps_within lo hi w") (auto simp: res_bind_Inr_iff fillup_slots temps_within_def)
qed

lemma needed_slots_ok:
  "period_chain c ps \<Longrightarrow> (e, t) \<in> set (needed_slots base c ps) \<Longrightarrow>
     time_to_minutes e = Inr (minutes_of e) \<and> c < minutes_of e \<and> (t = base \<or> t \<in> cp_temperature ` set ps)"
proof (induction ps arbitrary: c)
  case (Cons p ps)
  then have p: "good_period p" "c \<le> minutes_of (cp_starttime p)" "minutes_of (cp_starttime p) < minutes_of (cp_endtime p)"
    using good_periodD(5) by auto
  from Cons.prems consider "c < minutes_of (cp_starttime p)" "e = cp_starttime p" "t = base"
    | "e = cp_endtime p" "t = cp_temperature p"
    | "(e, t) \<in> set (needed_slots base (minutes_of (cp_endtime p)) ps)"
    by (auto split: if_splits)
  then show ?case
  proof cases
    case 3
    with Cons.IH [of "minutes_of (cp_endtime p)"] Cons.prems(1) p show ?thesis by auto
  qed (use p in \<open>auto simp: good_period_def\<close>)
qed simp

lemma needed_slots_increasing:
  "period_chain c ps \<Longrightarrow> sorted_wrt (<) (map (minutes_of \<circ> fst) (needed_slots base c ps))"
proof (induction ps arbitrary: c)
  case (Cons p ps)
  then have p: "good_period p" "minutes_of (cp_starttime p) < minutes_of (cp_endtime p)"
    and ps: "period_chain (minutes_of (cp_endtime p)) ps"
    using good_periodD(5) by auto
  have "minutes_of (cp_endtime p) < minutes_of e" if "(e, t) \<in> set (needed_slots base (minutes_of (cp_endtime p)) ps)" for e t
    using needed_slots_ok [OF ps that] by simp
  with Cons.IH [OF ps] p show ?case by fastforce
qed simp

lemma slot_view_text:
  assumes "time_to_minutes e = Inr m"
  shows "slot_view (text_slot e t) = Some (m, t)"
proof -
  have "\<not> isdigit e"
  proof
    assume digits: "isdigit e"
    then have "CHR '':'' \<notin> set e"
      using digits_no_sep by (auto simp: isdigit_def)
    moreover have "CHR '':'' \<in> set e"
      using assms TIME_PATTERN_SomeD [of e] by (auto simp: time_to_minutes_def split: if_splits option.splits)
    ultimately show False by simp
  qed
  then show ?thesis
    using time_to_minutesD(1) [OF assms] by (simp add: slot_view_def text_slot_def)
qed

definition timed :: "(string \<times> real) list \<Rightarrow> bool" where
  "timed sts \<longleftrightarrow> list_all (\<lambda>(e, t). time_to_minutes e = Inr (minutes_of e)) sts"

lemma timed_simps [simp]:
  "timed []" "timed ((e, t) # sts) \<longleftrightarrow> time_to_minutes e = Inr (minutes_of e) \<and> timed sts"
  "timed (us @ vs) \<longleftrightarrow> timed us \<and> timed vs"
  by (simp_all add: timed_def)

lemma timed_replicate: "time_to_minutes e = Inr (minutes_of e) \<Longrightarrow> timed (replicate n (e, t))"
  by (induction n) simp_all

lemma map_filter_text_slots:
  assumes "timed sts"
  shows "List.map_filter slot_view (map (\<lambda>(e, t). text_slot e t) sts) = map view_of sts"
  using assms
proof (induction sts)
  case (Cons st sts)
  then have "slot_view (text_slot (fst st) (snd st)) = Some (view_of st)"
    by (cases st) (simp add: slot_view_text [of _ "minutes_of (fst st)"] view_of_def)
  with Cons show ?case by (cases st) (simp add: List.map_filter_simps)
qed (simp add: List.map_filter_simps)

lemma minutes_of_24 [simp]: "minutes_of ''24:00'' = 1440" "time_to_minutes ''24:00'' = Inr 1440"
  by (simp_all add: minutes_of_def time_to_minutes_def)

lemma prog_temp_replicate: "prog_temp (replicate n (e, t)) m = (if 0 < n \<and> m < e then Some t else None)"
  by (induction n) auto

definition schedule_end :: "climate_weekday \<Rightarrow> int" where
  "schedule_end w = (case sorted_periods w of [] \<Rightarrow> 0 | ps \<Rightarrow> minutes_of (cp_endtime (last ps)))"

text \<open>
  The temperature the written slots give. Up to the end of the last period it is the schedule's; from
  there on it is the base temperature, unless all thirteen slots are in use.
\<close>

lemma written_slot_temp:
  assumes "validate_weekday w = Inr w'" and "0 \<le> m" and "m < 1440"
    and d: "d = slots_from 1 (slots_needed w @ replicate (13 - length (slots_needed w)) (''24:00'', cw_base_temperature w))"
  shows "slot_temp d m = (if m < schedule_end w \<or> length (slots_needed w) < 13 then Some (simple_temp w m) else None)"
proof -
  let ?b = "cw_base_temperature w" and ?ps = "sorted_periods w"
  note chain = valid_weekday_chain [OF assms(1)]
  have ok: "timed (slots_needed w)"
    using needed_slots_ok [OF chain] by (auto simp: slots_needed_def timed_def list_all_iff)
  have temp: "simple_temp w m = periods_temp ?b ?ps m"
    using periods_temp_perm [OF chain, of "cw_periods w"] by (simp add: simple_temp_def sorted_periods_def)
  have prog: "List.map_filter slot_view (map snd (sorted_items d))
      = map view_of (slots_needed w) @ replicate (13 - length (slots_needed w)) (1440, ?b)"
    using map_filter_text_slots [of "slots_needed w @ replicate (13 - length (slots_needed w)) (''24:00'', ?b)"] ok
    by (simp add: d map_snd_slots_from view_of_def timed_replicate)
  have needed: "prog_temp (map view_of (slots_needed w)) m = (if m < schedule_end w then Some (simple_temp w m) else None)"
    using needed_slots_temp [OF chain \<open>0 \<le> m\<close>, of ?b] \<open>0 \<le> m\<close>
    by (auto simp: slots_needed_def schedule_end_def temp split: list.splits)
  have "simple_temp w m = ?b" if "\<not> m < schedule_end w"
    unfolding temp using periods_temp_after [OF chain] that by (auto simp: schedule_end_def split: list.splits)
  then show ?thesis
    using \<open>m < 1440\<close> by (simp add: slot_temp_def prog prog_temp_append needed prog_temp_replicate)
qed

subsection \<open>What reading a weekday returns\<close>

text \<open>
  The merging loop on minutes instead of texts: finished periods as triples of start, end and
  temperature, the open one, and the end of the last slot.
\<close>

type_synonym triple = "int \<times> int \<times> real"

fun merge_minutes :: "real \<Rightarrow> triple list \<times> triple option \<times> int \<Rightarrow> int \<times> real \<Rightarrow> triple list \<times> triple option \<times> int" where
  "merge_minutes base (Q, None, c) (e, t) = (Q, if t = base then None else Some (c, e, t), e)"
| "merge_minutes base (Q, Some (s, e', t'), c) (e, t) =
     (if t = base then (Q @ [(s, e', t')], None, e)
      else if t' = t then (Q, Some (s, e, t), e)
      else (Q @ [(s, e', t')], Some (c, e, t), e))"

fun period_of :: "triple \<Rightarrow> climate_period" where
  "period_of (s, e, t) = \<lparr>cp_starttime = clock s, cp_endtime = clock e, cp_temperature = t\<rparr>"

fun state_of_minutes :: "triple list \<times> triple option \<times> int \<Rightarrow> merge_state" where
  "state_of_minutes (Q, r, c) =
     \<lparr>ms_periods = map period_of Q, ms_previous_end = clock c, ms_open_range = map_option period_of r,
      ms_last_temp = map_option (\<lambda>(s, e, t). t) r\<rparr>"

lemma minutes_of_clock [simp]: "0 \<le> m \<Longrightarrow> m \<le> 1440 \<Longrightarrow> minutes_of (clock m) = m"
  by (simp add: minutes_of_def time_to_minutes_clock)

lemma make_period_clock:
  assumes "0 \<le> s" "s < e" "e \<le> 1440"
  shows "make_period (clock s) (clock e) t = Inr (period_of (s, e, t))"
proof -
  have "validate_time_format (clock m) = Inr (clock m)" if "0 \<le> m" "m \<le> 1440" for m
    using time_to_minutes_clock [OF that] by (auto simp: validate_time_format_def time_to_minutes_def split: if_splits option.splits)
  with assms time_to_minutes_clock [of s] time_to_minutes_clock [of e] show ?thesis
    by (simp add: make_period_def validate_time_range_def)
qed

lemma endtime_clock:
  assumes "0 \<le> e" "e \<le> 1440"
  shows "endtime_to_minutes (TText (clock e)) = Inr e"
  using slot_view_text [OF time_to_minutes_clock [OF assms], of 0]
  by (auto simp: slot_view_def text_slot_def split: sum.splits)

declare endtime_to_minutes.simps(3) [simp del]

lemma text_slot_sel [simp]:
  "slot_endtime (text_slot e t) = Inr (TText e)" "slot_temperature (text_slot e t) = Inr t"
  by (simp_all add: slot_endtime_def slot_temperature_def text_slot_def)

definition open_ok :: "triple option \<Rightarrow> int \<Rightarrow> bool" where
  "open_ok r c \<longleftrightarrow> (case r of None \<Rightarrow> True | Some (s, e, t) \<Rightarrow> 0 \<le> s \<and> s < e \<and> e = c)"

lemma merge_slot_minutes:
  assumes "0 \<le> c" "c \<le> e" "e \<le> 1440" and r: "open_ok r c"
    and move: "c < e \<or> t = base \<or> map_option (\<lambda>(s, e, t). t) r = Some t"
  shows "merge_slot base (state_of_minutes (Q, r, c)) (text_slot (clock e) t)
           = Inr (state_of_minutes (merge_minutes base (Q, r, c) (e, t)))"
proof -
  have conv: "endtime_to_minutes (TText (clock e)) = Inr e" "convert_minutes_to_time_str e = Inr (clock e)"
    "convert_time_str_to_minutes (clock e) = Inr e" "convert_time_str_to_minutes (clock c) = Inr c"
    using assms endtime_clock convert_minutes_clock convert_time_str_clock by simp_all
  show ?thesis
  proof (cases r)
    case None
    with assms make_period_clock [of c e t] show ?thesis
      by (cases "t = base") (simp_all add: merge_slot_def conv)
  next
    case (Some q)
    obtain s e' t' where q: "q = (s, e', t')" by (cases q)
    have "make_period (clock s) (clock e) t = Inr (period_of (s, e, t))"
      using r assms by (intro make_period_clock) (auto simp: open_ok_def Some q)
    moreover have "make_period (clock c) (clock e) t = Inr (period_of (c, e, t))" if "t \<noteq> base" "t' \<noteq> t"
      using move that assms by (intro make_period_clock) (auto simp: Some q)
    ultimately show ?thesis
      using \<open>c \<le> e\<close> by (cases "t = base"; cases "t' = t") (simp_all add: merge_slot_def conv Some q)
  qed
qed

text \<open>Periods as triples in order, and the temperature they give.\<close>

fun triple_chain :: "int \<Rightarrow> triple list \<Rightarrow> int \<Rightarrow> bool" where
  "triple_chain c [] c' \<longleftrightarrow> c \<le> c'"
| "triple_chain c ((s, e, t) # R) c' \<longleftrightarrow> c \<le> s \<and> s < e \<and> triple_chain e R c'"

definition triple_temp :: "real \<Rightarrow> triple list \<Rightarrow> int \<Rightarrow> real" where
  "triple_temp base R m = (case find (\<lambda>(s, e, t). s \<le> m \<and> m < e) R of Some (s, e, t) \<Rightarrow> t | None \<Rightarrow> base)"

lemma triple_chain_snoc: "triple_chain c (R @ [(s, e, t)]) c' \<longleftrightarrow> triple_chain c R s \<and> s < e \<and> e \<le> c'"
  by (induction c R s rule: triple_chain.induct) auto

lemma triple_chain_mono: "triple_chain c R c' \<Longrightarrow> c' \<le> c'' \<Longrightarrow> triple_chain c R c''"
  by (induction c R c' rule: triple_chain.induct) auto

lemma triple_chain_le: "triple_chain c R c' \<Longrightarrow> c \<le> c' \<and> (\<forall>(s, e, t) \<in> set R. c \<le> s \<and> s < e \<and> e \<le> c')"
  by (induction c R c' rule: triple_chain.induct) fastforce+

lemma triple_temp_after: "triple_chain c R c' \<Longrightarrow> c' \<le> m \<Longrightarrow> triple_temp base R m = base"
  using triple_chain_le [of c R c'] by (fastforce simp: triple_temp_def find_None_iff split: option.splits dest: find_SomeD)

lemma triple_temp_snoc:
  assumes "triple_chain c R s"
  shows "triple_temp base (R @ [(s, e, t)]) m = (if m < s then triple_temp base R m else if m < e then t else base)"
proof -
  have find_snoc: "find P (xs @ [x]) = (case find P xs of None \<Rightarrow> if P x then Some x else None | Some y \<Rightarrow> Some y)" for P xs and x :: triple
    by (induction xs) auto
  have "find (\<lambda>(s, e, t). s \<le> m \<and> m < e) R = None" if "s \<le> m"
    using triple_chain_le [OF assms] that by (fastforce simp: find_None_iff)
  then show ?thesis
    by (auto simp: triple_temp_def find_snoc split: option.splits)
qed

definition open_list :: "triple option \<Rightarrow> triple list" where
  "open_list r = (case r of None \<Rightarrow> [] | Some q \<Rightarrow> [q])"

definition merged :: "real \<Rightarrow> (int \<times> real) list \<Rightarrow> triple list \<times> triple option \<times> int \<Rightarrow> bool" where
  "merged base vs st =
     (case st of (Q, r, c) \<Rightarrow>
        open_ok r c \<and> triple_chain 0 (Q @ open_list r) c \<and> (\<forall>(e, t) \<in> set vs. e \<le> c) \<and>
        (\<forall>m. 0 \<le> m \<and> m < c \<longrightarrow> prog_temp vs m = Some (triple_temp base (Q @ open_list r) m)) \<and>
        (vs \<noteq> [] \<and> snd (last vs) \<noteq> base \<longrightarrow> (\<exists>s e. r = Some (s, e, snd (last vs)))))"

lemma merge_minutes_merged:
  assumes inv: "merged base vs (Q, r, c)" and e: "c \<le> e" "0 \<le> c"
    and move: "c < e \<or> t = base \<or> map_option (\<lambda>(s, e, t). t) r = Some t"
  shows "merged base (vs @ [(e, t)]) (merge_minutes base (Q, r, c) (e, t))"
proof -
  let ?R = "Q @ open_list r"
  have chain: "triple_chain 0 ?R c" and ends: "\<forall>(e, t) \<in> set vs. e \<le> c" and ok: "open_ok r c"
    and temps: "\<And>m. 0 \<le> m \<Longrightarrow> m < c \<Longrightarrow> prog_temp vs m = Some (triple_temp base ?R m)"
    using inv by (auto simp: merged_def)
  have beyond: "prog_temp vs m = None" if "c \<le> m" for m
    using ends that by (fastforce simp: prog_temp_None_iff)
  have prog: "prog_temp (vs @ [(e, t)]) m = Some (if m < c then triple_temp base ?R m else t)" if "0 \<le> m" "m < e" for m
    using temps [of m] beyond [of m] that by (cases "m < c") (auto simp: prog_temp_append)
  have bounded: "\<forall>(e', t') \<in> set (vs @ [(e, t)]). e' \<le> e"
    using ends e by fastforce
  have keep: "triple_temp base ?R m = base" if "c \<le> m" for m
    using triple_temp_after [OF chain that] .
  have new: "triple_temp base (?R @ [(c, e, t)]) m = (if m < c then triple_temp base ?R m else if m < e then t else base)" for m
    using triple_temp_snoc [OF chain] .
  consider (base) "t = base" | (none) "t \<noteq> base" "r = None"
    | (same) s where "t \<noteq> base" "r = Some (s, c, t)" | (other) s t' where "t \<noteq> base" "r = Some (s, c, t')" "t' \<noteq> t"
    using ok by (cases r) (force simp: open_ok_def)+
  then show ?thesis
  proof cases
    case base
    then have "merge_minutes base (Q, r, c) (e, t) = (?R, None, e)"
      by (cases r) (auto simp: open_list_def)
    moreover have "triple_chain 0 ?R e"
      using chain e triple_chain_mono by blast
    ultimately show ?thesis
      using prog keep bounded base by (simp add: merged_def open_ok_def open_list_def not_less)
  next
    case none
    then have "c < e" using move by simp
    moreover have "triple_chain 0 (?R @ [(c, e, t)]) e"
      using chain \<open>c < e\<close> triple_chain_snoc [of 0 ?R c e t e] by simp
    ultimately show ?thesis
      using prog new bounded none e by (simp add: merged_def open_ok_def open_list_def)
  next
    case same
    have Q: "triple_chain 0 Q s" "s < c"
      using chain same by (simp_all add: open_list_def triple_chain_snoc)
    have "triple_temp base (Q @ [(s, e, t)]) m = (if m < c then triple_temp base ?R m else t)" if "m < e" for m
      using triple_temp_snoc [OF Q(1), of base] that Q(2) e by (simp add: same open_list_def)
    moreover have "triple_chain 0 (Q @ [(s, e, t)]) e"
      using Q e by (simp add: triple_chain_snoc)
    ultimately show ?thesis
      using prog bounded same Q e triple_chain_le [OF Q(1)] by (simp add: merged_def open_ok_def open_list_def)
  next
    case other
    then have "c < e" using move by simp
    moreover have "triple_chain 0 (?R @ [(c, e, t)]) e"
      using chain \<open>c < e\<close> triple_chain_snoc [of 0 ?R c e t e] by simp
    ultimately show ?thesis
      using prog new bounded other e by (simp add: merged_def open_ok_def open_list_def)
  qed
qed

text \<open>A run of slots whose ends increase, or stay and keep the temperature, merges without an error.\<close>

fun mergeable :: "int \<Rightarrow> real option \<Rightarrow> (int \<times> real) list \<Rightarrow> bool" where
  "mergeable c lt [] \<longleftrightarrow> True"
| "mergeable c lt ((e, t) # vs) \<longleftrightarrow> c \<le> e \<and> e \<le> 1440 \<and> (c < e \<or> lt = Some t) \<and> mergeable e (Some t) vs"

definition clocked :: "(int \<times> real) list \<Rightarrow> (string \<times> real) list" where
  "clocked vs = map (\<lambda>(e, t). (clock e, t)) vs"

lemma merge_slots_merged:
  assumes "merged base us (Q, r, c)" and "0 \<le> c" and "mergeable c (if us = [] then None else Some (snd (last us))) vs"
  shows "\<exists>Q' r' c'. merge_slots base (map (\<lambda>(e, t). text_slot e t) (clocked vs)) (state_of_minutes (Q, r, c))
            = Inr (state_of_minutes (Q', r', c')) \<and> merged base (us @ vs) (Q', r', c') \<and>
            c' = (if vs = [] then c else fst (last vs))"
  using assms
proof (induction vs arbitrary: us Q r c)
  case Nil
  then show ?case by (auto simp: clocked_def)
next
  case (Cons v vs)
  obtain e t where v: "v = (e, t)" by force
  have inv: "merged base us (Q, r, c)" "0 \<le> c" and e: "c \<le> e" "e \<le> 1440" and rest: "mergeable e (Some t) vs"
    and step: "c < e \<or> us \<noteq> [] \<and> snd (last us) = t"
    using Cons.prems by (auto simp: v split: if_splits)
  have move: "c < e \<or> t = base \<or> map_option (\<lambda>(s, e, t). t) r = Some t"
    using step inv(1) by (auto simp: merged_def)
  have "snd (snd (merge_minutes base (Q, r, c) (e, t))) = e"
    by (cases r) auto
  then obtain Q' r' where nxt: "merge_minutes base (Q, r, c) (e, t) = (Q', r', e)"
    by (metis prod.collapse)
  have "merge_slot base (state_of_minutes (Q, r, c)) (text_slot (clock e) t) = Inr (state_of_minutes (Q', r', e))"
    using merge_slot_minutes [OF inv(2) e _ move] inv(1) nxt by (simp add: merged_def)
  moreover have "merged base (us @ [(e, t)]) (Q', r', e)"
    using merge_minutes_merged [OF inv(1) e(1) inv(2) move] by (simp only: nxt)
  moreover have "0 \<le> e" using inv(2) e by simp
  ultimately show ?case
    using Cons.IH [of "us @ [(e, t)]" Q' r' e] rest
    by (auto simp: v clocked_def simp del: state_of_minutes.simps) blast
qed

lemma triple_periods:
  assumes "triple_chain c R c'" and "0 \<le> c" and "c' \<le> 1440"
  shows "period_chain c (map period_of R)" and "periods_temp base (map period_of R) m = triple_temp base R m"
proof -
  have mins: "\<forall>(s, e, t) \<in> set R. minutes_of (clock s) = s \<and> minutes_of (clock e) = e"
    using triple_chain_le [OF assms(1)] assms(2,3) by fastforce
  show "period_chain c (map period_of R)"
    using assms
  proof (induction c R c' rule: triple_chain.induct)
    case (2 c s e t R c')
    then have bounds: "0 \<le> s" "s < e" "e \<le> 1440"
      using triple_chain_le [of e R c'] by auto
    then have "good_period (period_of (s, e, t))"
      using time_to_minutes_clock [of s] time_to_minutes_clock [of e] by (simp add: good_period_def)
    with 2 bounds show ?case by simp
  qed simp
  have "find (period_around m) (map period_of R) = map_option period_of (find (\<lambda>(s, e, t). s \<le> m \<and> m < e) R)"
    using mins
  proof (induction R)
    case (Cons q R)
    then show ?case by (cases q) (auto simp: period_around_def)
  qed simp
  then show "periods_temp base (map period_of R) m = triple_temp base R m"
    by (auto simp: periods_temp_def triple_temp_def split: option.splits)
qed

lemma period_chain_sorted: "period_chain c ps \<Longrightarrow> sorted (map (\<lambda>p. minutes_of (cp_starttime p)) ps) \<and> check_overlaps ps"
proof (induction ps arbitrary: c)
  case (Cons p ps)
  then have p: "good_period p" and ps: "period_chain (minutes_of (cp_endtime p)) ps" by auto
  have "minutes_of (cp_endtime p) \<le> minutes_of (cp_starttime q)" if "q \<in> set ps" for q
    using period_chain_ge [OF ps that] .
  moreover have "check_overlaps (p # ps)"
    using Cons.IH [OF ps] ps by (cases ps) auto
  ultimately show ?case
    using Cons.IH [OF ps] good_periodD(5) [OF p] by fastforce
qed simp

text \<open>The base temperature is one of the temperatures of the day.\<close>

lemma max_key_mem: "max_key p d \<in> insert (fst p) (fst ` set d)"
proof (induction d arbitrary: p)
  case (Cons q d)
  then show ?case
    using Cons [of p] Cons [of q] by (cases p; cases q) (auto split: if_splits)
next
  case Nil
  then show ?case by (cases p) simp
qed

lemma tally_clocked:
  assumes "\<forall>(e, t) \<in> set vs. 0 \<le> e \<and> e \<le> 1440"
  shows "\<exists>acc'. tally_minutes (map (\<lambda>(e, t). text_slot e t) (clocked vs)) prev acc = Inr acc' \<and>
           fst ` set acc' = fst ` set acc \<union> snd ` set vs"
  using assms
proof (induction vs arbitrary: prev acc)
  case (Cons v vs)
  obtain e t where v: "v = (e, t)" by force
  have e: "endtime_to_minutes (TText (clock e)) = Inr e"
    using Cons.prems by (simp add: v endtime_clock)
  let ?acc = "dict_set t ((case dict_get acc t of None \<Rightarrow> 0 | Some n \<Rightarrow> n) + (e - prev)) acc"
  obtain acc' where "tally_minutes (map (\<lambda>(e, t). text_slot e t) (clocked vs)) e ?acc = Inr acc'"
    and "fst ` set acc' = fst ` set ?acc \<union> snd ` set vs"
    using Cons.IH [of e ?acc] Cons.prems by auto
  moreover have "fst ` set ?acc = insert t (fst ` set acc)"
    using set_dict_keys_set [of t _ acc] by (simp add: dict_keys_def)
  ultimately show ?case
    by (simp add: v clocked_def e)
qed (simp add: clocked_def)

lemma base_temperature_clocked:
  assumes "vs \<noteq> []" and "\<forall>(e, t) \<in> set vs. 0 \<le> e \<and> e \<le> 1440"
  shows "\<exists>base \<in> snd ` set vs. identify_base_temperature (slots_from 1 (clocked vs)) = Inr base"
proof -
  obtain acc where acc: "tally_minutes (map (\<lambda>(e, t). text_slot e t) (clocked vs)) 0 [] = Inr acc"
    and keys: "fst ` set acc = snd ` set vs"
    using tally_clocked [OF assms(2), of 0 "[]"] by auto
  then obtain p ps where ps: "acc = p # ps"
    using assms(1) by (cases acc) auto
  have ne: "slots_from 1 (clocked vs) \<noteq> []"
    using assms(1) by (cases vs) (auto simp: clocked_def)
  have "identify_base_temperature (slots_from 1 (clocked vs)) = Inr (max_key p ps)"
    using acc ps ne by (simp add: identify_base_temperature_def map_snd_slots_from)
  moreover have "max_key p ps \<in> snd ` set vs"
    using max_key_mem [of p ps] keys ps by auto
  ultimately show ?thesis by blast
qed

text \<open>The slots a device acts on: up to the first that ends at midnight.\<close>

fun active_slots :: "(int \<times> real) list \<Rightarrow> (int \<times> real) list" where
  "active_slots [] = []"
| "active_slots ((e, t) # vs) = (if e = 1440 then [(e, t)] else (e, t) # active_slots vs)"

lemma clock_eq_24: "0 \<le> e \<Longrightarrow> e \<le> 1440 \<Longrightarrow> clock e = ''24:00'' \<longleftrightarrow> e = 1440"
  by (metis clock_24 minutes_of_24(1) minutes_of_clock)

lemma upto_max_time_clocked:
  assumes "\<forall>(e, t) \<in> set vs. 0 \<le> e \<and> e \<le> 1440"
  shows "upto_max_time (map (\<lambda>(e, t). text_slot e t) (clocked vs)) = map (\<lambda>(e, t). text_slot e t) (clocked (active_slots vs))"
  using assms
  by (induction vs rule: active_slots.induct)
    (auto simp: clocked_def text_slot_def CLIMATE_MAX_SCHEDULER_TIME_def clock_eq_24)

lemma active_slots_subset: "set (active_slots vs) \<subseteq> set vs"
  by (induction vs rule: active_slots.induct) auto

lemma prog_temp_active: "m < 1440 \<Longrightarrow> prog_temp (active_slots vs) m = prog_temp vs m"
  by (induction vs rule: active_slots.induct) auto

lemma length_clocked [simp]: "length (clocked vs) = length vs"
  by (simp add: clocked_def)

lemma zip_slots: "n = length sts \<Longrightarrow> zip [1..int n] (map (\<lambda>(e, t). text_slot e t) sts) = slots_from 1 sts"
  by (simp add: slots_from_def)

lemma filter_clocked:
  assumes "\<forall>(e, t) \<in> set vs. 0 \<le> e \<and> e \<le> 1440"
  shows "filter_weekday_entries (slots_from 1 (clocked vs)) = slots_from 1 (clocked (active_slots vs))"
  using upto_max_time_clocked [OF assms]
  by (simp add: filter_weekday_entries_def map_snd_slots_from Let_def zip_slots)

lemma slots_from_replicate:
  "map (\<lambda>n. (n, text_slot e t)) [i..i + int k - 1] = slots_from i (replicate k (e, t))"
proof (induction k arbitrary: i)
  case (Suc k)
  have "[i..i + int (Suc k) - 1] = i # [i + 1..(i + 1) + int k - 1]"
    by (subst upto_rec1) (simp_all add: algebra_simps)
  with Suc [of "i + 1"] show ?case by simp
qed simp

lemma normalize_clocked:
  assumes "vs \<noteq> []" and "\<forall>(e, t) \<in> set vs. 0 \<le> e \<and> e \<le> 1440" and "sorted (map fst vs)"
  shows "normalize_weekday_data (slots_from 1 (clocked vs))
           = Inr (slots_from 1 (clocked (vs @ replicate (13 - length vs) (1440, snd (last vs)))))"
proof -
  let ?slots = "map (\<lambda>(e, t). text_slot e t) (clocked vs)"
  have keyed: "map (\<lambda>(n, sl). res_bind (slot_endtime sl) (\<lambda>e. res_bind (endtime_to_minutes e) (\<lambda>m. Inr (m, sl))))
      (slots_from i (clocked vs)) = map Inr (zip (map fst vs) ?slots)" for i
    using assms(2) by (induction vs arbitrary: i) (auto simp: clocked_def endtime_clock)
  have "sort_key fst (zip (map fst vs) ?slots) = zip (map fst vs) ?slots"
    using assms(3) by (simp add: sort_key_id_if_sorted)
  then have sls: "map snd (sort_key fst (zip (map fst vs) ?slots)) = ?slots" and "sort_key fst (zip (map fst vs) ?slots) \<noteq> []"
    using assms(1) by (auto simp: clocked_def zip_eq_Nil_iff)
  moreover have last: "sl_temperature (last ?slots) = Some (snd (last vs))"
    using assms(1) by (cases vs rule: rev_cases) (auto simp: clocked_def text_slot_def)
  moreover have "map (\<lambda>n. (n, text_slot ''24:00'' (snd (last vs)))) [int (length vs) + 1..13]
      = slots_from (1 + int (length vs)) (replicate (13 - length vs) (''24:00'', snd (last vs)))"
    using slots_from_replicate [of "''24:00''" "snd (last vs)" "1 + int (length vs)" "13 - length vs"]
    by (cases "length vs \<le> 13") (auto simp: of_nat_diff add.commute)
  moreover have "clocked (vs @ replicate (13 - length vs) (1440, snd (last vs)))
      = clocked vs @ replicate (13 - length vs) (''24:00'', snd (last vs))"
    by (simp add: clocked_def)
  moreover have "?slots \<noteq> []" using assms(1) by (simp add: clocked_def)
  ultimately show ?thesis
    using assms(1)
    by (simp add: normalize_weekday_data_def keyed res_list_Inr sls Let_def slots_from_append CLIMATE_MAX_SCHEDULER_TIME_def
        zip_slots del: map_map)
qed

lemma mergeable_fill: "mergeable c (Some t) (replicate k (1440, t))" if "c \<le> 1440"
  using that by (induction k arbitrary: c) auto

lemma mergeable_increasing:
  assumes "sorted_wrt (<) (c # map fst vs)" and "\<forall>(e, t) \<in> set vs. e \<le> 1440" and "vs \<noteq> []"
  shows "mergeable c lt (vs @ replicate k (1440, snd (last vs)))"
  using assms
proof (induction vs arbitrary: c lt)
  case (Cons v vs)
  obtain e t where v: "v = (e, t)" by force
  show ?case
  proof (cases "vs = []")
    case True
    with Cons.prems show ?thesis by (simp add: v mergeable_fill)
  next
    case False
    then have "mergeable e (Some t) (vs @ replicate k (1440, snd (last vs)))"
      using Cons.prems by (intro Cons.IH) (auto simp: v)
    with False Cons.prems show ?thesis by (simp add: v)
  qed
qed simp

text \<open>
  Reading slots whose ends increase up to the first midnight succeeds, and the schedule read has the
  temperature of the slots at every minute. After the end of the last slot it is the last
  temperature, which the reader fills up with, or the base temperature when there are thirteen slots.
\<close>

lemma weekday_to_simple_clocked:
  assumes "vs \<noteq> []" and range: "\<forall>(e, t) \<in> set vs. 0 \<le> e \<and> e \<le> 1440 \<and> lo \<le> t \<and> t \<le> hi"
    and incr: "sorted_wrt (<) (0 # map fst (active_slots vs))"
  shows "\<exists>w. weekday_to_simple (Some lo) (Some hi) (slots_from 1 (clocked vs)) = Inr w \<and>
           lo \<le> cw_base_temperature w \<and> cw_base_temperature w \<le> hi \<and>
           (\<forall>m. 0 \<le> m \<and> m < 1440 \<longrightarrow>
              simple_temp w m = (case prog_temp vs m of
                  Some t \<Rightarrow> t
                | None \<Rightarrow> if length (active_slots vs) < 13 then snd (last (active_slots vs)) else cw_base_temperature w))"
proof -
  let ?us = "active_slots vs"
  let ?fill = "replicate (13 - length ?us) (1440, snd (last ?us))"
  have in_day: "\<forall>(e, t) \<in> set vs. 0 \<le> e \<and> e \<le> 1440"
    using range by auto
  have us: "?us \<noteq> []" "\<forall>(e, t) \<in> set ?us. 0 \<le> e \<and> e \<le> 1440" "sorted (map fst ?us)"
  proof -
    show "?us \<noteq> []"
      using assms(1) by (cases vs rule: active_slots.cases) auto
    show "\<forall>(e, t) \<in> set ?us. 0 \<le> e \<and> e \<le> 1440"
      using in_day active_slots_subset [of vs] by blast
    show "sorted (map fst ?us)"
      using incr by (simp add: strict_sorted_imp_sorted)
  qed
  obtain base where base: "identify_base_temperature (slots_from 1 (clocked vs)) = Inr base" "lo \<le> base" "base \<le> hi"
    using base_temperature_clocked [OF assms(1) in_day] range by fastforce
  have "merged base [] ([], None, 0)"
    by (simp add: merged_def open_ok_def open_list_def)
  moreover have "mergeable 0 None (?us @ ?fill)"
    using mergeable_increasing [OF incr _ us(1)] us(2) by (simp add: case_prod_beta)
  ultimately obtain Q r c where run: "merge_slots base (map (\<lambda>(e, t). text_slot e t) (clocked (?us @ ?fill))) (state_of_minutes ([], None, 0))
        = Inr (state_of_minutes (Q, r, c))"
    and inv: "merged base (?us @ ?fill) (Q, r, c)" and c: "c = fst (last (?us @ ?fill))"
    using merge_slots_merged [of base "[]" "[]" None 0 "?us @ ?fill"] us(1)
    by (auto simp del: state_of_minutes.simps)
  let ?R = "Q @ open_list r"
  have "last (?us @ ?fill) \<in> set (?us @ ?fill)"
    using us(1) by (intro last_in_set) simp
  then have c1440: "c \<le> 1440"
    using us(2) unfolding c by (auto split: if_splits)
  have chain: "triple_chain 0 ?R c"
    using inv by (simp add: merged_def)
  note R = triple_periods [OF chain order_refl c1440]
  define w where "w = \<lparr>cw_base_temperature = base, cw_periods = map period_of ?R\<rparr>"
  have closed: "close_range (state_of_minutes (Q, r, c)) = map period_of ?R"
    by (cases r) (simp_all add: close_range_def open_list_def)
  have "sort_key (\<lambda>p. minutes_of (cp_starttime p)) (map period_of ?R) = map period_of ?R"
    using period_chain_sorted [OF R(1)] by (simp add: sort_key_id_if_sorted)
  then have "make_weekday base (sort_key (\<lambda>p. minutes_of (cp_starttime p)) (close_range (state_of_minutes (Q, r, c)))) = Inr w"
    using period_chain_sorted [OF R(1)] unfolding closed
    by (simp add: make_weekday_def validate_non_overlapping_periods_def w_def)
  then have read: "weekday_to_simple (Some lo) (Some hi) (slots_from 1 (clocked vs)) = Inr w"
    using base run filter_clocked [OF in_day] normalize_clocked [OF us]
    by (simp add: weekday_to_simple_def require_temp_bounds_def map_snd_slots_from CLIMATE_MIN_SCHEDULER_TIME_def)
  have temp: "simple_temp w m = triple_temp base ?R m" for m
    using R(2) by (simp add: simple_temp_def w_def)
  have "simple_temp w m = (case prog_temp vs m of Some t \<Rightarrow> t
        | None \<Rightarrow> if length ?us < 13 then snd (last ?us) else base)" if m: "0 \<le> m" "m < 1440" for m
  proof (cases "m < c")
    case True
    then have "prog_temp (?us @ ?fill) m = Some (simple_temp w m)"
      using inv m by (simp add: merged_def temp)
    then show ?thesis
      using prog_temp_active [OF m(2), of vs] m(2)
      by (auto simp: prog_temp_append prog_temp_replicate split: option.splits if_splits)
  next
    case False
    then have "simple_temp w m = base"
      using triple_temp_after [OF chain] by (simp add: temp)
    moreover have ends: "\<forall>(e, t) \<in> set (?us @ ?fill). e \<le> c"
      using inv unfolding merged_def prod.case by (elim conjE)
    have "prog_temp (?us @ ?fill) m = None"
      unfolding prog_temp_None_iff
    proof clarify
      fix e t
      assume "(e, t) \<in> set (?us @ ?fill)"
      from bspec [OF ends this] False show "e \<le> m" by simp
    qed
    ultimately show ?thesis
      using prog_temp_active [OF m(2), of vs] m(2)
      by (auto simp: prog_temp_append prog_temp_replicate split: option.splits if_splits)
  qed
  moreover have "cw_base_temperature w = base"
    by (simp add: w_def)
  ultimately show ?thesis
    using read base by (intro exI [of _ w]) (simp cong: option.case_cong)
qed

end
