(* ===== verification/Climate_Device.thy ===== *)
theory Climate_Device
  imports Climate_Profile
begin

section \<open>Thermostat schedules on the device\<close>

text \<open>
  The raw parameters of a thermostat's paramset: what writing a weekday sends, what the device holds
  afterwards and what reading it back gives. Also the cache of \<open>ClimateWeekProfile\<close> with its services.
\<close>

subsection \<open>The week profile and its services\<close>

text \<open>
  The state of a \<open>ClimateWeekProfile\<close>: the cached schedule, the channel of the schedule (none when the
  device has no schedule) and the bounds of the temperature. What the backend answers to
  \<open>get_paramset\<close> is an argument: the parameters, or a \<open>ClientException\<close>.
\<close>

record climate_week_profile =
  cwp_schedule_cache :: climate_schedule
  cwp_schedule_channel_address :: "string option"
  cwp_min_temp :: "real option"
  cwp_max_temp :: "real option"

datatype paramset_answer = ClientFailure | Paramset "(string, raw_value) dict"

definition unsupported :: schedule_error where
  "unsupported = ValidationErr ''exception.model.week_profile.schedule.unsupported''"

definition schedule_channel_address :: "climate_week_profile \<Rightarrow> schedule_error + string" where
  "schedule_channel_address wp =
     (case cwp_schedule_channel_address wp of None \<Rightarrow> Inl unsupported | Some a \<Rightarrow> Inr a)"

definition get_raw_schedule :: "paramset_answer \<Rightarrow> climate_week_profile \<Rightarrow> schedule_error + (string, raw_value) dict" where
  "get_raw_schedule answer wp =
     res_bind (schedule_channel_address wp) (\<lambda>_.
       case answer of
         ClientFailure \<Rightarrow> Inl unsupported
       | Paramset raw \<Rightarrow> Inr (filter (\<lambda>(k, v). SCHEDULER_PROFILE_PATTERN k) raw))"

definition get_schedule_profile :: "paramset_answer \<Rightarrow> climate_week_profile \<Rightarrow> schedule_error + climate_schedule" where
  "get_schedule_profile answer wp =
     res_bind (get_raw_schedule answer wp) (convert_raw_to_pydantic (cwp_min_temp wp) (cwp_max_temp wp))"

text \<open>Equality of Python dictionaries, which disregards the order.\<close>

definition dict_equal :: "('v \<Rightarrow> 'v \<Rightarrow> bool) \<Rightarrow> ('k, 'v) dict \<Rightarrow> ('k, 'v) dict \<Rightarrow> bool" where
  "dict_equal eq d d' \<longleftrightarrow>
     length d = length d' \<and> list_all (\<lambda>(k, v). case dict_get d' k of None \<Rightarrow> False | Some v' \<Rightarrow> eq v v') d"

text \<open>The new state, and whether the change is published.\<close>

definition reload_and_cache_schedule :: "paramset_answer \<Rightarrow> climate_week_profile \<Rightarrow> schedule_error + climate_week_profile \<times> bool" where
  "reload_and_cache_schedule answer wp =
     (if cwp_schedule_channel_address wp = None then Inr (wp, False)
      else case get_schedule_profile answer wp of
             Inl (ValidationErr _) \<Rightarrow> Inr (wp, False)
           | Inl e \<Rightarrow> Inl e
           | Inr new \<Rightarrow>
               Inr (wp\<lparr>cwp_schedule_cache := new\<rparr>,
                    \<not> dict_equal (dict_equal (=)) (cwp_schedule_cache wp) new))"

definition load_if_needed :: "bool \<Rightarrow> paramset_answer \<Rightarrow> climate_week_profile \<Rightarrow> schedule_error + climate_week_profile \<times> bool" where
  "load_if_needed force_load answer wp =
     (if cwp_schedule_channel_address wp = None then Inl unsupported
      else if force_load \<or> cwp_schedule_cache wp = [] then reload_and_cache_schedule answer wp
      else Inr (wp, False))"

definition get_profile ::
  "schedule_profile \<Rightarrow> bool \<Rightarrow> paramset_answer \<Rightarrow> climate_week_profile \<Rightarrow> schedule_error + climate_profile \<times> climate_week_profile" where
  "get_profile p force_load answer wp =
     res_bind (load_if_needed force_load answer wp)
       (\<lambda>(wp, _). Inr (get_or [] (dict_get (cwp_schedule_cache wp) p), wp))"

definition get_schedule :: "bool \<Rightarrow> paramset_answer \<Rightarrow> climate_week_profile \<Rightarrow> schedule_error + climate_schedule \<times> climate_week_profile" where
  "get_schedule force_load answer wp =
     res_bind (load_if_needed force_load answer wp) (\<lambda>(wp, _). Inr (cwp_schedule_cache wp, wp))"

definition get_weekday ::
  "schedule_profile \<Rightarrow> weekday \<Rightarrow> bool \<Rightarrow> paramset_answer \<Rightarrow> climate_week_profile \<Rightarrow> schedule_error + climate_weekday \<times> climate_week_profile" where
  "get_weekday p day force_load answer wp =
     res_bind (load_if_needed force_load answer wp)
       (\<lambda>(wp, _). Inr (get_or \<lparr>cw_base_temperature = 20, cw_periods = []\<rparr>
                         (case dict_get (cwp_schedule_cache wp) p of None \<Rightarrow> None | Some days \<Rightarrow> dict_get days day), wp))"

text \<open>The setters give the parameters they send; the cache is left alone until the device reports back.\<close>

definition set_profile :: "schedule_profile \<Rightarrow> climate_profile \<Rightarrow> climate_week_profile \<Rightarrow> schedule_error + (string, raw_value) dict" where
  "set_profile p days wp =
     res_bind (simple_to_profile (cwp_min_temp wp) (cwp_max_temp wp) days) (\<lambda>slots.
     res_bind (schedule_channel_address wp) (\<lambda>_. climate_to_raw [(p, slots)]))"

definition set_schedule :: "climate_schedule \<Rightarrow> climate_week_profile \<Rightarrow> schedule_error + (string, raw_value) dict" where
  "set_schedule sched wp =
     res_bind (simple_to_schedule (cwp_min_temp wp) (cwp_max_temp wp) sched) (\<lambda>slots.
     res_bind (schedule_channel_address wp) (\<lambda>_. climate_to_raw slots))"

text \<open>Copying to another profile; \<open>None\<close> as the target means the same week profile.\<close>

definition copy_profile_to ::
  "schedule_profile \<Rightarrow> schedule_profile \<Rightarrow> climate_week_profile option \<Rightarrow> paramset_answer \<Rightarrow> climate_week_profile \<Rightarrow>
   schedule_error + (string, raw_value) dict" where
  "copy_profile_to source target other answer wp =
     (if cwp_schedule_channel_address wp = None then Inl unsupported
      else if other = None \<and> source = target
      then Inl (ValidationErr ''exception.model.week_profile.copy_schedule.same_device_invalid'')
      else res_bind (get_profile source False answer wp) (\<lambda>(days, wp).
             let to = get_or wp other
             in if cwp_schedule_channel_address to = None then Inl unsupported else set_profile target days to))"

definition copy_schedule_to :: "climate_week_profile \<Rightarrow> paramset_answer \<Rightarrow> climate_week_profile \<Rightarrow> schedule_error + (string, raw_value) dict" where
  "copy_schedule_to other answer wp =
     res_bind (get_raw_schedule answer wp) (\<lambda>raw.
       if cwp_schedule_channel_address other = None then Inl unsupported else Inr raw)"

subsection \<open>Raw parameters of a device\<close>

lemma split_raw_name:
  assumes "CHR ''_'' \<notin> set ty"
  shows "split_max CHR ''_'' 3 (raw_name p ty day n) = [profile_name p, ty, weekday_name day, str_int n]"
proof -
  have "split_max CHR ''_'' (Suc (Suc (Suc 0))) (profile_name p @ CHR ''_'' # ty @ CHR ''_'' # weekday_name day @ CHR ''_'' # str_int n)
      = [profile_name p, ty, weekday_name day, str_int n]"
    using assms by (simp add: takeWhile_sep dropWhile_sep)
  then show ?thesis by (simp add: raw_name_def numeral_3_eq_3)
qed

lemma python_int_str_int [simp]: "0 \<le> n \<Longrightarrow> python_int (str_int n) = Some n"
  by (simp add: str_int_def)

definition slot_types :: "string set" where
  "slot_types = {''ENDTIME'', ''TEMPERATURE''}"

lemma slot_type_no_underscore: "ty \<in> slot_types \<Longrightarrow> CHR ''_'' \<notin> set ty"
  by (auto simp: slot_types_def)

lemma raw_name_inject:
  assumes "ty \<in> slot_types" "ty' \<in> slot_types" "0 \<le> n" "0 \<le> n'"
  shows "raw_name p ty day n = raw_name p' ty' day' n' \<longleftrightarrow> p = p' \<and> ty = ty' \<and> day = day' \<and> n = n'"
proof
  assume "raw_name p ty day n = raw_name p' ty' day' n'"
  then have "profile_name p = profile_name p' \<and> ty = ty' \<and> weekday_name day = weekday_name day' \<and> str_int n = str_int n'"
    using split_raw_name assms slot_type_no_underscore by (metis list.inject)
  then show "p = p' \<and> ty = ty' \<and> day = day' \<and> n = n'"
    using assms profile_of_name weekday_of_name python_int_str_int by (metis option.inject)
qed simp

lemma scheduler_profile_raw_name:
  assumes "ty \<in> slot_types" and "0 \<le> n"
  shows "SCHEDULER_PROFILE_PATTERN (raw_name p ty day n) \<longleftrightarrow> 1 \<le> n \<and> n \<le> 13"
proof -
  have digits: "list_all is_digit (str_int n)"
    using assms(2) dec_digits by (simp add: str_int_def)
  then have no: "CHR ''_'' \<notin> set (str_int n)"
    using digits_no_sep by blast
  have "length (raw_name p ty day n) = Suc (Suc (Suc (length (profile_name p) + length ty + length (weekday_name day) + length (str_int n))))"
    by (simp add: raw_name_def)
  then have "split_all CHR ''_'' (raw_name p ty day n) = [profile_name p, ty, weekday_name day, str_int n]"
    unfolding split_all_def
    using slot_type_no_underscore [OF assms(1)] no
    by (simp add: raw_name_def split_max_none takeWhile_sep dropWhile_sep)
  moreover have tw: "takeWhile is_digit (str_int n) = str_int n" "dropWhile is_digit (str_int n) = []"
    using digits by (simp_all add: list_all_iff)
  moreover have "str_int n \<in> dec ` {1..<14} \<longleftrightarrow> 1 \<le> n \<and> n \<le> 13"
  proof
    assume "str_int n \<in> dec ` {1..<14}"
    then obtain k where "str_int n = dec k" "1 \<le> k" "k < 14" by auto
    then have "n = int k"
      using python_int_str_int [OF assms(2)] python_int_dec [of k] by simp
    with \<open>1 \<le> k\<close> \<open>k < 14\<close> show "1 \<le> n \<and> n \<le> 13" by simp
  next
    assume "1 \<le> n \<and> n \<le> 13"
    then show "str_int n \<in> dec ` {1..<14}"
      by (intro image_eqI [of _ _ "nat n"]) (auto simp: str_int_def)
  qed
  ultimately show ?thesis
    using assms(1) digits by (simp add: SCHEDULER_PROFILE_PATTERN_def at_end_def slot_types_def tw list_all_iff)
qed

definition sched_slot :: "climate_slots \<Rightarrow> schedule_profile \<Rightarrow> weekday \<Rightarrow> int \<Rightarrow> schedule_slot option" where
  "sched_slot sched p day n =
     (case dict_get sched p of None \<Rightarrow> None
      | Some days \<Rightarrow> (case dict_get days day of None \<Rightarrow> None | Some slots \<Rightarrow> dict_get slots n))"

definition put_slot :: "schedule_profile \<Rightarrow> weekday \<Rightarrow> int \<Rightarrow> schedule_slot \<Rightarrow> climate_slots \<Rightarrow> climate_slots" where
  "put_slot p day n sl sched =
     (let days = get_or [] (dict_get sched p)
      in dict_set p (dict_set day (dict_set n sl (get_or [] (dict_get days day))) days) sched)"

definition sched_wf :: "climate_slots \<Rightarrow> bool" where
  "sched_wf sched \<longleftrightarrow>
     (\<forall>p days day slots. dict_get sched p = Some days \<and> dict_get days day = Some slots \<longrightarrow> dict_wf slots \<and> slots \<noteq> [])"

lemma get_or_simps [simp]: "get_or d None = d" "get_or d (Some v) = v"
  by (simp_all add: get_or_def)

lemma sched_slot_put [simp]:
  "sched_slot (put_slot p day n sl sched) p' day' n' =
     (if p' = p \<and> day' = day \<and> n' = n then Some sl else sched_slot sched p' day' n')"
  by (auto simp: sched_slot_def put_slot_def Let_def split: option.splits)

lemma dict_set_nonempty [simp]: "dict_set k v d \<noteq> []"
  using length_dict_set [of k v d] by (cases d) (auto simp: dict_set_def)

lemma sched_wf_put:
  assumes "sched_wf sched"
  shows "sched_wf (put_slot p day n sl sched)"
proof -
  have "dict_wf (get_or [] (dict_get (get_or [] (dict_get sched p)) day))"
    using assms by (cases "dict_get sched p"; cases "dict_get (get_or [] (dict_get sched p)) day") (auto simp: sched_wf_def)
  then show ?thesis
    using assms by (cases "dict_get sched p") (auto simp: sched_wf_def put_slot_def Let_def split: if_splits)
qed

lemma read_raw_item_name:
  assumes "ty \<in> slot_types" and "0 \<le> n"
  shows "read_raw_item sched (raw_name p ty day n, v) =
           res_bind (set_slot_field (lower ty) v (get_or \<lparr>sl_endtime = None, sl_temperature = None\<rparr> (sched_slot sched p day n)))
             (\<lambda>sl. Inr (put_slot p day n sl sched))"
proof -
  have slot: "dict_get (get_or [] (dict_get (get_or [] (dict_get sched p)) day)) n = sched_slot sched p day n"
    by (auto simp: sched_slot_def split: option.splits)
  show ?thesis
    using assms split_raw_name [OF slot_type_no_underscore [OF assms(1)], of p day n]
    by (simp add: read_raw_item_def slot put_slot_def Let_def)
qed

text \<open>The parameters a device reports: times in minutes of a day and temperatures of thirteen slots.\<close>

definition climate_param :: "string \<times> raw_value \<Rightarrow> bool" where
  "climate_param item \<longleftrightarrow>
     (\<exists>p day n. 1 \<le> n \<and> n \<le> 13 \<and>
        (fst item = raw_name p ''TEMPERATURE'' day n \<or>
         fst item = raw_name p ''ENDTIME'' day n \<and> (\<exists>m. snd item = RInt m \<and> 0 \<le> m \<and> m \<le> 1440)))"

definition climate_raw_ok :: "(string, raw_value) dict \<Rightarrow> bool" where
  "climate_raw_ok raw \<longleftrightarrow> dict_wf raw \<and> list_all climate_param raw"

fun minutes_text :: "raw_value \<Rightarrow> slot_time" where
  "minutes_text (RInt m) = TText (clock m)"
| "minutes_text (RFloat r) = TFloat r"

fun degrees :: "raw_value \<Rightarrow> real" where
  "degrees (RInt i) = real_of_int i"
| "degrees (RFloat r) = r"

definition add_fields :: "raw_value option \<Rightarrow> raw_value option \<Rightarrow> schedule_slot option \<Rightarrow> schedule_slot option" where
  "add_fields e t s0 =
     (if e = None \<and> t = None then s0
      else let sl = get_or \<lparr>sl_endtime = None, sl_temperature = None\<rparr> s0
           in Some \<lparr>sl_endtime = (case e of None \<Rightarrow> sl_endtime sl | Some v \<Rightarrow> Some (minutes_text v)),
                    sl_temperature = (case t of None \<Rightarrow> sl_temperature sl | Some v \<Rightarrow> Some (degrees v))\<rparr>)"

lemma set_slot_field_endtime:
  "0 \<le> m \<Longrightarrow> m \<le> 1440 \<Longrightarrow> set_slot_field ''endtime'' (RInt m) sl = Inr (sl\<lparr>sl_endtime := Some (TText (clock m))\<rparr>)"
  by (simp add: set_slot_field_def convert_minutes_clock)

lemma set_slot_field_temperature: "set_slot_field ''temperature'' v sl = Inr (sl\<lparr>sl_temperature := Some (degrees v)\<rparr>)"
  by (cases v) (simp_all add: set_slot_field_def)

lemma read_raw_items_lookup:
  assumes "climate_raw_ok raw" and "sched_wf sched"
  shows "\<exists>sched'. read_raw_items sched raw = Inr sched' \<and> sched_wf sched' \<and>
           (\<forall>p day n. 0 \<le> n \<longrightarrow> sched_slot sched' p day n =
              add_fields (dict_get raw (raw_name p ''ENDTIME'' day n)) (dict_get raw (raw_name p ''TEMPERATURE'' day n))
                (sched_slot sched p day n)) \<and>
           (\<forall>p day n. \<not> (1 \<le> n \<and> n \<le> 13) \<longrightarrow> sched_slot sched' p day n = sched_slot sched p day n)"
  using assms
proof (induction raw arbitrary: sched)
  case Nil
  then show ?case by (simp add: add_fields_def)
next
  case (Cons item raw)
  have types: "''ENDTIME'' \<in> slot_types" "''TEMPERATURE'' \<in> slot_types"
    by (simp_all add: slot_types_def)
  have fresh: "fst item \<notin> fst ` set raw" and ok: "climate_raw_ok raw" and param: "climate_param item"
    using Cons.prems by (auto simp: climate_raw_ok_def dict_wf_def)
  then have absent: "dict_get raw (fst item) = None"
    by (simp add: dict_get_None_iff)
  obtain p day n where n: "1 \<le> n" "n \<le> 13" and
    "fst item = raw_name p ''TEMPERATURE'' day n \<or>
     fst item = raw_name p ''ENDTIME'' day n \<and> (\<exists>m. snd item = RInt m \<and> 0 \<le> m \<and> m \<le> 1440)"
    using param by (auto simp: climate_param_def)
  then consider (temp) v where "item = (raw_name p ''TEMPERATURE'' day n, v)"
    | (time) m where "item = (raw_name p ''ENDTIME'' day n, RInt m)" "0 \<le> m" "m \<le> 1440"
    by (cases item) auto
  then show ?case
  proof cases
    case temp
    let ?sl = "(get_or \<lparr>sl_endtime = None, sl_temperature = None\<rparr> (sched_slot sched p day n))\<lparr>sl_temperature := Some (degrees v)\<rparr>"
    have step: "read_raw_item sched item = Inr (put_slot p day n ?sl sched)"
      using n by (simp add: temp read_raw_item_name types lower_slot_types set_slot_field_temperature)
    from Cons.IH [OF ok sched_wf_put [OF Cons.prems(2)], of p day n ?sl] step absent n show ?thesis
      by (auto simp: temp dict_get_Cons raw_name_inject types add_fields_def Let_def)
  next
    case time
    let ?sl = "(get_or \<lparr>sl_endtime = None, sl_temperature = None\<rparr> (sched_slot sched p day n))\<lparr>sl_endtime := Some (TText (clock m))\<rparr>"
    have step: "read_raw_item sched item = Inr (put_slot p day n ?sl sched)"
      using n time by (simp add: read_raw_item_name types lower_slot_types set_slot_field_endtime)
    from Cons.IH [OF ok sched_wf_put [OF Cons.prems(2)], of p day n ?sl] step absent n show ?thesis
      by (auto simp: time dict_get_Cons raw_name_inject types add_fields_def Let_def)
  qed
qed

subsection \<open>Writing a weekday to a device and reading it back\<close>

text \<open>
  \<open>set_weekday\<close> converts and sends; the transmitted parameters replace those of the device and leave
  the others.
\<close>

definition set_weekday ::
  "schedule_profile \<Rightarrow> weekday \<Rightarrow> climate_weekday \<Rightarrow> climate_week_profile \<Rightarrow> schedule_error + (string, raw_value) dict" where
  "set_weekday p day w wp =
     res_bind (simple_to_weekday (cwp_min_temp wp) (cwp_max_temp wp) w) (\<lambda>slots.
     res_bind (schedule_channel_address wp) (\<lambda>_. climate_to_raw [(p, [(day, slots)])]))"

lemma put_raw_names: "put_raw items raw = Inr raw' \<Longrightarrow> (name, v) \<in> set items \<Longrightarrow> SCHEDULER_PROFILE_PATTERN name"
  by (induction items arbitrary: raw) (auto simp: res_bind_Inr_iff split: if_splits)

lemma put_raw_get:
  assumes "distinct (map fst items)" and "list_all (\<lambda>(name, v). SCHEDULER_PROFILE_PATTERN name \<and> (\<exists>x. v = Inr x)) items"
    and "dict_wf raw"
  shows "\<exists>raw'. put_raw items raw = Inr raw' \<and> dict_wf raw' \<and>
           (\<forall>k. dict_get raw' k = (case map_of items k of Some (Inr x) \<Rightarrow> Some x | _ \<Rightarrow> dict_get raw k))"
  using assms
proof (induction items arbitrary: raw)
  case (Cons item items)
  then obtain name x where item: "item = (name, Inr x)" and ok: "SCHEDULER_PROFILE_PATTERN name"
    and fresh: "name \<notin> fst ` set items"
    by (cases item) auto
  have "distinct (map fst items)" "list_all (\<lambda>(name, v). SCHEDULER_PROFILE_PATTERN name \<and> (\<exists>x. v = Inr x)) items"
    "dict_wf (dict_set name x raw)"
    using Cons.prems by auto
  from Cons.IH [OF this] obtain raw' where "put_raw items (dict_set name x raw) = Inr raw'" "dict_wf raw'"
    and "\<forall>k. dict_get raw' k = (case map_of items k of Some (Inr x) \<Rightarrow> Some x | _ \<Rightarrow> dict_get (dict_set name x raw) k)"
    by blast
  moreover have "map_of items name = None"
    using fresh by (simp add: map_of_eq_None_iff)
  ultimately show ?case
    using ok by (auto simp: item split: option.splits sum.splits)
qed simp

text \<open>The parameters of the slots of one weekday.\<close>

definition weekday_items :: "schedule_profile \<Rightarrow> weekday \<Rightarrow> int \<Rightarrow> (string \<times> real) list \<Rightarrow> (string \<times> (schedule_error + raw_value)) list" where
  "weekday_items p day i sts =
     concat (map (\<lambda>(no, sl). map (\<lambda>(ty, v). (raw_name p ty day no, v)) (slot_items sl)) (slots_from i sts))"

lemma climate_items_weekday: "climate_items [(p, [(day, slots_from i sts)])] = weekday_items p day i sts"
  by (simp add: climate_items_def weekday_items_def)

lemma weekday_items_Nil [simp]: "weekday_items p day i [] = []"
  by (simp add: weekday_items_def)

lemma weekday_items_Cons:
  assumes "time_to_minutes e = Inr (minutes_of e)"
  shows "weekday_items p day i ((e, t) # sts) =
           (raw_name p ''ENDTIME'' day i, Inr (RInt (minutes_of e))) #
           (raw_name p ''TEMPERATURE'' day i, Inr (RFloat t)) # weekday_items p day (i + 1) sts"
  using time_to_minutesD(1) [OF assms]
  by (simp add: weekday_items_def slot_items_def text_slot_def raw_endtime_def)

lemma weekday_items_names:
  "timed sts \<Longrightarrow> fst ` set (weekday_items p day i sts)
     = (\<lambda>(ty, n). raw_name p ty day n) ` (slot_types \<times> {i..<i + int (length sts)})"
proof (induction sts arbitrary: i)
  case (Cons st sts)
  obtain e t where st: "st = (e, t)" by force
  have "{i..<i + int (length (st # sts))} = insert i {i + 1..<i + 1 + int (length sts)}"
    by auto
  with Cons show ?case
    by (auto simp: st weekday_items_Cons slot_types_def image_iff)
qed simp

lemma weekday_items_distinct:
  assumes "timed sts" and "0 \<le> i"
  shows "distinct (map fst (weekday_items p day i sts))"
  using assms
proof (induction sts arbitrary: i)
  case (Cons st sts)
  obtain e t where st: "st = (e, t)" by force
  have "raw_name p ty day i \<notin> fst ` set (weekday_items p day (i + 1) sts)" if "ty \<in> slot_types" for ty
    using Cons.prems that by (auto simp: st weekday_items_names raw_name_inject)
  then show ?case
    using Cons raw_name_inject [of "''ENDTIME''" "''TEMPERATURE''" i i p day p day]
    by (auto simp: st weekday_items_Cons slot_types_def)
qed simp

lemma weekday_items_get:
  assumes "timed sts" and "0 \<le> i" and "i \<le> n" and "n < i + int (length sts)"
  shows "map_of (weekday_items p day i sts) (raw_name p ''ENDTIME'' day n)
           = Some (Inr (RInt (minutes_of (fst (sts ! nat (n - i))))))"
    and "map_of (weekday_items p day i sts) (raw_name p ''TEMPERATURE'' day n)
           = Some (Inr (RFloat (snd (sts ! nat (n - i)))))"
proof -
  have "map_of (weekday_items p day i sts) (raw_name p ''ENDTIME'' day n)
           = Some (Inr (RInt (minutes_of (fst (sts ! nat (n - i)))))) \<and>
        map_of (weekday_items p day i sts) (raw_name p ''TEMPERATURE'' day n)
           = Some (Inr (RFloat (snd (sts ! nat (n - i)))))"
    using assms
  proof (induction sts arbitrary: i)
    case (Cons st sts)
    obtain e t where st: "st = (e, t)" by force
    show ?case
    proof (cases "n = i")
      case True
      with Cons.prems show ?thesis
        by (simp add: st weekday_items_Cons raw_name_inject slot_types_def)
    next
      case False
      then have "nat (n - i) = Suc (nat (n - (i + 1)))"
        using Cons.prems by simp
      with False Cons.IH [of "i + 1"] Cons.prems show ?thesis
        by (simp add: st weekday_items_Cons raw_name_inject slot_types_def)
    qed
  qed simp
  then show "map_of (weekday_items p day i sts) (raw_name p ''ENDTIME'' day n)
           = Some (Inr (RInt (minutes_of (fst (sts ! nat (n - i))))))"
    and "map_of (weekday_items p day i sts) (raw_name p ''TEMPERATURE'' day n)
           = Some (Inr (RFloat (snd (sts ! nat (n - i)))))"
    by simp_all
qed

lemma active_increasing:
  assumes "sorted_wrt (<) (c # map fst us)" and "\<forall>(e, t) \<in> set us. e \<le> 1440" and "c < 1440"
  shows "sorted_wrt (<) (c # map fst (active_slots (us @ replicate k (1440, b))))"
  using assms
proof (induction us arbitrary: c)
  case Nil
  then show ?case by (cases k) auto
next
  case (Cons v us)
  obtain e t where v: "v = (e, t)" by force
  show ?case
  proof (cases "e = 1440")
    case True
    with Cons.prems show ?thesis by (simp add: v)
  next
    case False
    then have "sorted_wrt (<) (e # map fst (active_slots (us @ replicate k (1440, b))))"
      using Cons.prems by (intro Cons.IH) (auto simp: v)
    with Cons.prems False show ?thesis by (auto simp: v)
  qed
qed

lemma weekday_to_simple_sorted: "weekday_to_simple lo hi (sorted_items d) = weekday_to_simple lo hi d"
proof -
  have "sorted_items (sorted_items d) = sorted_items d"
    by (simp add: sorted_items_def sort_key_id_if_sorted)
  moreover have "sorted_items d = [] \<longleftrightarrow> d = []"
    by (metis length_0_conv length_sort sorted_items_def)
  ultimately have "identify_base_temperature (sorted_items d) = identify_base_temperature d"
    "filter_weekday_entries (sorted_items d) = filter_weekday_entries d"
    by (simp_all add: identify_base_temperature_def filter_weekday_entries_def)
  then show ?thesis
    by (simp add: weekday_to_simple_def cong: if_cong)
qed

lemma sorted_items_unique:
  assumes "dict_wf d" and "dict_wf d'" and "sorted (map fst d')" and "\<And>n. dict_get d n = dict_get d' n"
  shows "sorted_items d = d'"
proof (rule map_sorted_distinct_set_unique [where f = fst])
  have "set d = set d'"
    using assms(1,2,4) dict_get_Some_iff by (metis subrelI subset_antisym)
  then show "set (sorted_items d) = set d'"
    by (simp add: sorted_items_def)
  then show "inj_on fst (set (sorted_items d) \<union> set d')"
    using assms(2) by (simp add: dict_wf_def distinct_map)
  show "distinct (map fst (sorted_items d))"
    using assms(1) by (simp add: dict_wf_def sorted_items_def distinct_map)
qed (use assms in \<open>simp_all add: sorted_items_def dict_wf_def\<close>)

lemma dict_wf_slots_from: "dict_wf (slots_from i sts)"
proof -
  have "map fst (slots_from i sts) = [i..i + int (length sts) - 1]"
    by (simp add: slots_from_def)
  then show ?thesis by (simp add: dict_wf_def)
qed

lemma slots_from_get:
  "i \<le> n \<Longrightarrow> n < i + int (length sts) \<Longrightarrow>
     dict_get (slots_from i sts) n = Some (text_slot (fst (sts ! nat (n - i))) (snd (sts ! nat (n - i))))"
proof (induction sts arbitrary: i)
  case (Cons st sts)
  show ?case
  proof (cases "n = i")
    case False
    then have "nat (n - i) = Suc (nat (n - (i + 1)))"
      using Cons.prems by simp
    with False Cons show ?thesis by (simp add: dict_get_Cons)
  qed (simp add: dict_get_Cons)
qed simp

lemma slots_from_get_None: "\<not> (i \<le> n \<and> n < i + int (length sts)) \<Longrightarrow> dict_get (slots_from i sts) n = None"
  by (simp add: dict_get_None_iff fst_slots_from)

definition all_slots :: "climate_weekday \<Rightarrow> (string \<times> real) list" where
  "all_slots w = slots_needed w @ replicate (13 - length (slots_needed w)) (''24:00'', cw_base_temperature w)"

lemma all_slots_timed:
  assumes "validate_weekday w = Inr w'"
  shows "timed (all_slots w)" and "list_all (\<lambda>(e, t). 0 < minutes_of e \<and> minutes_of e \<le> 1440) (all_slots w)"
proof -
  have "time_to_minutes e = Inr (minutes_of e) \<and> 0 < minutes_of e \<and> minutes_of e \<le> 1440" if "(e, t) \<in> set (slots_needed w)" for e t
    using needed_slots_ok [OF valid_weekday_chain [OF assms]] that time_to_minutesD(3)
    by (fastforce simp: slots_needed_def)
  then show "timed (all_slots w)" "list_all (\<lambda>(e, t). 0 < minutes_of e \<and> minutes_of e \<le> 1440) (all_slots w)"
    by (auto simp: all_slots_def timed_def list_all_iff)
qed

lemma put_weekday:
  assumes "timed sts" and "length sts \<le> 13"
  shows "\<exists>vals. put_raw (weekday_items p day 1 sts) [] = Inr vals \<and> dict_wf vals \<and>
           (\<forall>k. dict_get vals k = (case map_of (weekday_items p day 1 sts) k of Some (Inr x) \<Rightarrow> Some x | _ \<Rightarrow> None))"
proof -
  have items: "list_all (\<lambda>(name, v). SCHEDULER_PROFILE_PATTERN name \<and> (\<exists>x. v = Inr x)) (weekday_items p day i sts)"
    if "timed sts" "1 \<le> i" "i + int (length sts) \<le> 14" for i sts
    using that
  proof (induction sts arbitrary: i)
    case (Cons st sts)
    then show ?case
      by (cases st) (auto simp: weekday_items_Cons scheduler_profile_raw_name slot_types_def)
  qed simp
  show ?thesis
    using put_raw_get [OF weekday_items_distinct [OF assms(1), of 1] items [OF assms(1)] dict_wf_Nil] assms(2)
    unfolding dict_get_Nil by simp
qed

lemma set_weekday_succeeds:
  assumes "validate_weekday w = Inr w'" and "temps_within lo hi w" and "length (slots_needed w) \<le> 13"
    and wp: "cwp_min_temp wp = Some lo" "cwp_max_temp wp = Some hi" "cwp_schedule_channel_address wp = Some sca"
  shows "\<exists>vals. set_weekday p day w wp = Inr vals"
proof -
  have "simple_to_weekday (Some lo) (Some hi) w = Inr (slots_from 1 (all_slots w))"
    using assms by (simp add: simple_to_weekday_eq all_slots_def)
  then show ?thesis
    using put_weekday [OF all_slots_timed(1) [OF assms(1)], of p day] assms(3)
    by (auto simp: set_weekday_def schedule_channel_address_def wp climate_to_raw_def climate_items_weekday all_slots_def)
qed

text \<open>What is sent succeeds with at most thirteen slots and contains exactly their parameters.\<close>

lemma set_weekday_Inr:
  assumes "set_weekday p day w wp = Inr vals" and [simp]: "cwp_min_temp wp = Some lo" "cwp_max_temp wp = Some hi"
  shows "\<exists>w'. validate_weekday w = Inr w'" and "temps_within lo hi w" and "length (slots_needed w) \<le> 13"
    and "dict_wf vals" and "list_all climate_param vals"
    and "\<And>n. 1 \<le> n \<Longrightarrow> n \<le> 13 \<Longrightarrow>
          dict_get vals (raw_name p ''ENDTIME'' day n) = Some (RInt (minutes_of (fst (all_slots w ! nat (n - 1))))) \<and>
          dict_get vals (raw_name p ''TEMPERATURE'' day n) = Some (RFloat (snd (all_slots w ! nat (n - 1))))"
proof -
  obtain slots where slots: "simple_to_weekday (Some lo) (Some hi) w = Inr slots"
    and sent: "climate_to_raw [(p, [(day, slots)])] = Inr vals"
    using assms(1) by (auto simp: set_weekday_def res_bind_Inr_iff)
  then show valid: "\<exists>w'. validate_weekday w = Inr w'" and "temps_within lo hi w"
    by (auto simp: simple_to_weekday_eq)
  then obtain w' where w': "validate_weekday w = Inr w'" by blast
  note timed = all_slots_timed [OF w']
  have put: "put_raw (weekday_items p day 1 (all_slots w)) [] = Inr vals"
    using slots sent by (simp add: simple_to_weekday_eq climate_to_raw_def climate_items_weekday all_slots_def)
  have "SCHEDULER_PROFILE_PATTERN name" if "name \<in> fst ` set (weekday_items p day 1 (all_slots w))" for name
    using put_raw_names [OF put] that by force
  then have names: "SCHEDULER_PROFILE_PATTERN (raw_name p ''ENDTIME'' day n)" if "1 \<le> n" "n < 1 + int (length (all_slots w))" for n
    using that weekday_items_names [OF timed(1), of p day 1] by (force simp: slot_types_def)
  have len: "length (all_slots w) = max 13 (length (slots_needed w))"
    by (simp add: all_slots_def)
  show short: "length (slots_needed w) \<le> 13"
    using names [of 14] scheduler_profile_raw_name [of "''ENDTIME''" 14 p day] len
    by (cases "length (slots_needed w) \<le> 13") (simp_all add: slot_types_def)
  have len13: "length (all_slots w) = 13" using len short by simp
  obtain vals' where "put_raw (weekday_items p day 1 (all_slots w)) [] = Inr vals'" "dict_wf vals'"
    and get: "\<forall>k. dict_get vals' k = (case map_of (weekday_items p day 1 (all_slots w)) k of Some (Inr x) \<Rightarrow> Some x | _ \<Rightarrow> None)"
    using put_weekday [OF timed(1), of p day] len13 by auto
  with put have vals': "vals' = vals" by simp
  with \<open>dict_wf vals'\<close> show wf: "dict_wf vals" by simp
  show lookup: "dict_get vals (raw_name p ''ENDTIME'' day n) = Some (RInt (minutes_of (fst (all_slots w ! nat (n - 1))))) \<and>
          dict_get vals (raw_name p ''TEMPERATURE'' day n) = Some (RFloat (snd (all_slots w ! nat (n - 1))))"
    if "1 \<le> n" "n \<le> 13" for n
    using get weekday_items_get [OF timed(1), of 1 n p day] that len13 by (simp add: vals')
  have "climate_param (k, v)" if "(k, v) \<in> set vals" for k v
  proof -
    have v: "dict_get vals k = Some v"
      using dict_get_Some_iff [OF wf] that by simp
    then have "map_of (weekday_items p day 1 (all_slots w)) k \<noteq> None"
      using get by (auto simp: vals' split: option.splits)
    then have "k \<in> fst ` set (weekday_items p day 1 (all_slots w))"
      by (simp add: map_of_eq_None_iff)
    then obtain ty n where k: "k = raw_name p ty day n" "ty \<in> slot_types" "1 \<le> n" "n \<le> 13"
      using len13 by (auto simp: weekday_items_names [OF timed(1)])
    moreover have "0 < minutes_of (fst (all_slots w ! nat (n - 1))) \<and> minutes_of (fst (all_slots w ! nat (n - 1))) \<le> 1440"
      using timed(2) k(3,4) len13 by (auto simp: list_all_length split_beta)
    ultimately show ?thesis
      using lookup [OF k(3,4)] v by (fastforce simp: climate_param_def slot_types_def)
  qed
  then show "list_all climate_param vals" by (auto simp: list_all_iff)
qed

text \<open>
  C7: A weekday written to a thermostat reads back as the same temperatures. After \<open>set_weekday\<close> has
  sent a schedule to a device, whatever other parameters the device holds, reading the device's
  parameters finds that weekday and converts it to a schedule that has the written temperature at
  every minute of the day, although base temperature and periods may have changed places. The case
  of thirteen used slots that end before midnight is excluded.
\<close>

theorem climate_roundtrip:
  assumes sent: "set_weekday p day w wp = Inr vals" and bounds: "cwp_min_temp wp = Some lo" "cwp_max_temp wp = Some hi"
    and device: "climate_raw_ok device"
    and closed: "length (slots_needed w) < 13 \<or> schedule_end w = 1440"
  shows "\<exists>sched days slots w'.
           raw_to_climate (put_paramset_values vals device) = Inr sched \<and>
           dict_get sched p = Some days \<and> dict_get days day = Some slots \<and>
           weekday_to_simple (Some lo) (Some hi) slots = Inr w' \<and>
           (\<forall>m. 0 \<le> m \<and> m < 1440 \<longrightarrow> simple_temp w' m = simple_temp w m)"
proof -
  let ?raw = "put_paramset_values vals device"
  note W = set_weekday_Inr [OF sent bounds]
  obtain w0 where w0: "validate_weekday w = Inr w0" using W(1) by blast
  note timed = all_slots_timed [OF w0]
  let ?vs = "map view_of (all_slots w)"
  have len: "length (all_slots w) = 13" using W(3) by (simp add: all_slots_def)
  have "climate_raw_ok ?raw"
    using device W(4,5) put_values_wf put_values_set [of vals device] by (auto simp: climate_raw_ok_def list_all_iff)
  then obtain sched where sched: "raw_to_climate ?raw = Inr sched" "sched_wf sched"
    and slot: "\<forall>p day n. 0 \<le> n \<longrightarrow> sched_slot sched p day n =
        add_fields (dict_get ?raw (raw_name p ''ENDTIME'' day n)) (dict_get ?raw (raw_name p ''TEMPERATURE'' day n)) None"
    and beyond: "\<forall>p day n. \<not> (1 \<le> n \<and> n \<le> 13) \<longrightarrow> sched_slot sched p day n = None"
    using read_raw_items_lookup [of ?raw "[]"] by (auto simp: raw_to_climate_def sched_wf_def sched_slot_def)
  have inside: "sched_slot sched p day n = dict_get (slots_from 1 (clocked ?vs)) n" if "1 \<le> n" "n \<le> 13" for n
    using slot W(6) [OF that] that len
    by (simp add: put_values_get [OF W(4)] add_fields_def slots_from_get text_slot_def clocked_def view_of_def split_beta)
  have "sched_slot sched p day 1 \<noteq> None"
    using inside [of 1] len by (simp add: slots_from_get)
  then obtain days slots where at: "dict_get sched p = Some days" "dict_get days day = Some slots"
    by (auto simp: sched_slot_def split: option.splits)
  have outside: "dict_get slots n = None" if "\<not> (1 \<le> n \<and> n \<le> 13)" for n
  proof -
    have "sched_slot sched p day n = None"
      using beyond that by blast
    with at show ?thesis by (simp add: sched_slot_def)
  qed
  have "sorted_items slots = slots_from 1 (clocked ?vs)"
  proof (rule sorted_items_unique)
    show "dict_wf slots" using sched(2) at by (auto simp: sched_wf_def)
    show "dict_get slots n = dict_get (slots_from 1 (clocked ?vs)) n" for n
      using inside [of n] outside [of n] at len slots_from_get_None [of 1 n "clocked ?vs"]
      by (cases "1 \<le> n \<and> n \<le> 13") (auto simp: sched_slot_def)
  qed (simp_all add: dict_wf_slots_from sorted_slots_from)
  then have read: "weekday_to_simple (Some lo) (Some hi) slots = weekday_to_simple (Some lo) (Some hi) (slots_from 1 (clocked ?vs))"
    using weekday_to_simple_sorted by metis
  have temps: "lo \<le> t \<and> t \<le> hi" if "(e, t) \<in> set (all_slots w)" for e t
    using W(2) that needed_slots_ok [OF valid_weekday_chain [OF w0]]
    by (fastforce simp: all_slots_def slots_needed_def temps_within_def list_all_iff sorted_periods_def)
  have needed: "sorted_wrt (<) (0 # map fst (map view_of (slots_needed w)))"
    using needed_slots_increasing [OF valid_weekday_chain [OF w0]] needed_slots_ok [OF valid_weekday_chain [OF w0]]
    by (fastforce simp: slots_needed_def view_of_def comp_def)
  moreover have "\<forall>(e, t) \<in> set (map view_of (slots_needed w)). e \<le> 1440"
    using timed(2) by (auto simp: all_slots_def view_of_def list_all_iff)
  ultimately have "sorted_wrt (<) (0 # map fst (active_slots (map view_of (slots_needed w) @
      replicate (13 - length (slots_needed w)) (1440, cw_base_temperature w))))"
    by (rule active_increasing) simp
  then have incr: "sorted_wrt (<) (0 # map fst (active_slots ?vs))"
    by (simp add: all_slots_def view_of_def)
  have range: "\<forall>(e, t) \<in> set ?vs. 0 \<le> e \<and> e \<le> 1440 \<and> lo \<le> t \<and> t \<le> hi"
    using timed(2) temps by (fastforce simp: view_of_def list_all_iff)
  have written: "prog_temp ?vs m = Some (simple_temp w m)" if "0 \<le> m" "m < 1440" for m
    using written_slot_temp [OF w0 that refl] closed that map_filter_text_slots [OF timed(1)]
    by (auto simp: slot_temp_def map_snd_slots_from all_slots_def)
  obtain w' where "weekday_to_simple (Some lo) (Some hi) (slots_from 1 (clocked ?vs)) = Inr w'"
    and "\<forall>m. 0 \<le> m \<and> m < 1440 \<longrightarrow> simple_temp w' m = simple_temp w m"
    using weekday_to_simple_clocked [OF _ range incr] len written by fastforce
  with sched(1) at read show ?thesis by auto
qed

lemma minutes_of_midnight [simp]: "minutes_of ''00:00'' = 0"
  using minutes_of_clock [of 0] by simp

lemma validate_periods_of:
  assumes "triple_chain 0 R c" and "c \<le> 1440"
  shows "validate_weekday \<lparr>cw_base_temperature = b, cw_periods = map period_of R\<rparr>
           = Inr \<lparr>cw_base_temperature = b, cw_periods = map period_of R\<rparr>"
proof -
  have "make_period (cp_starttime (period_of q)) (cp_endtime (period_of q)) (cp_temperature (period_of q)) = Inr (period_of q)"
    if "q \<in> set R" for q
  proof -
    obtain s e t where q: "q = (s, e, t)" by (cases q)
    have "\<forall>(s, e, t) \<in> set R. 0 \<le> s \<and> s < e \<and> e \<le> c"
      using triple_chain_le [OF assms(1)] by blast
    from bspec [OF this that] have "0 \<le> s" "s < e" "e \<le> 1440"
      using assms(2) by (auto simp: q)
    then show ?thesis
      by (simp add: q make_period_clock)
  qed
  then have "map (\<lambda>p. make_period (cp_starttime p) (cp_endtime p) (cp_temperature p)) (map period_of R) = map Inr (map period_of R)"
    by simp
  then have "res_list (map (\<lambda>p. make_period (cp_starttime p) (cp_endtime p) (cp_temperature p)) (map period_of R)) = Inr (map period_of R)"
    by (simp only: res_list_Inr)
  moreover have "sorted (map (\<lambda>p. minutes_of (cp_starttime p)) (map period_of R)) \<and> check_overlaps (map period_of R)"
    using triple_periods(1) [OF assms(1) order_refl assms(2)] period_chain_sorted by blast
  ultimately show ?thesis
    by (simp add: validate_weekday_def make_weekday_def validate_non_overlapping_periods_def sort_key_id_if_sorted)
qed

lemma periods_of_plan:
  assumes "triple_chain 0 R c" and "c \<le> 1440"
  shows "slots_needed \<lparr>cw_base_temperature = b, cw_periods = map period_of R\<rparr> = needed_slots b 0 (map period_of R)"
    and "schedule_end \<lparr>cw_base_temperature = b, cw_periods = map period_of R\<rparr> =
           (if R = [] then 0 else minutes_of (cp_endtime (period_of (last R))))"
proof -
  have "sorted (map (\<lambda>p. minutes_of (cp_starttime p)) (map period_of R))"
    using triple_periods(1) [OF assms(1) order_refl assms(2)] period_chain_sorted by blast
  then have "sorted_periods \<lparr>cw_base_temperature = b, cw_periods = map period_of R\<rparr> = map period_of R"
    by (simp add: sorted_periods_def sort_key_id_if_sorted)
  then show "slots_needed \<lparr>cw_base_temperature = b, cw_periods = map period_of R\<rparr> = needed_slots b 0 (map period_of R)"
    and "schedule_end \<lparr>cw_base_temperature = b, cw_periods = map period_of R\<rparr> =
           (if R = [] then 0 else minutes_of (cp_endtime (period_of (last R))))"
    by (auto simp: slots_needed_def schedule_end_def last_map split: list.splits)
qed

text \<open>
  C37: The slots a thermostat is programmed with mean the schedule. At every minute the slots give the
  temperature of the period around it, or else the base temperature, from midnight to midnight. Only
  when the periods and the gaps between them use up all thirteen slots is there none left for the
  time after the last period: no slot covers it and the base temperature is not programmed.
\<close>

theorem climate_program:
  assumes "simple_to_weekday (Some lo) (Some hi) w = Inr d" and "0 \<le> m" and "m < 1440"
  shows "slot_temp d m = (if m < schedule_end w \<or> length (slots_needed w) < 13 then Some (simple_temp w m) else None)"
  using assms written_slot_temp [of w] by (auto simp: simple_to_weekday_eq)

theorem climate_program_witness:
  "\<exists>d. simple_to_weekday (Some 5) (Some 30)
      \<lparr>cw_base_temperature = 18, cw_periods = map period_of [(120 * k, 120 * k + 60, 21). k \<leftarrow> [0, 1, 2, 3, 4, 5, 6]]\<rparr> = Inr d \<and>
    slot_temp d 1000 = None"
proof -
  define R :: "triple list" where "R = [(120 * k, 120 * k + 60, 21). k \<leftarrow> [0, 1, 2, 3, 4, 5, 6]]"
  define w where "w = \<lparr>cw_base_temperature = (18::real), cw_periods = map period_of R\<rparr>"
  have chain: "triple_chain 0 R 780" by (simp add: R_def)
  have "temps_within 5 30 w" by (simp add: temps_within_def w_def R_def)
  moreover have "\<exists>w'. validate_weekday w = Inr w'"
    using validate_periods_of [OF chain, of 18] by (simp add: w_def)
  ultimately obtain d where d: "simple_to_weekday (Some 5) (Some 30) w = Inr d"
    by (auto simp: simple_to_weekday_eq)
  have "length (slots_needed w) = 13" and "schedule_end w = 780"
    using periods_of_plan [OF chain, of 18] by (simp_all add: w_def R_def)
  with climate_program [OF d, of 1000] d show ?thesis
    by (auto simp: w_def R_def)
qed

definition long_day :: climate_weekday where
  "long_day = \<lparr>cw_base_temperature = 18, cw_periods = map period_of [(0, 1000, 21)]\<rparr>"

definition sample_week :: climate_week_profile where
  "sample_week =
     \<lparr>cwp_schedule_cache = [], cwp_schedule_channel_address = Some ''000A:1'', cwp_min_temp = Some 5, cwp_max_temp = Some 30\<rparr>"

theorem climate_roundtrip_witness:
  "\<exists>vals. set_weekday P1 MONDAY long_day sample_week = Inr vals \<and>
     (\<exists>sched days slots w'.
           raw_to_climate (put_paramset_values vals []) = Inr sched \<and>
           dict_get sched P1 = Some days \<and> dict_get days MONDAY = Some slots \<and>
           weekday_to_simple (Some 5) (Some 30) slots = Inr w' \<and>
           (\<forall>m. 0 \<le> m \<and> m < 1440 \<longrightarrow> simple_temp w' m = simple_temp long_day m))"
proof -
  have chain: "triple_chain 0 [(0, 1000, 21)] 1000" by simp
  have len: "length (slots_needed long_day) = 1"
    using periods_of_plan(1) [OF chain, of 18] by (simp add: long_day_def)
  moreover have "temps_within 5 30 long_day" by (simp add: temps_within_def long_day_def)
  moreover have "validate_weekday long_day = Inr long_day"
    using validate_periods_of [OF chain, of 18] by (simp add: long_day_def)
  ultimately obtain vals where vals: "set_weekday P1 MONDAY long_day sample_week = Inr vals"
    using set_weekday_succeeds [of long_day long_day 5 30 sample_week "''000A:1''" P1 MONDAY] by (auto simp: sample_week_def)
  with climate_roundtrip [OF vals, of 5 30 "[]"] len show ?thesis
    by (auto simp: climate_raw_ok_def sample_week_def)
qed

text \<open>
  A slot of no length keeps the whole schedule from loading. When the device reports a weekday
  whose first slot ends at midnight with another temperature than the rest of the day, reading it
  raises the \<open>ValueError\<close> of the period model, not a \<open>ValidationException\<close>: \<open>reload_and_cache_schedule\<close>
  does not catch it, and none of the device's profiles is cached.
\<close>

theorem climate_empty_slot_uncaught:
  assumes "t \<noteq> b" and "cwp_min_temp wp = Some lo" and "cwp_max_temp wp = Some hi" and "lo \<le> b" and "b \<le> hi"
    and "cwp_schedule_channel_address wp \<noteq> None"
  shows "reload_and_cache_schedule
           (Paramset [(raw_name p ''ENDTIME'' day 1, RInt 0), (raw_name p ''TEMPERATURE'' day 1, RFloat t),
                      (raw_name p ''ENDTIME'' day 2, RInt 1440), (raw_name p ''TEMPERATURE'' day 2, RFloat b)]) wp
         = Inl (ValueErr ''exception.model.week_profile.validate.start_before_end'')"
proof -
  let ?raw = "[(raw_name p ''ENDTIME'' day 1, RInt 0), (raw_name p ''TEMPERATURE'' day 1, RFloat t),
               (raw_name p ''ENDTIME'' day 2, RInt 1440), (raw_name p ''TEMPERATURE'' day 2, RFloat b)]"
  have types: "''ENDTIME'' \<in> slot_types" "''TEMPERATURE'' \<in> slot_types"
    by (simp_all add: slot_types_def)
  have kept: "filter (\<lambda>(k, v). SCHEDULER_PROFILE_PATTERN k) ?raw = ?raw"
    by (simp add: scheduler_profile_raw_name types)
  have sched: "raw_to_climate ?raw = Inr [(p, [(day, slots_from 1 (clocked [(0, t), (1440, b)]))])]"
    by (simp add: raw_to_climate_def read_raw_item_name types lower_slot_types set_slot_field_temperature
        set_slot_field_def convert_minutes_clock put_slot_def sched_slot_def Let_def dict_set_def dict_get_Cons
        text_slot_def clocked_def)
  have base: "identify_base_temperature (slots_from 1 (clocked [(0, t), (1440, b)])) = Inr b"
    using assms(1)
    by (simp add: identify_base_temperature_def sorted_items_def clocked_def dict_set_def dict_get_Cons
        endtime_clock [of 0, simplified] endtime_clock [of 1440, simplified])
  have "normalize_weekday_data (filter_weekday_entries (slots_from 1 (clocked [(0, t), (1440, b)])))
      = Inr (slots_from 1 (clocked ([(0, t), (1440, b)] @ replicate 11 (1440, b))))"
    using filter_clocked [of "[(0, t), (1440, b)]"] normalize_clocked [of "[(0, t), (1440, b)]"] by simp
  moreover have "make_period ''00:00'' ''00:00'' t = Inl (ValueErr ''exception.model.week_profile.validate.start_before_end'')"
    using time_to_minutes_clock [of 0]
    by (auto simp: make_period_def validate_time_format_def validate_time_range_def time_to_minutes_def
        split: if_splits option.splits)
  then have "merge_slot b \<lparr>ms_periods = [], ms_previous_end = CLIMATE_MIN_SCHEDULER_TIME, ms_open_range = None, ms_last_temp = None\<rparr>
      (text_slot ''00:00'' t) = Inl (ValueErr ''exception.model.week_profile.validate.start_before_end'')"
    using assms(1) convert_time_str_clock [of 0] convert_minutes_clock [of 0] endtime_clock [of 0]
    by (simp add: merge_slot_def CLIMATE_MIN_SCHEDULER_TIME_def)
  ultimately have "weekday_to_simple (Some lo) (Some hi) (slots_from 1 (clocked [(0, t), (1440, b)]))
      = Inl (ValueErr ''exception.model.week_profile.validate.start_before_end'')"
    using assms(4,5) base
    by (simp add: weekday_to_simple_def require_temp_bounds_def map_snd_slots_from) (simp add: clocked_def)
  moreover define raw where "raw = ?raw"
  ultimately have "reload_and_cache_schedule (Paramset raw) wp
      = Inl (ValueErr ''exception.model.week_profile.validate.start_before_end'')"
    using assms(2,3,6) sched kept unfolding raw_def [symmetric]
    by (auto simp: reload_and_cache_schedule_def get_schedule_profile_def get_raw_schedule_def schedule_channel_address_def
        convert_raw_to_pydantic_def schedule_to_simple_def profile_to_simple_def)
  then show ?thesis by (simp add: raw_def)
qed

theorem climate_empty_slot_uncaught_witness:
  "(21::real) \<noteq> 18 \<and>
   reload_and_cache_schedule
     (Paramset [(raw_name P1 ''ENDTIME'' MONDAY 1, RInt 0), (raw_name P1 ''TEMPERATURE'' MONDAY 1, RFloat 21),
                (raw_name P1 ''ENDTIME'' MONDAY 2, RInt 1440), (raw_name P1 ''TEMPERATURE'' MONDAY 2, RFloat 18)]) sample_week
   = Inl (ValueErr ''exception.model.week_profile.validate.start_before_end'')"
  using climate_empty_slot_uncaught [of 21 18 sample_week 5 30 P1 MONDAY] by (simp add: sample_week_def)

end
