(* ===== verification/Simple_Schedule.thy ===== *)
theory Simple_Schedule
  imports Schedule_Const
begin

section \<open>Schedule entries of switches, lights, covers, valves and locks\<close>

text \<open>
  \<open>model/schedule_models.py\<close> for devices other than thermostats: the entry model with its validators,
  the rules of each device domain, and the conversions between an entry and a raw schedule group.

  The literal types of the model class are enumerations here; target channels are texts, as in the
  code. In a raw group a member of an integer enumeration is an integer, as \<open>isinstance\<close> sees it.
\<close>

unbundle bit_operations_syntax

subsection \<open>Enumerations\<close>

datatype astro_type = SUNRISE | SUNSET

fun astro_value :: "astro_type \<Rightarrow> int" where
  "astro_value SUNRISE = 0"
| "astro_value SUNSET = 1"

definition astro_of :: "int \<Rightarrow> astro_type option" where
  "astro_of n = find (\<lambda>a. astro_value a = n) [SUNRISE, SUNSET]"

datatype schedule_condition =
    FIXED_TIME | ASTRO | FIXED_IF_BEFORE_ASTRO | ASTRO_IF_BEFORE_FIXED | FIXED_IF_AFTER_ASTRO
  | ASTRO_IF_AFTER_FIXED | EARLIEST_OF_FIXED_AND_ASTRO | LATEST_OF_FIXED_AND_ASTRO

fun condition_value :: "schedule_condition \<Rightarrow> int" where
  "condition_value FIXED_TIME = 0"
| "condition_value ASTRO = 1"
| "condition_value FIXED_IF_BEFORE_ASTRO = 2"
| "condition_value ASTRO_IF_BEFORE_FIXED = 3"
| "condition_value FIXED_IF_AFTER_ASTRO = 4"
| "condition_value ASTRO_IF_AFTER_FIXED = 5"
| "condition_value EARLIEST_OF_FIXED_AND_ASTRO = 6"
| "condition_value LATEST_OF_FIXED_AND_ASTRO = 7"

definition condition_of :: "int \<Rightarrow> schedule_condition option" where
  "condition_of n = find (\<lambda>c. condition_value c = n)
     [FIXED_TIME, ASTRO, FIXED_IF_BEFORE_ASTRO, ASTRO_IF_BEFORE_FIXED, FIXED_IF_AFTER_ASTRO,
      ASTRO_IF_AFTER_FIXED, EARLIEST_OF_FIXED_AND_ASTRO, LATEST_OF_FIXED_AND_ASTRO]"

datatype schedule_field =
    ASTRO_OFFSET | ASTRO_TYPE | CONDITION | DURATION_BASE | DURATION_FACTOR | FIXED_HOUR | FIXED_MINUTE
  | LEVEL | LEVEL_2 | RAMP_TIME_BASE | RAMP_TIME_FACTOR | TARGET_CHANNELS | WEEKDAY

fun field_name :: "schedule_field \<Rightarrow> string" where
  "field_name ASTRO_OFFSET = ''ASTRO_OFFSET''"
| "field_name ASTRO_TYPE = ''ASTRO_TYPE''"
| "field_name CONDITION = ''CONDITION''"
| "field_name DURATION_BASE = ''DURATION_BASE''"
| "field_name DURATION_FACTOR = ''DURATION_FACTOR''"
| "field_name FIXED_HOUR = ''FIXED_HOUR''"
| "field_name FIXED_MINUTE = ''FIXED_MINUTE''"
| "field_name LEVEL = ''LEVEL''"
| "field_name LEVEL_2 = ''LEVEL_2''"
| "field_name RAMP_TIME_BASE = ''RAMP_TIME_BASE''"
| "field_name RAMP_TIME_FACTOR = ''RAMP_TIME_FACTOR''"
| "field_name TARGET_CHANNELS = ''TARGET_CHANNELS''"
| "field_name WEEKDAY = ''WEEKDAY''"

definition all_fields :: "schedule_field list" where
  "all_fields = [ASTRO_OFFSET, ASTRO_TYPE, CONDITION, DURATION_BASE, DURATION_FACTOR, FIXED_HOUR, FIXED_MINUTE,
     LEVEL, LEVEL_2, RAMP_TIME_BASE, RAMP_TIME_FACTOR, TARGET_CHANNELS, WEEKDAY]"

definition field_of_name :: "string \<Rightarrow> schedule_field option" where
  "field_of_name s = find (\<lambda>f. field_name f = s) all_fields"

text \<open>The actor channels, whose values are single bits.\<close>

datatype actor_channel =
    CHANNEL_1_1 | CHANNEL_1_2 | CHANNEL_1_3
  | CHANNEL_2_1 | CHANNEL_2_2 | CHANNEL_2_3
  | CHANNEL_3_1 | CHANNEL_3_2 | CHANNEL_3_3
  | CHANNEL_4_1 | CHANNEL_4_2 | CHANNEL_4_3
  | CHANNEL_5_1 | CHANNEL_5_2 | CHANNEL_5_3
  | CHANNEL_6_1 | CHANNEL_6_2 | CHANNEL_6_3
  | CHANNEL_7_1 | CHANNEL_7_2 | CHANNEL_7_3
  | CHANNEL_8_1 | CHANNEL_8_2 | CHANNEL_8_3

fun channel_value :: "actor_channel \<Rightarrow> int" where
  "channel_value CHANNEL_1_1 = 1"
| "channel_value CHANNEL_1_2 = 2"
| "channel_value CHANNEL_1_3 = 4"
| "channel_value CHANNEL_2_1 = 8"
| "channel_value CHANNEL_2_2 = 16"
| "channel_value CHANNEL_2_3 = 32"
| "channel_value CHANNEL_3_1 = 64"
| "channel_value CHANNEL_3_2 = 128"
| "channel_value CHANNEL_3_3 = 256"
| "channel_value CHANNEL_4_1 = 512"
| "channel_value CHANNEL_4_2 = 1024"
| "channel_value CHANNEL_4_3 = 2048"
| "channel_value CHANNEL_5_1 = 4096"
| "channel_value CHANNEL_5_2 = 8192"
| "channel_value CHANNEL_5_3 = 16384"
| "channel_value CHANNEL_6_1 = 32768"
| "channel_value CHANNEL_6_2 = 65536"
| "channel_value CHANNEL_6_3 = 131072"
| "channel_value CHANNEL_7_1 = 262144"
| "channel_value CHANNEL_7_2 = 524288"
| "channel_value CHANNEL_7_3 = 1048576"
| "channel_value CHANNEL_8_1 = 2097152"
| "channel_value CHANNEL_8_2 = 4194304"
| "channel_value CHANNEL_8_3 = 8388608"

fun channel_text :: "actor_channel \<Rightarrow> string" where
  "channel_text CHANNEL_1_1 = ''1_1''"
| "channel_text CHANNEL_1_2 = ''1_2''"
| "channel_text CHANNEL_1_3 = ''1_3''"
| "channel_text CHANNEL_2_1 = ''2_1''"
| "channel_text CHANNEL_2_2 = ''2_2''"
| "channel_text CHANNEL_2_3 = ''2_3''"
| "channel_text CHANNEL_3_1 = ''3_1''"
| "channel_text CHANNEL_3_2 = ''3_2''"
| "channel_text CHANNEL_3_3 = ''3_3''"
| "channel_text CHANNEL_4_1 = ''4_1''"
| "channel_text CHANNEL_4_2 = ''4_2''"
| "channel_text CHANNEL_4_3 = ''4_3''"
| "channel_text CHANNEL_5_1 = ''5_1''"
| "channel_text CHANNEL_5_2 = ''5_2''"
| "channel_text CHANNEL_5_3 = ''5_3''"
| "channel_text CHANNEL_6_1 = ''6_1''"
| "channel_text CHANNEL_6_2 = ''6_2''"
| "channel_text CHANNEL_6_3 = ''6_3''"
| "channel_text CHANNEL_7_1 = ''7_1''"
| "channel_text CHANNEL_7_2 = ''7_2''"
| "channel_text CHANNEL_7_3 = ''7_3''"
| "channel_text CHANNEL_8_1 = ''8_1''"
| "channel_text CHANNEL_8_2 = ''8_2''"
| "channel_text CHANNEL_8_3 = ''8_3''"

definition all_channels :: "actor_channel list" where
  "all_channels = [CHANNEL_1_1, CHANNEL_1_2, CHANNEL_1_3,
     CHANNEL_2_1, CHANNEL_2_2, CHANNEL_2_3,
     CHANNEL_3_1, CHANNEL_3_2, CHANNEL_3_3,
     CHANNEL_4_1, CHANNEL_4_2, CHANNEL_4_3,
     CHANNEL_5_1, CHANNEL_5_2, CHANNEL_5_3,
     CHANNEL_6_1, CHANNEL_6_2, CHANNEL_6_3,
     CHANNEL_7_1, CHANNEL_7_2, CHANNEL_7_3,
     CHANNEL_8_1, CHANNEL_8_2, CHANNEL_8_3]"

definition channel_of_text :: "string \<Rightarrow> actor_channel option" where
  "channel_of_text s = find (\<lambda>c. channel_text c = s) all_channels"

datatype lock_mode = DOOR_LOCK | USER_PERMISSION
datatype lock_action = LOCK_AUTORELOCK_END | LOCK_AUTORELOCK_START | UNLOCK_AUTORELOCK_END | AUTORELOCK_END
datatype lock_permission = GRANTED | NOT_GRANTED

datatype category = CAT_SWITCH | CAT_LIGHT | CAT_COVER | CAT_VALVE | CAT_LOCK | CAT_CLIMATE | CAT_OTHER string

definition SCHEDULE_DOMAINS :: "category set" where
  "SCHEDULE_DOMAINS = {CAT_SWITCH, CAT_LIGHT, CAT_COVER, CAT_VALVE, CAT_LOCK}"

subsection \<open>Lock encodings\<close>

fun LOCK_ACTION_TO_RAW :: "lock_action \<Rightarrow> real \<times> int \<times> int" where
  "LOCK_ACTION_TO_RAW LOCK_AUTORELOCK_END = (0, 7, 31)"
| "LOCK_ACTION_TO_RAW LOCK_AUTORELOCK_START = (0, 0, 0)"
| "LOCK_ACTION_TO_RAW UNLOCK_AUTORELOCK_END = (1, 7, 31)"
| "LOCK_ACTION_TO_RAW AUTORELOCK_END = (101 / 100, 7, 31)"

fun LOCK_PERMISSION_TO_LEVEL :: "lock_permission \<Rightarrow> real" where
  "LOCK_PERMISSION_TO_LEVEL GRANTED = 1"
| "LOCK_PERMISSION_TO_LEVEL NOT_GRANTED = 0"

definition detect_lock_action :: "real \<Rightarrow> int \<Rightarrow> int \<Rightarrow> lock_action" where
  "detect_lock_action level dur_base dur_factor =
     (case find (\<lambda>a. LOCK_ACTION_TO_RAW a = (level, dur_base, dur_factor))
             [LOCK_AUTORELOCK_END, LOCK_AUTORELOCK_START, UNLOCK_AUTORELOCK_END, AUTORELOCK_END] of
        Some a \<Rightarrow> a
      | None \<Rightarrow> LOCK_AUTORELOCK_END)"

definition detect_lock_mode :: "string list \<Rightarrow> lock_mode" where
  "detect_lock_mode target_channels =
     (if list_ex (starts_with ''1_'') target_channels then DOOR_LOCK else USER_PERMISSION)"

definition detect_lock_permission :: "real \<Rightarrow> lock_permission" where
  "detect_lock_permission level = (if 1 / 2 \<le> level then GRANTED else NOT_GRANTED)"

subsection \<open>Entries and their validation\<close>

record simple_entry =
  se_weekdays :: "weekday list"
  se_time :: string
  se_condition :: schedule_condition
  se_astro_type :: "astro_type option"
  se_astro_offset_minutes :: int
  se_target_channels :: "string list"
  se_level :: real
  se_level_2 :: "real option"
  se_duration :: "string option"
  se_ramp_time :: "string option"
  se_lock_mode :: "lock_mode option"
  se_lock_action :: "lock_action option"
  se_permission :: "lock_permission option"

text \<open>\<open>_CHANNEL_PATTERN\<close>: \<open>^[1-8]_[1-3]$\<close>.\<close>

fun CHANNEL_PATTERN :: "string \<Rightarrow> bool" where
  "CHANNEL_PATTERN (x # u # y # r) \<longleftrightarrow> x \<in> set ''12345678'' \<and> u = CHR ''_'' \<and> y \<in> set ''123'' \<and> at_end r"
| "CHANNEL_PATTERN _ \<longleftrightarrow> False"

definition require :: "bool \<Rightarrow> string \<Rightarrow> schedule_error + unit" where
  "require b key = (if b then Inr () else Inl (ValueErr key))"

definition validate_channels :: "string list \<Rightarrow> schedule_error + unit" where
  "validate_channels v = require (list_all CHANNEL_PATTERN v) ''exception.model.schedule.invalid_channel_format''"

definition validate_time :: "string \<Rightarrow> schedule_error + unit" where
  "validate_time v = require (TIME_PATTERN v \<noteq> None) ''exception.model.schedule.invalid_time_format''"

definition validate_duration_format :: "string option \<Rightarrow> schedule_error + unit" where
  "validate_duration_format v =
     (case v of
        None \<Rightarrow> Inr ()
      | Some s \<Rightarrow>
          res_bind (require (DURATION_PATTERN s \<noteq> None) ''exception.model.schedule.invalid_duration_format'') (\<lambda>_.
          res_bind (convert_duration_to_base_factor s) (\<lambda>_. Inr ())))"

definition validate_astro_fields :: "simple_entry \<Rightarrow> schedule_error + unit" where
  "validate_astro_fields e =
     require (se_condition e = FIXED_TIME \<or> se_astro_type e \<noteq> None) ''exception.model.schedule.astro_type_required''"

text \<open>
  Construction of an entry: the bounds of the fields and the field validators in the order of the
  fields, then the check across fields. The validation library collects the errors of all fields into
  one \<open>ValidationError\<close>; here the first stands for it.
\<close>

definition validate_entry :: "simple_entry \<Rightarrow> schedule_error + simple_entry" where
  "validate_entry e =
     res_bind (require (se_weekdays e \<noteq> []) ''too_short'') (\<lambda>_.
     res_bind (validate_time (se_time e)) (\<lambda>_.
     res_bind (require (- 720 \<le> se_astro_offset_minutes e \<and> se_astro_offset_minutes e \<le> 720) ''out_of_bounds'') (\<lambda>_.
     res_bind (validate_channels (se_target_channels e)) (\<lambda>_.
     res_bind (require (0 \<le> se_level e \<and> se_level e \<le> 101 / 100) ''out_of_bounds'') (\<lambda>_.
     res_bind (require (\<forall>l \<in> set_option (se_level_2 e). 0 \<le> l \<and> l \<le> 1) ''out_of_bounds'') (\<lambda>_.
     res_bind (validate_duration_format (se_duration e)) (\<lambda>_.
     res_bind (validate_duration_format (se_ramp_time e)) (\<lambda>_.
     res_bind (validate_astro_fields e) (\<lambda>_. Inr e)))))))))"

definition validate_switch_entry :: "simple_entry \<Rightarrow> schedule_error + unit" where
  "validate_switch_entry e =
     res_bind (require (se_level e = 0 \<or> se_level e = 1) ''exception.model.schedule.switch_level_not_binary'') (\<lambda>_.
     res_bind (require (se_level_2 e = None) ''exception.model.schedule.level_2_not_supported'') (\<lambda>_.
       require (se_ramp_time e = None) ''exception.model.schedule.ramp_time_not_supported''))"

definition validate_light_entry :: "simple_entry \<Rightarrow> schedule_error + unit" where
  "validate_light_entry e = require (se_level_2 e = None) ''exception.model.schedule.level_2_not_supported''"

definition validate_cover_entry :: "simple_entry \<Rightarrow> schedule_error + unit" where
  "validate_cover_entry e =
     res_bind (require (se_ramp_time e = None) ''exception.model.schedule.ramp_time_not_supported'') (\<lambda>_.
       require (se_duration e = None) ''exception.model.schedule.duration_not_supported'')"

definition validate_valve_entry :: "simple_entry \<Rightarrow> schedule_error + unit" where
  "validate_valve_entry e =
     res_bind (require (se_level_2 e = None) ''exception.model.schedule.level_2_not_supported'') (\<lambda>_.
       require (se_ramp_time e = None) ''exception.model.schedule.ramp_time_not_supported'')"

definition validate_lock_entry :: "simple_entry \<Rightarrow> schedule_error + unit" where
  "validate_lock_entry e =
     res_bind
       (case se_lock_mode e of
          None \<Rightarrow> Inl (ValueErr ''exception.model.schedule.lock_mode_required'')
        | Some DOOR_LOCK \<Rightarrow>
            res_bind (require (se_lock_action e \<noteq> None) ''exception.model.schedule.lock_action_required'') (\<lambda>_.
              require (se_permission e = None) ''exception.model.schedule.permission_not_allowed_in_door_lock_mode'')
        | Some USER_PERMISSION \<Rightarrow>
            res_bind (require (se_permission e \<noteq> None) ''exception.model.schedule.permission_required'') (\<lambda>_.
              require (se_lock_action e = None) ''exception.model.schedule.lock_action_not_allowed_in_user_permission_mode''))
       (\<lambda>_.
     res_bind (require (se_level_2 e = None) ''exception.model.schedule.level_2_not_supported'') (\<lambda>_.
     res_bind (require (se_ramp_time e = None) ''exception.model.schedule.ramp_time_not_supported'') (\<lambda>_.
       require (se_duration e = None) ''exception.model.schedule.duration_not_supported'')))"

fun validate_domain_specific :: "category \<Rightarrow> simple_entry \<Rightarrow> schedule_error + unit" where
  "validate_domain_specific CAT_SWITCH e = validate_switch_entry e"
| "validate_domain_specific CAT_LIGHT e = validate_light_entry e"
| "validate_domain_specific CAT_COVER e = validate_cover_entry e"
| "validate_domain_specific CAT_VALVE e = validate_valve_entry e"
| "validate_domain_specific CAT_LOCK e = validate_lock_entry e"
| "validate_domain_specific _ e = Inr ()"

definition validate_domain_constraints :: "category option \<Rightarrow> simple_entry \<Rightarrow> schedule_error + simple_entry" where
  "validate_domain_constraints domain e =
     res_bind (validate_entry e) (\<lambda>e.
       case domain of
         None \<Rightarrow> Inr e
       | Some c \<Rightarrow> if c \<in> SCHEDULE_DOMAINS then res_bind (validate_domain_specific c e) (\<lambda>_. Inr e) else Inr e)"

fun DOMAIN_UNSUPPORTED_FIELDS :: "category \<Rightarrow> string set" where
  "DOMAIN_UNSUPPORTED_FIELDS CAT_SWITCH = {''level_2'', ''ramp_time''}"
| "DOMAIN_UNSUPPORTED_FIELDS CAT_LIGHT = {''level_2''}"
| "DOMAIN_UNSUPPORTED_FIELDS CAT_COVER = {''ramp_time'', ''duration''}"
| "DOMAIN_UNSUPPORTED_FIELDS CAT_VALVE = {''level_2'', ''ramp_time''}"
| "DOMAIN_UNSUPPORTED_FIELDS CAT_LOCK = {''level_2'', ''ramp_time'', ''duration''}"
| "DOMAIN_UNSUPPORTED_FIELDS _ = {}"

text \<open>\<open>SimpleSchedule\<close>: group numbers 1 to 24.\<close>

type_synonym simple_schedule = "(int, simple_entry) dict"

definition validate_entry_keys :: "simple_schedule \<Rightarrow> schedule_error + simple_schedule" where
  "validate_entry_keys v =
     (if list_all (\<lambda>(k, e). 1 \<le> k \<and> k \<le> 24) v then Inr v
      else Inl (ValueErr ''exception.model.schedule.group_number_out_of_range''))"

definition validate_schedule :: "category option \<Rightarrow> simple_schedule \<Rightarrow> schedule_error + simple_schedule" where
  "validate_schedule domain s =
     res_bind (res_list (map (\<lambda>(k, e). validate_domain_constraints domain e) s)) (\<lambda>_. validate_entry_keys s)"

subsection \<open>Raw groups\<close>

text \<open>The values of a raw group: integers with the enumeration members among them, floats, and lists of members.\<close>

datatype field_value = FInt int | FFloat real | FDays "weekday list" | FChans "actor_channel list"

type_synonym raw_group = "(schedule_field, field_value) dict"

text \<open>\<open>int(x) if isinstance(x, (int, float)) else None\<close>.\<close>

definition as_int :: "field_value option \<Rightarrow> int option" where
  "as_int v = (case v of Some (FInt i) \<Rightarrow> Some i | Some (FFloat r) \<Rightarrow> Some (py_truncate r) | _ \<Rightarrow> None)"

definition as_float :: "field_value option \<Rightarrow> real option" where
  "as_float v = (case v of Some (FInt i) \<Rightarrow> Some (real_of_int i) | Some (FFloat r) \<Rightarrow> Some r | _ \<Rightarrow> None)"

definition else_int :: "int \<Rightarrow> int option \<Rightarrow> int" where
  "else_int d v = (case v of None \<Rightarrow> d | Some i \<Rightarrow> i)"

definition enum_or_raise :: "'e option \<Rightarrow> schedule_error + 'e" where
  "enum_or_raise v = (case v of None \<Rightarrow> Inl (ValueErr ''is not a valid enumeration value'') | Some x \<Rightarrow> Inr x)"

text \<open>A member of an integer enumeration stored in a group: an integer is looked up, anything else is the default.\<close>

definition enum_field :: "(int \<Rightarrow> 'e option) \<Rightarrow> 'e \<Rightarrow> field_value option \<Rightarrow> schedule_error + 'e" where
  "enum_field lookup d v = (case v of Some (FInt i) \<Rightarrow> enum_or_raise (lookup i) | _ \<Rightarrow> Inr d)"

definition extract_duration :: "field_value option \<Rightarrow> field_value option \<Rightarrow> schedule_error + string option" where
  "extract_duration base_raw factor_raw =
     (case (base_raw, as_int factor_raw) of
        (Some _, Some factor) \<Rightarrow>
          res_bind (enum_field time_base_of MS_100 base_raw) (\<lambda>b. Inr (Some (convert_base_factor_to_duration b factor)))
      | _ \<Rightarrow> Inr None)"

definition extract_ramp_time :: "raw_group \<Rightarrow> schedule_error + string option" where
  "extract_ramp_time g = extract_duration (dict_get g RAMP_TIME_BASE) (dict_get g RAMP_TIME_FACTOR)"

definition drop_if :: "bool \<Rightarrow> 'a option \<Rightarrow> 'a option" where
  "drop_if b x = (if b then None else x)"

definition convert_raw_group_to_simple_entry :: "raw_group \<Rightarrow> category option \<Rightarrow> schedule_error + simple_entry" where
  "convert_raw_group_to_simple_entry g domain =
     (let days = (case dict_get g WEEKDAY of Some (FDays ds) \<Rightarrow> ds | _ \<Rightarrow> []);
          weekdays = (if days = [] then [MONDAY] else days);
          time = convert_hour_minute_to_time (else_int 0 (as_int (dict_get g FIXED_HOUR)))
                   (else_int 0 (as_int (dict_get g FIXED_MINUTE)));
          offset = else_int 0 (as_int (dict_get g ASTRO_OFFSET));
          chans = (case dict_get g TARGET_CHANNELS of Some (FChans cs) \<Rightarrow> map channel_text cs | _ \<Rightarrow> []);
          level = max 0 (min (101 / 100) (case as_float (dict_get g LEVEL) of None \<Rightarrow> 0 | Some l \<Rightarrow> l));
          base_raw = dict_get g DURATION_BASE;
          factor_raw = dict_get g DURATION_FACTOR;
          level_2 = map_option (\<lambda>l. max 0 (min 1 l)) (as_float (dict_get g LEVEL_2));
          bad = (case domain of None \<Rightarrow> {} | Some c \<Rightarrow> DOMAIN_UNSUPPORTED_FIELDS c)
      in res_bind (enum_field condition_of FIXED_TIME (dict_get g CONDITION)) (\<lambda>condition.
         res_bind (enum_field astro_of SUNRISE (dict_get g ASTRO_TYPE)) (\<lambda>astro.
         res_bind (if domain = Some CAT_LOCK then Inr None else extract_duration base_raw factor_raw) (\<lambda>duration.
         res_bind (extract_ramp_time g) (\<lambda>ramp_time.
           let mode = (if domain = Some CAT_LOCK then Some (detect_lock_mode chans) else None)
           in validate_entry
                \<lparr>se_weekdays = weekdays, se_time = time, se_condition = condition,
                 se_astro_type = (if condition = FIXED_TIME then None else Some astro),
                 se_astro_offset_minutes = offset, se_target_channels = chans, se_level = level,
                 se_level_2 = drop_if (''level_2'' \<in> bad) level_2,
                 se_duration = drop_if (''duration'' \<in> bad) duration,
                 se_ramp_time = drop_if (''ramp_time'' \<in> bad) ramp_time,
                 se_lock_mode = mode,
                 se_lock_action =
                   (if mode = Some DOOR_LOCK
                    then Some (detect_lock_action level (else_int 7 (as_int base_raw)) (else_int 31 (as_int factor_raw)))
                    else None),
                 se_permission = (if mode = Some USER_PERMISSION then Some (detect_lock_permission level) else None)\<rparr>)))))"

definition convert_list_to_channels :: "string list \<Rightarrow> schedule_error + actor_channel list" where
  "convert_list_to_channels ss =
     res_list (map (\<lambda>s. case channel_of_text s of None \<Rightarrow> Inl (KeyErr s) | Some c \<Rightarrow> Inr c) ss)"

definition duration_fields ::
  "schedule_field \<Rightarrow> schedule_field \<Rightarrow> string option \<Rightarrow> schedule_error + raw_group" where
  "duration_fields base_field factor_field v =
     (case v of
        None \<Rightarrow> Inr []
      | Some s \<Rightarrow> res_bind (convert_duration_to_base_factor s) (\<lambda>(b, f).
                    Inr [(base_field, FInt (time_base_value b)), (factor_field, FInt (int f))]))"

definition lock_fields :: "simple_entry \<Rightarrow> lock_mode \<Rightarrow> raw_group" where
  "lock_fields e mode =
     (case (mode, se_lock_action e, se_permission e) of
        (DOOR_LOCK, Some a, _) \<Rightarrow>
          (case LOCK_ACTION_TO_RAW a of (l, b, f) \<Rightarrow> [(LEVEL, FFloat l), (DURATION_BASE, FInt b), (DURATION_FACTOR, FInt f)])
      | (USER_PERMISSION, _, Some p) \<Rightarrow>
          [(LEVEL, FFloat (LOCK_PERMISSION_TO_LEVEL p)), (DURATION_BASE, FInt 7), (DURATION_FACTOR, FInt 31)]
      | _ \<Rightarrow> [])"

definition convert_simple_entry_to_raw_group :: "simple_entry \<Rightarrow> schedule_error + raw_group" where
  "convert_simple_entry_to_raw_group e =
     res_bind (convert_time_to_hour_minute (se_time e)) (\<lambda>(hour, minute).
     res_bind (convert_list_to_channels (se_target_channels e)) (\<lambda>chans.
     res_bind (case se_lock_mode e of
                 Some mode \<Rightarrow> Inr (lock_fields e mode)
               | None \<Rightarrow> res_bind (duration_fields DURATION_BASE DURATION_FACTOR (se_duration e))
                           (\<lambda>d. Inr ((LEVEL, FFloat (se_level e)) # d))) (\<lambda>level_fields.
     res_bind (duration_fields RAMP_TIME_BASE RAMP_TIME_FACTOR (se_ramp_time e)) (\<lambda>ramp.
       Inr ([(WEEKDAY, FDays (se_weekdays e)), (FIXED_HOUR, FInt (int hour)), (FIXED_MINUTE, FInt (int minute)),
             (CONDITION, FInt (condition_value (se_condition e))),
             (ASTRO_TYPE, FInt (astro_value (case se_astro_type e of None \<Rightarrow> SUNRISE | Some a \<Rightarrow> a))),
             (ASTRO_OFFSET, FInt (se_astro_offset_minutes e)), (TARGET_CHANNELS, FChans chans)] @
            level_fields @ (case se_level_2 e of None \<Rightarrow> [] | Some l \<Rightarrow> [(LEVEL_2, FFloat l)]) @ ramp)))))"

end
