(* ===== verification/Week_Profile.thy ===== *)
theory Week_Profile
  imports Simple_Schedule
begin

section \<open>Week profiles of switches, lights, covers, valves and locks\<close>

text \<open>
  \<open>DefaultWeekProfile\<close> of \<open>model/week_profile.py\<close>: the conversion of a schedule to the flat parameters
  of the paramset and back, the filter for the fields a device advertises, and the cached profile
  with its services. As for thermostats, the backend's answer is an argument and what is sent is the
  result.
\<close>

unbundle bit_operations_syntax

subsection \<open>Bit masks\<close>

definition list_to_bitwise :: "int list \<Rightarrow> int" where
  "list_to_bitwise items = foldl (\<lambda>r v. r OR v) 0 items"

definition bitwise_to_list :: "('e \<Rightarrow> int) \<Rightarrow> 'e list \<Rightarrow> int \<Rightarrow> 'e list" where
  "bitwise_to_list val members v = (if v = 0 then [] else filter (\<lambda>item. v AND val item \<noteq> 0) members)"

subsection \<open>Parameters\<close>

definition wp_key :: "int \<Rightarrow> schedule_field \<Rightarrow> string" where
  "wp_key group_no field = pad2 group_no @ ''_WP_'' @ field_name field"

definition weekday_bit :: "weekday \<Rightarrow> int" where
  "weekday_bit d = int (weekday_value d)"

text \<open>The value of a group's field as the paramset holds it, and the reading of it.\<close>

definition encode_field :: "schedule_field \<Rightarrow> field_value \<Rightarrow> raw_value" where
  "encode_field field v =
     (case v of
        FDays ds \<Rightarrow> if field = WEEKDAY then RInt (list_to_bitwise (map weekday_bit ds)) else RInt 0
      | FChans cs \<Rightarrow> if field = TARGET_CHANNELS then RInt (list_to_bitwise (map channel_value cs)) else RInt 0
      | FInt i \<Rightarrow> if field \<in> {LEVEL, LEVEL_2} then RFloat (real_of_int i) else RInt i
      | FFloat r \<Rightarrow> if field \<in> {LEVEL, LEVEL_2} then RFloat r else RInt (py_truncate r))"

definition raw_int :: "raw_value \<Rightarrow> int" where
  "raw_int v = (case v of RInt i \<Rightarrow> i | RFloat r \<Rightarrow> py_truncate r)"

definition convert_raw_schedule_value :: "schedule_field \<Rightarrow> raw_value \<Rightarrow> field_value" where
  "convert_raw_schedule_value field v =
     (if field = LEVEL then (case v of RInt i \<Rightarrow> FInt i | RFloat r \<Rightarrow> FFloat r)
      else if field = LEVEL_2 then FFloat (case v of RInt i \<Rightarrow> real_of_int i | RFloat r \<Rightarrow> r)
      else if field = WEEKDAY then FDays (bitwise_to_list weekday_bit all_weekdays (raw_int v))
      else if field = TARGET_CHANNELS then FChans (bitwise_to_list channel_value all_channels (raw_int v))
      else FInt (raw_int v))"

definition put_group :: "int \<Rightarrow> raw_group \<Rightarrow> (string, raw_value) dict \<Rightarrow> (string, raw_value) dict" where
  "put_group group_no g raw = foldl (\<lambda>raw (f, v). dict_set (wp_key group_no f) (encode_field f v) raw) raw g"

fun put_groups :: "simple_schedule \<Rightarrow> (string, raw_value) dict \<Rightarrow> schedule_error + (string, raw_value) dict" where
  "put_groups [] raw = Inr raw"
| "put_groups ((group_no, e) # entries) raw =
     res_bind (convert_simple_entry_to_raw_group e) (\<lambda>g. put_groups entries (put_group group_no g raw))"

definition clear_groups :: "simple_schedule \<Rightarrow> (string, raw_value) dict \<Rightarrow> (string, raw_value) dict" where
  "clear_groups entries raw =
     foldl (\<lambda>raw n. if dict_get entries n = None
                     then dict_set (wp_key n TARGET_CHANNELS) (RInt 0) (dict_set (wp_key n WEEKDAY) (RInt 0) raw) else raw)
       raw [1..24]"

definition convert_dict_to_raw_schedule :: "simple_schedule \<Rightarrow> schedule_error + (string, raw_value) dict" where
  "convert_dict_to_raw_schedule entries = res_bind (put_groups entries []) (\<lambda>raw. Inr (clear_groups entries raw))"

subsection \<open>Reading parameters\<close>

type_synonym raw_groups = "(int, raw_group) dict"

definition add_param :: "raw_groups \<Rightarrow> string \<times> raw_value \<Rightarrow> raw_groups" where
  "add_param groups item =
     (case split_max CHR ''_'' 2 (fst item) of
        [no, wp, name] \<Rightarrow>
          (case (python_int no, field_of_name name) of
             (Some group_no, Some field) \<Rightarrow>
               if wp = ''WP''
               then dict_set group_no
                      (dict_set field (convert_raw_schedule_value field (snd item))
                        (case dict_get groups group_no of None \<Rightarrow> [] | Some g \<Rightarrow> g)) groups
               else groups
           | _ \<Rightarrow> groups)
      | _ \<Rightarrow> groups)"

definition is_schedule_active :: "raw_group \<Rightarrow> bool" where
  "is_schedule_active g = (case dict_get g WEEKDAY of Some (FDays ds) \<Rightarrow> ds \<noteq> [] | Some _ \<Rightarrow> True | None \<Rightarrow> False)"

definition group_entries :: "category option \<Rightarrow> raw_groups \<Rightarrow> simple_schedule" where
  "group_entries domain groups =
     List.map_filter (\<lambda>(n, g).
       if is_schedule_active g
       then (case convert_raw_group_to_simple_entry g domain of Inr e \<Rightarrow> Some (n, e) | Inl _ \<Rightarrow> None)
       else None) groups"

definition convert_raw_to_dict_schedule :: "(string, raw_value) dict \<Rightarrow> category option \<Rightarrow> schedule_error + simple_schedule" where
  "convert_raw_to_dict_schedule raw domain = validate_entry_keys (group_entries domain (foldl add_param [] raw))"

text \<open>\<open>SCHEDULE_PATTERN\<close>: \<open>^\d+_WP_\<close>, with the end of the match.\<close>

definition SCHEDULE_PATTERN :: "string \<Rightarrow> nat option" where
  "SCHEDULE_PATTERN s =
     (let ds = takeWhile is_digit s
      in if ds \<noteq> [] \<and> starts_with ''_WP_'' (dropWhile is_digit s) then Some (length ds + 4) else None)"

definition convert_schedule_entries :: "(string, raw_value) dict \<Rightarrow> (string, raw_value) dict" where
  "convert_schedule_entries vals = filter (\<lambda>(k, v). SCHEDULE_PATTERN k \<noteq> None) vals"

definition schedule_field_of :: "string \<Rightarrow> schedule_field option" where
  "schedule_field_of k = (case SCHEDULE_PATTERN k of None \<Rightarrow> None | Some n \<Rightarrow> field_of_name (drop n k))"

definition extract_supported_schedule_fields :: "string list \<Rightarrow> schedule_field set" where
  "extract_supported_schedule_fields master_paramset = set (List.map_filter schedule_field_of master_paramset)"

definition filter_raw_schedule_by_supported_fields ::
  "schedule_field set \<Rightarrow> (string, raw_value) dict \<Rightarrow> (string, raw_value) dict" where
  "filter_raw_schedule_by_supported_fields supported raw =
     (if supported = {} then raw
      else filter (\<lambda>(k, v). case schedule_field_of k of None \<Rightarrow> True | Some f \<Rightarrow> f \<in> supported) raw)"

subsection \<open>The week profile and its services\<close>

record default_week_profile =
  dwp_schedule_cache :: simple_schedule
  dwp_schedule_channel_address :: "string option"
  dwp_category :: category
  dwp_master_paramset :: "string list"

datatype wp_answer = WpClientFailure | WpParamset "(string, raw_value) dict"

definition wp_unsupported :: schedule_error where
  "wp_unsupported = ValidationErr ''exception.model.week_profile.schedule.unsupported''"

definition wp_get_raw_schedule :: "wp_answer \<Rightarrow> default_week_profile \<Rightarrow> schedule_error + (string, raw_value) dict" where
  "wp_get_raw_schedule answer wp =
     (case (dwp_schedule_channel_address wp, answer) of
        (Some _, WpParamset vals) \<Rightarrow>
          (case convert_schedule_entries vals of [] \<Rightarrow> Inl wp_unsupported | raw \<Rightarrow> Inr raw)
      | _ \<Rightarrow> Inl wp_unsupported)"

text \<open>Reload: the new state and whether the change is published. Equality of schedules disregards the order.\<close>

definition same_entries :: "simple_schedule \<Rightarrow> simple_schedule \<Rightarrow> bool" where
  "same_entries s s' \<longleftrightarrow> length s = length s' \<and> list_all (\<lambda>(k, e). dict_get s' k = Some e) s"

definition wp_reload_and_cache_schedule ::
  "bool \<Rightarrow> wp_answer \<Rightarrow> default_week_profile \<Rightarrow> schedule_error + default_week_profile \<times> bool" where
  "wp_reload_and_cache_schedule force answer wp =
     (if \<not> force \<and> dwp_schedule_channel_address wp = None then Inr (wp, False)
      else case wp_get_raw_schedule answer wp of
             Inl e \<Rightarrow> Inr (wp, False)
           | Inr raw \<Rightarrow>
               res_bind (convert_raw_to_dict_schedule raw (Some (dwp_category wp))) (\<lambda>new.
                 Inr (wp\<lparr>dwp_schedule_cache := new\<rparr>, \<not> same_entries (dwp_schedule_cache wp) new)))"

definition wp_get_schedule :: "bool \<Rightarrow> wp_answer \<Rightarrow> default_week_profile \<Rightarrow> schedule_error + simple_schedule \<times> default_week_profile" where
  "wp_get_schedule force_load answer wp =
     (if dwp_schedule_channel_address wp = None then Inl wp_unsupported
      else res_bind (wp_reload_and_cache_schedule force_load answer wp) (\<lambda>(wp, _). Inr (dwp_schedule_cache wp, wp)))"

definition wp_set_schedule :: "simple_schedule \<Rightarrow> default_week_profile \<Rightarrow> schedule_error + (string, raw_value) dict" where
  "wp_set_schedule s wp =
     (if dwp_schedule_channel_address wp = None then Inl wp_unsupported
      else res_bind (validate_schedule (Some (dwp_category wp)) s) (\<lambda>_.
           res_bind (convert_dict_to_raw_schedule s) (\<lambda>raw.
             Inr (filter_raw_schedule_by_supported_fields
                    (extract_supported_schedule_fields (dwp_master_paramset wp)) (convert_schedule_entries raw)))))"

definition empty_schedule_entry :: "category \<Rightarrow> simple_entry" where
  "empty_schedule_entry c =
     \<lparr>se_weekdays = [MONDAY], se_time = ''00:00'', se_condition = FIXED_TIME, se_astro_type = None,
      se_astro_offset_minutes = 0, se_target_channels = [''1_1''], se_level = 0, se_level_2 = None, se_duration = None,
      se_ramp_time = None,
      se_lock_mode = (if c = CAT_LOCK then Some DOOR_LOCK else None),
      se_lock_action = (if c = CAT_LOCK then Some LOCK_AUTORELOCK_END else None),
      se_permission = None\<rparr>"

fun optional_fields :: "category \<Rightarrow> raw_group" where
  "optional_fields CAT_COVER = [(LEVEL, FFloat 0), (LEVEL_2, FFloat 0)]"
| "optional_fields CAT_SWITCH = [(DURATION_BASE, FInt (time_base_value MS_100)), (DURATION_FACTOR, FInt 0), (LEVEL, FInt 0)]"
| "optional_fields CAT_LIGHT =
     [(DURATION_BASE, FInt (time_base_value MS_100)), (DURATION_FACTOR, FInt 0),
      (RAMP_TIME_BASE, FInt (time_base_value MS_100)), (RAMP_TIME_FACTOR, FInt 0), (LEVEL, FFloat 0)]"
| "optional_fields CAT_VALVE = [(LEVEL, FFloat 0)]"
| "optional_fields _ = []"

definition create_empty_schedule_group :: "category option \<Rightarrow> raw_group" where
  "create_empty_schedule_group c =
     [(ASTRO_OFFSET, FInt 0), (ASTRO_TYPE, FInt (astro_value SUNRISE)), (CONDITION, FInt (condition_value FIXED_TIME)),
      (FIXED_HOUR, FInt 0), (FIXED_MINUTE, FInt 0), (TARGET_CHANNELS, FChans []), (WEEKDAY, FDays [])] @
     (case c of None \<Rightarrow> [] | Some c \<Rightarrow> optional_fields c)"

subsection \<open>Bit masks and lists of members\<close>

text \<open>An integer enumeration whose members are single bits: the bit mask of a list holds exactly its members.\<close>

locale bit_enum =
  fixes val :: "'e \<Rightarrow> int" and idx :: "'e \<Rightarrow> nat" and members :: "'e list"
  assumes val_bit: "val x = 2 ^ idx x" and idx_inj: "idx x = idx y \<Longrightarrow> x = y" and all_members: "x \<in> set members"
begin

lemma bit_mask: "bit (list_to_bitwise (map val xs)) i \<longleftrightarrow> i \<in> idx ` set xs"
proof -
  have "bit (foldl (\<lambda>r v. r OR v) a (map val xs)) i \<longleftrightarrow> bit a i \<or> i \<in> idx ` set xs" for a
    by (induction xs arbitrary: a) (auto simp: bit_or_iff val_bit bit_exp_iff possible_bit_def)
  then show ?thesis by (simp add: list_to_bitwise_def)
qed

lemma mask_list: "bitwise_to_list val members (list_to_bitwise (map val xs)) = filter (\<lambda>x. x \<in> set xs) members"
proof (cases "xs = []")
  case False
  then obtain x where "x \<in> set xs" by (cases xs) auto
  then have "bit (list_to_bitwise (map val xs)) (idx x)"
    by (simp add: bit_mask)
  then have "list_to_bitwise (map val xs) \<noteq> 0" by auto
  moreover have "list_to_bitwise (map val xs) AND val y \<noteq> 0 \<longleftrightarrow> y \<in> set xs" for y
    using idx_inj by (auto simp: val_bit and_exp_eq_0_iff_not_bit bit_mask)
  ultimately show ?thesis
    by (simp add: bitwise_to_list_def)
qed (simp add: bitwise_to_list_def list_to_bitwise_def)

lemma set_mask_list: "set (bitwise_to_list val members (list_to_bitwise (map val xs))) = set xs"
  using all_members by (auto simp: mask_list)

end

fun weekday_index :: "weekday \<Rightarrow> nat" where
  "weekday_index SUNDAY = 0"
| "weekday_index MONDAY = 1"
| "weekday_index TUESDAY = 2"
| "weekday_index WEDNESDAY = 3"
| "weekday_index THURSDAY = 4"
| "weekday_index FRIDAY = 5"
| "weekday_index SATURDAY = 6"

interpretation days: bit_enum weekday_bit weekday_index all_weekdays
proof
  fix d e :: weekday
  show "weekday_bit d = 2 ^ weekday_index d"
    by (cases d) (simp_all add: weekday_bit_def)
  show "weekday_index d = weekday_index e \<Longrightarrow> d = e"
    by (cases d; cases e) simp_all
qed simp

fun channel_index :: "actor_channel \<Rightarrow> nat" where
  "channel_index CHANNEL_1_1 = 0"
| "channel_index CHANNEL_1_2 = 1"
| "channel_index CHANNEL_1_3 = 2"
| "channel_index CHANNEL_2_1 = 3"
| "channel_index CHANNEL_2_2 = 4"
| "channel_index CHANNEL_2_3 = 5"
| "channel_index CHANNEL_3_1 = 6"
| "channel_index CHANNEL_3_2 = 7"
| "channel_index CHANNEL_3_3 = 8"
| "channel_index CHANNEL_4_1 = 9"
| "channel_index CHANNEL_4_2 = 10"
| "channel_index CHANNEL_4_3 = 11"
| "channel_index CHANNEL_5_1 = 12"
| "channel_index CHANNEL_5_2 = 13"
| "channel_index CHANNEL_5_3 = 14"
| "channel_index CHANNEL_6_1 = 15"
| "channel_index CHANNEL_6_2 = 16"
| "channel_index CHANNEL_6_3 = 17"
| "channel_index CHANNEL_7_1 = 18"
| "channel_index CHANNEL_7_2 = 19"
| "channel_index CHANNEL_7_3 = 20"
| "channel_index CHANNEL_8_1 = 21"
| "channel_index CHANNEL_8_2 = 22"
| "channel_index CHANNEL_8_3 = 23"

lemma all_channels_mem: "c \<in> set all_channels"
  by (cases c) (simp_all add: all_channels_def)

interpretation chans: bit_enum channel_value channel_index all_channels
proof
  fix c d :: actor_channel
  show "channel_value c = 2 ^ channel_index c"
    by (cases c) simp_all
  show "c = d" if "channel_index c = channel_index d"
  proof -
    have "distinct (map channel_index all_channels)"
      by (simp add: all_channels_def)
    then show ?thesis
      using that all_channels_mem by (auto simp: distinct_map inj_on_def)
  qed
qed (rule all_channels_mem)

lemma channel_of_text [simp]: "channel_of_text (channel_text c) = Some c"
  by (cases c) (simp_all add: channel_of_text_def all_channels_def)

lemma channel_of_text_SomeD: "channel_of_text s = Some c \<Longrightarrow> channel_text c = s"
  unfolding channel_of_text_def by (drule find_SomeD) simp

lemma channel_text_pattern: "CHANNEL_PATTERN (channel_text c)"
  by (cases c) (simp_all add: at_end_def)

lemma convert_list_to_channels_Inr:
  "convert_list_to_channels ss = Inr cs \<Longrightarrow> map channel_text cs = ss"
proof (induction ss arbitrary: cs)
  case (Cons s ss)
  then obtain c cs' where "channel_of_text s = Some c" "convert_list_to_channels ss = Inr cs'" "cs = c # cs'"
    by (auto simp: convert_list_to_channels_def res_bind_Inr_iff split: option.splits)
  with Cons.IH channel_of_text_SomeD show ?case by auto
qed (simp add: convert_list_to_channels_def)

subsection \<open>Groups read from parameters\<close>

lemma field_of_name [simp]: "field_of_name (field_name f) = Some f"
  by (cases f) (simp_all add: field_of_name_def all_fields_def)

lemma split_wp_key:
  assumes "0 \<le> n"
  shows "split_max CHR ''_'' 2 (wp_key n f) = [pad2 n, ''WP'', field_name f]"
proof -
  have "CHR ''_'' \<notin> set (pad2 n)"
    using digits_no_sep pad2_digits [OF assms] by blast
  then have "split_max CHR ''_'' (Suc (Suc 0)) (pad2 n @ CHR ''_'' # ''WP'' @ CHR ''_'' # field_name f) = [pad2 n, ''WP'', field_name f]"
    by (simp add: takeWhile_sep dropWhile_sep)
  then show ?thesis by (simp add: wp_key_def numeral_2_eq_2)
qed

lemma wp_key_inject:
  assumes "0 \<le> n" and "0 \<le> n'"
  shows "wp_key n f = wp_key n' f' \<longleftrightarrow> n = n' \<and> f = f'"
proof
  assume "wp_key n f = wp_key n' f'"
  then have "pad2 n = pad2 n' \<and> field_name f = field_name f'"
    using split_wp_key [OF assms(1), of f] split_wp_key [OF assms(2), of f'] by simp
  then have "python_int (pad2 n) = python_int (pad2 n') \<and> field_of_name (field_name f) = field_of_name (field_name f')"
    by simp
  with assms show "n = n' \<and> f = f'" by simp
qed simp

definition group_field :: "raw_groups \<Rightarrow> int \<Rightarrow> schedule_field \<Rightarrow> field_value option" where
  "group_field groups n f = (case dict_get groups n of None \<Rightarrow> None | Some g \<Rightarrow> dict_get g f)"

definition wp_raw_ok :: "(string, raw_value) dict \<Rightarrow> bool" where
  "wp_raw_ok raw \<longleftrightarrow> dict_wf raw \<and> list_all (\<lambda>(k, v). \<exists>n f. 0 \<le> n \<and> k = wp_key n f) raw"

definition put_field :: "int \<Rightarrow> schedule_field \<Rightarrow> field_value \<Rightarrow> raw_groups \<Rightarrow> raw_groups" where
  "put_field n f v groups = dict_set n (dict_set f v (case dict_get groups n of None \<Rightarrow> [] | Some g \<Rightarrow> g)) groups"

lemma add_param_key:
  "0 \<le> n \<Longrightarrow> add_param groups (wp_key n f, v) = put_field n f (convert_raw_schedule_value f v) groups"
  by (simp add: add_param_def split_wp_key put_field_def)

lemma group_field_put [simp]:
  "group_field (put_field n f v groups) n' f' = (if n' = n \<and> f' = f then Some v else group_field groups n' f')"
  by (auto simp: group_field_def put_field_def split: option.splits)

lemma put_field_wf [simp]: "dict_wf groups \<Longrightarrow> dict_wf (put_field n f v groups)"
  by (simp add: put_field_def)

lemma add_params_lookup:
  assumes "wp_raw_ok raw" and "dict_wf groups"
  shows "dict_wf (foldl add_param groups raw)"
    and "0 \<le> n \<Longrightarrow> group_field (foldl add_param groups raw) n f =
           (case dict_get raw (wp_key n f) of Some v \<Rightarrow> Some (convert_raw_schedule_value f v) | None \<Rightarrow> group_field groups n f)"
    and "n < 0 \<Longrightarrow> group_field (foldl add_param groups raw) n f = group_field groups n f"
  using assms
proof (induction raw arbitrary: groups)
  case (Cons item raw)
  {
    case 1
    then obtain m g v where item: "item = (wp_key m g, v)" and m: "0 \<le> m"
      by (cases item) (auto simp: wp_raw_ok_def)
    have ok: "wp_raw_ok raw"
      using 1 item by (auto simp: wp_raw_ok_def dict_wf_def)
    from Cons.IH(1) [OF ok, of "put_field m g (convert_raw_schedule_value g v) groups"] 1 m show ?case
      by (simp add: item add_param_key)
  next
    case 2
    then obtain m g v where item: "item = (wp_key m g, v)" and m: "0 \<le> m"
      by (cases item) (auto simp: wp_raw_ok_def)
    have ok: "wp_raw_ok raw" and fresh: "dict_get raw (wp_key m g) = None"
      using 2 item by (auto simp: wp_raw_ok_def dict_wf_def dict_get_None_iff)
    from Cons.IH(2) [OF 2(1) ok, of "put_field m g (convert_raw_schedule_value g v) groups"] 2 m fresh show ?case
      by (auto simp: item add_param_key dict_get_Cons wp_key_inject split: option.splits)
  next
    case 3
    then obtain m g v where item: "item = (wp_key m g, v)" and m: "0 \<le> m"
      by (cases item) (auto simp: wp_raw_ok_def)
    have ok: "wp_raw_ok raw"
      using 3 item by (auto simp: wp_raw_ok_def dict_wf_def)
    from Cons.IH(3) [OF 3(1) ok, of "put_field m g (convert_raw_schedule_value g v) groups"] 3 m show ?case
      by (auto simp: item add_param_key)
  }
qed simp_all

subsection \<open>Valid entries\<close>

definition duration_ok :: "string option \<Rightarrow> bool" where
  "duration_ok v \<longleftrightarrow> (case v of None \<Rightarrow> True | Some s \<Rightarrow> (\<exists>r. convert_duration_to_base_factor s = Inr r))"

definition entry_ok :: "simple_entry \<Rightarrow> bool" where
  "entry_ok e \<longleftrightarrow>
     se_weekdays e \<noteq> [] \<and> TIME_PATTERN (se_time e) \<noteq> None \<and>
     - 720 \<le> se_astro_offset_minutes e \<and> se_astro_offset_minutes e \<le> 720 \<and>
     list_all CHANNEL_PATTERN (se_target_channels e) \<and> 0 \<le> se_level e \<and> se_level e \<le> 101 / 100 \<and>
     (\<forall>l \<in> set_option (se_level_2 e). 0 \<le> l \<and> l \<le> 1) \<and> duration_ok (se_duration e) \<and> duration_ok (se_ramp_time e) \<and>
     (se_condition e = FIXED_TIME \<or> se_astro_type e \<noteq> None)"

lemma require_Inr [simp]: "require b k = Inr u \<longleftrightarrow> b" "require b k = Inl x \<longleftrightarrow> \<not> b \<and> x = ValueErr k"
  by (auto simp: require_def)

lemma validate_duration_iff: "validate_duration_format v = Inr u \<longleftrightarrow> duration_ok v"
proof (cases v)
  case (Some s)
  have "DURATION_PATTERN s \<noteq> None" if "convert_duration_to_base_factor s = Inr r" for r
    using that by (cases "DURATION_PATTERN s") (auto simp: convert_duration_to_base_factor_def)
  then show ?thesis
    using Some by (auto simp: validate_duration_format_def duration_ok_def res_bind_Inr_iff)
qed (simp add: validate_duration_format_def duration_ok_def)

lemma validate_entry_iff: "validate_entry e = Inr e' \<longleftrightarrow> e' = e \<and> entry_ok e"
  by (auto simp: validate_entry_def entry_ok_def res_bind_Inr_iff validate_duration_iff validate_time_def
      validate_channels_def validate_astro_fields_def)

fun domain_ok :: "category \<Rightarrow> simple_entry \<Rightarrow> bool" where
  "domain_ok CAT_SWITCH e \<longleftrightarrow> (se_level e = 0 \<or> se_level e = 1) \<and> se_level_2 e = None \<and> se_ramp_time e = None"
| "domain_ok CAT_LIGHT e \<longleftrightarrow> se_level_2 e = None"
| "domain_ok CAT_COVER e \<longleftrightarrow> se_ramp_time e = None \<and> se_duration e = None"
| "domain_ok CAT_VALVE e \<longleftrightarrow> se_level_2 e = None \<and> se_ramp_time e = None"
| "domain_ok CAT_LOCK e \<longleftrightarrow>
     (se_lock_mode e = Some DOOR_LOCK \<and> se_lock_action e \<noteq> None \<and> se_permission e = None \<or>
      se_lock_mode e = Some USER_PERMISSION \<and> se_permission e \<noteq> None \<and> se_lock_action e = None) \<and>
     se_level_2 e = None \<and> se_ramp_time e = None \<and> se_duration e = None"
| "domain_ok _ e \<longleftrightarrow> True"

lemma validate_domain_iff:
  "validate_domain_constraints (Some c) e = Inr e' \<longleftrightarrow> e' = e \<and> entry_ok e \<and> domain_ok c e"
  by (cases c; cases "se_lock_mode e"; cases "the (se_lock_mode e)")
    (auto simp: validate_domain_constraints_def SCHEDULE_DOMAINS_def res_bind_Inr_iff validate_entry_iff
      validate_switch_entry_def validate_light_entry_def validate_cover_entry_def validate_valve_entry_def validate_lock_entry_def)

text \<open>What an entry means, independent of the way its texts and lists are written.\<close>

definition meant_ms :: "string option \<Rightarrow> nat option" where
  "meant_ms v = (case v of None \<Rightarrow> None | Some s \<Rightarrow> duration_ms s)"

definition same_entry :: "simple_entry \<Rightarrow> simple_entry \<Rightarrow> bool" where
  "same_entry e e' \<longleftrightarrow>
     set (se_weekdays e') = set (se_weekdays e) \<and> time_to_minutes (se_time e') = time_to_minutes (se_time e) \<and>
     se_condition e' = se_condition e \<and> (se_condition e \<noteq> FIXED_TIME \<longrightarrow> se_astro_type e' = se_astro_type e) \<and>
     se_astro_offset_minutes e' = se_astro_offset_minutes e \<and>
     set (se_target_channels e') = set (se_target_channels e) \<and>
     (se_lock_mode e = None \<longrightarrow> se_level e' = se_level e) \<and> se_level_2 e' = se_level_2 e \<and>
     meant_ms (se_duration e') = meant_ms (se_duration e) \<and> meant_ms (se_ramp_time e') = meant_ms (se_ramp_time e) \<and>
     se_lock_mode e' = se_lock_mode e \<and> se_lock_action e' = se_lock_action e \<and> se_permission e' = se_permission e"

text \<open>
  Lock fields that a device can hold: a lock's mode is the one its channels imply, other devices have
  no lock fields.
\<close>

definition locks_match :: "category \<Rightarrow> simple_entry \<Rightarrow> bool" where
  "locks_match c e \<longleftrightarrow>
     (if c = CAT_LOCK then se_lock_mode e = Some (detect_lock_mode (se_target_channels e))
      else se_lock_mode e = None \<and> se_lock_action e = None \<and> se_permission e = None)"

lemma duration_reencode:
  assumes "convert_duration_to_base_factor s = Inr (b, f)"
  shows "duration_ok (Some (convert_base_factor_to_duration b (int f)))"
    and "duration_ms (convert_base_factor_to_duration b (int f)) = duration_ms s"
proof -
  note f = convert_duration_InrD [OF assms]
  show same: "duration_ms (convert_base_factor_to_duration b (int f)) = duration_ms s"
    by (simp add: duration_ms_print f(2))
  then show "duration_ok (Some (convert_base_factor_to_duration b (int f)))"
    using convert_duration_InlD [OF _ _ f(1), of "convert_base_factor_to_duration b (int f)" _ "f * base_ms b" b] f(2)
    by (cases "convert_duration_to_base_factor (convert_base_factor_to_duration b (int f))") (auto simp: duration_ok_def)
qed

lemma enum_lookups [simp]:
  "condition_of (condition_value c) = Some c" "astro_of (astro_value a) = Some a" "time_base_of (time_base_value b) = Some b"
  by (cases c, simp_all add: condition_of_def) (cases a, simp_all add: astro_of_def, cases b, simp_all add: time_base_of_def all_time_bases_def)

subsection \<open>One entry through a raw group and back\<close>

lemma value_roundtrip [simp]:
  "convert_raw_schedule_value WEEKDAY (encode_field WEEKDAY (FDays ds)) = FDays (filter (\<lambda>d. d \<in> set ds) all_weekdays)"
  "convert_raw_schedule_value TARGET_CHANNELS (encode_field TARGET_CHANNELS (FChans cs)) = FChans (filter (\<lambda>c. c \<in> set cs) all_channels)"
  "convert_raw_schedule_value LEVEL (encode_field LEVEL (FFloat r)) = FFloat r"
  "convert_raw_schedule_value LEVEL_2 (encode_field LEVEL_2 (FFloat r)) = FFloat r"
  "f \<notin> {LEVEL, LEVEL_2, WEEKDAY, TARGET_CHANNELS} \<Longrightarrow> convert_raw_schedule_value f (encode_field f (FInt i)) = FInt i"
  by (auto simp: convert_raw_schedule_value_def encode_field_def raw_int_def days.mask_list chans.mask_list)

lemma dict_get_append: "dict_get (d @ d') k = (case dict_get d k of None \<Rightarrow> dict_get d' k | Some v \<Rightarrow> Some v)"
  by (induction d) (auto simp: dict_get_def)

definition duration_pair :: "schedule_field \<Rightarrow> schedule_field \<Rightarrow> string option \<Rightarrow> raw_group" where
  "duration_pair bf ff v =
     (case v of None \<Rightarrow> []
      | Some s \<Rightarrow> (case convert_duration_to_base_factor s of
                    Inr (b, f) \<Rightarrow> [(bf, FInt (time_base_value b)), (ff, FInt (int f))] | Inl _ \<Rightarrow> []))"

lemma duration_fields_ok: "duration_ok v \<Longrightarrow> duration_fields bf ff v = Inr (duration_pair bf ff v)"
  by (cases v) (auto simp: duration_fields_def duration_pair_def duration_ok_def split: sum.splits)

text \<open>What reading a base and a factor that encode a duration gives.\<close>

lemma extract_duration_pair:
  assumes "duration_ok v" and "bf \<noteq> ff" and "bf \<notin> {LEVEL, LEVEL_2, WEEKDAY, TARGET_CHANNELS}" "ff \<notin> {LEVEL, LEVEL_2, WEEKDAY, TARGET_CHANNELS}"
  defines "conv \<equiv> \<lambda>f. map_option (\<lambda>v. convert_raw_schedule_value f (encode_field f v)) (dict_get (duration_pair bf ff v) f)"
  shows "\<exists>v'. extract_duration (conv bf) (conv ff) = Inr v' \<and> duration_ok v' \<and> meant_ms v' = meant_ms v \<and> (v = None \<longrightarrow> v' = None)"
proof (cases v)
  case None
  then show ?thesis by (simp add: conv_def duration_pair_def extract_duration_def duration_ok_def)
next
  case (Some s)
  then obtain b f where bf: "convert_duration_to_base_factor s = Inr (b, f)"
    using assms(1) by (auto simp: duration_ok_def)
  have "extract_duration (conv bf) (conv ff) = Inr (Some (convert_base_factor_to_duration b (int f)))"
    using assms(2-4) by (simp add: conv_def duration_pair_def Some bf dict_get_Cons extract_duration_def as_int_def enum_field_def enum_or_raise_def)
  with duration_reencode [OF bf] Some show ?thesis by (simp add: meant_ms_def)
qed

definition level_group :: "simple_entry \<Rightarrow> raw_group" where
  "level_group e =
     (case se_lock_mode e of
        Some mode \<Rightarrow> lock_fields e mode
      | None \<Rightarrow> (LEVEL, FFloat (se_level e)) # duration_pair DURATION_BASE DURATION_FACTOR (se_duration e))"

lemma raw_group_eq:
  assumes "convert_simple_entry_to_raw_group e = Inr g" and "entry_ok e"
  obtains h m cs where
    "h < 24" and "m < 60" and "time_to_minutes (se_time e) = Inr (int h * 60 + int m)" and "map channel_text cs = se_target_channels e"
    and "g = [(WEEKDAY, FDays (se_weekdays e)), (FIXED_HOUR, FInt (int h)), (FIXED_MINUTE, FInt (int m)),
             (CONDITION, FInt (condition_value (se_condition e))),
             (ASTRO_TYPE, FInt (astro_value (case se_astro_type e of None \<Rightarrow> SUNRISE | Some a \<Rightarrow> a))),
             (ASTRO_OFFSET, FInt (se_astro_offset_minutes e)), (TARGET_CHANNELS, FChans cs)] @
            level_group e @ (case se_level_2 e of None \<Rightarrow> [] | Some l \<Rightarrow> [(LEVEL_2, FFloat l)]) @
            duration_pair RAMP_TIME_BASE RAMP_TIME_FACTOR (se_ramp_time e)"
proof -
  have ok: "duration_ok (se_duration e)" "duration_ok (se_ramp_time e)"
    using assms(2) by (simp_all add: entry_ok_def)
  obtain h m where hm: "convert_time_to_hour_minute (se_time e) = Inr (h, m)"
    using assms(1) by (auto simp: convert_simple_entry_to_raw_group_def res_bind_Inr_iff)
  moreover obtain cs where "convert_list_to_channels (se_target_channels e) = Inr cs"
    using assms(1) by (auto simp: convert_simple_entry_to_raw_group_def res_bind_Inr_iff)
  ultimately show thesis
    using that [of h m cs] convert_time_to_hour_minuteD [OF hm] convert_list_to_channels_Inr assms(1)
    by (cases "se_lock_mode e")
      (auto simp: convert_simple_entry_to_raw_group_def duration_fields_ok [OF ok(1)] duration_fields_ok [OF ok(2)] level_group_def)
qed

end
