(* ===== verification/Schedule_Device.thy ===== *)
theory Schedule_Device
  imports Week_Profile
begin

section \<open>Schedules written to a device and read back\<close>

text \<open>
  The properties of \<open>DefaultWeekProfile\<close>: what the parameters sent to a device mean when they are
  read back, and where reading or writing loses a part of the schedule.
\<close>

subsection \<open>One entry\<close>

lemma duration_pair_other [simp]: "f \<noteq> bf \<Longrightarrow> f \<noteq> ff \<Longrightarrow> dict_get (duration_pair bf ff v) f = None"
  by (auto simp: duration_pair_def dict_get_Cons split: option.splits sum.splits)

lemma level_2_get [simp]:
  "dict_get (case l of None \<Rightarrow> [] | Some x \<Rightarrow> [(LEVEL_2, FFloat x)]) f = (if f = LEVEL_2 then map_option FFloat l else None)"
  by (cases l) (auto simp: dict_get_Cons)

lemma level_group_other [simp]: "f \<notin> {LEVEL, DURATION_BASE, DURATION_FACTOR} \<Longrightarrow> dict_get (level_group e) f = None"
  by (auto simp: level_group_def lock_fields_def dict_get_Cons split: option.splits lock_mode.splits prod.splits)

lemma time_read_back:
  assumes "h < 24" "m < 60"
  shows "TIME_PATTERN (convert_hour_minute_to_time (int h) (int m)) \<noteq> None"
    and "time_to_minutes (convert_hour_minute_to_time (int h) (int m)) = Inr (int h * 60 + int m)"
  using hour_minute_roundtrip [of "int h" "int m"] TIME_PATTERN_pad2 [of "int h" "int m"] assms
    convert_time_to_hour_minuteD(3) [of "convert_hour_minute_to_time (int h) (int m)" h m]
  by (simp_all add: convert_hour_minute_to_time_def)

lemma detect_lock_action_raw: "LOCK_ACTION_TO_RAW a = (l, b, f) \<Longrightarrow> detect_lock_action l b f = a"
  by (cases a) (auto simp: detect_lock_action_def)

lemma detect_lock_mode_set: "set cs = set cs' \<Longrightarrow> detect_lock_mode cs = detect_lock_mode cs'"
  by (simp add: detect_lock_mode_def list_ex_iff)

text \<open>The lock fields of an entry are recovered from the level and the duration they are coded as.\<close>

lemma lock_read_back:
  assumes "domain_ok CAT_LOCK e" and "locks_match CAT_LOCK e"
  obtains l b f where "level_group e = [(LEVEL, FFloat l), (DURATION_BASE, FInt b), (DURATION_FACTOR, FInt f)]"
    and "0 \<le> l" and "l \<le> 101 / 100"
    and "se_lock_action e = (if se_lock_mode e = Some DOOR_LOCK then Some (detect_lock_action l b f) else None)"
    and "se_permission e = (if se_lock_mode e = Some USER_PERMISSION then Some (detect_lock_permission l) else None)"
proof (cases "se_lock_mode e = Some DOOR_LOCK")
  case True
  then obtain a where a: "se_lock_action e = Some a" "se_permission e = None"
    using assms by auto
  obtain l b f where lbf: "LOCK_ACTION_TO_RAW a = (l, b, f)" by (cases "LOCK_ACTION_TO_RAW a")
  moreover have "0 \<le> l \<and> l \<le> 101 / 100"
    using lbf by (cases a) auto
  ultimately show ?thesis
    using True a by (intro that [of l b f]) (auto simp: level_group_def lock_fields_def detect_lock_action_raw)
next
  case False
  then obtain p where p: "se_permission e = Some p" "se_lock_action e = None" "se_lock_mode e = Some USER_PERMISSION"
    using assms by auto
  then show ?thesis
    by (intro that [of "LOCK_PERMISSION_TO_LEVEL p" 7 31]; cases p)
      (auto simp: level_group_def lock_fields_def detect_lock_permission_def)
qed

text \<open>A group as it is read once its fields that the device supports were sent.\<close>

definition received :: "schedule_field set \<Rightarrow> raw_group \<Rightarrow> raw_group \<Rightarrow> bool" where
  "received F g g' \<longleftrightarrow>
     (\<forall>f. dict_get g' f = (if f \<in> F then map_option (\<lambda>v. convert_raw_schedule_value f (encode_field f v)) (dict_get g f) else None))"

text \<open>The device supports the fields in which an entry differs from what a missing field reads as.\<close>

definition fits :: "schedule_field set \<Rightarrow> simple_entry \<Rightarrow> bool" where
  "fits F e \<longleftrightarrow>
     {WEEKDAY, FIXED_HOUR, FIXED_MINUTE, TARGET_CHANNELS, LEVEL} \<subseteq> F \<and>
     ({CONDITION, ASTRO_TYPE} \<subseteq> F \<or> se_condition e = FIXED_TIME) \<and> (ASTRO_OFFSET \<in> F \<or> se_astro_offset_minutes e = 0) \<and>
     (LEVEL_2 \<in> F \<or> se_level_2 e = None) \<and>
     ({DURATION_BASE, DURATION_FACTOR} \<subseteq> F \<or> se_duration e = None \<and> se_lock_mode e = None) \<and>
     ({RAMP_TIME_BASE, RAMP_TIME_FACTOR} \<subseteq> F \<or> se_ramp_time e = None)"

lemma received_duration:
  assumes "duration_ok v" and "{bf, ff} \<subseteq> F \<or> v = None" and "bf \<noteq> ff"
    and "bf \<notin> {LEVEL, LEVEL_2, WEEKDAY, TARGET_CHANNELS}" "ff \<notin> {LEVEL, LEVEL_2, WEEKDAY, TARGET_CHANNELS}"
    and "received F g g'" and "\<And>f. f \<in> {bf, ff} \<Longrightarrow> dict_get g f = dict_get (duration_pair bf ff v) f"
  obtains v' where "extract_duration (dict_get g' bf) (dict_get g' ff) = Inr v'" and "duration_ok v'"
    and "meant_ms v' = meant_ms v" and "v = None \<longrightarrow> v' = None"
proof -
  have "dict_get g' f = map_option (\<lambda>v. convert_raw_schedule_value f (encode_field f v)) (dict_get (duration_pair bf ff v) f)"
    if "f \<in> {bf, ff}" for f
    using assms(2,6,7) that by (auto simp: received_def duration_pair_def)
  with extract_duration_pair [OF assms(1,3,4,5)] that show thesis
    by auto
qed

lemma entry_roundtrip:
  assumes e: "entry_ok e" "domain_ok c e" "locks_match c e" and F: "fits F e"
    and g: "convert_simple_entry_to_raw_group e = Inr g" and g': "received F g g'"
  shows "\<exists>e'. convert_raw_group_to_simple_entry g' (Some c) = Inr e' \<and> same_entry e e'"
proof -
  obtain h m cs where hm: "h < 24" "m < 60" "time_to_minutes (se_time e) = Inr (int h * 60 + int m)"
    and cs: "map channel_text cs = se_target_channels e"
    and gg: "g = [(WEEKDAY, FDays (se_weekdays e)), (FIXED_HOUR, FInt (int h)), (FIXED_MINUTE, FInt (int m)),
             (CONDITION, FInt (condition_value (se_condition e))),
             (ASTRO_TYPE, FInt (astro_value (case se_astro_type e of None \<Rightarrow> SUNRISE | Some a \<Rightarrow> a))),
             (ASTRO_OFFSET, FInt (se_astro_offset_minutes e)), (TARGET_CHANNELS, FChans cs)] @
            level_group e @ (case se_level_2 e of None \<Rightarrow> [] | Some l \<Rightarrow> [(LEVEL_2, FFloat l)]) @
            duration_pair RAMP_TIME_BASE RAMP_TIME_FACTOR (se_ramp_time e)"
    using raw_group_eq [OF g e(1)] by metis
  let ?days = "filter (\<lambda>d. d \<in> set (se_weekdays e)) all_weekdays"
  let ?cs = "filter (\<lambda>c. c \<in> set cs) all_channels"
  have days: "?days \<noteq> []" and set_days: "set ?days = set (se_weekdays e)"
    using e(1) by (auto simp: entry_ok_def filter_empty_conv neq_Nil_conv)
  have set_cs: "set (map channel_text ?cs) = set (se_target_channels e)"
    using all_channels_mem by (auto simp flip: cs)
  have mode: "detect_lock_mode (map channel_text ?cs) = detect_lock_mode (se_target_channels e)"
    by (rule detect_lock_mode_set) (rule set_cs)
  have chan_ok: "list_all CHANNEL_PATTERN (map channel_text ?cs)"
    by (simp add: list_all_iff channel_text_pattern)
  note t = g' [unfolded received_def, rule_format]
  note F' = F [unfolded fits_def]
  have get: "dict_get g' WEEKDAY = Some (FDays ?days)" "else_int 0 (as_int (dict_get g' FIXED_HOUR)) = int h"
    "else_int 0 (as_int (dict_get g' FIXED_MINUTE)) = int m" "dict_get g' TARGET_CHANNELS = Some (FChans ?cs)"
    using F' by (simp_all add: t gg dict_get_Cons else_int_def as_int_def)
  have offset: "else_int 0 (as_int (dict_get g' ASTRO_OFFSET)) = se_astro_offset_minutes e"
    using F' by (auto simp: t gg dict_get_Cons else_int_def as_int_def)
  have cond: "enum_field condition_of FIXED_TIME (dict_get g' CONDITION) = Inr (se_condition e)"
    using F' by (auto simp: t gg dict_get_Cons enum_field_def enum_or_raise_def)
  define a where "a = (if ASTRO_TYPE \<in> F then (case se_astro_type e of None \<Rightarrow> SUNRISE | Some a \<Rightarrow> a) else SUNRISE)"
  have astro: "enum_field astro_of SUNRISE (dict_get g' ASTRO_TYPE) = Inr a"
    "se_condition e \<noteq> FIXED_TIME \<longrightarrow> se_astro_type e = Some a"
    using F' e(1) by (auto simp: a_def entry_ok_def t gg dict_get_Cons enum_field_def enum_or_raise_def split: option.splits)
  obtain r where ramp: "extract_ramp_time g' = Inr r" "duration_ok r" "meant_ms r = meant_ms (se_ramp_time e)"
    "se_ramp_time e = None \<longrightarrow> r = None"
  proof (rule received_duration [of "se_ramp_time e" RAMP_TIME_BASE RAMP_TIME_FACTOR F g g'])
    show "duration_ok (se_ramp_time e)" using e(1) by (simp add: entry_ok_def)
  qed (use F' g' that in \<open>auto simp: gg dict_get_Cons dict_get_append extract_ramp_time_def\<close>)
  have level_2: "map_option (\<lambda>l. max 0 (min 1 l)) (as_float (dict_get g' LEVEL_2)) = se_level_2 e"
    using e(1) F' by (cases "se_level_2 e") (auto simp: t gg dict_get_Cons dict_get_append entry_ok_def as_float_def)
  note common = convert_raw_group_to_simple_entry_def get days ramp(1,2)
    level_2 mode validate_entry_iff offset cond astro(1)
  show ?thesis
  proof (cases "c = CAT_LOCK")
    case True
    with e obtain l b f where lock: "level_group e = [(LEVEL, FFloat l), (DURATION_BASE, FInt b), (DURATION_FACTOR, FInt f)]"
      "0 \<le> l" "l \<le> 101 / 100"
      "se_lock_action e = (if se_lock_mode e = Some DOOR_LOCK then Some (detect_lock_action l b f) else None)"
      "se_permission e = (if se_lock_mode e = Some USER_PERMISSION then Some (detect_lock_permission l) else None)"
      using lock_read_back by metis
    have lm: "se_lock_mode e = Some (detect_lock_mode (se_target_channels e))"
      using True e(3) by (simp add: locks_match_def)
    then have "as_float (dict_get g' LEVEL) = Some l" "else_int 7 (as_int (dict_get g' DURATION_BASE)) = b"
      "else_int 31 (as_int (dict_get g' DURATION_FACTOR)) = f"
      using F' by (auto simp add: t gg lock(1) dict_get_Cons as_float_def else_int_def as_int_def)
    moreover have "se_level_2 e = None" "se_ramp_time e = None" "se_duration e = None"
      using True e(2) by auto
    ultimately show ?thesis
      using lock lm hm e(1) chan_ok set_days set_cs True ramp(3,4) astro(2)
      by (auto simp: common Let_def drop_if_def entry_ok_def same_entry_def meant_ms_def time_read_back duration_ok_def)
  next
    case False
    then have nolock: "se_lock_mode e = None" "se_lock_action e = None" "se_permission e = None"
      using e(3) by (auto simp: locks_match_def)
    obtain d where dur: "extract_duration (dict_get g' DURATION_BASE) (dict_get g' DURATION_FACTOR) = Inr d" "duration_ok d"
      "meant_ms d = meant_ms (se_duration e)" "se_duration e = None \<longrightarrow> d = None"
    proof (rule received_duration [of "se_duration e" DURATION_BASE DURATION_FACTOR F g g'])
      show "duration_ok (se_duration e)" using e(1) by (simp add: entry_ok_def)
      show "dict_get g f = dict_get (duration_pair DURATION_BASE DURATION_FACTOR (se_duration e)) f"
        if "f \<in> {DURATION_BASE, DURATION_FACTOR}" for f
        using that nolock by (auto simp: gg level_group_def dict_get_Cons dict_get_append option.case_eq_if)
    qed (use F' g' that in auto)
    have "as_float (dict_get g' LEVEL) = Some (se_level e)"
      using F' by (simp add: t gg level_group_def nolock dict_get_Cons dict_get_append as_float_def)
    moreover have "drop_if (''level_2'' \<in> DOMAIN_UNSUPPORTED_FIELDS c) (se_level_2 e) = se_level_2 e"
      "drop_if (''duration'' \<in> DOMAIN_UNSUPPORTED_FIELDS c) d = d" "drop_if (''ramp_time'' \<in> DOMAIN_UNSUPPORTED_FIELDS c) r = r"
      using e(2) ramp(4) dur(4) by (cases c; simp add: drop_if_def)+
    ultimately show ?thesis
      using nolock hm e(1) chan_ok set_days set_cs False dur(1-3) ramp(3) astro(2)
      by (auto simp: common Let_def entry_ok_def same_entry_def time_read_back)
  qed
qed

subsection \<open>The parameters sent\<close>

lemma put_group_get:
  assumes "dict_wf g" and "0 \<le> n" and "0 \<le> n'"
  shows "dict_get (put_group n g raw) (wp_key n' f) =
    (case (if n' = n then dict_get g f else None) of Some v \<Rightarrow> Some (encode_field f v) | None \<Rightarrow> dict_get raw (wp_key n' f))"
  using assms(1)
proof (induction g arbitrary: raw)
  case (Cons p g)
  obtain f' v where p: "p = (f', v)" by force
  have "dict_wf g" "dict_get g f' = None"
    using Cons.prems by (auto simp: dict_wf_def p dict_get_None_iff)
  with Cons.IH [of "dict_set (wp_key n f') (encode_field f' v) raw"] assms(2,3) show ?case
    by (auto simp: put_group_def p dict_get_Cons wp_key_inject split: option.splits)
qed (simp add: put_group_def)

lemma put_group_wf [simp]: "dict_wf raw \<Longrightarrow> dict_wf (put_group n g raw)"
  by (induction g arbitrary: raw) (auto simp: put_group_def split_beta)

definition group_of :: "simple_entry \<Rightarrow> raw_group" where
  "group_of e = (case convert_simple_entry_to_raw_group e of Inr g \<Rightarrow> g | Inl _ \<Rightarrow> [])"

lemma dict_wf_append:
  "dict_wf d \<Longrightarrow> dict_wf d' \<Longrightarrow> fst ` set d \<subseteq> A \<Longrightarrow> fst ` set d' \<subseteq> B \<Longrightarrow> A \<inter> B = {} \<Longrightarrow> dict_wf (d @ d')"
  by (auto simp: dict_wf_def)

lemma raw_group_wf:
  assumes "convert_simple_entry_to_raw_group e = Inr g" and "entry_ok e"
  shows "dict_wf g"
proof (rule raw_group_eq [OF assms])
  fix h m cs
  assume g: "g = [(WEEKDAY, FDays (se_weekdays e)), (FIXED_HOUR, FInt (int h)), (FIXED_MINUTE, FInt (int m)),
             (CONDITION, FInt (condition_value (se_condition e))),
             (ASTRO_TYPE, FInt (astro_value (case se_astro_type e of None \<Rightarrow> SUNRISE | Some a \<Rightarrow> a))),
             (ASTRO_OFFSET, FInt (se_astro_offset_minutes e)), (TARGET_CHANNELS, FChans cs)] @
            level_group e @ (case se_level_2 e of None \<Rightarrow> [] | Some l \<Rightarrow> [(LEVEL_2, FFloat l)]) @
            duration_pair RAMP_TIME_BASE RAMP_TIME_FACTOR (se_ramp_time e)"
  have pair: "dict_wf (duration_pair bf ff v)" "fst ` set (duration_pair bf ff v) \<subseteq> {bf, ff}" if "bf \<noteq> ff" for bf ff v
    using that by (auto simp: duration_pair_def dict_wf_def split: option.splits sum.splits)
  let ?l = "level_group e" and ?r = "duration_pair RAMP_TIME_BASE RAMP_TIME_FACTOR (se_ramp_time e)"
  let ?l2 = "case se_level_2 e of None \<Rightarrow> [] | Some l \<Rightarrow> [(LEVEL_2, FFloat l)]"
  have level: "dict_wf ?l" "fst ` set ?l \<subseteq> {LEVEL, DURATION_BASE, DURATION_FACTOR}"
    using pair [of DURATION_BASE DURATION_FACTOR "se_duration e"]
    by (auto simp: level_group_def lock_fields_def dict_wf_def split: option.splits lock_mode.splits prod.splits)
  have level_2: "dict_wf ?l2" "fst ` set ?l2 \<subseteq> {LEVEL_2}"
    by (auto simp: dict_wf_def split: option.splits)
  have "dict_wf (?l2 @ ?r)"
    by (rule dict_wf_append [OF level_2(1) pair(1) level_2(2) pair(2)]) simp_all
  moreover have sub: "fst ` set (?l2 @ ?r) \<subseteq> {LEVEL_2, RAMP_TIME_BASE, RAMP_TIME_FACTOR}"
    using level_2 pair(2) [of RAMP_TIME_BASE RAMP_TIME_FACTOR "se_ramp_time e"] by auto
  ultimately have all: "dict_wf (?l @ ?l2 @ ?r)"
    by (rule dict_wf_append [OF level(1) _ level(2)]) simp
  have sub_all: "fst ` set (?l @ ?l2 @ ?r) \<subseteq> {LEVEL, DURATION_BASE, DURATION_FACTOR, LEVEL_2, RAMP_TIME_BASE, RAMP_TIME_FACTOR}"
    using level(2) sub by auto
  show "dict_wf g"
    unfolding g by (rule dict_wf_append [OF _ all order_refl sub_all]) (simp_all add: dict_wf_def)
qed

lemma put_groups_get:
  assumes "put_groups S raw = Inr raw'" and "dict_wf S" and "list_all (\<lambda>(n, e). 0 \<le> n \<and> entry_ok e) S" and "0 \<le> n"
  shows "dict_get raw' (wp_key n f) =
    (case (case dict_get S n of None \<Rightarrow> None | Some e \<Rightarrow> dict_get (group_of e) f) of
       Some v \<Rightarrow> Some (encode_field f v) | None \<Rightarrow> dict_get raw (wp_key n f))"
  using assms(1-3)
proof (induction S arbitrary: raw)
  case (Cons p S)
  obtain n' e where p: "p = (n', e)" by force
  obtain g where g: "convert_simple_entry_to_raw_group e = Inr g" and rest: "put_groups S (put_group n' g raw) = Inr raw'"
    using Cons.prems(1) by (auto simp: p res_bind_Inr_iff)
  have S: "dict_wf S" "dict_get S n' = None" "0 \<le> n'" "dict_wf g"
    using Cons.prems(2,3) raw_group_wf [OF g] by (auto simp: dict_wf_def p dict_get_None_iff)
  moreover have "list_all (\<lambda>(n, e). 0 \<le> n \<and> entry_ok e) S"
    using Cons.prems(3) by simp
  ultimately show ?case
    using Cons.IH [OF rest S(1)] assms(4) by (auto simp: p dict_get_Cons put_group_get group_of_def g split: option.splits)
qed simp

lemma put_groups_converts: "put_groups S raw = Inr raw' \<Longrightarrow> (n, e) \<in> set S \<Longrightarrow> \<exists>g. convert_simple_entry_to_raw_group e = Inr g"
  by (induction S raw rule: put_groups.induct) (auto simp: res_bind_Inr_iff)

lemma put_groups_wf: "put_groups S raw = Inr raw' \<Longrightarrow> dict_wf raw \<Longrightarrow> dict_wf raw'"
  by (induction S arbitrary: raw) (auto simp: res_bind_Inr_iff)

lemma clear_groups_get:
  assumes "0 \<le> n"
  shows "dict_get (clear_groups S raw) (wp_key n f) =
    (if 1 \<le> n \<and> n \<le> 24 \<and> dict_get S n = None \<and> f \<in> {WEEKDAY, TARGET_CHANNELS} then Some (RInt 0) else dict_get raw (wp_key n f))"
proof -
  have "dict_get (foldl (\<lambda>raw n. if dict_get S n = None
                     then dict_set (wp_key n TARGET_CHANNELS) (RInt 0) (dict_set (wp_key n WEEKDAY) (RInt 0) raw) else raw) raw ns) (wp_key n f) =
        (if n \<in> set ns \<and> dict_get S n = None \<and> f \<in> {WEEKDAY, TARGET_CHANNELS} then Some (RInt 0) else dict_get raw (wp_key n f))"
    if "\<forall>k \<in> set ns. 0 \<le> k" for ns
    using that by (induction ns arbitrary: raw) (auto simp: wp_key_inject assms)
  from this [of "[1..24]"] show ?thesis by (simp add: clear_groups_def)
qed

lemma clear_groups_wf: "dict_wf raw \<Longrightarrow> dict_wf (clear_groups S raw)"
proof -
  have "dict_wf raw \<Longrightarrow> dict_wf (foldl (\<lambda>raw n. if dict_get S n = None
          then dict_set (wp_key n TARGET_CHANNELS) (RInt 0) (dict_set (wp_key n WEEKDAY) (RInt 0) raw) else raw) raw ns)" for ns
    by (induction ns arbitrary: raw) auto
  then show "dict_wf raw \<Longrightarrow> dict_wf (clear_groups S raw)" by (simp add: clear_groups_def)
qed

subsection \<open>The parameters read\<close>

lemma wp_text:
  assumes "list_all is_digit ds"
  shows "takeWhile is_digit (ds @ ''_WP_'' @ r) = ds" and "dropWhile is_digit (ds @ ''_WP_'' @ r) = ''_WP_'' @ r"
    and "split_max CHR ''_'' 2 (ds @ ''_WP_'' @ r) = [ds, ''WP'', r]"
proof -
  have no: "\<not> is_digit CHR ''_''" by (simp add: is_digit_def code_def)
  then show "takeWhile is_digit (ds @ ''_WP_'' @ r) = ds" "dropWhile is_digit (ds @ ''_WP_'' @ r) = ''_WP_'' @ r"
    using assms by (simp_all add: takeWhile_append dropWhile_append list_all_iff)
  have "CHR ''_'' \<notin> set ds"
    using assms no by (auto simp: list_all_iff)
  then have "split_max CHR ''_'' (Suc (Suc 0)) (ds @ CHR ''_'' # ''WP'' @ CHR ''_'' # r) = [ds, ''WP'', r]"
    by (simp add: takeWhile_sep dropWhile_sep)
  then show "split_max CHR ''_'' 2 (ds @ ''_WP_'' @ r) = [ds, ''WP'', r]"
    by (simp add: numeral_2_eq_2)
qed

lemma schedule_pattern_text:
  assumes "list_all is_digit ds" and "ds \<noteq> []"
  shows "SCHEDULE_PATTERN (ds @ ''_WP_'' @ r) = Some (length ds + 4)" and "schedule_field_of (ds @ ''_WP_'' @ r) = field_of_name r"
proof -
  show "SCHEDULE_PATTERN (ds @ ''_WP_'' @ r) = Some (length ds + 4)"
    unfolding SCHEDULE_PATTERN_def wp_text [OF assms(1)] using assms(2) by (simp add: starts_with_def)
  then show "schedule_field_of (ds @ ''_WP_'' @ r) = field_of_name r"
    unfolding schedule_field_of_def by simp
qed

lemma schedule_pattern_SomeD:
  assumes "SCHEDULE_PATTERN k \<noteq> None"
  obtains ds r where "list_all is_digit ds" and "ds \<noteq> []" and "k = ds @ ''_WP_'' @ r"
proof -
  let ?ds = "takeWhile is_digit k" and ?r = "dropWhile is_digit k"
  have "?ds \<noteq> []" and wp: "take 4 ?r = ''_WP_''"
    using assms by (auto simp: SCHEDULE_PATTERN_def starts_with_def Let_def numeral_eq_Suc split: if_splits)
  moreover have "k = ?ds @ ''_WP_'' @ drop 4 ?r"
    using append_take_drop_id [of 4 ?r] unfolding wp by simp
  moreover have "list_all is_digit ?ds"
    by (auto simp: list_all_iff dest: set_takeWhileD)
  ultimately show thesis using that by blast
qed

text \<open>Parameters of other names are passed over.\<close>

lemma add_param_other:
  assumes "SCHEDULE_PATTERN k \<noteq> None" and "schedule_field_of k = None"
  shows "add_param groups (k, v) = groups"
proof -
  obtain ds r where "list_all is_digit ds" "ds \<noteq> []" and k: "k = ds @ ''_WP_'' @ r"
    using schedule_pattern_SomeD [OF assms(1)] .
  then have "split_max CHR ''_'' 2 k = [ds, ''WP'', r]" "field_of_name r = None"
    using assms(2) wp_text(3) schedule_pattern_text(2) by (metis k)+
  then show ?thesis by (auto simp: add_param_def split: option.splits)
qed

lemma schedule_key [simp]:
  "0 \<le> n \<Longrightarrow> SCHEDULE_PATTERN (wp_key n f) \<noteq> None" "0 \<le> n \<Longrightarrow> schedule_field_of (wp_key n f) = Some f"
  using schedule_pattern_text [OF pad2_digits pad2_nonempty, of n "field_name f"] by (simp_all add: wp_key_def)

lemma add_params_filter:
  "list_all (\<lambda>(k, v). SCHEDULE_PATTERN k \<noteq> None) raw \<Longrightarrow>
   foldl add_param groups raw = foldl add_param groups (filter (\<lambda>(k, v). schedule_field_of k \<noteq> None) raw)"
proof (induction raw arbitrary: groups)
  case (Cons p raw)
  then show ?case
    using add_param_other [of "fst p" groups "snd p"] by (cases p) auto
qed simp

text \<open>The entry of a group is the reading of its fields, where they are active and can be converted.\<close>

lemma dict_get_map_filter:
  "dict_wf d \<Longrightarrow> dict_get (List.map_filter (\<lambda>(k, v). map_option (Pair k) (f v)) d) k =
     (case dict_get d k of None \<Rightarrow> None | Some v \<Rightarrow> f v)"
proof (induction d)
  case (Cons p d)
  obtain k' v where p: "p = (k', v)" by force
  have "dict_wf d" "dict_get d k' = None"
    using Cons.prems by (auto simp: dict_wf_def p dict_get_None_iff)
  with Cons.IH show ?case
    by (cases "f v") (auto simp: p map_filter_simps dict_get_Cons)
qed (simp add: map_filter_simps)

definition read_group :: "category option \<Rightarrow> raw_group \<Rightarrow> simple_entry option" where
  "read_group domain g =
     (if is_schedule_active g
      then (case convert_raw_group_to_simple_entry g domain of Inr e \<Rightarrow> Some e | Inl _ \<Rightarrow> None) else None)"

lemma group_entries_eq: "group_entries domain groups = List.map_filter (\<lambda>(n, g). map_option (Pair n) (read_group domain g)) groups"
  unfolding group_entries_def
  by (rule arg_cong [where f = "\<lambda>f. List.map_filter f groups"]) (auto simp: fun_eq_iff read_group_def split: sum.splits)

lemma group_entries_get:
  "dict_wf groups \<Longrightarrow> dict_get (group_entries domain groups) n =
     (case dict_get groups n of None \<Rightarrow> None | Some g \<Rightarrow> read_group domain g)"
  by (simp add: group_entries_eq dict_get_map_filter)

lemma map_filter_keys: "fst ` set (List.map_filter (\<lambda>(k, v). map_option (Pair k) (f v)) d) \<subseteq> fst ` set d"
  by (force simp: map_filter_def)

lemma map_filter_mem:
  "(k, y) \<in> set (List.map_filter (\<lambda>(k, v). map_option (Pair k) (f v)) d) \<Longrightarrow> \<exists>v. f v = Some y"
  by (induction d) (auto simp: map_filter_simps split: option.splits)

lemma map_filter_wf: "dict_wf d \<Longrightarrow> dict_wf (List.map_filter (\<lambda>(k, v). map_option (Pair k) (f v)) d)"
proof (induction d)
  case (Cons p d)
  then show ?case
    using map_filter_keys [of f d] by (cases p; cases "f (snd p)") (auto simp: map_filter_simps dict_wf_def)
qed (simp add: map_filter_simps)

text \<open>A schedule channel: groups 1 to 24, and any other parameters.\<close>

definition channel_ok :: "(string, raw_value) dict \<Rightarrow> bool" where
  "channel_ok D \<longleftrightarrow> dict_wf D \<and> (\<forall>k \<in> fst ` set D. schedule_field_of k = None \<or> (\<exists>n f. 1 \<le> n \<and> n \<le> 24 \<and> k = wp_key n f))"

lemma read_schedule:
  assumes "channel_ok raw"
  obtains S G where "convert_raw_to_dict_schedule (convert_schedule_entries raw) domain = Inr S" and "dict_wf S"
    and "\<And>n f. 0 \<le> n \<Longrightarrow> dict_get (G n) f = map_option (convert_raw_schedule_value f) (dict_get raw (wp_key n f))"
    and "\<And>n. dict_get S n = read_group domain (G n)" and "\<And>n. n < 1 \<or> 24 < n \<Longrightarrow> dict_get S n = None"
proof -
  let ?raw = "filter (\<lambda>(k, v). schedule_field_of k \<noteq> None) raw"
  define groups where "groups = foldl add_param [] ?raw"
  define G where "G n = (case dict_get groups n of None \<Rightarrow> [] | Some g \<Rightarrow> g)" for n
  have eq: "foldl add_param [] (convert_schedule_entries raw) = groups"
    unfolding groups_def convert_schedule_entries_def
    by (subst add_params_filter) (auto simp: list_all_iff filter_filter schedule_field_of_def intro!: arg_cong [where f = "foldl add_param []"] filter_cong split: option.splits)
  have "\<exists>n f. 0 \<le> n \<and> k = wp_key n f" if "(k, v) \<in> set ?raw" for k v
  proof -
    have "k \<in> fst ` set raw" "schedule_field_of k \<noteq> None"
      using that by force+
    then obtain n f where "1 \<le> n" "k = wp_key n f"
      using bspec [OF conjunct2 [OF assms [unfolded channel_ok_def]], of k] by auto
    then show ?thesis by (intro exI [of _ n] exI [of _ f]) simp
  qed
  then have ok: "wp_raw_ok ?raw"
    using assms by (auto simp: wp_raw_ok_def channel_ok_def list_all_iff)
  have get_raw: "dict_get ?raw (wp_key n f) = dict_get raw (wp_key n f)" if "0 \<le> n" for n f
    using that by (induction raw) (auto simp: dict_get_Cons)
  note look = add_params_lookup [OF ok dict_wf_Nil]
  have wf: "dict_wf groups"
    using look(1) by (simp add: groups_def)
  have G: "dict_get (G n) f = group_field groups n f" for n f
    by (simp add: G_def group_field_def split: option.splits)
  show thesis
  proof (rule that [of "group_entries domain groups" G])
    show fields: "dict_get (G n) f = map_option (convert_raw_schedule_value f) (dict_get raw (wp_key n f))" if "0 \<le> n" for n f
      unfolding G groups_def look(2) [OF that] get_raw [OF that] by (simp add: group_field_def split: option.splits)
    show entries: "dict_get (group_entries domain groups) n = read_group domain (G n)" for n
      by (simp add: group_entries_get [OF wf] G_def read_group_def is_schedule_active_def split: option.splits)
    show none: "dict_get (group_entries domain groups) n = None" if "n < 1 \<or> 24 < n" for n
    proof -
      have "dict_get (G n) WEEKDAY = None"
      proof (cases "0 \<le> n")
        case True
        then have "wp_key n WEEKDAY \<notin> fst ` set raw"
          using assms that by (force simp: channel_ok_def wp_key_inject)
        then show ?thesis using fields [OF True] by (simp add: dict_get_None_iff)
      next
        case False
        then show ?thesis using look(3) [of n WEEKDAY] by (simp add: G groups_def group_field_def)
      qed
      then show ?thesis by (simp add: entries read_group_def is_schedule_active_def)
    qed
    show "dict_wf (group_entries domain groups)"
      unfolding group_entries_eq by (rule map_filter_wf [OF wf])
    have "1 \<le> n \<and> n \<le> 24" if "(n, e) \<in> set (group_entries domain groups)" for n e
      using that none [of n] dict_get_Some_iff [OF \<open>dict_wf (group_entries domain groups)\<close>, of n e] by force
    then show "convert_raw_to_dict_schedule (convert_schedule_entries raw) domain = Inr (group_entries domain groups)"
      unfolding convert_raw_to_dict_schedule_def eq validate_entry_keys_def by (auto simp: list_all_iff)
  qed
qed

subsection \<open>Round trip\<close>

lemma res_list_all: "res_list rs = Inr xs \<longleftrightarrow> rs = map Inr xs"
  by (induction rs arbitrary: xs) (auto simp: res_bind_Inr_iff Cons_eq_map_conv)

lemma validate_schedule_iff:
  "validate_schedule (Some c) S = Inr S' \<longleftrightarrow>
     S' = S \<and> list_all (\<lambda>(n, e). 1 \<le> n \<and> n \<le> 24 \<and> entry_ok e \<and> domain_ok c e) S"
proof -
  have "(\<exists>xs. map (\<lambda>(n, e). validate_domain_constraints (Some c) e) S = map Inr xs) \<longleftrightarrow>
        list_all (\<lambda>(n, e). entry_ok e \<and> domain_ok c e) S"
  proof (induction S)
    case (Cons p S)
    obtain n e where p: "p = (n, e)" by force
    show ?case
      using Cons validate_domain_iff [of c e] by (auto simp: p Cons_eq_map_conv map_eq_Cons_conv)
  qed simp
  then show ?thesis
    by (auto simp: validate_schedule_def res_bind_Inr_iff res_list_all validate_entry_keys_def list_all_iff split: if_splits)
qed

lemma dict_get_filter: "dict_get (filter (\<lambda>(k, v). P k) d) k = (if P k then dict_get d k else None)"
  by (induction d) (auto simp: dict_get_Cons)

lemma filter_supported_get:
  assumes "0 \<le> n"
  shows "dict_get (filter_raw_schedule_by_supported_fields F (convert_schedule_entries raw)) (wp_key n f) =
     (if F = {} \<or> f \<in> F then dict_get raw (wp_key n f) else None)"
  using assms unfolding filter_raw_schedule_by_supported_fields_def convert_schedule_entries_def
  by (simp add: dict_get_filter del: filter_filter)

definition wp_keys :: "(string, raw_value) dict \<Rightarrow> bool" where
  "wp_keys raw \<longleftrightarrow> (\<forall>k \<in> fst ` set raw. \<exists>n f. 1 \<le> n \<and> n \<le> 24 \<and> k = wp_key n f)"

lemma wp_keys_set [simp]: "1 \<le> n \<Longrightarrow> n \<le> 24 \<Longrightarrow> wp_keys raw \<Longrightarrow> wp_keys (dict_set (wp_key n f) v raw)"
  using set_dict_keys_set [of "wp_key n f" v raw] by (auto simp: wp_keys_def dict_keys_def)

lemma wp_keys_put_group: "1 \<le> n \<Longrightarrow> n \<le> 24 \<Longrightarrow> wp_keys raw \<Longrightarrow> wp_keys (put_group n g raw)"
  by (induction g arbitrary: raw) (auto simp: put_group_def split_beta)

lemma wp_keys_put_groups:
  "put_groups S raw = Inr raw' \<Longrightarrow> list_all (\<lambda>(n, e). 1 \<le> n \<and> n \<le> 24) S \<Longrightarrow> wp_keys raw \<Longrightarrow> wp_keys raw'"
  by (induction S arbitrary: raw) (auto simp: res_bind_Inr_iff wp_keys_put_group)

lemma wp_keys_clear_groups: "wp_keys raw \<Longrightarrow> wp_keys (clear_groups S raw)"
proof -
  have "wp_keys raw \<Longrightarrow> \<forall>n \<in> set ns. 1 \<le> n \<and> n \<le> 24 \<Longrightarrow> wp_keys (foldl (\<lambda>raw n. if dict_get S n = None
          then dict_set (wp_key n TARGET_CHANNELS) (RInt 0) (dict_set (wp_key n WEEKDAY) (RInt 0) raw) else raw) raw ns)" for ns
    by (induction ns arbitrary: raw) auto
  then show "wp_keys raw \<Longrightarrow> wp_keys (clear_groups S raw)" by (simp add: clear_groups_def)
qed

definition sent_fields :: "default_week_profile \<Rightarrow> schedule_field set" where
  "sent_fields wp =
     (let F = extract_supported_schedule_fields (dwp_master_paramset wp) in if F = {} then UNIV else F)"

text \<open>What is sent for a schedule: the fields of its entries, and zeros for the other groups.\<close>

lemma set_schedule_sends:
  assumes "wp_set_schedule S wp = Inr vals" and "dict_wf S"
  shows "dict_wf vals" and "wp_keys vals" and "list_all (\<lambda>(n, e). 1 \<le> n \<and> n \<le> 24 \<and> entry_ok e \<and> domain_ok (dwp_category wp) e) S"
    and "dwp_schedule_channel_address wp \<noteq> None"
    and "(n, e) \<in> set S \<Longrightarrow> \<exists>g. convert_simple_entry_to_raw_group e = Inr g"
    and "0 \<le> n \<Longrightarrow> dict_get vals (wp_key n f) = (if f \<in> sent_fields wp then
           (case dict_get S n of
              Some e \<Rightarrow> map_option (encode_field f) (dict_get (group_of e) f)
            | None \<Rightarrow> if 1 \<le> n \<and> n \<le> 24 \<and> f \<in> {WEEKDAY, TARGET_CHANNELS} then Some (RInt 0) else None) else None)"
proof -
  let ?F = "extract_supported_schedule_fields (dwp_master_paramset wp)"
  obtain raw where addr: "dwp_schedule_channel_address wp \<noteq> None" and valid: "validate_schedule (Some (dwp_category wp)) S = Inr S"
    and put: "put_groups S [] = Inr raw"
    and vals: "vals = filter_raw_schedule_by_supported_fields ?F (convert_schedule_entries (clear_groups S raw))"
    using assms(1) by (auto simp: wp_set_schedule_def convert_dict_to_raw_schedule_def res_bind_Inr_iff validate_schedule_iff split: if_splits)
  have S: "list_all (\<lambda>(n, e). 1 \<le> n \<and> n \<le> 24 \<and> entry_ok e \<and> domain_ok (dwp_category wp) e) S"
    using valid by (simp add: validate_schedule_iff)
  have sub: "set vals \<subseteq> set (clear_groups S raw)"
    by (auto simp: vals filter_raw_schedule_by_supported_fields_def convert_schedule_entries_def)
  have wf: "dict_wf (clear_groups S raw)"
    using clear_groups_wf put_groups_wf [OF put] by simp
  show "dwp_schedule_channel_address wp \<noteq> None" by (rule addr)
  show "list_all (\<lambda>(n, e). 1 \<le> n \<and> n \<le> 24 \<and> entry_ok e \<and> domain_ok (dwp_category wp) e) S" by (rule S)
  show "dict_wf vals"
    using wf by (simp add: vals filter_raw_schedule_by_supported_fields_def convert_schedule_entries_def)
  have "list_all (\<lambda>(n, e). 1 \<le> n \<and> n \<le> 24) S" using S by (auto simp: list_all_iff)
  then have "wp_keys (clear_groups S raw)"
    using wp_keys_clear_groups [OF wp_keys_put_groups [OF put]] by (simp add: wp_keys_def)
  with sub show "wp_keys vals" unfolding wp_keys_def by blast
  have "list_all (\<lambda>(n, e). 0 \<le> n \<and> entry_ok e) S" using S by (auto simp: list_all_iff)
  from put_groups_get [OF put assms(2) this]
  show "dict_get vals (wp_key n f) = (if f \<in> sent_fields wp then
           (case dict_get S n of
              Some e \<Rightarrow> map_option (encode_field f) (dict_get (group_of e) f)
            | None \<Rightarrow> if 1 \<le> n \<and> n \<le> 24 \<and> f \<in> {WEEKDAY, TARGET_CHANNELS} then Some (RInt 0) else None) else None)"
    if "0 \<le> n"
    unfolding vals filter_supported_get [OF that] clear_groups_get [OF that]
    using that by (auto simp: sent_fields_def Let_def split: option.splits)
  show "\<exists>g. convert_simple_entry_to_raw_group e = Inr g" if "(n, e) \<in> set S"
    using put_groups_converts [OF put that] .
qed

text \<open>The state of the device once the schedule was sent.\<close>

lemma channel_ok_put:
  assumes "channel_ok D" and "dict_wf vals" and "wp_keys vals"
  shows "channel_ok (put_paramset_values vals D)"
proof -
  have "fst ` set (put_paramset_values vals D) \<subseteq> fst ` set vals \<union> fst ` set D"
    using image_mono [OF put_values_set [of vals D], of fst] by (simp add: image_Un)
  moreover have "dict_wf (put_paramset_values vals D)"
    using put_values_wf assms(1) by (simp add: channel_ok_def)
  ultimately show ?thesis
    using assms(1,3) unfolding channel_ok_def wp_keys_def by (meson Un_iff subsetD)
qed

definition not_stale :: "simple_schedule \<Rightarrow> (string, raw_value) dict \<Rightarrow> (string, raw_value) dict \<Rightarrow> bool" where
  "not_stale S vals D \<longleftrightarrow> (\<forall>n \<in> fst ` set S. \<forall>f. dict_get D (wp_key n f) \<noteq> None \<longrightarrow> dict_get vals (wp_key n f) \<noteq> None)"

lemma group_of_weekday:
  assumes "convert_simple_entry_to_raw_group e = Inr g" and "entry_ok e"
  shows "dict_get g WEEKDAY = Some (FDays (se_weekdays e))"
  by (rule raw_group_eq [OF assms]) (simp add: dict_get_Cons)

lemma read_group_received:
  assumes "entry_ok e" "domain_ok c e" "locks_match c e" "fits F e"
    and g: "convert_simple_entry_to_raw_group e = Inr g" and g': "received F g g'"
  shows "rel_option same_entry (Some e) (read_group (Some c) g')"
proof -
  obtain e' where e': "convert_raw_group_to_simple_entry g' (Some c) = Inr e'" "same_entry e e'"
    using entry_roundtrip [OF assms] by blast
  have "dict_get g' WEEKDAY = Some (FDays (filter (\<lambda>d. d \<in> set (se_weekdays e)) all_weekdays))"
    using assms(4) g' group_of_weekday [OF g assms(1)] by (simp add: received_def fits_def)
  moreover have "filter (\<lambda>d. d \<in> set (se_weekdays e)) all_weekdays \<noteq> []"
    using assms(1) by (auto simp: entry_ok_def filter_empty_conv neq_Nil_conv)
  ultimately show ?thesis
    using e' by (simp add: read_group_def is_schedule_active_def)
qed

text \<open>Reading a channel gives for every group what its parameters read as.\<close>

lemma get_schedule_reads:
  assumes "channel_ok raw" and "dwp_schedule_channel_address wp \<noteq> None"
    and "0 \<le> n" and "dict_get raw (wp_key n f) \<noteq> None"
  obtains S G where "wp_get_schedule True (WpParamset raw) wp = Inr (S, wp\<lparr>dwp_schedule_cache := S\<rparr>)"
    and "\<And>n f. 0 \<le> n \<Longrightarrow> dict_get (G n) f = map_option (convert_raw_schedule_value f) (dict_get raw (wp_key n f))"
    and "\<And>n. dict_get S n = read_group (Some (dwp_category wp)) (G n)" and "\<And>n. n < 1 \<or> 24 < n \<Longrightarrow> dict_get S n = None"
    and "dict_wf S"
proof -
  have "convert_schedule_entries raw \<noteq> []"
    using dict_get_filter [of "\<lambda>k. SCHEDULE_PATTERN k \<noteq> None" raw "wp_key n f"] assms(3,4)
    by (auto simp: convert_schedule_entries_def)
  then have "wp_get_raw_schedule (WpParamset raw) wp = Inr (convert_schedule_entries raw)"
    using assms(2) by (auto simp: wp_get_raw_schedule_def split: list.splits)
  then show thesis
    using assms(2) by (rule_tac read_schedule [OF assms(1), of "Some (dwp_category wp)"], rule_tac that)
      (simp_all add: wp_get_schedule_def wp_reload_and_cache_schedule_def)
qed

lemma sent_weekday:
  assumes "wp_set_schedule S wp = Inr vals" and "dict_wf S" and "WEEKDAY \<in> sent_fields wp" and "1 \<le> n" "n \<le> 24"
  shows "dict_get vals (wp_key n WEEKDAY) \<noteq> None"
  using set_schedule_sends(3,5,6) [OF assms(1,2)] assms(3-5) group_of_weekday
  by (fastforce simp: group_of_def list_all_iff dest: dict_get_in_set split: option.splits)


definition sample_profile :: default_week_profile where
  "sample_profile = \<lparr>dwp_schedule_cache = [], dwp_schedule_channel_address = Some ''VCU0000001:9'', dwp_category = CAT_SWITCH,
     dwp_master_paramset = []\<rparr>"

definition sample_entry :: "string option \<Rightarrow> simple_entry" where
  "sample_entry d =
     \<lparr>se_weekdays = [FRIDAY, MONDAY], se_time = ''07:30'', se_condition = FIXED_TIME, se_astro_type = None,
      se_astro_offset_minutes = 0, se_target_channels = [''1_1''], se_level = 1, se_level_2 = None, se_duration = d,
      se_ramp_time = None, se_lock_mode = None, se_lock_action = None, se_permission = None\<rparr>"

lemma sample_duration: "convert_duration_to_base_factor ''10s'' = Inr (SEC_1, 10)"
  by (simp add: duration_eval)

lemma sample_time: "TIME_PATTERN ''07:30'' = Some (''07'', ''30'')"
  by (simp add: TIME_PATTERN_def Let_def at_end_def is_digit_def code_def)

lemma sample_ok:
  assumes "d \<in> {None, Some ''10s''}"
  shows "entry_ok (sample_entry d)" and "\<exists>g. convert_simple_entry_to_raw_group (sample_entry d) = Inr g"
    and "domain_ok CAT_SWITCH (sample_entry d)" and "locks_match CAT_SWITCH (sample_entry d)" and "fits UNIV (sample_entry d)"
proof -
  have chan: "channel_of_text ''1_1'' = Some CHANNEL_1_1"
    using channel_of_text [of CHANNEL_1_1] by simp
  have "duration_ok d"
    using assms sample_duration by (auto simp: duration_ok_def)
  then show "entry_ok (sample_entry d)"
    using channel_text_pattern [of CHANNEL_1_1] by (simp add: entry_ok_def sample_entry_def sample_time duration_ok_def)
  show "\<exists>g. convert_simple_entry_to_raw_group (sample_entry d) = Inr g"
    using assms sample_duration by (auto simp: convert_simple_entry_to_raw_group_def sample_entry_def convert_time_to_hour_minute_def
        sample_time convert_list_to_channels_def chan duration_fields_def)
qed (simp_all add: sample_entry_def locks_match_def fits_def)

lemma sample_sent: "sent_fields sample_profile = UNIV"
  by (simp add: sent_fields_def sample_profile_def extract_supported_schedule_fields_def map_filter_simps)

lemma sample_category: "dwp_category sample_profile = CAT_SWITCH"
  by (simp add: sample_profile_def)

lemma sample_set:
  assumes "d \<in> {None, Some ''10s''}"
  obtains vals where "wp_set_schedule [(1, sample_entry d)] sample_profile = Inr vals"
  using sample_ok [OF assms]
  by (auto simp: wp_set_schedule_def sample_profile_def res_bind_Inr_iff convert_dict_to_raw_schedule_def
      validate_schedule_iff [THEN iffD2])

definition sample_device :: "(string, raw_value) dict" where
  "sample_device = [(wp_key 1 WEEKDAY, RInt 64), (wp_key 2 WEEKDAY, RInt 127), (''DURATION_5_MIN'', RInt 1)]"

lemma schedule_field_of_other: "schedule_field_of ''DURATION_5_MIN'' = None"
  by (simp add: schedule_field_of_def SCHEDULE_PATTERN_def is_digit_def code_def Let_def)

lemma other_key [simp]: "0 \<le> n \<Longrightarrow> wp_key n f \<noteq> ''DURATION_5_MIN''"
  using schedule_key(2) [of n f] schedule_field_of_other by (metis option.distinct(1))

lemma is_group_key [intro]: "1 \<le> n \<Longrightarrow> n \<le> 24 \<Longrightarrow> \<exists>m h. 1 \<le> m \<and> m \<le> 24 \<and> wp_key n f = wp_key m h"
  by blast

lemma sample_device_ok: "channel_ok sample_device"
  using is_group_key [of 1 WEEKDAY] is_group_key [of 2 WEEKDAY] schedule_field_of_other
  by (simp add: channel_ok_def sample_device_def dict_wf_def wp_key_inject)


subsection \<open>What an entry keeps of a device\<close>

lemma raw_group_with_duration:
  assumes "convert_simple_entry_to_raw_group e = Inr g" and "se_lock_mode e = None" and "se_duration e = None"
    and "convert_duration_to_base_factor d = Inr (b, f)"
  obtains g' where "convert_simple_entry_to_raw_group (e\<lparr>se_duration := Some d\<rparr>) = Inr g'"
    and "\<And>h. dict_get g' h = (if h = DURATION_BASE then Some (FInt (time_base_value b))
                           else if h = DURATION_FACTOR then Some (FInt (int f)) else dict_get g h)"
    and "dict_get g DURATION_BASE = None" and "dict_get g DURATION_FACTOR = None"
proof -
  obtain hr mi cs ramp where parts: "convert_time_to_hour_minute (se_time e) = Inr (hr, mi)"
    "convert_list_to_channels (se_target_channels e) = Inr cs"
    "duration_fields RAMP_TIME_BASE RAMP_TIME_FACTOR (se_ramp_time e) = Inr ramp"
    using assms(1,2) by (auto simp: convert_simple_entry_to_raw_group_def res_bind_Inr_iff)
  have "dict_get ramp h = None" if "h \<notin> {RAMP_TIME_BASE, RAMP_TIME_FACTOR}" for h
    using that parts(3) by (auto simp: duration_fields_def res_bind_Inr_iff dict_get_Cons split: option.splits)
  moreover have "duration_fields DURATION_BASE DURATION_FACTOR None = Inr []"
    "duration_fields DURATION_BASE DURATION_FACTOR (Some d) =
       Inr [(DURATION_BASE, FInt (time_base_value b)), (DURATION_FACTOR, FInt (int f))]"
    using assms(4) by (simp_all add: duration_fields_def)
  ultimately show thesis
    using assms(1-3) by (intro that) (auto simp: convert_simple_entry_to_raw_group_def parts dict_get_Cons dict_get_append)
qed

text \<open>
  An entry without a duration does not take the duration away that the device holds for its
  group. The fields of a missing duration are not sent, the device keeps them, and the entry that
  \<open>get_schedule\<close> reads afterwards is the one sent with the old duration added.
\<close>

theorem stale_duration_survives:
  assumes "wp_set_schedule S wp = Inr vals" and "dict_wf S" and "dwp_category wp \<in> {CAT_SWITCH, CAT_LIGHT, CAT_VALVE}"
    and "dict_get S n = Some e" and "se_duration e = None" and "locks_match (dwp_category wp) e"
    and "fits (sent_fields wp) (e\<lparr>se_duration := Some d\<rparr>)"
    and d: "convert_duration_to_base_factor d = Inr (b, f)"
    and "channel_ok D" and "dict_get D (wp_key n DURATION_BASE) = Some (RInt (time_base_value b))"
    and "dict_get D (wp_key n DURATION_FACTOR) = Some (RInt (int f))"
    and "\<forall>h. h \<notin> {DURATION_BASE, DURATION_FACTOR} \<longrightarrow> dict_get D (wp_key n h) \<noteq> None \<longrightarrow> dict_get vals (wp_key n h) \<noteq> None"
  shows "\<exists>S' e'. wp_get_schedule True (WpParamset (put_paramset_values vals D)) wp = Inr (S', wp\<lparr>dwp_schedule_cache := S'\<rparr>) \<and>
                 dict_get S' n = Some e' \<and> same_entry (e\<lparr>se_duration := Some d\<rparr>) e'"
proof -
  let ?raw = "put_paramset_values vals D" and ?e = "e\<lparr>se_duration := Some d\<rparr>"
  note sends = set_schedule_sends [OF assms(1,2)]
  have mem: "(n, e) \<in> set S" using assms(4) by (rule dict_get_in_set)
  then have e: "1 \<le> n" "entry_ok e" "domain_ok (dwp_category wp) e"
    using sends(3) by (auto simp: list_all_iff)
  have lock: "se_lock_mode e = None"
    using assms(3,6) by (auto simp: locks_match_def)
  obtain g where g: "convert_simple_entry_to_raw_group e = Inr g"
    using sends(5) [OF mem] by blast
  obtain g' where g': "convert_simple_entry_to_raw_group ?e = Inr g'"
    "\<And>h. dict_get g' h = (if h = DURATION_BASE then Some (FInt (time_base_value b))
                        else if h = DURATION_FACTOR then Some (FInt (int f)) else dict_get g h)"
    "dict_get g DURATION_BASE = None" "dict_get g DURATION_FACTOR = None"
    by (rule raw_group_with_duration [OF g lock assms(5) d]) blast
  have e': "entry_ok ?e" "domain_ok (dwp_category wp) ?e" "locks_match (dwp_category wp) ?e"
    using e assms(3,6) d by (auto simp: entry_ok_def duration_ok_def locks_match_def)
  have fields: "DURATION_BASE \<in> sent_fields wp" "DURATION_FACTOR \<in> sent_fields wp"
    using assms(7) by (auto simp: fits_def)
  obtain S' G where S': "wp_get_schedule True (WpParamset ?raw) wp = Inr (S', wp\<lparr>dwp_schedule_cache := S'\<rparr>)"
    and G: "\<And>n f. 0 \<le> n \<Longrightarrow> dict_get (G n) f = map_option (convert_raw_schedule_value f) (dict_get ?raw (wp_key n f))"
    and read: "\<And>n. dict_get S' n = read_group (Some (dwp_category wp)) (G n)" "\<And>n. n < 1 \<or> 24 < n \<Longrightarrow> dict_get S' n = None" "dict_wf S'"
    using assms(10) e(1)
    by (rule_tac get_schedule_reads [OF channel_ok_put [OF assms(9) sends(1,2)] sends(4), of n DURATION_BASE])
      (auto simp: put_values_get [OF sends(1)] split: option.splits)
  have vals: "dict_get vals (wp_key n h) = (if h \<in> sent_fields wp then map_option (encode_field h) (dict_get g h) else None)" for h
    using sends(6) [of n h] e(1) assms(4) by (simp add: group_of_def g cong: if_cong)
  have raw: "dict_get ?raw (wp_key n h) =
      (if h = DURATION_BASE then Some (RInt (time_base_value b)) else if h = DURATION_FACTOR then Some (RInt (int f))
       else dict_get vals (wp_key n h))" for h
    using assms(10,11) spec [OF assms(12), of h] g'(3,4) vals [of h]
    by (auto simp: put_values_get [OF sends(1)] split: option.splits if_splits)
  have "received (sent_fields wp) g' (G n)"
    using e(1) fields
    by (auto simp: received_def G raw vals g'(2) option.map_comp comp_def encode_field_def convert_raw_schedule_value_def)
  from read_group_received [OF e' assms(7) g'(1) this] read(1) S' show ?thesis
    by (auto simp: option_rel_Some1)
qed

definition timed_device :: "(string, raw_value) dict" where
  "timed_device = [(wp_key 1 DURATION_BASE, RInt 1), (wp_key 1 DURATION_FACTOR, RInt 10)]"

lemma timed_device_ok: "channel_ok timed_device"
  using is_group_key [of 1 DURATION_BASE] is_group_key [of 1 DURATION_FACTOR]
  by (simp add: channel_ok_def timed_device_def dict_wf_def wp_key_inject)

theorem stale_duration_survives_witness:
  "\<exists>vals S' e'. wp_set_schedule [(1, sample_entry None)] sample_profile = Inr vals \<and>
     wp_get_schedule True (WpParamset (put_paramset_values vals timed_device)) sample_profile =
       Inr (S', sample_profile\<lparr>dwp_schedule_cache := S'\<rparr>) \<and>
     dict_get S' 1 = Some e' \<and> same_entry (sample_entry (Some ''10s'')) e'"
proof -
  obtain vals where set: "wp_set_schedule [(1, sample_entry None)] sample_profile = Inr vals"
    using sample_set [of None] by auto
  have upd: "(sample_entry None)\<lparr>se_duration := Some ''10s''\<rparr> = sample_entry (Some ''10s'')"
    by (simp add: sample_entry_def)
  have "\<forall>h. h \<notin> {DURATION_BASE, DURATION_FACTOR} \<longrightarrow> dict_get timed_device (wp_key 1 h) \<noteq> None \<longrightarrow> dict_get vals (wp_key 1 h) \<noteq> None"
    by (auto simp: timed_device_def dict_get_Cons wp_key_inject)
  from stale_duration_survives [OF set _ _ _ _ _ _ sample_duration timed_device_ok _ _ this, of "sample_entry None", unfolded upd]
  have "\<exists>S' e'. wp_get_schedule True (WpParamset (put_paramset_values vals timed_device)) sample_profile =
       Inr (S', sample_profile\<lparr>dwp_schedule_cache := S'\<rparr>) \<and>
     dict_get S' 1 = Some e' \<and> same_entry (sample_entry (Some ''10s'')) e'"
    using sample_ok [of None] sample_ok(5) [of "Some ''10s''"]
    by (auto simp: dict_wf_def sample_category sample_sent dict_get_Cons timed_device_def wp_key_inject sample_entry_def [of None])
  with set show ?thesis by blast
qed

text \<open>A factor of 31, which devices use for an unlimited duration, is no duration of an entry.\<close>

lemma base_ms_coprime: "coprime 31 (base_ms b)"
  by (cases b) (simp_all add: coprime_iff_gcd_eq_1 gcd_nat.simps)

lemma no_duration_31: "\<not> duration_ok (Some (convert_base_factor_to_duration b 31))"
proof
  assume "duration_ok (Some (convert_base_factor_to_duration b 31))"
  then obtain b' f where "convert_duration_to_base_factor (convert_base_factor_to_duration b 31) = Inr (b', f)"
    by (auto simp: duration_ok_def)
  from convert_duration_InrD [OF this] duration_ms_print [of b 31] have f: "f \<le> 30" "f * base_ms b' = 31 * base_ms b"
    by auto
  then have "31 dvd f * base_ms b'"
    by simp
  then have "31 dvd f"
    using base_ms_coprime coprime_dvd_mult_left_iff by blast
  then have "f = 0"
    using f(1) by (auto elim: dvdE)
  with f(2) show False by (cases b) simp_all
qed

lemma unlimited_not_converted:
  assumes "c \<in> {CAT_SWITCH, CAT_LIGHT, CAT_VALVE}" and "dict_get g DURATION_BASE = Some (FInt (time_base_value b))"
    and "dict_get g DURATION_FACTOR = Some (FInt 31)"
  shows "read_group (Some c) g = None"
proof -
  have "convert_raw_group_to_simple_entry g (Some c) \<noteq> Inr e" for e
  proof
    assume conv: "convert_raw_group_to_simple_entry g (Some c) = Inr e"
    have "extract_duration (dict_get g DURATION_BASE) (dict_get g DURATION_FACTOR) = Inr (Some (convert_base_factor_to_duration b 31))"
      by (simp add: assms(2,3) extract_duration_def as_int_def enum_field_def enum_or_raise_def)
    moreover have "c \<noteq> CAT_LOCK" "''duration'' \<notin> DOMAIN_UNSUPPORTED_FIELDS c"
      using assms(1) by auto
    ultimately have "se_duration e = Some (convert_base_factor_to_duration b 31) \<and> entry_ok e"
      using conv unfolding convert_raw_group_to_simple_entry_def Let_def
      by (auto simp: res_bind_Inr_iff validate_entry_iff drop_if_def)
    then show False
      using no_duration_31 [of b] by (auto simp: entry_ok_def)
  qed
  then show ?thesis
    by (auto simp: read_group_def split: sum.splits)
qed

text \<open>
  A program of a switch, light or valve with unlimited duration (factor 31) cannot be represented as an
  entry. Reading the schedule drops its group silently, and storing the schedule that was read
  deactivates the program on the device.
\<close>

theorem unlimited_program_lost:
  assumes "channel_ok D" and "dwp_schedule_channel_address wp \<noteq> None" and "dwp_category wp \<in> {CAT_SWITCH, CAT_LIGHT, CAT_VALVE}"
    and "1 \<le> n" "n \<le> 24" and "dict_get D (wp_key n DURATION_BASE) = Some (RInt (time_base_value b))"
    and "dict_get D (wp_key n DURATION_FACTOR) = Some (RInt 31)" and "WEEKDAY \<in> sent_fields wp"
  shows "\<exists>S. wp_get_schedule True (WpParamset D) wp = Inr (S, wp\<lparr>dwp_schedule_cache := S\<rparr>) \<and> dict_get S n = None \<and>
             (\<forall>vals. wp_set_schedule S wp = Inr vals \<longrightarrow>
                dict_get (put_paramset_values vals D) (wp_key n WEEKDAY) = Some (RInt 0))"
proof -
  have "dict_get D (wp_key n DURATION_BASE) \<noteq> None" using assms(6) by simp
  then obtain S G where S: "wp_get_schedule True (WpParamset D) wp = Inr (S, wp\<lparr>dwp_schedule_cache := S\<rparr>)"
    and G: "\<And>n f. 0 \<le> n \<Longrightarrow> dict_get (G n) f = map_option (convert_raw_schedule_value f) (dict_get D (wp_key n f))"
    and read: "\<And>n. dict_get S n = read_group (Some (dwp_category wp)) (G n)" "\<And>n. n < 1 \<or> 24 < n \<Longrightarrow> dict_get S n = None" "dict_wf S"
    using assms(4) by (rule_tac get_schedule_reads [OF assms(1,2), of n DURATION_BASE]) auto
  have "dict_get (G n) DURATION_BASE = Some (FInt (time_base_value b))" "dict_get (G n) DURATION_FACTOR = Some (FInt 31)"
    using assms(4,6,7) by (simp_all add: G convert_raw_schedule_value_def raw_int_def)
  then have none: "dict_get S n = None"
    using unlimited_not_converted [OF assms(3)] read(1) by simp
  have "dict_get (put_paramset_values vals D) (wp_key n WEEKDAY) = Some (RInt 0)" if "wp_set_schedule S wp = Inr vals" for vals
    using set_schedule_sends(1,6) [OF that read(3)] assms(4,5,8) none by (simp add: put_values_get)
  with S none show ?thesis by blast
qed

definition unlimited_device :: "(string, raw_value) dict" where
  "unlimited_device =
     [(wp_key 1 WEEKDAY, RInt 127), (wp_key 1 LEVEL, RFloat 1), (wp_key 1 DURATION_BASE, RInt 7), (wp_key 1 DURATION_FACTOR, RInt 31)]"

lemma unlimited_device_ok: "channel_ok unlimited_device"
  using is_group_key [of 1 WEEKDAY] is_group_key [of 1 LEVEL] is_group_key [of 1 DURATION_BASE] is_group_key [of 1 DURATION_FACTOR]
  by (simp add: channel_ok_def unlimited_device_def dict_wf_def wp_key_inject)

theorem unlimited_program_lost_witness:
  "\<exists>vals. wp_get_schedule True (WpParamset unlimited_device) sample_profile = Inr ([], sample_profile) \<and>
     wp_set_schedule [] sample_profile = Inr vals \<and>
     dict_get (put_paramset_values vals unlimited_device) (wp_key 1 WEEKDAY) = Some (RInt 0)"
proof -
  have get: "dict_get unlimited_device (wp_key n h) =
      (if n = 1 then (case h of WEEKDAY \<Rightarrow> Some (RInt 127) | LEVEL \<Rightarrow> Some (RFloat 1) | DURATION_BASE \<Rightarrow> Some (RInt 7)
                       | DURATION_FACTOR \<Rightarrow> Some (RInt 31) | _ \<Rightarrow> None) else None)" if "0 \<le> n" for n h
    using that by (auto simp: unlimited_device_def dict_get_Cons wp_key_inject split: schedule_field.splits)
  have addr: "dwp_schedule_channel_address sample_profile \<noteq> None"
    by (simp add: sample_profile_def)
  have ones: "(0::int) \<le> 1" "(1::int) \<le> 1" "(1::int) \<le> 24" "WEEKDAY \<in> sent_fields sample_profile"
    "dwp_category sample_profile \<in> {CAT_SWITCH, CAT_LIGHT, CAT_VALVE}"
    by (simp_all add: sample_sent sample_category)
  have dev: "dict_get unlimited_device (wp_key 1 DURATION_BASE) = Some (RInt (time_base_value HOUR_1))"
    "dict_get unlimited_device (wp_key 1 DURATION_FACTOR) = Some (RInt 31)" "dict_get unlimited_device (wp_key 1 WEEKDAY) \<noteq> None"
    by (simp_all add: get)
  obtain S where S: "wp_get_schedule True (WpParamset unlimited_device) sample_profile = Inr (S, sample_profile\<lparr>dwp_schedule_cache := S\<rparr>)"
    "dict_get S 1 = None" "\<forall>vals. wp_set_schedule S sample_profile = Inr vals \<longrightarrow>
       dict_get (put_paramset_values vals unlimited_device) (wp_key 1 WEEKDAY) = Some (RInt 0)"
    using unlimited_program_lost [OF unlimited_device_ok addr ones(5,2,3) dev(1,2) ones(4)] by blast
  have "dict_get S n = None" for n
  proof (rule get_schedule_reads [OF unlimited_device_ok addr ones(1) dev(3)])
    fix S' G
    assume a: "wp_get_schedule True (WpParamset unlimited_device) sample_profile = Inr (S', sample_profile\<lparr>dwp_schedule_cache := S'\<rparr>)"
      "\<And>n f. 0 \<le> n \<Longrightarrow> dict_get (G n) f = map_option (convert_raw_schedule_value f) (dict_get unlimited_device (wp_key n f))"
      "\<And>n. dict_get S' n = read_group (Some (dwp_category sample_profile)) (G n)" "\<And>n. n < 1 \<or> 24 < n \<Longrightarrow> dict_get S' n = None"
    have "S' = S" using a(1) S(1) by simp
    moreover have "dict_get S' n = None" if "1 < n"
      using a(2) [of n WEEKDAY] that by (simp add: a(3) get read_group_def is_schedule_active_def)
    ultimately show "dict_get S n = None"
      using S(2) a(4) [of n] by (cases n "1::int" rule: linorder_cases) auto
  qed
  then have "S = []"
    using dict_get_None_iff by (cases S) force+
  moreover have "\<exists>vals. wp_set_schedule [] sample_profile = Inr vals"
    using addr by (simp add: wp_set_schedule_def validate_schedule_def validate_entry_keys_def convert_dict_to_raw_schedule_def)
  moreover have "sample_profile\<lparr>dwp_schedule_cache := []\<rparr> = sample_profile"
    by (simp add: sample_profile_def)
  ultimately show ?thesis
    using S(1,3) by auto
qed

subsection \<open>Entries read are entries that can be stored\<close>

lemma read_entry_fields:
  assumes "convert_raw_group_to_simple_entry g (Some c) = Inr e"
  shows "entry_ok e"
    and "''level_2'' \<in> DOMAIN_UNSUPPORTED_FIELDS c \<Longrightarrow> se_level_2 e = None"
    and "''duration'' \<in> DOMAIN_UNSUPPORTED_FIELDS c \<Longrightarrow> se_duration e = None"
    and "''ramp_time'' \<in> DOMAIN_UNSUPPORTED_FIELDS c \<Longrightarrow> se_ramp_time e = None"
    and "c = CAT_LOCK \<Longrightarrow> \<exists>m. se_lock_mode e = Some m \<and> (se_lock_action e = None \<longleftrightarrow> m \<noteq> DOOR_LOCK) \<and>
                                  (se_permission e = None \<longleftrightarrow> m \<noteq> USER_PERMISSION)"
proof -
  let ?bad = "DOMAIN_UNSUPPORTED_FIELDS c"
  obtain level_2 duration ramp mode action permission where e:
    "entry_ok e" "se_level_2 e = drop_if (''level_2'' \<in> ?bad) level_2" "se_duration e = drop_if (''duration'' \<in> ?bad) duration"
    "se_ramp_time e = drop_if (''ramp_time'' \<in> ?bad) ramp" "se_lock_mode e = (if c = CAT_LOCK then Some mode else None)"
    "se_lock_action e = (if se_lock_mode e = Some DOOR_LOCK then Some action else None)"
    "se_permission e = (if se_lock_mode e = Some USER_PERMISSION then Some permission else None)"
  proof -
    show thesis if *: "\<And>l d r m a p. entry_ok e \<Longrightarrow> se_level_2 e = drop_if (''level_2'' \<in> ?bad) l \<Longrightarrow>
       se_duration e = drop_if (''duration'' \<in> ?bad) d \<Longrightarrow> se_ramp_time e = drop_if (''ramp_time'' \<in> ?bad) r \<Longrightarrow>
       se_lock_mode e = (if c = CAT_LOCK then Some m else None) \<Longrightarrow>
       se_lock_action e = (if se_lock_mode e = Some DOOR_LOCK then Some a else None) \<Longrightarrow>
       se_permission e = (if se_lock_mode e = Some USER_PERMISSION then Some p else None) \<Longrightarrow> thesis"
      using assms unfolding convert_raw_group_to_simple_entry_def Let_def
      apply (clarsimp simp only: res_bind_Inr_iff validate_entry_iff)
      apply (rule *)
      apply (simp_all del: DOMAIN_UNSUPPORTED_FIELDS.simps)
      done
  qed
  show "entry_ok e" by (rule e(1))
  show "''level_2'' \<in> ?bad \<Longrightarrow> se_level_2 e = None" "''duration'' \<in> ?bad \<Longrightarrow> se_duration e = None"
    "''ramp_time'' \<in> ?bad \<Longrightarrow> se_ramp_time e = None"
    by (simp_all add: e drop_if_def)
  show "\<exists>m. se_lock_mode e = Some m \<and> (se_lock_action e = None \<longleftrightarrow> m \<noteq> DOOR_LOCK) \<and> (se_permission e = None \<longleftrightarrow> m \<noteq> USER_PERMISSION)"
    if "c = CAT_LOCK"
    using that by (simp add: e)
qed

lemma read_entry_valid:
  assumes "convert_raw_group_to_simple_entry g (Some c) = Inr e"
  shows "domain_ok c e \<longleftrightarrow> (c = CAT_SWITCH \<longrightarrow> se_level e = 0 \<or> se_level e = 1)"
proof -
  note none = read_entry_fields(2-4) [OF assms]
  show ?thesis
  proof (cases c)
    case CAT_LOCK
    from read_entry_fields(5) [OF assms CAT_LOCK] obtain m where
      "se_lock_mode e = Some m \<and> (se_lock_action e = None \<longleftrightarrow> m \<noteq> DOOR_LOCK) \<and> (se_permission e = None \<longleftrightarrow> m \<noteq> USER_PERMISSION)" ..
    moreover have "se_level_2 e = None" "se_duration e = None" "se_ramp_time e = None"
      using none by (simp_all add: CAT_LOCK)
    ultimately show ?thesis
      using CAT_LOCK by (cases m) simp_all
  qed (use none in simp_all)
qed

text \<open>
  A schedule read from a device is valid for its domain, so it can be edited and stored again,
  with one exception: a switch entry whose level on the device is neither 0 nor 1 is read but not
  accepted again.
\<close>

theorem read_schedule_valid:
  assumes "convert_raw_to_dict_schedule raw (Some c) = Inr S"
  shows "validate_schedule (Some c) S = Inr S \<longleftrightarrow>
         (c = CAT_SWITCH \<longrightarrow> list_all (\<lambda>(n, e). se_level e = 0 \<or> se_level e = 1) S)"
proof -
  have S: "S = group_entries (Some c) (foldl add_param [] raw)" and keys: "list_all (\<lambda>(k, e). 1 \<le> k \<and> k \<le> 24) S"
    using assms by (auto simp: convert_raw_to_dict_schedule_def validate_entry_keys_def split: if_splits)
  have "entry_ok e \<and> (domain_ok c e \<longleftrightarrow> (c = CAT_SWITCH \<longrightarrow> se_level e = 0 \<or> se_level e = 1))" if mem: "(n, e) \<in> set S" for n e
  proof -
    obtain g where "read_group (Some c) g = Some e"
      using mem map_filter_mem [of n e "read_group (Some c)" "foldl add_param [] raw"] unfolding S group_entries_eq by blast
    then have "convert_raw_group_to_simple_entry g (Some c) = Inr e"
      by (simp add: read_group_def split: if_splits sum.splits)
    then show ?thesis using read_entry_fields(1) read_entry_valid by blast
  qed
  then have "list_all (\<lambda>(n, e). 1 \<le> n \<and> n \<le> 24 \<and> entry_ok e \<and> domain_ok c e) S \<longleftrightarrow>
      list_all (\<lambda>(n, e). c = CAT_SWITCH \<longrightarrow> se_level e = 0 \<or> se_level e = 1) S"
    using keys by (intro list.pred_cong refl) (fastforce simp: list_all_iff)
  then show ?thesis
    by (cases "c = CAT_SWITCH") (simp_all add: validate_schedule_iff list_all_iff)
qed

theorem read_schedule_valid_witness:
  "\<exists>S. convert_raw_to_dict_schedule [(wp_key 1 WEEKDAY, RInt 2), (wp_key 1 LEVEL, RFloat (1 / 2))] (Some CAT_SWITCH) = Inr S \<and>
       S \<noteq> [] \<and> validate_schedule (Some CAT_SWITCH) S \<noteq> Inr S"
proof -
  define e where "e = \<lparr>se_weekdays = [MONDAY], se_time = ''00:00'', se_condition = FIXED_TIME, se_astro_type = None,
      se_astro_offset_minutes = 0, se_target_channels = [], se_level = 1 / 2, se_level_2 = None, se_duration = None,
      se_ramp_time = None, se_lock_mode = None, se_lock_action = None, se_permission = None\<rparr>"
  have time: "convert_hour_minute_to_time 0 0 = ''00:00''"
    by (simp add: convert_hour_minute_to_time_def pad2_two digit_char_eqs)
  have "TIME_PATTERN ''00:00'' \<noteq> None"
    using time_read_back(1) [of 0 0] time by simp
  then have ok: "entry_ok e"
    by (simp add: e_def entry_ok_def duration_ok_def)
  have "bitwise_to_list weekday_bit all_weekdays 2 = [MONDAY]"
    by (simp add: bitwise_to_list_def all_weekdays_def weekday_bit_def)
  then have "foldl add_param [] [(wp_key 1 WEEKDAY, RInt 2), (wp_key 1 LEVEL, RFloat (1 / 2))] =
      [(1, [(WEEKDAY, FDays [MONDAY]), (LEVEL, FFloat (1 / 2))])]"
    by (simp add: add_param_key put_field_def convert_raw_schedule_value_def raw_int_def dict_set_def dict_get_Cons)
  moreover have "convert_raw_group_to_simple_entry [(WEEKDAY, FDays [MONDAY]), (LEVEL, FFloat (1 / 2))] (Some CAT_SWITCH) = Inr e"
    using ok time by (simp add: convert_raw_group_to_simple_entry_def e_def dict_get_Cons else_int_def as_int_def as_float_def enum_field_def
        extract_duration_def extract_ramp_time_def validate_entry_iff drop_if_def)
  ultimately have S: "convert_raw_to_dict_schedule [(wp_key 1 WEEKDAY, RInt 2), (wp_key 1 LEVEL, RFloat (1 / 2))] (Some CAT_SWITCH) = Inr [(1, e)]"
    by (simp add: convert_raw_to_dict_schedule_def group_entries_def is_schedule_active_def validate_entry_keys_def dict_get_Cons)
  with read_schedule_valid [OF S] show ?thesis
    by (auto simp: e_def)
qed

end
