(* ===== verification/Parameter_Value.thy ===== *)
theory Parameter_Value
  imports Text_Format
begin

section \<open>Values of parameters and their conversion\<close>

text \<open>
  The values that data points hold, with the conversions of \<open>model/support.py\<close>: the conversion of a
  backend value to the type of a parameter behind its cache, and the look-ups in value lists. Values
  are those of the five Python types parameters have; \<open>==\<close>, truth and conversions follow the language,
  in which \<open>True\<close>, \<open>1\<close> and \<open>1.0\<close> are equal. The text of a float is an argument, because the shortest
  text of a machine number is not a function of a real number. Floats are real numbers: infinities, \<open>nan\<close>, the
  rounding of a text or of an integer beyond \<open>2 ^ 53\<close> by \<open>float\<close> and its \<open>OverflowError\<close> are not modelled
  here (\<open>Machine_Float\<close> models the rounding where positions and levels depend on it).
\<close>

datatype pyval = PNone | PBool bool | PInt int | PFloat real | PStr string

definition py_num :: "pyval \<Rightarrow> real option" where
  "py_num v = (case v of PBool b \<Rightarrow> Some (of_bool b) | PInt i \<Rightarrow> Some (of_int i) | PFloat r \<Rightarrow> Some r | _ \<Rightarrow> None)"

definition py_eq :: "pyval \<Rightarrow> pyval \<Rightarrow> bool" where
  "py_eq v w \<longleftrightarrow> (case (py_num v, py_num w) of (Some x, Some y) \<Rightarrow> x = y | (None, None) \<Rightarrow> v = w | _ \<Rightarrow> False)"

definition py_bool :: "pyval \<Rightarrow> bool" where
  "py_bool v = (case v of PNone \<Rightarrow> False | PBool b \<Rightarrow> b | PInt i \<Rightarrow> i \<noteq> 0 | PFloat r \<Rightarrow> r \<noteq> 0 | PStr s \<Rightarrow> s \<noteq> [])"

datatype py_error = TypeError | ValueError | IndexError

definition py_float :: "pyval \<Rightarrow> py_error + real" where
  "py_float v =
     (case v of
        PNone \<Rightarrow> Inl TypeError
      | PBool b \<Rightarrow> Inr (of_bool b)
      | PInt i \<Rightarrow> Inr (of_int i)
      | PFloat r \<Rightarrow> Inr r
      | PStr s \<Rightarrow> (case python_float s of None \<Rightarrow> Inl ValueError | Some r \<Rightarrow> Inr r))"

definition py_str :: "(real \<Rightarrow> string) \<Rightarrow> pyval \<Rightarrow> string" where
  "py_str float_text v =
     (case v of
        PNone \<Rightarrow> ''None''
      | PBool b \<Rightarrow> if b then ''True'' else ''False''
      | PInt i \<Rightarrow> str_int i
      | PFloat r \<Rightarrow> float_text r
      | PStr s \<Rightarrow> s)"

text \<open>An integer in the sense of \<open>isinstance(v, int)\<close>, which truth values are.\<close>

definition as_pyint :: "pyval \<Rightarrow> int option" where
  "as_pyint v = (case v of PBool b \<Rightarrow> Some (of_bool b) | PInt i \<Rightarrow> Some i | _ \<Rightarrow> None)"

text \<open>\<open>xs[v]\<close> of a tuple: negative indices count from the end.\<close>

definition py_index :: "'a list \<Rightarrow> pyval \<Rightarrow> py_error + 'a" where
  "py_index xs v =
     (case as_pyint v of
        None \<Rightarrow> Inl TypeError
      | Some i \<Rightarrow>
          if 0 \<le> i \<and> i < int (length xs) then Inr (xs ! nat i)
          else if - int (length xs) \<le> i \<and> i < 0 then Inr (xs ! nat (int (length xs) + i))
          else Inl IndexError)"

subsection \<open>Conversion\<close>

datatype parameter_type = T_ACTION | T_BOOL | T_DUMMY | T_ENUM | T_FLOAT | T_INTEGER | T_STRING | T_EMPTY

definition to_bool :: "string \<Rightarrow> bool" where
  "to_bool s \<longleftrightarrow> lower s \<in> {''y'', ''yes'', ''t'', ''true'', ''on'', ''1''}"

definition BINARY_SENSOR_TRUE_VALUE :: "string list \<Rightarrow> string option" where
  "BINARY_SENSOR_TRUE_VALUE value_list =
     (if value_list = [''CLOSED'', ''OPEN''] then Some ''OPEN''
      else if value_list = [''DRY'', ''RAIN''] then Some ''RAIN''
      else if value_list = [''STABLE'', ''NOT_STABLE''] then Some ''NOT_STABLE''
      else None)"

definition get_binary_sensor_value :: "pyval \<Rightarrow> string list \<Rightarrow> py_error + bool" where
  "get_binary_sensor_value v value_list =
     (case py_index value_list v of
        Inr str_value \<Rightarrow> Inr (BINARY_SENSOR_TRUE_VALUE value_list = Some str_value)
      | Inl IndexError \<Rightarrow> Inr False
      | Inl e \<Rightarrow> Inl e)"

type_synonym conv_args = "pyval \<times> parameter_type \<times> string list option"

definition convert_value_noncached :: "(real \<Rightarrow> string) \<Rightarrow> conv_args \<Rightarrow> py_error + pyval" where
  "convert_value_noncached float_text args =
     (case args of (v, target_type, value_list) \<Rightarrow>
        if v = PNone then Inr PNone
        else case target_type of
          T_BOOL \<Rightarrow>
            (case value_list of
               Some (x # xs) \<Rightarrow> map_sum id PBool (get_binary_sensor_value v (x # xs))
             | _ \<Rightarrow> (case v of PStr s \<Rightarrow> Inr (PBool (to_bool s)) | _ \<Rightarrow> Inr (PBool (py_bool v))))
        | T_FLOAT \<Rightarrow> map_sum id PFloat (py_float v)
        | T_INTEGER \<Rightarrow> map_sum id (\<lambda>r. PInt (py_truncate r)) (py_float v)
        | T_STRING \<Rightarrow> Inr (PStr (py_str float_text v))
        | _ \<Rightarrow> Inr v)"

text \<open>
  \<open>functools.lru_cache\<close>: the most recently used entries first, at most \<open>maxsize\<close> of them. Arguments
  are the same when they are equal in the sense of \<open>==\<close>; an exception is not remembered.
\<close>

type_synonym ('k, 'v) lru = "('k \<times> 'v) list"

definition lru_call :: "('k \<Rightarrow> 'k \<Rightarrow> bool) \<Rightarrow> nat \<Rightarrow> ('k \<Rightarrow> 'e + 'v) \<Rightarrow> 'k \<Rightarrow> ('k, 'v) lru \<Rightarrow> ('e + 'v) \<times> ('k, 'v) lru" where
  "lru_call same maxsize f k c =
     (case List.extract (\<lambda>(k', v). same k k') c of
        Some (before, hit, after) \<Rightarrow> (Inr (snd hit), hit # before @ after)
      | None \<Rightarrow> (case f k of Inl e \<Rightarrow> (Inl e, c) | Inr v \<Rightarrow> (Inr v, take maxsize ((k, v) # c))))"

definition same_args :: "conv_args \<Rightarrow> conv_args \<Rightarrow> bool" where
  "same_args a b \<longleftrightarrow> py_eq (fst a) (fst b) \<and> snd a = snd b"

definition convert_value_cached ::
  "(real \<Rightarrow> string) \<Rightarrow> conv_args \<Rightarrow> (conv_args, pyval) lru \<Rightarrow> (py_error + pyval) \<times> (conv_args, pyval) lru" where
  "convert_value_cached float_text = lru_call same_args 2048 (convert_value_noncached float_text)"

definition convert_value ::
  "(real \<Rightarrow> string) \<Rightarrow> conv_args \<Rightarrow> (conv_args, pyval) lru \<Rightarrow> (py_error + pyval) \<times> (conv_args, pyval) lru" where
  "convert_value float_text args c =
     (case convert_value_cached float_text args c of
        (Inl TypeError, c) \<Rightarrow> (convert_value_noncached float_text args, c)
      | r \<Rightarrow> r)"

subsection \<open>Value lists\<close>

definition get_value_from_value_list :: "pyval \<Rightarrow> string list option \<Rightarrow> py_error + string option" where
  "get_value_from_value_list v value_list =
     (case (as_pyint v, value_list) of
        (Some i, Some vs) \<Rightarrow> if i < int (length vs) then map_sum id Some (py_index vs (PInt i)) else Inr None
      | _ \<Rightarrow> Inr None)"

fun index_of :: "'a \<Rightarrow> 'a list \<Rightarrow> nat option" where
  "index_of x [] = None"
| "index_of x (y # ys) = (if x = y then Some 0 else map_option Suc (index_of x ys))"

definition get_index_of_value_from_value_list :: "pyval \<Rightarrow> string list option \<Rightarrow> nat option" where
  "get_index_of_value_from_value_list v value_list =
     (case (v, value_list) of (PStr s, Some vs) \<Rightarrow> index_of s vs | _ \<Rightarrow> None)"

definition check_length_and_log :: "pyval \<Rightarrow> pyval" where
  "check_length_and_log v = (case v of PStr s \<Rightarrow> if 255 < length s then PStr (take 255 s) else v | _ \<Rightarrow> v)"

text \<open>\<open>_fix_rssi\<close>: truth values are integers, and no range covers them.\<close>

definition fix_rssi :: "pyval \<Rightarrow> pyval" where
  "fix_rssi v =
     (case as_pyint v of
        None \<Rightarrow> PNone
      | Some i \<Rightarrow>
          if - 127 < i \<and> i < 0 then v
          else if 1 < i \<and> i < 127 then PInt (- i)
          else if - 256 < i \<and> i < - 129 then PInt (- i - 256)
          else if 129 < i \<and> i < 256 then PInt (i - 256)
          else PNone)"

subsection \<open>The cache of conversions\<close>

text \<open>
  A memoised function whose arguments are looked up by \<open>same\<close>. Every entry is a result of the function
  for its own key, which was an argument before; the cache is exact for arguments for which the function has
  every result that it has for one that is the same.
\<close>

definition lru_valid :: "('k \<Rightarrow> 'e + 'v) \<Rightarrow> ('k, 'v) lru \<Rightarrow> bool" where
  "lru_valid f c \<longleftrightarrow> (\<forall>(k, v) \<in> set c. f k = Inr v)"

locale memo =
  fixes same :: "'k \<Rightarrow> 'k \<Rightarrow> bool" and f :: "'k \<Rightarrow> 'e + 'v" and exact :: "'k \<Rightarrow> bool"
  assumes exact_same: "exact k \<Longrightarrow> same k k' \<Longrightarrow> f k' = Inr v \<Longrightarrow> f k = Inr v"
begin

lemma call_cases:
  assumes "lru_valid f c"
  obtains (hit) k' v where "k' \<in> fst ` set c" "same k k'" "f k' = Inr v" "fst (lru_call same n f k c) = Inr v"
    | (miss) "fst (lru_call same n f k c) = f k"
proof (cases "List.extract (\<lambda>(k', v). same k k') c")
  case None
  then show thesis by (intro miss) (auto simp: lru_call_def split: sum.splits)
next
  case (Some r)
  obtain before h after where r: "r = (before, h, after)" by (cases r) auto
  with Some have "h \<in> set c" "fst h \<in> fst ` set c" "same k (fst h)"
    by (auto simp: extract_Some_iff split_beta)
  with assms Some r show thesis
    by (intro hit [of "fst h" "snd h"]) (auto simp: lru_valid_def lru_call_def split_beta)
qed

lemma call_exact: "lru_valid f c \<Longrightarrow> exact k \<Longrightarrow> fst (lru_call same n f k c) = f k"
  by (erule call_cases [of c k n]) (use exact_same in force)+

lemma call_keys: "fst ` set (snd (lru_call same n f k c)) \<subseteq> insert k (fst ` set c)"
proof (cases "List.extract (\<lambda>(k', v). same k k') c")
  case None
  have "set (take n ((k, v) # c)) \<subseteq> insert (k, v) (set c)" for v
    using set_take_subset [of n "(k, v) # c"] by simp
  with None show ?thesis
    by (fastforce simp: lru_call_def split: sum.splits)
next
  case (Some r)
  obtain before h after where r: "r = (before, h, after)" by (cases r) auto
  with Some have "c = before @ h # after" by (simp add: extract_Some_iff)
  moreover have "snd (lru_call same n f k c) = h # before @ after"
    using Some r by (simp add: lru_call_def)
  ultimately show ?thesis by auto
qed

lemma call_valid:
  assumes "lru_valid f c"
  shows "lru_valid f (snd (lru_call same n f k c))"
proof (cases "List.extract (\<lambda>(k', v). same k k') c")
  case None
  have "set (take n ((k, v) # c)) \<subseteq> insert (k, v) (set c)" for v
    using set_take_subset [of n "(k, v) # c"] by simp
  with None assms show ?thesis
    by (fastforce simp: lru_call_def lru_valid_def split: sum.splits)
next
  case (Some r)
  obtain before h after where r: "r = (before, h, after)" by (cases r) auto
  with Some have "c = before @ h # after" by (simp add: extract_Some_iff)
  moreover have "snd (lru_call same n f k c) = h # before @ after"
    using Some r by (simp add: lru_call_def)
  ultimately show ?thesis
    using assms by (auto simp: lru_valid_def)
qed

end

definition exact_args :: "conv_args \<Rightarrow> bool" where
  "exact_args a \<longleftrightarrow>
     (case a of (v, t, vl) \<Rightarrow>
        py_num v = None \<or> t \<in> {T_FLOAT, T_INTEGER} \<or> t = T_BOOL \<and> (vl = None \<or> vl = Some [] \<or> as_pyint v \<noteq> None))"

lemma py_eq_cases:
  assumes "py_eq v w"
  obtains "v = w" | x where "py_num v = Some x" "py_num w = Some x"
  using assms by (auto simp: py_eq_def split: option.splits)

lemma py_float_num: "py_num v = Some x \<Longrightarrow> py_float v = Inr x"
  by (auto simp: py_num_def py_float_def split: pyval.splits)

lemma py_bool_num: "py_num v = Some x \<Longrightarrow> py_bool v \<longleftrightarrow> x \<noteq> 0"
  by (auto simp: py_num_def py_bool_def split: pyval.splits)

lemma py_index_num:
  assumes "py_num v = Some x" and "py_num w = Some x" and "as_pyint v \<noteq> None" and "\<And>e. py_index xs w = Inl e \<Longrightarrow> e = IndexError"
  shows "py_index xs w = py_index xs v"
proof (cases "as_pyint w")
  case None
  with assms(4) [of TypeError] show ?thesis by (simp add: py_index_def)
next
  case (Some i)
  with assms(1-3) have "as_pyint v = Some i"
    by (auto simp: py_num_def as_pyint_def of_bool_def split: pyval.splits if_splits)
  with Some show ?thesis by (simp add: py_index_def)
qed

lemma binary_sensor_num:
  assumes "py_num v = Some x" and "py_num w = Some x" and "as_pyint v \<noteq> None" and "get_binary_sensor_value w xs = Inr b"
  shows "get_binary_sensor_value v xs = Inr b"
proof -
  have "e = IndexError" if "py_index xs w = Inl e" for e
    using assms(4) that by (cases e) (simp_all add: get_binary_sensor_value_def)
  from py_index_num [OF assms(1-3), of xs] this have "py_index xs w = py_index xs v" by blast
  with assms(4) show ?thesis by (simp add: get_binary_sensor_value_def)
qed

lemma convert_exact:
  assumes ex: "exact_args a" and same: "same_args a b" and r: "convert_value_noncached float_text b = Inr r"
  shows "convert_value_noncached float_text a = Inr r"
proof -
  obtain v t vl where a: "a = (v, t, vl)" by (cases a)
  obtain w where b: "b = (w, t, vl)" and eq: "py_eq v w"
    using same by (cases b) (auto simp: a same_args_def)
  from eq show ?thesis
  proof (cases rule: py_eq_cases)
    case 1
    with r show ?thesis by (simp add: a b)
  next
    case (2 x)
    then have no: "v \<noteq> PNone" "w \<noteq> PNone" "\<nexists>s. v = PStr s" "\<nexists>s. w = PStr s"
      by (auto simp: py_num_def)
    show ?thesis
    proof (cases "t = T_BOOL \<and> vl \<noteq> None \<and> vl \<noteq> Some []")
      case True
      then obtain y ys where vl: "vl = Some (y # ys)" by (metis list.exhaust option.exhaust)
      have "as_pyint v \<noteq> None" using ex 2(1) True by (simp add: a exact_args_def)
      then have "get_binary_sensor_value v (y # ys) = Inr s" if "get_binary_sensor_value w (y # ys) = Inr s" for s
        using binary_sensor_num [OF 2 _ that] by simp
      with r no True show ?thesis
        by (cases "get_binary_sensor_value w (y # ys)") (auto simp: a b vl convert_value_noncached_def)
    next
      case False
      with 2 no ex r show ?thesis
        by (auto simp: a b exact_args_def convert_value_noncached_def py_float_num py_bool_num split: pyval.splits option.splits list.splits)
    qed
  qed
qed

interpretation convert: memo same_args "convert_value_noncached float_text" exact_args for float_text
  by unfold_locales (rule convert_exact)

lemma convert_value_valid:
  assumes "lru_valid (convert_value_noncached float_text) c"
  shows "lru_valid (convert_value_noncached float_text) (snd (convert_value float_text a c))"
  using convert.call_valid [OF assms, of 2048 a]
  by (auto simp: convert_value_def convert_value_cached_def split: prod.splits sum.splits py_error.splits)

definition cache_after :: "(real \<Rightarrow> string) \<Rightarrow> conv_args list \<Rightarrow> (conv_args, pyval) lru" where
  "cache_after float_text calls = foldl (\<lambda>c a. snd (convert_value float_text a c)) [] calls"

lemma convert_value_keys: "fst ` set (snd (convert_value float_text a c)) \<subseteq> insert a (fst ` set c)"
proof -
  have "snd (convert_value float_text a c) = snd (lru_call same_args 2048 (convert_value_noncached float_text) a c)"
    by (simp add: convert_value_def convert_value_cached_def split: prod.splits sum.splits py_error.splits)
  then show ?thesis using convert.call_keys [of 2048 float_text a c] by simp
qed

lemma cache_after_keys: "fst ` set (cache_after float_text calls) \<subseteq> set calls"
proof -
  have "fst ` set (foldl (\<lambda>c a. snd (convert_value float_text a c)) c calls) \<subseteq> set calls \<union> fst ` set c" for c
  proof (induction calls arbitrary: c)
    case (Cons a calls)
    from Cons [of "snd (convert_value float_text a c)"] convert_value_keys [of float_text a c] show ?case
      unfolding foldl.simps list.set(2) by blast
  qed simp
  from this [of "[]"] show ?thesis by (simp add: cache_after_def)
qed

lemma cache_after_valid: "lru_valid (convert_value_noncached float_text) (cache_after float_text calls)"
proof -
  have "lru_valid (convert_value_noncached float_text) c \<Longrightarrow>
      lru_valid (convert_value_noncached float_text) (foldl (\<lambda>c a. snd (convert_value float_text a c)) c calls)" for c
    by (induction calls arbitrary: c) (simp_all add: convert_value_valid)
  from this [of "[]"] show ?thesis by (simp add: cache_after_def lru_valid_def [of _ "[]"])
qed

lemma convert_value_call:
  assumes "fst (lru_call same_args 2048 (convert_value_noncached float_text) a c) = convert_value_noncached float_text b"
    and "same_args a b \<and> b \<in> fst ` set c \<and> convert_value_noncached float_text b = Inr v \<or> b = a"
  shows "fst (convert_value float_text a c) = convert_value_noncached float_text b"
  using assms
  by (cases "lru_call same_args 2048 (convert_value_noncached float_text) a c")
    (auto simp: convert_value_def convert_value_cached_def split: sum.splits py_error.splits)

lemma same_args_refl: "same_args a a"
  by (simp add: same_args_def py_eq_def split: option.splits)

text \<open>
  C38: The cache in front of the conversion, after any calls. For every type the result is what the conversion
  gives for these or for earlier arguments that are equal to them (with \<open>==\<close>). It is exactly that of the
  conversion when the value is a text or \<open>None\<close>, for the types FLOAT and INTEGER, and for BOOL, except for a
  float that is looked up in a value list. Otherwise it need not be: once the integer 1 was converted to a text,
  the float 1 converts to the text of the integer.
\<close>

theorem convert_value_cache:
  "(\<exists>b \<in> set (a # calls). same_args a b \<and>
      fst (convert_value float_text a (cache_after float_text calls)) = convert_value_noncached float_text b) \<and>
   (exact_args a \<longrightarrow> fst (convert_value float_text a (cache_after float_text calls)) = convert_value_noncached float_text a) \<and>
   fst (convert_value float_text (PFloat 1, T_STRING, None) (cache_after float_text [(PInt 1, T_STRING, None)])) = Inr (PStr ''1'')"
proof (intro conjI)
  let ?c = "cache_after float_text calls"
  show "\<exists>b \<in> set (a # calls). same_args a b \<and> fst (convert_value float_text a ?c) = convert_value_noncached float_text b"
  proof (cases rule: convert.call_cases [OF cache_after_valid, of float_text calls a 2048, case_names hit miss])
    case (hit b v)
    then have "fst (convert_value float_text a ?c) = convert_value_noncached float_text b"
      by (intro convert_value_call) auto
    with hit cache_after_keys show ?thesis by fastforce
  next
    case miss
    then have "fst (convert_value float_text a ?c) = convert_value_noncached float_text a"
      by (intro convert_value_call) auto
    then show ?thesis using same_args_refl by auto
  qed
  show "exact_args a \<longrightarrow> fst (convert_value float_text a ?c) = convert_value_noncached float_text a"
    using convert.call_exact [OF cache_after_valid] convert_value_call by blast
  have "digit_char 1 = CHR ''1''"
    by (rule code_inj) (simp add: code_def digit_char_def)
  then have "str_int 1 = ''1''"
    by (simp add: str_int_def dec_small)
  then have "convert_value_noncached float_text (PInt 1, T_STRING, None) = Inr (PStr ''1'')"
    by (simp add: convert_value_noncached_def py_str_def)
  then have "cache_after float_text [(PInt 1, T_STRING, None)] = [((PInt 1, T_STRING, None), PStr ''1'')]"
    by (simp add: cache_after_def convert_value_def convert_value_cached_def lru_call_def extract_Nil_code)
  then show "fst (convert_value float_text (PFloat 1, T_STRING, None) (cache_after float_text [(PInt 1, T_STRING, None)])) = Inr (PStr ''1'')"
    by (simp add: convert_value_def convert_value_cached_def lru_call_def extract_Cons_code same_args_def py_eq_def py_num_def)
qed

theorem convert_value_cache_witness:
  "fst (convert_value (\<lambda>_. ''1.0'') (PBool True, T_BOOL, Some [''CLOSED'', ''OPEN''])
     (cache_after (\<lambda>_. ''1.0'') [(PInt 1, T_BOOL, Some [''CLOSED'', ''OPEN''])])) = Inr (PBool True) \<and>
   fst (convert_value (\<lambda>_. ''1.0'') (PBool True, T_INTEGER, None)
     (cache_after (\<lambda>_. ''1.0'') [(PFloat 1, T_INTEGER, None), (PInt 1, T_STRING, None)])) = Inr (PInt 1)"
  using convert_value_cache [of "(PBool True, T_INTEGER, None)" "[(PFloat 1, T_INTEGER, None), (PInt 1, T_STRING, None)]" "\<lambda>_. ''1.0''"]
    convert_value_cache [of "(PBool True, T_BOOL, Some [''CLOSED'', ''OPEN''])" "[(PInt 1, T_BOOL, Some [''CLOSED'', ''OPEN''])]" "\<lambda>_. ''1.0''"]
  by (simp add: exact_args_def convert_value_noncached_def py_float_def py_truncate_def as_pyint_def get_binary_sensor_value_def
      py_index_def BINARY_SENSOR_TRUE_VALUE_def)

end
