(* ===== verification/Const.thy ===== *)
theory Const
  imports Prelude
begin

section \<open>Enumerations and configuration of \<open>const.py\<close>\<close>

text \<open>
  The string enumerations of \<open>aiohomematic/const.py\<close> that the modelled components dispatch on,
  one constructor per member, the numeric limits the stores use, and the part of
  \<open>TimeoutConfig\<close> that command retry, throttling and recovery read.
\<close>

datatype client_state =
    CREATED | INITIALIZING | INITIALIZED | CONNECTING | CONNECTED
  | DISCONNECTED | RECONNECTING | STOPPING | STOPPED | FAILED

fun client_state_name :: "client_state \<Rightarrow> string" where
  "client_state_name CREATED = ''CREATED''"
| "client_state_name INITIALIZING = ''INITIALIZING''"
| "client_state_name INITIALIZED = ''INITIALIZED''"
| "client_state_name CONNECTING = ''CONNECTING''"
| "client_state_name CONNECTED = ''CONNECTED''"
| "client_state_name DISCONNECTED = ''DISCONNECTED''"
| "client_state_name RECONNECTING = ''RECONNECTING''"
| "client_state_name STOPPING = ''STOPPING''"
| "client_state_name STOPPED = ''STOPPED''"
| "client_state_name FAILED = ''FAILED''"

datatype proxy_init_state = INIT_FAILED | INIT_SUCCESS | DE_INIT_FAILED | DE_INIT_SUCCESS | DE_INIT_SKIPPED

datatype forced_availability = FORCE_FALSE | FORCE_TRUE | NOT_SET

datatype central_state =
    C_STARTING | C_INITIALIZING | C_RUNNING | C_DEGRADED | C_RECOVERING | C_FAILED | C_STOPPED

datatype circuit_state = CLOSED | OPEN | HALF_OPEN

datatype failure_reason =
    FR_NONE | FR_AUTH | FR_NETWORK | FR_INTERNAL | FR_TIMEOUT | FR_CIRCUIT_BREAKER | FR_UNKNOWN

datatype recovery_stage =
    IDLE | DETECTING | COOLDOWN | TCP_CHECKING | RPC_CHECKING | WARMING_UP | STABILITY_CHECK
  | RS_RECONNECTING | DATA_LOADING | RECOVERED | RS_FAILED | HEARTBEAT

datatype interface = BIDCOS_RF | BIDCOS_WIRED | CCU_JACK | CUXD | HMIP_RF | VIRTUAL_DEVICES

datatype pingpong_mismatch_type = PENDING | UNKNOWN

datatype issue_severity = SEV_ERROR | SEV_WARNING

datatype issue_type = PING_PONG_MISMATCH | FETCH_DATA_FAILED | INCOMPLETE_DEVICE_DATA | PARAMSET_INCONSISTENCY

datatype paramset_key = PK_CALCULATED | PK_COMBINED | PK_DUMMY | PK_LINK | PK_MASTER | PK_SERVICE | PK_VALUES

record data_point_key =
  dpk_interface_id :: string
  dpk_channel_address :: string
  dpk_paramset_key :: paramset_key
  dpk_parameter :: string

text \<open>Values typed \<open>Any\<close> in the source: what XML-RPC and JSON-RPC transport.\<close>

datatype py_any =
    A_None | A_Bool bool | A_Int int | A_Float real | A_Str string
  | A_List "py_any list" | A_Dict "(string \<times> py_any) list"

text \<open>Limits of the dynamic stores.\<close>

definition LAST_COMMAND_SEND_TRACKER_CLEANUP_THRESHOLD :: nat where
  "LAST_COMMAND_SEND_TRACKER_CLEANUP_THRESHOLD = 100"

definition LAST_COMMAND_SEND_STORE_TIMEOUT :: int where
  "LAST_COMMAND_SEND_STORE_TIMEOUT = 60"

definition COMMAND_TRACKER_MAX_SIZE :: nat where
  "COMMAND_TRACKER_MAX_SIZE = 500"

definition COMMAND_TRACKER_WARNING_THRESHOLD :: nat where
  "COMMAND_TRACKER_WARNING_THRESHOLD = 400"

definition PING_PONG_CACHE_MAX_SIZE :: nat where
  "PING_PONG_CACHE_MAX_SIZE = 100"

definition MAX_CACHE_AGE :: int where
  "MAX_CACHE_AGE = 10"

definition INIT_DATETIME :: time where
  \<comment> \<open>01.01.1970 00:00:00, the origin of the clock of the model\<close>
  "INIT_DATETIME = 0"

text \<open>The fields of \<open>TimeoutConfig\<close> that clients, startup, recovery and command retry read.\<close>

record timeout_config =
  reconnect_initial_delay :: time
  reconnect_max_delay :: time
  reconnect_backoff_factor :: real
  reconnect_tcp_check_timeout :: time
  reconnect_tcp_check_interval :: time
  callback_warn_interval :: time
  connectivity_error_threshold :: int
  startup_max_init_attempts :: int
  startup_init_retry_delay :: time
  startup_max_init_retry_delay :: time
  command_retry_max_attempts :: int
  command_retry_base_delay :: time
  command_retry_max_delay :: time
  command_retry_backoff_factor :: real
  command_retry_duty_cycle_delay :: time
  command_retry_transmission_pending_delay :: time
  command_retry_recovery_wait :: time

definition default_timeout_config :: timeout_config where
  "default_timeout_config =
     \<lparr>reconnect_initial_delay = 2, reconnect_max_delay = 120, reconnect_backoff_factor = 2,
      reconnect_tcp_check_timeout = 60, reconnect_tcp_check_interval = 5, callback_warn_interval = 15 * 12,
      connectivity_error_threshold = 1, startup_max_init_attempts = 5, startup_init_retry_delay = 3,
      startup_max_init_retry_delay = 30,
      command_retry_max_attempts = 3, command_retry_base_delay = 2, command_retry_max_delay = 30,
      command_retry_backoff_factor = 2, command_retry_duty_cycle_delay = 40,
      command_retry_transmission_pending_delay = 5, command_retry_recovery_wait = 120\<rparr>"

text \<open>
  The interfaces that are reachable by JSON-RPC only
  (\<open>INTERFACES_REQUIRING_JSON_RPC_CLIENT - INTERFACES_REQUIRING_XML_RPC\<close>) and the JSON-RPC port.
\<close>

fun requires_xml_rpc :: "interface \<Rightarrow> bool" where
  "requires_xml_rpc BIDCOS_RF = True"
| "requires_xml_rpc BIDCOS_WIRED = True"
| "requires_xml_rpc HMIP_RF = True"
| "requires_xml_rpc VIRTUAL_DEVICES = True"
| "requires_xml_rpc _ = False"

fun requires_json_rpc_client :: "interface \<Rightarrow> bool" where
  "requires_json_rpc_client CUXD = True"
| "requires_json_rpc_client CCU_JACK = True"
| "requires_json_rpc_client _ = False"

fun primary_client_candidate :: "interface \<Rightarrow> bool" where
  "primary_client_candidate HMIP_RF = True"
| "primary_client_candidate BIDCOS_RF = True"
| "primary_client_candidate BIDCOS_WIRED = True"
| "primary_client_candidate _ = False"

definition get_json_rpc_default_port :: "bool \<Rightarrow> int" where
  "get_json_rpc_default_port tls = (if tls then 443 else 80)"

text \<open>\<open>CommandPriority\<close> of \<open>client/command_throttle.py\<close>, which data points and the throttle share.\<close>

datatype command_priority = CRITICAL | HIGH | LOW

fun command_priority_value :: "command_priority \<Rightarrow> int" where
  "command_priority_value CRITICAL = 0"
| "command_priority_value HIGH = 1"
| "command_priority_value LOW = 2"

end
