(* ===== verification/Data_Point.thy ===== *)
theory Data_Point
  imports Parameter_Value Const
begin

section \<open>Data points\<close>

text \<open>
  The value of a parameter as the application sees it: \<open>OptimisticValueTracker\<close> of
  \<open>model/optimistic.py\<close>, the value part of \<open>BaseParameterDataPoint\<close> of \<open>model/data_point.py\<close>,
  \<open>GenericDataPoint\<close> with its subclasses of \<open>model/generic/\<close>, and \<open>CallParameterCollector\<close>.

  \<open>send_value\<close> is cut at its call of the backend: what is sent is its result, and the failure of the
  call is the operation \<open>send_failed\<close>. The timer of an optimistic value is its deadline; what the event
  loop runs then is \<open>timer_fires\<close>. Values are converted without the cache of \<open>convert_value\<close>.
\<close>

unbundle bit_operations_syntax

subsection \<open>Optimistic values\<close>

record tracker =
  ot_value :: pyval
  ot_previous_value :: pyval
  ot_timeout_handle :: "time option"
  ot_sent_at :: "time option"
  ot_pending_sends :: int

definition optimistic_init :: tracker where
  "optimistic_init = \<lparr>ot_value = PNone, ot_previous_value = PNone, ot_timeout_handle = None, ot_sent_at = None, ot_pending_sends = 0\<rparr>"

definition ot_age :: "time \<Rightarrow> tracker \<Rightarrow> time option" where
  "ot_age now t = map_option (\<lambda>s. now - s) (ot_sent_at t)"

definition ot_is_active :: "tracker \<Rightarrow> bool" where
  "ot_is_active t \<longleftrightarrow> ot_value t \<noteq> PNone"

definition ot_apply :: "time \<Rightarrow> pyval \<Rightarrow> pyval \<Rightarrow> tracker \<Rightarrow> tracker" where
  "ot_apply now v current_value t =
     (let t = (if ot_pending_sends t = 0 then t\<lparr>ot_previous_value := current_value\<rparr> else t)
      in t\<lparr>ot_pending_sends := ot_pending_sends t + 1, ot_value := v, ot_sent_at := Some now\<rparr>)"

definition ot_cancel_timer :: "tracker \<Rightarrow> tracker" where
  "ot_cancel_timer t = t\<lparr>ot_timeout_handle := None\<rparr>"

definition ot_clear :: "tracker \<Rightarrow> tracker" where
  "ot_clear t = ot_cancel_timer (t\<lparr>ot_value := PNone, ot_previous_value := PNone, ot_sent_at := None\<rparr>)"

definition ot_confirm_one :: "tracker \<Rightarrow> bool \<times> tracker" where
  "ot_confirm_one t = (let p = max 0 (ot_pending_sends t - 1) in (p = 0, t\<lparr>ot_pending_sends := p\<rparr>))"

definition ot_rollback :: "tracker \<Rightarrow> (pyval \<times> pyval) \<times> tracker" where
  "ot_rollback t =
     (if \<not> ot_is_active t then ((PNone, PNone), t)
      else ((ot_value t, ot_previous_value t),
            (ot_cancel_timer (t\<lparr>ot_value := PNone, ot_sent_at := None, ot_pending_sends := 0\<rparr>))\<lparr>ot_previous_value := PNone\<rparr>))"

definition ot_schedule_rollback :: "time \<Rightarrow> time \<Rightarrow> tracker \<Rightarrow> tracker" where
  "ot_schedule_rollback now timeout t = (ot_cancel_timer t)\<lparr>ot_timeout_handle := Some (now + timeout)\<rparr>"

subsection \<open>Parameter descriptions and data point classes\<close>

record parameter_data =
  pd_type :: parameter_type
  pd_value_list :: "string list option"
  pd_min :: pyval
  pd_max :: pyval
  pd_default :: "pyval option"
  pd_flags :: int
  pd_operations :: int
  pd_special :: "(string, pyval) dict option"
  pd_unit :: "string option"

datatype dp_class =
    DpAction | DpActionBoolean | DpActionFloat | DpActionInteger | DpActionSelect | DpActionString
  | DpBinarySensor | DpButton | DpFloat | DpInteger | DpSelect | DpSensor | DpSwitch | DpText

text \<open>The categories in \<open>ACTION_DATA_POINT_CATEGORIES\<close>, by class, and the class attributes.\<close>

definition is_action_category :: "dp_class \<Rightarrow> bool" where
  "is_action_category c \<longleftrightarrow>
     c \<in> {DpAction, DpActionBoolean, DpActionString, DpActionFloat, DpActionInteger, DpActionSelect, DpButton}"

definition retryable :: "dp_class \<Rightarrow> bool" where
  "retryable c \<longleftrightarrow> c \<notin> {DpAction, DpButton}"

definition validate_state_change :: "dp_class \<Rightarrow> bool" where
  "validate_state_change c \<longleftrightarrow> \<not> is_action_category c"

datatype parameter_status = NORMAL | UNKNOWN | OVERFLOW | UNDERFLOW | ERROR | INVALID | UNUSED | EXTERNAL

fun status_name :: "parameter_status \<Rightarrow> string" where
  "status_name NORMAL = ''NORMAL''"
| "status_name UNKNOWN = ''UNKNOWN''"
| "status_name OVERFLOW = ''OVERFLOW''"
| "status_name UNDERFLOW = ''UNDERFLOW''"
| "status_name ERROR = ''ERROR''"
| "status_name INVALID = ''INVALID''"
| "status_name UNUSED = ''UNUSED''"
| "status_name EXTERNAL = ''EXTERNAL''"

definition status_of_name :: "string \<Rightarrow> parameter_status option" where
  "status_of_name s = find (\<lambda>x. status_name x = s) [NORMAL, UNKNOWN, OVERFLOW, UNDERFLOW, ERROR, INVALID, UNUSED, EXTERNAL]"

definition OP_READ :: int where "OP_READ = 1"
definition OP_WRITE :: int where "OP_WRITE = 2"
definition OP_EVENT :: int where "OP_EVENT = 4"

record data_point =
  dp_kind :: dp_class
  dp_parameter :: string
  dp_type :: parameter_type
  dp_values :: "string list option"
  dp_enum_value_is_index :: bool
  dp_max :: pyval
  dp_min :: pyval
  dp_default :: pyval
  dp_visible :: bool
  dp_service :: bool
  dp_operations :: int
  dp_special :: "(string, pyval) dict option"
  dp_raw_unit :: "string option"
  dp_unit :: "string option"
  dp_multiplier :: real
  dp_is_forced_sensor :: bool
  dp_rpc_callback :: bool
  dp_rollback_timeout :: time
  dp_status_value_list :: "string list option"
  dp_status_value :: "parameter_status option"
  dp_current_value :: pyval
  dp_last_non_default_value :: pyval
  dp_unconfirmed_value :: pyval
  dp_modified_at :: time
  dp_refreshed_at :: time
  dp_unconfirmed_modified_at :: time
  dp_unconfirmed_refreshed_at :: time
  dp_state_uncertain :: bool
  dp_optimistic :: tracker

datatype dp_event =
    DataPointUpdated pyval pyval
  | OptimisticRollback string pyval pyval "string option" time
  | LastValueSendRemoved pyval
  | DeviceConfigChanged
  | DeviceUpdated
  | AvailabilityChanged bool

subsection \<open>Conversion of values\<close>

definition dp_convert :: "(real \<Rightarrow> string) \<Rightarrow> data_point \<Rightarrow> pyval \<Rightarrow> pyval" where
  "dp_convert float_text d v =
     (if v = PNone then PNone
      else if v = PStr '''' \<and> dp_type d \<in> {T_FLOAT, T_INTEGER} then PNone
      else case (case (dp_type d, dp_values d, v) of
                   (T_BOOL, Some vs, PStr s) \<Rightarrow>
                     (case index_of s vs of
                        None \<Rightarrow> Inl ValueError
                      | Some i \<Rightarrow> convert_value_noncached float_text (PInt (int i), T_BOOL, Some vs))
                 | _ \<Rightarrow> convert_value_noncached float_text (v, dp_type d, dp_values d)) of
             Inr r \<Rightarrow> r
           | Inl e \<Rightarrow> PNone)"

text \<open>Units: replaced by parameter, or where the backend's text contains a key of the table.\<close>

definition FIX_UNIT_REPLACE :: "(string \<times> string) list" where
  "FIX_UNIT_REPLACE =
     [([CHR 0x22], ''''), (''100%'', ''%''), (''% rF'', ''%''), (''degree'', [CHR 0xB0, CHR ''C'']), (''Lux'', ''lx''),
      (''m3'', [CHR ''m'', CHR 0xB3])]"

definition FIX_UNIT_BY_PARAM :: "(string, string) dict" where
  "FIX_UNIT_BY_PARAM =
     (let micrograms = [CHR 0xB5] @ ''g/m'' @ [CHR 0xB3]
      in [(''ACTUAL_TEMPERATURE'', [CHR 0xB0, CHR ''C'']), (''CURRENT_ILLUMINATION'', ''lx''), (''HUMIDITY'', ''%''),
          (''ILLUMINATION'', ''lx''), (''LEVEL'', ''%''), (''MASS_CONCENTRATION_PM_10_24H_AVERAGE'', micrograms),
          (''MASS_CONCENTRATION_PM_1_24H_AVERAGE'', micrograms), (''MASS_CONCENTRATION_PM_2_5_24H_AVERAGE'', micrograms),
          (''OPERATING_VOLTAGE'', ''V''), (''RSSI_DEVICE'', ''dBm''), (''RSSI_PEER'', ''dBm''), (''SUNSHINEDURATION'', ''min''),
          (''WIND_DIRECTION'', [CHR 0xB0]), (''WIND_DIRECTION_RANGE'', [CHR 0xB0])])"

definition text_contains :: "string \<Rightarrow> string \<Rightarrow> bool" where
  "text_contains needle s \<longleftrightarrow> list_ex (\<lambda>i. take (length needle) (drop i s) = needle) [0..<Suc (length s)]"

definition cleanup_unit :: "string \<Rightarrow> string option \<Rightarrow> string option" where
  "cleanup_unit parameter raw_unit =
     (case dict_get FIX_UNIT_BY_PARAM parameter of
        Some u \<Rightarrow> Some u
      | None \<Rightarrow>
          (case raw_unit of
             None \<Rightarrow> None
           | Some u \<Rightarrow>
               if u = [] then None
               else (case find (\<lambda>(check, fix). text_contains check u) FIX_UNIT_REPLACE of Some (_, fix) \<Rightarrow> Some fix | None \<Rightarrow> Some u)))"

definition get_multiplier :: "string option \<Rightarrow> real" where
  "get_multiplier raw_unit = (if raw_unit = Some ''100%'' then 100 else 1)"

definition assign_parameter_data :: "(real \<Rightarrow> string) \<Rightarrow> parameter_data \<Rightarrow> data_point \<Rightarrow> data_point" where
  "assign_parameter_data float_text pd d =
     (let vs = (case pd_value_list pd of Some (x # xs) \<Rightarrow> Some (x # xs) | _ \<Rightarrow> None);
          d = d\<lparr>dp_type := pd_type pd, dp_values := vs,
                 dp_enum_value_is_index := pd_type pd = T_ENUM \<and> vs \<noteq> None \<and> as_pyint (pd_min pd) \<noteq> None\<rparr>;
          d = d\<lparr>dp_max := dp_convert float_text d (pd_max pd)\<rparr>;
          d = d\<lparr>dp_min := dp_convert float_text d (pd_min pd)\<rparr>;
          def = dp_convert float_text d (case pd_default pd of None \<Rightarrow> PNone | Some v \<Rightarrow> v)
      in d\<lparr>dp_default := if py_bool def then def else dp_min d,
           dp_visible := pd_flags pd AND 1 = 1, dp_service := pd_flags pd AND 8 = 8,
           dp_operations := pd_operations pd, dp_special := pd_special pd,
           dp_raw_unit := pd_unit pd, dp_unit := cleanup_unit (dp_parameter d) (pd_unit pd), dp_multiplier := get_multiplier (pd_unit pd)\<rparr>)"

subsection \<open>Reading\<close>

definition dp_value :: "data_point \<Rightarrow> pyval" where
  "dp_value d = (if dp_refreshed_at d < dp_unconfirmed_refreshed_at d then dp_unconfirmed_value d else dp_current_value d)"

definition dp_refreshed :: "data_point \<Rightarrow> time" where
  "dp_refreshed d =
     (if dp_refreshed_at d < dp_unconfirmed_refreshed_at d then dp_unconfirmed_refreshed_at d else dp_refreshed_at d)"

definition select_value :: "data_point \<Rightarrow> py_error + pyval" where
  "select_value d =
     (case get_value_from_value_list (dp_value d) (dp_values d) of
        Inl e \<Rightarrow> Inl e
      | Inr (Some s) \<Rightarrow> Inr (PStr s)
      | Inr None \<Rightarrow>
          (case (dp_value d, dp_values d) of
             (PStr s, Some vs) \<Rightarrow> Inr (if s \<in> set vs then PStr s else dp_default d)
           | _ \<Rightarrow> Inr (dp_default d)))"

definition RSSI_PARAMETERS :: "string set" where
  "RSSI_PARAMETERS = {''RSSI_PEER'', ''RSSI_DEVICE''}"

definition transform_sensor_value :: "data_point \<Rightarrow> py_error + pyval" where
  "transform_sensor_value d =
     (case get_value_from_value_list (dp_value d) (dp_values d) of
        Inl e \<Rightarrow> Inl e
      | Inr (Some s) \<Rightarrow> Inr (PStr s)
      | Inr None \<Rightarrow>
          Inr (if dp_parameter d \<in> RSSI_PARAMETERS then fix_rssi (dp_value d)
               else if dp_type d = T_STRING then check_length_and_log (dp_value d)
               else dp_value d))"

text \<open>\<open>_get_value\<close> of the classes: only those without an override show an optimistic value.\<close>

definition dp_get_value :: "data_point \<Rightarrow> py_error + pyval" where
  "dp_get_value d =
     (case dp_kind d of
        DpSelect \<Rightarrow> select_value d
      | DpActionSelect \<Rightarrow> select_value d
      | DpSensor \<Rightarrow> transform_sensor_value d
      | DpSwitch \<Rightarrow> Inr (if dp_type d = T_ACTION then PBool False else dp_value d)
      | DpBinarySensor \<Rightarrow> Inr (if dp_value d \<noteq> PNone then dp_value d else dp_default d)
      | DpText \<Rightarrow> Inr (let v = check_length_and_log (dp_value d) in if v \<noteq> PNone then v else dp_default d)
      | _ \<Rightarrow> Inr (if ot_is_active (dp_optimistic d) then ot_value (dp_optimistic d) else dp_value d))"

definition is_readable :: "data_point \<Rightarrow> bool" where
  "is_readable d \<longleftrightarrow> dp_operations d AND OP_READ \<noteq> 0"

definition has_events :: "data_point \<Rightarrow> bool" where
  "has_events d \<longleftrightarrow> dp_operations d AND OP_EVENT \<noteq> 0"

definition is_writable :: "data_point \<Rightarrow> bool" where
  "is_writable d \<longleftrightarrow> \<not> dp_is_forced_sensor d \<and> dp_operations d AND OP_WRITE \<noteq> 0"

definition is_status_valid :: "data_point \<Rightarrow> bool" where
  "is_status_valid d \<longleftrightarrow> dp_status_value d \<in> {None, Some NORMAL, Some UNKNOWN}"

definition OPTIONAL_PARAMETERS :: "string set" where
  "OPTIONAL_PARAMETERS =
     {''LEVEL_2'', ''COLOR'', ''COLOR_TEMPERATURE'', ''EFFECT'', ''HUE'', ''SATURATION'', ''DURATION_UNIT'', ''ON_TIME'',
      ''ON_TIME_UNIT'', ''RAMP_TIME'', ''RAMP_TIME_UNIT'', ''RAMP_TIME_TO_OFF_UNIT'', ''PARTY_START_DAY'', ''PARTY_START_TIME'',
      ''PARTY_STOP_DAY'', ''PARTY_STOP_TIME'', ''PARTY_TEMPERATURE'', ''INHIBIT'', ''INSTALL_TEST''}"

definition allows_none_value :: "data_point \<Rightarrow> bool" where
  "allows_none_value d \<longleftrightarrow>
     dp_type d = T_ACTION \<or> dp_parameter d \<in> OPTIONAL_PARAMETERS \<or>
     (case dp_special d of None \<Rightarrow> False | Some sp \<Rightarrow> (case dict_get sp ''OPTIONAL'' of None \<Rightarrow> False | Some v \<Rightarrow> py_bool v))"

definition has_valid_value_type :: "data_point \<Rightarrow> bool" where
  "has_valid_value_type d \<longleftrightarrow>
     (case dp_value d of
        PNone \<Rightarrow> allows_none_value d
      | v \<Rightarrow> (case dp_type d of
                 T_BOOL \<Rightarrow> (\<exists>b. v = PBool b)
               | T_INTEGER \<Rightarrow> py_num v \<noteq> None
               | T_FLOAT \<Rightarrow> py_num v \<noteq> None
               | T_STRING \<Rightarrow> (\<exists>s. v = PStr s)
               | T_ENUM \<Rightarrow> as_pyint v \<noteq> None \<or> (\<exists>s. v = PStr s)
               | _ \<Rightarrow> True))"

text \<open>Bounds that are not numbers do not occur with numeric types; they would raise a \<open>TypeError\<close>.\<close>

definition is_value_in_range :: "data_point \<Rightarrow> bool" where
  "is_value_in_range d \<longleftrightarrow>
     (case dp_value d of
        PNone \<Rightarrow> True
      | v \<Rightarrow>
          if dp_type d = T_ENUM \<and> dp_values d \<noteq> None then
            (case (v, as_pyint v) of
               (_, Some i) \<Rightarrow> 0 \<le> i \<and> i < int (length (the (dp_values d)))
             | (PStr s, _) \<Rightarrow> s \<in> set (the (dp_values d))
             | _ \<Rightarrow> False)
          else if dp_type d \<in> {T_INTEGER, T_FLOAT} then
            (case py_num v of
               None \<Rightarrow> True
             | Some x \<Rightarrow> (\<forall>lo \<in> set_option (py_num (dp_min d)). lo \<le> x) \<and> (\<forall>hi \<in> set_option (py_num (dp_max d)). x \<le> hi))
          else True)"

definition is_valid :: "data_point \<Rightarrow> bool" where
  "is_valid d \<longleftrightarrow> INIT_DATETIME < dp_refreshed_at d \<and> is_status_valid d \<and> has_valid_value_type d \<and> is_value_in_range d"

subsection \<open>Writing values\<close>

definition reset_unconfirmed_value :: "data_point \<Rightarrow> data_point" where
  "reset_unconfirmed_value d =
     d\<lparr>dp_unconfirmed_value := PNone, dp_unconfirmed_modified_at := INIT_DATETIME, dp_unconfirmed_refreshed_at := INIT_DATETIME\<rparr>"

definition NO_CACHE_ENTRY :: pyval where
  "NO_CACHE_ENTRY = PStr ''NO_CACHE_ENTRY''"

text \<open>\<open>write_value\<close>: the data point, what is published, and the pair of old and new value.\<close>

definition write_value ::
  "(real \<Rightarrow> string) \<Rightarrow> time \<Rightarrow> pyval \<Rightarrow> data_point \<Rightarrow> data_point \<times> dp_event list \<times> pyval \<times> pyval" where
  "write_value float_text write_at v d =
     (let d = reset_unconfirmed_value d; old_value = dp_current_value d
      in if v = NO_CACHE_ENTRY
         then if dp_refreshed d \<noteq> INIT_DATETIME
              then (d\<lparr>dp_state_uncertain := True\<rparr>, [DataPointUpdated old_value PNone], old_value, PNone)
              else (d, [], old_value, PNone)
         else let new_value = dp_convert float_text d v;
                  d' = (if py_eq old_value new_value then d\<lparr>dp_refreshed_at := write_at\<rparr>
                        else d\<lparr>dp_modified_at := write_at, dp_refreshed_at := write_at, dp_current_value := new_value,
                                dp_last_non_default_value :=
                                  if py_eq new_value (dp_default d) then dp_last_non_default_value d else new_value\<rparr>)
              in (d'\<lparr>dp_state_uncertain := False\<rparr>, [DataPointUpdated old_value new_value], old_value, new_value))"

definition write_unconfirmed_value :: "(real \<Rightarrow> string) \<Rightarrow> time \<Rightarrow> pyval \<Rightarrow> data_point \<Rightarrow> data_point \<times> dp_event list" where
  "write_unconfirmed_value float_text write_at v d =
     (let d = reset_unconfirmed_value d; old_value = dp_value d; temp_value = dp_convert float_text d v;
          d' = (if py_eq old_value temp_value then d\<lparr>dp_unconfirmed_refreshed_at := write_at\<rparr>
                else d\<lparr>dp_unconfirmed_modified_at := write_at, dp_unconfirmed_refreshed_at := write_at, dp_state_uncertain := True\<rparr>)
      in (d'\<lparr>dp_unconfirmed_value := temp_value\<rparr>, [DataPointUpdated old_value temp_value]))"

definition update_status :: "pyval \<Rightarrow> data_point \<Rightarrow> data_point \<times> dp_event list" where
  "update_status status_value d =
     (let v = (case (as_pyint status_value, dp_status_value_list d) of
                 (Some i, Some vs) \<Rightarrow> if 0 \<le> i \<and> i < int (length vs) then PStr (vs ! nat i) else status_value
               | _ \<Rightarrow> status_value)
      in case (case v of PStr s \<Rightarrow> status_of_name s | _ \<Rightarrow> None) of
           None \<Rightarrow> (d, [])
         | Some st \<Rightarrow>
             if dp_status_value d = Some st then (d, [])
             else (d\<lparr>dp_status_value := Some st\<rparr>, [DataPointUpdated PNone PNone]))"

subsection \<open>Optimistic updates\<close>

definition apply_optimistic_value :: "time \<Rightarrow> pyval \<Rightarrow> data_point \<Rightarrow> data_point \<times> dp_event list" where
  "apply_optimistic_value now v d =
     (if is_action_category (dp_kind d) \<or> \<not> has_events d \<or> \<not> dp_rpc_callback d then (d, [])
      else (d\<lparr>dp_optimistic := ot_schedule_rollback now (dp_rollback_timeout d) (ot_apply now v (dp_value d) (dp_optimistic d))\<rparr>,
            [DataPointUpdated PNone PNone]))"

definition rollback_optimistic_value ::
  "time \<Rightarrow> string \<Rightarrow> string option \<Rightarrow> data_point \<Rightarrow> data_point \<times> dp_event list" where
  "rollback_optimistic_value now reason err d =
     (if \<not> ot_is_active (dp_optimistic d) then (d, [])
      else let age = (case ot_age now (dp_optimistic d) of None \<Rightarrow> 0 | Some a \<Rightarrow> a)
           in case ot_rollback (dp_optimistic d) of ((rolled_back, restored), t) \<Rightarrow>
                ((reset_unconfirmed_value (d\<lparr>dp_optimistic := t\<rparr>))\<lparr>dp_current_value := restored\<rparr>,
                 [DataPointUpdated PNone PNone, OptimisticRollback reason rolled_back restored err age]))"

text \<open>The timer of the event loop, once its deadline has come.\<close>

definition timer_fires :: "time \<Rightarrow> data_point \<Rightarrow> data_point \<times> dp_event list" where
  "timer_fires now d =
     (case ot_timeout_handle (dp_optimistic d) of
        Some deadline \<Rightarrow> if deadline \<le> now then rollback_optimistic_value now ''timeout'' None d else (d, [])
      | None \<Rightarrow> (d, []))"

subsection \<open>Generic data points\<close>

definition confirm :: "data_point \<Rightarrow> data_point" where
  "confirm d =
     (if ot_is_active (dp_optimistic d)
      then case ot_confirm_one (dp_optimistic d) of
             (final, t) \<Rightarrow> d\<lparr>dp_optimistic := if final then ot_clear t else t\<rparr>
      else d)"

definition dp_handle_event :: "(real \<Rightarrow> string) \<Rightarrow> time \<Rightarrow> pyval \<Rightarrow> data_point \<Rightarrow> data_point \<times> dp_event list" where
  "dp_handle_event float_text received_at v d =
     (case write_value float_text received_at v (confirm d) of
        (d', out, old_value, new_value) \<Rightarrow>
          (d', LastValueSendRemoved v # out @
             (if py_eq old_value new_value then []
              else (if dp_parameter d = ''CONFIG_PENDING'' \<and> new_value = PBool False \<and> old_value = PBool True
                    then [DeviceConfigChanged] else []) @
                   (if dp_parameter d \<in> {''UNREACH'', ''STICKY_UNREACH''}
                    then [DeviceUpdated, AvailabilityChanged (new_value = PBool False)] else []))))"

definition is_state_change :: "pyval \<Rightarrow> data_point \<Rightarrow> bool" where
  "is_state_change v d \<longleftrightarrow> \<not> py_eq v (dp_value d) \<or> dp_state_uncertain d"

text \<open>
  Preparation of a value for sending. A \<open>ValidationException\<close> and a \<open>ValueError\<close> have the same effect,
  so \<open>ValueError\<close> stands for both; a \<open>TypeError\<close> leaves \<open>send_value\<close>.
\<close>

definition number_converter :: "bool \<Rightarrow> pyval \<Rightarrow> py_error + pyval" where
  "number_converter integer v =
     (if \<not> integer then map_sum id PFloat (py_float v)
      else case v of
             PNone \<Rightarrow> Inl TypeError
           | PStr s \<Rightarrow> (case python_int s of None \<Rightarrow> Inl ValueError | Some i \<Rightarrow> Inr (PInt i))
           | _ \<Rightarrow> map_sum id (\<lambda>r. PInt (py_truncate r)) (py_float v))"

definition special_value :: "data_point \<Rightarrow> pyval \<Rightarrow> pyval option" where
  "special_value d v = (case (dp_special d, v) of (Some sp, PStr s) \<Rightarrow> dict_get sp s | _ \<Rightarrow> None)"

definition prepare_number_for_sending :: "bool \<Rightarrow> pyval \<Rightarrow> bool \<Rightarrow> data_point \<Rightarrow> py_error + pyval" where
  "prepare_number_for_sending integer v do_validate d =
     (if \<not> do_validate then number_converter integer v
      else if py_num v \<noteq> None then
        (case number_converter integer v of
           Inl e \<Rightarrow> Inl e
         | Inr c \<Rightarrow>
             (case (py_num (dp_min d), py_num c, py_num (dp_max d)) of
                (Some lo, Some x, Some hi) \<Rightarrow> if lo \<le> x \<and> x \<le> hi then Inr c else Inl ValueError
              | (Some lo, Some x, None) \<Rightarrow> if lo \<le> x then Inl TypeError else Inl ValueError
              | _ \<Rightarrow> Inl TypeError))
      else case special_value d v of Some w \<Rightarrow> number_converter integer w | None \<Rightarrow> Inl ValueError)"

definition prepare_select_for_sending :: "pyval \<Rightarrow> data_point \<Rightarrow> py_error + pyval" where
  "prepare_select_for_sending v d =
     (case dp_values d of
        None \<Rightarrow> Inl ValueError
      | Some vs \<Rightarrow>
          (case (py_num v, v) of
             (Some x, _) \<Rightarrow> if 0 \<le> x \<and> x < real (length vs) then Inr (PInt (py_truncate x)) else Inl ValueError
           | (None, PStr s) \<Rightarrow>
               (case index_of s vs of
                  None \<Rightarrow> Inl ValueError
                | Some i \<Rightarrow> Inr (if dp_enum_value_is_index d then PInt (int i) else PStr s))
           | _ \<Rightarrow> Inl ValueError))"

definition prepare_value_for_sending :: "(real \<Rightarrow> string) \<Rightarrow> pyval \<Rightarrow> bool \<Rightarrow> data_point \<Rightarrow> py_error + pyval" where
  "prepare_value_for_sending float_text v do_validate d =
     (case dp_kind d of
        DpFloat \<Rightarrow> prepare_number_for_sending False v do_validate d
      | DpActionFloat \<Rightarrow> prepare_number_for_sending False v do_validate d
      | DpInteger \<Rightarrow> prepare_number_for_sending True v do_validate d
      | DpActionInteger \<Rightarrow> prepare_number_for_sending True v do_validate d
      | DpSelect \<Rightarrow> prepare_select_for_sending v d
      | DpActionSelect \<Rightarrow> prepare_select_for_sending v d
      | DpActionBoolean \<Rightarrow> Inr (PBool (py_bool v))
      | DpActionString \<Rightarrow> Inr (PStr (py_str float_text v))
      | DpAction \<Rightarrow>
          (case get_index_of_value_from_value_list v (dp_values d) of
             Some i \<Rightarrow> Inr (if dp_enum_value_is_index d then PInt (int i) else v)
           | None \<Rightarrow> Inr v)
      | _ \<Rightarrow> Inr v)"

datatype send_outcome = NotSent | Collected pyval | Sent pyval bool | Raised py_error

definition send_value ::
  "(real \<Rightarrow> string) \<Rightarrow> time \<Rightarrow> pyval \<Rightarrow> bool \<Rightarrow> bool \<Rightarrow> bool option \<Rightarrow> data_point \<Rightarrow> send_outcome \<times> data_point \<times> dp_event list" where
  "send_value float_text now v collector do_validate retry d =
     (if \<not> is_writable d then (NotSent, d, [])
      else case prepare_value_for_sending float_text v do_validate d of
        Inl TypeError \<Rightarrow> (Raised TypeError, d, [])
      | Inl _ \<Rightarrow> (NotSent, d, [])
      | Inr prepared \<Rightarrow>
          let c = dp_convert float_text d prepared
          in if collector then (Collected c, d, [])
             else if validate_state_change (dp_kind d) \<and> \<not> is_state_change c d then (NotSent, d, [])
             else if ot_is_active (dp_optimistic d) \<and> py_eq (ot_value (dp_optimistic d)) c then (NotSent, d, [])
             else (Sent c (case retry of None \<Rightarrow> retryable (dp_kind d) | Some r \<Rightarrow> r), apply_optimistic_value now c d))"

definition send_failed :: "time \<Rightarrow> string \<Rightarrow> data_point \<Rightarrow> data_point \<times> dp_event list" where
  "send_failed now err d = rollback_optimistic_value now ''send_error'' (Some err) d"

end
