(* ===== verification/Data_Point_Values.thy ===== *)
theory Data_Point_Values
  imports Data_Point
begin

section \<open>What the value of a data point is\<close>

text \<open>
  Properties of data points over histories of sends, events from the backend, failed sends and timers:
  every value is of the type of the parameter, an optimistic value does not outlive its timer, and what
  a burst of commands ends in.
\<close>

datatype dp_step =
    Send time pyval
  | Arrived time pyval
  | Failed time string
  | Timer time
  | Unconfirmed time pyval

fun dp_run :: "(real \<Rightarrow> string) \<Rightarrow> data_point \<Rightarrow> dp_step \<Rightarrow> data_point" where
  "dp_run ft d (Send now v) = fst (snd (send_value ft now v False True None d))"
| "dp_run ft d (Arrived now v) = fst (dp_handle_event ft now v d)"
| "dp_run ft d (Failed now e) = fst (send_failed now e d)"
| "dp_run ft d (Timer now) = fst (timer_fires now d)"
| "dp_run ft d (Unconfirmed now v) = fst (write_unconfirmed_value ft now v d)"

subsection \<open>What does not change\<close>

text \<open>A data point with its changing fields cleared: the description of the parameter and the configuration.\<close>

definition static :: "data_point \<Rightarrow> data_point" where
  "static d = d\<lparr>dp_current_value := PNone, dp_last_non_default_value := PNone, dp_unconfirmed_value := PNone,
     dp_modified_at := 0, dp_refreshed_at := 0, dp_unconfirmed_modified_at := 0, dp_unconfirmed_refreshed_at := 0,
     dp_state_uncertain := False, dp_optimistic := optimistic_init\<rparr>"

lemma static_fields:
  assumes "static d = static d'"
  shows "dp_kind d = dp_kind d'" "dp_parameter d = dp_parameter d'" "dp_type d = dp_type d'" "dp_values d = dp_values d'"
    "dp_rollback_timeout d = dp_rollback_timeout d'" "dp_operations d = dp_operations d'" "dp_default d = dp_default d'"
    "dp_rpc_callback d = dp_rpc_callback d'" "dp_is_forced_sensor d = dp_is_forced_sensor d'"
    "dp_min d = dp_min d'" "dp_max d = dp_max d'" "dp_special d = dp_special d'"
    "dp_enum_value_is_index d = dp_enum_value_is_index d'"
  using assms by (cases d; cases d'; simp add: static_def)+

lemma static_updates [simp]:
  "static (d\<lparr>dp_current_value := v\<rparr>) = static d" "static (d\<lparr>dp_last_non_default_value := v\<rparr>) = static d"
  "static (d\<lparr>dp_unconfirmed_value := v\<rparr>) = static d" "static (d\<lparr>dp_modified_at := t\<rparr>) = static d"
  "static (d\<lparr>dp_refreshed_at := t\<rparr>) = static d" "static (d\<lparr>dp_unconfirmed_modified_at := t\<rparr>) = static d"
  "static (d\<lparr>dp_unconfirmed_refreshed_at := t\<rparr>) = static d" "static (d\<lparr>dp_state_uncertain := b\<rparr>) = static d"
  "static (d\<lparr>dp_optimistic := ot\<rparr>) = static d"
  by (simp_all add: static_def)

lemma static_ops [simp]:
  "static (reset_unconfirmed_value d) = static d" "static (fst (write_value ft t v d)) = static d"
  "static (fst (write_unconfirmed_value ft t v d)) = static d" "static (confirm d) = static d"
  "static (fst (apply_optimistic_value t v d)) = static d" "static (fst (rollback_optimistic_value t r e d)) = static d"
  by (simp_all add: reset_unconfirmed_value_def write_value_def write_unconfirmed_value_def confirm_def
      apply_optimistic_value_def rollback_optimistic_value_def Let_def split_beta)

lemma fst_handle_event: "fst (dp_handle_event ft t v d) = fst (write_value ft t v (confirm d))"
  by (simp add: dp_handle_event_def split: prod.splits)

lemma send_value_either:
  "fst (snd (send_value ft now v c dv r d)) = d \<or>
   (\<exists>p b. fst (send_value ft now v c dv r d) = Sent (dp_convert ft d p) b \<and>
          snd (send_value ft now v c dv r d) = apply_optimistic_value now (dp_convert ft d p) d)"
  by (auto simp: send_value_def Let_def split: sum.splits py_error.splits)

lemma send_value_cases:
  obtains "fst (snd (send_value ft now v c dv r d)) = d"
  | p b where "fst (send_value ft now v c dv r d) = Sent (dp_convert ft d p) b"
      "fst (snd (send_value ft now v c dv r d)) = fst (apply_optimistic_value now (dp_convert ft d p) d)"
  using send_value_either [of ft now v c dv r d] by auto

lemma static_run [simp]: "static (dp_run ft d e) = static d"
proof (cases e)
  case (Send now v)
  then show ?thesis
    by (cases rule: send_value_cases [of ft now v False True None d]) simp_all
qed (simp_all add: fst_handle_event send_failed_def timer_fires_def split: option.splits)

lemma static_runs: "static (foldl (dp_run ft) d es) = static d"
  by (induction es arbitrary: d) simp_all

subsection \<open>Optimistic values and their timer\<close>

definition timer_inv :: "data_point \<Rightarrow> bool" where
  "timer_inv d \<longleftrightarrow>
     0 \<le> ot_pending_sends (dp_optimistic d) \<and>
     (ot_is_active (dp_optimistic d) \<longrightarrow>
        0 < ot_pending_sends (dp_optimistic d) \<and>
        (\<exists>s. ot_sent_at (dp_optimistic d) = Some s \<and> ot_timeout_handle (dp_optimistic d) = Some (s + dp_rollback_timeout d)))"

lemma reset_fields [simp]:
  "dp_optimistic (reset_unconfirmed_value d) = dp_optimistic d" "dp_rollback_timeout (reset_unconfirmed_value d) = dp_rollback_timeout d"
  "dp_current_value (reset_unconfirmed_value d) = dp_current_value d" "dp_type (reset_unconfirmed_value d) = dp_type d"
  "dp_values (reset_unconfirmed_value d) = dp_values d" "dp_refreshed_at (reset_unconfirmed_value d) = dp_refreshed_at d"
  "dp_unconfirmed_value (reset_unconfirmed_value d) = PNone" "dp_kind (reset_unconfirmed_value d) = dp_kind d"
  "dp_unconfirmed_refreshed_at (reset_unconfirmed_value d) = INIT_DATETIME"
  by (simp_all add: reset_unconfirmed_value_def)

lemma write_value_optimistic [simp]:
  "dp_optimistic (fst (write_value ft t v d)) = dp_optimistic d" "dp_rollback_timeout (fst (write_value ft t v d)) = dp_rollback_timeout d"
  by (simp_all add: write_value_def Let_def)

lemma confirm_timer: "timer_inv d \<Longrightarrow> timer_inv (confirm d)"
  by (auto simp: timer_inv_def confirm_def ot_confirm_one_def ot_clear_def ot_cancel_timer_def ot_is_active_def Let_def)

lemma rollback_timer: "timer_inv d \<Longrightarrow> timer_inv (fst (rollback_optimistic_value now r e d))"
  by (auto simp: timer_inv_def rollback_optimistic_value_def ot_rollback_def ot_cancel_timer_def ot_is_active_def Let_def)

lemma apply_timer: "timer_inv d \<Longrightarrow> timer_inv (fst (apply_optimistic_value now v d))"
  by (auto simp: timer_inv_def apply_optimistic_value_def ot_apply_def ot_schedule_rollback_def ot_cancel_timer_def ot_is_active_def Let_def)

lemma step_timer: "timer_inv d \<Longrightarrow> timer_inv (dp_run ft d e)"
proof (cases e)
  case (Send now v)
  assume "timer_inv d"
  then show ?thesis
    unfolding Send dp_run.simps by (cases rule: send_value_cases [of ft now v False True None d]) (simp_all add: apply_timer)
next
  case (Arrived now v)
  assume "timer_inv d"
  then have "timer_inv (confirm d)" by (rule confirm_timer)
  then show ?thesis by (simp add: Arrived fst_handle_event timer_inv_def)
next
  case (Unconfirmed now v)
  assume "timer_inv d"
  then show ?thesis by (simp add: Unconfirmed timer_inv_def write_unconfirmed_value_def Let_def)
qed (auto simp: send_failed_def timer_fires_def rollback_timer split: option.splits)

interpretation timers: step_system "dp_run ft" timer_inv "\<lambda>_. True" for ft
  by unfold_locales (simp add: step_timer)

definition data_point_init :: "dp_class \<Rightarrow> string \<Rightarrow> bool \<Rightarrow> time \<Rightarrow> (real \<Rightarrow> string) \<Rightarrow> parameter_data \<Rightarrow> data_point" where
  "data_point_init kind parameter rpc_callback timeout ft pd =
     assign_parameter_data ft pd
       \<lparr>dp_kind = kind, dp_parameter = parameter, dp_type = T_EMPTY, dp_values = None, dp_enum_value_is_index = False,
        dp_max = PNone, dp_min = PNone, dp_default = PNone, dp_visible = False, dp_service = False, dp_operations = 0,
        dp_special = None, dp_raw_unit = None, dp_unit = None, dp_multiplier = 1, dp_is_forced_sensor = False, dp_rpc_callback = rpc_callback, dp_rollback_timeout = timeout,
        dp_status_value_list = None, dp_status_value = None, dp_current_value = PNone, dp_last_non_default_value = PNone,
        dp_unconfirmed_value = PNone, dp_modified_at = INIT_DATETIME, dp_refreshed_at = INIT_DATETIME,
        dp_unconfirmed_modified_at = INIT_DATETIME, dp_unconfirmed_refreshed_at = INIT_DATETIME,
        dp_state_uncertain = True, dp_optimistic = optimistic_init\<rparr>"

lemma init_fields [simp]:
  "dp_optimistic (data_point_init k p r t ft pd) = optimistic_init" "dp_current_value (data_point_init k p r t ft pd) = PNone"
  "dp_unconfirmed_value (data_point_init k p r t ft pd) = PNone" "dp_rollback_timeout (data_point_init k p r t ft pd) = t"
  "dp_type (data_point_init k p r t ft pd) = pd_type pd"
  by (simp_all add: data_point_init_def assign_parameter_data_def Let_def)


definition sample_pd :: parameter_data where
  "sample_pd = \<lparr>pd_type = T_FLOAT, pd_value_list = None, pd_min = PFloat 0, pd_max = PFloat 1, pd_default = None, pd_flags = 1,
     pd_operations = 7, pd_special = None, pd_unit = None\<rparr>"

definition no_text :: "real \<Rightarrow> string" where
  "no_text r = []"

definition sample_dp :: data_point where
  "sample_dp = data_point_init DpFloat ''LEVEL'' True 30 no_text sample_pd"

lemma sample_dp_fields:
  "dp_kind sample_dp = DpFloat" "dp_type sample_dp = T_FLOAT" "dp_values sample_dp = None" "dp_operations sample_dp = 7"
  "dp_rpc_callback sample_dp" "\<not> dp_is_forced_sensor sample_dp" "dp_min sample_dp = PFloat 0" "dp_max sample_dp = PFloat 1"
  "dp_state_uncertain sample_dp" "dp_rollback_timeout sample_dp = 30" "dp_optimistic sample_dp = optimistic_init"
  "dp_current_value sample_dp = PNone" "dp_refreshed_at sample_dp = INIT_DATETIME"
  "dp_unconfirmed_refreshed_at sample_dp = INIT_DATETIME"
  by (simp_all add: sample_dp_def data_point_init_def assign_parameter_data_def sample_pd_def Let_def dp_convert_def
      convert_value_noncached_def py_float_def)

lemma sample_flags [simp]: "is_writable sample_dp" "has_events sample_dp"
  by (simp_all add: is_writable_def has_events_def sample_dp_fields OP_WRITE_def OP_EVENT_def)

lemma sample_prepare:
  "0 \<le> x \<Longrightarrow> x \<le> 1 \<Longrightarrow> static d = static sample_dp \<Longrightarrow>
     prepare_value_for_sending ft (PFloat x) True d = Inr (PFloat x) \<and> dp_convert ft d (PFloat x) = PFloat x"
  using static_fields [of d sample_dp]
  by (simp add: prepare_value_for_sending_def prepare_number_for_sending_def number_converter_def py_num_def py_float_def
      sample_dp_fields dp_convert_def convert_value_noncached_def)

lemma sample_send_shown:
  "0 \<le> x \<Longrightarrow> x \<le> 1 \<Longrightarrow> ot_is_active (dp_optimistic (dp_run ft sample_dp (Send t (PFloat x))))"
  using sample_prepare [of x sample_dp ft]
  by (simp add: send_value_def is_state_change_def sample_dp_fields optimistic_init_def ot_is_active_def apply_optimistic_value_def
      is_action_category_def validate_state_change_def ot_apply_def ot_schedule_rollback_def ot_cancel_timer_def Let_def)


subsection \<open>Types\<close>

text \<open>A value of the type of the parameter; enumerations and actions hold what the backend reports.\<close>

fun typed :: "parameter_type \<Rightarrow> pyval \<Rightarrow> bool" where
  "typed T_BOOL v \<longleftrightarrow> v = PNone \<or> (\<exists>b. v = PBool b)"
| "typed T_INTEGER v \<longleftrightarrow> v = PNone \<or> (\<exists>i. v = PInt i)"
| "typed T_FLOAT v \<longleftrightarrow> v = PNone \<or> (\<exists>r. v = PFloat r)"
| "typed T_STRING v \<longleftrightarrow> v = PNone \<or> (\<exists>s. v = PStr s)"
| "typed _ v \<longleftrightarrow> True"

lemma typed_None [simp]: "typed t PNone"
  by (cases t) simp_all

lemma map_sum_Inr: "map_sum id f r = Inr y \<longleftrightarrow> (\<exists>x. r = Inr x \<and> y = f x)"
  by (cases r) auto

lemma dp_convert_typed: "typed (dp_type d) (dp_convert ft d v)"
  by (cases "dp_type d")
    (auto simp: dp_convert_def convert_value_noncached_def map_sum_Inr split: option.splits pyval.splits sum.splits list.splits)

definition type_inv :: "data_point \<Rightarrow> bool" where
  "type_inv d \<longleftrightarrow>
     typed (dp_type d) (dp_current_value d) \<and> typed (dp_type d) (dp_unconfirmed_value d) \<and>
     typed (dp_type d) (ot_value (dp_optimistic d)) \<and> typed (dp_type d) (ot_previous_value (dp_optimistic d))"

lemma type_value: "type_inv d \<Longrightarrow> typed (dp_type d) (dp_value d)"
  by (simp add: type_inv_def dp_value_def)

lemma type_apply:
  "type_inv d \<Longrightarrow> typed (dp_type d) v \<Longrightarrow> type_inv (fst (apply_optimistic_value now v d))"
  using type_value [of d]
  by (simp add: type_inv_def apply_optimistic_value_def ot_apply_def ot_schedule_rollback_def ot_cancel_timer_def Let_def)

lemma type_step: "type_inv d \<Longrightarrow> type_inv (dp_run ft d e)"
proof -
  assume inv: "type_inv d"
  have rollback: "type_inv (fst (rollback_optimistic_value t r err d))" for t r err
    using inv by (simp add: type_inv_def rollback_optimistic_value_def ot_rollback_def ot_cancel_timer_def Let_def)
  show ?thesis
  proof (cases e)
    case (Send now v)
    show ?thesis
    proof (cases rule: send_value_cases [of ft now v False True None d])
      case 1
      with inv show ?thesis by (simp add: Send)
    next
      case (2 p b)
      have "type_inv (fst (apply_optimistic_value now (dp_convert ft d p) d))"
        using inv dp_convert_typed [of d ft p] by (rule type_apply)
      with 2 show ?thesis by (simp add: Send)
    qed
  next
    case (Arrived now v)
    have conf: "type_inv (confirm d)"
      using inv by (simp add: type_inv_def confirm_def ot_confirm_one_def ot_clear_def ot_cancel_timer_def Let_def)
    have "type_inv (fst (write_value ft now v d'))" if "type_inv d'" for d'
      using that dp_convert_typed [of "reset_unconfirmed_value d'" ft v]
      by (simp add: type_inv_def write_value_def Let_def)
    with conf show ?thesis by (simp add: Arrived fst_handle_event)
  next
    case (Unconfirmed now v)
    then show ?thesis
      using inv dp_convert_typed [of "reset_unconfirmed_value d" ft v]
      by (simp add: type_inv_def write_unconfirmed_value_def Let_def)
  qed (use inv rollback in \<open>simp_all add: send_failed_def timer_fires_def split: option.splits\<close>)
qed

interpretation types: step_system "dp_run ft" type_inv "\<lambda>_. True" for ft
  by unfold_locales (simp add: type_step)

text \<open>
  C29: The value of a data point is of the type of its parameter. After any history of commands, events
  with arbitrary values, failures and timers, the value of a boolean, integer, float or text parameter is
  missing or of that type, so that the data point's own type check fails only for a missing value.
\<close>

theorem values_well_typed:
  assumes "d = foldl (dp_run ft) (data_point_init kind parameter callback timeout ft pd) history"
    and "pd_type pd \<in> {T_BOOL, T_INTEGER, T_FLOAT, T_STRING}" and "dp_value d \<noteq> PNone"
  shows "typed (pd_type pd) (dp_value d) \<and> has_valid_value_type d"
proof -
  have ty: "dp_type d = pd_type pd"
    using static_fields(3) [OF static_runs] by (simp add: assms(1))
  have "type_inv (data_point_init kind parameter callback timeout ft pd)"
    by (simp add: type_inv_def optimistic_init_def)
  then have "type_inv d"
    unfolding assms(1) by (rule types.run_inv) (simp add: list_all_iff)
  then have "typed (pd_type pd) (dp_value d)"
    using type_value ty by force
  with assms(2,3) ty show ?thesis
    by (cases "dp_value d") (auto simp: has_valid_value_type_def py_num_def)
qed

theorem values_well_typed_witness:
  "typed T_FLOAT (dp_value (dp_run no_text sample_dp (Arrived 1 (PInt 1))))"
proof -
  have "dp_value (dp_run no_text sample_dp (Arrived 1 (PInt 1))) = PFloat 1"
    by (simp add: fst_handle_event confirm_def sample_dp_fields optimistic_init_def ot_is_active_def write_value_def Let_def dp_value_def
        dp_convert_def convert_value_noncached_def py_float_def py_eq_def py_num_def INIT_DATETIME_def NO_CACHE_ENTRY_def)
  with values_well_typed [of "dp_run no_text sample_dp (Arrived 1 (PInt 1))" no_text DpFloat "''LEVEL''" True 30 sample_pd
      "[Arrived 1 (PInt 1)]"]
  show ?thesis by (simp add: sample_dp_def sample_pd_def)
qed

subsection \<open>Bursts of commands\<close>

text \<open>A data point for which commands are shown before they are confirmed.\<close>

definition confirmable :: "data_point \<Rightarrow> bool" where
  "confirmable d \<longleftrightarrow> \<not> is_action_category (dp_kind d) \<and> has_events d \<and> dp_rpc_callback d"

definition apply_all :: "(time \<times> pyval) list \<Rightarrow> data_point \<Rightarrow> data_point" where
  "apply_all sends d = foldl (\<lambda>d (now, v). fst (apply_optimistic_value now v d)) d sends"

definition events_all :: "(real \<Rightarrow> string) \<Rightarrow> (time \<times> pyval) list \<Rightarrow> data_point \<Rightarrow> data_point" where
  "events_all ft events d = foldl (\<lambda>d (now, v). fst (dp_handle_event ft now v d)) d events"

lemma static_confirmable: "static d = static d' \<Longrightarrow> confirmable d = confirmable d'"
  using static_fields [of d d'] by (simp add: confirmable_def has_events_def)

lemma static_all [simp]: "static (apply_all sends d) = static d" "static (events_all ft events d) = static d"
  unfolding apply_all_def events_all_def
  by (induction sends arbitrary: d, simp_all add: split_beta) (induction events arbitrary: d, simp_all add: split_beta fst_handle_event)

text \<open>The state of a burst: what is shown, how many confirmations are missing, and the value to restore.\<close>

definition in_burst :: "pyval \<Rightarrow> pyval \<Rightarrow> int \<Rightarrow> data_point \<Rightarrow> bool" where
  "in_burst shown before missing d \<longleftrightarrow>
     ot_value (dp_optimistic d) = shown \<and> ot_previous_value (dp_optimistic d) = before \<and> ot_pending_sends (dp_optimistic d) = missing"

lemma apply_in_burst:
  "confirmable d \<Longrightarrow> in_burst s b n d \<Longrightarrow> 0 < n \<Longrightarrow> in_burst v b (n + 1) (fst (apply_optimistic_value now v d))"
  by (simp add: confirmable_def in_burst_def apply_optimistic_value_def ot_apply_def ot_schedule_rollback_def ot_cancel_timer_def Let_def)

lemma apply_starts_burst:
  "confirmable d \<Longrightarrow> ot_pending_sends (dp_optimistic d) = 0 \<Longrightarrow> in_burst v (dp_value d) 1 (fst (apply_optimistic_value now v d))"
  by (simp add: confirmable_def in_burst_def apply_optimistic_value_def ot_apply_def ot_schedule_rollback_def ot_cancel_timer_def Let_def)

lemma apply_all_in_burst:
  "confirmable d \<Longrightarrow> in_burst s b n d \<Longrightarrow> 0 < n \<Longrightarrow>
     in_burst (if sends = [] then s else snd (last sends)) b (n + int (length sends)) (apply_all sends d)"
proof (induction sends arbitrary: d s n)
  case (Cons e sends)
  let ?d = "fst (apply_optimistic_value (fst e) (snd e) d)"
  have "confirmable ?d"
    using Cons.prems(1) static_confirmable [of ?d d] by simp
  from Cons.IH [OF this apply_in_burst [OF Cons.prems(1-3)]] Cons.prems(3) show ?case
    by (auto simp: apply_all_def split_beta add.assoc split: if_splits)
qed (simp add: apply_all_def)

lemma burst_started:
  assumes "confirmable d" and "ot_pending_sends (dp_optimistic d) = 0" and "sends \<noteq> []"
  shows "in_burst (snd (last sends)) (dp_value d) (int (length sends)) (apply_all sends d)"
proof -
  obtain now v rest where sends: "sends = (now, v) # rest"
    using assms(3) by (cases sends) auto
  let ?d = "fst (apply_optimistic_value now v d)"
  have "confirmable ?d"
    using assms(1) static_confirmable [of ?d d] by simp
  from apply_all_in_burst [OF this apply_starts_burst [OF assms(1,2)], of rest] show ?thesis
    by (auto simp: sends apply_all_def split: if_splits)
qed

lemma event_in_burst:
  "in_burst s b n d \<Longrightarrow> s \<noteq> PNone \<Longrightarrow> 1 < n \<Longrightarrow> in_burst s b (n - 1) (fst (dp_handle_event ft now v d))"
  by (simp add: in_burst_def fst_handle_event confirm_def ot_is_active_def ot_confirm_one_def Let_def)

lemma events_in_burst:
  "in_burst s b n d \<Longrightarrow> s \<noteq> PNone \<Longrightarrow> int (length events) < n \<Longrightarrow> in_burst s b (n - int (length events)) (events_all ft events d)"
proof (induction events arbitrary: d n)
  case (Cons e events)
  have "in_burst s b (n - 1) (fst (dp_handle_event ft (fst e) (snd e) d))"
    using Cons.prems by (intro event_in_burst) auto
  from Cons.IH [OF this Cons.prems(2)] Cons.prems(3) show ?case
    by (simp add: events_all_def split_beta diff_diff_eq)
qed (simp add: events_all_def)

text \<open>The last event of a burst, and any event outside one, shows what the backend reports.\<close>

definition settled :: "data_point \<Rightarrow> bool" where
  "settled d \<longleftrightarrow> \<not> ot_is_active (dp_optimistic d) \<and> ot_pending_sends (dp_optimistic d) = 0"

lemma event_settles:
  assumes "settled d \<or> in_burst s b 1 d" and "s \<noteq> PNone"
  shows "settled (fst (dp_handle_event ft now v d))"
  using assms
  by (auto simp: settled_def in_burst_def fst_handle_event confirm_def ot_is_active_def ot_confirm_one_def ot_clear_def ot_cancel_timer_def Let_def)

lemma py_eq_refl [simp]: "py_eq v v"
  by (simp add: py_eq_def split: option.splits)

lemma dp_convert_static:
  assumes "static d = static d'"
  shows "dp_convert ft d v = dp_convert ft d' v"
  unfolding dp_convert_def static_fields(3,4) [OF assms] ..

lemma event_value:
  assumes "v \<noteq> NO_CACHE_ENTRY" and "INIT_DATETIME \<le> now"
  shows "py_eq (dp_value (fst (dp_handle_event ft now v d))) (dp_convert ft d v)"
proof -
  have "dp_convert ft (reset_unconfirmed_value (confirm d)) v = dp_convert ft d v"
    by (rule dp_convert_static) simp
  with assms show ?thesis
    by (simp add: fst_handle_event write_value_def Let_def dp_value_def)
qed

lemma events_settle:
  assumes "settled d \<or> in_burst s b n d" and "s \<noteq> PNone" and "n \<le> int (length events)" and "0 < n" and "events \<noteq> []"
  shows "settled (events_all ft events d)"
  using assms
proof (induction events arbitrary: d n)
  case (Cons e events)
  let ?d = "fst (dp_handle_event ft (fst e) (snd e) d)"
  have step: "settled ?d \<or> in_burst s b (n - 1) ?d \<and> 1 < n"
  proof (cases "settled d \<or> n = 1")
    case True
    then have "settled d \<or> in_burst s b 1 d" using Cons.prems(1) by auto
    then show ?thesis using event_settles [OF _ Cons.prems(2)] by blast
  next
    case False
    then show ?thesis using Cons.prems(1,2,4) event_in_burst [of s b n d ft "fst e" "snd e"] by auto
  qed
  show ?case
  proof (cases "events = []")
    case True
    with step Cons.prems(3) show ?thesis by (auto simp: events_all_def split_beta)
  next
    case False
    with step Cons.prems(2,3) Cons.IH [of ?d "n - 1"] Cons.IH [of ?d 1] show ?thesis
      by (cases events) (auto simp: events_all_def split_beta)
  qed
qed simp

lemma events_value:
  assumes "events \<noteq> []" and "list_all (\<lambda>(t, v). INIT_DATETIME \<le> t \<and> v \<noteq> NO_CACHE_ENTRY) events"
  shows "py_eq (dp_value (events_all ft events d)) (dp_convert ft d (snd (last events)))"
proof -
  obtain es t v where es: "events = es @ [(t, v)]"
    using assms(1) by (cases events rule: rev_cases) auto
  have "py_eq (dp_value (fst (dp_handle_event ft t v (events_all ft es d)))) (dp_convert ft (events_all ft es d) v)"
    using assms(2) by (intro event_value) (simp_all add: es)
  moreover have "dp_convert ft (events_all ft es d) v = dp_convert ft d v"
    by (rule dp_convert_static) simp
  ultimately show ?thesis by (simp add: es events_all_def)
qed

lemma rollback_value:
  assumes "in_burst s b n d" and "s \<noteq> PNone" and "INIT_DATETIME \<le> dp_refreshed_at d"
  shows "settled (fst (rollback_optimistic_value now r e d))" and "dp_value (fst (rollback_optimistic_value now r e d)) = b"
  using assms
  by (simp_all add: settled_def in_burst_def rollback_optimistic_value_def ot_is_active_def ot_rollback_def ot_cancel_timer_def dp_value_def Let_def)

lemma refreshed_all:
  "INIT_DATETIME \<le> dp_refreshed_at d \<Longrightarrow> INIT_DATETIME \<le> dp_refreshed_at (apply_all sends d)"
  "INIT_DATETIME \<le> dp_refreshed_at d \<Longrightarrow> list_all (\<lambda>(t, v). INIT_DATETIME \<le> t \<and> v \<noteq> NO_CACHE_ENTRY) events \<Longrightarrow>
     INIT_DATETIME \<le> dp_refreshed_at (events_all ft events d)"
proof -
  have *: "dp_refreshed_at (fst (apply_optimistic_value t v d)) = dp_refreshed_at d" for t v d
    by (simp add: apply_optimistic_value_def)
  show "INIT_DATETIME \<le> dp_refreshed_at d \<Longrightarrow> INIT_DATETIME \<le> dp_refreshed_at (apply_all sends d)"
    unfolding apply_all_def by (induction sends arbitrary: d) (simp_all add: split_beta *)
  have **: "v \<noteq> NO_CACHE_ENTRY \<Longrightarrow> dp_refreshed_at (fst (dp_handle_event ft t v d)) = t" for t v d
    by (simp add: fst_handle_event write_value_def Let_def)
  show "INIT_DATETIME \<le> dp_refreshed_at d \<Longrightarrow> list_all (\<lambda>(t, v). INIT_DATETIME \<le> t \<and> v \<noteq> NO_CACHE_ENTRY) events \<Longrightarrow>
     INIT_DATETIME \<le> dp_refreshed_at (events_all ft events d)"
    unfolding events_all_def by (induction events arbitrary: d) (simp_all add: split_beta **)
qed

text \<open>
  C6: What a burst of commands ends in. When as many events arrive as commands were sent, the data
  point is settled and shows the last value reported. When fewer arrive, because the backend merged
  the commands or reports only the last state, the last command stays optimistic, and the rollback that
  its timer starts restores the value from before the burst, whatever the backend has reported since.
\<close>

theorem burst_outcome:
  assumes "confirmable d" and "settled d" and "sends \<noteq> []" and "snd (last sends) \<noteq> PNone"
    and "INIT_DATETIME \<le> dp_refreshed_at d" and "list_all (\<lambda>(t, v). INIT_DATETIME \<le> t \<and> v \<noteq> NO_CACHE_ENTRY) events"
  shows "(length sends \<le> length events \<longrightarrow>
            settled (events_all ft events (apply_all sends d)) \<and>
            py_eq (dp_value (events_all ft events (apply_all sends d))) (dp_convert ft d (snd (last events)))) \<and>
         (length events < length sends \<longrightarrow>
            ot_value (dp_optimistic (events_all ft events (apply_all sends d))) = snd (last sends) \<and>
            settled (fst (rollback_optimistic_value now reason err (events_all ft events (apply_all sends d)))) \<and>
            dp_value (fst (rollback_optimistic_value now reason err (events_all ft events (apply_all sends d)))) = dp_value d)"
proof -
  have burst: "in_burst (snd (last sends)) (dp_value d) (int (length sends)) (apply_all sends d)"
    using assms(1-3) by (intro burst_started) (auto simp: settled_def)
  have conv: "dp_convert ft (apply_all sends d) v = dp_convert ft d v" for v
    by (rule dp_convert_static) simp
  have "settled (events_all ft events (apply_all sends d)) \<and>
        py_eq (dp_value (events_all ft events (apply_all sends d))) (dp_convert ft d (snd (last events)))"
    if "length sends \<le> length events"
  proof -
    have ne: "events \<noteq> []" using that assms(3) by auto
    show ?thesis
      using events_settle [OF disjI2 [OF burst] assms(4) _ _ ne, of ft] events_value [OF ne assms(6), of ft "apply_all sends d"] that assms(3)
      by (simp add: conv)
  qed
  moreover have "in_burst (snd (last sends)) (dp_value d) (int (length sends) - int (length events)) (events_all ft events (apply_all sends d))"
    if "length events < length sends"
    using events_in_burst [OF burst assms(4)] that by simp
  moreover have "INIT_DATETIME \<le> dp_refreshed_at (events_all ft events (apply_all sends d))"
    using refreshed_all assms(5,6) by blast
  ultimately show ?thesis
    using rollback_value [OF _ assms(4)] by (auto simp: in_burst_def)
qed

definition known_dp :: data_point where
  "known_dp = dp_run no_text sample_dp (Arrived 1 (PFloat 0))"

lemma known_dp:
  "static known_dp = static sample_dp" "dp_value known_dp = PFloat 0" "\<not> dp_state_uncertain known_dp" "dp_refreshed_at known_dp = 1"
  "dp_optimistic known_dp = optimistic_init"
  by (simp_all add: known_dp_def fst_handle_event confirm_def sample_dp_fields optimistic_init_def ot_is_active_def write_value_def Let_def
      dp_value_def dp_convert_def convert_value_noncached_def py_float_def py_eq_def py_num_def INIT_DATETIME_def NO_CACHE_ENTRY_def)

theorem burst_outcome_witness:
  "dp_value (events_all no_text [(4, PFloat (1 / 2))] (apply_all [(2, PFloat (3 / 10)), (3, PFloat (1 / 2))] known_dp)) = PFloat (1 / 2) \<and>
   dp_value (fst (rollback_optimistic_value 33 ''timeout'' None
     (events_all no_text [(4, PFloat (1 / 2))] (apply_all [(2, PFloat (3 / 10)), (3, PFloat (1 / 2))] known_dp)))) = PFloat 0"
proof -
  let ?sends = "[(2::time, PFloat (3 / 10)), (3, PFloat (1 / 2))]" and ?events = "[(4::time, PFloat (1 / 2))]"
  let ?d = "apply_all ?sends known_dp"
  have conf: "confirmable known_dp"
    using static_confirmable [OF known_dp(1)]
    by (simp add: confirmable_def sample_dp_fields is_action_category_def)
  have set: "settled known_dp"
    by (simp add: settled_def known_dp optimistic_init_def ot_is_active_def)
  have ev: "list_all (\<lambda>(t, v). INIT_DATETIME \<le> t \<and> v \<noteq> NO_CACHE_ENTRY) ?events"
    by (simp add: INIT_DATETIME_def NO_CACHE_ENTRY_def)
  have "dp_convert no_text ?d (PFloat (1 / 2)) = PFloat (1 / 2)"
    using sample_prepare [of "1 / 2" ?d no_text] known_dp(1) by simp
  moreover have "typed T_FLOAT (dp_value (events_all no_text ?events ?d))"
  proof -
    have "type_inv sample_dp"
      by (simp add: type_inv_def sample_dp_fields optimistic_init_def sample_dp_def)
    then have known: "type_inv known_dp"
      unfolding known_dp_def by (rule type_step)
    have ty: "dp_type d = T_FLOAT" if "static d = static known_dp" for d
      using static_fields(3) [of d sample_dp] that known_dp(1) by (simp add: sample_dp_fields)
    then have "typed (dp_type d) (PFloat x)" if "static d = static known_dp" for d x
      using that by simp
    with known have "type_inv ?d"
      unfolding apply_all_def by (auto intro!: type_apply)
    then have "type_inv (events_all no_text ?events ?d)"
      using type_step [of ?d no_text "Arrived 4 (PFloat (1 / 2))"] by (simp add: events_all_def)
    then show ?thesis
      using type_value [of "events_all no_text ?events ?d"] static_fields(3) [of "events_all no_text ?events ?d" sample_dp] known_dp(1)
      by (simp add: sample_dp_fields)
  qed
  moreover have "py_eq (dp_value (events_all no_text ?events ?d)) (dp_convert no_text ?d (PFloat (1 / 2)))"
    using events_value [OF _ ev, of no_text ?d] by simp
  ultimately have "dp_value (events_all no_text ?events ?d) = PFloat (1 / 2)"
    by (auto simp: py_eq_def py_num_def)
  then show ?thesis
    using burst_outcome [OF conf set _ _ _ ev, of ?sends no_text 33 "''timeout''" None] known_dp
    by (simp add: INIT_DATETIME_def)
qed

subsection \<open>Commands that are not sent\<close>

lemma prepare_static:
  assumes "static d = static d'"
  shows "prepare_value_for_sending ft v b d = prepare_value_for_sending ft v b d'"
  unfolding prepare_value_for_sending_def prepare_number_for_sending_def prepare_select_for_sending_def special_value_def
    static_fields [OF assms] ..

text \<open>
  A command that takes an unconfirmed one back is not sent. The check for a change compares with
  the last confirmed value: once a command for another value is under way, the command for the value
  confirmed before it is regarded as no change and dropped, and the device goes to the value that was
  to be taken back.
\<close>

theorem revert_command_dropped:
  assumes "send_value ft t vb False True None d = (Sent cb r, d', out)" and "\<not> dp_state_uncertain d"
    and "validate_state_change (dp_kind d)"
    and "prepare_value_for_sending ft va True d = Inr pa" and "py_eq (dp_convert ft d pa) (dp_value d)"
  shows "send_value ft t' va False True None d' = (NotSent, d', [])"
proof -
  have d': "d' = fst (apply_optimistic_value t cb d)" and w: "is_writable d"
    using assms(1) by (auto simp: send_value_def Let_def split: if_splits sum.splits py_error.splits)
  have st: "static d' = static d" by (simp add: d')
  have "dp_value d' = dp_value d" "dp_state_uncertain d' = dp_state_uncertain d"
    by (simp_all add: d' apply_optimistic_value_def dp_value_def)
  moreover have "is_writable d'"
    using w by (simp add: is_writable_def static_fields [OF st])
  moreover have "prepare_value_for_sending ft va True d' = Inr pa" "dp_convert ft d' pa = dp_convert ft d pa"
    using assms(4) prepare_static [OF st] dp_convert_static [OF st] by simp_all
  ultimately show ?thesis
    using assms(2,3,5) by (simp add: send_value_def is_state_change_def static_fields(1) [OF st])
qed

theorem revert_command_dropped_witness:
  "\<exists>d' out. send_value no_text 2 (PFloat 1) False True None known_dp = (Sent (PFloat 1) True, d', out) \<and>
     send_value no_text 3 (PFloat 0) False True None d' = (NotSent, d', [])"
proof -
  have prep: "prepare_value_for_sending no_text (PFloat x) True known_dp = Inr (PFloat x)" "dp_convert no_text known_dp (PFloat x) = PFloat x"
    if "0 \<le> x" "x \<le> 1" for x
    using sample_prepare [OF that known_dp(1)] by simp_all
  have kind: "dp_kind known_dp = DpFloat" and w: "is_writable known_dp"
    using static_fields [OF known_dp(1)] sample_flags(1) by (simp_all add: sample_dp_fields is_writable_def)
  have sent: "send_value no_text 2 (PFloat 1) False True None known_dp = (Sent (PFloat 1) True, apply_optimistic_value 2 (PFloat 1) known_dp)"
    using prep [of 1] by (simp add: send_value_def w Let_def is_state_change_def known_dp py_eq_def py_num_def optimistic_init_def
        ot_is_active_def kind retryable_def)
  obtain d' out where d': "apply_optimistic_value 2 (PFloat 1) known_dp = (d', out)" by force
  have "send_value no_text 3 (PFloat 0) False True None d' = (NotSent, d', [])"
    using sent d' prep [of 0] known_dp(2,3)
    by (intro revert_command_dropped [of no_text 2 "PFloat 1" known_dp "PFloat 1" True d' out "PFloat 0" "PFloat 0"])
      (simp_all add: kind validate_state_change_def is_action_category_def)
  with sent d' show ?thesis by auto
qed

end
