(* ===== verification/Data_Point_Factory.thy ===== *)
theory Data_Point_Factory
  imports Data_Point_Values
begin

section \<open>Which data points a channel gets\<close>

text \<open>
  \<open>DataPointTypeResolver\<close> and \<open>create_data_point_and_append_to_channel\<close> of \<open>model/generic/__init__.py\<close>:
  the class of the data point of a parameter, from its description, and \<open>force_to_sensor\<close>. Whether a
  parameter is un-ignored is answered by the visibility rules, an argument here. The read-only branch
  changes the type in the description, so the description is part of the result.
\<close>

unbundle bit_operations_syntax

definition BUTTON_ACTIONS :: "string list" where
  "BUTTON_ACTIONS = [''RESET_MOTION'', ''RESET_PRESENCE'']"

definition CLICK_EVENTS :: "string list" where
  "CLICK_EVENTS =
     [''PRESS'', ''PRESS_CONT'', ''PRESS_LOCK'', ''PRESS_LONG'', ''PRESS_LONG_RELEASE'', ''PRESS_LONG_START'', ''PRESS_SHORT'', ''PRESS_UNLOCK'']"

definition VIRTUAL_REMOTE_MODELS :: "string list" where
  "VIRTUAL_REMOTE_MODELS = [''HM-RCV-50'', ''HMW-RCV-50'', ''HmIP-RCV-50'']"

definition has_value_list :: "parameter_data \<Rightarrow> bool" where
  "has_value_list pd \<longleftrightarrow> pd_value_list pd \<notin> {None, Some []}"

definition is_binary_sensor :: "parameter_data \<Rightarrow> bool" where
  "is_binary_sensor pd \<longleftrightarrow>
     pd_type pd = T_BOOL \<or>
     (case pd_value_list pd of None \<Rightarrow> False | Some vs \<Rightarrow> vs \<noteq> [] \<and> BINARY_SENSOR_TRUE_VALUE vs \<noteq> None)"

definition resolve_action :: "string \<Rightarrow> string \<Rightarrow> parameter_data \<Rightarrow> dp_class" where
  "resolve_action model parameter pd =
     (if pd_operations pd = OP_WRITE
      then if parameter \<in> set BUTTON_ACTIONS \<or> model \<in> set VIRTUAL_REMOTE_MODELS then DpButton
           else if has_value_list pd then DpActionSelect
           else DpAction
      else if parameter \<in> set CLICK_EVENTS then DpButton
      else DpSwitch)"

definition resolve_readonly :: "string \<Rightarrow> parameter_data \<Rightarrow> dp_class option \<times> parameter_data" where
  "resolve_readonly parameter pd =
     (if parameter \<in> set CLICK_EVENTS then (None, pd)
      else if is_binary_sensor pd then (Some DpBinarySensor, pd\<lparr>pd_type := T_BOOL\<rparr>)
      else (Some DpSensor, pd))"

fun WRITABLE_TYPE_MAP :: "parameter_type \<Rightarrow> dp_class option" where
  "WRITABLE_TYPE_MAP T_BOOL = Some DpSwitch"
| "WRITABLE_TYPE_MAP T_ENUM = Some DpSelect"
| "WRITABLE_TYPE_MAP T_FLOAT = Some DpFloat"
| "WRITABLE_TYPE_MAP T_INTEGER = Some DpInteger"
| "WRITABLE_TYPE_MAP T_STRING = Some DpText"
| "WRITABLE_TYPE_MAP _ = None"

definition resolve_writable :: "string \<Rightarrow> string \<Rightarrow> parameter_data \<Rightarrow> dp_class option" where
  "resolve_writable model parameter pd =
     (if pd_type pd = T_ACTION then Some (resolve_action model parameter pd)
      else if pd_operations pd = OP_WRITE
      then Some (if has_value_list pd then DpActionSelect
                 else case pd_type pd of
                        T_FLOAT \<Rightarrow> DpActionFloat
                      | T_INTEGER \<Rightarrow> DpActionInteger
                      | T_BOOL \<Rightarrow> DpActionBoolean
                      | T_STRING \<Rightarrow> DpActionString
                      | _ \<Rightarrow> DpAction)
      else WRITABLE_TYPE_MAP (pd_type pd))"

definition resolve :: "string \<Rightarrow> string \<Rightarrow> parameter_data \<Rightarrow> dp_class option \<times> parameter_data" where
  "resolve model parameter pd =
     (if pd_operations pd AND OP_WRITE \<noteq> 0 then (resolve_writable model parameter pd, pd)
      else resolve_readonly parameter pd)"

definition SWITCH_DP_TO_SENSOR :: "(string list \<times> string) list" where
  "SWITCH_DP_TO_SENSOR = [([''HmIP-eTRV'', ''HmIP-HEATING''], ''LEVEL'')]"

text \<open>\<open>element_matches_key\<close> with its defaults: a prefix of the model, in any case.\<close>

definition element_matches_key :: "string list \<Rightarrow> string \<Rightarrow> bool" where
  "element_matches_key search_elements compare_with \<longleftrightarrow>
     list_ex (\<lambda>e. take (length e) (lower compare_with) = lower e) search_elements"

definition check_switch_to_sensor :: "bool \<Rightarrow> string \<Rightarrow> string \<Rightarrow> bool" where
  "check_switch_to_sensor un_ignored model parameter \<longleftrightarrow>
     \<not> un_ignored \<and> list_ex (\<lambda>(devices, p). element_matches_key devices model \<and> parameter = p) SWITCH_DP_TO_SENSOR"

definition force_to_sensor :: "data_point \<Rightarrow> data_point" where
  "force_to_sensor d = (if dp_kind d = DpSensor then d else d\<lparr>dp_is_forced_sensor := True\<rparr>)"

text \<open>The data point and the description as it is left; \<open>None\<close> if the parameter gets no data point.\<close>

definition create_data_point ::
  "(real \<Rightarrow> string) \<Rightarrow> bool \<Rightarrow> time \<Rightarrow> bool \<Rightarrow> string \<Rightarrow> string \<Rightarrow> parameter_data \<Rightarrow> data_point option \<times> parameter_data" where
  "create_data_point ft rpc_callback timeout un_ignored model parameter pd =
     (case resolve model parameter pd of
        (None, pd') \<Rightarrow> (None, pd')
      | (Some c, pd') \<Rightarrow>
          let d = data_point_init c parameter rpc_callback timeout ft pd'
          in (Some (if check_switch_to_sensor un_ignored model parameter then force_to_sensor d else d), pd'))"

subsection \<open>What created data points do\<close>

lemma ops_write: "OP_WRITE AND OP_WRITE \<noteq> 0"
  by (simp add: OP_WRITE_def)

lemma writable_class: "WRITABLE_TYPE_MAP t = Some c \<Longrightarrow> c \<in> {DpSwitch, DpSelect, DpFloat, DpInteger, DpText}"
  by (cases t) auto

lemma resolve_class:
  assumes "resolve model parameter pd = (Some c, pd')"
  shows "c \<in> {DpSensor, DpBinarySensor} \<longleftrightarrow> pd_operations pd AND OP_WRITE = 0"
    and "is_action_category c \<longleftrightarrow>
      pd_operations pd = OP_WRITE \<or> pd_operations pd AND OP_WRITE \<noteq> 0 \<and> pd_type pd = T_ACTION \<and> parameter \<in> set CLICK_EVENTS"
    and "c = DpBinarySensor \<Longrightarrow> pd_type pd' = T_BOOL" and "pd_operations pd' = pd_operations pd"
  using assms ops_write
  by (auto simp: resolve_def resolve_readonly_def resolve_writable_def resolve_action_def is_action_category_def
      dest!: writable_class split: if_splits parameter_type.splits)

text \<open>A data point that cannot be confirmed is never optimistic.\<close>

definition never_optimistic :: "data_point \<Rightarrow> bool" where
  "never_optimistic d \<longleftrightarrow> \<not> confirmable d \<and> \<not> ot_is_active (dp_optimistic d)"

lemma never_optimistic_step: "never_optimistic d \<Longrightarrow> never_optimistic (dp_run ft d e)"
proof -
  assume inv: "never_optimistic d"
  then have conf: "\<not> confirmable (dp_run ft d e)"
    using static_confirmable [OF static_run] by (simp add: never_optimistic_def)
  have same: "fst (apply_optimistic_value t v d) = d" "fst (rollback_optimistic_value t r err d) = d" "confirm d = d" for t v r err
    using inv by (auto simp: never_optimistic_def confirmable_def apply_optimistic_value_def rollback_optimistic_value_def confirm_def)
  have "\<not> ot_is_active (dp_optimistic (dp_run ft d e))"
  proof (cases e)
    case (Send now v)
    with inv same show ?thesis
      by (cases rule: send_value_cases [of ft now v False True None d]) (simp_all add: never_optimistic_def)
  next
    case (Unconfirmed now v)
    with inv show ?thesis by (simp add: never_optimistic_def write_unconfirmed_value_def Let_def)
  qed (use inv same in \<open>auto simp: never_optimistic_def fst_handle_event send_failed_def timer_fires_def split: option.splits\<close>)
  with conf show ?thesis by (simp add: never_optimistic_def)
qed

interpretation silent: step_system "dp_run ft" never_optimistic "\<lambda>_. True" for ft
  by unfold_locales (simp add: never_optimistic_step)

lemma init_static [simp]:
  "dp_kind (data_point_init k p r t ft pd) = k" "dp_operations (data_point_init k p r t ft pd) = pd_operations pd"
  by (simp_all add: data_point_init_def assign_parameter_data_def Let_def)

lemma create_data_pointD:
  assumes "create_data_point ft callback timeout un_ignored model parameter pd = (Some d, pd')"
  obtains c where "resolve model parameter pd = (Some c, pd')" and "dp_kind d = c" and "dp_type d = pd_type pd'"
    and "dp_operations d = pd_operations pd'" and "\<not> ot_is_active (dp_optimistic d)" and "type_inv d"
  using assms
  by (auto simp: create_data_point_def force_to_sensor_def optimistic_init_def ot_is_active_def type_inv_def Let_def
      split: prod.splits option.splits if_splits)

text \<open>
  C39: What a created data point does, whatever it goes through. It is a sensor exactly when the parameter
  cannot be written, and then it never sends. Only a data point whose class is no action and whose
  parameter reports events ever shows a value that is not confirmed; a parameter that can only be
  written always gets an action class. A binary sensor holds a truth value.
\<close>

theorem created_data_point:
  assumes created: "create_data_point ft callback timeout un_ignored model parameter pd = (Some d0, pd')"
    and d: "d = foldl (dp_run ft) d0 history"
  shows "(dp_kind d \<in> {DpSensor, DpBinarySensor} \<longleftrightarrow> pd_operations pd AND OP_WRITE = 0) \<and>
     (is_action_category (dp_kind d) \<longleftrightarrow>
        pd_operations pd = OP_WRITE \<or> pd_operations pd AND OP_WRITE \<noteq> 0 \<and> pd_type pd = T_ACTION \<and> parameter \<in> set CLICK_EVENTS) \<and>
     (pd_operations pd AND OP_WRITE = 0 \<longrightarrow> send_value ft now v collector do_validate retry d = (NotSent, d, [])) \<and>
     (ot_is_active (dp_optimistic d) \<longrightarrow> \<not> is_action_category (dp_kind d) \<and> has_events d) \<and>
     (dp_kind d = DpBinarySensor \<longrightarrow> dp_value d \<in> {PNone, PBool False, PBool True})"
proof -
  from created obtain c where c: "resolve model parameter pd = (Some c, pd')" "dp_kind d0 = c" "dp_type d0 = pd_type pd'"
      "dp_operations d0 = pd_operations pd'" and idle: "\<not> ot_is_active (dp_optimistic d0)" and ty: "type_inv d0"
    by (rule create_data_pointD)
  note cls = resolve_class [OF c(1)]
  have st: "static d = static d0" unfolding d by (rule static_runs)
  note f = static_fields [OF st]
  have "\<not> is_action_category (dp_kind d) \<and> has_events d" if "ot_is_active (dp_optimistic d)"
  proof (rule ccontr)
    assume "\<not> ?thesis"
    then have "never_optimistic d0"
      using idle static_confirmable [OF st] by (auto simp: never_optimistic_def confirmable_def)
    then have "never_optimistic d"
      unfolding d by (rule silent.run_inv) (simp add: list_all_iff)
    with that show False by (simp add: never_optimistic_def)
  qed
  moreover have "dp_value d \<in> {PNone, PBool False, PBool True}" if "dp_kind d = DpBinarySensor"
  proof -
    have "type_inv d"
      unfolding d by (rule types.run_inv [OF ty]) (simp add: list_all_iff)
    moreover have "dp_type d = T_BOOL" using that cls(3) f(1,3) c(2,3) by simp
    ultimately show ?thesis using type_value [of d] by auto
  qed
  moreover have "send_value ft now v collector do_validate retry d = (NotSent, d, [])" if "pd_operations pd AND OP_WRITE = 0"
    using that cls(4) f(6) c(4) by (simp add: send_value_def is_writable_def)
  ultimately show ?thesis
    using cls(1,2) f(1) c(2) by simp
qed

definition rain_pd :: parameter_data where
  "rain_pd = \<lparr>pd_type = T_ENUM, pd_value_list = Some [''DRY'', ''RAIN''], pd_min = PInt 0, pd_max = PInt 1, pd_default = None, pd_flags = 1,
     pd_operations = 5, pd_special = None, pd_unit = None\<rparr>"

theorem created_data_point_witness:
  "\<exists>d pd'. create_data_point no_text True 30 False ''HmIP-SRD'' ''RAINING'' rain_pd = (Some d, pd') \<and>
     dp_kind d = DpBinarySensor \<and> dp_value (dp_run no_text d (Arrived 1 (PInt 1))) \<in> {PNone, PBool False, PBool True}"
proof -
  let ?d = "data_point_init DpBinarySensor ''RAINING'' True 30 no_text (rain_pd\<lparr>pd_type := T_BOOL\<rparr>)"
  have "create_data_point no_text True 30 False ''HmIP-SRD'' ''RAINING'' rain_pd = (Some ?d, rain_pd\<lparr>pd_type := T_BOOL\<rparr>)"
    by (simp add: create_data_point_def resolve_def resolve_readonly_def rain_pd_def OP_WRITE_def CLICK_EVENTS_def is_binary_sensor_def
        BINARY_SENSOR_TRUE_VALUE_def check_switch_to_sensor_def SWITCH_DP_TO_SENSOR_def)
  moreover from created_data_point [OF this, where d = "dp_run no_text ?d (Arrived 1 (PInt 1))" and history = "[Arrived 1 (PInt 1)]"]
  have "dp_value (dp_run no_text ?d (Arrived 1 (PInt 1))) \<in> {PNone, PBool False, PBool True}"
    using static_fields(1) [OF static_run [of no_text ?d "Arrived 1 (PInt 1)"]] by (simp del: dp_run.simps)
  ultimately show ?thesis by auto
qed

end
