(* ===== verification/Collector.thy ===== *)
theory Collector
  imports Data_Point_Values
begin

section \<open>Collected commands\<close>

text \<open>
  \<open>CallParameterCollector\<close> and \<open>bind_collector\<close> of \<open>model/data_point.py\<close>, with the request context of
  \<open>context.py\<close>. A service method of a custom data point sends through several data points; their values
  are collected and sent as few calls of the client, one per paramset key, order and channel.

  The data points are a store from channel address, paramset key and parameter. A call of the client is
  a parameter: when it ends and with which answer, and what happens to the data points while it runs.
  Errors are those derived from \<open>Exception\<close>; cancellation is not modelled.
\<close>

type_synonym dp_id = "string \<times> paramset_key \<times> string"
type_synonym world = "(dp_id \<Rightarrow> data_point) \<times> (dp_id \<times> dp_event) list"
type_synonym paramset = "(string, pyval) dict"

datatype service_error = HomematicException string | OtherException string

fun error_text :: "service_error \<Rightarrow> string" where
  "error_text (HomematicException s) = s"
| "error_text (OtherException s) = s"

definition update_dp :: "(data_point \<Rightarrow> data_point \<times> dp_event list) \<Rightarrow> dp_id \<Rightarrow> world \<Rightarrow> world" where
  "update_dp f k w = (case f (fst w k) of (d, out) \<Rightarrow> ((fst w)(k := d), snd w @ map (Pair k) out))"

subsection \<open>Collecting\<close>

record collector =
  co_paramsets :: "(paramset_key, (int, (string, paramset) dict) dict) dict"
  co_priority :: "command_priority option"
  co_collected :: "(dp_id \<times> pyval \<times> bool option) list"

definition collector_init :: "command_priority option \<Rightarrow> collector" where
  "collector_init priority = \<lparr>co_paramsets = [], co_priority = priority, co_collected = []\<rparr>"

definition get_command_priority :: command_priority where
  "get_command_priority = HIGH"

definition dict_at :: "('k, ('l, 'v) dict) dict \<Rightarrow> 'k \<Rightarrow> ('l, 'v) dict" where
  "dict_at d k = (case dict_get d k of None \<Rightarrow> [] | Some x \<Rightarrow> x)"

definition add_paramset_value ::
  "dp_id \<Rightarrow> int \<Rightarrow> pyval \<Rightarrow> (paramset_key, (int, (string, paramset) dict) dict) dict
   \<Rightarrow> (paramset_key, (int, (string, paramset) dict) dict) dict" where
  "add_paramset_value k order v pss =
     (case k of (address, pk, parameter) \<Rightarrow>
        let orders = dict_at pss pk; addresses = dict_at orders order; ps = dict_at addresses address
        in dict_set pk (dict_set order (dict_set address (dict_set parameter v ps) addresses) orders) pss)"

definition add_data_point :: "dp_id \<Rightarrow> pyval \<Rightarrow> int \<Rightarrow> bool option \<Rightarrow> collector \<Rightarrow> collector" where
  "add_data_point k v order retry c =
     (let c = c\<lparr>co_collected := co_collected c @ [(k, v, retry)], co_paramsets := add_paramset_value k order v (co_paramsets c)\<rparr>
      in case co_priority c of
           None \<Rightarrow> c\<lparr>co_priority := Some get_command_priority\<rparr>
         | Some p \<Rightarrow>
             if command_priority_value get_command_priority < command_priority_value p
             then c\<lparr>co_priority := Some get_command_priority\<rparr> else c)"

subsection \<open>Sending\<close>

record call_options =
  op_wait_for_callback :: "int option"
  op_priority :: command_priority
  op_purge_addresses :: "string list"
  op_retry :: bool

datatype backend_call =
    SetValue string paramset_key string pyval call_options
  | PutParamset string paramset_key paramset call_options

definition paramset_call :: "call_options \<Rightarrow> string \<Rightarrow> paramset_key \<Rightarrow> paramset \<Rightarrow> backend_call" where
  "paramset_call opts address pk ps =
     (case ps of
        [(parameter, v)] \<Rightarrow> SetValue address pk parameter v opts
      | _ \<Rightarrow> PutParamset address pk ps opts)"

text \<open>The nested loops of \<open>send_data\<close>: which paramsets are sent, in which order.\<close>

definition collector_plan :: "collector \<Rightarrow> (paramset_key \<times> int \<times> string \<times> paramset) list" where
  "collector_plan c =
     concat (map (\<lambda>(pk, orders).
       concat (map (\<lambda>(order, addresses). map (\<lambda>(address, ps). (pk, order, address, ps)) addresses) (sort_key fst orders)))
       (co_paramsets c))"

definition collector_retry :: "(dp_id \<Rightarrow> data_point) \<Rightarrow> (dp_id \<times> pyval \<times> bool option) list \<Rightarrow> bool" where
  "collector_retry dps collected =
     (let explicit_retries = List.map_filter (\<lambda>(_, _, r). r) collected
      in if explicit_retries \<noteq> [] then list_ex id explicit_retries
         else list_all (\<lambda>(k, _, _). retryable (dp_kind (dps k))) collected)"

definition apply_collected :: "time \<Rightarrow> (dp_id \<times> pyval \<times> bool option) list \<Rightarrow> world \<Rightarrow> world" where
  "apply_collected now collected w = foldl (\<lambda>w (k, v, _). update_dp (apply_optimistic_value now v) k w) w collected"

definition in_paramset :: "string \<Rightarrow> paramset_key \<Rightarrow> paramset \<Rightarrow> dp_id \<Rightarrow> bool" where
  "in_paramset address pk ps k \<longleftrightarrow> fst k = address \<and> fst (snd k) = pk \<and> snd (snd k) \<in> set (dict_keys ps)"

definition rollback_optimistic_for_paramset ::
  "time \<Rightarrow> string \<Rightarrow> paramset_key \<Rightarrow> paramset \<Rightarrow> string \<Rightarrow> (dp_id \<times> pyval \<times> bool option) list \<Rightarrow> world \<Rightarrow> world" where
  "rollback_optimistic_for_paramset now address pk ps err collected w =
     foldl (\<lambda>w (k, _, _). if in_paramset address pk ps k
                           then update_dp (rollback_optimistic_value now ''send_error'' (Some err)) k w else w) w collected"

text \<open>
  \<open>set_value\<close> and \<open>put_paramset\<close> of the client are wrapped by \<open>inspector(re_raise=False, no_raise_return=set())\<close>: an
  exception of the library is logged, and the caller gets the empty set. The answer of a call, a parameter
  of the model, is what the body of these methods ends with.
\<close>

fun client_result :: "service_error + 'a list \<Rightarrow> service_error + 'a list" where
  "client_result (Inl (HomematicException _)) = Inr []"
| "client_result r = r"

text \<open>The result, the data points, and the calls that were made.\<close>

type_synonym 'r sent = "(service_error + 'r) \<times> world \<times> backend_call list"
type_synonym answers = "backend_call \<Rightarrow> time \<times> (service_error + (data_point_key \<times> pyval) list)"
type_synonym meanwhile = "backend_call \<Rightarrow> world \<Rightarrow> world"

fun send_paramsets ::
  "answers \<Rightarrow> meanwhile \<Rightarrow> call_options \<Rightarrow> (dp_id \<times> pyval \<times> bool option) list \<Rightarrow>
   (paramset_key \<times> int \<times> string \<times> paramset) list \<Rightarrow> world \<Rightarrow> (data_point_key \<times> pyval) list sent" where
  "send_paramsets answer env opts collected [] w = (Inr [], w, [])"
| "send_paramsets answer env opts collected ((pk, _, address, ps) # plan) w =
     (let call = paramset_call opts address pk ps
      in case client_result (snd (answer call)) of
           Inl e \<Rightarrow>
             (Inl e, rollback_optimistic_for_paramset (fst (answer call)) address pk ps (error_text e) collected (env call w), [call])
         | Inr dpks \<Rightarrow>
             (case send_paramsets answer env opts collected plan (env call w) of
                (r, w', calls) \<Rightarrow> (map_sum id (\<lambda>s. List.union dpks s) r, w', call # calls)))"

record request_context =
  rc_operation :: string
  rc_priority :: "command_priority option"
  rc_purge_addresses :: "string list option"

definition send_options :: "request_context option \<Rightarrow> int option \<Rightarrow> collector \<Rightarrow> (dp_id \<Rightarrow> data_point) \<Rightarrow> call_options" where
  "send_options ctx wait c dps =
     \<lparr>op_wait_for_callback = wait,
      op_priority = (case co_priority c of None \<Rightarrow> HIGH | Some p \<Rightarrow> p),
      op_purge_addresses = (case ctx of None \<Rightarrow> [] | Some x \<Rightarrow> (case rc_purge_addresses x of None \<Rightarrow> [] | Some l \<Rightarrow> l)),
      op_retry = collector_retry dps (co_collected c)\<rparr>"

definition send_data ::
  "answers \<Rightarrow> meanwhile \<Rightarrow> time \<Rightarrow> request_context option \<Rightarrow> int option \<Rightarrow> collector \<Rightarrow> world \<Rightarrow> (data_point_key \<times> pyval) list sent" where
  "send_data answer env now ctx wait c w =
     (let w = apply_collected now (co_collected c) w
      in send_paramsets answer env (send_options ctx wait c (fst w)) (co_collected c) (collector_plan c) w)"

subsection \<open>Service methods\<close>

text \<open>
  \<open>bind_collector\<close>: the wrapped method and its effects are a parameter. It gets the request context and the
  collector, and leaves its result, the context, the collector, the data points and the calls it made itself.
\<close>

record service_method =
  sv_name :: string
  sv_enabled :: bool
  sv_wait_for_callback :: "int option"
  sv_log_level :: int
  sv_priority :: "command_priority option"
  sv_group_addresses :: "string list option"

type_synonym 'r service_body =
  "request_context option \<Rightarrow> collector option \<Rightarrow> world \<Rightarrow>
   (service_error + 'r) \<times> request_context option \<times> collector option \<times> world \<times> backend_call list"

definition is_in_service :: "request_context option \<Rightarrow> bool" where
  "is_in_service ctx = (case ctx of None \<Rightarrow> False | Some x \<Rightarrow> take 8 (rc_operation x) = ''service:'')"

definition service_context :: "service_method \<Rightarrow> request_context" where
  "service_context sv =
     \<lparr>rc_operation = ''service:'' @ sv_name sv, rc_priority = sv_priority sv,
      rc_purge_addresses = if sv_priority sv = Some CRITICAL then sv_group_addresses sv else None\<rparr>"

text \<open>The end of a service method: which context remains, and whether the error is logged.\<close>

fun leave_service :: "service_method \<Rightarrow> request_context option \<Rightarrow> request_context option \<Rightarrow> service_error + 'r \<Rightarrow> request_context option \<times> bool" where
  "leave_service sv before ctx (Inr v) = (if is_in_service before then ctx else before, False)"
| "leave_service sv before ctx (Inl (HomematicException e)) =
     (let ctx = (if is_in_service before then ctx else before) in (ctx, \<not> is_in_service ctx \<and> 0 < sv_log_level sv))"
| "leave_service sv before ctx (Inl (OtherException e)) = (ctx, False)"

definition bind_wrapper ::
  "service_method \<Rightarrow> answers \<Rightarrow> meanwhile \<Rightarrow> time \<Rightarrow> 'r service_body \<Rightarrow> collector option \<Rightarrow> request_context option \<Rightarrow> world \<Rightarrow>
   (service_error + 'r) \<times> (request_context option \<times> bool) \<times> world \<times> backend_call list" where
  "bind_wrapper sv answer env now func given ctx w =
     (let inner = (if is_in_service ctx then ctx else Some (service_context sv))
      in if \<not> sv_enabled sv \<or> given \<noteq> None
         then (case func inner given w of (r, ctx', _, w', calls) \<Rightarrow> (r, leave_service sv ctx ctx' r, w', calls))
         else (case func inner (Some (collector_init (sv_priority sv))) w of
                 (Inl e, ctx', _, w', calls) \<Rightarrow> (Inl e, leave_service sv ctx ctx' (Inl e :: service_error + 'r), w', calls)
               | (Inr v, ctx', c, w', calls) \<Rightarrow>
                   (case send_data answer env now ctx' (sv_wait_for_callback sv)
                           (case c of None \<Rightarrow> collector_init (sv_priority sv) | Some c \<Rightarrow> c) w' of
                      (r, w'', calls') \<Rightarrow>
                        let r' = map_sum id (\<lambda>_. v) r in (r', leave_service sv ctx ctx' r', w'', calls @ calls'))))"

subsection \<open>What a collector sends\<close>

definition paramset_at ::
  "(paramset_key, (int, (string, paramset) dict) dict) dict \<Rightarrow> paramset_key \<Rightarrow> int \<Rightarrow> string \<Rightarrow> paramset option" where
  "paramset_at pss pk order address =
     Option.bind (dict_get pss pk) (\<lambda>orders. Option.bind (dict_get orders order) (\<lambda>addresses. dict_get addresses address))"

definition nested_wf :: "(paramset_key, (int, (string, paramset) dict) dict) dict \<Rightarrow> bool" where
  "nested_wf pss \<longleftrightarrow> dict_wf pss \<and>
     (\<forall>pk orders. dict_get pss pk = Some orders \<longrightarrow> dict_wf orders \<and>
        (\<forall>order addresses. dict_get orders order = Some addresses \<longrightarrow> dict_wf addresses))"

lemma dict_at_wf: "(\<And>x. dict_get d k = Some x \<Longrightarrow> dict_wf x) \<Longrightarrow> dict_wf (dict_at d k)"
  by (simp add: dict_at_def split: option.splits)

lemma add_nested_wf: "nested_wf pss \<Longrightarrow> nested_wf (add_paramset_value k order v pss)"
proof -
  assume wf: "nested_wf pss"
  obtain a pk p where k: "k = (a, pk, p)" by (cases k)
  have o: "dict_wf (dict_at pss pk)" using wf by (intro dict_at_wf) (auto simp: nested_wf_def)
  have addr: "dict_wf x" if "dict_get (dict_at pss pk) i = Some x" for i x
    using wf that by (auto simp: nested_wf_def dict_at_def split: option.splits)
  have "dict_wf (dict_at (dict_at pss pk) order)" using addr by (rule dict_at_wf)
  with wf o addr show ?thesis
    by (auto simp: k add_paramset_value_def Let_def nested_wf_def split: if_splits)
qed

lemma paramset_at_add:
  "paramset_at (add_paramset_value (a, pk, p) order v pss) pk' order' a' =
     (if pk' = pk \<and> order' = order \<and> a' = a
      then Some (dict_set p v (case paramset_at pss pk order a of None \<Rightarrow> [] | Some ps \<Rightarrow> ps))
      else paramset_at pss pk' order' a')"
  by (auto simp: paramset_at_def add_paramset_value_def Let_def dict_at_def split: option.splits)

text \<open>The value collected last for a data point and an order.\<close>

definition last_collected :: "(dp_id \<times> pyval \<times> int \<times> bool option) list \<Rightarrow> dp_id \<Rightarrow> int \<Rightarrow> pyval option" where
  "last_collected adds k order = foldl (\<lambda>acc (k', v, order', _). if k' = k \<and> order' = order then Some v else acc) None adds"

definition collect :: "command_priority option \<Rightarrow> (dp_id \<times> pyval \<times> int \<times> bool option) list \<Rightarrow> collector" where
  "collect priority adds = foldl (\<lambda>c (k, v, order, r). add_data_point k v order r c) (collector_init priority) adds"

lemma collect_snoc [simp]:
  "collect p (adds @ [(k, v, order, r)]) = add_data_point k v order r (collect p adds)"
  "last_collected (adds @ [(k, v, order, r)]) k' order' = (if k = k' \<and> order = order' then Some v else last_collected adds k' order')"
  by (simp_all add: collect_def last_collected_def)

lemma add_data_point_fields [simp]:
  "co_paramsets (add_data_point k v order r c) = add_paramset_value k order v (co_paramsets c)"
  "co_collected (add_data_point k v order r c) = co_collected c @ [(k, v, r)]"
  by (simp_all add: add_data_point_def Let_def split: option.splits)

lemma collect_nested_wf: "nested_wf (co_paramsets (collect p adds))"
proof (induction adds rule: rev_induct)
  case Nil
  then show ?case by (simp add: collect_def collector_init_def nested_wf_def)
next
  case (snoc e adds)
  then show ?case by (cases e) (simp add: add_nested_wf)
qed

lemma collect_lookup:
  "Option.bind (paramset_at (co_paramsets (collect p adds)) pk order a) (\<lambda>ps. dict_get ps x) = last_collected adds (a, pk, x) order"
proof (induction adds rule: rev_induct)
  case Nil
  then show ?case by (simp add: collect_def collector_init_def paramset_at_def last_collected_def)
next
  case (snoc e adds)
  obtain a' pk' x' v o' r where e: "e = ((a', pk', x'), v, o', r)" by (cases e) auto
  from snoc show ?case
    by (auto simp: e paramset_at_add split: option.splits)
qed


lemma plan_member:
  assumes "nested_wf (co_paramsets c)"
  shows "(pk, order, a, ps) \<in> set (collector_plan c) \<longleftrightarrow> paramset_at (co_paramsets c) pk order a = Some ps"
proof -
  have "(pk, order, a, ps) \<in> set (collector_plan c) \<longleftrightarrow>
    (\<exists>orders. (pk, orders) \<in> set (co_paramsets c) \<and> (\<exists>addresses. (order, addresses) \<in> set orders \<and> (a, ps) \<in> set addresses))"
    by (fastforce simp: collector_plan_def)
  also have "\<dots> \<longleftrightarrow>
    (\<exists>orders. dict_get (co_paramsets c) pk = Some orders \<and>
       (\<exists>addresses. dict_get orders order = Some addresses \<and> dict_get addresses a = Some ps))"
    using assms dict_get_Some_iff by (metis nested_wf_def)
  finally show ?thesis
    by (auto simp: paramset_at_def Option.bind_eq_Some_conv)
qed

lemma distinct_concat_keys:
  assumes "distinct (map fst d)" and "\<And>k v. (k, v) \<in> set d \<Longrightarrow> distinct (map g (f (k, v)))"
    and "\<And>k v x. (k, v) \<in> set d \<Longrightarrow> x \<in> set (f (k, v)) \<Longrightarrow> h (g x) = k"
  shows "distinct (map g (concat (map f d)))"
  using assms
proof (induction d)
  case (Cons e d)
  have "g x \<noteq> g y" if x: "x \<in> set (f e)" and y: "y \<in> set (concat (map f d))" for x y
  proof -
    obtain k v where kv: "(k, v) \<in> set d" "y \<in> set (f (k, v))" using y by auto
    then have "h (g y) = k" using Cons.prems(3) [of k v y] by simp
    moreover have "k \<in> fst ` set d" using kv(1) by force
    moreover have "fst e \<notin> fst ` set d" using Cons.prems(1) by simp
    ultimately have "h (g y) \<noteq> fst e" by metis
    moreover have "h (g x) = fst e" using Cons.prems(3) [of "fst e" "snd e" x] x by simp
    ultimately show ?thesis by metis
  qed
  moreover have "distinct (map g (concat (map f d)))"
  proof (rule Cons.IH)
    show "distinct (map fst d)" using Cons.prems(1) by simp
    show "distinct (map g (f (k, v)))" if "(k, v) \<in> set d" for k v
      using Cons.prems(2) [of k v] that by simp
    show "h (g x) = k" if "(k, v) \<in> set d" "x \<in> set (f (k, v))" for k v x
      using Cons.prems(3) [of k v x] that by simp
  qed
  moreover have "distinct (map g (f e))" using Cons.prems(2) [of "fst e" "snd e"] by simp
  ultimately show ?case by (auto simp: image_iff)
qed simp

abbreviation plan_key :: "paramset_key \<times> int \<times> string \<times> paramset \<Rightarrow> paramset_key \<times> int \<times> string" where
  "plan_key x \<equiv> (fst x, fst (snd x), fst (snd (snd x)))"

definition plan_orders :: "paramset_key \<Rightarrow> (int \<times> (string, paramset) dict) \<Rightarrow> (paramset_key \<times> int \<times> string \<times> paramset) list" where
  "plan_orders pk e = map (\<lambda>(address, ps). (pk, fst e, address, ps)) (snd e)"

lemma collector_plan_alt:
  "collector_plan c = concat (map (\<lambda>(pk, orders). concat (map (plan_orders pk) (sort_key fst orders))) (co_paramsets c))"
  by (simp add: collector_plan_def plan_orders_def [abs_def] split_beta')

lemma plan_distinct:
  assumes "nested_wf (co_paramsets c)"
  shows "distinct (map plan_key (collector_plan c))"
  unfolding collector_plan_alt
proof (rule distinct_concat_keys [where h = fst])
  show "distinct (map fst (co_paramsets c))" using assms by (simp add: nested_wf_def dict_wf_def)
next
  fix pk orders
  assume "(pk, orders) \<in> set (co_paramsets c)"
  then have got: "dict_get (co_paramsets c) pk = Some orders"
    using assms by (simp add: nested_wf_def dict_get_Some_iff)
  have "distinct (map plan_key (concat (map (plan_orders pk) (sort_key fst orders))))"
  proof (rule distinct_concat_keys [where h = "\<lambda>x. fst (snd x)"])
    show "distinct (map fst (sort_key fst orders))"
      using assms got by (auto simp: nested_wf_def dict_wf_def distinct_map)
  next
    fix order addresses
    assume "(order, addresses) \<in> set (sort_key fst orders)"
    then have "dict_wf addresses"
      using assms got by (auto simp: nested_wf_def dict_get_Some_iff)
    then show "distinct (map plan_key (plan_orders pk (order, addresses)))"
      by (auto simp: plan_orders_def dict_wf_def distinct_map inj_on_def)
  qed (auto simp: plan_orders_def)
  then show "distinct (map plan_key (case (pk, orders) of (pk, orders) \<Rightarrow> concat (map (plan_orders pk) (sort_key fst orders))))"
    by simp
qed (auto simp: plan_orders_def)

lemma sorted_plan_orders: "sorted (map (\<lambda>x. fst (snd x)) (plan_orders pk e))"
proof -
  have "map (\<lambda>x. fst (snd x)) (plan_orders pk e) = replicate (length (snd e)) (fst e)"
    by (simp add: plan_orders_def split_beta comp_def map_replicate_const)
  then show ?thesis by simp
qed

lemma sorted_concat_orders: "sorted (map fst orders) \<Longrightarrow> sorted (map (\<lambda>x. fst (snd x)) (concat (map (plan_orders pk) orders)))"
proof (induction orders)
  case (Cons e orders)
  have "x \<in> set (plan_orders pk e') \<Longrightarrow> fst (snd x) = fst e'" for x e'
    by (auto simp: plan_orders_def)
  with Cons show ?case
    by (auto simp: sorted_append sorted_plan_orders)
qed simp

lemma plan_sorted:
  assumes "nested_wf (co_paramsets c)"
  shows "sorted (map (\<lambda>x. fst (snd x)) (filter (\<lambda>x. fst x = pk) (collector_plan c)))"
proof -
  have part: "filter (\<lambda>x. fst x = pk) (concat (map (plan_orders pk') l)) = (if pk' = pk then concat (map (plan_orders pk') l) else [])" for pk' l
    by (induction l) (auto simp: plan_orders_def filter_empty_conv split_beta)
  have "distinct (map fst pss) \<Longrightarrow>
     sorted (map (\<lambda>x. fst (snd x)) (filter (\<lambda>x. fst x = pk) (concat (map (\<lambda>(pk, orders). concat (map (plan_orders pk) (sort_key fst orders))) pss))))" for pss
  proof (induction pss)
    case (Cons e pss)
    have "filter (\<lambda>x. fst x = pk) (concat (map (\<lambda>(pk, orders). concat (map (plan_orders pk) (sort_key fst orders))) pss)) = []" if "fst e = pk"
      using Cons.prems that by (auto simp: filter_empty_conv plan_orders_def image_iff)
    with Cons show ?case
      by (cases e) (auto simp: part sorted_concat_orders)
  qed simp
  with assms show ?thesis by (simp add: collector_plan_alt nested_wf_def dict_wf_def)
qed

subsection \<open>Sending all of it\<close>

text \<open>A call that does not end with an exception from outside the library; the client answers it.\<close>

definition answered :: "answers \<Rightarrow> call_options \<Rightarrow> paramset_key \<times> int \<times> string \<times> paramset \<Rightarrow> bool" where
  "answered answer opts x \<longleftrightarrow>
     (\<forall>m. snd (answer (paramset_call opts (fst (snd (snd x))) (fst x) (snd (snd (snd x))))) \<noteq> Inl (OtherException m))"

lemma client_result_answered: "(\<forall>m. r \<noteq> Inl (OtherException m)) \<Longrightarrow> \<exists>dpks. client_result r = Inr dpks"
  by (cases r rule: client_result.cases) simp_all

lemma answered_result:
  "answered answer opts (pk, order, a, ps) \<Longrightarrow> \<exists>dpks. client_result (snd (answer (paramset_call opts a pk ps))) = Inr dpks"
  using client_result_answered by (simp add: answered_def)

abbreviation plan_call :: "call_options \<Rightarrow> paramset_key \<times> int \<times> string \<times> paramset \<Rightarrow> backend_call" where
  "plan_call opts \<equiv> \<lambda>(pk, _, a, ps). paramset_call opts a pk ps"

lemma send_all:
  assumes "\<And>x. x \<in> set plan \<Longrightarrow> answered answer opts x"
  shows "snd (snd (send_paramsets answer env opts collected plan w)) = map (plan_call opts) plan \<and>
         (\<exists>dpks. fst (send_paramsets answer env opts collected plan w) = Inr dpks) \<and>
         ((\<forall>call w. fst (env call w) = fst w) \<longrightarrow> fst (fst (snd (send_paramsets answer env opts collected plan w))) = fst w)"
  using assms
proof (induction plan arbitrary: w)
  case (Cons x plan)
  obtain pk order a ps where x: "x = (pk, order, a, ps)" by (cases x)
  obtain dpks where ans: "client_result (snd (answer (paramset_call opts a pk ps))) = Inr dpks"
    using answered_result [of answer opts pk order a ps] Cons.prems [of x] by (auto simp: x)
  have "snd (snd (send_paramsets answer env opts collected plan w)) = map (plan_call opts) plan \<and>
         (\<exists>dpks. fst (send_paramsets answer env opts collected plan w) = Inr dpks) \<and>
         ((\<forall>call w. fst (env call w) = fst w) \<longrightarrow> fst (fst (snd (send_paramsets answer env opts collected plan w))) = fst w)" for w
    using Cons.prems by (intro Cons.IH) auto
  from this [of "env (paramset_call opts a pk ps) w"] show ?case
    by (auto simp: x ans Let_def split_beta simp del: split_paired_All)
qed simp

text \<open>What a call assigns.\<close>

fun call_values :: "backend_call \<Rightarrow> string \<times> paramset_key \<times> paramset" where
  "call_values (SetValue a pk p v opts) = (a, pk, [(p, v)])"
| "call_values (PutParamset a pk ps opts) = (a, pk, ps)"

lemma call_values_paramset [simp]: "call_values (paramset_call opts a pk ps) = (a, pk, ps)"
  by (auto simp: paramset_call_def split: list.splits)

text \<open>
  C8: What a collector sends. When the client answers every call, the calls are one per paramset key,
  order and channel, those of a paramset key by ascending order; together they assign to every data point, for
  every order it was added with, the value it was added with last, and nothing else.
\<close>

theorem collector_sends_all:
  assumes "\<And>call. \<exists>t dpks. answer call = (t, Inr dpks)"
  shows "\<exists>plan dpks.
     fst (send_data answer env now ctx wait (collect priority adds) w) = Inr dpks \<and>
     map call_values (snd (snd (send_data answer env now ctx wait (collect priority adds) w))) = map (\<lambda>(pk, order, a, ps). (a, pk, ps)) plan \<and>
     distinct (map (\<lambda>(pk, order, a, ps). (pk, order, a)) plan) \<and>
     (\<forall>pk. sorted (map (\<lambda>(pk, order, a, ps). order) (filter (\<lambda>x. fst x = pk) plan))) \<and>
     (\<forall>pk order a p v. (\<exists>ps. (pk, order, a, ps) \<in> set plan \<and> dict_get ps p = Some v) \<longleftrightarrow> last_collected adds (a, pk, p) order = Some v)"
proof -
  let ?c = "collect priority adds"
  let ?plan = "collector_plan ?c" and ?r = "send_data answer env now ctx wait ?c w"
  have wf: "nested_wf (co_paramsets ?c)" by (rule collect_nested_wf)
  have keys: "(\<lambda>(pk, order, a, ps). (pk, order, a)) = plan_key" "(\<lambda>(pk, order, a, ps). order) = (\<lambda>x. fst (snd x))"
    by auto
  have sent: "snd (snd ?r) = map (\<lambda>(pk, _, a, ps). paramset_call (send_options ctx wait ?c (fst (apply_collected now (co_collected ?c) w))) a pk ps) ?plan
     \<and> (\<exists>dpks. fst ?r = Inr dpks)"
  proof -
    have "answered answer opts x" for opts x
      using assms by (metis Inl_Inr_False answered_def snd_conv)
    then show ?thesis
      unfolding send_data_def Let_def using send_all [of ?plan answer] by blast
  qed
  have assigned: "(\<exists>ps. (pk, order, a, ps) \<in> set ?plan \<and> dict_get ps p = Some v) \<longleftrightarrow> last_collected adds (a, pk, p) order = Some v"
    for pk order a p v
    using collect_lookup [of priority adds pk order a p] by (auto simp: plan_member [OF wf] Option.bind_eq_Some_conv)
  have calls: "map call_values (snd (snd ?r)) = map (\<lambda>(pk, order, a, ps). (a, pk, ps)) ?plan"
    using sent by auto
  from sent obtain dpks where "fst ?r = Inr dpks" by auto
  with calls assigned show ?thesis
    using plan_distinct [OF wf] plan_sorted [OF wf] by (intro exI [of _ ?plan] exI [of _ dpks]) (simp only: keys, blast)
qed

definition sample_answers :: answers where
  "sample_answers call = (1, Inr [])"

text \<open>Two channels, two orders: the level and the slats of a blind after the switch-off of a timer.\<close>

definition sample_adds :: "(dp_id \<times> pyval \<times> int \<times> bool option) list" where
  "sample_adds =
     [((''A:4'', PK_VALUES, ''LEVEL''), PFloat 1, 50, None), ((''A:4'', PK_VALUES, ''LEVEL_2''), PFloat 0, 50, None),
      ((''A:4'', PK_VALUES, ''ON_TIME''), PFloat 5, 40, None), ((''A:4'', PK_VALUES, ''LEVEL''), PFloat 0, 50, None)]"

theorem collector_sends_all_witness:
  "\<exists>plan dpks.
     fst (send_data sample_answers (\<lambda>_ w. w) 0 None None (collect None sample_adds) (\<lambda>_. sample_dp, [])) = Inr dpks \<and>
     map call_values (snd (snd (send_data sample_answers (\<lambda>_ w. w) 0 None None (collect None sample_adds) (\<lambda>_. sample_dp, [])))) =
       map (\<lambda>(pk, order, a, ps). (a, pk, ps)) plan \<and>
     (\<exists>ps. (PK_VALUES, 50 :: int, ''A:4'', ps) \<in> set plan \<and> dict_get ps ''LEVEL'' = Some (PFloat 0))"
proof -
  have "\<exists>t dpks. sample_answers call = (t, Inr dpks)" for call
    by (simp add: sample_answers_def)
  moreover have "last_collected sample_adds (''A:4'', PK_VALUES, ''LEVEL'') 50 = Some (PFloat 0)"
    by (simp add: last_collected_def sample_adds_def)
  ultimately show ?thesis
    using collector_sends_all [of sample_answers "\<lambda>_ w. w" 0 None None None sample_adds "(\<lambda>_. sample_dp, [])"] by blast
qed

subsection \<open>A call that fails\<close>

lemma update_dp_other [simp]: "k' \<noteq> k \<Longrightarrow> fst (update_dp f k w) k' = fst w k'"
  by (simp add: update_dp_def split: prod.splits)

lemma update_dp_same [simp]: "fst (update_dp f k w) k = fst (f (fst w k))"
  by (simp add: update_dp_def split: prod.splits)

text \<open>The values collected for one data point.\<close>

definition values_for :: "dp_id \<Rightarrow> (dp_id \<times> pyval \<times> bool option) list \<Rightarrow> pyval list" where
  "values_for k collected = map (\<lambda>(_, v, _). v) (filter (\<lambda>(k', _, _). k' = k) collected)"

lemma apply_collected_at: "fst (apply_collected now collected w) k = apply_all (map (Pair now) (values_for k collected)) (fst w k)"
  unfolding apply_collected_def values_for_def apply_all_def
  by (induction collected arbitrary: w) (auto simp: split_beta)

lemma rollback_outside:
  "\<not> in_paramset a pk ps k \<Longrightarrow> fst (rollback_optimistic_for_paramset now a pk ps e collected w) k = fst w k"
  unfolding rollback_optimistic_for_paramset_def
  by (induction collected arbitrary: w) (auto simp: split_beta update_dp_def split: prod.splits)

lemma rollback_inactive: "\<not> ot_is_active (dp_optimistic (fst (rollback_optimistic_value now r e d)))"
  by (auto simp: rollback_optimistic_value_def ot_rollback_def ot_cancel_timer_def ot_is_active_def Let_def)

lemma rollback_inside:
  assumes "in_paramset a pk ps k" and "k \<in> fst ` set collected \<or> \<not> ot_is_active (dp_optimistic (fst w k))"
  shows "\<not> ot_is_active (dp_optimistic (fst (rollback_optimistic_for_paramset now a pk ps e collected w) k))"
  using assms(2) unfolding rollback_optimistic_for_paramset_def
proof (induction collected arbitrary: w)
  case (Cons x collected)
  let ?w = "if in_paramset a pk ps (fst x) then update_dp (rollback_optimistic_value now ''send_error'' (Some e)) (fst x) w else w"
  have "k \<in> fst ` set collected \<or> \<not> ot_is_active (dp_optimistic (fst ?w k))"
    using Cons.prems assms(1) rollback_inactive by (cases "k = fst x") auto
  from Cons.IH [OF this] show ?case by (simp add: split_beta)
qed simp

lemma send_until_failure:
  assumes "\<And>x. x \<in> set pre \<Longrightarrow> answered answer opts x"
    and "answer (paramset_call opts a pk ps) = (t, Inl (OtherException m))" and "\<And>call w. fst (env call w) = fst w"
  shows "\<exists>w1. fst w1 = fst w \<and>
     send_paramsets answer env opts collected (pre @ (pk, order, a, ps) # post) w =
       (Inl (OtherException m), rollback_optimistic_for_paramset t a pk ps m collected w1,
        map (plan_call opts) (pre @ [(pk, order, a, ps)]))"
  using assms(1)
proof (induction pre arbitrary: w)
  case Nil
  show ?case
    using assms(2,3) by (intro exI [of _ "env (paramset_call opts a pk ps) w"]) (simp add: Let_def)
next
  case (Cons x pre)
  obtain pk' order' a' ps' where x: "x = (pk', order', a', ps')" by (cases x)
  obtain dpks where ans: "client_result (snd (answer (paramset_call opts a' pk' ps'))) = Inr dpks"
    using answered_result [of answer opts pk' order' a' ps'] Cons.prems [of x] by (auto simp: x)
  let ?w = "env (paramset_call opts a' pk' ps') w"
  obtain w1 where "fst w1 = fst ?w"
    "send_paramsets answer env opts collected (pre @ (pk, order, a, ps) # post) ?w =
       (Inl (OtherException m), rollback_optimistic_for_paramset t a pk ps m collected w1,
        map (plan_call opts) (pre @ [(pk, order, a, ps)]))"
    using Cons.IH [of ?w] Cons.prems by auto
  then show ?case using assms(3) by (intro exI [of _ w1]) (simp add: x ans Let_def)
qed

lemma collected_value:
  assumes "fst w' k = fst (apply_collected now collected w) k" and "k \<in> fst ` set collected"
    and "confirmable (fst w k)" and "ot_pending_sends (dp_optimistic (fst w k)) = 0"
  shows "ot_value (dp_optimistic (fst w' k)) = last (values_for k collected)"
proof -
  have ne: "values_for k collected \<noteq> []"
    using assms(2) by (force simp: values_for_def filter_empty_conv)
  have "fst w' k = apply_all (map (Pair now) (values_for k collected)) (fst w k)"
    by (simp add: assms(1) apply_collected_at)
  with burst_started [OF assms(3,4), of "map (Pair now) (values_for k collected)"] ne show ?thesis
    by (simp add: in_burst_def last_map)
qed


text \<open>
  The call for the timer fails, the one for the level of the blind comes after it: with an exception of the
  library both are made, with another one only the first.
\<close>

definition refusing :: "service_error \<Rightarrow> answers" where
  "refusing e call = (case call of SetValue a pk p v opts \<Rightarrow> (2, Inl e) | _ \<Rightarrow> (2, Inr []))"

definition blind_plan :: "(paramset_key \<times> int \<times> string \<times> paramset) list" where
  "blind_plan =
     [(PK_VALUES, 40, ''A:4'', [(''ON_TIME'', PFloat 5)]),
      (PK_VALUES, 50, ''A:4'', [(''LEVEL'', PFloat 0), (''LEVEL_2'', PFloat 0)])]"

lemma sample_plan: "collector_plan (collect None sample_adds) = blind_plan"
  by (simp add: collector_plan_def collect_def sample_adds_def add_data_point_def collector_init_def add_paramset_value_def
      Let_def dict_at_def dict_get_def dict_set_def blind_plan_def get_command_priority_def)

lemma sample_collected:
  "co_collected (collect None sample_adds) = map (\<lambda>(k, v, _, r). (k, v, r)) sample_adds"
  by (simp add: collect_def sample_adds_def collector_init_def)

lemma sample_fresh: "confirmable sample_dp" "ot_pending_sends (dp_optimistic sample_dp) = 0"
  by (simp_all add: confirmable_def sample_dp_fields is_action_category_def optimistic_init_def)

lemma refusing_answered:
  "x \<in> set blind_plan \<Longrightarrow> answered (refusing (HomematicException m)) opts x"
  by (auto simp: blind_plan_def answered_def refusing_def paramset_call_def)

abbreviation blind_sent :: "service_error \<Rightarrow> (data_point_key \<times> pyval) list sent" where
  "blind_sent e \<equiv> send_data (refusing e) (\<lambda>_ w. w) 0 None None (collect None sample_adds) (\<lambda>_. sample_dp, [])"

abbreviation blind_shown :: "service_error \<Rightarrow> string \<Rightarrow> tracker" where
  "blind_shown e p \<equiv> dp_optimistic (fst (fst (snd (blind_sent e))) (''A:4'', PK_VALUES, p))"


subsection \<open>The request context of a service method\<close>

fun call_options_of :: "backend_call \<Rightarrow> call_options" where
  "call_options_of (SetValue a pk p v opts) = opts"
| "call_options_of (PutParamset a pk ps opts) = opts"

lemma call_options_paramset [simp]: "call_options_of (paramset_call opts a pk ps) = opts"
  by (auto simp: paramset_call_def split: list.splits)

lemma sent_options: "call \<in> set (snd (snd (send_paramsets answer env opts collected plan w))) \<Longrightarrow> call_options_of call = opts"
proof (induction plan arbitrary: w)
  case (Cons x plan)
  obtain pk order a ps where x: "x = (pk, order, a, ps)" by (cases x)
  from Cons.prems Cons.IH [of "env (paramset_call opts a pk ps) w"] show ?case
    by (auto simp: x Let_def split_beta split: sum.splits)
qed simp

lemma send_data_purges:
  assumes "call \<in> set (snd (snd (send_data answer env now ctx wait c w)))"
  shows "op_purge_addresses (call_options_of call) = (case ctx of None \<Rightarrow> [] | Some x \<Rightarrow> (case rc_purge_addresses x of None \<Rightarrow> [] | Some l \<Rightarrow> l))"
  using sent_options [of call] assms by (auto simp: send_data_def Let_def send_options_def)

lemma in_service_context [simp]: "is_in_service (Some (service_context sv))"
  by (simp add: is_in_service_def service_context_def)

text \<open>A method that leaves the context as it finds it and only collects.\<close>

definition collecting :: "'r service_body \<Rightarrow> bool" where
  "collecting func \<longleftrightarrow> (\<forall>ctx c w. \<exists>r c' w'. func ctx c w = (r, ctx, c', w', []))"

lemma bind_wrapper_context:
  assumes "collecting func" and "bind_wrapper sv answer env now func given ctx w = (r, (ctx', logged), w', calls)"
  shows "(ctx', logged) = leave_service sv ctx (if is_in_service ctx then ctx else Some (service_context sv)) r"
    and "call \<in> set calls \<Longrightarrow> op_purge_addresses (call_options_of call) =
      (case (if is_in_service ctx then ctx else Some (service_context sv)) of None \<Rightarrow> [] | Some x \<Rightarrow> (case rc_purge_addresses x of None \<Rightarrow> [] | Some l \<Rightarrow> l))"
proof -
  let ?inner = "if is_in_service ctx then ctx else Some (service_context sv)"
  have func: "\<exists>r c' w'. func ?inner c w = (r, ?inner, c', w', [])" for c w
    using assms(1) unfolding collecting_def by blast
  obtain r0 c0 w0 where f0: "func ?inner given w = (r0, ?inner, c0, w0, [])" using func by blast
  obtain r1 c1 w1 where f1: "func ?inner (Some (collector_init (sv_priority sv))) w = (r1, ?inner, c1, w1, [])" using func by blast
  let ?sent = "send_data answer env now ?inner (sv_wait_for_callback sv) (case c1 of None \<Rightarrow> collector_init (sv_priority sv) | Some c \<Rightarrow> c) w1"
  obtain rs ws cs where s: "?sent = (rs, ws, cs)" by (cases ?sent)
  have "(ctx', logged) = leave_service sv ctx ?inner r \<and> (calls = [] \<or> calls = cs)"
    using assms(2) by (cases r1) (auto simp: bind_wrapper_def Let_def f0 f1 s split: if_splits)
  moreover have "op_purge_addresses (call_options_of call) =
      (case ?inner of None \<Rightarrow> [] | Some x \<Rightarrow> (case rc_purge_addresses x of None \<Rightarrow> [] | Some l \<Rightarrow> l))" if "call \<in> set cs"
    using send_data_purges [of call answer env now ?inner "sv_wait_for_callback sv"
        "case c1 of None \<Rightarrow> collector_init (sv_priority sv) | Some c \<Rightarrow> c" w1] that
    unfolding s by simp
  ultimately show "(ctx', logged) = leave_service sv ctx ?inner r"
    and "call \<in> set calls \<Longrightarrow> op_purge_addresses (call_options_of call) =
      (case ?inner of None \<Rightarrow> [] | Some x \<Rightarrow> (case rc_purge_addresses x of None \<Rightarrow> [] | Some l \<Rightarrow> l))"
    by auto
qed


definition sample_stop :: service_method where
  "sample_stop = \<lparr>sv_name = ''stop'', sv_enabled = True, sv_wait_for_callback = None, sv_log_level = 40, sv_priority = Some CRITICAL,
     sv_group_addresses = Some [''A:4'']\<rparr>"

definition sample_open :: service_method where
  "sample_open = \<lparr>sv_name = ''open'', sv_enabled = True, sv_wait_for_callback = None, sv_log_level = 40, sv_priority = None,
     sv_group_addresses = None\<rparr>"

definition broken_method :: "unit service_body" where
  "broken_method ctx c w = (Inl (OtherException ''TypeError''), ctx, c, w, [])"

definition level_method :: "unit service_body" where
  "level_method ctx c w = (Inr (), ctx, map_option (add_data_point (''B:4'', PK_VALUES, ''LEVEL'') (PFloat 1) 50 None) c, w, [])"


end
