(* ===== verification/Custom_Data_Point.thy ===== *)
theory Custom_Data_Point
  imports Collector
begin

section \<open>Operations of custom data points\<close>

text \<open>
  What the custom data points of \<open>model/custom/\<close> share: sending through a field, with a collector or
  directly, and service methods that call others. A custom data point refers to generic data points by
  their identifiers; a field the device does not have is \<open>None\<close>, the dummy data point, whose value is
  \<open>None\<close> and which sends nothing. The reading of the fields raises nothing for the classes they have.

  An operation changes the state of a call: the collector it sends through, the data points, and the
  calls of the client it made.
\<close>

record environment =
  en_float_text :: "real \<Rightarrow> string"
  en_now :: time
  en_answer :: answers
  en_meanwhile :: meanwhile
  en_last_value_send :: "dp_id \<Rightarrow> pyval"

record exec =
  ex_collector :: "collector option"
  ex_world :: world
  ex_calls :: "backend_call list"

type_synonym effect = "exec \<Rightarrow> (service_error + unit) \<times> exec"

definition return_ok :: effect where
  "return_ok s = (Inr (), s)"

definition and_then :: "effect \<Rightarrow> effect \<Rightarrow> effect" where
  "and_then f g s = (case f s of (Inl e, s') \<Rightarrow> (Inl e, s') | (Inr _, s') \<Rightarrow> g s')"

text \<open>\<open>GenericDataPoint.send_value\<close> with its call of the client; \<open>direct\<close> is \<open>collector=None\<close>.\<close>

definition direct_options :: "request_context option \<Rightarrow> bool \<Rightarrow> call_options" where
  "direct_options ctx retry =
     \<lparr>op_wait_for_callback = None,
      op_priority = (case ctx of None \<Rightarrow> get_command_priority
                     | Some x \<Rightarrow> (case rc_priority x of None \<Rightarrow> get_command_priority | Some p \<Rightarrow> p)),
      op_purge_addresses = (case ctx of None \<Rightarrow> [] | Some x \<Rightarrow> (case rc_purge_addresses x of None \<Rightarrow> [] | Some l \<Rightarrow> l)),
      op_retry = retry\<rparr>"

definition dp_send :: "environment \<Rightarrow> request_context option \<Rightarrow> bool option \<Rightarrow> dp_id option \<Rightarrow> pyval \<Rightarrow> bool \<Rightarrow> bool \<Rightarrow> effect" where
  "dp_send en ctx retry field v do_validate direct s =
     (case field of
        None \<Rightarrow> (Inr (), s)
      | Some k \<Rightarrow>
          (case send_value (en_float_text en) (en_now en) v (\<not> direct \<and> ex_collector s \<noteq> None) do_validate retry (fst (ex_world s) k) of
             (NotSent, _) \<Rightarrow> (Inr (), s)
           | (Raised e, _) \<Rightarrow> (Inl (OtherException ''TypeError''), s)
           | (Collected c, _) \<Rightarrow> (Inr (), s\<lparr>ex_collector := map_option (add_data_point k c 50 retry) (ex_collector s)\<rparr>)
           | (Sent c r, _) \<Rightarrow>
               (let w = update_dp (apply_optimistic_value (en_now en) c) k (ex_world s);
                    call = SetValue (fst k) (fst (snd k)) (snd (snd k)) c (direct_options ctx r)
                in case client_result (snd (en_answer en call)) of
                     Inl e \<Rightarrow>
                       (Inl e, s\<lparr>ex_world := update_dp (send_failed (fst (en_answer en call)) (error_text e)) k (en_meanwhile en call w),
                                 ex_calls := ex_calls s @ [call]\<rparr>)
                   | Inr _ \<Rightarrow> (Inr (), s\<lparr>ex_world := en_meanwhile en call w, ex_calls := ex_calls s @ [call]\<rparr>))))"

text \<open>
  A service method called by another one, see \<open>bind_wrapper\<close>: the context stays, and the collector is the one
  handed on, or an own one that is sent at the end.
\<close>

definition nested :: "environment \<Rightarrow> bool \<Rightarrow> bool \<Rightarrow> request_context option \<Rightarrow> effect \<Rightarrow> effect" where
  "nested en enabled hand_on ctx func s =
     (let given = (if hand_on then ex_collector s else None)
      in if \<not> enabled \<or> given \<noteq> None
         then (case func (s\<lparr>ex_collector := given\<rparr>) of
                 (r, s') \<Rightarrow> (r, if hand_on then s' else s'\<lparr>ex_collector := ex_collector s\<rparr>))
         else (case func (s\<lparr>ex_collector := Some (collector_init None)\<rparr>) of
                 (Inl e, s') \<Rightarrow> (Inl e, s'\<lparr>ex_collector := ex_collector s\<rparr>)
               | (Inr _, s') \<Rightarrow>
                   (case send_data (en_answer en) (en_meanwhile en) (en_now en) ctx None
                           (case ex_collector s' of None \<Rightarrow> collector_init None | Some c \<Rightarrow> c) (ex_world s') of
                      (r, w', calls) \<Rightarrow>
                        (map_sum id (\<lambda>_. ()) r, s'\<lparr>ex_collector := ex_collector s, ex_world := w', ex_calls := ex_calls s' @ calls\<rparr>))))"

text \<open>A service method called by the application.\<close>

definition service :: "service_method \<Rightarrow> environment \<Rightarrow> (request_context option \<Rightarrow> effect) \<Rightarrow> request_context option \<Rightarrow> world \<Rightarrow>
    (service_error + unit) \<times> (request_context option \<times> bool) \<times> world \<times> backend_call list" where
  "service sv en func ctx w =
     bind_wrapper sv (en_answer en) (en_meanwhile en) (en_now en)
       (\<lambda>ctx c w. case func ctx \<lparr>ex_collector = c, ex_world = w, ex_calls = []\<rparr> of
                    (r, s) \<Rightarrow> (r, ctx, ex_collector s, ex_world s, ex_calls s)) None ctx w"

text \<open>A service method of a custom data point that has a state of its own, with its effects on it.\<close>

type_synonym 's state_effect = "'s \<times> exec \<Rightarrow> (service_error + unit) \<times> 's \<times> exec"

definition on_exec :: "effect \<Rightarrow> 's state_effect" where
  "on_exec f g = (case g of (st, s) \<Rightarrow> (case f s of (r, s') \<Rightarrow> (r, st, s')))"

definition on_state :: "('s \<Rightarrow> 's) \<Rightarrow> 's state_effect" where
  "on_state f g = (case g of (st, s) \<Rightarrow> (Inr (), f st, s))"

definition then_also :: "'s state_effect \<Rightarrow> 's state_effect \<Rightarrow> 's state_effect" where
  "then_also f f' g = (case f g of (Inl e, g') \<Rightarrow> (Inl e, g') | (Inr _, g') \<Rightarrow> f' g')"

definition state_service ::
  "service_method \<Rightarrow> environment \<Rightarrow> (request_context option \<Rightarrow> 's state_effect) \<Rightarrow> request_context option \<Rightarrow> 's \<Rightarrow> world \<Rightarrow>
   (service_error + unit) \<times> 's \<times> world \<times> backend_call list" where
  "state_service sv en func ctx st w =
     (let inner = (if is_in_service ctx then ctx else Some (service_context sv))
      in if \<not> sv_enabled sv
         then (case func inner (st, \<lparr>ex_collector = None, ex_world = w, ex_calls = []\<rparr>) of (r, st', s) \<Rightarrow> (r, st', ex_world s, ex_calls s))
         else (case func inner (st, \<lparr>ex_collector = Some (collector_init (sv_priority sv)), ex_world = w, ex_calls = []\<rparr>) of
                 (Inl e, st', s) \<Rightarrow> (Inl e, st', ex_world s, ex_calls s)
               | (Inr _, st', s) \<Rightarrow>
                   (case send_data (en_answer en) (en_meanwhile en) (en_now en) inner (sv_wait_for_callback sv)
                           (case ex_collector s of None \<Rightarrow> collector_init (sv_priority sv) | Some c \<Rightarrow> c) (ex_world s) of
                      (r, w', calls) \<Rightarrow> (map_sum id (\<lambda>_. ()) r, st', w', ex_calls s @ calls))))"

text \<open>The value of a field, and whether a field that gates the validity is uncertain.\<close>

definition field_value :: "world \<Rightarrow> dp_id option \<Rightarrow> pyval" where
  "field_value w field = (case field of None \<Rightarrow> PNone | Some k \<Rightarrow> (case dp_get_value (fst w k) of Inl _ \<Rightarrow> PNone | Inr v \<Rightarrow> v))"

definition field_uncertain :: "world \<Rightarrow> dp_id option \<Rightarrow> bool" where
  "field_uncertain w field \<longleftrightarrow> (case field of None \<Rightarrow> False | Some k \<Rightarrow> is_readable (fst w k) \<and> dp_state_uncertain (fst w k))"

subsection \<open>What a service method calls\<close>

lemma service_plain:
  assumes "\<not> sv_enabled sv"
  shows "service sv en func ctx w =
    (case func (if is_in_service ctx then ctx else Some (service_context sv)) \<lparr>ex_collector = None, ex_world = w, ex_calls = []\<rparr> of
       (r, s) \<Rightarrow> (r, leave_service sv ctx (if is_in_service ctx then ctx else Some (service_context sv)) r, ex_world s, ex_calls s))"
  using assms by (simp add: service_def bind_wrapper_def Let_def split_beta)

text \<open>The calls of a service method that only collects, and whose values are one paramset.\<close>

lemma service_collected:
  assumes "sv_enabled sv"
    and "func (if is_in_service ctx then ctx else Some (service_context sv)) \<lparr>ex_collector = Some (collector_init (sv_priority sv)), ex_world = w, ex_calls = []\<rparr> =
      (Inr (), \<lparr>ex_collector = Some c, ex_world = w, ex_calls = []\<rparr>)"
    and "collector_plan c = [(pk, order, a, ps)]"
    and "service sv en func ctx w = (r, ctx', w', calls)"
  shows "\<exists>opts. calls = [paramset_call opts a pk ps]"
  using assms
  by (auto simp: service_def bind_wrapper_def Let_def send_data_def split: prod.splits sum.splits if_splits)

lemma pair_plan:
  "p \<noteq> q \<Longrightarrow> collector_plan (add_data_point (a, pk, q) v 50 r' (add_data_point (a, pk, p) u 50 r (collector_init prio))) =
     [(pk, 50, a, [(p, u), (q, v)])]"
  by (simp add: collector_plan_def collector_init_def add_paramset_value_def dict_at_def dict_get_def dict_set_def Let_def)

lemma single_plan: "collector_plan (add_data_point (a, pk, p) v 50 r (collector_init prio)) = [(pk, 50, a, [(p, v)])]"
  by (simp add: collector_plan_def add_data_point_def collector_init_def add_paramset_value_def dict_at_def dict_set_def Let_def split: option.splits)

subsection \<open>Sending numbers\<close>

text \<open>A number field of the given class that can be written, with a range.\<close>

definition writes_number :: "dp_class \<Rightarrow> parameter_type \<Rightarrow> data_point \<Rightarrow> bool" where
  "writes_number c t d \<longleftrightarrow> dp_kind d = c \<and> dp_type d = t \<and> is_writable d"

definition in_range :: "data_point \<Rightarrow> real \<Rightarrow> bool" where
  "in_range d x \<longleftrightarrow> (\<exists>lo hi. py_num (dp_min d) = Some lo \<and> py_num (dp_max d) = Some hi \<and> lo \<le> x \<and> x \<le> hi)"

lemma number_simps:
  "py_num (PFloat x) = Some x" "py_num (PInt i) = Some (of_int i)" "py_float (PFloat x) = Inr x" "py_float (PInt i) = Inr (of_int i)"
  "py_truncate (of_int i) = i"
  by (simp_all add: py_num_def py_float_def py_truncate_def)

lemma collect_float:
  assumes "writes_number DpFloat T_FLOAT d" and "do_validate \<Longrightarrow> in_range d x"
  shows "send_value ft now (PFloat x) True do_validate retry d = (Collected (PFloat x), d, [])"
  using assms
  by (cases do_validate) (auto simp: writes_number_def in_range_def send_value_def prepare_value_for_sending_def prepare_number_for_sending_def
      number_simps number_converter_def dp_convert_def convert_value_noncached_def)

lemma collect_integer:
  assumes "writes_number c T_INTEGER d" and "c = DpActionInteger \<or> c = DpInteger" and "in_range d (of_int i)"
  shows "send_value ft now (PInt i) True True retry d = (Collected (PInt i), d, [])"
  using assms
  by (auto simp: writes_number_def in_range_def send_value_def prepare_value_for_sending_def prepare_number_for_sending_def
      number_simps number_converter_def dp_convert_def convert_value_noncached_def)

lemma in_range_between: "in_range d x \<Longrightarrow> in_range d z \<Longrightarrow> x \<le> y \<Longrightarrow> y \<le> z \<Longrightarrow> in_range d y"
  by (auto simp: in_range_def)

definition sample_environment :: environment where
  "sample_environment =
     \<lparr>en_float_text = no_text, en_now = 5, en_answer = sample_answers, en_meanwhile = (\<lambda>_ w. w), en_last_value_send = (\<lambda>_. PNone)\<rparr>"

end
