(* ===== verification/Machine_Float.thy ===== *)
theory Machine_Float
  imports Prelude
begin

section \<open>Rounding of machine numbers\<close>

text \<open>
  Python's floats: a real number is rounded to the nearest number with 53 significant bits, a tie to
  the even one. The range of exponents is not bounded, which makes no difference for the values here.
  \<open>fl\<close> rounds a real number; \<open>nearest\<close> computes the rounding of a fraction, and \<open>fl_nearest\<close> says so.
\<close>

definition round_even :: "real \<Rightarrow> int" where
  "round_even y =
     (let f = \<lfloor>y\<rfloor>; r = y - of_int f in if r < 1 / 2 \<or> r = 1 / 2 \<and> even f then f else f + 1)"

definition fl :: "real \<Rightarrow> real" where
  "fl x = (if x = 0 then 0 else let e = \<lfloor>log 2 \<bar>x\<bar>\<rfloor> - 52 in of_int (round_even (x / 2 powi e)) * 2 powi e)"

text \<open>\<open>int(x)\<close> of a float.\<close>

definition truncate_float :: "real \<Rightarrow> int" where
  "truncate_float x = (if 0 \<le> x then \<lfloor>x\<rfloor> else \<lceil>x\<rceil>)"

lemma fl_zero [simp]: "fl 0 = 0"
  by (simp add: fl_def)

text \<open>
  How often a fraction must be doubled to reach one, and how often it can be halved without falling
  below; the first argument bounds the search.
\<close>

fun doublings :: "nat \<Rightarrow> int \<Rightarrow> int \<Rightarrow> nat" where
  "doublings 0 n d = 0"
| "doublings (Suc b) n d = (if d \<le> n then 0 else Suc (doublings b (2 * n) d))"

fun halvings :: "nat \<Rightarrow> int \<Rightarrow> int \<Rightarrow> nat" where
  "halvings 0 n d = 0"
| "halvings (Suc b) n d = (if n < 2 * d then 0 else Suc (halvings b n (2 * d)))"

definition nearest :: "int \<Rightarrow> int \<Rightarrow> int \<times> nat" where
  "nearest n d =
     (let k = 52 + doublings 50 n d - halvings 50 n d; q = n * 2 ^ k div d; r = n * 2 ^ k mod d
      in (if 2 * r < d \<or> 2 * r = d \<and> even q then q else q + 1, k))"

definition normal :: "int \<Rightarrow> int \<Rightarrow> bool" where
  "normal n d \<longleftrightarrow> 0 < d \<and> (let a = n * 2 ^ snd (nearest n d) in 2 ^ 52 * d \<le> a \<and> a < 2 ^ 53 * d)"

text \<open>Evaluation by the simplifier: each step once its arguments are numbers.\<close>

lemma doublings_numeral: "doublings (numeral b) n d = (if d \<le> n then 0 else Suc (doublings (pred_numeral b) (2 * n) d))"
  by (simp add: numeral_eq_Suc)

lemma halvings_numeral: "halvings (numeral b) n d = (if n < 2 * d then 0 else Suc (halvings (pred_numeral b) n (2 * d)))"
  by (simp add: numeral_eq_Suc)

lemma nearest_eq:
  "52 + doublings 50 n d - halvings 50 n d = k \<Longrightarrow> n * 2 ^ k = a \<Longrightarrow> a div d = q \<Longrightarrow> a mod d = r \<Longrightarrow>
   nearest n d = (if 2 * r < d \<or> 2 * r = d \<and> even q then q else q + 1, k)"
  by (simp add: nearest_def Let_def)

lemmas compute_nearest = doublings_numeral halvings_numeral nearest_eq

lemma doublings_bounds:
  "0 < n \<Longrightarrow> n < d \<Longrightarrow> d \<le> n * 2 ^ b \<Longrightarrow> d \<le> n * 2 ^ doublings b n d \<and> n * 2 ^ doublings b n d < 2 * d"
proof (induction b arbitrary: n)
  case (Suc b)
  show ?case
  proof (cases "d \<le> 2 * n")
    case True
    with Suc.prems show ?thesis by (cases b) auto
  next
    case False
    with Suc.IH [of "2 * n"] Suc.prems show ?thesis by (simp add: mult_ac)
  qed
qed simp

lemma halvings_bounds:
  "0 < d \<Longrightarrow> d \<le> n \<Longrightarrow> n < d * 2 ^ b \<Longrightarrow> d * 2 ^ halvings b n d \<le> n \<and> n < 2 * (d * 2 ^ halvings b n d) \<and> halvings b n d \<le> b"
proof (induction b arbitrary: d)
  case (Suc b)
  then show ?case using Suc.IH [of "2 * d"] by (auto simp: mult_ac)
qed simp

lemma normal_fraction:
  assumes "0 < n" and "0 < d" and "d \<le> n * 2 ^ 50" and "n < d * 2 ^ 50"
  shows "normal n d"
proof (cases "d \<le> n")
  case True
  let ?h = "halvings 50 n d"
  have h: "d * 2 ^ ?h \<le> n" "n < 2 * (d * 2 ^ ?h)" "?h \<le> 50"
    using halvings_bounds [of d n 50] assms True by simp_all
  have k: "snd (nearest n d) = 52 - ?h"
    using True by (simp add: nearest_def Let_def doublings_numeral)
  have "(2::int) ^ 52 = 2 ^ ?h * 2 ^ (52 - ?h)"
    using h(3) by (simp flip: power_add)
  then have e: "2 ^ 52 * d = d * 2 ^ ?h * 2 ^ (52 - ?h)" "2 ^ 53 * d = 2 * (d * 2 ^ ?h) * 2 ^ (52 - ?h)"
    by simp_all
  have "d * 2 ^ ?h * 2 ^ (52 - ?h) \<le> n * 2 ^ (52 - ?h)" "n * 2 ^ (52 - ?h) < 2 * (d * 2 ^ ?h) * 2 ^ (52 - ?h)"
    using h(1,2) by (intro mult_right_mono mult_strict_right_mono; simp)+
  then show ?thesis
    using assms(2) unfolding normal_def k Let_def e by simp
next
  case False
  let ?b = "doublings 50 n d"
  have b: "d \<le> n * 2 ^ ?b" "n * 2 ^ ?b < 2 * d"
    using doublings_bounds [of n d 50] assms False by simp_all
  have k: "snd (nearest n d) = 52 + ?b"
    using False assms(2) by (simp add: nearest_def Let_def halvings_numeral)
  have "2 ^ 52 * d \<le> 2 ^ 52 * (n * 2 ^ ?b)" "2 ^ 52 * (n * 2 ^ ?b) < 2 ^ 52 * (2 * d)"
    using b by simp_all
  then show ?thesis
    using assms(2) unfolding normal_def k Let_def by (simp add: power_add mult_ac)
qed

lemma round_even_div:
  assumes "0 < d"
  shows "round_even (real_of_int a / real_of_int d) =
    (if 2 * (a mod d) < d \<or> 2 * (a mod d) = d \<and> even (a div d) then a div d else a div d + 1)"
proof -
  have f: "\<lfloor>real_of_int a / real_of_int d\<rfloor> = a div d"
    by (rule floor_divide_of_int_eq)
  have "real_of_int a = real_of_int d * real_of_int (a div d) + real_of_int (a mod d)"
    by (metis mult_div_mod_eq of_int_add of_int_mult)
  then have r: "real_of_int a / real_of_int d - real_of_int (a div d) = real_of_int (a mod d) / real_of_int d"
    using assms by (simp add: field_simps)
  have "real_of_int (a mod d) / real_of_int d < 1 / 2 \<longleftrightarrow> real_of_int (2 * (a mod d)) < real_of_int d"
    using assms by (simp add: field_simps)
  then have lt: "real_of_int (a mod d) / real_of_int d < 1 / 2 \<longleftrightarrow> 2 * (a mod d) < d"
    by (simp only: of_int_less_iff)
  have "real_of_int (a mod d) / real_of_int d = 1 / 2 \<longleftrightarrow> real_of_int (2 * (a mod d)) = real_of_int d"
    using assms by (simp add: divide_eq_eq) argo
  then have eq: "real_of_int (a mod d) / real_of_int d = 1 / 2 \<longleftrightarrow> 2 * (a mod d) = d"
    by (simp only: of_int_eq_iff)
  show ?thesis
    unfolding round_even_def Let_def f r lt eq ..
qed

lemma fl_nearest:
  assumes "normal n d"
  shows "fl (of_int n / of_int d) = of_int (fst (nearest n d)) / 2 ^ snd (nearest n d)"
proof -
  define k where "k = snd (nearest n d)"
  have d: "0 < d" and lo: "2 ^ 52 * d \<le> n * 2 ^ k" and hi: "n * 2 ^ k < 2 ^ 53 * d"
    using assms by (simp_all add: normal_def Let_def k_def)
  let ?x = "real_of_int n / real_of_int d"
  have "0 < 2 ^ 52 * d" using d by simp
  with lo have "0 < n * 2 ^ k" by (rule less_le_trans [rotated])
  then have n: "0 < n" by (simp add: zero_less_mult_iff)
  have x: "0 < ?x" using n d by simp
  have "real_of_int (2 ^ 52 * d) \<le> real_of_int (n * 2 ^ k)" using lo by (simp only: of_int_le_iff)
  then have lo': "2 ^ 52 \<le> ?x * 2 ^ k" using d by (simp add: field_simps)
  have "real_of_int (n * 2 ^ k) < real_of_int (2 ^ 53 * d)" using hi by (simp only: of_int_less_iff)
  then have hi': "?x * 2 ^ k < 2 ^ 53" using d by (simp add: field_simps)
  have "\<lfloor>log 2 (?x * 2 ^ k)\<rfloor> = 52"
    using lo' hi' x by (simp add: floor_eq_iff le_log_iff log_less_iff powr_realpow flip: powr_realpow)
  moreover have "log 2 (?x * 2 ^ k) = log 2 ?x + real k"
    using x by (subst log_mult) (auto simp: log_nat_power)
  ultimately have "\<lfloor>log 2 ?x\<rfloor> - 52 = - int k" by simp
  moreover have "\<bar>?x\<bar> = ?x" using x by (rule abs_of_pos)
  ultimately have e: "\<lfloor>log 2 \<bar>?x\<bar>\<rfloor> - 52 = - int k" by simp
  have scale: "?x / 2 powi (- int k) = real_of_int (n * 2 ^ k) / real_of_int d"
    by (simp add: power_int_minus field_simps)
  have "fl ?x = of_int (round_even (real_of_int (n * 2 ^ k) / real_of_int d)) * 2 powi (- int k)"
    using x unfolding fl_def e Let_def scale by auto
  also have "round_even (real_of_int (n * 2 ^ k) / real_of_int d) = fst (nearest n d)"
    unfolding round_even_div [OF d] by (simp add: nearest_def k_def Let_def)
  finally show ?thesis
    by (simp add: power_int_minus k_def divide_inverse)
qed

text \<open>The error is at most half a unit in the last place.\<close>

lemma fl_error:
  "\<bar>fl x - x\<bar> \<le> 2 powi (\<lfloor>log 2 \<bar>x\<bar>\<rfloor> - 52) / 2"
proof (cases "x = 0")
  case False
  let ?s = "2 powi (\<lfloor>log 2 \<bar>x\<bar>\<rfloor> - 52) :: real"
  have s: "0 < ?s" by simp
  have r: "\<bar>of_int (round_even y) - y\<bar> \<le> 1 / 2" for y :: real
    unfolding round_even_def Let_def by (auto simp: abs_le_iff)
  have "fl x - x = (of_int (round_even (x / ?s)) - x / ?s) * ?s"
    using False s by (simp add: fl_def Let_def field_simps)
  also have "\<bar>\<dots>\<bar> = \<bar>of_int (round_even (x / ?s)) - x / ?s\<bar> * ?s"
    using s by (simp add: abs_mult)
  also have "\<dots> \<le> 1 / 2 * ?s"
    using r [of "x / ?s"] s by (intro mult_right_mono) auto
  finally show ?thesis by simp
qed simp

end
