(* ===== verification/Level.thy ===== *)
theory Level
  imports Machine_Float Text_Format
begin

section \<open>Levels, positions and combined parameters\<close>

text \<open>
  Conversions between the levels of the backend, floats between 0 and 1, and what the user sees:
  \<open>PositionMixin\<close> and \<open>recalc_unit_timer\<close> of \<open>model/custom/mixins.py\<close>, and the
  combined parameters of \<open>converter.py\<close>, texts that hold the levels of a blind and its slats. Floats are
  real numbers, every operation on them is rounded by \<open>fl\<close>. The caches of the converters are left out:
  their keys are texts and floats.
\<close>

subsection \<open>Positions and timers\<close>

definition level_to_position :: "bool \<Rightarrow> real option \<Rightarrow> int option" where
  "level_to_position inverted level =
     (case level of
        None \<Rightarrow> None
      | Some l \<Rightarrow> let position = truncate_float (fl (l * 100)) in Some (if inverted then 100 - position else position))"

definition position_to_level :: "bool \<Rightarrow> int \<Rightarrow> real" where
  "position_to_level inverted position = (let p = (if inverted then 100 - position else position) in fl (of_int p / 100))"

datatype timer_unit = TU_SECONDS | TU_MINUTES | TU_HOURS

definition TIMER_NOT_USED :: real where
  "TIMER_NOT_USED = 111600"

definition TIME_UNIT_THRESHOLD :: real where
  "TIME_UNIT_THRESHOLD = 16343"

definition recalc_unit_timer :: "real \<Rightarrow> real \<times> timer_unit" where
  "recalc_unit_timer time =
     (if time = TIMER_NOT_USED then (time, TU_HOURS)
      else let (t, u) = (if TIME_UNIT_THRESHOLD < time then (fl (time / 60), TU_MINUTES) else (time, TU_SECONDS))
           in if TIME_UNIT_THRESHOLD < t then (fl (t / 60), TU_HOURS) else (t, u))"

subsection \<open>Combined parameters\<close>

definition hex_char :: "nat \<Rightarrow> char" where
  "hex_char n = (if n < 10 then digit_char n else char_of (87 + n))"

fun hex :: "nat \<Rightarrow> string" where
  "hex n = (if n < 16 then [hex_char n] else hex (n div 16) @ [hex_char (n mod 16)])"

declare hex.simps [simp del]

text \<open>\<open>format(i, "#04x")\<close>: the prefix counts for the width, zeros stand after it.\<close>

definition hex_text :: "int \<Rightarrow> string" where
  "hex_text i =
     (let pad = (\<lambda>w s. replicate (w - length s) (CHR ''0'') @ s)
      in if i < 0 then ''-0x'' @ pad 1 (hex (nat (- i))) else ''0x'' @ pad 2 (hex (nat i)))"

definition convert_hm_level_to_cpv :: "real \<Rightarrow> string" where
  "convert_hm_level_to_cpv l = hex_text (truncate_float (fl (fl (l * 100) * 2)))"

definition hex_digit :: "char \<Rightarrow> nat option" where
  "hex_digit c =
     (if is_digit c then Some (digit_val c)
      else if 97 \<le> code c \<and> code c \<le> 102 then Some (code c - 87)
      else if 65 \<le> code c \<and> code c \<le> 70 then Some (code c - 55)
      else None)"

text \<open>The digits of a hexadecimal literal; texts with underscores, blanks or an expression are not read.\<close>

definition hex_literal :: "string \<Rightarrow> nat option" where
  "hex_literal s =
     (if s = [] then None
      else foldl (\<lambda>acc c. case (acc, hex_digit c) of (Some a, Some v) \<Rightarrow> Some (16 * a + v) | _ \<Rightarrow> None) (Some 0) s)"

datatype level_value = LevelFloat real | LevelText string

definition convert_cpv_to_hm_level :: "string \<Rightarrow> level_value option" where
  "convert_cpv_to_hm_level s =
     (if take 2 s = ''0x''
      then map_option (\<lambda>n. LevelFloat (fl (fl (real n / 100) / 2))) (hex_literal (drop 2 s))
      else Some (LevelText s))"

definition convert_cpv_to_hmip_level :: "string \<Rightarrow> level_value option" where
  "convert_cpv_to_hmip_level s = map_option (\<lambda>i. LevelFloat (fl (of_int i / 100))) (python_int s)"

text \<open>\<open>None\<close> stands for a \<open>ValueError\<close>, which the caller catches.\<close>

definition convert_combined_item :: "string \<Rightarrow> (string, level_value) dict \<Rightarrow> (string, level_value) dict option" where
  "convert_combined_item item paramset =
     (case split_all CHR ''='' item of
        [cp_param, v] \<Rightarrow>
          if cp_param = ''L'' then map_option (\<lambda>l. dict_set ''LEVEL'' l paramset) (convert_cpv_to_hmip_level v)
          else if cp_param = ''L2'' then map_option (\<lambda>l. dict_set ''LEVEL_2'' l paramset) (convert_cpv_to_hmip_level v)
          else Some paramset
      | _ \<Rightarrow> None)"

definition convert_combined_to_paramset :: "string \<Rightarrow> (string, level_value) dict option" where
  "convert_combined_to_paramset s =
     foldl (\<lambda>acc item. Option.bind acc (convert_combined_item item)) (Some []) (split_all CHR '','' s)"

definition convert_level_combined_to_paramset :: "string \<Rightarrow> (string, level_value) dict option" where
  "convert_level_combined_to_paramset s =
     (if CHR '','' \<in> set s
      then case split_all CHR '','' s of
             [l1, l2] \<Rightarrow>
               (case (convert_cpv_to_hm_level l1, convert_cpv_to_hm_level l2) of
                  (Some a, Some b) \<Rightarrow> Some [(''LEVEL'', a), (''LEVEL_SLATS'', b)]
                | _ \<Rightarrow> None)
           | _ \<Rightarrow> None
      else Some [])"

definition convert_combined_parameter_to_paramset :: "string \<Rightarrow> string \<Rightarrow> (string, level_value) dict" where
  "convert_combined_parameter_to_paramset parameter s =
     (case (if parameter = ''COMBINED_PARAMETER'' then convert_combined_to_paramset s
            else if parameter = ''LEVEL_COMBINED'' then convert_level_combined_to_paramset s
            else Some []) of
        None \<Rightarrow> []
      | Some paramset \<Rightarrow> paramset)"

subsection \<open>Which positions survive\<close>

text \<open>The position that the level of a position is read as: three of them lose one to the rounding.\<close>

definition seen_position :: "int \<Rightarrow> int" where
  "seen_position p = (if p \<in> {29, 57, 58} then p - 1 else p)"

text \<open>The level \<open>a / b\<close> times \<open>c\<close>, truncated, and its evaluation.\<close>

definition level_times :: "int \<Rightarrow> int \<Rightarrow> int \<Rightarrow> int" where
  "level_times a b c = truncate_float (fl (fl (of_int a / of_int b) * of_int c))"

lemma truncate_fraction: "0 \<le> m \<Longrightarrow> truncate_float (of_int m / 2 ^ k) = m div 2 ^ k"
proof -
  assume "0 \<le> m"
  moreover have "\<lfloor>real_of_int m / real_of_int (2 ^ k)\<rfloor> = m div 2 ^ k" by (rule floor_divide_of_int_eq)
  ultimately show ?thesis by (simp add: truncate_float_def)
qed

lemma level_times_eq:
  assumes "0 < a" "0 < b" "b \<le> a * 2 ^ 50" "a < b * 2 ^ 50" "nearest a b = (m, k)" "2 ^ k = e" "m * c = n"
    and "0 < n" "e \<le> n * 2 ^ 50" "n < e * 2 ^ 50" "nearest n e = (m', k')" "0 \<le> m'" "2 ^ k' = e'"
  shows "level_times a b c = m' div e'"
proof -
  have e: "0 < e" using assms(6) by auto
  have 1: "fl (of_int a / of_int b) = of_int m / 2 ^ k"
    using fl_nearest [OF normal_fraction [OF assms(1-4)]] assms(5) by simp
  have "fl (of_int n / of_int e) = of_int m' / 2 ^ k'"
    using fl_nearest [OF normal_fraction [OF assms(8) e assms(9,10)]] assms(11) by simp
  moreover have "real_of_int m / 2 ^ k * of_int c = of_int n / of_int e"
    using assms(6,7) by (simp flip: assms(6,7))
  ultimately have "fl (of_int m / 2 ^ k * of_int c) = of_int m' / 2 ^ k'" by simp
  with 1 assms(12,13) show ?thesis
    by (simp add: truncate_fraction level_times_def)
qed

text \<open>The second rounding divides by a power of two, which leaves a division by its last few digits.\<close>

lemma nearest_power:
  assumes "52 + doublings 50 n (2 ^ k) - halvings 50 n (2 ^ k) = k'" and "k' \<le> k" and "2 ^ (k - k') = f"
  shows "nearest n (2 ^ k) = (if 2 * (n mod f) < f \<or> 2 * (n mod f) = f \<and> even (n div f) then n div f else n div f + 1, k')"
proof -
  have k: "(2::int) ^ k = f * 2 ^ k'"
    using assms(2) by (simp flip: assms(3) power_add)
  have "n * 2 ^ k' div 2 ^ k = n div f" "n * 2 ^ k' mod 2 ^ k = (n mod f) * 2 ^ k'"
    unfolding k by (simp_all add: mult_mod_left)
  then show ?thesis
    unfolding nearest_def assms(1) Let_def by (simp add: k)
qed

lemma level_times_compute:
  assumes "0 < a" "0 < b" "b \<le> a * 2 ^ 50" "a < b * 2 ^ 50" "nearest a b = (m, k)" "2 ^ k = e" "m * c = n"
    and "0 < n" "e \<le> n * 2 ^ 50" "n < e * 2 ^ 50" "52 + doublings 50 n e - halvings 50 n e = k'" "k' \<le> k"
    and "2 ^ (k - k') = f" "n div f = q" "n mod f = r" "(if 2 * r < f \<or> 2 * r = f \<and> even q then q else q + 1) = m'"
    and "0 \<le> m'" "2 ^ k' = e'"
  shows "level_times a b c = m' div e'"
  using assms(6) assms(14-16) nearest_power [of n k k' f] assms(11-13)
  by (intro level_times_eq [OF assms(1-10) _ assms(17,18)]) (auto split: if_splits)

lemmas compute_level = compute_nearest level_times_compute

definition position_kept :: "int \<Rightarrow> bool" where
  "position_kept p \<longleftrightarrow> level_times p 100 100 = seen_position p"

text \<open>All positions.\<close>

lemma positions_computed_low: "list_all position_kept [1..50]"
  by (simp add: upto.simps; intro conjI; simp add: position_kept_def seen_position_def compute_level)

lemma positions_computed_high: "list_all position_kept [51..100]"
  by (simp add: upto.simps; intro conjI; simp add: position_kept_def seen_position_def compute_level)

lemma position_times:
  assumes "0 \<le> p" and "p \<le> 100"
  shows "truncate_float (fl (fl (of_int p / 100) * 100)) = seen_position p"
proof (cases "p = 0")
  case True
  then show ?thesis by (simp add: truncate_float_def seen_position_def)
next
  case False
  with assms have "p \<in> set [1..50] \<or> p \<in> set [51..100]"
    unfolding set_upto atLeastAtMost_iff by linarith
  then have "position_kept p"
    using positions_computed_low positions_computed_high unfolding list_all_iff by blast
  then show ?thesis by (simp add: position_kept_def level_times_def)
qed

text \<open>
  C22: Which positions survive as a level. A position of the user becomes a float level by a division by
  100, the level becomes a position again by a multiplication with 100 that is cut off. The rounding of
  the two operations loses one for exactly the positions 29, 57 and 58; for devices with inverted
  levels the positions 42, 43 and 71 read one too high. All others are read back as they were set.
\<close>

theorem position_roundtrip:
  assumes "0 \<le> p" and "p \<le> 100"
  shows "level_to_position False (Some (position_to_level False p)) = Some (if p \<in> {29, 57, 58} then p - 1 else p) \<and>
    level_to_position True (Some (position_to_level True p)) = Some (if p \<in> {42, 43, 71} then p + 1 else p)"
  using position_times [of p] position_times [of "100 - p"] assms
  by (auto simp: level_to_position_def position_to_level_def seen_position_def Let_def)

theorem position_roundtrip_witness:
  "level_to_position False (Some (position_to_level False 58)) = Some 57 \<and>
   level_to_position False (Some (position_to_level False 57)) = Some 56 \<and>
   level_to_position True (Some (position_to_level True 42)) = Some 43"
  using position_roundtrip [of 58] position_roundtrip [of 57] position_roundtrip [of 42] by simp

subsection \<open>Reading combined parameters\<close>

lemma digits_no_sign: "list_all is_digit s \<Longrightarrow> CHR '','' \<notin> set s \<and> CHR ''='' \<notin> set s"
  by (auto simp: list_all_iff is_digit_def code_def)

text \<open>What a blind of the IP line is sent is read back as the two levels.\<close>

lemma combined_levels:
  "convert_combined_parameter_to_paramset ''COMBINED_PARAMETER'' (''L2='' @ dec t @ '',L='' @ dec p) =
     [(''LEVEL_2'', LevelFloat (fl (real t / 100))), (''LEVEL'', LevelFloat (fl (real p / 100)))]"
proof -
  have no: "CHR '','' \<notin> set (dec n)" "CHR ''='' \<notin> set (dec n)" for n
    using digits_no_sign [OF dec_digits] by simp_all
  have "split_all CHR '','' ((''L2='' @ dec t) @ CHR '','' # ''L='' @ dec p) = [''L2='' @ dec t, ''L='' @ dec p]"
    using no by (intro split_all_two) simp_all
  moreover have "split_all CHR ''='' (''L2'' @ CHR ''='' # dec t) = [''L2'', dec t]" "split_all CHR ''='' (''L'' @ CHR ''='' # dec p) = [''L'', dec p]"
    using no by (intro split_all_two; simp)+
  ultimately show ?thesis
    by (simp add: convert_combined_parameter_to_paramset_def convert_combined_to_paramset_def convert_combined_item_def
        convert_cpv_to_hmip_level_def dict_set_def)
qed

lemma hex_digit_char: "n < 16 \<Longrightarrow> hex_digit (hex_char n) = Some n"
  by (auto simp: hex_digit_def hex_char_def is_digit_def digit_val_def digit_char_def code_def)

lemma hex_read: "foldl (\<lambda>acc c. case (acc, hex_digit c) of (Some a, Some v) \<Rightarrow> Some (16 * a + v) | _ \<Rightarrow> None) (Some 0) (hex n) = Some n"
proof (induction n rule: hex.induct)
  case (1 n)
  then show ?case by (cases "n < 16") (simp_all add: hex.simps [of n] hex_digit_char)
qed

text \<open>The text of a level for the older blinds is read as the same half percents.\<close>

lemma hex_text_read: "hex_literal (drop 2 (hex_text (int n))) = Some n"
proof -
  have zero: "hex_digit CHR ''0'' = Some 0"
    by (simp add: hex_digit_def is_digit_def digit_val_def code_def)
  have ne: "hex n \<noteq> []" by (simp add: hex.simps [of n])
  then have "2 - length (hex n) = 0 \<or> 2 - length (hex n) = 1" by (cases "hex n") auto
  then show ?thesis
    using ne by (elim disjE) (simp_all add: hex_text_def Let_def hex_literal_def hex_read [simplified] zero)
qed

end
