(* ===== verification/Cover.thy ===== *)
theory Cover
  imports Custom_Data_Point Level
begin

section \<open>Covers, blinds and garage doors\<close>

text \<open>
  The custom data points of \<open>model/custom/cover.py\<close>, with \<open>CombinedDpGarageDoorMode\<close> of
  \<open>model/combined/garage_door_mode.py\<close>.
  The lock of a blind serialises its operations, which run one at a time here.
\<close>

subsection \<open>Covers\<close>

datatype cover_kind = CustomDpCover | CustomDpWindowDrive | CustomDpBlind | CustomDpIpBlind

record cover =
  cv_kind :: cover_kind
  cv_level :: "dp_id option"
  cv_group_level :: "dp_id option"
  cv_direction :: "dp_id option"
  cv_stop :: "dp_id option"
  cv_combined :: "dp_id option"
  cv_level_2 :: "dp_id option"
  cv_group_level_2 :: "dp_id option"
  cv_use_group_channel :: bool
  cv_is_primary :: bool

definition OPEN_LEVEL :: real where "OPEN_LEVEL = 1"
definition CLOSED_LEVEL :: real where "CLOSED_LEVEL = 0"
definition WD_CLOSED_LEVEL :: real where "WD_CLOSED_LEVEL = fl (- 1 / 200)"

definition closed_level :: "cover_kind \<Rightarrow> real" where
  "closed_level k = (if k = CustomDpWindowDrive then WD_CLOSED_LEVEL else CLOSED_LEVEL)"

definition level_or :: "real \<Rightarrow> pyval \<Rightarrow> real" where
  "level_or l0 v = (case py_num v of None \<Rightarrow> l0 | Some l \<Rightarrow> l)"

text \<open>The level of the group channel where it is used and known, else that of the own channel.\<close>

definition group_level :: "cover \<Rightarrow> world \<Rightarrow> real" where
  "group_level cv w =
     (if cv_use_group_channel cv \<and> field_value w (cv_group_level cv) \<noteq> PNone \<and> cv_is_primary cv
      then level_or (closed_level (cv_kind cv)) (field_value w (cv_group_level cv))
      else level_or (closed_level (cv_kind cv)) (field_value w (cv_level cv)))"

definition group_tilt_level :: "cover \<Rightarrow> world \<Rightarrow> real" where
  "group_tilt_level cv w =
     (if cv_use_group_channel cv \<and> field_value w (cv_group_level_2 cv) \<noteq> PNone \<and> cv_is_primary cv
      then level_or (closed_level (cv_kind cv)) (field_value w (cv_group_level_2 cv))
      else level_or (closed_level (cv_kind cv)) (field_value w (cv_level_2 cv)))"

definition position_of :: "real \<Rightarrow> int" where
  "position_of l = (case level_to_position False (Some l) of None \<Rightarrow> 0 | Some p \<Rightarrow> p)"

definition current_position :: "cover \<Rightarrow> world \<Rightarrow> int" where
  "current_position cv w =
     (if cv_kind cv = CustomDpWindowDrive
      then let l = level_or WD_CLOSED_LEVEL (field_value w (cv_level cv))
           in position_of (if l = WD_CLOSED_LEVEL then CLOSED_LEVEL else if l = CLOSED_LEVEL then fl (1 / 100) else l)
      else position_of (group_level cv w))"

definition current_channel_position :: "cover \<Rightarrow> world \<Rightarrow> int" where
  "current_channel_position cv w =
     (case level_to_position False (py_num (field_value w (cv_level cv))) of None \<Rightarrow> 0 | Some p \<Rightarrow> p)"

definition current_channel_tilt_position :: "cover \<Rightarrow> world \<Rightarrow> int" where
  "current_channel_tilt_position cv w =
     (case level_to_position False (py_num (field_value w (cv_level_2 cv))) of None \<Rightarrow> 0 | Some p \<Rightarrow> p)"

definition current_tilt_position :: "cover \<Rightarrow> world \<Rightarrow> int" where
  "current_tilt_position cv w = position_of (group_tilt_level cv w)"

definition is_closed :: "cover \<Rightarrow> world \<Rightarrow> bool" where
  "is_closed cv w \<longleftrightarrow> group_level cv w = closed_level (cv_kind cv)"

definition is_closing :: "cover \<Rightarrow> world \<Rightarrow> bool option" where
  "is_closing cv w = (case field_value w (cv_direction cv) of PNone \<Rightarrow> None | v \<Rightarrow> Some (v = PStr ''DOWN''))"

definition is_opening :: "cover \<Rightarrow> world \<Rightarrow> bool option" where
  "is_opening cv w = (case field_value w (cv_direction cv) of PNone \<Rightarrow> None | v \<Rightarrow> Some (v = PStr ''UP''))"

definition is_blind :: "cover_kind \<Rightarrow> bool" where
  "is_blind k \<longleftrightarrow> k \<in> {CustomDpBlind, CustomDpIpBlind}"

text \<open>The fields that gate validity: only the level.\<close>

definition state_uncertain :: "cover \<Rightarrow> world \<Rightarrow> bool" where
  "state_uncertain cv w = field_uncertain w (cv_level cv)"

record cover_change =
  ch_open :: bool
  ch_close :: bool
  ch_position :: "int option"
  ch_tilt_open :: bool
  ch_tilt_close :: bool
  ch_tilt_position :: "int option"

definition no_change :: cover_change where
  "no_change = \<lparr>ch_open = False, ch_close = False, ch_position = None, ch_tilt_open = False, ch_tilt_close = False, ch_tilt_position = None\<rparr>"

definition cover_state_change :: "cover_change \<Rightarrow> cover \<Rightarrow> world \<Rightarrow> bool" where
  "cover_state_change ch cv w \<longleftrightarrow>
     is_blind (cv_kind cv) \<and>
       ((\<exists>p \<in> set_option (ch_tilt_position ch). p \<noteq> current_tilt_position cv w) \<or>
        ch_tilt_open ch \<and> current_tilt_position cv w \<noteq> 100 \<or>
        ch_tilt_close ch \<and> current_tilt_position cv w \<noteq> 0) \<or>
     ch_open ch \<and> group_level cv w \<noteq> OPEN_LEVEL \<or>
     ch_close ch \<and> group_level cv w \<noteq> closed_level (cv_kind cv) \<or>
     (\<exists>p \<in> set_option (ch_position ch). p \<noteq> current_position cv w) \<or>
     state_uncertain cv w"

subsection \<open>Moving covers\<close>

definition clamp_position :: "int \<Rightarrow> int" where
  "clamp_position p = min 100 (max 0 p)"

definition position_level :: "int option \<Rightarrow> real option" where
  "position_level p = map_option (\<lambda>p. position_to_level False (clamp_position p)) p"

text \<open>\<open>CustomDpCover._set_level\<close> and its override for window drives.\<close>

definition cover_set_level :: "environment \<Rightarrow> cover \<Rightarrow> request_context option \<Rightarrow> real option \<Rightarrow> effect" where
  "cover_set_level en cv ctx level =
     (case level of
        None \<Rightarrow> return_ok
      | Some l \<Rightarrow>
          if cv_kind cv = CustomDpWindowDrive
          then dp_send en ctx None (cv_level cv)
                 (if l = CLOSED_LEVEL then PFloat WD_CLOSED_LEVEL else if CLOSED_LEVEL < l \<and> l \<le> fl (1 / 100) then PInt 0 else PFloat l)
                 False False
          else dp_send en ctx None (cv_level cv) (PFloat l) True False)"

definition cover_stop :: "environment \<Rightarrow> cover \<Rightarrow> request_context option \<Rightarrow> effect" where
  "cover_stop en cv ctx = dp_send en ctx None (cv_stop cv) (PBool True) True False"

definition cover_move :: "environment \<Rightarrow> cover \<Rightarrow> cover_change \<Rightarrow> real option \<Rightarrow> request_context option \<Rightarrow> effect" where
  "cover_move en cv ch level ctx s =
     (if cover_state_change ch cv (ex_world s) then cover_set_level en cv ctx level s else return_ok s)"

definition cover_open :: "environment \<Rightarrow> cover \<Rightarrow> request_context option \<Rightarrow> effect" where
  "cover_open en cv = cover_move en cv (no_change\<lparr>ch_open := True\<rparr>) (Some OPEN_LEVEL)"

definition cover_close :: "environment \<Rightarrow> cover \<Rightarrow> request_context option \<Rightarrow> effect" where
  "cover_close en cv = cover_move en cv (no_change\<lparr>ch_close := True\<rparr>) (Some (closed_level (cv_kind cv)))"

definition cover_set_position :: "environment \<Rightarrow> cover \<Rightarrow> int option \<Rightarrow> request_context option \<Rightarrow> effect" where
  "cover_set_position en cv position = cover_move en cv (no_change\<lparr>ch_position := position\<rparr>) (position_level position)"

subsection \<open>Blinds\<close>

definition combined_value :: "cover_kind \<Rightarrow> real option \<Rightarrow> real option \<Rightarrow> string option" where
  "combined_value k level tilt_level =
     (let parts = (if k = CustomDpIpBlind
                   then (case level_to_position False tilt_level of None \<Rightarrow> [] | Some p \<Rightarrow> [''L2='' @ str_int p]) @
                        (case level_to_position False level of None \<Rightarrow> [] | Some p \<Rightarrow> [''L='' @ str_int p])
                   else map convert_hm_level_to_cpv (List.map_filter id [level, tilt_level]))
      in case parts of [] \<Rightarrow> None | p # ps \<Rightarrow> Some (p @ concat (map (\<lambda>x. '','' @ x) ps)))"

text \<open>The target of a command that is under way: the optimistic value, else what was sent last.\<close>

definition target_level :: "environment \<Rightarrow> world \<Rightarrow> dp_id option \<Rightarrow> real option" where
  "target_level en w field =
     (case field of
        None \<Rightarrow> None
      | Some k \<Rightarrow>
          (if ot_is_active (dp_optimistic (fst w k)) \<and> field_value w field \<noteq> PNone then py_num (field_value w field)
           else py_num (en_last_value_send en k)))"

definition send_level :: "environment \<Rightarrow> cover \<Rightarrow> request_context option \<Rightarrow> real \<Rightarrow> real \<Rightarrow> effect" where
  "send_level en cv ctx level tilt_level =
     nested en True True ctx
       (case (cv_combined cv, combined_value (cv_kind cv) (Some level) (Some tilt_level)) of
          (Some k, Some cp) \<Rightarrow> dp_send en ctx None (Some k) (PStr cp) True True
        | _ \<Rightarrow> and_then (dp_send en ctx None (cv_level_2 cv) (PFloat tilt_level) True False) (cover_set_level en cv ctx (Some level)))"

definition blind_stop :: "environment \<Rightarrow> cover \<Rightarrow> bool \<Rightarrow> request_context option \<Rightarrow> effect" where
  "blind_stop en cv hand_on ctx = nested en False hand_on ctx (cover_stop en cv ctx)"

definition blind_set_level :: "environment \<Rightarrow> cover \<Rightarrow> request_context option \<Rightarrow> real option \<Rightarrow> real option \<Rightarrow> effect" where
  "blind_set_level en cv ctx level tilt_level s =
     (let w = ex_world s;
          target = target_level en w (cv_level cv); tilt_target = target_level en w (cv_level_2 cv);
          (l, moving) = (case (level, target) of (Some l, _) \<Rightarrow> (l, False) | (None, Some l) \<Rightarrow> (l, True) | _ \<Rightarrow> (group_level cv w, False));
          (t, tilting) = (case (tilt_level, tilt_target) of
                            (Some t, _) \<Rightarrow> (t, False) | (None, Some t) \<Rightarrow> (t, True) | _ \<Rightarrow> (group_tilt_level cv w, False))
      in if moving \<or> tilting
         then and_then (blind_stop en cv False ctx) (send_level en cv ctx l t) s
         else send_level en cv ctx l t s)"

definition blind_move :: "environment \<Rightarrow> cover \<Rightarrow> cover_change \<Rightarrow> real option \<Rightarrow> real option \<Rightarrow> request_context option \<Rightarrow> effect" where
  "blind_move en cv ch level tilt_level ctx s =
     (if cover_state_change ch cv (ex_world s) then blind_set_level en cv ctx level tilt_level s else return_ok s)"

definition blind_open :: "environment \<Rightarrow> cover \<Rightarrow> request_context option \<Rightarrow> effect" where
  "blind_open en cv = blind_move en cv (no_change\<lparr>ch_open := True, ch_tilt_open := True\<rparr>) (Some OPEN_LEVEL) (Some OPEN_LEVEL)"

definition blind_close :: "environment \<Rightarrow> cover \<Rightarrow> request_context option \<Rightarrow> effect" where
  "blind_close en cv =
     blind_move en cv (no_change\<lparr>ch_close := True, ch_tilt_close := True\<rparr>) (Some CLOSED_LEVEL) (Some CLOSED_LEVEL)"

definition open_tilt :: "environment \<Rightarrow> cover \<Rightarrow> request_context option \<Rightarrow> effect" where
  "open_tilt en cv = blind_move en cv (no_change\<lparr>ch_tilt_open := True\<rparr>) None (Some OPEN_LEVEL)"

definition close_tilt :: "environment \<Rightarrow> cover \<Rightarrow> request_context option \<Rightarrow> effect" where
  "close_tilt en cv = blind_move en cv (no_change\<lparr>ch_tilt_close := True\<rparr>) None (Some CLOSED_LEVEL)"

definition blind_set_position :: "environment \<Rightarrow> cover \<Rightarrow> int option \<Rightarrow> int option \<Rightarrow> request_context option \<Rightarrow> effect" where
  "blind_set_position en cv position tilt_position =
     blind_move en cv (no_change\<lparr>ch_position := position, ch_tilt_position := tilt_position\<rparr>) (position_level position) (position_level tilt_position)"

text \<open>The service methods: name, whether they collect, priority.\<close>

definition cover_service :: "string \<Rightarrow> bool \<Rightarrow> command_priority option \<Rightarrow> string list option \<Rightarrow> service_method" where
  "cover_service method_name enabled priority addresses =
     \<lparr>sv_name = method_name, sv_enabled = enabled, sv_wait_for_callback = None, sv_log_level = 40, sv_priority = priority,
      sv_group_addresses = addresses\<rparr>"

subsection \<open>Garage doors\<close>

record garage =
  gd_door_command :: "dp_id option"
  gd_door_state :: "dp_id option"
  gd_section :: "dp_id option"
  gd_mode :: "string option"

fun door_state_to_command :: "string \<Rightarrow> string option" where
  "door_state_to_command s =
     (if s = ''CLOSED'' then Some ''CLOSE'' else if s = ''OPEN'' then Some ''OPEN''
      else if s = ''VENTILATION_POSITION'' then Some ''PARTIAL_OPEN'' else None)"

fun command_to_door_state :: "string \<Rightarrow> string option" where
  "command_to_door_state c =
     (if c = ''CLOSE'' then Some ''CLOSED'' else if c = ''OPEN'' then Some ''OPEN''
      else if c = ''PARTIAL_OPEN'' then Some ''VENTILATION_POSITION'' else None)"

text \<open>The mode: the reported state, or while that is none of the three the one of the last command.\<close>

definition door_mode_value :: "garage \<Rightarrow> world \<Rightarrow> string option" where
  "door_mode_value gd w =
     (case field_value w (gd_door_state gd) of
        PStr s \<Rightarrow> if door_state_to_command s \<noteq> None then Some s else gd_mode gd
      | _ \<Rightarrow> gd_mode gd)"

definition note_command :: "string \<Rightarrow> garage \<Rightarrow> garage" where
  "note_command c gd = gd\<lparr>gd_mode := command_to_door_state c\<rparr>"

definition garage_position :: "garage \<Rightarrow> world \<Rightarrow> int option" where
  "garage_position gd w =
     (case field_value w (gd_door_state gd) of
        PStr s \<Rightarrow> if s = ''OPEN'' then Some 100 else if s = ''VENTILATION_POSITION'' then Some 10 else if s = ''CLOSED'' then Some 0 else None
      | _ \<Rightarrow> None)"

definition garage_is_closed :: "garage \<Rightarrow> world \<Rightarrow> bool option" where
  "garage_is_closed gd w = (case field_value w (gd_door_state gd) of PNone \<Rightarrow> None | v \<Rightarrow> Some (v = PStr ''CLOSED''))"

definition garage_moves :: "int \<Rightarrow> garage \<Rightarrow> world \<Rightarrow> bool option" where
  "garage_moves activity gd w = map_option (\<lambda>x. py_truncate x = activity) (py_num (field_value w (gd_section gd)))"

text \<open>A command of the garage door: the target position it is compared with and the command that is sent.\<close>

datatype door_target = DoorOpen | DoorVent | DoorClose

fun target_position :: "door_target \<Rightarrow> int" where
  "target_position DoorOpen = 100" | "target_position DoorVent = 10" | "target_position DoorClose = 0"

fun target_command :: "door_target \<Rightarrow> string" where
  "target_command DoorOpen = ''OPEN''" | "target_command DoorVent = ''PARTIAL_OPEN''" | "target_command DoorClose = ''CLOSE''"

definition garage_uncertain :: "garage \<Rightarrow> world \<Rightarrow> bool" where
  "garage_uncertain gd w = field_uncertain w (gd_door_state gd)"

definition garage_command :: "environment \<Rightarrow> string \<Rightarrow> request_context option \<Rightarrow> garage \<times> exec \<Rightarrow> (service_error + unit) \<times> garage \<times> exec" where
  "garage_command en c ctx g =
     (case g of (gd, s) \<Rightarrow>
        (case dp_send en ctx None (gd_door_command gd) (PStr c) True False s of
           (Inl e, s') \<Rightarrow> (Inl e, gd, s')
         | (Inr _, s') \<Rightarrow> (Inr (), note_command c gd, s')))"

definition garage_move :: "environment \<Rightarrow> door_target \<Rightarrow> request_context option \<Rightarrow> garage \<times> exec \<Rightarrow> (service_error + unit) \<times> garage \<times> exec" where
  "garage_move en target ctx g =
     (case g of (gd, s) \<Rightarrow>
        if garage_position gd (ex_world s) \<noteq> Some (target_position target) \<or> garage_uncertain gd (ex_world s)
        then garage_command en (target_command target) ctx (gd, s) else (Inr (), gd, s))"

definition garage_stop :: "environment \<Rightarrow> request_context option \<Rightarrow> garage \<times> exec \<Rightarrow> (service_error + unit) \<times> garage \<times> exec" where
  "garage_stop en = garage_command en ''STOP''"

definition COVER_VENT_MAX_POSITION :: int where "COVER_VENT_MAX_POSITION = 50"

definition garage_set_position ::
  "environment \<Rightarrow> int option \<Rightarrow> request_context option \<Rightarrow> garage \<times> exec \<Rightarrow> (service_error + unit) \<times> garage \<times> exec" where
  "garage_set_position en position ctx g =
     (case position of
        None \<Rightarrow> (Inr (), g)
      | Some p \<Rightarrow>
          if COVER_VENT_MAX_POSITION < p \<and> p \<le> 100 then garage_move en DoorOpen ctx g
          else if 10 < p \<and> p \<le> COVER_VENT_MAX_POSITION then garage_move en DoorVent ctx g
          else if 0 \<le> p \<and> p \<le> 10 then garage_move en DoorClose ctx g
          else (Inr (), g))"

text \<open>\<open>CombinedDpGarageDoorMode.send_value\<close>.\<close>

definition door_mode_send ::
  "environment \<Rightarrow> string \<Rightarrow> request_context option \<Rightarrow> garage \<times> exec \<Rightarrow> (service_error + unit) \<times> garage \<times> exec" where
  "door_mode_send en v ctx g =
     (case door_state_to_command v of
        None \<Rightarrow> (Inl (HomematicException ''exception.model.select.value_not_in_value_list''), g)
      | Some c \<Rightarrow> garage_command en c ctx g)"

subsection \<open>Moving the slats of a blind\<close>

lemma send_data_empty [simp]: "send_data answer env now ctx wait (collector_init p) w = (Inr [], w, [])"
  by (simp add: send_data_def collector_init_def apply_collected_def collector_plan_def Let_def)

text \<open>A text parameter that can only be written, as the combined parameter of a blind.\<close>

definition writes_text :: "data_point \<Rightarrow> bool" where
  "writes_text d \<longleftrightarrow> dp_kind d = DpActionString \<and> dp_type d = T_STRING \<and> is_writable d \<and> \<not> ot_is_active (dp_optimistic d)"

lemma send_text:
  assumes "writes_text d" and "cp \<noteq> []"
  shows "send_value ft now (PStr cp) False True None d = (Sent (PStr cp) True, apply_optimistic_value now (PStr cp) d)"
  using assms
  by (simp add: writes_text_def send_value_def prepare_value_for_sending_def py_str_def dp_convert_def convert_value_noncached_def
      validate_state_change_def is_action_category_def retryable_def Let_def)

lemma dp_send_text:
  assumes "writes_text (fst (ex_world s) k)" and "cp \<noteq> []"
  shows "\<exists>r w' opts. dp_send en ctx None (Some k) (PStr cp) True True s =
    (r, s\<lparr>ex_world := w', ex_calls := ex_calls s @ [SetValue (fst k) (fst (snd k)) (snd (snd k)) (PStr cp) opts]\<rparr>)"
proof -
  let ?call = "SetValue (fst k) (fst (snd k)) (snd (snd k)) (PStr cp) (direct_options ctx True)"
  show ?thesis
    using send_text [OF assms]
    by (cases "client_result (snd (en_answer en ?call))") (simp_all add: dp_send_def Let_def del: split_paired_Ex, blast+)
qed

lemma send_level_combined:
  assumes "writes_text (fst (ex_world s) k)" and "cv_combined cv = Some k" and "combined_value (cv_kind cv) (Some l) (Some t) = Some cp"
    and "cp \<noteq> []" and "ex_collector s = None"
  shows "\<exists>r w' opts. send_level en cv ctx l t s =
    (r, s\<lparr>ex_world := w', ex_calls := ex_calls s @ [SetValue (fst k) (fst (snd k)) (snd (snd k)) (PStr cp) opts]\<rparr>)"
proof -
  let ?s = "s\<lparr>ex_collector := Some (collector_init None)\<rparr>"
  have "writes_text (fst (ex_world ?s) k)" using assms(1) by simp
  then obtain r w' opts where sent: "dp_send en ctx None (Some k) (PStr cp) True True ?s =
      (r, ?s\<lparr>ex_world := w', ex_calls := ex_calls ?s @ [SetValue (fst k) (fst (snd k)) (snd (snd k)) (PStr cp) opts]\<rparr>)"
    using dp_send_text assms(4) by blast
  then have "send_level en cv ctx l t s =
      (r, s\<lparr>ex_world := w', ex_calls := ex_calls s @ [SetValue (fst k) (fst (snd k)) (snd (snd k)) (PStr cp) opts]\<rparr>)"
    using assms(2,3,5) by (cases s; cases r) (simp_all add: send_level_def nested_def)
  then show ?thesis by blast
qed

lemma seen_nonneg: "0 \<le> p \<Longrightarrow> 0 \<le> seen_position p"
  by (simp add: seen_position_def)

lemma position_of_level: "0 \<le> p \<Longrightarrow> p \<le> 100 \<Longrightarrow> level_to_position False (Some (position_to_level False p)) = Some (seen_position p)"
  using position_times [of p] by (simp add: level_to_position_def position_to_level_def Let_def)

lemma ip_combined_value:
  assumes "0 \<le> p" "p \<le> 100" "0 \<le> t" "t \<le> 100"
  shows "combined_value CustomDpIpBlind (Some (position_to_level False p)) (Some (position_to_level False t)) =
     Some (''L2='' @ dec (nat (seen_position t)) @ '',L='' @ dec (nat (seen_position p)))"
  using assms seen_nonneg [of p] seen_nonneg [of t] by (simp add: combined_value_def position_of_level str_int_def Let_def)


text \<open>A blind at 58 percent with closed slats.\<close>

definition combined_dp :: data_point where
  "combined_dp = data_point_init DpActionString ''COMBINED_PARAMETER'' True 30 no_text (sample_pd\<lparr>pd_type := T_STRING, pd_operations := 2\<rparr>)"

definition blind_world :: world where
  "blind_world =
     (\<lambda>(_, _, parameter).
        if parameter = ''COMBINED_PARAMETER'' then combined_dp
        else if parameter = ''LEVEL'' then sample_dp\<lparr>dp_current_value := PFloat (position_to_level False 58)\<rparr>
        else sample_dp\<lparr>dp_current_value := PFloat 0\<rparr>, [])"

definition sample_blind :: cover where
  "sample_blind =
     \<lparr>cv_kind = CustomDpIpBlind, cv_level = Some (''B:4'', PK_VALUES, ''LEVEL''), cv_group_level = None, cv_direction = None, cv_stop = None,
      cv_combined = Some (''B:4'', PK_VALUES, ''COMBINED_PARAMETER''), cv_level_2 = Some (''B:4'', PK_VALUES, ''LEVEL_2''),
      cv_group_level_2 = None, cv_use_group_channel = False, cv_is_primary = True\<rparr>"

lemma blind_values:
  "field_value blind_world (cv_level sample_blind) = PFloat (position_to_level False 58)"
  "field_value blind_world (cv_level_2 sample_blind) = PFloat 0"
  by (simp_all add: field_value_def blind_world_def sample_blind_def dp_get_value_def sample_dp_fields dp_value_def optimistic_init_def
      ot_is_active_def)


subsection \<open>Garage doors\<close>

text \<open>A command selected from a list that can only be written.\<close>

definition selects :: "data_point \<Rightarrow> string \<Rightarrow> bool" where
  "selects d c \<longleftrightarrow> dp_kind d = DpActionSelect \<and> is_writable d \<and> (\<exists>vs. dp_values d = Some vs \<and> c \<in> set vs)"

lemma index_of_Some: "x \<in> set xs \<Longrightarrow> \<exists>i. index_of x xs = Some i"
  by (induction xs) auto

lemma send_select:
  assumes "selects d c"
  shows "\<exists>v. send_value ft now (PStr c) True True None d = (Collected v, d, [])"
proof -
  obtain vs i where "dp_values d = Some vs" "index_of c vs = Some i"
    using assms index_of_Some by (fastforce simp: selects_def)
  then show ?thesis
    using assms
    by (simp add: selects_def send_value_def prepare_value_for_sending_def prepare_select_for_sending_def py_num_def Let_def)
qed

text \<open>
  The mode of a garage door after a command that failed. The command is collected, its mode is noted,
  and only then it is sent: when the call fails, the mode stays. The client swallows the failure, so the method even
  succeeds. As long as the door reports that it stands between its end positions, it shows as closed after a command
  to close that never reached it.
\<close>

theorem door_mode_of_failed_command:
  fixes later :: world
  assumes cmd: "gd_door_command gd = Some k" "selects (fst w k) (target_command target)"
    and pos: "garage_position gd w \<noteq> Some (target_position target)"
    and fails: "\<And>call. \<exists>t m. en_answer en call = (t, Inl (HomematicException m))"
    and run: "sv_enabled sv" "state_service sv en (garage_move en target) ctx gd w = (r, gd', w', calls)"
    and between: "field_value later (gd_door_state gd) = PStr ''POSITION_UNKNOWN''"
  shows "r = Inr () \<and> length calls = 1 \<and> door_mode_value gd' later = command_to_door_state (target_command target)"
proof -
  obtain a pk p where k: "k = (a, pk, p)" by (cases k)
  let ?ctx = "if is_in_service ctx then ctx else Some (service_context sv)"
  let ?s = "\<lparr>ex_collector = Some (collector_init (sv_priority sv)), ex_world = w, ex_calls = []\<rparr>"
  obtain v where v: "send_value (en_float_text en) (en_now en) (PStr (target_command target)) True True None (fst w k) = (Collected v, fst w k, [])"
    using send_select [OF cmd(2)] by blast
  let ?c = "add_data_point k v 50 None (collector_init (sv_priority sv))"
  have noted: "garage_move en target ?ctx (gd, ?s) = (Inr (), note_command (target_command target) gd, ?s\<lparr>ex_collector := Some ?c\<rparr>)"
    using pos v by (simp add: garage_move_def garage_command_def dp_send_def cmd(1))
  let ?w = "apply_collected (en_now en) (co_collected ?c) w"
  let ?call = "paramset_call (send_options ?ctx (sv_wait_for_callback sv) ?c (fst ?w)) a pk [(p, v)]"
  obtain t m where "en_answer en ?call = (t, Inl (HomematicException m))" using fails by blast
  then have sent: "\<exists>w'' call. send_data (en_answer en) (en_meanwhile en) (en_now en) ?ctx (sv_wait_for_callback sv) ?c w = (Inr [], w'', [call])"
    by (simp add: send_data_def single_plan k Let_def List.union_def del: split_paired_Ex)
  have gd': "r = Inr ()" "gd' = note_command (target_command target) gd" "length calls = 1"
    using run(2) sent by (auto simp: state_service_def noted run(1) Let_def simp del: if_split)
  have "gd_door_state gd' = gd_door_state gd" by (simp add: gd' note_command_def)
  with between have "door_mode_value gd' later = gd_mode gd'" by (simp add: door_mode_value_def)
  with gd' show ?thesis by (simp add: note_command_def)
qed

definition garage_world :: world where
  "garage_world =
     (\<lambda>(_, _, parameter).
        if parameter = ''DOOR_COMMAND''
        then data_point_init DpActionSelect ''DOOR_COMMAND'' True 30 no_text
               (sample_pd\<lparr>pd_type := T_ENUM, pd_operations := 2, pd_value_list := Some [''NOP'', ''OPEN'', ''STOP'', ''CLOSE'', ''PARTIAL_OPEN'']\<rparr>)
        else sample_dp\<lparr>dp_kind := DpSensor, dp_parameter := ''DOOR_STATE'', dp_current_value := PStr ''POSITION_UNKNOWN''\<rparr>, [])"

definition sample_garage :: garage where
  "sample_garage = \<lparr>gd_door_command = Some (''G:1'', PK_VALUES, ''DOOR_COMMAND''), gd_door_state = Some (''G:1'', PK_VALUES, ''DOOR_STATE''),
     gd_section = None, gd_mode = None\<rparr>"

theorem door_mode_of_failed_command_witness:
  "\<exists>gd' w' calls.
     state_service (cover_service ''close'' True None None) (sample_environment\<lparr>en_answer := \<lambda>_. (6, Inl (HomematicException ''refused''))\<rparr>)
       (garage_move (sample_environment\<lparr>en_answer := \<lambda>_. (6, Inl (HomematicException ''refused''))\<rparr>) DoorClose) None sample_garage garage_world =
       (Inr (), gd', w', calls) \<and> door_mode_value gd' garage_world = Some ''CLOSED''"
proof -
  let ?en = "sample_environment\<lparr>en_answer := \<lambda>_. (6, Inl (HomematicException ''refused''))\<rparr>"
  let ?k = "(''G:1'', PK_VALUES, ''DOOR_COMMAND'')"
  obtain r gd' w' calls where run: "state_service (cover_service ''close'' True None None) ?en (garage_move ?en DoorClose) None sample_garage garage_world = (r, gd', w', calls)"
    by (metis prod.collapse)
  have cmd: "gd_door_command sample_garage = Some ?k" "selects (fst garage_world ?k) (target_command DoorClose)"
    by (simp add: sample_garage_def)
      (simp add: selects_def garage_world_def is_writable_def OP_WRITE_def sample_pd_def data_point_init_def assign_parameter_data_def Let_def)
  have state: "field_value garage_world (gd_door_state sample_garage) = PStr ''POSITION_UNKNOWN''"
    by (simp add: field_value_def sample_garage_def garage_world_def dp_get_value_def transform_sensor_value_def get_value_from_value_list_def
        dp_value_def sample_dp_fields as_pyint_def RSSI_PARAMETERS_def)
  have pos: "garage_position sample_garage garage_world \<noteq> Some (target_position DoorClose)"
    by (simp add: garage_position_def state)
  from door_mode_of_failed_command [OF cmd pos _ _ run state] run show ?thesis
    by (auto simp: sample_environment_def cover_service_def)
qed

end
