(* ===== verification/Thermostat.thy ===== *)
theory Thermostat
  imports Custom_Data_Point
begin

section \<open>Thermostats\<close>

text \<open>
  The custom data points of \<open>model/custom/climate.py\<close>: the simple thermostat, the thermostats of the classic
  and of the IP line, their modes, profiles, activity and the away mode. Temperatures are numbers of
  half degrees, which floats hold exactly. The fields of the classic and the IP thermostat are in one
  record; an operation changes what an operation of a custom data point changes, and the events of the
  setpoint and the mode change the remembered setpoint.
\<close>

datatype thermostat_kind = CustomDpSimpleRfThermostat | CustomDpRfThermostat | CustomDpIpThermostat
datatype climate_mode = CM_AUTO | CM_COOL | CM_HEAT | CM_OFF
datatype climate_activity = CA_COOL | CA_HEAT | CA_IDLE | CA_OFF
datatype climate_preset = CP_AWAY | CP_BOOST | CP_COMFORT | CP_ECO | CP_NONE | CP_WEEK_PROGRAM int

record thermostat =
  th_kind :: thermostat_kind
  th_address :: string
  th_setpoint :: "dp_id option"
  th_temperature :: "dp_id option"
  th_temperature_maximum :: "dp_id option"
  th_temperature_minimum :: "dp_id option"
  th_min_max_not_relevant :: "dp_id option"
  th_boost_mode :: "dp_id option"
  th_control_mode :: "dp_id option"
  th_auto_mode :: "dp_id option"
  th_comfort_mode :: "dp_id option"
  th_lowering_mode :: "dp_id option"
  th_manu_mode :: "dp_id option"
  th_valve_state :: "dp_id option"
  th_week_program_pointer :: "dp_id option"
  th_active_profile :: "dp_id option"
  th_heating_mode :: "dp_id option"
  th_heating_valve_type :: "dp_id option"
  th_level :: "dp_id option"
  th_state :: "dp_id option"
  th_set_point_mode :: "dp_id option"
  th_old_manu_setpoint :: "real option"
  th_peer_level :: "dp_id option"
  th_peer_state :: "dp_id option"

definition DEFAULT_MAX_TEMPERATURE :: real where "DEFAULT_MAX_TEMPERATURE = 61 / 2"
definition DEFAULT_TEMPERATURE_STEP :: real where "DEFAULT_TEMPERATURE_STEP = 1 / 2"
definition OFF_TEMPERATURE :: real where "OFF_TEMPERATURE = 9 / 2"

definition MODE_AUTO :: pyval where "MODE_AUTO = PInt 0"
definition MODE_MANU :: pyval where "MODE_MANU = PInt 1"
definition MODE_AWAY :: pyval where "MODE_AWAY = PInt 2"

subsection \<open>Temperatures and modes\<close>

definition target_temperature :: "thermostat \<Rightarrow> world \<Rightarrow> real option" where
  "target_temperature th w = py_num (field_value w (th_setpoint th))"

definition max_temp :: "thermostat \<Rightarrow> world \<Rightarrow> real" where
  "max_temp th w =
     (case py_num (field_value w (th_temperature_maximum th)) of
        Some t \<Rightarrow> t
      | None \<Rightarrow>
          (case Option.bind (th_setpoint th) (\<lambda>k. py_num (dp_max (fst w k))) of Some t \<Rightarrow> t | None \<Rightarrow> DEFAULT_MAX_TEMPERATURE))"

definition min_temp :: "thermostat \<Rightarrow> world \<Rightarrow> real" where
  "min_temp th w =
     (let m = (case py_num (field_value w (th_temperature_minimum th)) of
                 Some t \<Rightarrow> t
               | None \<Rightarrow> (case Option.bind (th_setpoint th) (\<lambda>k. py_num (dp_min (fst w k))) of Some t \<Rightarrow> t | None \<Rightarrow> 0))
      in if m = OFF_TEMPERATURE then m + DEFAULT_TEMPERATURE_STEP else m)"

definition min_max_not_relevant :: "thermostat \<Rightarrow> world \<Rightarrow> bool" where
  "min_max_not_relevant th w = py_bool (field_value w (th_min_max_not_relevant th))"

text \<open>\<open>a or b\<close> for an optional number.\<close>

definition or_number :: "real option \<Rightarrow> real option \<Rightarrow> real option" where
  "or_number a b = (if a = None \<or> a = Some 0 then b else a)"

definition temperature_for_heat_mode :: "thermostat \<Rightarrow> world \<Rightarrow> real" where
  "temperature_for_heat_mode th w =
     (let lowest = (if OFF_TEMPERATURE < min_temp th w then min_temp th w else OFF_TEMPERATURE + 1 / 2)
      in case or_number (th_old_manu_setpoint th) (target_temperature th w) of
           None \<Rightarrow> lowest
         | Some t \<Rightarrow> if t \<le> OFF_TEMPERATURE \<or> t < min_temp th w then lowest else if max_temp th w < t then max_temp th w else t)"

definition is_heating_mode :: "thermostat \<Rightarrow> world \<Rightarrow> bool" where
  "is_heating_mode th w =
     (case field_value w (th_heating_mode th) of PNone \<Rightarrow> True | v \<Rightarrow> v = PStr ''HEATING'')"

definition is_off :: "thermostat \<Rightarrow> world \<Rightarrow> bool" where
  "is_off th w = (case target_temperature th w of None \<Rightarrow> False | Some t \<Rightarrow> t \<noteq> 0 \<and> t \<le> OFF_TEMPERATURE)"

definition heat_or_cool :: "thermostat \<Rightarrow> world \<Rightarrow> climate_mode" where
  "heat_or_cool th w = (if is_heating_mode th w then CM_HEAT else CM_COOL)"

definition current_mode :: "thermostat \<Rightarrow> world \<Rightarrow> climate_mode" where
  "current_mode th w =
     (case th_kind th of
        CustomDpSimpleRfThermostat \<Rightarrow> CM_HEAT
      | CustomDpRfThermostat \<Rightarrow>
          if is_off th w then CM_OFF
          else if field_value w (th_control_mode th) = PStr ''MANU-MODE'' then CM_HEAT else CM_AUTO
      | CustomDpIpThermostat \<Rightarrow>
          if is_off th w then CM_OFF
          else if py_eq (field_value w (th_set_point_mode th)) MODE_MANU then heat_or_cool th w else CM_AUTO)"

definition climate_modes :: "thermostat \<Rightarrow> world \<Rightarrow> climate_mode list" where
  "climate_modes th w =
     (case th_kind th of
        CustomDpSimpleRfThermostat \<Rightarrow> [CM_HEAT]
      | CustomDpRfThermostat \<Rightarrow> [CM_AUTO, CM_HEAT, CM_OFF]
      | CustomDpIpThermostat \<Rightarrow> [CM_AUTO, heat_or_cool th w, CM_OFF])"

subsection \<open>Profiles\<close>

text \<open>\<open>ClimateProfile(f"week_program_{i}")\<close> raises a \<open>ValueError\<close> for other numbers, here \<open>None\<close>.\<close>

definition week_programs :: "(int \<Rightarrow> int) \<Rightarrow> int list \<Rightarrow> (climate_preset, int) dict option" where
  "week_programs index is = (if list_all (\<lambda>i. 1 \<le> i \<and> i \<le> 6) is then Some (map (\<lambda>i. (CP_WEEK_PROGRAM i, index i)) is) else None)"

definition bound_int :: "pyval \<Rightarrow> int option" where
  "bound_int v = (case v of PStr s \<Rightarrow> python_int s | _ \<Rightarrow> map_option py_truncate (py_num v))"

definition climate_profiles :: "thermostat \<Rightarrow> world \<Rightarrow> (climate_preset, int) dict option" where
  "climate_profiles th w =
     (case th_kind th of
        CustomDpSimpleRfThermostat \<Rightarrow> Some []
      | CustomDpRfThermostat \<Rightarrow>
          (case th_week_program_pointer th of
             None \<Rightarrow> Some []
           | Some k \<Rightarrow>
               if dp_min (fst w k) = PNone \<or> dp_max (fst w k) = PNone then Some []
               else (case (bound_int (dp_min (fst w k)), bound_int (dp_max (fst w k))) of
                       (Some lo, Some hi) \<Rightarrow> week_programs (\<lambda>i. i - 1) [lo + 1..hi + 1]
                     | _ \<Rightarrow> None))
      | CustomDpIpThermostat \<Rightarrow>
          (case th_active_profile th of
             None \<Rightarrow> Some []
           | Some k \<Rightarrow>
               if py_bool (dp_min (fst w k)) \<and> py_bool (dp_max (fst w k))
               then (case (bound_int (dp_min (fst w k)), bound_int (dp_max (fst w k))) of
                       (Some lo, Some hi) \<Rightarrow> week_programs id [lo..hi]
                     | _ \<Rightarrow> None)
               else Some []))"

definition profile_at :: "(climate_preset, int) dict \<Rightarrow> int \<Rightarrow> climate_preset" where
  "profile_at profiles i = (case List.find (\<lambda>(_, j). j = i) (rev profiles) of None \<Rightarrow> CP_NONE | Some (p, _) \<Rightarrow> p)"

definition POINTER_NAMES :: "(string \<times> int) list" where
  "POINTER_NAMES = map (\<lambda>i. (''WEEK PROGRAM '' @ str_int (i + 1), i)) [0..5]"

text \<open>\<open>_current_profile_name or ClimateProfile.NONE\<close>.\<close>

definition current_profile :: "(real \<Rightarrow> string) \<Rightarrow> thermostat \<Rightarrow> world \<Rightarrow> (climate_preset, int) dict \<Rightarrow> climate_preset" where
  "current_profile float_text th w profiles =
     (if th_kind th = CustomDpRfThermostat
      then (let sp = py_str float_text (field_value w (th_week_program_pointer th))
            in case (if isdigit sp then Some (int (nat_of_digits sp)) else map_of POINTER_NAMES sp) of
                 None \<Rightarrow> CP_NONE | Some i \<Rightarrow> profile_at profiles i)
      else (case py_num (field_value w (th_active_profile th)) of None \<Rightarrow> CP_NONE | Some x \<Rightarrow> profile_at profiles (py_truncate x)))"

definition current_preset :: "(real \<Rightarrow> string) \<Rightarrow> thermostat \<Rightarrow> world \<Rightarrow> climate_preset option" where
  "current_preset float_text th w =
     (case th_kind th of
        CustomDpSimpleRfThermostat \<Rightarrow> Some CP_NONE
      | CustomDpRfThermostat \<Rightarrow>
          (let m = field_value w (th_control_mode th)
           in if m = PNone then Some CP_NONE
              else if m = PStr ''BOOST-MODE'' then Some CP_BOOST
              else if m = PStr ''PARTY-MODE'' then Some CP_AWAY
              else if current_mode th w = CM_AUTO then map_option (current_profile float_text th w) (climate_profiles th w)
              else Some CP_NONE)
      | CustomDpIpThermostat \<Rightarrow>
          if py_bool (field_value w (th_boost_mode th)) then Some CP_BOOST
          else if py_eq (field_value w (th_set_point_mode th)) MODE_AWAY then Some CP_AWAY
          else if current_mode th w = CM_AUTO then map_option (current_profile float_text th w) (climate_profiles th w)
          else Some CP_NONE)"

definition climate_presets :: "thermostat \<Rightarrow> world \<Rightarrow> climate_preset list option" where
  "climate_presets th w =
     (let names = (if current_mode th w = CM_AUTO then map_option (map fst) (climate_profiles th w) else Some [])
      in case th_kind th of
           CustomDpSimpleRfThermostat \<Rightarrow> Some [CP_NONE]
         | CustomDpRfThermostat \<Rightarrow> map_option (\<lambda>ps. [CP_BOOST, CP_COMFORT, CP_ECO, CP_NONE] @ ps) names
         | CustomDpIpThermostat \<Rightarrow> map_option (\<lambda>ps. [CP_BOOST, CP_NONE] @ ps) names)"

subsection \<open>Activity\<close>

text \<open>
  The level or state of a linked channel, for devices without their own: each entry of the list is a
  channel with its peers, a peer tells whether it is linked for climate, its level and its state.
\<close>

fun peers_of :: "(bool \<times> dp_id option \<times> dp_id option) list \<Rightarrow> dp_id option \<times> dp_id option \<Rightarrow> dp_id option \<times> dp_id option" where
  "peers_of [] found = found"
| "peers_of ((climate, level, state) # peers) (l, st) =
     (if \<not> climate then peers_of peers (l, st)
      else if level \<noteq> None then (level, st)
      else if state \<noteq> None then (l, state)
      else peers_of peers (l, st))"

definition refresh_link_peers :: "(bool \<times> dp_id option \<times> dp_id option) list list \<Rightarrow> thermostat \<Rightarrow> thermostat" where
  "refresh_link_peers links th =
     (case fold peers_of links (None, None) of (l, st) \<Rightarrow> th\<lparr>th_peer_level := l, th_peer_state := st\<rparr>)"

definition effective_value :: "world \<Rightarrow> dp_id option \<Rightarrow> dp_id option \<Rightarrow> pyval" where
  "effective_value w own peer = (if field_value w own \<noteq> PNone then field_value w own else field_value w peer)"

definition activity_of :: "thermostat \<Rightarrow> world \<Rightarrow> climate_activity option" where
  "activity_of th w =
     (let active = (if is_heating_mode th w then CA_HEAT else CA_COOL)
      in case th_kind th of
           CustomDpSimpleRfThermostat \<Rightarrow> None
         | CustomDpRfThermostat \<Rightarrow>
             (case py_num (field_value w (th_valve_state th)) of
                None \<Rightarrow> None
              | Some v \<Rightarrow> Some (if current_mode th w = CM_OFF then CA_OFF else if 0 < v then CA_HEAT else CA_IDLE))
         | CustomDpIpThermostat \<Rightarrow>
             (let level = effective_value w (th_level th) (th_peer_level th); state = effective_value w (th_state th) (th_peer_state th);
                  valve = field_value w (th_heating_valve_type th)
              in if state = PNone \<and> level = PNone then None
                 else if current_mode th w = CM_OFF then Some CA_OFF
                 else if \<exists>l \<in> set_option (py_num level). 0 < l then Some active
                 else if state = PBool True \<and> (valve = PNone \<or> valve = PStr ''NORMALLY_CLOSE'') \<or>
                         state = PBool False \<and> valve = PStr ''NORMALLY_OPEN'' then Some active
                 else Some CA_IDLE))"

subsection \<open>Setting the temperature, the mode and the profile\<close>

definition climate_uncertain :: "thermostat \<Rightarrow> world \<Rightarrow> bool" where
  "climate_uncertain th w \<longleftrightarrow>
     field_uncertain w (th_temperature th) \<or> field_uncertain w (th_setpoint th) \<or>
     th_kind th = CustomDpRfThermostat \<and> field_uncertain w (th_control_mode th) \<or>
     th_kind th = CustomDpIpThermostat \<and> field_uncertain w (th_set_point_mode th)"

definition mode_change :: "climate_mode \<Rightarrow> thermostat \<Rightarrow> world \<Rightarrow> bool" where
  "mode_change m th w \<longleftrightarrow> m \<noteq> current_mode th w \<or> climate_uncertain th w"

definition value_error :: effect where
  "value_error s = (Inl (OtherException ''ValueError''), s)"

definition when_profile_change :: "environment \<Rightarrow> climate_preset \<Rightarrow> thermostat \<Rightarrow> effect \<Rightarrow> effect" where
  "when_profile_change en p th f s =
     (case current_preset (en_float_text en) th (ex_world s) of
        None \<Rightarrow> value_error s
      | Some q \<Rightarrow> if p \<noteq> q \<or> climate_uncertain th (ex_world s) then f s else return_ok s)"

definition set_temperature :: "environment \<Rightarrow> thermostat \<Rightarrow> real \<Rightarrow> bool \<Rightarrow> request_context option \<Rightarrow> effect" where
  "set_temperature en th t do_validate ctx s =
     (let w = ex_world s; check = (do_validate \<and> \<not> (current_mode th w = CM_HEAT \<and> min_max_not_relevant th w))
      in if check \<and> \<not> (min_temp th w \<le> t \<and> t \<le> max_temp th w)
         then (Inl (HomematicException ''exception.model.custom.climate.set_temperature.invalid''), s)
         else dp_send en ctx None (th_setpoint th) (PFloat t) check False s)"

text \<open>The part of \<open>set_preset\<close> for \<open>ClimateProfile.NONE\<close> of the IP line, which \<open>set_mode\<close> calls.\<close>

definition ip_end_boost :: "environment \<Rightarrow> thermostat \<Rightarrow> request_context option \<Rightarrow> effect" where
  "ip_end_boost en th ctx = when_profile_change en CP_NONE th (dp_send en ctx None (th_boost_mode th) (PBool False) True False)"

definition command_temperature :: "environment \<Rightarrow> thermostat \<Rightarrow> (world \<Rightarrow> real) \<Rightarrow> bool \<Rightarrow> request_context option \<Rightarrow> effect" where
  "command_temperature en th t do_validate ctx s = nested en True True ctx (set_temperature en th (t (ex_world s)) do_validate ctx) s"

definition ip_command_mode :: "environment \<Rightarrow> thermostat \<Rightarrow> climate_mode \<Rightarrow> request_context option \<Rightarrow> effect" where
  "ip_command_mode en th m ctx =
     (case m of
        CM_AUTO \<Rightarrow> dp_send en ctx None (th_control_mode th) MODE_AUTO True False
      | CM_OFF \<Rightarrow>
          and_then (dp_send en ctx None (th_control_mode th) MODE_MANU True False)
            (command_temperature en th (\<lambda>_. OFF_TEMPERATURE) False ctx)
      | _ \<Rightarrow>
          and_then (dp_send en ctx None (th_control_mode th) MODE_MANU True False)
            (command_temperature en th (temperature_for_heat_mode th) True ctx))"

definition ip_set_mode :: "environment \<Rightarrow> thermostat \<Rightarrow> climate_mode \<Rightarrow> request_context option \<Rightarrow> effect" where
  "ip_set_mode en th m ctx s =
     (if mode_change m th (ex_world s)
      then and_then (if py_bool (field_value (ex_world s) (th_boost_mode th)) then nested en True True ctx (ip_end_boost en th ctx) else return_ok)
             (ip_command_mode en th m ctx) s
      else return_ok s)"

definition ip_set_profile :: "environment \<Rightarrow> thermostat \<Rightarrow> climate_preset \<Rightarrow> request_context option \<Rightarrow> effect" where
  "ip_set_profile en th p ctx =
     when_profile_change en p th
       (\<lambda>s. let w = ex_world s in
          if p = CP_BOOST then dp_send en ctx None (th_boost_mode th) (PBool True) True False s
          else if p = CP_NONE then dp_send en ctx None (th_boost_mode th) (PBool False) True False s
          else case climate_profiles th w of
                 None \<Rightarrow> value_error s
               | Some profiles \<Rightarrow>
                   (case dict_get profiles p of
                      None \<Rightarrow> return_ok s
                    | Some i \<Rightarrow>
                        and_then (if current_mode th w \<noteq> CM_AUTO
                                  then and_then (nested en True True ctx (ip_set_mode en th CM_AUTO ctx))
                                         (dp_send en ctx None (th_boost_mode th) (PBool False) True False)
                                  else return_ok)
                          (if i \<noteq> 0 then dp_send en ctx None (th_active_profile th) (PInt i) True False else return_ok) s))"

definition rf_set_mode :: "environment \<Rightarrow> thermostat \<Rightarrow> climate_mode \<Rightarrow> request_context option \<Rightarrow> effect" where
  "rf_set_mode en th m ctx s =
     (let w = ex_world s in
      if \<not> mode_change m th w then return_ok s
      else case m of
             CM_AUTO \<Rightarrow> dp_send en ctx (Some True) (th_auto_mode th) (PBool True) True False s
           | CM_HEAT \<Rightarrow> dp_send en ctx None (th_manu_mode th) (PFloat (temperature_for_heat_mode th w)) True False s
           | CM_OFF \<Rightarrow>
               (let t = (case or_number (target_temperature th w) None of None \<Rightarrow> temperature_for_heat_mode th w | Some t \<Rightarrow> t)
                in and_then (dp_send en ctx None (th_manu_mode th) (PFloat t) True False)
                     (command_temperature en th (\<lambda>_. OFF_TEMPERATURE) False ctx) s)
           | CM_COOL \<Rightarrow> return_ok s)"

definition rf_set_profile :: "environment \<Rightarrow> thermostat \<Rightarrow> climate_preset \<Rightarrow> request_context option \<Rightarrow> effect" where
  "rf_set_profile en th p ctx =
     when_profile_change en p th
       (\<lambda>s. let w = ex_world s; press = (\<lambda>field v. dp_send en ctx (Some True) field (PBool v) True False) in
          if p = CP_BOOST then press (th_boost_mode th) True s
          else if p = CP_COMFORT then press (th_comfort_mode th) True s
          else if p = CP_ECO then press (th_lowering_mode th) True s
          else case climate_profiles th w of
                 None \<Rightarrow> value_error s
               | Some profiles \<Rightarrow>
                   (case dict_get profiles p of
                      None \<Rightarrow> return_ok s
                    | Some i \<Rightarrow>
                        and_then (if current_mode th w \<noteq> CM_AUTO
                                  then and_then (nested en True True ctx (rf_set_mode en th CM_AUTO ctx)) (press (th_boost_mode th) False)
                                  else return_ok)
                          (dp_send en ctx None (th_week_program_pointer th) (PStr (''WEEK PROGRAM '' @ str_int (i + 1))) True False) s))"

definition set_mode :: "environment \<Rightarrow> thermostat \<Rightarrow> climate_mode \<Rightarrow> request_context option \<Rightarrow> effect" where
  "set_mode en th m ctx =
     (case th_kind th of
        CustomDpSimpleRfThermostat \<Rightarrow> return_ok
      | CustomDpRfThermostat \<Rightarrow> rf_set_mode en th m ctx
      | CustomDpIpThermostat \<Rightarrow> ip_set_mode en th m ctx)"

definition set_preset :: "environment \<Rightarrow> thermostat \<Rightarrow> climate_preset \<Rightarrow> request_context option \<Rightarrow> effect" where
  "set_preset en th p ctx =
     (case th_kind th of
        CustomDpSimpleRfThermostat \<Rightarrow> return_ok
      | CustomDpRfThermostat \<Rightarrow> rf_set_profile en th p ctx
      | CustomDpIpThermostat \<Rightarrow> ip_set_profile en th p ctx)"

text \<open>An event of the setpoint or of the mode.\<close>

definition manu_temp_changed :: "world \<Rightarrow> thermostat \<Rightarrow> thermostat" where
  "manu_temp_changed w th =
     (if th_kind th \<noteq> CustomDpSimpleRfThermostat \<and> current_mode th w = CM_HEAT
      then th\<lparr>th_old_manu_setpoint := target_temperature th w\<rparr> else th)"

subsection \<open>The away mode\<close>

text \<open>
  A moment of the local time; \<open>clock\<close> is the standard library's \<open>datetime.now() + timedelta(minutes=m)\<close>.
  The calls of the client are made with its default options.
\<close>

record moment =
  mo_year :: nat
  mo_month :: nat
  mo_day :: nat
  mo_hour :: nat
  mo_minute :: nat

definition pad_zero :: "nat \<Rightarrow> nat \<Rightarrow> string" where
  "pad_zero width n = replicate (width - length (dec n)) (CHR ''0'') @ dec n"

definition short_date :: "moment \<Rightarrow> string" where
  "short_date d = pad_zero 2 (mo_day d) @ '','' @ pad_zero 2 (mo_month d) @ '','' @ pad_zero 2 (mo_year d mod 100)"

definition party_date :: "moment \<Rightarrow> string" where
  "party_date d = pad_zero 4 (mo_year d) @ ''_'' @ pad_zero 2 (mo_month d) @ ''_'' @ pad_zero 2 (mo_day d) @ '' '' @
     pad_zero 2 (mo_hour d) @ '':'' @ pad_zero 2 (mo_minute d)"

text \<open>\<open>f"{t:.1f}"\<close>: the nearest tenth, a tie to the even one.\<close>

definition one_decimal :: "real \<Rightarrow> string" where
  "one_decimal t =
     (let f = \<lfloor>\<bar>t\<bar> * 10\<rfloor>; r = \<bar>t\<bar> * 10 - of_int f; n = nat (if r < 1 / 2 \<or> r = 1 / 2 \<and> even f then f else f + 1)
      in (if t < 0 then ''-'' else []) @ dec (n div 10) @ ''.'' @ dec (n mod 10))"

definition party_mode_code :: "moment \<Rightarrow> moment \<Rightarrow> real \<Rightarrow> string" where
  "party_mode_code start end' t =
     one_decimal t @ '','' @ dec (mo_hour start * 60 + mo_minute start) @ '','' @ short_date start @ '','' @
     dec (mo_hour end' * 60 + mo_minute end') @ '','' @ short_date end'"

definition default_options :: call_options where
  "default_options = \<lparr>op_wait_for_callback = None, op_priority = HIGH, op_purge_addresses = [], op_retry = True\<rparr>"

definition PARTY_INIT_DATE :: string where "PARTY_INIT_DATE = ''2000_01_01 00:00''"

definition enable_away_mode_by_calendar :: "thermostat \<Rightarrow> moment \<Rightarrow> moment \<Rightarrow> real \<Rightarrow> backend_call option" where
  "enable_away_mode_by_calendar th start end' t =
     (case th_kind th of
        CustomDpSimpleRfThermostat \<Rightarrow> None
      | CustomDpRfThermostat \<Rightarrow>
          Some (SetValue (th_address th) PK_VALUES ''PARTY_MODE_SUBMIT'' (PStr (party_mode_code start end' t)) default_options)
      | CustomDpIpThermostat \<Rightarrow>
          Some (PutParamset (th_address th) PK_VALUES
            [(''SET_POINT_MODE'', MODE_AWAY), (''SET_POINT_TEMPERATURE'', PFloat t),
             (''PARTY_TIME_START'', PStr (party_date start)), (''PARTY_TIME_END'', PStr (party_date end'))] default_options))"

definition enable_away_mode_by_duration :: "(int \<Rightarrow> moment) \<Rightarrow> thermostat \<Rightarrow> int \<Rightarrow> real \<Rightarrow> backend_call option" where
  "enable_away_mode_by_duration clock th hours t = enable_away_mode_by_calendar th (clock (- 10)) (clock (60 * hours)) t"

definition disable_away_mode :: "(int \<Rightarrow> moment) \<Rightarrow> thermostat \<Rightarrow> backend_call option" where
  "disable_away_mode clock th =
     (case th_kind th of
        CustomDpSimpleRfThermostat \<Rightarrow> None
      | CustomDpRfThermostat \<Rightarrow>
          Some (SetValue (th_address th) PK_VALUES ''PARTY_MODE_SUBMIT'' (PStr (party_mode_code (clock (- 660)) (clock (- 600)) 12)) default_options)
      | CustomDpIpThermostat \<Rightarrow>
          Some (PutParamset (th_address th) PK_VALUES
            [(''SET_POINT_MODE'', MODE_AWAY), (''PARTY_TIME_START'', PStr PARTY_INIT_DATE), (''PARTY_TIME_END'', PStr PARTY_INIT_DATE)]
            default_options))"

subsection \<open>Which temperature a mode commands\<close>

text \<open>The temperature that is commanded is valid and above the temperature for off.\<close>

lemma heat_temperature_valid:
  assumes "min_temp th w \<le> max_temp th w" and "5 \<le> max_temp th w"
  shows "min_temp th w \<le> temperature_for_heat_mode th w" "temperature_for_heat_mode th w \<le> max_temp th w"
    "OFF_TEMPERATURE < temperature_for_heat_mode th w"
  using assms by (auto simp: temperature_for_heat_mode_def Let_def OFF_TEMPERATURE_def split: option.splits)

text \<open>An IP thermostat that can be commanded, with a valid range of temperatures.\<close>

definition commandable :: "thermostat \<Rightarrow> world \<Rightarrow> string \<Rightarrow> string \<Rightarrow> string \<Rightarrow> bool" where
  "commandable th w a cm sp \<longleftrightarrow>
     th_kind th = CustomDpIpThermostat \<and> cm \<noteq> sp \<and>
     th_control_mode th = Some (a, PK_VALUES, cm) \<and> writes_number DpActionInteger T_INTEGER (fst w (a, PK_VALUES, cm)) \<and>
     in_range (fst w (a, PK_VALUES, cm)) 1 \<and>
     th_setpoint th = Some (a, PK_VALUES, sp) \<and> writes_number DpFloat T_FLOAT (fst w (a, PK_VALUES, sp)) \<and>
     in_range (fst w (a, PK_VALUES, sp)) (min_temp th w) \<and> in_range (fst w (a, PK_VALUES, sp)) (max_temp th w) \<and>
     min_temp th w \<le> max_temp th w \<and> 5 \<le> max_temp th w"

lemma heat_command:
  assumes "commandable th w a cm sp" and "m = CM_HEAT \<or> m = CM_COOL" and "mode_change m th w"
    and "\<not> py_bool (field_value w (th_boost_mode th))" and "sv_enabled sv"
    and "service sv en (set_mode en th m) ctx w = (r, ctx', w', calls)"
  shows "\<exists>opts. calls = [PutParamset a PK_VALUES [(cm, PInt 1), (sp, PFloat (temperature_for_heat_mode th w))] opts]"
proof -
  let ?t = "temperature_for_heat_mode th w" and ?cm = "(a, PK_VALUES, cm)" and ?sp = "(a, PK_VALUES, sp)"
  let ?ctx = "if is_in_service ctx then ctx else Some (service_context sv)"
  let ?s = "\<lambda>c. \<lparr>ex_collector = Some c, ex_world = w, ex_calls = []\<rparr>"
  let ?c0 = "collector_init (sv_priority sv)"
  let ?c1 = "add_data_point ?cm (PInt 1) 50 None ?c0"
  note c = assms(1) [unfolded commandable_def]
  have t: "min_temp th w \<le> ?t" "?t \<le> max_temp th w"
    using c by (simp_all add: heat_temperature_valid)
  have range: "in_range (fst w ?sp) ?t"
    using in_range_between [OF _ _ t] c by blast
  have "in_range (fst w ?cm) (of_int 1)" using c by simp
  then have "send_value ft now (PInt 1) True True None (fst w ?cm) = (Collected (PInt 1), fst w ?cm, [])" for ft now
    using c collect_integer by blast
  then have 1: "dp_send en ?ctx None (th_control_mode th) (PInt 1) True False (?s ?c0) = (Inr (), ?s ?c1)"
    using c by (simp add: dp_send_def)
  have "send_value ft now (PFloat ?t) True v None (fst w ?sp) = (Collected (PFloat ?t), fst w ?sp, [])" for ft now v
    using c range by (intro collect_float) simp_all
  then have "set_temperature en th ?t True ?ctx (?s ?c1) = (Inr (), ?s (add_data_point ?sp (PFloat ?t) 50 None ?c1))"
    using c t by (simp add: set_temperature_def dp_send_def)
  then have 2: "command_temperature en th (temperature_for_heat_mode th) True ?ctx (?s ?c1) =
      (Inr (), ?s (add_data_point ?sp (PFloat ?t) 50 None ?c1))"
    by (simp add: command_temperature_def nested_def)
  have "set_mode en th m ?ctx (?s ?c0) = (Inr (), ?s (add_data_point ?sp (PFloat ?t) 50 None ?c1))"
    using assms(2-4) c 1 2
    by (auto simp: set_mode_def ip_set_mode_def ip_command_mode_def and_then_def return_ok_def MODE_MANU_def)
  from service_collected [OF assms(5) this pair_plan assms(6)] c show ?thesis
    by (auto simp: paramset_call_def)
qed

subsection \<open>Remembered setpoints\<close>

lemma old_setpoint_simps [simp]:
  "current_mode (th\<lparr>th_old_manu_setpoint := x\<rparr>) w = current_mode th w"
  "target_temperature (th\<lparr>th_old_manu_setpoint := x\<rparr>) w = target_temperature th w"
  "is_heating_mode (th\<lparr>th_old_manu_setpoint := x\<rparr>) w = is_heating_mode th w"
  by (simp_all add: current_mode_def target_temperature_def is_heating_mode_def heat_or_cool_def is_off_def cong: thermostat_kind.case_cong)

lemma old_setpoint_limits [simp]:
  "min_temp (th\<lparr>th_old_manu_setpoint := x\<rparr>) w = min_temp th w"
  "max_temp (th\<lparr>th_old_manu_setpoint := x\<rparr>) w = max_temp th w"
  by (simp_all add: min_temp_def max_temp_def cong: option.case_cong)

lemma old_setpoint_commandable [simp]: "commandable (th\<lparr>th_old_manu_setpoint := x\<rparr>) w a cm sp = commandable th w a cm sp"
  by (simp add: commandable_def)

lemma remembered_kind [simp]: "th_kind (fold manu_temp_changed ws th) = th_kind th"
  by (induction ws arbitrary: th) (simp_all add: manu_temp_changed_def)

lemma no_heat_event [simp]: "current_mode th w \<noteq> CM_HEAT \<Longrightarrow> manu_temp_changed w th = th"
  by (simp add: manu_temp_changed_def)

lemma no_heat_events: "\<forall>w \<in> set ws. current_mode th w \<noteq> CM_HEAT \<Longrightarrow> fold manu_temp_changed ws th = th"
  by (induction ws) simp_all

lemma cooling_no_heat: "th_kind th = CustomDpIpThermostat \<Longrightarrow> \<not> is_heating_mode th w \<Longrightarrow> current_mode th w \<noteq> CM_HEAT"
  by (simp add: current_mode_def heat_or_cool_def)

text \<open>
  C24: The setpoint comes back. When a thermostat of the IP line was in the heating mode with a setpoint and
  afterwards off or in the automatic mode, whatever was reported in between, then the command to
  heat is one call that sets the manual mode together with the setpoint from before.
\<close>

theorem heat_mode_restores:
  assumes heat: "current_mode th w0 = CM_HEAT" "target_temperature th w0 = Some t"
    and between: "\<forall>v \<in> set ws. current_mode th v \<noteq> CM_HEAT"
    and th': "th' = fold manu_temp_changed (w0 # ws) th"
    and cmd: "commandable th' w a cm sp" "\<not> py_bool (field_value w (th_boost_mode th'))" "current_mode th' w \<noteq> CM_HEAT"
    and range: "min_temp th' w \<le> t" "t \<le> max_temp th' w" "OFF_TEMPERATURE < t"
    and run: "sv_enabled sv" "service sv en (set_mode en th' CM_HEAT) ctx w = (r, ctx', w', calls)"
  shows "\<exists>opts. calls = [PutParamset a PK_VALUES [(cm, PInt 1), (sp, PFloat t)] opts]"
proof -
  let ?th = "th\<lparr>th_old_manu_setpoint := Some t\<rparr>"
  have ip: "th_kind th = CustomDpIpThermostat"
    using cmd(1) remembered_kind [of "w0 # ws" th] by (simp only: commandable_def th')
  have "manu_temp_changed w0 th = ?th" using heat ip by (simp add: manu_temp_changed_def)
  moreover have "fold manu_temp_changed ws ?th = ?th" using between by (intro no_heat_events) simp
  ultimately have "th' = ?th" by (simp add: th')
  then have "temperature_for_heat_mode th' w = t"
    using range by (simp add: temperature_for_heat_mode_def or_number_def OFF_TEMPERATURE_def Let_def)
  moreover have "mode_change CM_HEAT th' w" using cmd(3) by (simp add: mode_change_def)
  ultimately show ?thesis using heat_command [OF cmd(1) _ _ cmd(2) run] by simp
qed

text \<open>
  C40: The setpoint of a thermostat that cools is lost. Only events in the heating mode are remembered, so
  after any history in which an IP thermostat cooled, switching it off and on again commands its lowest
  temperature, not the one it cooled to before.
\<close>

theorem cooling_setpoint_lost:
  assumes start: "th_old_manu_setpoint th = None" "th_kind th = CustomDpIpThermostat"
    and cools: "\<forall>v \<in> set ws. \<not> is_heating_mode th v"
    and th': "th' = fold manu_temp_changed ws th"
    and cmd: "commandable th' w a cm sp" "\<not> py_bool (field_value w (th_boost_mode th'))" "is_off th' w"
    and run: "sv_enabled sv" "service sv en (set_mode en th' CM_COOL) ctx w = (r, ctx', w', calls)"
  shows "\<exists>opts. calls = [PutParamset a PK_VALUES [(cm, PInt 1), (sp, PFloat (if OFF_TEMPERATURE < min_temp th' w then min_temp th' w else 5))] opts]"
proof -
  have eq: "th' = th" unfolding th' using start(2) cools cooling_no_heat by (intro no_heat_events) blast
  obtain t where t: "target_temperature th w = Some t" "t \<noteq> 0" "t \<le> OFF_TEMPERATURE"
    using cmd(3) by (auto simp: is_off_def eq split: option.splits)
  have "temperature_for_heat_mode th w = (if OFF_TEMPERATURE < min_temp th w then min_temp th w else 5)"
    using t start(1) by (simp add: temperature_for_heat_mode_def or_number_def Let_def OFF_TEMPERATURE_def)
  moreover have "mode_change CM_COOL th w"
    using cmd(3) start(2) by (simp add: mode_change_def current_mode_def eq)
  ultimately show ?thesis
    using heat_command [OF cmd(1) _ _ cmd(2) run] unfolding eq by simp
qed

subsection \<open>Boost\<close>

text \<open>
  A boost survives the choice of a week program. While an IP thermostat in the automatic mode boosts,
  choosing a week program is one call that sets the active profile; the boost is ended only when the
  thermostat was not in the automatic mode.
\<close>

theorem boost_survives:
  assumes kind: "th_kind th = CustomDpIpThermostat" and boost: "py_bool (field_value w (th_boost_mode th))" and auto: "current_mode th w = CM_AUTO"
    and profile: "climate_profiles th w = Some profiles" "dict_get profiles (CP_WEEK_PROGRAM n) = Some i" "i \<noteq> 0"
    and active: "th_active_profile th = Some (a, pk, ap)" "writes_number DpInteger T_INTEGER (fst w (a, pk, ap))"
      "in_range (fst w (a, pk, ap)) (of_int i)"
    and run: "sv_enabled sv" "service sv en (set_preset en th (CP_WEEK_PROGRAM n)) ctx w = (r, ctx', w', calls)"
  shows "\<exists>opts. calls = [SetValue a pk ap (PInt i) opts]"
proof -
  let ?ctx = "if is_in_service ctx then ctx else Some (service_context sv)"
  let ?s = "\<lambda>c. \<lparr>ex_collector = Some c, ex_world = w, ex_calls = []\<rparr>"
  let ?c0 = "collector_init (sv_priority sv)"
  have "current_preset ft th w = Some CP_BOOST" for ft
    using kind boost by (simp add: current_preset_def)
  moreover have "send_value ft now (PInt i) True True None (fst w (a, pk, ap)) = (Collected (PInt i), fst w (a, pk, ap), [])" for ft now
    using active by (intro collect_integer [where c = DpInteger]) simp_all
  ultimately have "set_preset en th (CP_WEEK_PROGRAM n) ?ctx (?s ?c0) = (Inr (), ?s (add_data_point (a, pk, ap) (PInt i) 50 None ?c0))"
    using kind auto profile active(1)
    by (simp add: set_preset_def ip_set_profile_def when_profile_change_def and_then_def return_ok_def dp_send_def Let_def)
  from service_collected [OF run(1) this single_plan run(2)] show ?thesis
    by (simp add: paramset_call_def)
qed

subsection \<open>A thermostat\<close>

definition climate_world :: "real \<Rightarrow> int \<Rightarrow> bool \<Rightarrow> string \<Rightarrow> world" where
  "climate_world t m boost heating =
     (\<lambda>(_, _, parameter).
        if parameter = ''SET_POINT_TEMPERATURE'' then sample_dp\<lparr>dp_min := PFloat 5, dp_max := PFloat 30, dp_current_value := PFloat t\<rparr>
        else if parameter = ''CONTROL_MODE''
        then sample_dp\<lparr>dp_kind := DpActionInteger, dp_type := T_INTEGER, dp_min := PInt 0, dp_max := PInt 3\<rparr>
        else if parameter = ''SET_POINT_MODE'' then sample_dp\<lparr>dp_kind := DpInteger, dp_type := T_INTEGER, dp_current_value := PInt m\<rparr>
        else if parameter = ''BOOST_MODE'' then sample_dp\<lparr>dp_kind := DpSwitch, dp_type := T_BOOL, dp_current_value := PBool boost\<rparr>
        else if parameter = ''ACTIVE_PROFILE''
        then sample_dp\<lparr>dp_kind := DpInteger, dp_type := T_INTEGER, dp_min := PInt 1, dp_max := PInt 3, dp_current_value := PInt 1\<rparr>
        else sample_dp\<lparr>dp_kind := DpSelect, dp_type := T_ENUM, dp_values := Some [''HEATING'', ''COOLING''], dp_current_value := PStr heating\<rparr>,
      [])"

definition sample_thermostat :: thermostat where
  "sample_thermostat =
     (let field = (\<lambda>p. Some (''T:1'', PK_VALUES, p)) in
      \<lparr>th_kind = CustomDpIpThermostat, th_address = ''T:1'', th_setpoint = field ''SET_POINT_TEMPERATURE'', th_temperature = None,
       th_temperature_maximum = None, th_temperature_minimum = None, th_min_max_not_relevant = None,
       th_boost_mode = field ''BOOST_MODE'', th_control_mode = field ''CONTROL_MODE'', th_auto_mode = None, th_comfort_mode = None,
       th_lowering_mode = None, th_manu_mode = None, th_valve_state = None, th_week_program_pointer = None,
       th_active_profile = field ''ACTIVE_PROFILE'', th_heating_mode = field ''HEATING_COOLING'', th_heating_valve_type = None,
       th_level = None, th_state = None, th_set_point_mode = field ''SET_POINT_MODE'', th_old_manu_setpoint = None,
       th_peer_level = None, th_peer_state = None\<rparr>)"

definition sample_service :: service_method where
  "sample_service = \<lparr>sv_name = ''set_mode'', sv_enabled = True, sv_wait_for_callback = None, sv_log_level = 40, sv_priority = None,
     sv_group_addresses = None\<rparr>"

lemma sample_thermostat_fields [simp]:
  "th_kind sample_thermostat = CustomDpIpThermostat" "th_setpoint sample_thermostat = Some (''T:1'', PK_VALUES, ''SET_POINT_TEMPERATURE'')"
  "th_temperature_maximum sample_thermostat = None" "th_temperature_minimum sample_thermostat = None"
  "th_boost_mode sample_thermostat = Some (''T:1'', PK_VALUES, ''BOOST_MODE'')"
  "th_control_mode sample_thermostat = Some (''T:1'', PK_VALUES, ''CONTROL_MODE'')"
  "th_active_profile sample_thermostat = Some (''T:1'', PK_VALUES, ''ACTIVE_PROFILE'')"
  "th_heating_mode sample_thermostat = Some (''T:1'', PK_VALUES, ''HEATING_COOLING'')"
  "th_set_point_mode sample_thermostat = Some (''T:1'', PK_VALUES, ''SET_POINT_MODE'')"
  "th_old_manu_setpoint sample_thermostat = None"
  by (simp_all add: sample_thermostat_def Let_def)

lemma climate_fields [simp]:
  "field_value (climate_world t m b h) (Some (a, pk, ''SET_POINT_TEMPERATURE'')) = PFloat t"
  "field_value (climate_world t m b h) (Some (a, pk, ''SET_POINT_MODE'')) = PInt m"
  "field_value (climate_world t m b h) (Some (a, pk, ''BOOST_MODE'')) = PBool b"
  "h \<in> {''HEATING'', ''COOLING''} \<Longrightarrow> field_value (climate_world t m b h) (Some (a, pk, ''HEATING_COOLING'')) = PStr h"
  "field_value w None = PNone"
  by (auto simp: field_value_def climate_world_def dp_get_value_def sample_dp_fields dp_value_def optimistic_init_def
      ot_is_active_def select_value_def get_value_from_value_list_def as_pyint_def)

lemma sample_temperatures [simp]:
  "target_temperature sample_thermostat (climate_world t m b h) = Some t"
  "max_temp sample_thermostat (climate_world t m b h) = 30"
  "min_temp sample_thermostat (climate_world t m b h) = 5"
  by (simp_all add: target_temperature_def max_temp_def min_temp_def number_simps)
    (simp_all add: climate_world_def py_num_def OFF_TEMPERATURE_def)

lemma sample_mode [simp]:
  "h \<in> {''HEATING'', ''COOLING''} \<Longrightarrow> current_mode sample_thermostat (climate_world t m b h) =
     (if t \<noteq> 0 \<and> t \<le> 9 / 2 then CM_OFF else if m \<noteq> 1 then CM_AUTO else if h = ''HEATING'' then CM_HEAT else CM_COOL)"
  by (auto simp: current_mode_def is_off_def OFF_TEMPERATURE_def heat_or_cool_def is_heating_mode_def MODE_MANU_def py_eq_def number_simps)

lemma sample_commandable:
  "commandable sample_thermostat (climate_world t m b h) ''T:1'' ''CONTROL_MODE'' ''SET_POINT_TEMPERATURE''"
  unfolding commandable_def sample_temperatures
  by (simp add: writes_number_def in_range_def climate_world_def is_writable_def sample_dp_fields OP_WRITE_def py_num_def)

theorem heat_mode_restores_witness:
  "\<exists>opts. snd (snd (snd (service sample_service sample_environment
       (set_mode sample_environment
          (fold manu_temp_changed [climate_world 21 1 False ''HEATING'', climate_world (9 / 2) 1 False ''HEATING''] sample_thermostat) CM_HEAT)
       None (climate_world (9 / 2) 1 False ''HEATING'')))) =
     [PutParamset ''T:1'' PK_VALUES [(''CONTROL_MODE'', PInt 1), (''SET_POINT_TEMPERATURE'', PFloat 21)] opts]"
proof -
  let ?w = "climate_world (9 / 2) 1 False ''HEATING''"
  let ?th = "fold manu_temp_changed [climate_world 21 1 False ''HEATING'', ?w] sample_thermostat"
  have th: "?th = sample_thermostat\<lparr>th_old_manu_setpoint := Some 21\<rparr>"
    by (simp add: manu_temp_changed_def)
  obtain r c w' calls where run: "service sample_service sample_environment (set_mode sample_environment ?th CM_HEAT) None ?w = (r, c, w', calls)"
    by (metis prod.collapse)
  have "commandable ?th ?w ''T:1'' ''CONTROL_MODE'' ''SET_POINT_TEMPERATURE''" "\<not> py_bool (field_value ?w (th_boost_mode ?th))"
    "current_mode ?th ?w \<noteq> CM_HEAT" "min_temp ?th ?w \<le> 21" "21 \<le> max_temp ?th ?w"
    unfolding th using sample_commandable by (simp_all add: py_bool_def)
  moreover have "\<forall>v \<in> set [?w]. current_mode sample_thermostat v \<noteq> CM_HEAT"
    by simp
  ultimately have "\<exists>opts. calls = [PutParamset ''T:1'' PK_VALUES [(''CONTROL_MODE'', PInt 1), (''SET_POINT_TEMPERATURE'', PFloat 21)] opts]"
    using heat_mode_restores [OF _ _ _ refl _ _ _ _ _ _ _ run]
    by (simp add: OFF_TEMPERATURE_def sample_service_def)
  then show ?thesis unfolding run by simp
qed

theorem cooling_setpoint_lost_witness:
  "\<exists>opts. snd (snd (snd (service sample_service sample_environment
       (set_mode sample_environment
          (fold manu_temp_changed [climate_world 24 1 False ''COOLING'', climate_world (9 / 2) 1 False ''COOLING''] sample_thermostat) CM_COOL)
       None (climate_world (9 / 2) 1 False ''COOLING'')))) =
     [PutParamset ''T:1'' PK_VALUES [(''CONTROL_MODE'', PInt 1), (''SET_POINT_TEMPERATURE'', PFloat 5)] opts]"
proof -
  let ?w = "climate_world (9 / 2) 1 False ''COOLING''" and ?ws = "[climate_world 24 1 False ''COOLING'', climate_world (9 / 2) 1 False ''COOLING'']"
  let ?th = "fold manu_temp_changed ?ws sample_thermostat"
  have th: "?th = sample_thermostat"
    by simp
  have cools: "\<forall>v \<in> set ?ws. \<not> is_heating_mode sample_thermostat v"
    by (simp add: is_heating_mode_def)
  have off: "is_off sample_thermostat ?w"
    by (simp add: is_off_def OFF_TEMPERATURE_def)
  obtain r c w' calls where run: "service sample_service sample_environment (set_mode sample_environment ?th CM_COOL) None ?w = (r, c, w', calls)"
    by (metis prod.collapse)
  from cooling_setpoint_lost [of sample_thermostat ?ws ?th ?w "''T:1''" "''CONTROL_MODE''"
      "''SET_POINT_TEMPERATURE''" sample_service, OF _ _ cools _ _ _ _ _ run]
  show ?thesis
    using sample_commandable off unfolding run by (simp add: th OFF_TEMPERATURE_def sample_service_def py_bool_def)
qed

theorem boost_survives_witness:
  "\<exists>opts. snd (snd (snd (service sample_service sample_environment
       (set_preset sample_environment sample_thermostat (CP_WEEK_PROGRAM 2)) None (climate_world 21 0 True ''HEATING'')))) =
     [SetValue ''T:1'' PK_VALUES ''ACTIVE_PROFILE'' (PInt 2) opts]"
proof -
  let ?w = "climate_world 21 0 True ''HEATING''" and ?ap = "(''T:1'', PK_VALUES, ''ACTIVE_PROFILE'')"
  obtain r c w' calls where run: "service sample_service sample_environment
      (set_preset sample_environment sample_thermostat (CP_WEEK_PROGRAM 2)) None ?w = (r, c, w', calls)"
    by (metis prod.collapse)
  have profiles: "climate_profiles sample_thermostat ?w = Some [(CP_WEEK_PROGRAM 1, 1), (CP_WEEK_PROGRAM 2, 2), (CP_WEEK_PROGRAM 3, 3)]"
    by (simp add: climate_profiles_def climate_world_def py_bool_def bound_int_def number_simps)
      (simp add: week_programs_def py_truncate_def upto.simps)
  have "writes_number DpInteger T_INTEGER (fst ?w ?ap)" "in_range (fst ?w ?ap) (of_int 2)"
    by (simp_all add: climate_world_def writes_number_def in_range_def is_writable_def sample_dp_fields OP_WRITE_def py_num_def)
  with boost_survives [OF _ _ _ profiles _ _ _ _ _ _ run] show ?thesis
    unfolding run by (simp add: dict_get_def py_bool_def sample_service_def)
qed

end
