(* ===== verification/Brightness.thy ===== *)
theory Brightness
  imports Level
begin

section \<open>Brightness\<close>

text \<open>
  \<open>BrightnessMixin\<close> of \<open>model/custom/mixins.py\<close>: the brightness from 0 to 255 that a user sets, the float
  level it is sent as, and the brightness a level is read as. Unlike positions, every brightness
  survives the rounding.
\<close>

definition brightness_to_level :: "int \<Rightarrow> real" where
  "brightness_to_level b = fl (of_int b / 255)"

definition level_to_brightness :: "real option \<Rightarrow> int" where
  "level_to_brightness level = (case level of None \<Rightarrow> 0 | Some l \<Rightarrow> truncate_float (fl (l * 255)))"

definition level_to_brightness_pct :: "real option \<Rightarrow> int" where
  "level_to_brightness_pct level = (case level of None \<Rightarrow> 0 | Some l \<Rightarrow> truncate_float (fl (l * 100)))"

definition brightness_kept :: "int \<Rightarrow> bool" where
  "brightness_kept b \<longleftrightarrow> level_times b 255 255 = b"

lemma brightness_1: "list_all brightness_kept [1..64]"
  by (simp add: upto.simps; intro conjI; simp add: brightness_kept_def compute_level)

lemma brightness_2: "list_all brightness_kept [65..128]"
  by (simp add: upto.simps; intro conjI; simp add: brightness_kept_def compute_level)

lemma brightness_3: "list_all brightness_kept [129..192]"
  by (simp add: upto.simps; intro conjI; simp add: brightness_kept_def compute_level)

lemma brightness_4: "list_all brightness_kept [193..255]"
  by (simp add: upto.simps; intro conjI; simp add: brightness_kept_def compute_level)

lemma brightness_roundtrip:
  assumes "0 \<le> b" and "b \<le> 255"
  shows "level_to_brightness (Some (brightness_to_level b)) = b"
proof (cases "b = 0")
  case True
  then show ?thesis by (simp add: level_to_brightness_def brightness_to_level_def truncate_float_def)
next
  case False
  with assms have "b \<in> set [1..64] \<or> b \<in> set [65..128] \<or> b \<in> set [129..192] \<or> b \<in> set [193..255]"
    unfolding set_upto atLeastAtMost_iff by linarith
  then have "brightness_kept b"
    using brightness_1 brightness_2 brightness_3 brightness_4 unfolding list_all_iff by blast
  then show ?thesis by (simp add: brightness_kept_def level_times_def level_to_brightness_def brightness_to_level_def)
qed

end
