(* ===== verification/On_Off.thy ===== *)
theory On_Off
  imports Custom_Data_Point Brightness
begin

section \<open>Switches, valves, locks and dimmers\<close>

text \<open>
  The custom data points of \<open>model/custom/switch.py\<close>, \<open>model/custom/valve.py\<close>, \<open>model/custom/lock.py\<close>,
  \<open>model/custom/access_permission.py\<close> and the dimmer of \<open>model/custom/light.py\<close>, with the timer of every
  custom data point (\<open>BaseDataPoint\<close> in \<open>model/data_point.py\<close>), its change detection
  (\<open>StateChangeTimerMixin\<close>) and the timer that is sent as a value with a unit
  (\<open>CombinedDpTimerAction\<close> of \<open>model/combined/timer.py\<close>).
\<close>

subsection \<open>Timers\<close>

record timer =
  tm_on_time :: "real option"
  tm_end :: time

definition reset_timer :: timer where
  "reset_timer = \<lparr>tm_on_time = None, tm_end = INIT_DATETIME\<rparr>"

definition set_timer :: "real \<Rightarrow> timer" where
  "set_timer x = \<lparr>tm_on_time = Some x, tm_end = INIT_DATETIME\<rparr>"

definition timer_running :: "time \<Rightarrow> timer \<Rightarrow> bool" where
  "timer_running now t \<longleftrightarrow> now \<le> tm_end t"

definition get_and_start_timer :: "time \<Rightarrow> timer \<Rightarrow> real option \<times> timer" where
  "get_and_start_timer now t =
     (if timer_running now t \<and> (\<exists>x \<in> set_option (tm_on_time t). x \<le> 0) then (Some (- 1), reset_timer)
      else case tm_on_time t of
             None \<Rightarrow> (None, reset_timer)
           | Some x \<Rightarrow> (Some x, \<lparr>tm_on_time = None, tm_end = now + x\<rparr>))"

definition is_timer_state_change :: "time \<Rightarrow> timer \<Rightarrow> bool" where
  "is_timer_state_change now t \<longleftrightarrow> timer_running now t \<or> tm_on_time t \<noteq> None"

text \<open>A timer is a value, with a unit on some devices, and remembers the seconds it was sent with.\<close>

record timer_action =
  ta_value :: "dp_id option"
  ta_unit :: "dp_id option"
  ta_seconds :: "real option"

fun unit_text :: "timer_unit \<Rightarrow> string" where
  "unit_text TU_SECONDS = ''S''" | "unit_text TU_MINUTES = ''M''" | "unit_text TU_HOURS = ''H''"

definition send_timer :: "environment \<Rightarrow> request_context option \<Rightarrow> timer_action \<Rightarrow> real \<Rightarrow> effect" where
  "send_timer en ctx ta v =
     (case ta_unit ta of
        None \<Rightarrow> dp_send en ctx None (ta_value ta) (PFloat v) False False
      | Some _ \<Rightarrow>
          (case recalc_unit_timer v of
             (converted, unit) \<Rightarrow>
               and_then (dp_send en ctx None (ta_unit ta) (PStr (unit_text unit)) True False)
                 (dp_send en ctx None (ta_value ta) (PFloat converted) False False)))"

definition send_timer_default :: "environment \<Rightarrow> request_context option \<Rightarrow> timer_action \<Rightarrow> effect" where
  "send_timer_default en ctx ta s =
     (let default = (\<lambda>field. case field of None \<Rightarrow> PNone | Some k \<Rightarrow> dp_default (fst (ex_world s) k));
          send = (\<lambda>field. if default field \<noteq> PNone then dp_send en ctx None field (default field) True False else return_ok)
      in and_then (send (ta_unit ta)) (send (ta_value ta)) s)"

definition timer_max :: "timer_action \<Rightarrow> world \<Rightarrow> real option" where
  "timer_max ta w =
     map_option (\<lambda>m. if ta_unit ta = None then m else m * 3600)
       (Option.bind (ta_value ta) (\<lambda>k. py_num (dp_max (fst w k))))"

subsection \<open>Switches and valves\<close>

text \<open>\<open>CustomDpSwitch\<close>; \<open>CustomDpIpIrrigationValve\<close> is the same with \<open>open\<close> and \<open>close\<close>.\<close>

record switch =
  sw_state :: "dp_id option"
  sw_group_state :: "dp_id option"
  sw_on_time :: timer_action
  sw_timer :: timer

definition group_value :: "switch \<Rightarrow> world \<Rightarrow> pyval" where
  "group_value sw w = field_value w (sw_group_state sw)"

definition switch_change :: "time \<Rightarrow> bool \<Rightarrow> switch \<Rightarrow> world \<Rightarrow> bool" where
  "switch_change now on sw w \<longleftrightarrow>
     is_timer_state_change now (sw_timer sw) \<or> field_value w (sw_state sw) \<noteq> PBool on \<or> field_uncertain w (sw_state sw)"

definition note_seconds :: "real \<Rightarrow> switch \<Rightarrow> switch" where
  "note_seconds x sw = sw\<lparr>sw_on_time := (sw_on_time sw)\<lparr>ta_seconds := Some x\<rparr>\<rparr>"

definition switch_turn_off :: "environment \<Rightarrow> request_context option \<Rightarrow> switch state_effect" where
  "switch_turn_off en ctx g =
     (case g of (sw, s) \<Rightarrow>
        let sw = sw\<lparr>sw_timer := reset_timer\<rparr>
        in if switch_change (en_now en) False sw (ex_world s)
           then on_exec (dp_send en ctx None (sw_state sw) (PBool False) True False) (sw, s)
           else (Inr (), sw, s))"

definition switch_turn_on :: "environment \<Rightarrow> real option \<Rightarrow> request_context option \<Rightarrow> switch state_effect" where
  "switch_turn_on en on_time ctx g =
     (case g of (sw, s) \<Rightarrow>
        let sw = (case on_time of None \<Rightarrow> sw | Some x \<Rightarrow> sw\<lparr>sw_timer := set_timer x\<rparr>)
        in if \<not> switch_change (en_now en) True sw (ex_world s) then (Inr (), sw, s)
           else (case get_and_start_timer (en_now en) (sw_timer sw) of
                   (t, tm) \<Rightarrow>
                     then_also
                       (case t of
                          None \<Rightarrow> on_state id
                        | Some x \<Rightarrow> then_also (on_exec (send_timer en ctx (sw_on_time sw) x)) (on_state (note_seconds x)))
                       (on_exec (dp_send en ctx None (sw_state sw) (PBool True) True False)) (sw\<lparr>sw_timer := tm\<rparr>, s)))"

subsection \<open>Access permissions and locks\<close>

record permission =
  ap_authorization :: "dp_id option"
  ap_state :: "dp_id option"

definition permission_change :: "bool \<Rightarrow> permission \<Rightarrow> world \<Rightarrow> bool" where
  "permission_change on ap w \<longleftrightarrow> field_value w (ap_state ap) \<noteq> PBool on \<or> field_uncertain w (ap_state ap)"

definition permission_turn :: "environment \<Rightarrow> permission \<Rightarrow> bool \<Rightarrow> request_context option \<Rightarrow> effect" where
  "permission_turn en ap on ctx s =
     (if permission_change on ap (ex_world s)
      then dp_send en ctx None (ap_authorization ap) (PStr (if on then ''ENABLE'' else ''DISABLE'')) True False s
      else return_ok s)"

datatype lock_kind = CustomDpIpLock | CustomDpButtonLock | CustomDpRfLock

record lock =
  lk_kind :: lock_kind
  lk_state :: "dp_id option"
  lk_target_level :: "dp_id option"
  lk_direction :: "dp_id option"
  lk_error :: "dp_id option"
  lk_open :: "dp_id option"

text \<open>The state of a lock: its lock state, the switch of the button lock, or the switch of the classic lock.\<close>

definition is_locked :: "lock \<Rightarrow> world \<Rightarrow> bool" where
  "is_locked lk w \<longleftrightarrow>
     (case lk_kind lk of
        CustomDpIpLock \<Rightarrow> field_value w (lk_state lk) = PStr ''LOCKED''
      | CustomDpButtonLock \<Rightarrow> field_value w (lk_state lk) = PBool True
      | CustomDpRfLock \<Rightarrow> field_value w (lk_state lk) \<noteq> PBool True)"

definition is_jammed :: "lock \<Rightarrow> world \<Rightarrow> bool" where
  "is_jammed lk w \<longleftrightarrow> lk_kind lk = CustomDpRfLock \<and> field_value w (lk_error lk) \<notin> {PNone, PStr ''NO_ERROR''}"

definition lock_moves :: "string \<Rightarrow> lock \<Rightarrow> world \<Rightarrow> bool option" where
  "lock_moves activity lk w =
     (if lk_kind lk = CustomDpButtonLock then None
      else case field_value w (lk_direction lk) of PNone \<Rightarrow> None | v \<Rightarrow> Some (v = PStr activity))"

definition is_locking :: "lock \<Rightarrow> world \<Rightarrow> bool option" where
  "is_locking = lock_moves ''DOWN''"

definition is_unlocking :: "lock \<Rightarrow> world \<Rightarrow> bool option" where
  "is_unlocking = lock_moves ''UP''"

definition lock_lock :: "environment \<Rightarrow> lock \<Rightarrow> request_context option \<Rightarrow> effect" where
  "lock_lock en lk ctx =
     (case lk_kind lk of
        CustomDpIpLock \<Rightarrow> dp_send en ctx None (lk_target_level lk) (PStr ''LOCKED'') True False
      | CustomDpButtonLock \<Rightarrow> dp_send en ctx None (lk_state lk) (PBool True) True False
      | CustomDpRfLock \<Rightarrow> dp_send en ctx None (lk_state lk) (PBool False) True False)"

definition lock_unlock :: "environment \<Rightarrow> lock \<Rightarrow> request_context option \<Rightarrow> effect" where
  "lock_unlock en lk ctx =
     (case lk_kind lk of
        CustomDpIpLock \<Rightarrow> dp_send en ctx None (lk_target_level lk) (PStr ''UNLOCKED'') True False
      | CustomDpButtonLock \<Rightarrow> dp_send en ctx None (lk_state lk) (PBool False) True False
      | CustomDpRfLock \<Rightarrow> dp_send en ctx None (lk_state lk) (PBool True) True False)"

definition lock_open :: "environment \<Rightarrow> lock \<Rightarrow> request_context option \<Rightarrow> effect" where
  "lock_open en lk ctx =
     (case lk_kind lk of
        CustomDpIpLock \<Rightarrow> dp_send en ctx None (lk_target_level lk) (PStr ''OPEN'') True False
      | CustomDpButtonLock \<Rightarrow> return_ok
      | CustomDpRfLock \<Rightarrow> dp_send en ctx None (lk_open lk) (PBool True) True False)"

subsection \<open>Dimmers\<close>

record dimmer =
  dm_level :: "dp_id option"
  dm_group_level :: "dp_id option"
  dm_on_time :: timer_action
  dm_ramp_time :: timer_action
  dm_timer :: timer
  dm_resets_on_time :: bool

definition dp_modified :: "data_point \<Rightarrow> time" where
  "dp_modified d = (if dp_modified_at d < dp_unconfirmed_modified_at d then dp_unconfirmed_modified_at d else dp_modified_at d)"

text \<open>\<open>LEVEL_REAL\<close> marks the dimmers of the classic line, whose level streams while the light ramps.\<close>

definition effective_level :: "environment \<Rightarrow> dimmer \<Rightarrow> world \<Rightarrow> pyval" where
  "effective_level en dm w =
     (let level = field_value w (dm_level dm); group_level = field_value w (dm_group_level dm)
      in case (dm_group_level dm, dm_level dm) of
           (Some g, Some l) \<Rightarrow>
             if snd (snd g) \<noteq> ''LEVEL_REAL'' then level
             else if ot_is_active (dp_optimistic (fst w l)) then level
             else if en_last_value_send en l \<noteq> PNone then en_last_value_send en l
             else if level \<noteq> PNone \<and> group_level \<noteq> PNone
             then (if dp_modified (fst w g) < dp_modified (fst w l) then level else group_level)
             else if group_level \<noteq> PNone then group_level else level
         | (Some g, None) \<Rightarrow> if snd (snd g) \<noteq> ''LEVEL_REAL'' then level else group_level
         | (None, _) \<Rightarrow> level)"

definition dimmer_is_on :: "environment \<Rightarrow> dimmer \<Rightarrow> world \<Rightarrow> bool" where
  "dimmer_is_on en dm w \<longleftrightarrow> (\<exists>l \<in> set_option (py_num (effective_level en dm w)). 0 < l)"

definition brightness :: "environment \<Rightarrow> dimmer \<Rightarrow> world \<Rightarrow> int" where
  "brightness en dm w =
     level_to_brightness (case py_num (effective_level en dm w) of None \<Rightarrow> Some 0 | Some l \<Rightarrow> Some l)"

definition brightness_pct :: "environment \<Rightarrow> dimmer \<Rightarrow> world \<Rightarrow> int" where
  "brightness_pct en dm w =
     level_to_brightness_pct (case py_num (effective_level en dm w) of None \<Rightarrow> Some 0 | Some l \<Rightarrow> Some l)"

definition group_brightness :: "dimmer \<Rightarrow> world \<Rightarrow> int option" where
  "group_brightness dm w = map_option (\<lambda>l. level_to_brightness (Some l)) (py_num (field_value w (dm_group_level dm)))"

definition group_brightness_pct :: "dimmer \<Rightarrow> world \<Rightarrow> int option" where
  "group_brightness_pct dm w = map_option (\<lambda>l. level_to_brightness_pct (Some l)) (py_num (field_value w (dm_group_level dm)))"

text \<open>The arguments of \<open>turn_on\<close> and \<open>turn_off\<close>; \<open>on\<close> and \<open>off\<close> count only when they are the only ones.\<close>

definition dimmer_change ::
  "environment \<Rightarrow> bool \<Rightarrow> int option \<Rightarrow> real option \<Rightarrow> real option \<Rightarrow> dimmer \<Rightarrow> world \<Rightarrow> bool" where
  "dimmer_change en on b on_time ramp_time dm w \<longleftrightarrow>
     is_timer_state_change (en_now en) (dm_timer dm) \<or> on_time \<noteq> None \<or> ramp_time \<noteq> None \<or>
     dimmer_is_on en dm w \<noteq> on \<and> b = None \<or>
     (\<exists>x \<in> set_option b. x \<noteq> brightness en dm w) \<or> field_uncertain w (dm_level dm)"

definition NOT_USED :: real where "NOT_USED = 111600"

definition note_on_time :: "real \<Rightarrow> dimmer \<Rightarrow> dimmer" where
  "note_on_time x dm = dm\<lparr>dm_on_time := (dm_on_time dm)\<lparr>ta_seconds := Some x\<rparr>\<rparr>"

definition note_ramp_time :: "real \<Rightarrow> dimmer \<Rightarrow> dimmer" where
  "note_ramp_time x dm = dm\<lparr>dm_ramp_time := (dm_ramp_time dm)\<lparr>ta_seconds := Some x\<rparr>\<rparr>"

definition send_on_time :: "environment \<Rightarrow> request_context option \<Rightarrow> real option \<Rightarrow> dimmer state_effect" where
  "send_on_time en ctx t g =
     (case t of
        None \<Rightarrow> (Inr (), g)
      | Some x \<Rightarrow> then_also (on_exec (send_timer en ctx (dm_on_time (fst g)) x)) (on_state (note_on_time x)) g)"

definition send_ramp_time :: "environment \<Rightarrow> request_context option \<Rightarrow> real option \<Rightarrow> dimmer state_effect" where
  "send_ramp_time en ctx t g =
     (case t of
        None \<Rightarrow> (Inr (), g)
      | Some x \<Rightarrow>
          if x = 0 then (Inr (), g)
          else then_also (on_exec (send_timer en ctx (dm_ramp_time (fst g)) x)) (on_state (note_ramp_time x)) g)"

definition dimmer_turn_off :: "environment \<Rightarrow> real option \<Rightarrow> real option \<Rightarrow> request_context option \<Rightarrow> dimmer state_effect" where
  "dimmer_turn_off en on_time ramp_time ctx g =
     (case g of (dm, s) \<Rightarrow>
        let dm = dm\<lparr>dm_timer := reset_timer\<rparr>;
            unused = on_time = None \<and> ramp_time \<notin> {None, Some 0} \<and> ta_unit (dm_on_time dm) \<noteq> None
        in if \<not> dimmer_change en False None on_time ramp_time dm (ex_world s) then (Inr (), dm, s)
           else then_also (send_on_time en ctx (if unused then Some NOT_USED else None))
                  (then_also (send_ramp_time en ctx ramp_time)
                    (on_exec (dp_send en ctx None (dm_level dm) (PFloat 0) True False))) (dm, s))"

definition MAX_BRIGHTNESS :: int where "MAX_BRIGHTNESS = 255"

definition dimmer_turn_on ::
  "environment \<Rightarrow> int option \<Rightarrow> real option \<Rightarrow> real option \<Rightarrow> request_context option \<Rightarrow> dimmer state_effect" where
  "dimmer_turn_on en b on_time ramp_time ctx g =
     (case g of (dm, s) \<Rightarrow>
        let dm = (case on_time of None \<Rightarrow> dm | Some x \<Rightarrow> dm\<lparr>dm_timer := set_timer x\<rparr>)
        in if \<not> dimmer_change en True b on_time ramp_time dm (ex_world s) then (Inr (), dm, s)
           else (case get_and_start_timer (en_now en) (dm_timer dm) of
                   (t, tm) \<Rightarrow>
                     let t = (if t = None \<and> dm_resets_on_time dm \<and> ta_unit (dm_on_time dm) \<noteq> None then Some NOT_USED else t)
                     in then_also (send_on_time en ctx t)
                          (then_also (send_ramp_time en ctx ramp_time)
                            (\<lambda>(dm, s).
                               let wanted = (case b of None \<Rightarrow> brightness en dm (ex_world s) | Some x \<Rightarrow> x);
                                   bright = (if wanted = 0 then MAX_BRIGHTNESS else wanted)
                               in on_exec (dp_send en ctx None (dm_level dm) (PFloat (brightness_to_level bright)) True False) (dm, s)))
                          (dm\<lparr>dm_timer := tm\<rparr>, s)))"

subsection \<open>What a dimmer is sent\<close>

lemma fl_relative:
  assumes "0 < x"
  shows "\<bar>fl x - x\<bar> \<le> x / 2 ^ 53"
proof -
  have "(2::real) powi \<lfloor>log 2 x\<rfloor> = 2 powr (of_int \<lfloor>log 2 x\<rfloor>)" by (simp add: powr_real_of_int')
  also have "\<dots> \<le> 2 powr (log 2 x)" by (intro powr_mono) simp_all
  also have "\<dots> = x" using assms by simp
  finally have le: "(2::real) powi \<lfloor>log 2 x\<rfloor> \<le> x" .
  have "(2::real) powi (\<lfloor>log 2 x\<rfloor> - 52) = 2 powi \<lfloor>log 2 x\<rfloor> / 2 ^ 52"
    by (simp add: power_int_diff)
  with fl_error [of x] le assms show ?thesis by (simp add: field_simps)
qed

lemma brightness_level_range:
  assumes "0 \<le> b" and "b \<le> 255"
  shows "0 \<le> brightness_to_level b" "brightness_to_level b \<le> 1"
proof -
  have "0 \<le> brightness_to_level b \<and> brightness_to_level b \<le> 1"
  proof (cases "b = 0 \<or> b = 255")
    case True
    then show ?thesis by (auto simp: brightness_to_level_def fl_def round_even_def Let_def power_int_minus)
  next
    case False
    define x :: real where "x = of_int b / 255"
    have x: "0 < x" "x \<le> 254 / 255" using assms False by (simp_all add: x_def)
    moreover have "x / 2 ^ 53 \<le> x / 255" using x by (simp add: field_simps)
    ultimately have "\<bar>fl x - x\<bar> \<le> x / 255" using fl_relative [of x] by linarith
    then have "0 \<le> fl x \<and> fl x \<le> 1" using x by (cases "0 \<le> fl x - x") auto
    then show ?thesis by (simp add: brightness_to_level_def x_def)
  qed
  then show "0 \<le> brightness_to_level b" "brightness_to_level b \<le> 1" by simp_all
qed

text \<open>A dimmer whose level is the one of a channel of its own, in the range from 0 to 1.\<close>

definition plain_dimmer :: "dimmer \<Rightarrow> world \<Rightarrow> dp_id \<Rightarrow> bool" where
  "plain_dimmer dm w k \<longleftrightarrow>
     dm_level dm = Some k \<and> (\<forall>g \<in> set_option (dm_group_level dm). snd (snd g) \<noteq> ''LEVEL_REAL'') \<and>
     writes_number DpFloat T_FLOAT (fst w k) \<and> dp_min (fst w k) = PFloat 0 \<and> dp_max (fst w k) = PFloat 1 \<and>
     \<not> field_uncertain w (Some k)"

lemma state_service_collected:
  assumes "sv_enabled sv"
    and "func (if is_in_service ctx then ctx else Some (service_context sv))
      (st, \<lparr>ex_collector = Some (collector_init (sv_priority sv)), ex_world = w, ex_calls = []\<rparr>) =
      (Inr (), st1, \<lparr>ex_collector = Some c, ex_world = w, ex_calls = []\<rparr>)"
    and "state_service sv en func ctx st w = (r, st', w', calls)"
  shows "st' = st1" "collector_plan c = [] \<Longrightarrow> calls = []"
    "collector_plan c = [(pk, order, a, ps)] \<Longrightarrow> \<exists>opts. calls = [paramset_call opts a pk ps]"
  using assms
  by (auto simp: state_service_def Let_def send_data_def split: prod.splits sum.splits if_splits)

lemma no_plan: "collector_plan (collector_init p) = []"
  by (simp add: collector_plan_def collector_init_def)

text \<open>
  C25: What \<open>turn_on\<close> with a brightness sends. A dimmer without a running timer sends nothing when it shows the
  brightness already, and otherwise exactly the level of the brightness, which it reads back as that very
  brightness; a brightness of zero turns the light fully on.
\<close>

theorem dimmer_brightness:
  assumes dm: "plain_dimmer dm w k" and off: "tm_on_time (dm_timer dm) = None" "tm_end (dm_timer dm) < en_now en"
    and plain: "\<not> dm_resets_on_time dm" and b: "0 \<le> b" "b \<le> 255"
    and run: "sv_enabled sv" "state_service sv en (dimmer_turn_on en (Some b) None None) ctx dm w = (r, dm', w', calls)"
  shows "(if b = brightness en dm w then calls = []
      else \<exists>opts. calls = [SetValue (fst k) (fst (snd k)) (snd (snd k)) (PFloat (brightness_to_level (if b = 0 then 255 else b))) opts]) \<and>
     (\<forall>later. field_value later (Some k) = PFloat (brightness_to_level (if b = 0 then 255 else b)) \<longrightarrow>
        brightness en dm later = (if b = 0 then 255 else b))"
proof -
  let ?b = "if b = 0 then 255 else b"
  define sent where "sent = brightness_to_level ?b"
  let ?ctx = "if is_in_service ctx then ctx else Some (service_context sv)"
  let ?s = "\<lambda>c. \<lparr>ex_collector = Some c, ex_world = w, ex_calls = []\<rparr>"
  let ?c0 = "collector_init (sv_priority sv)"
  obtain a pk p where k: "k = (a, pk, p)" by (cases k)
  have range: "in_range (fst w k) sent"
    using brightness_level_range [of ?b] b dm by (simp add: in_range_def plain_dimmer_def number_simps sent_def)
  have change: "dimmer_change en True (Some b) None None dm w \<longleftrightarrow> b \<noteq> brightness en dm w"
    using dm off by (simp add: dimmer_change_def is_timer_state_change_def timer_running_def plain_dimmer_def)
  have sends: "if b = brightness en dm w then calls = []
     else \<exists>opts. calls = [SetValue (fst k) (fst (snd k)) (snd (snd k)) (PFloat sent) opts]"
  proof (cases "b = brightness en dm w")
    case True
    then have "dimmer_turn_on en (Some b) None None ?ctx (dm, ?s ?c0) = (Inr (), dm, ?s ?c0)"
      using change by (simp add: dimmer_turn_on_def)
    from state_service_collected(2) [OF run(1) this run(2) no_plan] True show ?thesis by simp
  next
    case False
    have "send_value ft now (PFloat sent) True True None (fst w k) = (Collected (PFloat sent), fst w k, [])" for ft now
      using dm range by (intro collect_float) (simp_all add: plain_dimmer_def)
    then have "dp_send en ?ctx None (dm_level dm) (PFloat sent) True False (?s ?c0) = (Inr (), ?s (add_data_point k (PFloat sent) 50 None ?c0))"
      using dm by (simp add: dp_send_def plain_dimmer_def)
    moreover have "get_and_start_timer (en_now en) (dm_timer dm) = (None, reset_timer)"
      using off by (simp add: get_and_start_timer_def timer_running_def)
    ultimately have "dimmer_turn_on en (Some b) None None ?ctx (dm, ?s ?c0) =
        (Inr (), dm\<lparr>dm_timer := reset_timer\<rparr>, ?s (add_data_point k (PFloat sent) 50 None ?c0))"
      using change False plain
      by (cases "b = 0"; cases "is_in_service ctx") (simp_all add: dimmer_turn_on_def then_also_def send_on_time_def send_ramp_time_def on_exec_def sent_def MAX_BRIGHTNESS_def Let_def)
    from state_service_collected(3) [OF run(1) this run(2)] single_plan False show ?thesis
      by (fastforce simp: k paramset_call_def)
  qed
  have reads: "brightness en dm later = ?b" if "field_value later (Some k) = PFloat (brightness_to_level ?b)" for later
  proof -
    have "effective_level en dm later = PFloat sent"
      using dm that unfolding sent_def by (cases "dm_group_level dm") (simp_all add: effective_level_def plain_dimmer_def Let_def)
    then show ?thesis
      using brightness_roundtrip [of ?b] b by (simp add: brightness_def number_simps sent_def)
  qed
  with sends show ?thesis unfolding sent_def by blast
qed

definition sample_dimmer :: dimmer where
  "sample_dimmer =
     (let none = \<lparr>ta_value = None, ta_unit = None, ta_seconds = None\<rparr> in
      \<lparr>dm_level = Some (''D:1'', PK_VALUES, ''LEVEL''), dm_group_level = None, dm_on_time = none, dm_ramp_time = none,
       dm_timer = reset_timer, dm_resets_on_time = False\<rparr>)"

definition light_world :: "int \<Rightarrow> world" where
  "light_world b = (\<lambda>_. sample_dp\<lparr>dp_current_value := PFloat (brightness_to_level b), dp_state_uncertain := False\<rparr>, [])"

definition turn_service :: service_method where
  "turn_service = \<lparr>sv_name = ''turn_on'', sv_enabled = True, sv_wait_for_callback = None, sv_log_level = 40, sv_priority = None,
     sv_group_addresses = None\<rparr>"

lemma light_level: "field_value (light_world b) (Some k) = PFloat (brightness_to_level b)"
  by (simp add: field_value_def light_world_def dp_get_value_def sample_dp_fields optimistic_init_def ot_is_active_def dp_value_def)

text \<open>A light at brightness 100: the same brightness, another one, and zero.\<close>

theorem dimmer_brightness_witness:
  "snd (snd (snd (state_service turn_service sample_environment (dimmer_turn_on sample_environment (Some 100) None None) None
       sample_dimmer (light_world 100)))) = [] \<and>
   (\<exists>opts. snd (snd (snd (state_service turn_service sample_environment (dimmer_turn_on sample_environment (Some 0) None None) None
       sample_dimmer (light_world 100)))) = [SetValue ''D:1'' PK_VALUES ''LEVEL'' (PFloat (brightness_to_level 255)) opts])"
proof -
  let ?run = "\<lambda>b. state_service turn_service sample_environment (dimmer_turn_on sample_environment (Some b) None None) None
       sample_dimmer (light_world 100)"
  have dm: "plain_dimmer sample_dimmer (light_world 100) (''D:1'', PK_VALUES, ''LEVEL'')"
    by (simp add: plain_dimmer_def sample_dimmer_def writes_number_def light_world_def field_uncertain_def sample_dp_fields
        is_writable_def OP_WRITE_def Let_def)
  have off: "tm_on_time (dm_timer sample_dimmer) = None" "tm_end (dm_timer sample_dimmer) < en_now sample_environment"
    "\<not> dm_resets_on_time sample_dimmer" "sv_enabled turn_service"
    by (simp_all add: sample_dimmer_def reset_timer_def sample_environment_def turn_service_def INIT_DATETIME_def Let_def)
  have shown: "brightness sample_environment sample_dimmer (light_world 100) = 100"
    using light_level [of 100] brightness_roundtrip [of 100]
    by (simp add: brightness_def effective_level_def sample_dimmer_def number_simps Let_def)
  obtain r dm1 w1 calls1 where 1: "?run 100 = (r, dm1, w1, calls1)" by (metis prod.collapse)
  obtain r' dm2 w2 calls2 where 2: "?run 0 = (r', dm2, w2, calls2)" by (metis prod.collapse)
  show ?thesis
    using dimmer_brightness [OF dm off(1-3) _ _ off(4) 1] dimmer_brightness [OF dm off(1-3) _ _ off(4) 2] shown
    by (simp add: 1 2)
qed

subsection \<open>Timed switching\<close>

lemma collect_action_float:
  assumes "writes_number DpActionFloat T_FLOAT d"
  shows "send_value ft now (PFloat x) True False retry d = (Collected (PFloat x), d, [])"
  using assms
  by (simp add: writes_number_def send_value_def prepare_value_for_sending_def prepare_number_for_sending_def
      number_simps number_converter_def dp_convert_def convert_value_noncached_def)

lemma collect_bool:
  assumes "writes_number DpSwitch T_BOOL d" and "dp_values d = None"
  shows "send_value ft now (PBool b) True True retry d = (Collected (PBool b), d, [])"
  using assms
  by (simp add: writes_number_def send_value_def prepare_value_for_sending_def dp_convert_def convert_value_noncached_def py_bool_def)

text \<open>
  The histories of a timer: setting it clears its end, starting it clears its time. So the branch that
  returns -1 is never taken.
\<close>

definition timer_wf :: "timer \<Rightarrow> bool" where
  "timer_wf t \<longleftrightarrow> tm_on_time t = None \<or> tm_end t = INIT_DATETIME"

lemma timer_kept: "timer_wf reset_timer" "timer_wf (set_timer x)" "timer_wf t \<Longrightarrow> timer_wf (snd (get_and_start_timer now t))"
  by (auto simp: timer_wf_def reset_timer_def set_timer_def get_and_start_timer_def split: option.splits)

lemma timer_value: "timer_wf t \<Longrightarrow> INIT_DATETIME < now \<Longrightarrow> fst (get_and_start_timer now t) = tm_on_time t"
  by (auto simp: timer_wf_def get_and_start_timer_def timer_running_def split: option.splits)

text \<open>
  A history of commands of one switch, each in an environment and with the data points of its time, and the
  values its calls assign, command by command.
\<close>

datatype switch_command = On_For real | Plain_On | Plain_Off

fun switch_command_effect :: "environment \<Rightarrow> switch_command \<Rightarrow> request_context option \<Rightarrow> switch state_effect" where
  "switch_command_effect en (On_For x) = switch_turn_on en (Some x)"
| "switch_command_effect en Plain_On = switch_turn_on en None"
| "switch_command_effect en Plain_Off = switch_turn_off en"

fun switch_calls :: "service_method \<Rightarrow> request_context option \<Rightarrow> switch \<Rightarrow> (switch_command \<times> environment \<times> world) list \<Rightarrow>
    (string \<times> paramset_key \<times> paramset) list list" where
  "switch_calls sv ctx sw [] = []"
| "switch_calls sv ctx sw ((cmd, en, w) # h) =
     (case state_service sv en (switch_command_effect en cmd) ctx sw w of
        (_, sw', _, calls) \<Rightarrow> map call_values calls # switch_calls sv ctx sw' h)"

text \<open>What is expected, when the switch was turned on until a certain time.\<close>

definition shows_other :: "world \<Rightarrow> dp_id \<Rightarrow> bool \<Rightarrow> bool" where
  "shows_other w k on \<longleftrightarrow> field_value w (Some k) \<noteq> PBool on \<or> field_uncertain w (Some k)"

fun timed_calls :: "string \<Rightarrow> paramset_key \<Rightarrow> string \<Rightarrow> string \<Rightarrow> time option \<Rightarrow> (switch_command \<times> environment \<times> world) list \<Rightarrow>
    (string \<times> paramset_key \<times> paramset) list list" where
  "timed_calls a pk st ot until [] = []"
| "timed_calls a pk st ot until ((On_For x, en, w) # h) =
     [(a, pk, [(ot, PFloat x), (st, PBool True)])] # timed_calls a pk st ot (Some (en_now en + x)) h"
| "timed_calls a pk st ot until ((Plain_On, en, w) # h) =
     (if (\<exists>e \<in> set_option until. en_now en \<le> e) \<or> shows_other w (a, pk, st) True
      then [(a, pk, [(st, PBool True)])] # timed_calls a pk st ot None h
      else [] # timed_calls a pk st ot until h)"
| "timed_calls a pk st ot until ((Plain_Off, en, w) # h) =
     (if shows_other w (a, pk, st) False then [(a, pk, [(st, PBool False)])] else []) # timed_calls a pk st ot None h"

text \<open>A switch with a timer in seconds, and its timer while it is on until \<open>until\<close>.\<close>

definition timed_device :: "string \<Rightarrow> paramset_key \<Rightarrow> string \<Rightarrow> string \<Rightarrow> switch \<Rightarrow> bool" where
  "timed_device a pk st ot sw \<longleftrightarrow>
     sw_state sw = Some (a, pk, st) \<and> ta_value (sw_on_time sw) = Some (a, pk, ot) \<and> ta_unit (sw_on_time sw) = None \<and> ot \<noteq> st"

definition timed_world :: "string \<Rightarrow> paramset_key \<Rightarrow> string \<Rightarrow> string \<Rightarrow> environment \<Rightarrow> world \<Rightarrow> bool" where
  "timed_world a pk st ot en w \<longleftrightarrow>
     INIT_DATETIME < en_now en \<and> writes_number DpSwitch T_BOOL (fst w (a, pk, st)) \<and> dp_values (fst w (a, pk, st)) = None \<and>
     writes_number DpActionFloat T_FLOAT (fst w (a, pk, ot))"

definition on_until :: "time option \<Rightarrow> switch \<Rightarrow> bool" where
  "on_until until sw \<longleftrightarrow> sw_timer sw = \<lparr>tm_on_time = None, tm_end = (case until of None \<Rightarrow> INIT_DATETIME | Some e \<Rightarrow> e)\<rparr>"

lemma timed_state_send:
  assumes "timed_world a pk st ot en w" and "timed_device a pk st ot sw" and "ex_world s = w" and "ex_collector s = Some c"
  shows "dp_send en ctx None (sw_state sw) (PBool b) True False s = (Inr (), s\<lparr>ex_collector := Some (add_data_point (a, pk, st) (PBool b) 50 None c)\<rparr>)"
  using assms collect_bool by (simp add: timed_world_def timed_device_def dp_send_def)

lemma switch_change_until:
  assumes "timed_world a pk st ot en w" and "timed_device a pk st ot sw" and "on_until until sw"
  shows "switch_change (en_now en) on sw w \<longleftrightarrow> (\<exists>e \<in> set_option until. en_now en \<le> e) \<or> shows_other w (a, pk, st) on"
  using assms
  by (auto simp: switch_change_def is_timer_state_change_def timer_running_def on_until_def timed_device_def timed_world_def shows_other_def
      split: option.splits)

lemma switch_reset:
  assumes "timed_world a pk st ot en w" and "timed_device a pk st ot sw"
  shows "switch_change (en_now en) on (sw\<lparr>sw_timer := reset_timer\<rparr>) w \<longleftrightarrow> shows_other w (a, pk, st) on"
  using assms
  by (auto simp: switch_change_def is_timer_state_change_def timer_running_def reset_timer_def timed_device_def timed_world_def shows_other_def)

lemma call_values_one:
  assumes "\<exists>opts. calls = [paramset_call opts a pk ps]"
  shows "map call_values calls = [(a, pk, ps)]"
  using assms by auto

text \<open>The three commands.\<close>

lemma timed_on_for:
  assumes w: "timed_world a pk st ot en w" and sw: "timed_device a pk st ot sw"
    and run: "sv_enabled sv" "state_service sv en (switch_turn_on en (Some x)) ctx sw w = (r, sw', w', calls)"
  shows "map call_values calls = [(a, pk, [(ot, PFloat x), (st, PBool True)])] \<and> timed_device a pk st ot sw' \<and> on_until (Some (en_now en + x)) sw'"
proof -
  let ?ctx = "if is_in_service ctx then ctx else Some (service_context sv)"
  let ?s = "\<lambda>c. \<lparr>ex_collector = Some c, ex_world = w, ex_calls = []\<rparr>"
  let ?c0 = "collector_init (sv_priority sv)"
  let ?c1 = "add_data_point (a, pk, ot) (PFloat x) 50 None ?c0"
  let ?c2 = "add_data_point (a, pk, st) (PBool True) 50 None ?c1"
  let ?sw = "note_seconds x (sw\<lparr>sw_timer := \<lparr>tm_on_time = None, tm_end = en_now en + x\<rparr>\<rparr>)"
  have timer: "ta_value (sw_on_time sw) = Some (a, pk, ot)" "ta_unit (sw_on_time sw) = None" "ot \<noteq> st"
    using sw by (simp_all add: timed_device_def)
  have 1: "dp_send en c None (Some (a, pk, ot)) (PFloat x) False False (?s ?c0) = (Inr (), ?s ?c1)" for c
    using collect_action_float w by (simp add: dp_send_def timed_world_def)
  have 2: "dp_send en c None (sw_state sw) (PBool True) True False (?s ?c1) = (Inr (), ?s ?c2)" for c
    using timed_state_send [OF w sw] by simp
  have "get_and_start_timer (en_now en) (set_timer x) = (Some x, \<lparr>tm_on_time = None, tm_end = en_now en + x\<rparr>)"
    using w by (simp add: get_and_start_timer_def set_timer_def timer_running_def timed_world_def)
  moreover have "switch_change (en_now en) True (sw\<lparr>sw_timer := set_timer x\<rparr>) w"
    by (simp add: switch_change_def is_timer_state_change_def set_timer_def)
  ultimately have "switch_turn_on en (Some x) ?ctx (sw, ?s ?c0) = (Inr (), ?sw, ?s ?c2)"
    using 1 2 timer(1,2)
    by (simp add: switch_turn_on_def then_also_def on_exec_def on_state_def send_timer_def note_seconds_def split del: if_split)
  note ends = state_service_collected [OF run(1) this run(2)]
  have "collector_plan ?c2 = [(pk, 50, a, [(ot, PFloat x), (st, PBool True)])]"
    using timer(3) by (simp add: pair_plan)
  with call_values_one [OF ends(3)] ends(1) sw show ?thesis
    by (simp add: on_until_def timed_device_def note_seconds_def)
qed

lemma timed_plain_on:
  assumes w: "timed_world a pk st ot en w" and sw: "timed_device a pk st ot sw" and until: "on_until until sw"
    and run: "sv_enabled sv" "state_service sv en (switch_turn_on en None) ctx sw w = (r, sw', w', calls)"
  shows "(if (\<exists>e \<in> set_option until. en_now en \<le> e) \<or> shows_other w (a, pk, st) True
          then map call_values calls = [(a, pk, [(st, PBool True)])] \<and> on_until None sw'
          else calls = [] \<and> on_until until sw') \<and> timed_device a pk st ot sw'"
proof -
  let ?ctx = "if is_in_service ctx then ctx else Some (service_context sv)"
  let ?s = "\<lambda>c. \<lparr>ex_collector = Some c, ex_world = w, ex_calls = []\<rparr>"
  let ?c0 = "collector_init (sv_priority sv)"
  let ?sends = "(\<exists>e \<in> set_option until. en_now en \<le> e) \<or> shows_other w (a, pk, st) True"
  note change = switch_change_until [OF w sw until, of True]
  show ?thesis
  proof (cases ?sends)
    case True
    let ?added = "add_data_point (a, pk, st) (PBool True) 50 None ?c0"
    have send: "dp_send en ct None (sw_state sw) (PBool True) True False (?s ?c0) = (Inr (), ?s ?added)" for ct
      using timed_state_send [OF w sw] by simp
    have "get_and_start_timer (en_now en) (sw_timer sw) = (None, reset_timer)"
      using until by (simp add: get_and_start_timer_def on_until_def)
    then have "switch_turn_on en None ?ctx (sw, ?s ?c0) = (Inr (), sw\<lparr>sw_timer := reset_timer\<rparr>, ?s ?added)"
      using True change send
      by (simp add: switch_turn_on_def then_also_def on_exec_def on_state_def split del: if_split)
    note ends = state_service_collected [OF run(1) this run(2)]
    have "map call_values calls = [(a, pk, [(st, PBool True)])]"
      by (rule call_values_one) (rule ends(3) [OF single_plan])
    with True ends(1) sw show ?thesis
      by (simp add: on_until_def timed_device_def reset_timer_def)
  next
    case False
    then have "switch_turn_on en None ?ctx (sw, ?s ?c0) = (Inr (), sw, ?s ?c0)"
      using change by (simp add: switch_turn_on_def split del: if_split)
    note ends = state_service_collected [OF run(1) this run(2)]
    from False ends(1) ends(2) [OF no_plan] sw until show ?thesis by simp
  qed
qed

lemma timed_plain_off:
  assumes w: "timed_world a pk st ot en w" and sw: "timed_device a pk st ot sw"
    and run: "sv_enabled sv" "state_service sv en (switch_turn_off en) ctx sw w = (r, sw', w', calls)"
  shows "map call_values calls = (if shows_other w (a, pk, st) False then [(a, pk, [(st, PBool False)])] else []) \<and>
     on_until None sw' \<and> timed_device a pk st ot sw'"
proof -
  let ?ctx = "if is_in_service ctx then ctx else Some (service_context sv)"
  let ?s = "\<lambda>c. \<lparr>ex_collector = Some c, ex_world = w, ex_calls = []\<rparr>"
  let ?c0 = "collector_init (sv_priority sv)"
  let ?sw = "sw\<lparr>sw_timer := reset_timer\<rparr>"
  let ?added = "if shows_other w (a, pk, st) False then add_data_point (a, pk, st) (PBool False) 50 None ?c0 else ?c0"
  have sw_reset: "timed_device a pk st ot ?sw" "on_until None ?sw"
    using sw by (simp_all add: timed_device_def on_until_def reset_timer_def)
  have send: "dp_send en ct None (sw_state sw) (PBool False) True False (?s ?c0) = (Inr (), ?s (add_data_point (a, pk, st) (PBool False) 50 None ?c0))" for ct
    using timed_state_send [OF w sw] by simp
  have "switch_turn_off en ?ctx (sw, ?s ?c0) = (Inr (), ?sw, ?s ?added)"
    using switch_reset [OF w sw, of False] send
    by (cases "shows_other w (a, pk, st) False") (simp_all add: switch_turn_off_def on_exec_def Let_def split del: if_split)
  note ends = state_service_collected [OF run(1) this run(2)]
  show ?thesis
  proof (cases "shows_other w (a, pk, st) False")
    case True
    then have "map call_values calls = [(a, pk, [(st, PBool False)])]"
      by (intro call_values_one ends(3)) (simp add: single_plan)
    with True ends(1) sw_reset show ?thesis by simp
  next
    case False
    with ends(1,2) sw_reset show ?thesis by (simp add: no_plan)
  qed
qed

lemma timed_history:
  assumes "sv_enabled sv" and "on_until until sw" and "timed_device a pk st ot sw"
    and "\<And>cmd en w. (cmd, en, w) \<in> set h \<Longrightarrow> timed_world a pk st ot en w"
  shows "switch_calls sv ctx sw h = timed_calls a pk st ot until h"
  using assms(2-4)
proof (induction h arbitrary: sw until)
  case (Cons e h)
  obtain cmd en w where e: "e = (cmd, en, w)" by (cases e)
  have w: "timed_world a pk st ot en w" using Cons.prems(3) [of cmd en w] by (simp add: e)
  have IH: "on_until u sw' \<Longrightarrow> timed_device a pk st ot sw' \<Longrightarrow> switch_calls sv ctx sw' h = timed_calls a pk st ot u h" for u sw'
    using Cons.IH Cons.prems(3) by (meson list.set_intros(2))
  obtain r sw' w' calls where run: "state_service sv en (switch_command_effect en cmd) ctx sw w = (r, sw', w', calls)"
    by (metis prod.collapse)
  show ?case
  proof (cases cmd)
    case (On_For x)
    with timed_on_for [OF w Cons.prems(2) assms(1), of x ctx r sw' w' calls] run IH show ?thesis by (simp add: e)
  next
    case Plain_On
    with timed_plain_on [OF w Cons.prems(2,1) assms(1), of ctx r sw' w' calls] run IH show ?thesis by (simp add: e split: if_splits)
  next
    case Plain_Off
    with timed_plain_off [OF w Cons.prems(2) assms(1), of ctx r sw' w' calls] run IH show ?thesis by (simp add: e)
  qed
qed simp


definition sample_switch :: switch where
  "sample_switch = \<lparr>sw_state = Some (''S:1'', PK_VALUES, ''STATE''), sw_group_state = None,
     sw_on_time = \<lparr>ta_value = Some (''S:1'', PK_VALUES, ''ON_TIME''), ta_unit = None, ta_seconds = None\<rparr>, sw_timer = reset_timer\<rparr>"

definition switch_world :: "bool \<Rightarrow> world" where
  "switch_world on =
     (\<lambda>(_, _, parameter).
        if parameter = ''STATE''
        then sample_dp\<lparr>dp_kind := DpSwitch, dp_type := T_BOOL, dp_current_value := PBool on, dp_state_uncertain := False\<rparr>
        else sample_dp\<lparr>dp_kind := DpActionFloat\<rparr>, [])"

text \<open>On for a minute, on again twice, off, and off once more.\<close>

definition switch_history :: "(switch_command \<times> environment \<times> world) list" where
  "switch_history =
     [(On_For 60, sample_environment, switch_world False), (Plain_On, sample_environment\<lparr>en_now := 20\<rparr>, switch_world True),
      (Plain_On, sample_environment\<lparr>en_now := 21\<rparr>, switch_world True), (Plain_Off, sample_environment\<lparr>en_now := 22\<rparr>, switch_world True),
      (Plain_Off, sample_environment\<lparr>en_now := 23\<rparr>, switch_world False)]"


end
