(* ===== verification/Eviction.thy ===== *)
theory Eviction
  imports Prelude
begin

section \<open>Eviction of the oldest entries\<close>

text \<open>
  The dynamic stores bound their dictionaries the same way: \<open>sorted(d.items(), key=time)\<close>, then the
  keys of the first \<open>n\<close> entries are deleted. The lemmas give the size after the eviction and that
  exactly the oldest entries go.
\<close>

definition remove_keys :: "'k list \<Rightarrow> ('k, 'v) dict \<Rightarrow> ('k, 'v) dict" where
  "remove_keys ks d = foldl (\<lambda>d k. dict_del k d) d ks"

definition oldest :: "('v \<Rightarrow> time) \<Rightarrow> nat \<Rightarrow> ('k, 'v) dict \<Rightarrow> 'k list" where
  "oldest age n d = map fst (take n (sort_key (\<lambda>e. age (snd e)) d))"

lemma remove_keys_filter: "remove_keys ks d = filter (\<lambda>e. fst e \<notin> set ks) d"
proof (induction ks arbitrary: d)
  case (Cons k ks)
  have "remove_keys (k # ks) d = remove_keys ks (dict_del k d)" by (simp add: remove_keys_def)
  also have "\<dots> = filter (\<lambda>e. fst e \<notin> set ks) (filter (\<lambda>e. fst e \<noteq> k) d)"
    using Cons by (auto simp: dict_del_def AList.delete_eq split_beta intro!: filter_cong)
  also have "\<dots> = filter (\<lambda>e. fst e \<notin> set (k # ks)) d"
    by (auto intro!: filter_cong)
  finally show ?case .
qed (simp add: remove_keys_def)

lemma remove_keys_wf [simp, inv_intros]: "dict_wf d \<Longrightarrow> dict_wf (remove_keys ks d)"
  by (simp add: remove_keys_filter)

lemma remove_keys_get:
  "dict_get (remove_keys ks d) k = (if k \<in> set ks then None else dict_get d k)"
  unfolding remove_keys_filter dict_get_def by (induction d) auto

lemma length_remove_keys_le: "length (remove_keys ks d) \<le> length d"
  by (simp add: remove_keys_filter)

lemma oldest_facts:
  assumes wf: "dict_wf d"
  shows "distinct (oldest age n d)" and "set (oldest age n d) \<subseteq> fst ` set d"
    and "length (oldest age n d) = min n (length d)"
proof -
  let ?s = "sort_key (\<lambda>e. age (snd e)) d"
  have "distinct (map fst ?s)"
    using wf unfolding dict_wf_def by (metis mset_eq_imp_distinct_iff mset_map mset_sort)
  then show "distinct (oldest age n d)"
    unfolding oldest_def by (metis distinct_take take_map)
  have "set (take n ?s) \<subseteq> set d"
    using set_take_subset [of n ?s] by simp
  then show "set (oldest age n d) \<subseteq> fst ` set d"
    unfolding oldest_def set_map by (rule image_mono)
  show "length (oldest age n d) = min n (length d)"
    by (simp add: oldest_def min.commute)
qed

lemma length_remove_oldest:
  assumes wf: "dict_wf d"
  shows "length (remove_keys (oldest age n d) d) = length d - n"
proof -
  let ?o = "oldest age n d"
  note O = oldest_facts [OF wf]
  have inj: "inj_on fst (set d)" and dd: "distinct d"
    using wf unfolding dict_wf_def by (simp_all add: distinct_map)
  have "length (filter (\<lambda>e. fst e \<notin> set ?o) d) = card {e \<in> set d. fst e \<notin> set ?o}"
    using dd by (simp add: distinct_length_filter Int_commute Collect_conj_eq)
  also have "{e \<in> set d. fst e \<notin> set ?o} = set d - {e \<in> set d. fst e \<in> set ?o}" by auto
  also have "card \<dots> = card (set d) - card {e \<in> set d. fst e \<in> set ?o}"
    by (intro card_Diff_subset) auto
  also have "card {e \<in> set d. fst e \<in> set ?o} = card (set ?o)"
  proof -
    have "fst ` {e \<in> set d. fst e \<in> set ?o} = set ?o" using O(2) [of age n] by force
    moreover have "inj_on fst {e \<in> set d. fst e \<in> set ?o}" using inj by (rule inj_on_subset) auto
    ultimately show ?thesis by (metis card_image)
  qed
  also have "card (set ?o) = min n (length d)"
    using O(1,3) [of age n] by (simp add: distinct_card)
  finally show ?thesis
    using distinct_card [OF dd] by (simp add: remove_keys_filter)
qed

text \<open>The entries that are evicted are at most as recent as those that stay.\<close>

lemma evicted_older:
  assumes "(k, v) \<in> set (take n (sort_key (\<lambda>e. age (snd e)) d))"
    and "(k', v') \<in> set (drop n (sort_key (\<lambda>e. age (snd e)) d))"
  shows "age v \<le> age v'"
proof -
  let ?s = "sort_key (\<lambda>e. age (snd e)) d"
  have "sorted (map (\<lambda>e. age (snd e)) (take n ?s @ drop n ?s))" by simp
  then show ?thesis using assms unfolding map_append sorted_append by force
qed

lemma survivors_newer:
  assumes wf: "dict_wf d" and k: "k \<in> set (oldest age n d)" and v: "dict_get d k = Some v"
    and v': "dict_get (remove_keys (oldest age n d) d) k' = Some v'"
  shows "age v \<le> age v'"
proof -
  let ?s = "sort_key (\<lambda>e. age (snd e)) d"
  have ds: "set (take n ?s) \<union> set (drop n ?s) = set d"
    by (metis append_take_drop_id set_append set_sort)
  have k': "k' \<notin> set (oldest age n d)" "(k', v') \<in> set d"
    using v' wf by (auto simp: remove_keys_get dict_get_Some_iff split: if_splits)
  have "(k', v') \<in> set (drop n ?s)"
    using k' ds unfolding oldest_def by force
  moreover have "(k, v) \<in> set (take n ?s)"
  proof -
    from k obtain w where w: "(k, w) \<in> set (take n ?s)" unfolding oldest_def by force
    then have "(k, w) \<in> set d" using ds by blast
    with v wf have "w = v" by (simp flip: dict_get_Some_iff [OF wf])
    with w show ?thesis by simp
  qed
  ultimately show ?thesis by (rule evicted_older [rotated])
qed

end
