(* ===== verification/Command_Tracker.thy ===== *)
theory Command_Tracker
  imports Const Eviction
begin

section \<open>Command tracker (\<open>store/dynamic/command.py\<close>)\<close>

text \<open>
  \<open>CommandTracker\<close> remembers the values sent last, to recognise their confirmation. The entries
  expire after a time and their number is bounded. The converter of combined parameters
  (\<open>converter.py\<close>) is an argument of \<open>add_combined_parameter\<close>: it returns the values of the paramset, or
  nothing when the text cannot be parsed.
\<close>

subsection \<open>Definitions\<close>

record 'v cached_command =
  cc_value :: 'v
  cc_sent_at :: time

record 'v command_tracker =
  ct_interface_id :: string
  ct_evictions :: int
  ct_last_send :: "(data_point_key, 'v cached_command) dict"
  ct_warning_logged :: bool

definition tracker_init :: "string \<Rightarrow> 'v command_tracker" where
  "tracker_init interface_id =
     \<lparr>ct_interface_id = interface_id, ct_evictions = 0, ct_last_send = [], ct_warning_logged = False\<rparr>"

definition tracker_size :: "'v command_tracker \<Rightarrow> nat" where
  "tracker_size t = length (ct_last_send t)"

text \<open>
  \<open>changed_within_seconds\<close> compares \<open>timedelta.seconds\<close>, the seconds of the difference without its
  days: a difference of \<open>d\<close> seconds has \<open>floor d mod 86400\<close>.
\<close>

definition changed_within_seconds :: "time \<Rightarrow> time \<Rightarrow> int \<Rightarrow> bool" where
  "changed_within_seconds now last_change max_age =
     (if last_change = INIT_DATETIME then False
      else let delta = now - last_change in \<lfloor>delta\<rfloor> mod 86400 < max_age)"

definition tracker_record_eviction :: "int \<Rightarrow> 'v command_tracker \<Rightarrow> 'v command_tracker" where
  "tracker_record_eviction n t = t\<lparr>ct_evictions := ct_evictions t + n\<rparr>"

definition cleanup_expired :: "time \<Rightarrow> int \<Rightarrow> 'v command_tracker \<Rightarrow> int \<times> 'v command_tracker" where
  "cleanup_expired now max_age t =
     (let expired_keys = map fst (filter (\<lambda>(dpk, c). \<not> changed_within_seconds now (cc_sent_at c) max_age) (ct_last_send t));
          t1 = t\<lparr>ct_last_send := remove_keys expired_keys (ct_last_send t)\<rparr>
      in (int (length expired_keys),
          if expired_keys \<noteq> [] then tracker_record_eviction (int (length expired_keys)) t1 else t1))"

definition enforce_size_limit :: "'v command_tracker \<Rightarrow> 'v command_tracker" where
  "enforce_size_limit t =
     (let current_size = length (ct_last_send t);
          t1 = (if current_size \<ge> COMMAND_TRACKER_WARNING_THRESHOLD \<and> \<not> ct_warning_logged t
                then t\<lparr>ct_warning_logged := True\<rparr>
                else if current_size < COMMAND_TRACKER_WARNING_THRESHOLD then t\<lparr>ct_warning_logged := False\<rparr>
                else t)
      in if current_size \<ge> COMMAND_TRACKER_MAX_SIZE
         then let remove_count = max 1 (current_size div 5)
              in tracker_record_eviction (int remove_count)
                   (t1\<lparr>ct_last_send := remove_keys (oldest cc_sent_at remove_count (ct_last_send t)) (ct_last_send t)\<rparr>)
         else t1)"

text \<open>The two bounding steps every add operation starts with.\<close>

definition make_room :: "time \<Rightarrow> 'v command_tracker \<Rightarrow> 'v command_tracker" where
  "make_room now t =
     enforce_size_limit
       (if length (ct_last_send t) > LAST_COMMAND_SEND_TRACKER_CLEANUP_THRESHOLD
        then snd (cleanup_expired now LAST_COMMAND_SEND_STORE_TIMEOUT t) else t)"

definition make_dpk :: "'v command_tracker \<Rightarrow> string \<Rightarrow> paramset_key \<Rightarrow> string \<Rightarrow> data_point_key" where
  "make_dpk t channel_address pk parameter =
     \<lparr>dpk_interface_id = ct_interface_id t, dpk_channel_address = channel_address, dpk_paramset_key = pk,
      dpk_parameter = parameter\<rparr>"

definition add_put_paramset ::
  "time \<Rightarrow> string \<Rightarrow> paramset_key \<Rightarrow> (string, 'v) dict \<Rightarrow> 'v command_tracker \<Rightarrow>
   (data_point_key \<times> 'v) list \<times> 'v command_tracker" where
  "add_put_paramset now channel_address pk values t =
     (let t1 = make_room now t
      in (map (\<lambda>(p, v). (make_dpk t1 channel_address pk p, v)) values,
          t1\<lparr>ct_last_send := foldl (\<lambda>d (p, v). dict_set (make_dpk t1 channel_address pk p) \<lparr>cc_value = v, cc_sent_at = now\<rparr> d)
               (ct_last_send t1) values\<rparr>))"

definition add_combined_parameter ::
  "(string \<Rightarrow> 'v \<Rightarrow> (string, 'v) dict) \<Rightarrow> time \<Rightarrow> string \<Rightarrow> string \<Rightarrow> 'v \<Rightarrow> 'v command_tracker \<Rightarrow>
   (data_point_key \<times> 'v) list \<times> 'v command_tracker" where
  "add_combined_parameter convert now parameter channel_address combined_parameter t =
     (let values = convert parameter combined_parameter
      in if values \<noteq> [] then add_put_paramset now channel_address PK_VALUES values t else ([], t))"

definition add_set_value ::
  "string list \<Rightarrow> (string \<Rightarrow> 'v \<Rightarrow> (string, 'v) dict) \<Rightarrow> time \<Rightarrow> string \<Rightarrow> string \<Rightarrow> 'v \<Rightarrow> 'v command_tracker \<Rightarrow>
   (data_point_key \<times> 'v) list \<times> 'v command_tracker" where
  "add_set_value convertable convert now channel_address parameter v t =
     (if parameter \<in> set convertable then add_combined_parameter convert now parameter channel_address v t
      else let t1 = make_room now t; dpk = make_dpk t1 channel_address PK_VALUES parameter
           in ([(dpk, v)], t1\<lparr>ct_last_send := dict_set dpk \<lparr>cc_value = v, cc_sent_at = now\<rparr> (ct_last_send t1)\<rparr>))"

definition tracker_clear :: "'v command_tracker \<Rightarrow> 'v command_tracker" where
  "tracker_clear t = t\<lparr>ct_last_send := []\<rparr>"

definition remove_last_value_send :: "time \<Rightarrow> data_point_key \<Rightarrow> 'v option \<Rightarrow> int \<Rightarrow> 'v command_tracker \<Rightarrow> 'v command_tracker" where
  "remove_last_value_send now dpk v max_age t =
     (case dict_get (ct_last_send t) dpk of
        Some cached \<Rightarrow>
          if \<not> changed_within_seconds now (cc_sent_at cached) max_age \<or> v = Some (cc_value cached)
          then t\<lparr>ct_last_send := dict_del dpk (ct_last_send t)\<rparr> else t
      | None \<Rightarrow> t)"

definition get_last_value_send :: "time \<Rightarrow> data_point_key \<Rightarrow> int \<Rightarrow> 'v command_tracker \<Rightarrow> 'v option \<times> 'v command_tracker" where
  "get_last_value_send now dpk max_age t =
     (case dict_get (ct_last_send t) dpk of
        Some cached \<Rightarrow>
          if changed_within_seconds now (cc_sent_at cached) max_age then (Some (cc_value cached), t)
          else (None, remove_last_value_send now dpk None max_age t)
      | None \<Rightarrow> (None, t))"

subsection \<open>Sizes\<close>

lemma cleanup_size: "length (ct_last_send (snd (cleanup_expired now a t))) \<le> length (ct_last_send t)"
  by (simp add: cleanup_expired_def tracker_record_eviction_def Let_def length_remove_keys_le)

lemma cleanup_wf: "dict_wf (ct_last_send t) \<Longrightarrow> dict_wf (ct_last_send (snd (cleanup_expired now a t)))"
  by (simp add: cleanup_expired_def tracker_record_eviction_def Let_def)

lemma enforce_send:
  "ct_last_send (enforce_size_limit t) =
     (if 500 \<le> length (ct_last_send t)
      then remove_keys (oldest cc_sent_at (max 1 (length (ct_last_send t) div 5)) (ct_last_send t)) (ct_last_send t)
      else ct_last_send t)"
  by (simp add: enforce_size_limit_def tracker_record_eviction_def COMMAND_TRACKER_MAX_SIZE_def Let_def)

lemma enforce_size:
  assumes "dict_wf (ct_last_send t)"
  shows "length (ct_last_send (enforce_size_limit t)) =
    (let n = length (ct_last_send t) in if 500 \<le> n then n - max 1 (n div 5) else n)"
  using length_remove_oldest [OF assms, of cc_sent_at] by (simp add: enforce_send Let_def)

text \<open>
  A write adds its values after a fifth of the entries was removed, if there are 500 or more: so the size
  settles where a fifth of it is the size of a write.
\<close>

definition tracker_limit :: "nat \<Rightarrow> nat" where
  "tracker_limit k = max (499 + k) (5 * k)"

lemma room_arith: "n \<le> tracker_limit k \<Longrightarrow> (if 500 \<le> n then n - max 1 (n div 5) else n) + k \<le> tracker_limit k"
  unfolding tracker_limit_def max_def by (auto split: if_splits)

lemma make_room_wf: "dict_wf (ct_last_send t) \<Longrightarrow> dict_wf (ct_last_send (make_room now t))"
  by (simp add: make_room_def enforce_send cleanup_wf)

lemma make_room_size:
  assumes "dict_wf (ct_last_send t)" and "length (ct_last_send t) \<le> tracker_limit k"
  shows "length (ct_last_send (make_room now t)) + k \<le> tracker_limit k"
proof -
  let ?t = "if length (ct_last_send t) > LAST_COMMAND_SEND_TRACKER_CLEANUP_THRESHOLD
        then snd (cleanup_expired now LAST_COMMAND_SEND_STORE_TIMEOUT t) else t"
  have wf: "dict_wf (ct_last_send ?t)" using assms(1) by (simp add: cleanup_wf)
  have n: "length (ct_last_send ?t) \<le> tracker_limit k"
    using assms(2) cleanup_size [of now LAST_COMMAND_SEND_STORE_TIMEOUT t] by auto
  then show ?thesis
    unfolding make_room_def enforce_size [OF wf] Let_def by (rule room_arith)
qed

lemma foldl_set_size: "length (foldl (\<lambda>d (p, v). dict_set (f p) (g v) d) d vs) \<le> length d + length vs"
proof (induction vs arbitrary: d)
  case (Cons pv vs)
  obtain p v where pv: "pv = (p, v)" by force
  have "length (foldl (\<lambda>d (p, v). dict_set (f p) (g v) d) (dict_set (f p) (g v) d) vs) \<le> Suc (length d) + length vs"
    using Cons [of "dict_set (f p) (g v) d"] length_dict_set_le [of "f p" "g v" d] by linarith
  with pv show ?case by simp
qed simp

lemma foldl_set_wf: "dict_wf d \<Longrightarrow> dict_wf (foldl (\<lambda>d (p, v). dict_set (f p) (g v) d) d vs)"
  by (induction vs arbitrary: d) (auto simp: split_beta)

text \<open>The operations of the tracker and a history of them; \<open>values\<close> are paramsets of at most \<open>k\<close> entries.\<close>

datatype 'v tracker_call =
    Put_Paramset time string paramset_key "(string, 'v) dict"
  | Set_Value time string string 'v
  | Get_Last time data_point_key int
  | Remove_Last time data_point_key "'v option" int
  | Cleanup time int
  | Clear_Tracker

fun tracker_step :: "string list \<Rightarrow> (string \<Rightarrow> 'v \<Rightarrow> (string, 'v) dict) \<Rightarrow> 'v command_tracker \<Rightarrow> 'v tracker_call \<Rightarrow> 'v command_tracker" where
  "tracker_step cs cv t (Put_Paramset now a pk vs) = snd (add_put_paramset now a pk vs t)"
| "tracker_step cs cv t (Set_Value now a p v) = snd (add_set_value cs cv now a p v t)"
| "tracker_step cs cv t (Get_Last now dpk age) = snd (get_last_value_send now dpk age t)"
| "tracker_step cs cv t (Remove_Last now dpk v age) = remove_last_value_send now dpk v age t"
| "tracker_step cs cv t (Cleanup now age) = snd (cleanup_expired now age t)"
| "tracker_step cs cv t Clear_Tracker = tracker_clear t"

fun small_call :: "nat \<Rightarrow> 'v tracker_call \<Rightarrow> bool" where
  "small_call k (Put_Paramset now a pk vs) = (length vs \<le> k)"
| "small_call k _ = True"

definition tracker_bounded :: "nat \<Rightarrow> 'v command_tracker \<Rightarrow> bool" where
  "tracker_bounded k t \<longleftrightarrow> dict_wf (ct_last_send t) \<and> length (ct_last_send t) \<le> tracker_limit k"

lemma add_put_bounded:
  assumes "tracker_bounded k t" and "length vs \<le> k"
  shows "tracker_bounded k (snd (add_put_paramset now a pk vs t))"
proof -
  let ?t = "make_room now t"
  have t: "length (ct_last_send ?t) + k \<le> tracker_limit k" "dict_wf (ct_last_send ?t)"
    using make_room_size [of t k now] make_room_wf [of t now] assms by (simp_all add: tracker_bounded_def)
  have s: "ct_last_send (snd (add_put_paramset now a pk vs t)) =
      foldl (\<lambda>d (p, v). dict_set (make_dpk ?t a pk p) \<lparr>cc_value = v, cc_sent_at = now\<rparr> d) (ct_last_send ?t) vs"
    by (simp add: add_put_paramset_def Let_def)
  have "length (ct_last_send (snd (add_put_paramset now a pk vs t))) \<le> length (ct_last_send ?t) + length vs"
    unfolding s by (rule foldl_set_size)
  moreover have "dict_wf (ct_last_send (snd (add_put_paramset now a pk vs t)))"
    unfolding s using t(2) by (rule foldl_set_wf)
  ultimately show ?thesis using t(1) assms(2) by (simp add: tracker_bounded_def)
qed

lemma tracker_step_bounded:
  assumes b: "tracker_bounded k t" and c: "small_call k c" and k: "1 \<le> k"
    and cv: "\<And>p v. length (cv p v) \<le> k"
  shows "tracker_bounded k (tracker_step cs cv t c)"
proof -
  have del: "length (dict_del d (ct_last_send t)) \<le> tracker_limit k" for d
    using b length_dict_del_le [of d "ct_last_send t"] unfolding tracker_bounded_def by linarith
  have rm: "tracker_bounded k (remove_last_value_send now d v a t)" for now d v a
    using b del by (auto simp: remove_last_value_send_def tracker_bounded_def split: option.split)
  show ?thesis
  proof (cases c)
    case (Set_Value now a p v)
    let ?t = "make_room now t"
    have t: "length (ct_last_send ?t) + k \<le> tracker_limit k" "dict_wf (ct_last_send ?t)"
      using make_room_size [of t k now] make_room_wf [of t now] b by (simp_all add: tracker_bounded_def)
    show ?thesis
      using t k length_dict_set_le [of "make_dpk ?t a PK_VALUES p" "\<lparr>cc_value = v, cc_sent_at = now\<rparr>" "ct_last_send ?t"]
        add_put_bounded [OF b cv] b
      by (auto simp: Set_Value add_set_value_def add_combined_parameter_def Let_def tracker_bounded_def)
  next
    case (Put_Paramset now a pk vs)
    then show ?thesis using add_put_bounded [OF b] c by simp
  next
    case (Cleanup now a)
    then show ?thesis
      using b cleanup_size [of now a t] cleanup_wf [of t now a] by (simp add: tracker_bounded_def)
  qed (use b rm in
      \<open>auto simp: get_last_value_send_def tracker_clear_def tracker_bounded_def split: option.split\<close>)
qed

lemma tracker_run_bounded:
  assumes "1 \<le> k" "\<And>p v. length (cv p v) \<le> k"
  shows "tracker_bounded k t \<Longrightarrow> list_all (small_call k) calls \<Longrightarrow> tracker_bounded k (foldl (tracker_step cs cv) t calls)"
  by (induction calls arbitrary: t) (simp_all add: tracker_step_bounded [OF _ _ assms])

subsection \<open>Properties\<close>



text \<open>
  What leaves the entry of a data point alone that was sent at a time: writes of other data points while the
  tracker is not full, and any lookup, other confirmation or cleanup before the entry expires.
\<close>

definition young :: "time \<Rightarrow> time \<Rightarrow> int \<Rightarrow> bool" where
  "young sent now max_age \<longleftrightarrow> sent \<le> now \<and> now - sent < of_int max_age \<and> now - sent < 86400"

lemma young_changed: "sent \<noteq> INIT_DATETIME \<Longrightarrow> young sent now max_age \<Longrightarrow> changed_within_seconds now sent max_age"
  by (auto simp: young_def changed_within_seconds_def Let_def floor_less_iff)

fun leaves_alone :: "string list \<Rightarrow> (string \<Rightarrow> 'v \<Rightarrow> (string, 'v) dict) \<Rightarrow> time \<Rightarrow> data_point_key \<Rightarrow> 'v \<Rightarrow> 'v command_tracker \<Rightarrow>
    'v tracker_call \<Rightarrow> bool" where
  "leaves_alone cs cv sent dpk v t (Put_Paramset now a pk vs) =
     (tracker_size t < 500 \<and> young sent now LAST_COMMAND_SEND_STORE_TIMEOUT \<and> dpk \<notin> make_dpk t a pk ` fst ` set vs)"
| "leaves_alone cs cv sent dpk v t (Set_Value now a p x) =
     (tracker_size t < 500 \<and> young sent now LAST_COMMAND_SEND_STORE_TIMEOUT \<and>
      (if p \<in> set cs then dpk \<notin> make_dpk t a PK_VALUES ` fst ` set (cv p x) else dpk \<noteq> make_dpk t a PK_VALUES p))"
| "leaves_alone cs cv sent dpk v t (Get_Last now d age) = (d = dpk \<longrightarrow> young sent now age)"
| "leaves_alone cs cv sent dpk v t (Remove_Last now d u age) = (d = dpk \<longrightarrow> young sent now age \<and> u \<noteq> Some v)"
| "leaves_alone cs cv sent dpk v t (Cleanup now age) = young sent now age"
| "leaves_alone cs cv sent dpk v t Clear_Tracker = False"

fun all_leave_alone :: "string list \<Rightarrow> (string \<Rightarrow> 'v \<Rightarrow> (string, 'v) dict) \<Rightarrow> time \<Rightarrow> data_point_key \<Rightarrow> 'v \<Rightarrow> 'v command_tracker \<Rightarrow>
    'v tracker_call list \<Rightarrow> bool" where
  "all_leave_alone cs cv sent dpk v t [] = True"
| "all_leave_alone cs cv sent dpk v t (c # calls) =
     (leaves_alone cs cv sent dpk v t c \<and> all_leave_alone cs cv sent dpk v (tracker_step cs cv t c) calls)"

definition tracked :: "data_point_key \<Rightarrow> 'v \<Rightarrow> time \<Rightarrow> 'v command_tracker \<Rightarrow> bool" where
  "tracked dpk v sent t \<longleftrightarrow> dict_wf (ct_last_send t) \<and> dict_get (ct_last_send t) dpk = Some \<lparr>cc_value = v, cc_sent_at = sent\<rparr>"

lemma make_room_dpk [simp]: "make_dpk (make_room now t) a pk p = make_dpk t a pk p"
  by (simp add: make_dpk_def make_room_def enforce_size_limit_def cleanup_expired_def tracker_record_eviction_def Let_def)

lemma cleanup_tracked:
  assumes "tracked dpk v sent t" and "sent \<noteq> INIT_DATETIME" and "young sent now age"
  shows "tracked dpk v sent (snd (cleanup_expired now age t))"
proof -
  let ?old = "map fst (filter (\<lambda>(d, c). \<not> changed_within_seconds now (cc_sent_at c) age) (ct_last_send t))"
  have "dpk \<notin> set ?old"
  proof
    assume "dpk \<in> set ?old"
    then obtain c where "(dpk, c) \<in> set (ct_last_send t)" "\<not> changed_within_seconds now (cc_sent_at c) age" by auto
    then show False
      using assms(1) young_changed [OF assms(2,3)] dict_get_Some_iff [of "ct_last_send t" dpk c] by (auto simp: tracked_def)
  qed
  then show ?thesis
    using assms(1) by (auto simp: tracked_def cleanup_expired_def tracker_record_eviction_def Let_def remove_keys_get)
qed

lemma make_room_tracked:
  assumes "tracked dpk v sent t" and "sent \<noteq> INIT_DATETIME" and "young sent now LAST_COMMAND_SEND_STORE_TIMEOUT" and "tracker_size t < 500"
  shows "tracked dpk v sent (make_room now t)"
proof -
  have "length (ct_last_send (snd (cleanup_expired now LAST_COMMAND_SEND_STORE_TIMEOUT t))) < 500"
    using assms(4) cleanup_size [of now LAST_COMMAND_SEND_STORE_TIMEOUT t] unfolding tracker_size_def by linarith
  then show ?thesis
    using cleanup_tracked [OF assms(1-3)] assms(1,4) by (simp add: tracked_def make_room_def enforce_send tracker_size_def)
qed

lemma foldl_set_other: "k \<notin> f ` fst ` set vs \<Longrightarrow> dict_get (foldl (\<lambda>d (p, v). dict_set (f p) (g v) d) d vs) k = dict_get d k"
  by (induction vs arbitrary: d) auto

lemma put_tracked:
  assumes "tracked dpk v sent (make_room now t)" and "dpk \<notin> make_dpk t a pk ` fst ` set vs"
  shows "tracked dpk v sent (snd (add_put_paramset now a pk vs t))"
  using assms foldl_set_other [of dpk "make_dpk t a pk" vs "\<lambda>v. \<lparr>cc_value = v, cc_sent_at = now\<rparr>"]
    foldl_set_wf [of _ "make_dpk t a pk" "\<lambda>v. \<lparr>cc_value = v, cc_sent_at = now\<rparr>" vs]
  by (simp add: tracked_def add_put_paramset_def Let_def)

lemma step_tracked:
  assumes t: "tracked dpk v sent t" and sent: "sent \<noteq> INIT_DATETIME" and c: "leaves_alone cs cv sent dpk v t c"
  shows "tracked dpk v sent (tracker_step cs cv t c)"
proof (cases c)
  case (Put_Paramset now a pk vs)
  with assms show ?thesis by (auto intro!: put_tracked make_room_tracked)
next
  case (Set_Value now a p x)
  have "tracked dpk v sent (make_room now t)"
    using assms by (intro make_room_tracked) (simp_all add: Set_Value)
  with Set_Value c t show ?thesis
    by (auto simp: add_set_value_def add_combined_parameter_def Let_def tracked_def [of _ _ _ "_ \<lparr>ct_last_send := _\<rparr>"] intro: put_tracked)
      (simp_all add: tracked_def)
next
  case (Get_Last now d age)
  with c t young_changed [OF sent, of now age] show ?thesis
    by (cases "d = dpk") (auto simp: get_last_value_send_def remove_last_value_send_def tracked_def split: option.split)
next
  case (Remove_Last now d u age)
  with c t young_changed [OF sent, of now age] show ?thesis
    by (cases "d = dpk") (auto simp: remove_last_value_send_def tracked_def split: option.split)
next
  case (Cleanup now age)
  with assms cleanup_tracked show ?thesis by simp
next
  case Clear_Tracker
  with c show ?thesis by simp
qed

lemma run_tracked:
  "tracked dpk v sent t \<Longrightarrow> sent \<noteq> INIT_DATETIME \<Longrightarrow> all_leave_alone cs cv sent dpk v t calls \<Longrightarrow>
    tracked dpk v sent (foldl (tracker_step cs cv) t calls)"
  by (induction calls arbitrary: t) (simp_all add: step_tracked)

text \<open>
  C19: Tracking a sent value. A value set for a plain parameter is returned by \<open>get_last_value_send\<close>
  while fewer than \<open>max_age\<close> seconds have passed (within the first day), after any operations that leave its entry
  alone: writes of other data points while the tracker holds fewer than 500 entries, lookups, cleanups and
  confirmations of other data points or of another value. A confirmation with a different value changes nothing;
  one with the value that was sent removes the entry of this data point and no other. After \<open>max_age\<close> seconds the
  lookup returns nothing and deletes the entry.
\<close>

theorem tracker_roundtrip:
  assumes "parameter \<notin> set cs" and "0 < now" and "now \<le> now'" and "now' - now < 86400" and "dict_wf (ct_last_send t)"
    and t': "t' = snd (add_set_value cs cv now a parameter v t)" and dpk: "dpk = make_dpk t a PK_VALUES parameter"
    and between: "all_leave_alone cs cv now dpk v t' calls" and t'': "t'' = foldl (tracker_step cs cv) t' calls"
  shows "(now' - now < of_int max_age \<longrightarrow>
            get_last_value_send now' dpk max_age t'' = (Some v, t'') \<and>
            (\<forall>u. u \<noteq> v \<longrightarrow> remove_last_value_send now' dpk (Some u) max_age t'' = t'')) \<and>
         (of_int max_age \<le> now' - now \<longrightarrow>
            fst (get_last_value_send now' dpk max_age t'') = None \<and>
            dict_get (ct_last_send (snd (get_last_value_send now' dpk max_age t''))) dpk = None) \<and>
         fst (get_last_value_send now' dpk max_age (remove_last_value_send now' dpk (Some v) max_age t'')) = None \<and>
         (\<forall>d. d \<noteq> dpk \<longrightarrow> dict_get (ct_last_send (remove_last_value_send now' dpk (Some v) max_age t'')) d =
                          dict_get (ct_last_send t'') d)"
proof -
  have sent: "now \<noteq> INIT_DATETIME" using assms(2) by (simp add: INIT_DATETIME_def)
  have "tracked dpk v now t'"
    using assms(1,5) make_room_wf [of t now] by (simp add: t' dpk tracked_def add_set_value_def Let_def)
  from run_tracked [OF this sent between] have tr: "tracked dpk v now t''" by (simp add: t'')
  have m: "\<lfloor>now' - now\<rfloor> mod 86400 = \<lfloor>now' - now\<rfloor>"
    using assms by (intro mod_pos_pos_trivial) (auto simp: floor_less_iff)
  have c: "changed_within_seconds now' now max_age \<longleftrightarrow> now' - now < of_int max_age"
    using sent m by (simp add: changed_within_seconds_def Let_def floor_less_iff)
  show ?thesis
    using tr c by (auto simp: tracked_def get_last_value_send_def remove_last_value_send_def)
qed

text \<open>A switch is turned on; before its confirmation another one is set, and a confirmation of its old state arrives.\<close>

theorem tracker_roundtrip_witness:
  "let t' = snd (add_set_value [] (\<lambda>_ _. []) 100 ''A:1'' ''STATE'' True (tracker_init ''i''));
       t'' = foldl (tracker_step [] (\<lambda>_ _. [])) t' [Set_Value 105 ''B:1'' ''STATE'' False,
               Remove_Last 110 (make_dpk t' ''A:1'' PK_VALUES ''STATE'') (Some False) 60]
   in get_last_value_send 130 (make_dpk t' ''A:1'' PK_VALUES ''STATE'') 60 t'' = (Some True, t'')"
proof -
  let ?t = "tracker_init ''i'' :: bool command_tracker" and ?cv = "\<lambda>_ _. [] :: (string, bool) dict"
  let ?t' = "snd (add_set_value [] ?cv 100 ''A:1'' ''STATE'' True ?t)"
  let ?d = "make_dpk ?t ''A:1'' PK_VALUES ''STATE''"
  let ?calls = "[Set_Value 105 ''B:1'' ''STATE'' False, Remove_Last 110 ?d (Some False) 60]"
  have d: "make_dpk ?t' ''A:1'' PK_VALUES ''STATE'' = ?d" and n: "tracker_size ?t' = 1"
    by (simp_all add: make_dpk_def add_set_value_def tracker_init_def make_room_def enforce_size_limit_def tracker_size_def dict_set_def
        LAST_COMMAND_SEND_TRACKER_CLEANUP_THRESHOLD_def COMMAND_TRACKER_WARNING_THRESHOLD_def COMMAND_TRACKER_MAX_SIZE_def Let_def)
  have i: "ct_interface_id ?t' = ''i''"
    using d by (simp add: make_dpk_def tracker_init_def)
  have "all_leave_alone [] ?cv 100 ?d True ?t' ?calls"
    using n by (simp add: young_def LAST_COMMAND_SEND_STORE_TIMEOUT_def) (simp add: make_dpk_def)
  from tracker_roundtrip [OF _ _ _ _ _ refl refl this refl, of 130 60] show ?thesis
    unfolding Let_def d by (simp add: tracker_init_def)
qed

text \<open>
  The age test forgets whole days. An entry is as fresh \<open>d\<close> days later as it was on the first
  day, so a value that was sent \<open>d\<close> days and less than a minute ago is reported as sent just now.
\<close>

theorem tracker_day_wraparound:
  assumes "sent \<noteq> INIT_DATETIME" and "sent \<le> now" and "now - sent < of_int max_age" and "max_age \<le> 86400"
    and "dict_get (ct_last_send t) dpk = Some \<lparr>cc_value = v, cc_sent_at = sent\<rparr>"
  shows "get_last_value_send (now + 86400 * real d) dpk max_age t = (Some v, t)"
proof -
  have "\<lfloor>now + 86400 * real d - sent\<rfloor> = \<lfloor>now - sent\<rfloor> + 86400 * int d"
  proof -
    have "now + 86400 * real d - sent = (now - sent) + of_int (86400 * int d)" by simp
    then show ?thesis by (metis floor_add_int)
  qed
  then have "\<lfloor>now + 86400 * real d - sent\<rfloor> mod 86400 = \<lfloor>now - sent\<rfloor> mod 86400" by simp
  also have "\<dots> = \<lfloor>now - sent\<rfloor>"
    using assms(2-4) by (intro mod_pos_pos_trivial) (auto simp: floor_less_iff)
  finally have "changed_within_seconds (now + 86400 * real d) sent max_age"
    using assms(1,3) by (simp add: changed_within_seconds_def Let_def floor_less_iff)
  then show ?thesis using assms(5) by (simp add: get_last_value_send_def)
qed

theorem tracker_day_wraparound_witness:
  "let t = snd (add_set_value [] (\<lambda>_ _. []) 100 ''A:1'' ''STATE'' True (tracker_init ''i''))
   in get_last_value_send (105 + 86400 * real 3) (make_dpk t ''A:1'' PK_VALUES ''STATE'') 60 t = (Some True, t)"
proof -
  let ?t = "snd (add_set_value [] (\<lambda>_ _. []) 100 ''A:1'' ''STATE'' True (tracker_init ''i''))"
  have "dict_get (ct_last_send ?t) (make_dpk ?t ''A:1'' PK_VALUES ''STATE'') = Some \<lparr>cc_value = True, cc_sent_at = 100\<rparr>"
    by (simp add: add_set_value_def make_dpk_def Let_def)
  from tracker_day_wraparound [OF _ _ _ _ this, of 105 60 3] show ?thesis
    unfolding Let_def by (simp add: INIT_DATETIME_def)
qed

end
