(* ===== verification/Value_Cache.thy ===== *)
theory Value_Cache
  imports Collector Command_Tracker
begin

section \<open>Loading values\<close>

text \<open>
  How data points get the values the backend holds: \<open>CentralDataCache\<close> of \<open>store/dynamic/data.py\<close>, filled with
  the values of all devices of an interface at once, \<open>_ValueCache\<close> of \<open>model/device.py\<close>, which asks for
  single values and remembers them for a short time, and \<open>load_data_point_value\<close> of \<open>model/data_point.py\<close>. What the
  client answers is a parameter. The semaphore of the value cache lets one load run at a time.
\<close>

subsection \<open>The cache of all values\<close>

record cache_statistics =
  cs_hits :: int
  cs_misses :: int
  cs_evictions :: int

definition hit_rate :: "cache_statistics \<Rightarrow> real" where
  "hit_rate s = (let total = cs_hits s + cs_misses s in if total = 0 then 100 else of_int (cs_hits s) / of_int total * 100)"

type_synonym device_data = "(string, pyval) dict"

record data_cache =
  dc_values :: "(interface, device_data) dict"
  dc_refreshed :: "(interface, time) dict"
  dc_stats :: cache_statistics
  dc_initializing :: bool

definition data_cache_init :: data_cache where
  "data_cache_init = \<lparr>dc_values = [], dc_refreshed = [], dc_stats = \<lparr>cs_hits = 0, cs_misses = 0, cs_evictions = 0\<rparr>, dc_initializing = True\<rparr>"

definition refreshed_at :: "interface \<Rightarrow> data_cache \<Rightarrow> time" where
  "refreshed_at i c = (case dict_get (dc_refreshed c) i of None \<Rightarrow> INIT_DATETIME | Some t \<Rightarrow> t)"

definition cache_size :: "data_cache \<Rightarrow> nat" where
  "cache_size c = sum_list (map (\<lambda>(_, d). length d) (dc_values c))"

definition add_data :: "time \<Rightarrow> interface \<Rightarrow> device_data \<Rightarrow> data_cache \<Rightarrow> data_cache" where
  "add_data now i data c = c\<lparr>dc_values := dict_set i data (dc_values c), dc_refreshed := dict_set i now (dc_refreshed c)\<rparr>"

definition clear_interface :: "interface \<Rightarrow> data_cache \<Rightarrow> data_cache" where
  "clear_interface i c = c\<lparr>dc_values := dict_set i [] (dc_values c), dc_refreshed := dict_set i INIT_DATETIME (dc_refreshed c)\<rparr>"

text \<open>\<open>clear()\<close> without an interface: those of the devices.\<close>

definition clear_data :: "interface list \<Rightarrow> interface option \<Rightarrow> data_cache \<Rightarrow> data_cache" where
  "clear_data interfaces i c = (case i of Some i \<Rightarrow> clear_interface i c | None \<Rightarrow> fold clear_interface interfaces c)"

definition set_initialization_complete :: "data_cache \<Rightarrow> data_cache" where
  "set_initialization_complete c = c\<lparr>dc_initializing := False\<rparr>"

definition cached_data :: "interface \<Rightarrow> data_cache \<Rightarrow> device_data" where
  "cached_data i c = (case dict_get (dc_values c) i of None \<Rightarrow> [] | Some d \<Rightarrow> d)"

definition cache_is_empty :: "time \<Rightarrow> interface \<Rightarrow> data_cache \<Rightarrow> bool \<times> data_cache" where
  "cache_is_empty now i c =
     (if cached_data i c = [] then (True, c)
      else if dc_initializing c then (False, c)
      else if \<not> changed_within_seconds now (refreshed_at i c) MAX_CACHE_AGE
      then (True, clear_interface i (c\<lparr>dc_stats := (dc_stats c)\<lparr>cs_evictions := cs_evictions (dc_stats c) + int (length (cached_data i c))\<rparr>\<rparr>))
      else (False, c))"

definition cleanup_data :: "time \<Rightarrow> data_cache \<Rightarrow> data_cache" where
  "cleanup_data now c = fold (\<lambda>i c. snd (cache_is_empty now i c)) (dict_keys (dc_values c)) c"

fun interface_text :: "interface \<Rightarrow> string" where
  "interface_text BIDCOS_RF = ''BidCos-RF''"
| "interface_text BIDCOS_WIRED = ''BidCos-Wired''"
| "interface_text CCU_JACK = ''CCU-Jack''"
| "interface_text CUXD = ''CUxD''"
| "interface_text HMIP_RF = ''HmIP-RF''"
| "interface_text VIRTUAL_DEVICES = ''VirtualDevices''"

definition data_key :: "interface \<Rightarrow> string \<Rightarrow> string \<Rightarrow> string" where
  "data_key i address parameter = interface_text i @ ''.'' @ address @ ''.'' @ parameter"

definition record_hit :: "data_cache \<Rightarrow> data_cache" where
  "record_hit c = c\<lparr>dc_stats := (dc_stats c)\<lparr>cs_hits := cs_hits (dc_stats c) + 1\<rparr>\<rparr>"

definition record_miss :: "data_cache \<Rightarrow> data_cache" where
  "record_miss c = c\<lparr>dc_stats := (dc_stats c)\<lparr>cs_misses := cs_misses (dc_stats c) + 1\<rparr>\<rparr>"

definition get_data :: "time \<Rightarrow> interface \<Rightarrow> string \<Rightarrow> string \<Rightarrow> data_cache \<Rightarrow> pyval \<times> data_cache" where
  "get_data now i address parameter c =
     (case cache_is_empty now i c of
        (none, c) \<Rightarrow>
          if \<not> none
          then (let v = (case dict_get (cached_data i c) (data_key i address parameter) of None \<Rightarrow> NO_CACHE_ENTRY | Some v \<Rightarrow> v)
                in (v, if v \<noteq> NO_CACHE_ENTRY then record_hit c else record_miss c))
          else (NO_CACHE_ENTRY, record_miss c))"

text \<open>\<open>load\<close>: the clients in their order; an answer has the time at which it arrived. It stops at the first fresh interface.\<close>

definition fetched_data :: "time \<Rightarrow> interface \<Rightarrow> device_data \<Rightarrow> data_cache \<Rightarrow> data_cache" where
  "fetched_data t i data c = (if data \<noteq> [] then add_data t i data c else c)"

fun load_data ::
  "time \<Rightarrow> bool \<Rightarrow> interface option \<Rightarrow> (interface \<Rightarrow> time \<times> (service_error + device_data)) \<Rightarrow> interface list \<Rightarrow> data_cache \<Rightarrow>
   (service_error + unit) \<times> data_cache" where
  "load_data now direct_call only answer [] c = (Inr (), c)"
| "load_data now direct_call only answer (i # is) c =
     (if only \<noteq> None \<and> only \<noteq> Some i then load_data now direct_call only answer is c
      else if \<not> direct_call \<and> changed_within_seconds now (refreshed_at i c) (MAX_CACHE_AGE div 3) then (Inr (), c)
      else case answer i of
             (t, Inl e) \<Rightarrow> (Inl e, c)
           | (t, Inr data) \<Rightarrow> load_data t direct_call only answer is (fetched_data t i data c))"

subsection \<open>The values of a device\<close>

type_synonym value_cache = "(data_point_key, pyval \<times> time) dict"

definition NO_VALUE_CACHE_ENTRY :: pyval where
  "NO_VALUE_CACHE_ENTRY = PStr ''NO_VALUE_CACHE_ENTRY''"

definition entry_is_valid :: "time \<Rightarrow> pyval \<times> time \<Rightarrow> bool" where
  "entry_is_valid now e \<longleftrightarrow> fst e \<noteq> NO_CACHE_ENTRY \<and> changed_within_seconds now (snd e) MAX_CACHE_AGE"

definition value_from_cache :: "time \<Rightarrow> interface \<Rightarrow> data_point_key \<Rightarrow> data_cache \<times> value_cache \<Rightarrow> pyval \<times> data_cache \<times> value_cache" where
  "value_from_cache now i dpk cs =
     (case cs of (dc, vc) \<Rightarrow>
        let (global, dc) = (if dpk_paramset_key dpk = PK_VALUES then get_data now i (dpk_channel_address dpk) (dpk_parameter dpk) dc
                            else (NO_CACHE_ENTRY, dc))
        in if global \<noteq> NO_CACHE_ENTRY then (global, dc, vc)
           else case dict_get vc dpk of
                  None \<Rightarrow> (NO_CACHE_ENTRY, dc, vc)
                | Some e \<Rightarrow> (if entry_is_valid now e then fst e else NO_CACHE_ENTRY, dc, vc))"

definition skips_getvalue :: "interface \<Rightarrow> bool" where
  "skips_getvalue i \<longleftrightarrow> i \<in> {VIRTUAL_DEVICES, BIDCOS_RF, CUXD, CCU_JACK}"

text \<open>What the client answers for a single value and for a paramset.\<close>

record backend_values =
  bv_value :: "data_point_key \<Rightarrow> service_error + pyval"
  bv_paramset :: "string \<Rightarrow> paramset_key \<Rightarrow> service_error + (string, pyval) dict"

definition values_for_cache :: "bool \<Rightarrow> interface \<Rightarrow> backend_values \<Rightarrow> data_point_key \<Rightarrow> service_error + (string, pyval) dict" where
  "values_for_cache available i bv dpk =
     (if \<not> available then Inr []
      else if dpk_paramset_key dpk = PK_VALUES
      then if skips_getvalue i then Inr [(dpk_parameter dpk, NO_VALUE_CACHE_ENTRY)]
           else map_sum id (\<lambda>v. [(dpk_parameter dpk, v)]) (bv_value bv dpk)
      else bv_paramset bv (dpk_channel_address dpk) (dpk_paramset_key dpk))"

definition visible_value :: "pyval \<Rightarrow> pyval" where
  "visible_value v = (if v = NO_VALUE_CACHE_ENTRY then NO_CACHE_ENTRY else v)"

text \<open>The answer of the backend arrives at \<open>later\<close>.\<close>

definition get_value ::
  "time \<Rightarrow> time \<Rightarrow> bool \<Rightarrow> bool \<Rightarrow> interface \<Rightarrow> backend_values \<Rightarrow> data_point_key \<Rightarrow> data_cache \<times> value_cache \<Rightarrow>
   (service_error + pyval) \<times> data_cache \<times> value_cache" where
  "get_value now later direct_call available i bv dpk cs =
     (let (cached, cs) = (if direct_call then (NO_CACHE_ENTRY, cs) else value_from_cache now i dpk cs)
      in if cached \<noteq> NO_CACHE_ENTRY then (Inr (visible_value cached), cs)
         else case (case values_for_cache available i bv dpk of
                      Inl (HomematicException _) \<Rightarrow> Inr [(dpk_parameter dpk, NO_VALUE_CACHE_ENTRY)]
                    | x \<Rightarrow> x) of
                Inl e \<Rightarrow> (Inl e, cs)
              | Inr values \<Rightarrow>
                  (Inr (case dict_get values (dpk_parameter dpk) of None \<Rightarrow> PNone | Some v \<Rightarrow> visible_value v),
                   fst cs, foldl (\<lambda>vc (p, v). dict_set (dpk\<lparr>dpk_parameter := p\<rparr>) (v, later) vc) (snd cs) values))"

subsection \<open>Loading a data point\<close>

record load_request =
  lr_ignored :: bool
  lr_initial :: bool
  lr_direct :: bool
  lr_available :: bool
  lr_interface :: interface
  lr_dpk :: data_point_key
  lr_status_dpk :: "data_point_key option"

text \<open>The status of a data point is read before its value is written.\<close>

definition load_status ::
  "time \<Rightarrow> time \<Rightarrow> backend_values \<Rightarrow> load_request \<Rightarrow> data_point \<times> data_cache \<times> value_cache \<Rightarrow>
   (service_error + dp_event list) \<times> data_point \<times> data_cache \<times> value_cache" where
  "load_status now later bv rq s =
     (case s of (d, cs) \<Rightarrow>
        (case lr_status_dpk rq of
           None \<Rightarrow> (Inr [], d, cs)
         | Some dpk \<Rightarrow>
             (case get_value now later (lr_direct rq) (lr_available rq) (lr_interface rq) bv dpk cs of
                (Inl e, cs) \<Rightarrow> (Inl e, d, cs)
              | (Inr v, cs) \<Rightarrow>
                  if v \<noteq> PNone \<and> v \<noteq> NO_CACHE_ENTRY
                  then (case update_status v d of (d, out) \<Rightarrow> (Inr out, d, cs))
                  else (Inr [], d, cs))))"

definition load_data_point_value ::
  "(real \<Rightarrow> string) \<Rightarrow> time \<Rightarrow> time \<Rightarrow> backend_values \<Rightarrow> load_request \<Rightarrow> data_point \<times> data_cache \<times> value_cache \<Rightarrow>
   (service_error + dp_event list) \<times> data_point \<times> data_cache \<times> value_cache" where
  "load_data_point_value ft now later bv rq s =
     (case s of (d, dc, vc) \<Rightarrow>
        let write = (\<lambda>t v d. case write_value ft t v d of (d, out, _) \<Rightarrow> (d, out))
        in if lr_ignored rq \<and> lr_initial rq
           then (if dpk_paramset_key (lr_dpk rq) = PK_VALUES
                 then (case get_data now (lr_interface rq) (dpk_channel_address (lr_dpk rq)) (dpk_parameter (lr_dpk rq)) dc of
                         (v, dc) \<Rightarrow>
                           if v \<noteq> NO_CACHE_ENTRY then (case write now v d of (d, out) \<Rightarrow> (Inr out, d, dc, vc)) else (Inr [], d, dc, vc))
                 else (Inr [], d, dc, vc))
           else if \<not> lr_direct rq \<and> changed_within_seconds now (dp_refreshed_at d) MAX_CACHE_AGE then (Inr [], s)
           else if \<not> is_readable d then (Inr [], s)
           else case get_value now later (lr_direct rq) (lr_available rq) (lr_interface rq) bv (lr_dpk rq) (dc, vc) of
                  (Inl e, cs) \<Rightarrow> (Inl e, d, cs)
                | (Inr v, cs) \<Rightarrow>
                    (case load_status now later bv rq (d, cs) of
                       (Inl e, s) \<Rightarrow> (Inl e, s)
                     | (Inr out, d, cs) \<Rightarrow>
                         if lr_status_dpk rq \<noteq> None \<and> dp_status_value d = Some UNKNOWN \<and> INIT_DATETIME < dp_refreshed_at d
                         then (Inr out, d, cs)
                         else (case write later v d of (d, out') \<Rightarrow> (Inr (out @ out'), d, cs))))"

subsection \<open>Where cached values come from\<close>

datatype cache_op =
    AddData time interface device_data
  | ClearData "interface list" "interface option"
  | CleanupData time
  | GetData time interface string string
  | InitializationComplete

fun run_cache_op :: "data_cache \<Rightarrow> cache_op \<Rightarrow> data_cache" where
  "run_cache_op c (AddData t i d) = add_data t i d c"
| "run_cache_op c (ClearData is i) = clear_data is i c"
| "run_cache_op c (CleanupData t) = cleanup_data t c"
| "run_cache_op c (GetData t i a p) = snd (get_data t i a p c)"
| "run_cache_op c InitializationComplete = set_initialization_complete c"

text \<open>The data added last for an interface since it was cleared, and when.\<close>

fun latest_op :: "interface \<Rightarrow> (time \<times> device_data) option \<Rightarrow> cache_op \<Rightarrow> (time \<times> device_data) option" where
  "latest_op i acc (AddData t j d) = (if j = i then Some (t, d) else acc)"
| "latest_op i acc (ClearData is None) = (if i \<in> set is then None else acc)"
| "latest_op i acc (ClearData is (Some j)) = (if j = i then None else acc)"
| "latest_op i acc _ = acc"

definition latest_data :: "cache_op list \<Rightarrow> interface \<Rightarrow> (time \<times> device_data) option" where
  "latest_data ops i = foldl (latest_op i) None ops"

definition holds_latest :: "(time \<times> device_data) option \<Rightarrow> interface \<Rightarrow> data_cache \<Rightarrow> bool" where
  "holds_latest acc i c \<longleftrightarrow> cached_data i c = [] \<or> acc = Some (refreshed_at i c, cached_data i c)"

lemma cached_simps [simp]:
  "cached_data i (add_data t j d c) = (if i = j then d else cached_data i c)"
  "refreshed_at i (add_data t j d c) = (if i = j then t else refreshed_at i c)"
  "cached_data i (clear_interface j c) = (if i = j then [] else cached_data i c)"
  "refreshed_at i (clear_interface j c) = (if i = j then INIT_DATETIME else refreshed_at i c)"
  "cached_data i (c\<lparr>dc_stats := s\<rparr>) = cached_data i c" "refreshed_at i (c\<lparr>dc_stats := s\<rparr>) = refreshed_at i c"
  by (auto simp: add_data_def clear_interface_def cached_data_def refreshed_at_def)

lemma cached_fold_clear [simp]:
  "cached_data i (fold clear_interface is c) = (if i \<in> set is then [] else cached_data i c)"
  "i \<notin> set is \<Longrightarrow> refreshed_at i (fold clear_interface is c) = refreshed_at i c"
  by (induction "is" arbitrary: c) auto

text \<open>A lookup leaves the data of an interface alone or clears it.\<close>

definition kept_or_cleared :: "data_cache \<Rightarrow> data_cache \<Rightarrow> bool" where
  "kept_or_cleared c c' \<longleftrightarrow>
     (\<forall>i. cached_data i c' = [] \<or> cached_data i c' = cached_data i c \<and> refreshed_at i c' = refreshed_at i c) \<and>
     dc_initializing c' = dc_initializing c \<and> cs_hits (dc_stats c') + cs_misses (dc_stats c') = cs_hits (dc_stats c) + cs_misses (dc_stats c)"

lemma kept_trans: "kept_or_cleared c c' \<Longrightarrow> kept_or_cleared c' c'' \<Longrightarrow> kept_or_cleared c c''"
  unfolding kept_or_cleared_def by metis

lemma kept_refl: "kept_or_cleared c c"
  by (simp add: kept_or_cleared_def)

lemma is_empty_kept: "kept_or_cleared c (snd (cache_is_empty now i c))"
  by (simp add: cache_is_empty_def kept_or_cleared_def) (simp add: clear_interface_def)

lemma cleanup_kept: "kept_or_cleared c (cleanup_data now c)"
proof -
  have "kept_or_cleared c (fold (\<lambda>i c. snd (cache_is_empty now i c)) is c)" for "is"
    by (induction "is" arbitrary: c) (auto simp: kept_refl intro: kept_trans [OF is_empty_kept])
  then show ?thesis by (simp add: cleanup_data_def)
qed

lemma get_data_cases:
  "snd (get_data now i a p c) = record_hit (snd (cache_is_empty now i c)) \<or> snd (get_data now i a p c) = record_miss (snd (cache_is_empty now i c))"
  by (auto simp: get_data_def Let_def split: prod.split)

lemma record_simps [simp]:
  "cached_data i (record_hit c) = cached_data i c" "refreshed_at i (record_hit c) = refreshed_at i c"
  "cached_data i (record_miss c) = cached_data i c" "refreshed_at i (record_miss c) = refreshed_at i c"
  "dc_initializing (record_hit c) = dc_initializing c" "dc_initializing (record_miss c) = dc_initializing c"
  "cs_hits (dc_stats (record_hit c)) + cs_misses (dc_stats (record_hit c)) = cs_hits (dc_stats c) + cs_misses (dc_stats c) + 1"
  "cs_hits (dc_stats (record_miss c)) + cs_misses (dc_stats (record_miss c)) = cs_hits (dc_stats c) + cs_misses (dc_stats c) + 1"
  by (simp_all add: record_hit_def record_miss_def)

definition is_lookup :: "cache_op \<Rightarrow> bool" where
  "is_lookup op \<longleftrightarrow> (case op of GetData _ _ _ _ \<Rightarrow> True | _ \<Rightarrow> False)"

definition cache_inv :: "cache_op list \<Rightarrow> data_cache \<Rightarrow> bool" where
  "cache_inv ops c \<longleftrightarrow>
     (\<forall>i. holds_latest (latest_data ops i) i c) \<and> (dc_initializing c \<longleftrightarrow> InitializationComplete \<notin> set ops) \<and>
     cs_hits (dc_stats c) + cs_misses (dc_stats c) = int (length (filter is_lookup ops))"

lemma inv_kept:
  assumes "cache_inv ops c" and "kept_or_cleared c c'" and "\<And>i acc. latest_op i acc op = acc" and "\<not> is_lookup op" and "op \<noteq> InitializationComplete"
  shows "cache_inv (ops @ [op]) c'"
  using assms unfolding cache_inv_def kept_or_cleared_def holds_latest_def latest_data_def
  by (auto; metis)

lemma cache_inv_run: "cache_inv ops (foldl run_cache_op data_cache_init ops)"
proof (induction ops rule: rev_induct)
  case Nil
  then show ?case by (simp add: cache_inv_def holds_latest_def cached_data_def data_cache_init_def)
next
  case (snoc op ops)
  let ?c = "foldl run_cache_op data_cache_init ops"
  show ?case
  proof (cases op)
    case (AddData t i d)
    with snoc show ?thesis
      by (auto simp: cache_inv_def holds_latest_def latest_data_def is_lookup_def) (simp_all add: add_data_def)
  next
    case (ClearData "is" j)
    then have "dc_initializing (clear_data is j ?c) = dc_initializing ?c" "dc_stats (clear_data is j ?c) = dc_stats ?c"
    proof -
      have "dc_initializing (fold clear_interface is c) = dc_initializing c \<and> dc_stats (fold clear_interface is c) = dc_stats c" for c
        by (induction "is" arbitrary: c) (simp_all add: clear_interface_def)
      then show "dc_initializing (clear_data is j ?c) = dc_initializing ?c" "dc_stats (clear_data is j ?c) = dc_stats ?c"
        by (auto simp: clear_data_def clear_interface_def split: option.split)
    qed
    with snoc ClearData show ?thesis
      by (cases j) (auto simp: cache_inv_def holds_latest_def latest_data_def is_lookup_def clear_data_def)
  next
    case (CleanupData t)
    with snoc show ?thesis
      by (simp add: inv_kept [OF _ cleanup_kept] is_lookup_def)
  next
    case (GetData t i a p)
    let ?e = "snd (cache_is_empty t i ?c)"
    have "kept_or_cleared ?c ?e" by (rule is_empty_kept)
    moreover have "snd (get_data t i a p ?c) = record_hit ?e \<or> snd (get_data t i a p ?c) = record_miss ?e" by (rule get_data_cases)
    ultimately show ?thesis
      using snoc GetData unfolding cache_inv_def kept_or_cleared_def holds_latest_def latest_data_def is_lookup_def
      by (auto; metis)
  next
    case InitializationComplete
    with snoc show ?thesis
      by (auto simp: cache_inv_def holds_latest_def latest_data_def is_lookup_def set_initialization_complete_def cached_data_def refreshed_at_def)
  qed
qed

definition data_cache_after :: "cache_op list \<Rightarrow> data_cache" where
  "data_cache_after = foldl run_cache_op data_cache_init"

text \<open>
  C27: Where a cached value comes from. After any history of the central data cache, a value it returns for a
  parameter is in the data added last for the interface since it was cleared; once the initialisation is
  complete, these data were added within the last ten seconds, not counting whole days. Every lookup
  was counted as a hit or a miss.
\<close>

theorem data_cache_history:
  shows "(fst (get_data now i a p (data_cache_after ops)) = v \<and> v \<noteq> NO_CACHE_ENTRY \<longrightarrow>
       (\<exists>t d. latest_data ops i = Some (t, d) \<and> dict_get d (data_key i a p) = Some v \<and>
          (InitializationComplete \<in> set ops \<longrightarrow> changed_within_seconds now t MAX_CACHE_AGE))) \<and>
     cs_hits (dc_stats (data_cache_after ops)) + cs_misses (dc_stats (data_cache_after ops)) = int (length (filter is_lookup ops))"
proof -
  have inv: "cache_inv ops (data_cache_after ops)" unfolding data_cache_after_def by (rule cache_inv_run)
  have "\<exists>t d. latest_data ops i = Some (t, d) \<and> dict_get d (data_key i a p) = Some v \<and>
      (InitializationComplete \<in> set ops \<longrightarrow> changed_within_seconds now t MAX_CACHE_AGE)"
    if v: "fst (get_data now i a p (data_cache_after ops)) = v" "v \<noteq> NO_CACHE_ENTRY"
  proof -
    let ?e = "snd (cache_is_empty now i (data_cache_after ops))"
    have full: "\<not> fst (cache_is_empty now i (data_cache_after ops))"
      using v by (auto simp: get_data_def Let_def split: prod.splits if_splits)
    then have e: "?e = data_cache_after ops" "cached_data i (data_cache_after ops) \<noteq> []"
      "dc_initializing (data_cache_after ops) \<or> changed_within_seconds now (refreshed_at i (data_cache_after ops)) MAX_CACHE_AGE"
      by (auto simp: cache_is_empty_def split: if_splits)
    then have "latest_data ops i = Some (refreshed_at i (data_cache_after ops), cached_data i (data_cache_after ops))"
      using inv by (auto simp: cache_inv_def holds_latest_def)
    moreover have "dict_get (cached_data i (data_cache_after ops)) (data_key i a p) = Some v"
      using v full e(1) by (auto simp: get_data_def Let_def split: prod.splits option.splits if_splits)
    ultimately show ?thesis
      using e(3) inv by (auto simp: cache_inv_def)
  qed
  with inv show ?thesis by (auto simp: cache_inv_def)
qed

text \<open>A value added at 100, looked up five seconds later, and a lookup after 20 seconds that finds nothing.\<close>

theorem data_cache_history_witness:
  "fst (get_data 105 HMIP_RF ''A:1'' ''STATE'' (data_cache_after
      [AddData 100 HMIP_RF [(''HmIP-RF.A:1.STATE'', PBool True)], InitializationComplete])) = PBool True \<and>
   fst (get_data 120 HMIP_RF ''A:1'' ''STATE'' (data_cache_after
      [AddData 100 HMIP_RF [(''HmIP-RF.A:1.STATE'', PBool True)], InitializationComplete])) = NO_CACHE_ENTRY \<and>
   dict_get [(''HmIP-RF.A:1.STATE'', PBool True)] (data_key HMIP_RF ''A:1'' ''STATE'') = Some (PBool True)"
proof -
  let ?ops = "[AddData 100 HMIP_RF [(''HmIP-RF.A:1.STATE'', PBool True)], InitializationComplete]"
  have got: "fst (get_data 105 HMIP_RF ''A:1'' ''STATE'' (data_cache_after ?ops)) = PBool True"
    "fst (get_data 120 HMIP_RF ''A:1'' ''STATE'' (data_cache_after ?ops)) = NO_CACHE_ENTRY"
    by (simp_all add: data_cache_after_def get_data_def cache_is_empty_def add_data_def data_cache_init_def set_initialization_complete_def cached_data_def
        refreshed_at_def changed_within_seconds_def INIT_DATETIME_def MAX_CACHE_AGE_def data_key_def NO_CACHE_ENTRY_def dict_get_def
        dict_set_def Let_def)
  then show ?thesis
    using data_cache_history [of 105 HMIP_RF "''A:1''" "''STATE''" ?ops "PBool True"]
    by (auto simp: NO_CACHE_ENTRY_def latest_data_def)
qed

subsection \<open>Values that are lost\<close>

text \<open>
  C28: The values of an unavailable device are lost. When nothing is cached for a data point, loading it from
  a device that is not available overwrites its value with None and marks it as refreshed and certain,
  whereas a failing call for an available device leaves the value as it was.
\<close>

theorem unavailable_value_lost:
  assumes rq: "\<not> (lr_ignored rq \<and> lr_initial rq)" "lr_status_dpk rq = None"
    and stale: "is_readable d" "lr_direct rq \<or> \<not> changed_within_seconds now (dp_refreshed_at d) MAX_CACHE_AGE"
    and uncached: "lr_direct rq \<or> fst (value_from_cache now (lr_interface rq) (lr_dpk rq) (dc, vc)) = NO_CACHE_ENTRY"
    and run: "load_data_point_value ft now later bv rq (d, dc, vc) = (r, d', cs)"
  shows "(\<not> lr_available rq \<longrightarrow> dp_current_value d' = PNone \<and> dp_refreshed_at d' = later \<and> \<not> dp_state_uncertain d') \<and>
     (values_for_cache True (lr_interface rq) bv (lr_dpk rq) = Inl (HomematicException e) \<and> lr_available rq \<longrightarrow>
        dp_current_value d' = dp_current_value d \<and> dp_refreshed_at d' = dp_refreshed_at d)"
proof -
  obtain cs1 where cs1: "(if lr_direct rq then (NO_CACHE_ENTRY, dc, vc) else value_from_cache now (lr_interface rq) (lr_dpk rq) (dc, vc)) =
      (NO_CACHE_ENTRY, cs1)"
    using uncached by (cases "lr_direct rq") (auto, metis prod.collapse)
  have "dp_current_value d' = PNone \<and> dp_refreshed_at d' = later \<and> \<not> dp_state_uncertain d'" if off: "\<not> lr_available rq"
  proof -
    have "fst (get_value now later (lr_direct rq) (lr_available rq) (lr_interface rq) bv (lr_dpk rq) (dc, vc)) = Inr PNone"
      unfolding get_value_def cs1 using off by (simp add: values_for_cache_def dict_get_def)
    then obtain cs2 where "get_value now later (lr_direct rq) (lr_available rq) (lr_interface rq) bv (lr_dpk rq) (dc, vc) = (Inr PNone, cs2)"
      by (metis prod.collapse)
    then show ?thesis
      using run rq stale
      by (auto simp: load_data_point_value_def load_status_def write_value_def dp_convert_def NO_CACHE_ENTRY_def reset_unconfirmed_value_def
          py_eq_def Let_def py_num_def split: prod.splits if_splits pyval.splits)
  qed
  moreover have "dp_current_value d' = dp_current_value d \<and> dp_refreshed_at d' = dp_refreshed_at d"
    if "values_for_cache True (lr_interface rq) bv (lr_dpk rq) = Inl (HomematicException e)" "lr_available rq"
  proof -
    have "fst (get_value now later (lr_direct rq) (lr_available rq) (lr_interface rq) bv (lr_dpk rq) (dc, vc)) = Inr NO_CACHE_ENTRY"
      unfolding get_value_def cs1 using that by (simp add: visible_value_def dict_get_def)
    then obtain cs2 where "get_value now later (lr_direct rq) (lr_available rq) (lr_interface rq) bv (lr_dpk rq) (dc, vc) = (Inr NO_CACHE_ENTRY, cs2)"
      by (metis prod.collapse)
    then show ?thesis
      using run rq stale
      by (auto simp: load_data_point_value_def load_status_def write_value_def reset_unconfirmed_value_def Let_def split: prod.splits if_splits)
  qed
  ultimately show ?thesis by blast
qed

definition switched_off :: load_request where
  "switched_off =
     \<lparr>lr_ignored = False, lr_initial = False, lr_direct = False, lr_available = False, lr_interface = HMIP_RF,
      lr_dpk = \<lparr>dpk_interface_id = ''HmIP-RF'', dpk_channel_address = ''A:1'', dpk_paramset_key = PK_VALUES, dpk_parameter = ''LEVEL''\<rparr>,
      lr_status_dpk = None\<rparr>"

text \<open>A level of one half, last refreshed at 100, is loaded at 1000 while the device is not available.\<close>

theorem unavailable_value_lost_witness:
  "dp_current_value (fst (snd (load_data_point_value no_text 1000 1001 \<lparr>bv_value = \<lambda>_. Inr PNone, bv_paramset = \<lambda>_ _. Inr []\<rparr> switched_off
     (sample_dp\<lparr>dp_current_value := PFloat (1 / 2), dp_refreshed_at := 100\<rparr>, data_cache_init, [])))) = PNone"
proof -
  let ?d = "sample_dp\<lparr>dp_current_value := PFloat (1 / 2), dp_refreshed_at := 100\<rparr>"
  let ?bv = "\<lparr>bv_value = \<lambda>_. Inr PNone, bv_paramset = \<lambda>_ _. Inr []\<rparr>"
  obtain r d' cs where run: "load_data_point_value no_text 1000 1001 ?bv switched_off (?d, data_cache_init, []) = (r, d', cs)"
    by (metis prod.collapse)
  have "is_readable ?d"
    by (simp add: is_readable_def sample_dp_fields OP_READ_def)
  moreover have "\<not> changed_within_seconds 1000 (dp_refreshed_at ?d) MAX_CACHE_AGE"
    by (simp add: changed_within_seconds_def INIT_DATETIME_def MAX_CACHE_AGE_def)
  moreover have "fst (value_from_cache 1000 HMIP_RF (lr_dpk switched_off) (data_cache_init, [])) = NO_CACHE_ENTRY"
    by (simp add: value_from_cache_def switched_off_def get_data_def cache_is_empty_def cached_data_def data_cache_init_def dict_get_def
        record_miss_def)
  ultimately show ?thesis
    using unavailable_value_lost [OF _ _ _ _ _ run] run by (simp add: switched_off_def)
qed

end
