(* ===== verification/Events.thy ===== *)
theory Events
  imports Const
begin

section \<open>Events of the event bus\<close>

text \<open>
  The frozen event dataclasses of \<open>central/events\<close> and \<open>metrics/events.py\<close> that the modelled
  components publish, one constructor per class with the class's fields in their order, and the
  two things the event bus reads of an event: its class and its \<open>key\<close>. The synchronous
  \<open>publish_sync\<close> only schedules the publication, so an operation that publishes returns the list
  of the events it schedules, in order.
\<close>

datatype event_priority = EP_LOW | EP_NORMAL | EP_HIGH | EP_CRITICAL

fun priority_value :: "event_priority \<Rightarrow> int" where
  "priority_value EP_LOW = 0"
| "priority_value EP_NORMAL = 50"
| "priority_value EP_HIGH = 100"
| "priority_value EP_CRITICAL = 200"

record integration_issue =
  ii_issue_type :: issue_type
  ii_severity :: issue_severity
  ii_interface_id :: string
  ii_mismatch_type :: "pingpong_mismatch_type option"
  ii_mismatch_count :: "int option"
  ii_device_addresses :: "string list option"
  ii_missing_parameters :: "string list option"

record system_status =
  ss_central_state :: "central_state option"
  ss_failure_reason :: "failure_reason option"
  ss_failure_interface_id :: "string option"
  ss_degraded_interfaces :: "(string, failure_reason) dict option"
  ss_connection_state :: "(string \<times> bool) option"
  ss_client_state :: "(string \<times> client_state \<times> client_state) option"
  ss_callback_state :: "(string \<times> bool) option"
  ss_issues :: "integration_issue list"

definition empty_status :: system_status where
  \<comment> \<open>the field defaults of SystemStatusChangedEvent\<close>
  "empty_status =
     \<lparr>ss_central_state = None, ss_failure_reason = None, ss_failure_interface_id = None,
      ss_degraded_interfaces = None, ss_connection_state = None, ss_client_state = None,
      ss_callback_state = None, ss_issues = []\<rparr>"

datatype device_lifecycle_event_type =
  DL_CREATED | DL_DELAYED | DL_UPDATED | DL_REMOVED | DL_AVAILABILITY_CHANGED

datatype event =
    CircuitBreakerStateChangedEvent time string circuit_state circuit_state int int "time option"
  | CircuitBreakerTrippedEvent time string int "string option" time
  | ClientStateChangedEvent time string client_state client_state "string option"
  | CentralStateChangedEvent time string central_state central_state "string option"
  | SystemStatusChangedEvent time system_status
  | ConnectionLostEvent time string string time
  | RequestCoalescedEvent time string int string
  | RecoveryAttemptedEvent time string int int recovery_stage bool "string option"
  | RecoveryStageChangedEvent time string recovery_stage recovery_stage real int
  | RecoveryCompletedEvent time "string option" string int real "recovery_stage list" "string list option"
  | RecoveryFailedEvent time "string option" string int real recovery_stage failure_reason bool "string list option"
  | HeartbeatTimerFiredEvent time string "string list"
  | LatencyMetricEvent time string real
  | CounterMetricEvent time string int
  | HealthMetricEvent time string bool "string option"
  | DeviceStateChangedEvent time string
  | FirmwareStateChangedEvent time string
  | LinkPeerChangedEvent time string
  | DeviceLifecycleEvent time device_lifecycle_event_type "string list" "(string \<times> bool) list" bool
      "string option" "string list"
  | DeviceRemovedEvent time string "string option" "string option" "string list"
  | RpcParameterReceivedEvent time string string string py_any
  | DataPointValueReceivedEvent time data_point_key py_any time
  | DataPointStateChangedEvent time string py_any py_any "string option"
  | OptimisticRollbackEvent time data_point_key string py_any py_any "string option" real "string option"
  | HealthRecordedEvent time string bool

datatype event_type =
    T_CircuitBreakerStateChanged | T_CircuitBreakerTripped | T_ClientStateChanged
  | T_CentralStateChanged | T_SystemStatusChanged | T_ConnectionLost | T_RequestCoalesced
  | T_RecoveryAttempted | T_RecoveryStageChanged | T_RecoveryCompleted | T_RecoveryFailed
  | T_HeartbeatTimerFired | T_LatencyMetric | T_CounterMetric | T_HealthMetric
  | T_DeviceStateChanged | T_FirmwareStateChanged | T_LinkPeerChanged | T_DeviceLifecycle | T_DeviceRemoved
  | T_RpcParameterReceived | T_DataPointValueReceived | T_DataPointStateChanged | T_OptimisticRollback
  | T_HealthRecorded

fun type_of :: "event \<Rightarrow> event_type" where
  "type_of (CircuitBreakerStateChangedEvent _ _ _ _ _ _ _) = T_CircuitBreakerStateChanged"
| "type_of (CircuitBreakerTrippedEvent _ _ _ _ _) = T_CircuitBreakerTripped"
| "type_of (ClientStateChangedEvent _ _ _ _ _) = T_ClientStateChanged"
| "type_of (CentralStateChangedEvent _ _ _ _ _) = T_CentralStateChanged"
| "type_of (SystemStatusChangedEvent _ _) = T_SystemStatusChanged"
| "type_of (ConnectionLostEvent _ _ _ _) = T_ConnectionLost"
| "type_of (RequestCoalescedEvent _ _ _ _) = T_RequestCoalesced"
| "type_of (RecoveryAttemptedEvent _ _ _ _ _ _ _) = T_RecoveryAttempted"
| "type_of (RecoveryStageChangedEvent _ _ _ _ _ _) = T_RecoveryStageChanged"
| "type_of (RecoveryCompletedEvent _ _ _ _ _ _ _) = T_RecoveryCompleted"
| "type_of (RecoveryFailedEvent _ _ _ _ _ _ _ _ _) = T_RecoveryFailed"
| "type_of (HeartbeatTimerFiredEvent _ _ _) = T_HeartbeatTimerFired"
| "type_of (LatencyMetricEvent _ _ _) = T_LatencyMetric"
| "type_of (CounterMetricEvent _ _ _) = T_CounterMetric"
| "type_of (HealthMetricEvent _ _ _ _) = T_HealthMetric"
| "type_of (DeviceStateChangedEvent _ _) = T_DeviceStateChanged"
| "type_of (FirmwareStateChangedEvent _ _) = T_FirmwareStateChanged"
| "type_of (LinkPeerChangedEvent _ _) = T_LinkPeerChanged"
| "type_of (DeviceLifecycleEvent _ _ _ _ _ _ _) = T_DeviceLifecycle"
| "type_of (DeviceRemovedEvent _ _ _ _ _) = T_DeviceRemoved"
| "type_of (RpcParameterReceivedEvent _ _ _ _ _) = T_RpcParameterReceived"
| "type_of (DataPointValueReceivedEvent _ _ _ _) = T_DataPointValueReceived"
| "type_of (DataPointStateChangedEvent _ _ _ _ _) = T_DataPointStateChanged"
| "type_of (OptimisticRollbackEvent _ _ _ _ _ _ _ _) = T_OptimisticRollback"
| "type_of (HealthRecordedEvent _ _ _) = T_HealthRecorded"

text \<open>
  The \<open>key\<close> property of each class. \<open>RecoveryCompletedEvent\<close> and \<open>RecoveryFailedEvent\<close> use
  \<open>interface_id or central_name\<close>, where an empty string counts as missing, and \<open>DeviceRemovedEvent\<close> uses \<open>device_address or unique_id\<close>.
  Keys are strings or data point keys; \<open>None\<close> is the key of the events without identity.
\<close>

datatype bus_key = K_Str string | K_Dpk data_point_key

definition or_else :: "string option \<Rightarrow> string \<Rightarrow> string" where
  "or_else x y = (case x of None \<Rightarrow> y | Some s \<Rightarrow> if s = [] then y else s)"

fun event_key :: "event \<Rightarrow> bus_key option" where
  "event_key (CircuitBreakerStateChangedEvent _ iid _ _ _ _ _) = Some (K_Str iid)"
| "event_key (CircuitBreakerTrippedEvent _ iid _ _ _) = Some (K_Str iid)"
| "event_key (ClientStateChangedEvent _ iid _ _ _) = Some (K_Str iid)"
| "event_key (CentralStateChangedEvent _ name _ _ _) = Some (K_Str name)"
| "event_key (SystemStatusChangedEvent _ _) = None"
| "event_key (ConnectionLostEvent _ iid _ _) = Some (K_Str iid)"
| "event_key (RequestCoalescedEvent _ _ _ iid) = Some (K_Str iid)"
| "event_key (RecoveryAttemptedEvent _ iid _ _ _ _ _) = Some (K_Str iid)"
| "event_key (RecoveryStageChangedEvent _ iid _ _ _ _) = Some (K_Str iid)"
| "event_key (RecoveryCompletedEvent _ iid name _ _ _ _) = Some (K_Str (or_else iid name))"
| "event_key (RecoveryFailedEvent _ iid name _ _ _ _ _ _) = Some (K_Str (or_else iid name))"
| "event_key (HeartbeatTimerFiredEvent _ name _) = Some (K_Str name)"
| "event_key (LatencyMetricEvent _ mk _) = Some (K_Str mk)"
| "event_key (CounterMetricEvent _ mk _) = Some (K_Str mk)"
| "event_key (HealthMetricEvent _ mk _ _) = Some (K_Str mk)"
| "event_key (DeviceStateChangedEvent _ addr) = Some (K_Str addr)"
| "event_key (FirmwareStateChangedEvent _ addr) = Some (K_Str addr)"
| "event_key (LinkPeerChangedEvent _ addr) = Some (K_Str addr)"
| "event_key (DeviceLifecycleEvent _ _ _ _ _ _ _) = None"
| "event_key (DeviceRemovedEvent _ uid addr _ _) = Some (K_Str (or_else addr uid))"
| "event_key (RpcParameterReceivedEvent _ iid addr param _) =
     Some (K_Dpk \<lparr>dpk_interface_id = iid, dpk_channel_address = addr, dpk_paramset_key = PK_VALUES,
                  dpk_parameter = param\<rparr>)"
| "event_key (DataPointValueReceivedEvent _ dpk _ _) = Some (K_Dpk dpk)"
| "event_key (DataPointStateChangedEvent _ uid _ _ _) = Some (K_Str uid)"
| "event_key (OptimisticRollbackEvent _ dpk _ _ _ _ _ _) = Some (K_Dpk dpk)"
| "event_key (HealthRecordedEvent _ iid _) = Some (K_Str iid)"

text \<open>\<open>str(MetricKey(component, metric, identifier))\<close> and the metric emitters.\<close>

definition metric_key :: "string \<Rightarrow> string \<Rightarrow> string \<Rightarrow> string" where
  "metric_key component metric identifier =
     (if identifier \<noteq> [] then component @ ''.'' @ metric @ ''.'' @ identifier
      else component @ ''.'' @ metric)"

definition emit_counter :: "time \<Rightarrow> string \<Rightarrow> int \<Rightarrow> event" where
  "emit_counter now mkey delta = CounterMetricEvent now mkey delta"

definition emit_latency :: "time \<Rightarrow> string \<Rightarrow> real \<Rightarrow> event" where
  "emit_latency now mkey duration_ms = LatencyMetricEvent now mkey duration_ms"

definition emit_health :: "time \<Rightarrow> string \<Rightarrow> bool \<Rightarrow> string option \<Rightarrow> event" where
  "emit_health now mkey healthy reason = HealthMetricEvent now mkey healthy reason"

text \<open>A string is falsy in Python exactly when it is empty: \<open>reason or None\<close>.\<close>

definition or_none :: "string \<Rightarrow> string option" where
  "or_none s = (if s = [] then None else Some s)"

lemma or_none_Nil [simp]: "or_none [] = None" and or_none_Cons [simp]: "or_none (c # s) = Some (c # s)"
  by (simp_all add: or_none_def)

end
