(* ===== verification/Event_Bus.thy ===== *)
theory Event_Bus
  imports Events "HOL-Library.Product_Lexorder"
begin

section \<open>The event bus\<close>

text \<open>
  \<open>central/events/bus.py\<close>: \<open>EventBus\<close>, \<open>EventBatch\<close> and \<open>SubscriptionGroup\<close>. Handlers are values of
  an arbitrary type \<open>'h\<close>; what a handler does when it is called belongs to the subscriber, so
  \<open>publish\<close> returns the calls it starts, in order, and \<open>safe_call_handler\<close> takes the outcome of one
  call. An unsubscribe callback is the closure over the event type, the key and the prioritized
  handler, and is represented by these three values. The subscriptions are the two nested
  \<open>defaultdict\<close>s of the code, in which reading a missing entry creates it.

  The abstract view of the bus is the list of the live subscriptions in the order in which they were
  made; the main lemma says that the sorted buckets implement it.
\<close>

subsection \<open>\<open>bisect.insort\<close>\<close>

text \<open>
  The binary search of the standard library's \<open>bisect_right\<close> with a key function, and
  \<open>insort = insort_right\<close>, which inserts at the position it finds.
\<close>

function bisect_right :: "('a \<Rightarrow> 'k :: linorder) \<Rightarrow> 'k \<Rightarrow> 'a list \<Rightarrow> nat \<Rightarrow> nat \<Rightarrow> nat" where
  "bisect_right f x a lo hi =
     (if lo < hi then
        (let mid = (lo + hi) div 2
         in if x < f (a ! mid) then bisect_right f x a lo mid else bisect_right f x a (mid + 1) hi)
      else lo)"
  by pat_completeness auto
termination by (relation "measure (\<lambda>(f, x, a, lo, hi). hi - lo)") auto

declare bisect_right.simps [simp del]

definition insort_right :: "('a \<Rightarrow> 'k :: linorder) \<Rightarrow> 'a \<Rightarrow> 'a list \<Rightarrow> 'a list" where
  "insort_right f x a = (let i = bisect_right f (f x) a 0 (length a) in take i a @ x # drop i a)"

subsection \<open>State\<close>

record 'h prioritized_handler =
  ph_handler :: 'h
  ph_priority :: event_priority
  ph_order :: nat

definition ph_sort_key :: "'h prioritized_handler \<Rightarrow> int \<times> nat" where
  \<comment> \<open>_PrioritizedHandler.__post_init__: the priority is negated so that higher priorities sort first\<close>
  "ph_sort_key ph = (- priority_value (ph_priority ph), ph_order ph)"

record handler_stats =
  total_executions :: nat
  total_errors :: nat
  total_duration_ms :: real
  max_duration_ms :: real

definition handler_stats_init :: handler_stats where
  "handler_stats_init = \<lparr>total_executions = 0, total_errors = 0, total_duration_ms = 0, max_duration_ms = 0\<rparr>"

definition avg_duration_ms :: "handler_stats \<Rightarrow> real" where
  "avg_duration_ms s = (if total_executions s = 0 then 0 else total_duration_ms s / real (total_executions s))"

definition handler_stats_reset :: "handler_stats \<Rightarrow> handler_stats" where
  "handler_stats_reset s =
     s\<lparr>total_executions := 0, total_errors := 0, total_duration_ms := 0, max_duration_ms := 0\<rparr>"

type_synonym 'h buckets = "(bus_key option, 'h prioritized_handler list) dict"

record 'h event_bus =
  eb_subscriptions :: "(event_type, 'h buckets) dict"
  eb_event_count :: "(event_type, nat) dict"
  eb_handler_order_counter :: nat
  eb_handler_stats :: handler_stats

definition event_bus_init :: "'h event_bus" where
  "event_bus_init = \<lparr>eb_subscriptions = [], eb_event_count = [], eb_handler_order_counter = 0,
                     eb_handler_stats = handler_stats_init\<rparr>"

text \<open>Reading \<open>self._subscriptions[event_type][event_key]\<close>, and the store after such an access.\<close>

definition or_empty :: "'a list option \<Rightarrow> 'a list" where
  "or_empty x = (case x of None \<Rightarrow> [] | Some xs \<Rightarrow> xs)"

definition bucket :: "'h event_bus \<Rightarrow> event_type \<Rightarrow> bus_key option \<Rightarrow> 'h prioritized_handler list" where
  "bucket b ty k = or_empty (dict_get (or_empty (dict_get (eb_subscriptions b) ty)) k)"

definition set_bucket ::
  "event_type \<Rightarrow> bus_key option \<Rightarrow> 'h prioritized_handler list \<Rightarrow> 'h event_bus \<Rightarrow> 'h event_bus" where
  "set_bucket ty k hs b =
     b\<lparr>eb_subscriptions :=
         dict_set ty (dict_set k hs (or_empty (dict_get (eb_subscriptions b) ty))) (eb_subscriptions b)\<rparr>"

subsection \<open>Subscribing\<close>

type_synonym 'h subscription = "event_type \<times> bus_key option \<times> 'h prioritized_handler"

definition bus_subscribe ::
  "event_type \<Rightarrow> bus_key option \<Rightarrow> 'h \<Rightarrow> event_priority \<Rightarrow> 'h event_bus \<Rightarrow> 'h subscription \<times> 'h event_bus" where
  "bus_subscribe ty k h p b =
     (let ph = \<lparr>ph_handler = h, ph_priority = p, ph_order = eb_handler_order_counter b\<rparr>;
          b1 = b\<lparr>eb_handler_order_counter := eb_handler_order_counter b + 1\<rparr>
      in ((ty, k, ph), set_bucket ty k (insort_right ph_sort_key ph (bucket b1 ty k)) b1))"

fun bus_unsubscribe :: "'h subscription \<Rightarrow> 'h event_bus \<Rightarrow> 'h event_bus" where
  "bus_unsubscribe (ty, k, ph) b =
     (if ph \<in> set (bucket b ty k) then set_bucket ty k (remove1 ph (bucket b ty k)) b
      else set_bucket ty k (bucket b ty k) b)"

definition clear_subscriptions :: "event_type option \<Rightarrow> 'h event_bus \<Rightarrow> 'h event_bus" where
  "clear_subscriptions ty b =
     (case ty of
        None \<Rightarrow> b\<lparr>eb_subscriptions := [], eb_event_count := []\<rparr>
      | Some t \<Rightarrow> b\<lparr>eb_subscriptions := dict_set t [] (eb_subscriptions b)\<rparr>)"

fun clear_key_in :: "bus_key option \<Rightarrow> (event_type, 'h buckets) dict \<Rightarrow> nat \<times> (event_type, 'h buckets) dict" where
  "clear_key_in k [] = (0, [])"
| "clear_key_in k ((ty, bs) # subs) =
     (let (n, subs') = clear_key_in k subs
      in case dict_get bs k of
           None \<Rightarrow> (n, (ty, bs) # subs')
         | Some hs \<Rightarrow>
             if length hs > 0 then (length hs + n, (ty, dict_set k [] bs) # subs') else (n, (ty, bs) # subs'))"

definition clear_subscriptions_by_key :: "bus_key option \<Rightarrow> 'h event_bus \<Rightarrow> nat \<times> 'h event_bus" where
  "clear_subscriptions_by_key k b =
     (let (n, subs) = clear_key_in k (eb_subscriptions b) in (n, b\<lparr>eb_subscriptions := subs\<rparr>))"

definition get_subscription_count :: "event_type \<Rightarrow> 'h event_bus \<Rightarrow> nat" where
  "get_subscription_count ty b =
     sum_list (map length (dict_values (or_empty (dict_get (eb_subscriptions b) ty))))"

definition get_total_subscription_count :: "'h event_bus \<Rightarrow> nat" where
  "get_total_subscription_count b =
     sum_list (map (\<lambda>bs. sum_list (map length (dict_values bs))) (dict_values (eb_subscriptions b)))"

definition external_event_types :: "event_type list" where
  "external_event_types =
     [T_DataPointStateChanged, T_DeviceLifecycle, T_DeviceRemoved, T_DeviceStateChanged,
      T_FirmwareStateChanged, T_LinkPeerChanged]"

fun clear_types :: "event_type list \<Rightarrow> nat \<Rightarrow> 'h event_bus \<Rightarrow> nat \<times> 'h event_bus" where
  "clear_types [] acc b = (acc, b)"
| "clear_types (ty # tys) acc b =
     (let n = get_subscription_count ty b
      in if n > 0 then clear_types tys (acc + n) (clear_subscriptions (Some ty) b)
         else clear_types tys acc b)"

definition clear_external_subscriptions :: "'h event_bus \<Rightarrow> nat \<times> 'h event_bus" where
  "clear_external_subscriptions b = clear_types external_event_types 0 b"

definition log_leaked_subscriptions :: "'h event_bus \<Rightarrow> nat" where
  \<comment> \<open>the returned total; the warnings are log output\<close>
  "log_leaked_subscriptions b =
     sum_list (concat (map (\<lambda>bs. map length (filter (\<lambda>hs. hs \<noteq> []) (dict_values bs))) (dict_values (eb_subscriptions b))))"

subsection \<open>Publishing\<close>

definition prioritized_handlers :: "event_type \<Rightarrow> bus_key option \<Rightarrow> 'h event_bus \<Rightarrow> 'h prioritized_handler list" where
  "prioritized_handlers ty k b =
     (case dict_get (eb_subscriptions b) ty of
        None \<Rightarrow> []
      | Some event_subs \<Rightarrow>
          if event_subs = [] then []
          else
            (let wildcard = or_empty (dict_get event_subs None);
                 specific = (if k \<noteq> None then or_empty (dict_get event_subs k) else [])
             in if specific \<noteq> [] \<and> wildcard \<noteq> [] then sort_key ph_sort_key (specific @ wildcard)
                else if specific \<noteq> [] then specific
                else if wildcard \<noteq> [] then wildcard
                else []))"

definition add_event_count :: "event_type \<Rightarrow> nat \<Rightarrow> 'h event_bus \<Rightarrow> 'h event_bus" where
  "add_event_count ty n b =
     b\<lparr>eb_event_count :=
         dict_set ty ((case dict_get (eb_event_count b) ty of None \<Rightarrow> 0 | Some c \<Rightarrow> c) + n) (eb_event_count b)\<rparr>"

definition publish :: "event \<Rightarrow> 'h event_bus \<Rightarrow> 'h event_bus \<times> ('h \<times> event) list" where
  "publish ev b =
     (let hs = prioritized_handlers (type_of ev) (event_key ev) b
      in if hs = [] then (b, [])
         else (add_event_count (type_of ev) 1 b, map (\<lambda>ph. (ph_handler ph, ev)) hs))"

definition group_of :: "event \<Rightarrow> event_type \<times> bus_key option" where
  "group_of ev = (type_of ev, event_key ev)"

definition group_events :: "event list \<Rightarrow> (event_type \<times> bus_key option, event list) dict" where
  "group_events evs = foldl (\<lambda>g ev. dict_set (group_of ev) (or_empty (dict_get g (group_of ev)) @ [ev]) g) [] evs"

fun publish_groups ::
  "(event_type \<times> bus_key option, event list) dict \<Rightarrow> 'h event_bus \<Rightarrow> 'h event_bus \<times> ('h \<times> event) list" where
  "publish_groups [] b = (b, [])"
| "publish_groups (((ty, k), evs) # gs) b =
     (let hs = prioritized_handlers ty k b
      in if hs = [] then publish_groups gs b
         else
           (let (b', calls) = publish_groups gs (add_event_count ty (length evs) b)
            in (b', concat (map (\<lambda>ev. map (\<lambda>ph. (ph_handler ph, ev)) hs) evs) @ calls)))"

definition publish_batch :: "event list \<Rightarrow> 'h event_bus \<Rightarrow> 'h event_bus \<times> ('h \<times> event) list" where
  "publish_batch evs b = (if evs = [] then (b, []) else publish_groups (group_events evs) b)"

text \<open>
  One handler call ends by returning, by raising an \<open>Exception\<close>, which is logged and swallowed, or
  by a cancellation, which \<open>except Exception\<close> does not catch but \<open>gather\<close> collects. All three run
  the \<open>finally\<close> clause.
\<close>

datatype handler_outcome = Returned | Raised_Exception | Was_Cancelled

definition safe_call_handler :: "handler_outcome \<Rightarrow> real \<Rightarrow> 'h event_bus \<Rightarrow> 'h event_bus" where
  "safe_call_handler outcome duration_ms b =
     (let s = eb_handler_stats b
      in b\<lparr>eb_handler_stats :=
             s\<lparr>total_executions := total_executions s + 1,
               total_duration_ms := total_duration_ms s + duration_ms,
               max_duration_ms := max (max_duration_ms s) duration_ms,
               total_errors := (if outcome = Raised_Exception then total_errors s + 1 else total_errors s)\<rparr>\<rparr>)"

definition clear_event_stats :: "'h event_bus \<Rightarrow> 'h event_bus" where
  "clear_event_stats b = b\<lparr>eb_event_count := [], eb_handler_stats := handler_stats_reset (eb_handler_stats b)\<rparr>"

subsection \<open>Batches and subscription groups\<close>

datatype batch_error = RuntimeError_flushed

record event_batch =
  ba_events :: "event list"
  ba_flushed :: bool

definition event_batch_init :: event_batch where
  "event_batch_init = \<lparr>ba_events = [], ba_flushed = False\<rparr>"

definition batch_add :: "event \<Rightarrow> event_batch \<Rightarrow> batch_error + event_batch" where
  "batch_add ev ba = (if ba_flushed ba then Inl RuntimeError_flushed else Inr (ba\<lparr>ba_events := ba_events ba @ [ev]\<rparr>))"

definition batch_add_all :: "event list \<Rightarrow> event_batch \<Rightarrow> batch_error + event_batch" where
  "batch_add_all evs ba = (if ba_flushed ba then Inl RuntimeError_flushed else Inr (ba\<lparr>ba_events := ba_events ba @ evs\<rparr>))"

text \<open>\<open>flush\<close> up to the end of its \<open>await\<close>: the count, the bus and the handler calls, and the batch.\<close>

definition batch_flush ::
  "event_batch \<Rightarrow> 'h event_bus \<Rightarrow> nat \<times> event_batch \<times> 'h event_bus \<times> ('h \<times> event) list" where
  "batch_flush ba b =
     (if ba_flushed ba then (0, ba, b, [])
      else
        (let n = length (ba_events ba)
         in if ba_events ba \<noteq> [] then
              (let (b', calls) = publish_batch (ba_events ba) b
               in (n, ba\<lparr>ba_events := [], ba_flushed := True\<rparr>, b', calls))
            else (n, ba\<lparr>ba_flushed := True\<rparr>, b, [])))"

record 'h subscription_group =
  sg_name :: string
  sg_unsubscribe_callbacks :: "'h subscription list"

definition create_subscription_group :: "string \<Rightarrow> 'h subscription_group" where
  "create_subscription_group nm = \<lparr>sg_name = nm, sg_unsubscribe_callbacks = []\<rparr>"

definition group_subscribe ::
  "event_type \<Rightarrow> bus_key option \<Rightarrow> 'h \<Rightarrow> event_priority \<Rightarrow> 'h subscription_group \<times> 'h event_bus \<Rightarrow>
   'h subscription \<times> 'h subscription_group \<times> 'h event_bus" where
  "group_subscribe ty k h p gb =
     (let (u, b) = bus_subscribe ty k h p (snd gb)
      in (u, (fst gb)\<lparr>sg_unsubscribe_callbacks := sg_unsubscribe_callbacks (fst gb) @ [u]\<rparr>, b))"

definition unsubscribe_all :: "'h subscription_group \<times> 'h event_bus \<Rightarrow> 'h subscription_group \<times> 'h event_bus" where
  "unsubscribe_all gb =
     ((fst gb)\<lparr>sg_unsubscribe_callbacks := []\<rparr>,
      foldl (\<lambda>b u. bus_unsubscribe u b) (snd gb) (sg_unsubscribe_callbacks (fst gb)))"

subsection \<open>The abstract bus\<close>

text \<open>
  The operations that change the subscriptions, the bus after them, and the list of live
  subscriptions after them. The abstract list knows neither buckets nor sorting.
\<close>

datatype 'h bus_op =
    Subscribe event_type "bus_key option" 'h event_priority
  | Unsubscribe "'h subscription"
  | Clear_Subscriptions "event_type option"
  | Clear_By_Key "bus_key option"
  | Clear_External
  | Publish event
  | Publish_Batch "event list"
  | Handler_Done handler_outcome real
  | Clear_Event_Stats

fun bus_step :: "'h event_bus \<Rightarrow> 'h bus_op \<Rightarrow> 'h event_bus" where
  "bus_step b (Subscribe ty k h p) = snd (bus_subscribe ty k h p b)"
| "bus_step b (Unsubscribe u) = bus_unsubscribe u b"
| "bus_step b (Clear_Subscriptions ty) = clear_subscriptions ty b"
| "bus_step b (Clear_By_Key k) = snd (clear_subscriptions_by_key k b)"
| "bus_step b Clear_External = snd (clear_external_subscriptions b)"
| "bus_step b (Publish ev) = fst (publish ev b)"
| "bus_step b (Publish_Batch evs) = fst (publish_batch evs b)"
| "bus_step b (Handler_Done r d) = safe_call_handler r d b"
| "bus_step b Clear_Event_Stats = clear_event_stats b"

abbreviation sub_type :: "'h subscription \<Rightarrow> event_type" where "sub_type \<equiv> fst"
abbreviation sub_key :: "'h subscription \<Rightarrow> bus_key option" where "sub_key s \<equiv> fst (snd s)"
abbreviation sub_handler :: "'h subscription \<Rightarrow> 'h prioritized_handler" where "sub_handler s \<equiv> snd (snd s)"

fun live_step :: "nat \<times> 'h subscription list \<Rightarrow> 'h bus_op \<Rightarrow> nat \<times> 'h subscription list" where
  "live_step (n, live) (Subscribe ty k h p) =
     (n + 1, live @ [(ty, k, \<lparr>ph_handler = h, ph_priority = p, ph_order = n\<rparr>)])"
| "live_step (n, live) (Unsubscribe u) = (n, filter (\<lambda>s. s \<noteq> u) live)"
| "live_step (n, live) (Clear_Subscriptions None) = (n, [])"
| "live_step (n, live) (Clear_Subscriptions (Some ty)) = (n, filter (\<lambda>s. sub_type s \<noteq> ty) live)"
| "live_step (n, live) (Clear_By_Key k) = (n, filter (\<lambda>s. sub_key s \<noteq> k) live)"
| "live_step (n, live) Clear_External = (n, filter (\<lambda>s. sub_type s \<notin> set external_event_types) live)"
| "live_step (n, live) _ = (n, live)"

definition subscribed_to :: "event \<Rightarrow> 'h subscription \<Rightarrow> bool" where
  "subscribed_to ev s \<longleftrightarrow> sub_type s = type_of ev \<and> (sub_key s = None \<or> sub_key s = event_key ev)"

subsection \<open>Sorting lemmas\<close>

lemma bisect_right_pos:
  assumes "sorted (map f a)" and "lo \<le> hi" and "hi \<le> length a" and "\<forall>j < lo. f (a ! j) \<le> x"
    and "\<forall>j. hi \<le> j \<longrightarrow> j < length a \<longrightarrow> x < f (a ! j)"
  shows "bisect_right f x a lo hi \<le> length a \<and> (\<forall>j < bisect_right f x a lo hi. f (a ! j) \<le> x) \<and>
         (\<forall>j. bisect_right f x a lo hi \<le> j \<longrightarrow> j < length a \<longrightarrow> x < f (a ! j))"
  using assms
proof (induction f x a lo hi rule: bisect_right.induct)
  case (1 f x a lo hi)
  show ?case
  proof (cases "lo < hi")
    case True
    define mid where "mid = (lo + hi) div 2"
    have m: "lo \<le> mid" "mid < hi" using True by (auto simp: mid_def)
    have mono: "f (a ! i) \<le> f (a ! j)" if "i \<le> j" "j < length a" for i j
      using sorted_nth_mono [OF 1(3), of i j] that by simp
    show ?thesis
    proof (cases "x < f (a ! mid)")
      case less: True
      have u: "\<forall>j. mid \<le> j \<longrightarrow> j < length a \<longrightarrow> x < f (a ! j)"
        using mono less less_le_trans by blast
      have "bisect_right f x a lo hi = bisect_right f x a lo mid"
        using True less by (subst bisect_right.simps) (simp add: Let_def mid_def)
      then show ?thesis
        using 1(1) [OF True mid_def less 1(3) m(1) _ 1(6) u] order_trans [OF less_imp_le [OF m(2)] 1(5)] by simp
    next
      case False
      have u: "\<forall>j < mid + 1. f (a ! j) \<le> x"
      proof (intro allI impI)
        fix j assume "j < mid + 1"
        with mono [of j mid] m 1(5) False show "f (a ! j) \<le> x" by auto
      qed
      have "bisect_right f x a lo hi = bisect_right f x a (mid + 1) hi"
        using True False by (subst bisect_right.simps) (simp add: Let_def mid_def)
      then show ?thesis
        using 1(2) [OF True mid_def False 1(3) _ 1(5) u 1(7)] m by simp
    qed
  next
    case False
    then have "bisect_right f x a lo hi = lo" by (subst bisect_right.simps) simp
    with 1(3-) False show ?thesis by simp
  qed
qed

lemma insort_right_sorted:
  assumes "sorted (map f a)"
  shows "sorted (map f (insort_right f x a))" and "mset (insort_right f x a) = add_mset x (mset a)"
proof -
  define i where "i = bisect_right f (f x) a 0 (length a)"
  have i: "i \<le> length a" "\<forall>j < i. f (a ! j) \<le> f x" "\<forall>j. i \<le> j \<longrightarrow> j < length a \<longrightarrow> f x < f (a ! j)"
    using bisect_right_pos [OF assms, of 0 "length a" "f x"] by (auto simp: i_def)
  have r: "insort_right f x a = take i a @ x # drop i a"
    by (simp add: insort_right_def i_def Let_def)
  have "f y \<le> f x" if "y \<in> set (take i a)" for y
    using that i by (auto simp: in_set_conv_nth)
  moreover have "f x \<le> f y" if y: "y \<in> set (drop i a)" for y
  proof -
    obtain j where "j < length a - i" "y = a ! (i + j)"
      using y i(1) by (auto simp: in_set_conv_nth)
    then show ?thesis using i(3) by (simp add: less_imp_le)
  qed
  moreover have "sorted (map f (take i a))" "sorted (map f (drop i a))"
    using assms by (simp_all add: take_map [symmetric] drop_map [symmetric] sorted_wrt_take sorted_wrt_drop)
  ultimately show "sorted (map f (insort_right f x a))"
    unfolding r by (auto simp: sorted_append intro: order_trans)
  show "mset (insort_right f x a) = add_mset x (mset a)"
    unfolding r using arg_cong [OF append_take_drop_id [of i a], of mset] by (simp del: append_take_drop_id)
qed

lemma sort_key_unique:
  assumes "sorted (map f ys)" and "mset ys = mset xs" and "inj_on f (set xs)"
  shows "ys = sort_key f xs"
proof -
  have s: "set ys = set xs" using assms(2) by (rule mset_eq_setD)
  have "filter (\<lambda>x. f k = f x) ys = filter (\<lambda>x. f k = f x) xs" if "k \<in> set ys" for k
  proof -
    have "filter (\<lambda>x. f k = f x) zs = replicate (count (mset zs) k) k" if "set zs = set xs" for zs
    proof -
      have "filter (\<lambda>x. f k = f x) zs = filter ((=) k) zs"
        using that s \<open>k \<in> set ys\<close> assms(3) by (intro filter_cong) (auto dest: inj_onD)
      then show ?thesis by (simp add: replicate_count_mset_eq_filter_eq)
    qed
    then show ?thesis using s assms(2) by simp
  qed
  then show ?thesis using properties_for_sort_key [OF assms(2) _ assms(1)] by simp
qed

lemma insort_key_lex:
  assumes "sorted_wrt (\<lambda>a b. (f a, g a) < (f b, g b)) ys" and "\<forall>y \<in> set ys. g x < g y"
  shows "sorted_wrt (\<lambda>a b. (f a, g a) < ((f b, g b) :: 'k :: linorder \<times> nat)) (insort_key f x ys)"
  using assms
proof (induction ys)
  case (Cons y ys)
  then show ?case by (auto simp: set_insort_key less_prod_def less_le not_le)
qed simp

lemma sort_key_lex:
  assumes "sorted_wrt (<) (map g xs)"
  shows "sort_key f xs = sort_key (\<lambda>x. (f x, g x) :: 'k :: linorder \<times> nat) xs"
proof -
  have "sorted_wrt (\<lambda>a b. (f a, g a) < (f b, g b)) (sort_key f xs)"
    using assms
  proof (induction xs)
    case (Cons x xs)
    then have "sorted_wrt (\<lambda>a b. (f a, g a) < (f b, g b)) (insort_key f x (sort_key f xs))"
      by (intro insort_key_lex) simp_all
    then show ?case by simp
  qed simp
  then have "sorted (map (\<lambda>x. (f x, g x)) (sort_key f xs))"
    by (auto simp: sorted_map intro: sorted_wrt_mono_rel [rotated])
  moreover have "inj_on (\<lambda>x. (f x, g x)) (set xs)"
    using assms strict_sorted_iff [of "map g xs"] by (auto simp: inj_on_def distinct_map)
  ultimately show ?thesis by (intro sort_key_unique) simp_all
qed

subsection \<open>The buckets implement the live subscriptions\<close>

lemma or_empty_simps [simp]: "or_empty None = []" "or_empty (Some xs) = xs"
  by (simp_all add: or_empty_def)

lemma bucket_set_bucket [simp]:
  "bucket (set_bucket ty k hs b) ty' k' = (if ty' = ty \<and> k' = k then hs else bucket b ty' k')"
  by (simp add: bucket_def set_bucket_def)

lemma bucket_frame [simp]:
  "bucket (b\<lparr>eb_event_count := c\<rparr>) = bucket b" "bucket (b\<lparr>eb_handler_stats := st\<rparr>) = bucket b"
  "bucket (b\<lparr>eb_handler_order_counter := n\<rparr>) = bucket b" "bucket (add_event_count ty m b) = bucket b"
  by (simp_all add: bucket_def add_event_count_def fun_eq_iff)

lemma set_bucket_frame [simp]:
  "eb_handler_order_counter (set_bucket ty k hs b) = eb_handler_order_counter b"
  by (simp add: set_bucket_def)

definition subs_at :: "event_type \<Rightarrow> bus_key option \<Rightarrow> 'h subscription list \<Rightarrow> 'h prioritized_handler list" where
  "subs_at ty k live = map sub_handler (filter (\<lambda>s. sub_type s = ty \<and> sub_key s = k) live)"

definition orders :: "'h subscription list \<Rightarrow> nat list" where
  "orders live = map (\<lambda>s. ph_order (sub_handler s)) live"

definition subs_wf :: "'h event_bus \<Rightarrow> bool" where
  "subs_wf b \<longleftrightarrow> dict_wf (eb_subscriptions b) \<and> (\<forall>bs \<in> snd ` set (eb_subscriptions b). dict_wf bs)"

definition bus_rel :: "'h event_bus \<Rightarrow> nat \<times> 'h subscription list \<Rightarrow> bool" where
  "bus_rel b l \<longleftrightarrow>
     (\<forall>ty k. bucket b ty k = sort_key ph_sort_key (subs_at ty k (snd l))) \<and>
     eb_handler_order_counter b = fst l \<and> sorted_wrt (<) (orders (snd l)) \<and> (\<forall>n \<in> set (orders (snd l)). n < fst l)"

lemma orders_inj:
  assumes "sorted_wrt (<) (orders live)"
  shows "inj_on (\<lambda>s. ph_order (sub_handler s)) (set live)" and "distinct live"
  using assms strict_sorted_iff [of "orders live"] by (simp_all add: orders_def distinct_map)

lemma orders_filter:
  "sorted_wrt (<) (orders live) \<Longrightarrow> sorted_wrt (<) (orders (filter P live))"
  by (induction live) (auto simp: orders_def)

lemma sort_key_inj:
  assumes "sorted_wrt (<) (orders live)" and "set xs \<subseteq> sub_handler ` set live"
  shows "inj_on ph_sort_key (set xs)"
proof (rule inj_onI)
  fix x y assume xy: "x \<in> set xs" "y \<in> set xs" "ph_sort_key x = ph_sort_key y"
  then obtain s t where "s \<in> set live" "t \<in> set live" "x = sub_handler s" "y = sub_handler t"
    using assms(2) by blast
  with xy(3) orders_inj(1) [OF assms(1)] show "x = y"
    by (auto simp: ph_sort_key_def dest: inj_onD)
qed

lemma subs_at_sub: "set (subs_at ty k live) \<subseteq> sub_handler ` set live"
  by (auto simp: subs_at_def)

lemma subs_at_filter: "subs_at ty k (filter P live) = map sub_handler (filter (\<lambda>s. sub_type s = ty \<and> sub_key s = k \<and> P s) live)"
  by (simp add: subs_at_def conj_ac)

lemma bus_rel_filter:
  assumes "bus_rel b (n, live)" and "eb_handler_order_counter b' = eb_handler_order_counter b"
    and "\<And>ty k. bucket b' ty k = sort_key ph_sort_key (subs_at ty k (filter P live))"
  shows "bus_rel b' (n, filter P live)"
  using assms orders_filter [of live P] by (auto simp: bus_rel_def orders_def)

lemma bus_rel_subscribe:
  assumes "bus_rel b (n, live)"
  shows "bus_rel (snd (bus_subscribe ty k h p b)) (live_step (n, live) (Subscribe ty k h p))"
proof -
  let ?ph = "\<lparr>ph_handler = h, ph_priority = p, ph_order = n\<rparr>"
  let ?live = "live @ [(ty, k, ?ph)]"
  have n: "eb_handler_order_counter b = n" and so: "sorted_wrt (<) (orders ?live)"
    using assms by (auto simp: bus_rel_def orders_def sorted_wrt_append)
  have b: "bucket b ty' k' = sort_key ph_sort_key (subs_at ty' k' live)" for ty' k'
    using assms by (simp add: bus_rel_def)
  have "insort_right ph_sort_key ?ph (bucket b ty k) = sort_key ph_sort_key (subs_at ty k ?live)"
  proof (rule sort_key_unique)
    have s: "sorted (map ph_sort_key (bucket b ty k))" by (simp add: b)
    show "sorted (map ph_sort_key (insort_right ph_sort_key ?ph (bucket b ty k)))"
      by (rule insort_right_sorted(1) [OF s])
    show "mset (insort_right ph_sort_key ?ph (bucket b ty k)) = mset (subs_at ty k ?live)"
      by (simp add: insort_right_sorted(2) [OF s]) (simp add: b subs_at_def)
    show "inj_on ph_sort_key (set (subs_at ty k ?live))"
      by (rule sort_key_inj [OF so subs_at_sub])
  qed
  moreover have "subs_at ty' k' ?live = subs_at ty' k' live" if "\<not> (ty' = ty \<and> k' = k)" for ty' k'
    using that by (auto simp: subs_at_def)
  ultimately show ?thesis
    using assms so n by (auto simp: bus_rel_def bus_subscribe_def Let_def b orders_def)
qed

lemma bus_rel_unsubscribe:
  assumes "bus_rel b (n, live)"
  shows "bus_rel (bus_unsubscribe u b) (n, filter (\<lambda>s. s \<noteq> u) live)"
proof -
  obtain ty k ph where u: "u = (ty, k, ph)" by (cases u) auto
  have so: "sorted_wrt (<) (orders live)" using assms by (simp add: bus_rel_def)
  note d = orders_inj(2) [OF so]
  have b: "bucket b ty' k' = sort_key ph_sort_key (subs_at ty' k' live)" for ty' k'
    using assms by (simp add: bus_rel_def)
  have eq: "filter (\<lambda>s. sub_type s = ty \<and> sub_key s = k \<and> s \<noteq> u) live =
            filter (\<lambda>s. sub_type s = ty \<and> sub_key s = k \<and> sub_handler s \<noteq> ph) live"
    by (rule filter_cong) (auto simp: u)
  have f: "subs_at ty k (filter (\<lambda>s. s \<noteq> u) live) = filter (\<lambda>x. x \<noteq> ph) (subs_at ty k live)"
    unfolding subs_at_filter eq by (simp add: subs_at_def filter_map comp_def conj_ac)
  have ds: "distinct (subs_at ty k live)"
    using d by (auto simp: subs_at_def distinct_map inj_on_def)
  have "remove1 ph (subs_at ty k live) = filter (\<lambda>x. x \<noteq> ph) (subs_at ty k live)"
    using distinct_remove1_removeAll [OF ds, of ph] by (simp add: removeAll_filter_not_eq eq_commute)
  then have r: "mset (subs_at ty k live) - {#ph#} = filter_mset (\<lambda>x. x \<noteq> ph) (mset (subs_at ty k live))"
    by (metis mset_filter mset_remove1)
  have "remove1 ph (bucket b ty k) = sort_key ph_sort_key (subs_at ty k (filter (\<lambda>s. s \<noteq> u) live))"
  proof (rule sort_key_unique)
    show "sorted (map ph_sort_key (remove1 ph (bucket b ty k)))"
      by (simp add: b sorted_map_remove1)
    show "mset (remove1 ph (bucket b ty k)) = mset (subs_at ty k (filter (\<lambda>s. s \<noteq> u) live))"
      using r by (simp add: f b)
    show "inj_on ph_sort_key (set (subs_at ty k (filter (\<lambda>s. s \<noteq> u) live)))"
      by (rule sort_key_inj [OF so]) (auto simp: subs_at_def)
  qed
  moreover have "subs_at ty' k' (filter (\<lambda>s. s \<noteq> u) live) = subs_at ty' k' live" if "\<not> (ty' = ty \<and> k' = k)" for ty' k'
    unfolding subs_at_filter using that by (auto simp: subs_at_def u intro!: arg_cong [of _ _ "map sub_handler"] filter_cong)
  moreover have "remove1 ph (bucket b ty k) = bucket b ty k" if "ph \<notin> set (bucket b ty k)"
    using that by (rule remove1_idem)
  ultimately show ?thesis
    by (intro bus_rel_filter [OF assms]) (auto simp: u b)
qed

lemma bucket_clear_subscriptions:
  "bucket (clear_subscriptions (Some t) b) ty k = (if ty = t then [] else bucket b ty k)"
  "bucket (clear_subscriptions None b) ty k = []"
  by (simp_all add: bucket_def clear_subscriptions_def)

lemma clear_subscriptions_frame [simp]:
  "eb_handler_order_counter (clear_subscriptions t b) = eb_handler_order_counter b"
  by (simp add: clear_subscriptions_def split: option.split)

lemma get_clear_key_in:
  "dict_get (snd (clear_key_in k subs)) ty =
     map_option (\<lambda>bs. if or_empty (dict_get bs k) \<noteq> [] then dict_set k [] bs else bs) (dict_get subs ty)"
proof (induction subs)
  case (Cons p subs)
  then show ?case
    by (cases p) (auto simp: Let_def dict_get_Cons split: option.splits prod.splits)
qed simp

lemma bucket_clear_by_key:
  "bucket (snd (clear_subscriptions_by_key k b)) ty k' = (if k' = k then [] else bucket b ty k')"
  by (cases "dict_get (eb_subscriptions b) ty")
    (auto simp: bucket_def clear_subscriptions_by_key_def get_clear_key_in split: prod.splits
      dest!: arg_cong [of "clear_key_in _ _" _ snd])

lemma count_zero_bucket:
  assumes "get_subscription_count ty b = 0"
  shows "bucket b ty k = []"
proof (cases "dict_get (or_empty (dict_get (eb_subscriptions b) ty)) k")
  case (Some hs)
  then have "(k, hs) \<in> set (or_empty (dict_get (eb_subscriptions b) ty))" by (rule dict_get_in_set)
  with assms Some show ?thesis
    by (force simp: get_subscription_count_def bucket_def dict_values_def)
qed (simp add: bucket_def)

lemma clear_types_bucket:
  "bucket (snd (clear_types tys acc b)) ty k = (if ty \<in> set tys then [] else bucket b ty k) \<and>
   eb_handler_order_counter (snd (clear_types tys acc b)) = eb_handler_order_counter b"
proof (induction tys arbitrary: acc b)
  case (Cons t tys)
  then show ?case
    using count_zero_bucket [of t b k] by (auto simp: Let_def bucket_clear_subscriptions)
qed simp

lemma subs_at_filter_type:
  "subs_at ty k (filter (\<lambda>s. P (sub_type s)) live) = (if P ty then subs_at ty k live else [])"
  "subs_at ty k (filter (\<lambda>s. Q (sub_key s)) live) = (if Q k then subs_at ty k live else [])"
  unfolding subs_at_filter
  by (auto simp: subs_at_def filter_empty_conv intro!: arg_cong [of _ _ "map sub_handler"] filter_cong)

lemma publish_groups_frame [simp]:
  "bucket (fst (publish_groups gs b)) = bucket b"
  "eb_handler_order_counter (fst (publish_groups gs b)) = eb_handler_order_counter b"
  "eb_subscriptions (fst (publish_groups gs b)) = eb_subscriptions b"
  by (induction gs b rule: publish_groups.induct)
    (simp_all add: Let_def split_beta add_event_count_def bucket_def fun_eq_iff)

lemma bus_rel_cong:
  "bus_rel b l \<Longrightarrow> bucket b' = bucket b \<Longrightarrow> eb_handler_order_counter b' = eb_handler_order_counter b \<Longrightarrow> bus_rel b' l"
  by (simp add: bus_rel_def)

lemma bus_rel_step:
  assumes "bus_rel b l"
  shows "bus_rel (bus_step b e) (live_step l e)"
proof -
  obtain n live where l: "l = (n, live)" by force
  have b: "bucket b ty k = sort_key ph_sort_key (subs_at ty k live)" for ty k
    using assms by (simp add: bus_rel_def l)
  have c: "eb_handler_order_counter (snd (clear_subscriptions_by_key k b)) = eb_handler_order_counter b" for k
    by (simp add: clear_subscriptions_by_key_def split_beta)
  show ?thesis
  proof (cases e)
    case (Subscribe ty k h p)
    with assms l show ?thesis using bus_rel_subscribe [of b n live] by simp
  next
    case (Unsubscribe u)
    with assms l show ?thesis using bus_rel_unsubscribe [of b n live] by simp
  next
    case (Clear_Subscriptions t)
    show ?thesis
    proof (cases t)
      case None
      with Clear_Subscriptions assms l show ?thesis
        using bus_rel_filter [of b n live "clear_subscriptions None b" "\<lambda>s. False"]
        by (simp add: bucket_clear_subscriptions subs_at_def)
    next
      case (Some ty)
      with Clear_Subscriptions assms l show ?thesis
        using bus_rel_filter [of b n live "clear_subscriptions t b" "\<lambda>s. sub_type s \<noteq> ty"]
        by (simp add: bucket_clear_subscriptions subs_at_filter_type(1) [where P = "\<lambda>t. t \<noteq> ty"] b)
    qed
  next
    case (Clear_By_Key k)
    with assms l show ?thesis
      using bus_rel_filter [of b n live "snd (clear_subscriptions_by_key k b)" "\<lambda>s. sub_key s \<noteq> k"]
      by (simp add: bucket_clear_by_key subs_at_filter_type(2) [where Q = "\<lambda>t. t \<noteq> k"] b c)
  next
    case Clear_External
    with assms l show ?thesis
      using bus_rel_filter [of b n live "snd (clear_external_subscriptions b)" "\<lambda>s. sub_type s \<notin> set external_event_types"]
      by (simp add: clear_external_subscriptions_def clear_types_bucket
          subs_at_filter_type(1) [where P = "\<lambda>t. t \<notin> set external_event_types"] b)
  next
    case (Publish ev)
    with assms l show ?thesis
      by (auto intro!: bus_rel_cong [of b] simp: publish_def Let_def add_event_count_def bucket_def fun_eq_iff)
  next
    case (Publish_Batch evs)
    with assms l show ?thesis
      by (auto intro!: bus_rel_cong [of b] simp: publish_batch_def)
  next
    case (Handler_Done r d)
    with assms l show ?thesis
      by (auto intro!: bus_rel_cong [of b] simp: safe_call_handler_def Let_def)
  next
    case Clear_Event_Stats
    with assms l show ?thesis
      by (auto intro!: bus_rel_cong [of b] simp: clear_event_stats_def bucket_def fun_eq_iff)
  qed
qed

lemma bus_rel_run: "bus_rel b l \<Longrightarrow> bus_rel (foldl bus_step b es) (foldl live_step l es)"
  by (induction es arbitrary: b l) (simp_all add: bus_rel_step)

lemma bus_rel_init: "bus_rel event_bus_init (0, [])"
  by (simp add: bus_rel_def event_bus_init_def bucket_def subs_at_def orders_def)

subsection \<open>Delivery\<close>

lemma prioritized_handlers_buckets:
  "prioritized_handlers ty k b =
     (let wildcard = bucket b ty None; specific = (if k \<noteq> None then bucket b ty k else [])
      in if specific \<noteq> [] \<and> wildcard \<noteq> [] then sort_key ph_sort_key (specific @ wildcard)
         else specific @ wildcard)"
  by (auto simp: prioritized_handlers_def bucket_def Let_def split: option.split)

lemma prioritized_handlers_live:
  assumes "bus_rel b (n, live)"
  shows "prioritized_handlers ty k b =
           sort_key ph_sort_key (map sub_handler (filter (\<lambda>s. sub_type s = ty \<and> (sub_key s = None \<or> sub_key s = k)) live))"
    (is "_ = sort_key _ (map _ ?l)")
proof (rule sort_key_unique)
  have b: "bucket b ty k = sort_key ph_sort_key (subs_at ty k live)" for ty k
    using assms by (simp add: bus_rel_def)
  have so: "sorted_wrt (<) (orders live)" using assms by (simp add: bus_rel_def)
  show "sorted (map ph_sort_key (prioritized_handlers ty k b))"
    by (simp add: prioritized_handlers_buckets Let_def b)
  show "inj_on ph_sort_key (set (map sub_handler ?l))"
    by (rule sort_key_inj [OF so]) auto
  have "mset ?l = mset (filter (\<lambda>s. sub_type s = ty \<and> sub_key s = k) live) +
                  mset (filter (\<lambda>s. sub_type s = ty \<and> sub_key s = None) live)" if "k \<noteq> None"
    using that by (induction live) auto
  then show "mset (prioritized_handlers ty k b) = mset (map sub_handler ?l)"
    by (cases "k = None") (simp_all add: prioritized_handlers_buckets Let_def b subs_at_def)
qed

lemma sort_key_map_sub:
  assumes "sorted_wrt (<) (orders live)"
  shows "sort_key ph_sort_key (map sub_handler live) =
         map sub_handler (sort_key (\<lambda>s. - priority_value (ph_priority (sub_handler s))) live)"
proof -
  let ?f = "\<lambda>s. - priority_value (ph_priority (sub_handler s))"
  have "sort_key ?f live = sort_key (\<lambda>s. ph_sort_key (sub_handler s)) live"
    using sort_key_lex [of "\<lambda>s. ph_order (sub_handler s)" live ?f] assms by (simp add: ph_sort_key_def orders_def)
  moreover have "map sub_handler (sort_key (\<lambda>s. ph_sort_key (sub_handler s)) live) = sort_key ph_sort_key (map sub_handler live)"
  proof (rule sort_key_unique)
    show "sorted (map ph_sort_key (map sub_handler (sort_key (\<lambda>s. ph_sort_key (sub_handler s)) live)))"
      by (simp add: comp_def)
    show "inj_on ph_sort_key (set (map sub_handler live))"
      by (rule sort_key_inj [OF assms]) auto
  qed simp
  ultimately show ?thesis by simp
qed

lemma publish_calls: "snd (publish ev b) = map (\<lambda>ph. (ph_handler ph, ev)) (prioritized_handlers (type_of ev) (event_key ev) b)"
  by (simp add: publish_def Let_def)

lemma publish_live:
  assumes "bus_rel b (n, live)"
  shows "snd (publish ev b) =
           map (\<lambda>s. (ph_handler (sub_handler s), ev))
             (sort_key (\<lambda>s. - priority_value (ph_priority (sub_handler s))) (filter (subscribed_to ev) live))"
proof -
  have "sorted_wrt (<) (orders (filter (subscribed_to ev) live))"
    using assms by (intro orders_filter) (simp add: bus_rel_def)
  from sort_key_map_sub [OF this] show ?thesis
    unfolding publish_calls prioritized_handlers_live [OF assms] subscribed_to_def [abs_def] by simp
qed

lemma unsubscribe_all_live:
  "bus_rel (snd gb) (n, live) \<Longrightarrow>
     bus_rel (snd (unsubscribe_all gb)) (n, filter (\<lambda>s. s \<notin> set (sg_unsubscribe_callbacks (fst gb))) live)"
proof -
  have "bus_rel b (n, live) \<Longrightarrow> bus_rel (foldl (\<lambda>b u. bus_unsubscribe u b) b us) (n, filter (\<lambda>s. s \<notin> set us) live)"
    for us and b :: "'a event_bus" and live
  proof (induction us arbitrary: b live)
    case (Cons u us)
    from Cons.IH [OF bus_rel_unsubscribe [OF Cons.prems, of u]] show ?case by (simp add: conj_commute)
  qed simp
  then show "bus_rel (snd gb) (n, live) \<Longrightarrow> ?thesis"
    by (simp add: unsubscribe_all_def)
qed

subsection \<open>Batches\<close>

text \<open>Publishing the events of a batch one after the other.\<close>

fun publish_each :: "event list \<Rightarrow> 'h event_bus \<Rightarrow> 'h event_bus \<times> ('h \<times> event) list" where
  "publish_each [] b = (b, [])"
| "publish_each (ev # evs) b =
     (let (b1, calls1) = publish ev b; (b2, calls2) = publish_each evs b1 in (b2, calls1 @ calls2))"

definition event_count :: "'h event_bus \<Rightarrow> event_type \<Rightarrow> nat" where
  "event_count b ty = (case dict_get (eb_event_count b) ty of None \<Rightarrow> 0 | Some n \<Rightarrow> n)"

lemma event_count_add [simp]:
  "event_count (add_event_count ty n b) ty' = event_count b ty' + (if ty' = ty then n else 0)"
  by (simp add: event_count_def add_event_count_def split: option.split)

lemma prioritized_handlers_cong: "eb_subscriptions b' = eb_subscriptions b \<Longrightarrow> prioritized_handlers ty k b' = prioritized_handlers ty k b"
  by (simp add: prioritized_handlers_def)

lemma add_event_count_subs [simp]: "eb_subscriptions (add_event_count ty n b) = eb_subscriptions b"
  by (simp add: add_event_count_def)

lemma publish_cong: "eb_subscriptions b' = eb_subscriptions b \<Longrightarrow> snd (publish ev b') = snd (publish ev b)"
  by (simp only: publish_calls prioritized_handlers_cong [of b' b])

lemma publish_subs [simp]: "eb_subscriptions (fst (publish ev b)) = eb_subscriptions b"
  by (simp add: publish_def Let_def)

definition heard :: "'h event_bus \<Rightarrow> event_type \<times> bus_key option \<Rightarrow> bool" where
  "heard b g \<longleftrightarrow> prioritized_handlers (fst g) (snd g) b \<noteq> []"

lemma heard_cong: "eb_subscriptions b' = eb_subscriptions b \<Longrightarrow> heard b' g = heard b g"
  by (simp only: heard_def prioritized_handlers_cong [of b' b])

lemma publish_each_calls: "snd (publish_each evs b) = concat (map (\<lambda>ev. snd (publish ev b)) evs)"
proof (induction evs arbitrary: b)
  case (Cons ev evs)
  then show ?case by (simp add: split_beta Let_def publish_cong [of "fst (publish ev b)" b])
qed simp

lemma publish_each_count:
  "event_count (fst (publish_each evs b)) ty =
     event_count b ty + length (filter (\<lambda>ev. type_of ev = ty \<and> heard b (group_of ev)) evs)"
proof (induction evs arbitrary: b)
  case (Cons ev evs)
  have "event_count (fst (publish ev b)) ty = event_count b ty + (if type_of ev = ty \<and> heard b (group_of ev) then 1 else 0)"
    by (auto simp: publish_def Let_def heard_def group_of_def)
  with Cons show ?case by (simp add: split_beta Let_def heard_cong [of "fst (publish ev b)" b])
qed simp

abbreviation add_to_group ::
  "(event_type \<times> bus_key option, event list) dict \<Rightarrow> event \<Rightarrow> (event_type \<times> bus_key option, event list) dict" where
  "add_to_group d ev \<equiv> dict_set (group_of ev) (or_empty (dict_get d (group_of ev)) @ [ev]) d"

lemma foldl_groups:
  "dict_wf d \<Longrightarrow> dict_wf (foldl add_to_group d evs) \<and>
     or_empty (dict_get (foldl add_to_group d evs) g) = or_empty (dict_get d g) @ filter (\<lambda>ev. group_of ev = g) evs"
  by (induction evs arbitrary: d) auto

lemma group_events_get: "or_empty (dict_get (group_events evs) g) = filter (\<lambda>ev. group_of ev = g) evs"
  and group_events_wf: "dict_wf (group_events evs)"
  using foldl_groups [of "[]" evs] by (simp_all add: group_events_def)

lemma publish_groups_calls:
  assumes "dict_wf gs" and "\<forall>(g, evs) \<in> set gs. \<forall>ev \<in> set evs. group_of ev = g"
  shows "filter (\<lambda>c. group_of (snd c) = g) (snd (publish_groups gs b)) =
         concat (map (\<lambda>ev. snd (publish ev b)) (or_empty (dict_get gs g)))"
  using assms
proof (induction gs b rule: publish_groups.induct)
  case (2 ty k evs gs b)
  let ?hs = "prioritized_handlers ty k b"
  let ?c = "concat (map (\<lambda>ev. map (\<lambda>ph. (ph_handler ph, ev)) ?hs) evs)"
  have ev: "group_of ev = (ty, k)" if "ev \<in> set evs" for ev using 2(4) that by auto
  have c: "?c = concat (map (\<lambda>ev. snd (publish ev b)) evs)"
    using ev by (intro arg_cong [of _ _ concat] map_cong) (auto simp: publish_calls group_of_def)
  have f: "filter (\<lambda>c. group_of (snd c) = g) ?c = (if g = (ty, k) then ?c else [])"
  proof (cases "g = (ty, k)")
    case True
    then show ?thesis using ev by (simp add: filter_id_conv)
  next
    case False
    then show ?thesis using ev by (auto simp: filter_empty_conv)
  qed
  have g: "dict_get gs (ty, k) = None"
    using 2(3) by (auto simp: dict_wf_def dict_get_None_iff)
  have wf: "dict_wf gs" "\<forall>(g, evs) \<in> set gs. \<forall>ev \<in> set evs. group_of ev = g"
    using 2(3,4) by (auto simp: dict_wf_def)
  show ?case
  proof (cases "?hs = []")
    case True
    have "snd (publish ev b) = []" if "ev \<in> set evs" for ev
      using ev [OF that] True by (simp add: publish_calls group_of_def)
    then have "concat (map (\<lambda>ev. snd (publish ev b)) evs) = []" by simp
    with True 2(1) [OF refl True wf] g show ?thesis by (simp add: Let_def dict_get_Cons)
  next
    case False
    have "filter (\<lambda>c. group_of (snd c) = g) (snd (publish_groups gs (add_event_count ty (length evs) b))) =
          concat (map (\<lambda>ev. snd (publish ev b)) (or_empty (dict_get gs g)))"
      using 2(2) [OF refl False wf] publish_cong [of "add_event_count ty (length evs) b" b] by simp
    with False f c g show ?thesis by (auto simp: Let_def split_beta dict_get_Cons)
  qed
qed simp

definition group_weight :: "'h event_bus \<Rightarrow> event_type \<Rightarrow> (event_type \<times> bus_key option, event list) dict \<Rightarrow> nat" where
  "group_weight b ty gs = sum_list (map (\<lambda>(g, evs). if fst g = ty \<and> heard b g then length evs else 0) gs)"

lemma publish_groups_count:
  "event_count (fst (publish_groups gs b)) ty = event_count b ty + group_weight b ty gs"
proof (induction gs b rule: publish_groups.induct)
  case (2 t k evs gs b)
  show ?case
  proof (cases "prioritized_handlers t k b = []")
    case True
    with 2(1) [OF refl True] show ?thesis by (simp add: group_weight_def heard_def)
  next
    case False
    have "group_weight (add_event_count t (length evs) b) ty gs = group_weight b ty gs"
      unfolding group_weight_def by (simp only: heard_cong [OF add_event_count_subs])
    with False 2(2) [OF refl False] show ?thesis
      by (simp add: Let_def split_beta group_weight_def heard_def)
  qed
qed (simp add: group_weight_def)

lemma group_weight_add:
  "group_weight b ty (add_to_group d ev) = group_weight b ty d + (if type_of ev = ty \<and> heard b (group_of ev) then 1 else 0)"
proof (induction d)
  case Nil
  then show ?case by (auto simp: group_weight_def dict_set_def group_of_def)
next
  case (Cons p d)
  then show ?case
    by (cases p) (auto simp: group_weight_def dict_set_def dict_get_Cons group_of_def)
qed

lemma group_weight_group_events:
  "group_weight b ty (group_events evs) = length (filter (\<lambda>ev. type_of ev = ty \<and> heard b (group_of ev)) evs)"
proof -
  have "group_weight b ty (foldl add_to_group d evs) =
        group_weight b ty d + length (filter (\<lambda>ev. type_of ev = ty \<and> heard b (group_of ev)) evs)" for d
    by (induction evs arbitrary: d) (simp_all add: group_weight_add)
  then show ?thesis by (simp add: group_events_def group_weight_def)
qed

subsection \<open>Counting\<close>

lemma sum_lengths_filter:
  "distinct ks \<Longrightarrow> sum_list (map (\<lambda>k. length (filter (\<lambda>s. Q s \<and> g s = k) live)) ks) =
     length (filter (\<lambda>s. Q s \<and> g s \<in> set ks) live)"
proof (induction ks)
  case (Cons k ks)
  have "length (filter (\<lambda>s. Q s \<and> g s \<in> insert k K) live) =
        length (filter (\<lambda>s. Q s \<and> g s = k) live) + length (filter (\<lambda>s. Q s \<and> g s \<in> K) live)" if "k \<notin> K" for K
    using that by (induction live) auto
  from this [of "set ks"] Cons show ?case by simp
qed simp

lemma sum_dict_values:
  "dict_wf d \<Longrightarrow> sum_list (map h (dict_values d)) = sum_list (map (\<lambda>k. case dict_get d k of None \<Rightarrow> z | Some v \<Rightarrow> h v) (dict_keys d))"
proof (induction d)
  case (Cons p d)
  obtain k v where p: "p = (k, v)" by force
  have m: "map (\<lambda>k'. case dict_get (p # d) k' of None \<Rightarrow> z | Some v \<Rightarrow> h v) (dict_keys d) =
        map (\<lambda>k'. case dict_get d k' of None \<Rightarrow> z | Some v \<Rightarrow> h v) (dict_keys d)"
    using Cons.prems p by (intro map_cong) (auto simp: dict_wf_def dict_keys_def dict_get_Cons)
  have "sum_list (map (\<lambda>k'. case dict_get (p # d) k' of None \<Rightarrow> z | Some v \<Rightarrow> h v) (dict_keys d)) = sum_list (map h (dict_values d))"
    unfolding m using Cons by (simp add: dict_wf_def)
  with p show ?case by (simp add: dict_keys_def dict_values_def dict_get_Cons [of k v d k])
qed (simp add: dict_values_def dict_keys_def)

lemma dict_wf_keys: "dict_wf d \<Longrightarrow> distinct (dict_keys d)"
  by (simp add: dict_wf_def dict_keys_def)

lemma subs_wf_get: "subs_wf b \<Longrightarrow> dict_wf (or_empty (dict_get (eb_subscriptions b) ty))"
  by (cases "dict_get (eb_subscriptions b) ty") (force simp: subs_wf_def dest: dict_get_in_set)+

lemma subs_wf_set: "subs_wf b \<Longrightarrow> dict_wf bs \<Longrightarrow> subs_wf (b\<lparr>eb_subscriptions := dict_set ty bs (eb_subscriptions b)\<rparr>)"
  by (auto simp: subs_wf_def set_dict_set)

lemma bucket_live_keys:
  assumes "bus_rel b (n, live)" and "s \<in> set live"
  shows "sub_type s \<in> set (dict_keys (eb_subscriptions b))"
    and "sub_key s \<in> set (dict_keys (or_empty (dict_get (eb_subscriptions b) (sub_type s))))"
proof -
  have "sub_handler s \<in> set (bucket b (sub_type s) (sub_key s))"
    using assms by (force simp: bus_rel_def subs_at_def)
  then obtain bs hs where "dict_get (eb_subscriptions b) (sub_type s) = Some bs" "dict_get bs (sub_key s) = Some hs"
    by (cases "dict_get (eb_subscriptions b) (sub_type s)";
        cases "dict_get (or_empty (dict_get (eb_subscriptions b) (sub_type s))) (sub_key s)") (auto simp: bucket_def)
  then show "sub_type s \<in> set (dict_keys (eb_subscriptions b))"
    and "sub_key s \<in> set (dict_keys (or_empty (dict_get (eb_subscriptions b) (sub_type s))))"
    by (force simp: dict_keys_def dest: dict_get_in_set)+
qed

lemma subs_wf_cong: "subs_wf b \<Longrightarrow> eb_subscriptions b' = eb_subscriptions b \<Longrightarrow> subs_wf b'"
  by (simp add: subs_wf_def)

lemma subs_wf_set_bucket: "subs_wf b \<Longrightarrow> subs_wf (set_bucket ty k hs b)"
  unfolding set_bucket_def by (rule subs_wf_set) (simp_all add: subs_wf_get)

lemma subs_wf_clear: "subs_wf b \<Longrightarrow> subs_wf (clear_subscriptions ty b)"
proof (cases ty)
  case None
  then show "subs_wf b \<Longrightarrow> ?thesis" by (simp add: clear_subscriptions_def subs_wf_def)
next
  case (Some t)
  then show "subs_wf b \<Longrightarrow> ?thesis" by (simp add: clear_subscriptions_def subs_wf_set)
qed

lemma clear_key_in_wf:
  "dict_wf subs \<and> (\<forall>bs \<in> snd ` set subs. dict_wf bs) \<Longrightarrow>
   map fst (snd (clear_key_in k subs)) = map fst subs \<and> (\<forall>bs \<in> snd ` set (snd (clear_key_in k subs)). dict_wf bs)"
proof (induction subs)
  case (Cons p subs)
  then show ?case by (cases p) (auto simp: Let_def split_beta dict_wf_def [of "_ # _"] dict_wf_def [of subs] split: option.splits)
qed simp

lemma subs_wf_step: "subs_wf b \<Longrightarrow> subs_wf (bus_step b e)"
proof (induction e)
  case (Subscribe ty k h p)
  then show ?case
    by (auto simp: bus_subscribe_def Let_def intro!: subs_wf_set_bucket intro: subs_wf_cong)
next
  case (Unsubscribe u)
  then show ?case by (cases u) (auto intro: subs_wf_set_bucket)
next
  case (Clear_By_Key k)
  then show ?case
    using clear_key_in_wf [of "eb_subscriptions b" k]
    by (simp add: clear_subscriptions_by_key_def split_beta subs_wf_def dict_wf_def)
next
  case Clear_External
  have "subs_wf b \<Longrightarrow> subs_wf (snd (clear_types tys acc b))" for tys acc and b :: "'a event_bus"
    by (induction tys arbitrary: acc b) (auto simp: Let_def intro: subs_wf_clear)
  with Clear_External show ?case by (simp add: clear_external_subscriptions_def)
next
  case (Publish_Batch evs)
  then show ?case by (auto simp: publish_batch_def intro: subs_wf_cong)
qed (auto simp: subs_wf_clear safe_call_handler_def clear_event_stats_def Let_def intro: subs_wf_cong)

lemma subs_wf_run: "subs_wf b \<Longrightarrow> subs_wf (foldl bus_step b es)"
  by (induction es arbitrary: b) (simp_all add: subs_wf_step)

lemma subscription_count_live:
  assumes "bus_rel b (n, live)" and "subs_wf b"
  shows "get_subscription_count ty b = length (filter (\<lambda>s. sub_type s = ty) live)"
proof -
  let ?bs = "or_empty (dict_get (eb_subscriptions b) ty)"
  have h: "(case dict_get ?bs k of None \<Rightarrow> 0 | Some v \<Rightarrow> length v) = length (filter (\<lambda>s. sub_type s = ty \<and> sub_key s = k) live)" for k
  proof -
    have "length (bucket b ty k) = length (subs_at ty k live)"
      using assms(1) by (simp add: bus_rel_def)
    then show ?thesis by (cases "dict_get ?bs k") (simp_all add: bucket_def subs_at_def)
  qed
  have "get_subscription_count ty b = length (filter (\<lambda>s. sub_type s = ty \<and> sub_key s \<in> set (dict_keys ?bs)) live)"
    using subs_wf_get [OF assms(2), of ty]
    by (simp add: get_subscription_count_def sum_dict_values [where z = 0] h sum_lengths_filter dict_wf_keys)
  also have "filter (\<lambda>s. sub_type s = ty \<and> sub_key s \<in> set (dict_keys ?bs)) live = filter (\<lambda>s. sub_type s = ty) live"
    using bucket_live_keys(2) [OF assms(1)] by (intro filter_cong) auto
  finally show ?thesis .
qed

lemma total_count_live:
  assumes "bus_rel b (n, live)" and "subs_wf b"
  shows "get_total_subscription_count b = length live"
proof -
  have h: "(case dict_get (eb_subscriptions b) ty of None \<Rightarrow> 0 | Some bs \<Rightarrow> sum_list (map length (dict_values bs))) =
           length (filter (\<lambda>s. True \<and> sub_type s = ty) live)" for ty
    using subscription_count_live [OF assms, of ty]
    by (cases "dict_get (eb_subscriptions b) ty") (simp_all add: get_subscription_count_def dict_values_def)
  have "get_total_subscription_count b = length (filter (\<lambda>s. True \<and> sub_type s \<in> set (dict_keys (eb_subscriptions b))) live)"
    using assms(2) unfolding get_total_subscription_count_def
    by (subst sum_dict_values [where z = 0], simp add: subs_wf_def)
      (simp only: h, rule sum_lengths_filter, simp add: subs_wf_def dict_wf_keys)
  also have "filter (\<lambda>s. True \<and> sub_type s \<in> set (dict_keys (eb_subscriptions b))) live = live"
    using bucket_live_keys(1) [OF assms(1)] by (simp add: filter_id_conv)
  finally show ?thesis .
qed

lemma clear_key_in_count:
  "fst (clear_key_in k subs) = sum_list (map (\<lambda>bs. length (or_empty (dict_get bs k))) (dict_values subs))"
  by (induction subs) (auto simp: dict_values_def Let_def split_beta split: option.splits)

lemma clear_by_key_count:
  assumes "bus_rel b (n, live)" and "subs_wf b"
  shows "fst (clear_subscriptions_by_key k b) = length (filter (\<lambda>s. sub_key s = k) live)"
proof -
  have h: "(case dict_get (eb_subscriptions b) ty of None \<Rightarrow> 0 | Some bs \<Rightarrow> length (or_empty (dict_get bs k))) =
           length (filter (\<lambda>s. sub_key s = k \<and> sub_type s = ty) live)" for ty
  proof -
    have "length (bucket b ty k) = length (subs_at ty k live)"
      using assms(1) by (simp add: bus_rel_def)
    then show ?thesis
      by (cases "dict_get (eb_subscriptions b) ty") (simp_all add: bucket_def subs_at_def conj_commute)
  qed
  have "fst (clear_subscriptions_by_key k b) =
        sum_list (map (\<lambda>bs. length (or_empty (dict_get bs k))) (dict_values (eb_subscriptions b)))"
    by (simp add: clear_subscriptions_by_key_def split_beta clear_key_in_count)
  also have "\<dots> = length (filter (\<lambda>s. sub_key s = k \<and> sub_type s \<in> set (dict_keys (eb_subscriptions b))) live)"
    using assms(2)
    by (subst sum_dict_values [where z = 0], simp add: subs_wf_def)
      (simp only: h, rule sum_lengths_filter, simp add: subs_wf_def dict_wf_keys)
  also have "filter (\<lambda>s. sub_key s = k \<and> sub_type s \<in> set (dict_keys (eb_subscriptions b))) live = filter (\<lambda>s. sub_key s = k) live"
    using bucket_live_keys(1) [OF assms(1)] by (intro filter_cong) auto
  finally show ?thesis .
qed

lemma bus_run_rel:
  obtains n where "bus_rel (foldl bus_step event_bus_init es) (n, snd (foldl live_step (0, []) es))"
    and "subs_wf (foldl bus_step event_bus_init es)"
proof
  show "bus_rel (foldl bus_step event_bus_init es) (fst (foldl live_step (0, []) es), snd (foldl live_step (0, []) es))"
    using bus_rel_run [OF bus_rel_init] by simp
  show "subs_wf (foldl bus_step event_bus_init es)"
    by (rule subs_wf_run) (simp add: subs_wf_def event_bus_init_def)
qed

subsection \<open>Properties\<close>

text \<open>
  C4: Delivery. After every history of bus operations, publishing an event calls exactly the live
  subscriptions of the event's class whose key is the event's key or the wildcard, each once, higher
  priorities first and in subscription order within a priority. A subscription for the specific key
  never shadows a wildcard, an event without key does not reach a wildcard twice, and the callback of
  an unsubscribed, cleared or externally cleared handler is never called again. The right-hand side
  knows nothing of the buckets, the binary search and the merge that compute it.
\<close>

theorem bus_delivery:
  "snd (publish ev (foldl bus_step event_bus_init es)) =
     map (\<lambda>s. (ph_handler (sub_handler s), ev))
       (sort_key (\<lambda>s. - priority_value (ph_priority (sub_handler s)))
         (filter (subscribed_to ev) (snd (foldl live_step (0, []) es))))"
  by (rule bus_run_rel [of es]) (rule publish_live)

text \<open>
  C32: A batch is equivalent to its events published one after the other: for every class and key the
  handler calls of the batch for that class and key are the same, in the same order, so the calls are
  the same as a multiset, and so are the event statistics.
\<close>

theorem bus_batch_equivalent:
  "filter (\<lambda>c. group_of (snd c) = g) (snd (publish_batch evs b)) =
     filter (\<lambda>c. group_of (snd c) = g) (snd (publish_each evs b)) \<and>
   event_count (fst (publish_batch evs b)) ty = event_count (fst (publish_each evs b)) ty"
proof (cases "evs = []")
  case False
  have ge: "\<forall>(g, xs) \<in> set (group_events evs). \<forall>ev \<in> set xs. group_of ev = g"
  proof clarify
    fix t k xs ev assume "((t, k), xs) \<in> set (group_events evs)" "ev \<in> set xs"
    then show "group_of ev = (t, k)"
      using group_events_wf [of evs] group_events_get [of evs "(t, k)"] by (auto simp: dict_get_Some_iff [symmetric])
  qed
  have each: "filter (\<lambda>c. group_of (snd c) = g) (concat (map (\<lambda>ev. snd (publish ev b)) evs)) =
              concat (map (\<lambda>ev. snd (publish ev b)) (filter (\<lambda>ev. group_of ev = g) evs))"
    by (induction evs) (auto simp: publish_calls filter_empty_conv filter_id_conv)
  show ?thesis
    using False publish_groups_calls [OF group_events_wf ge, of g b] publish_groups_count [of "group_events evs" b ty]
    by (simp add: publish_batch_def group_events_get publish_each_calls each publish_each_count group_weight_group_events)
qed (simp add: publish_batch_def)

text \<open>
  No subscription leaks and none is counted twice. After every history the reported totals are
  the numbers of live subscriptions, clearing by key reports exactly the subscriptions it removes,
  and unsubscribing a whole group ends exactly the group's subscriptions: an event published
  afterwards reaches the other subscribers as before.
\<close>

theorem bus_accounting:
  "get_total_subscription_count (foldl bus_step event_bus_init es) = length (snd (foldl live_step (0, []) es)) \<and>
   get_subscription_count ty (foldl bus_step event_bus_init es) =
     length (filter (\<lambda>s. sub_type s = ty) (snd (foldl live_step (0, []) es))) \<and>
   fst (clear_subscriptions_by_key k (foldl bus_step event_bus_init es)) =
     length (filter (\<lambda>s. sub_key s = k) (snd (foldl live_step (0, []) es))) \<and>
   snd (publish ev (snd (unsubscribe_all (gr, foldl bus_step event_bus_init es)))) =
     map (\<lambda>s. (ph_handler (sub_handler s), ev))
       (sort_key (\<lambda>s. - priority_value (ph_priority (sub_handler s)))
         (filter (\<lambda>s. subscribed_to ev s \<and> s \<notin> set (sg_unsubscribe_callbacks gr)) (snd (foldl live_step (0, []) es))))"
proof -
  obtain n where r: "bus_rel (foldl bus_step event_bus_init es) (n, snd (foldl live_step (0, []) es))"
    and w: "subs_wf (foldl bus_step event_bus_init es)"
    by (rule bus_run_rel)
  have "bus_rel (snd (unsubscribe_all (gr, foldl bus_step event_bus_init es)))
          (n, filter (\<lambda>s. s \<notin> set (sg_unsubscribe_callbacks gr)) (snd (foldl live_step (0, []) es)))"
    using unsubscribe_all_live [of "(gr, foldl bus_step event_bus_init es)"] r by simp
  from publish_live [OF this, of ev] show ?thesis
    using total_count_live [OF r w] subscription_count_live [OF r w] clear_by_key_count [OF r w]
    by (simp add: conj_commute)
qed

end
