(* ===== verification/Recovery_Stages.thy ===== *)
theory Recovery_Stages
  imports Events
begin

section \<open>The stages of a connection recovery\<close>

text \<open>
  The parts of \<open>central/coordinators/connection_recovery.py\<close> that belong to one interface: the
  class \<open>InterfaceRecoveryState\<close>, the probes of the single stages and the order of the stages. What
  the environment answers (the client lookup, the TCP connection, a remote call) is an argument of
  the stage that asks for it.
\<close>

subsection \<open>\<open>InterfaceRecoveryState\<close>\<close>

definition MAX_RECOVERY_ATTEMPTS :: nat where "MAX_RECOVERY_ATTEMPTS = 8"
definition HEARTBEAT_RETRY_INTERVAL :: time where "HEARTBEAT_RETRY_INTERVAL = 60"
definition BASE_RETRY_DELAY :: time where "BASE_RETRY_DELAY = 5"
definition MAX_RETRY_DELAY :: time where "MAX_RETRY_DELAY = 60"
definition MAX_CONCURRENT_RECOVERIES :: nat where "MAX_CONCURRENT_RECOVERIES = 2"

record recovery_state =
  rs_interface_id :: string
  rs_attempt_count :: nat
  rs_last_attempt :: "time option"
  rs_last_success :: "time option"
  rs_consecutive_failures :: nat
  rs_current_stage :: recovery_stage
  rs_stage_entered_at :: time
  rs_stages_completed :: "recovery_stage list"
  rs_recovery_start_time :: "time option"

definition recovery_state_init :: "time \<Rightarrow> string \<Rightarrow> recovery_state" where
  "recovery_state_init now iid =
     \<lparr>rs_interface_id = iid, rs_attempt_count = 0, rs_last_attempt = None, rs_last_success = None,
      rs_consecutive_failures = 0, rs_current_stage = IDLE, rs_stage_entered_at = now,
      rs_stages_completed = [], rs_recovery_start_time = None\<rparr>"

definition can_retry :: "recovery_state \<Rightarrow> bool" where
  "can_retry r \<longleftrightarrow> rs_attempt_count r < MAX_RECOVERY_ATTEMPTS"

definition next_retry_delay :: "recovery_state \<Rightarrow> time" where
  "next_retry_delay r =
     (if rs_consecutive_failures r = 0 then BASE_RETRY_DELAY
      else min (BASE_RETRY_DELAY * 2 ^ (rs_consecutive_failures r - 1)) MAX_RETRY_DELAY)"

definition rs_record_failure :: "time \<Rightarrow> recovery_state \<Rightarrow> recovery_state" where
  "rs_record_failure now r =
     r\<lparr>rs_consecutive_failures := rs_consecutive_failures r + 1, rs_last_attempt := Some now,
       rs_attempt_count := rs_attempt_count r + 1\<rparr>"

definition rs_record_success :: "time \<Rightarrow> recovery_state \<Rightarrow> recovery_state" where
  "rs_record_success now r =
     r\<lparr>rs_consecutive_failures := 0, rs_last_success := Some now, rs_last_attempt := Some now,
       rs_attempt_count := rs_attempt_count r + 1\<rparr>"

definition rs_reset :: "recovery_state \<Rightarrow> recovery_state" where
  "rs_reset r =
     r\<lparr>rs_attempt_count := 0, rs_consecutive_failures := 0, rs_current_stage := IDLE,
       rs_stages_completed := [], rs_recovery_start_time := None\<rparr>"

definition rs_start_recovery :: "time \<Rightarrow> recovery_state \<Rightarrow> recovery_state" where
  "rs_start_recovery now r = r\<lparr>rs_recovery_start_time := Some now, rs_stages_completed := []\<rparr>"

definition transition_to_stage :: "time \<Rightarrow> recovery_stage \<Rightarrow> recovery_state \<Rightarrow> real \<times> recovery_state" where
  "transition_to_stage now new_stage r =
     ((now - rs_stage_entered_at r) * 1000,
      r\<lparr>rs_stages_completed :=
          (if rs_current_stage r \<notin> {IDLE, RECOVERED, RS_FAILED}
           then rs_stages_completed r @ [rs_current_stage r] else rs_stages_completed r),
        rs_current_stage := new_stage, rs_stage_entered_at := now\<rparr>)"

text \<open>\<open>(perf_counter() - start) * 1000 if start else 0.0\<close>: a missing start and a start of zero are falsy.\<close>

definition recovery_duration_ms :: "time \<Rightarrow> recovery_state \<Rightarrow> real" where
  "recovery_duration_ms now r =
     (case rs_recovery_start_time r of
        None \<Rightarrow> 0
      | Some t \<Rightarrow> if t = 0 then 0 else (now - t) * 1000)"

subsection \<open>Probes\<close>

text \<open>
  What \<open>get_client\<close> finds (it raises when there is no client), and where a client keeps its port:
  \<open>_interface_config\<close>, \<open>_config.interface_config\<close>, neither, or an attribute error on the way.
\<close>

datatype port_attribute = Direct_Config "int option" | Nested_Config "int option" | No_Config_Attribute | Attribute_Error

record client_view =
  cv_interface :: interface
  cv_port_attribute :: port_attribute

record interface_config =
  ic_interface_id :: string
  ic_interface :: interface
  ic_port :: "int option"

definition json_rpc_only :: "interface \<Rightarrow> bool" where
  \<comment> \<open>INTERFACES_REQUIRING_JSON_RPC_CLIENT - INTERFACES_REQUIRING_XML_RPC\<close>
  "json_rpc_only i \<longleftrightarrow> requires_json_rpc_client i \<and> \<not> requires_xml_rpc i"

definition get_client_port :: "client_view option \<Rightarrow> int option" where
  "get_client_port client =
     (case client of
        None \<Rightarrow> None
      | Some c \<Rightarrow> (case cv_port_attribute c of Direct_Config p \<Rightarrow> p | Nested_Config p \<Rightarrow> p | _ \<Rightarrow> None))"

text \<open>The port that \<open>_stage_tcp_check\<close> probes.\<close>

definition tcp_check_port :: "client_view option \<Rightarrow> interface_config list \<Rightarrow> bool \<Rightarrow> string \<Rightarrow> int option" where
  "tcp_check_port client configs tls iid =
     (case get_client_port client of
        Some p \<Rightarrow> Some p
      | None \<Rightarrow>
          let first = (case find (\<lambda>ic. ic_interface_id ic = iid) configs of
                         None \<Rightarrow> None
                       | Some ic \<Rightarrow> if json_rpc_only (ic_interface ic) then Some (get_json_rpc_default_port tls)
                                    else ic_port ic)
          in case first of
               Some p \<Rightarrow> Some p
             | None \<Rightarrow> (case client of
                          Some c \<Rightarrow> if json_rpc_only (cv_interface c) then Some (get_json_rpc_default_port tls) else None
                        | None \<Rightarrow> None))"

text \<open>
  The polling loop: one probe takes the given time, two seconds of sleep follow a failed probe, and
  the time limit is checked before each probe. \<open>None\<close> means that the loop is still waiting for the
  answer of a further probe.
\<close>

fun tcp_check_loop :: "time \<Rightarrow> time \<Rightarrow> (bool \<times> time) list \<Rightarrow> bool option" where
  "tcp_check_loop limit elapsed probes =
     (if \<not> elapsed < limit then Some False
      else case probes of
             [] \<Rightarrow> None
           | (available, duration) # ps \<Rightarrow>
               if available then Some True else tcp_check_loop limit (elapsed + duration + 2) ps)"

definition stage_tcp_check ::
  "timeout_config \<Rightarrow> client_view option \<Rightarrow> interface_config list \<Rightarrow> bool \<Rightarrow> string \<Rightarrow> (int \<Rightarrow> (bool \<times> time) list) \<Rightarrow> bool option" where
  "stage_tcp_check tc client configs tls iid probes =
     (case tcp_check_port client configs tls iid of
        None \<Rightarrow> Some False
      | Some port \<Rightarrow> tcp_check_loop (reconnect_tcp_check_timeout tc) 0 (probes port))"

datatype 'a answer = Raises | Answers 'a

text \<open>
  \<open>_check_rpc_available\<close>: the availability check of a JSON-RPC-only client, or \<open>system.listMethods\<close>
  of the proxy of another client, if it has one.
\<close>

definition check_rpc_available :: "client_view option \<Rightarrow> bool answer \<Rightarrow> string list answer option \<Rightarrow> bool" where
  "check_rpc_available client availability list_methods =
     (case client of
        None \<Rightarrow> False
      | Some c \<Rightarrow>
          if json_rpc_only (cv_interface c)
          then (case availability of Answers b \<Rightarrow> b | Raises \<Rightarrow> False)
          else (case list_methods of
                  Some (Answers ms) \<Rightarrow> ms \<noteq> []
                | Some Raises \<Rightarrow> False
                | None \<Rightarrow> False))"

text \<open>
  \<open>_stage_reconnect\<close>: with a client, whether \<open>reconnect\<close> raises and the client's availability
  afterwards; without, the creation of the client and the lookup and availability after it.
\<close>

definition stage_reconnect ::
  "bool \<Rightarrow> bool answer \<Rightarrow> interface_config list \<Rightarrow> string \<Rightarrow> bool answer \<Rightarrow> bool answer \<Rightarrow> bool" where
  "stage_reconnect client_exists reconnect_then_available configs iid created available_after =
     (if client_exists
      then (case reconnect_then_available of Raises \<Rightarrow> False | Answers available \<Rightarrow> available)
      else if find (\<lambda>ic. ic_interface_id ic = iid) configs = None then False
      else case created of
             Raises \<Rightarrow> False
           | Answers ok \<Rightarrow> ok \<and> (case available_after of Raises \<Rightarrow> False | Answers available \<Rightarrow> available))"

datatype hub_fetch = Fetch_System_Update | Fetch_Programs | Fetch_Sysvars

definition refresh_hub_data :: "bool \<Rightarrow> bool \<Rightarrow> hub_fetch list" where
  \<comment> \<open>each fetch catches its own exceptions, so a failing one does not keep the later ones\<close>
  "refresh_hub_data enable_program_scan enable_sysvar_scan =
     Fetch_System_Update # (if enable_program_scan then [Fetch_Programs] else []) @
     (if enable_sysvar_scan then [Fetch_Sysvars] else [])"

definition stage_data_load :: "bool \<Rightarrow> unit answer \<Rightarrow> (bool \<times> bool) option \<Rightarrow> bool \<times> hub_fetch list" where
  "stage_data_load client_exists load hub =
     (if \<not> client_exists \<or> load = Raises then (False, [])
      else (True, case hub of None \<Rightarrow> [] | Some (p, s) \<Rightarrow> refresh_hub_data p s))"

subsection \<open>The order of the stages\<close>

text \<open>
  The next stage after a stage whose probe gave \<open>ok\<close>; \<open>None\<close> ends the recovery with \<open>False\<close>. The
  two sleeping stages have no probe.
\<close>

fun next_stage :: "bool \<Rightarrow> recovery_stage \<Rightarrow> bool \<Rightarrow> recovery_stage option" where
  "next_stage client_exists COOLDOWN ok = Some TCP_CHECKING"
| "next_stage client_exists TCP_CHECKING ok =
     (if \<not> ok then None else if client_exists then Some RPC_CHECKING else Some RS_RECONNECTING)"
| "next_stage client_exists RPC_CHECKING ok = (if ok then Some WARMING_UP else None)"
| "next_stage client_exists WARMING_UP ok = Some STABILITY_CHECK"
| "next_stage client_exists STABILITY_CHECK ok = (if ok then Some RS_RECONNECTING else None)"
| "next_stage client_exists RS_RECONNECTING ok = (if ok then Some DATA_LOADING else None)"
| "next_stage client_exists DATA_LOADING ok = (if ok then Some RECOVERED else None)"
| "next_stage client_exists _ ok = None"

text \<open>The stages of a complete recovery, and whether a stage has a probe.\<close>

definition stage_plan :: "bool \<Rightarrow> recovery_stage list" where
  "stage_plan client_exists =
     [COOLDOWN, TCP_CHECKING] @ (if client_exists then [RPC_CHECKING, WARMING_UP, STABILITY_CHECK] else []) @
     [RS_RECONNECTING, DATA_LOADING]"

definition probed :: "recovery_stage \<Rightarrow> bool" where
  "probed st \<longleftrightarrow> st \<notin> {COOLDOWN, WARMING_UP}"

declare tcp_check_loop.simps [simp del]

subsection \<open>Lemmas\<close>

lemma next_retry_delay_bounds: "BASE_RETRY_DELAY \<le> next_retry_delay r \<and> next_retry_delay r \<le> MAX_RETRY_DELAY"
proof -
  have "(1 :: real) \<le> 2 ^ (rs_consecutive_failures r - 1)" by simp
  then show ?thesis by (auto simp: next_retry_delay_def BASE_RETRY_DELAY_def MAX_RETRY_DELAY_def min_def)
qed

lemma next_retry_delay_mono:
  assumes "rs_consecutive_failures r \<le> rs_consecutive_failures r'"
  shows "next_retry_delay r \<le> next_retry_delay r'"
proof (cases "rs_consecutive_failures r = 0")
  case True
  then show ?thesis using next_retry_delay_bounds [of r'] by (simp add: next_retry_delay_def)
next
  case False
  then have "(2 :: real) ^ (rs_consecutive_failures r - 1) \<le> 2 ^ (rs_consecutive_failures r' - 1)"
    using assms by (intro power_increasing) auto
  then have "BASE_RETRY_DELAY * 2 ^ (rs_consecutive_failures r - 1) \<le> BASE_RETRY_DELAY * 2 ^ (rs_consecutive_failures r' - 1)"
    by (simp add: BASE_RETRY_DELAY_def)
  with False assms show ?thesis unfolding next_retry_delay_def by (auto intro: min.mono)
qed

lemma tcp_check_loop_ends:
  assumes "\<forall>(ok, d) \<in> set probes. 0 \<le> d" and "limit \<le> elapsed + 2 * real (length probes)"
  shows "tcp_check_loop limit elapsed probes \<noteq> None"
  using assms
proof (induction probes arbitrary: elapsed)
  case (Cons p probes)
  obtain ok d where p: "p = (ok, d)" by force
  have "tcp_check_loop limit (elapsed + d + 2) probes \<noteq> None"
    using Cons.prems p by (intro Cons.IH) auto
  then show ?case using p by (subst tcp_check_loop.simps) auto
qed (simp add: tcp_check_loop.simps)

lemma tcp_check_loop_True:
  "tcp_check_loop limit elapsed probes = Some True \<Longrightarrow> \<exists>d. (True, d) \<in> set probes"
proof (induction probes arbitrary: elapsed)
  case (Cons p probes)
  obtain ok d where p: "p = (ok, d)" by force
  from Cons.prems p show ?case
    by (subst (asm) tcp_check_loop.simps) (auto split: if_splits dest: Cons.IH)
qed (auto simp: tcp_check_loop.simps split: if_splits)

end
