(* ===== verification/Central_State_Machine.thy ===== *)
theory Central_State_Machine
  imports Events
begin

section \<open>The central state machine (\<open>central/state_machine.py\<close>)\<close>

text \<open>
  \<open>CentralStateMachine\<close>: the table \<open>VALID_CENTRAL_TRANSITIONS\<close>, the record of the slots of the
  class and \<open>transition_to\<close> with its failure information, its history of the last 100 transitions
  and the two events it publishes. The lemmas show the error behaviour, the history as a bounded
  window of the complete log, and, through \<open>guarded_machine\<close>, the reachable states.
\<close>

subsection \<open>Definitions\<close>

fun VALID_CENTRAL_TRANSITIONS :: "central_state \<Rightarrow> central_state list" where
  "VALID_CENTRAL_TRANSITIONS C_STARTING = [C_INITIALIZING, C_STOPPED]"
| "VALID_CENTRAL_TRANSITIONS C_INITIALIZING = [C_RUNNING, C_DEGRADED, C_FAILED, C_STOPPED]"
| "VALID_CENTRAL_TRANSITIONS C_RUNNING = [C_DEGRADED, C_RECOVERING, C_STOPPED]"
| "VALID_CENTRAL_TRANSITIONS C_DEGRADED = [C_RUNNING, C_RECOVERING, C_FAILED, C_STOPPED]"
| "VALID_CENTRAL_TRANSITIONS C_RECOVERING = [C_RUNNING, C_DEGRADED, C_FAILED, C_STOPPED]"
| "VALID_CENTRAL_TRANSITIONS C_FAILED = [C_RECOVERING, C_STOPPED]"
| "VALID_CENTRAL_TRANSITIONS C_STOPPED = []"

datatype central_sm_error = InvalidCentralStateTransitionError central_state central_state string

type_synonym history_entry = "time \<times> central_state \<times> central_state \<times> string"

record central_sm =
  zsm_central_name :: string
  zsm_event_bus :: bool \<comment> \<open>whether an event bus is attached\<close>
  zsm_state :: central_state
  zsm_failure_reason :: failure_reason
  zsm_failure_message :: string
  zsm_failure_interface_id :: "string option"
  zsm_degraded_interfaces :: "(string, failure_reason) dict"
  zsm_last_state_change :: time
  zsm_state_history :: "history_entry list"

definition central_sm_init :: "time \<Rightarrow> string \<Rightarrow> bool \<Rightarrow> central_sm" where
  "central_sm_init now central_name event_bus =
     \<lparr>zsm_central_name = central_name, zsm_event_bus = event_bus, zsm_state = C_STARTING,
      zsm_failure_reason = FR_NONE, zsm_failure_message = [], zsm_failure_interface_id = None,
      zsm_degraded_interfaces = [], zsm_last_state_change = now, zsm_state_history = []\<rparr>"

definition central_is_degraded :: "central_sm \<Rightarrow> bool" where
  "central_is_degraded m \<longleftrightarrow> zsm_state m = C_DEGRADED"

definition central_is_failed :: "central_sm \<Rightarrow> bool" where
  "central_is_failed m \<longleftrightarrow> zsm_state m = C_FAILED"

definition central_is_operational :: "central_sm \<Rightarrow> bool" where
  "central_is_operational m \<longleftrightarrow> zsm_state m \<in> {C_RUNNING, C_DEGRADED}"

definition central_is_recovering :: "central_sm \<Rightarrow> bool" where
  "central_is_recovering m \<longleftrightarrow> zsm_state m = C_RECOVERING"

definition central_is_running :: "central_sm \<Rightarrow> bool" where
  "central_is_running m \<longleftrightarrow> zsm_state m = C_RUNNING"

definition central_is_stopped :: "central_sm \<Rightarrow> bool" where
  "central_is_stopped m \<longleftrightarrow> zsm_state m = C_STOPPED"

definition seconds_in_current_state :: "time \<Rightarrow> central_sm \<Rightarrow> real" where
  "seconds_in_current_state now m = now - zsm_last_state_change m"

definition central_can_transition_to :: "central_sm \<Rightarrow> central_state \<Rightarrow> bool" where
  "central_can_transition_to m target \<longleftrightarrow> target \<in> set (VALID_CENTRAL_TRANSITIONS (zsm_state m))"

definition set_event_bus :: "central_sm \<Rightarrow> central_sm" where
  "set_event_bus m = m\<lparr>zsm_event_bus := True\<rparr>"

definition publish_state_change_event :: "central_sm \<Rightarrow> central_state \<Rightarrow> central_state \<Rightarrow> string \<Rightarrow> event list" where
  "publish_state_change_event m old_state new_state reason =
     (if \<not> zsm_event_bus m then []
      else
        let failure_reason = (if new_state = C_FAILED then Some (zsm_failure_reason m) else None);
            failure_interface_id = (if new_state = C_FAILED then zsm_failure_interface_id m else None);
            degraded_interfaces = (if new_state = C_DEGRADED then Some (zsm_degraded_interfaces m) else None)
        in [SystemStatusChangedEvent (zsm_last_state_change m)
              (empty_status\<lparr>ss_central_state := Some new_state, ss_failure_reason := failure_reason,
                            ss_failure_interface_id := failure_interface_id,
                            ss_degraded_interfaces := degraded_interfaces\<rparr>),
            CentralStateChangedEvent (zsm_last_state_change m) (zsm_central_name m) old_state new_state
              (or_none reason)])"

record transition_args =
  ta_now :: time
  ta_reason :: string
  ta_force :: bool
  ta_failure_reason :: failure_reason
  ta_failure_interface_id :: "string option"
  ta_degraded_interfaces :: "(string, failure_reason) dict option"

definition default_args :: "time \<Rightarrow> string \<Rightarrow> transition_args" where
  "default_args now reason =
     \<lparr>ta_now = now, ta_reason = reason, ta_force = False, ta_failure_reason = FR_NONE,
      ta_failure_interface_id = None, ta_degraded_interfaces = None\<rparr>"

definition track_failure :: "transition_args \<Rightarrow> central_state \<Rightarrow> central_sm \<Rightarrow> central_sm" where
  \<comment> \<open>the failure and degraded information kept on entering a state\<close>
  "track_failure a target m =
     (if target = C_FAILED
      then m\<lparr>zsm_failure_reason := ta_failure_reason a, zsm_failure_message := ta_reason a,
             zsm_failure_interface_id := ta_failure_interface_id a, zsm_degraded_interfaces := []\<rparr>
      else if target = C_DEGRADED
      then m\<lparr>zsm_degraded_interfaces := (case ta_degraded_interfaces a of None \<Rightarrow> [] | Some d \<Rightarrow> d)\<rparr>
      else if target = C_RUNNING
      then m\<lparr>zsm_failure_reason := FR_NONE, zsm_failure_message := [],
             zsm_failure_interface_id := None, zsm_degraded_interfaces := []\<rparr>
      else m)"

definition record_history :: "history_entry \<Rightarrow> central_sm \<Rightarrow> central_sm" where
  "record_history e m =
     (let h = zsm_state_history m @ [e]
      in m\<lparr>zsm_state_history := if length h > 100 then take_last 100 h else h\<rparr>)"

definition central_transition_to ::
  "transition_args \<Rightarrow> central_state \<Rightarrow> central_sm \<Rightarrow> central_sm_error + central_sm \<times> event list" where
  "central_transition_to a target m =
     (if \<not> ta_force a \<and> \<not> central_can_transition_to m target
      then Inl (InvalidCentralStateTransitionError (zsm_state m) target (zsm_central_name m))
      else
        let old_state = zsm_state m;
            m1 = m\<lparr>zsm_state := target, zsm_last_state_change := ta_now a\<rparr>;
            m2 = track_failure a target m1;
            m3 = record_history (zsm_last_state_change m2, old_state, target, ta_reason a) m2
        in Inr (m3, publish_state_change_event m3 old_state target (ta_reason a)))"

text \<open>One call of a client, which catches the exception and goes on with the unchanged machine.\<close>

definition central_call_step :: "central_sm \<Rightarrow> transition_args \<times> central_state \<Rightarrow> central_sm" where
  "central_call_step m c =
     (case central_transition_to (fst c) (snd c) m of Inl _ \<Rightarrow> m | Inr (m', _) \<Rightarrow> m')"

text \<open>The complete log of the successful transitions of a history of calls.\<close>

fun central_log :: "central_sm \<Rightarrow> (transition_args \<times> central_state) list \<Rightarrow> history_entry list" where
  "central_log m [] = []"
| "central_log m (c # cs) =
     (case central_transition_to (fst c) (snd c) m of
        Inl _ \<Rightarrow> central_log m cs
      | Inr (m', _) \<Rightarrow> (ta_now (fst c), zsm_state m, snd c, ta_reason (fst c)) # central_log m' cs)"

text \<open>
  The invariant of the failure information: a running central reports no failure and no degraded
  interface, a failed one no degraded interface, and the history is a window of at most 100
  entries whose last entry is the current state.
\<close>

definition central_sm_inv :: "central_sm \<Rightarrow> bool" where
  "central_sm_inv m \<longleftrightarrow>
     (zsm_state m = C_RUNNING \<longrightarrow> zsm_failure_reason m = FR_NONE \<and> zsm_failure_message m = [] \<and>
        zsm_failure_interface_id m = None) \<and>
     (zsm_state m \<in> {C_RUNNING, C_FAILED} \<longrightarrow> zsm_degraded_interfaces m = []) \<and>
     length (zsm_state_history m) \<le> 100 \<and>
     (zsm_state_history m \<noteq> [] \<longrightarrow>
        (\<exists>s r. last (zsm_state_history m) = (zsm_last_state_change m, s, zsm_state m, r)))"

subsection \<open>Behaviour of one call\<close>

lemma record_history_simps [simp]:
  "zsm_state (record_history e m) = zsm_state m"
  "zsm_event_bus (record_history e m) = zsm_event_bus m"
  "zsm_central_name (record_history e m) = zsm_central_name m"
  "zsm_failure_reason (record_history e m) = zsm_failure_reason m"
  "zsm_failure_message (record_history e m) = zsm_failure_message m"
  "zsm_failure_interface_id (record_history e m) = zsm_failure_interface_id m"
  "zsm_degraded_interfaces (record_history e m) = zsm_degraded_interfaces m"
  "zsm_last_state_change (record_history e m) = zsm_last_state_change m"
  by (simp_all add: record_history_def Let_def)

lemma history_record: "zsm_state_history (record_history e m) = take_last 100 (zsm_state_history m @ [e])"
  by (simp add: record_history_def Let_def)

lemma track_failure_simps [simp]:
  "zsm_state (track_failure a t m) = zsm_state m"
  "zsm_event_bus (track_failure a t m) = zsm_event_bus m"
  "zsm_central_name (track_failure a t m) = zsm_central_name m"
  "zsm_last_state_change (track_failure a t m) = zsm_last_state_change m"
  "zsm_state_history (track_failure a t m) = zsm_state_history m"
  by (simp_all add: track_failure_def)

lemma central_transition_Inr:
  assumes "central_transition_to a t m = Inr (m', es)"
  shows "ta_force a \<or> t \<in> set (VALID_CENTRAL_TRANSITIONS (zsm_state m))"
    and "zsm_state m' = t" and "zsm_last_state_change m' = ta_now a"
    and "zsm_state_history m' = take_last 100 (zsm_state_history m @ [(ta_now a, zsm_state m, t, ta_reason a)])"
    and "zsm_event_bus m' = zsm_event_bus m" and "zsm_central_name m' = zsm_central_name m"
  using assms
  by (auto simp: central_transition_to_def Let_def history_record central_can_transition_to_def split: if_splits)

lemma central_transition_Inl_iff:
  "(\<exists>e. central_transition_to a t m = Inl e) \<longleftrightarrow>
     \<not> ta_force a \<and> t \<notin> set (VALID_CENTRAL_TRANSITIONS (zsm_state m))"
  by (auto simp: central_transition_to_def central_can_transition_to_def Let_def)

lemma last_take_last: "xs \<noteq> [] \<Longrightarrow> 0 < n \<Longrightarrow> last (take_last n xs) = last xs"
  by (simp add: take_last_def)

lemma central_transition_inv [inv_intros]:
  assumes tr: "central_transition_to a t m = Inr (m', es)"
  shows "central_sm_inv m'"
proof -
  have h: "last (zsm_state_history m') = (zsm_last_state_change m', zsm_state m, zsm_state m', ta_reason a)"
    using central_transition_Inr [OF tr] by (simp add: last_take_last)
  have f: "zsm_state m' = C_RUNNING \<longrightarrow> zsm_failure_reason m' = FR_NONE \<and> zsm_failure_message m' = [] \<and>
      zsm_failure_interface_id m' = None"
    and d: "zsm_state m' \<in> {C_RUNNING, C_FAILED} \<longrightarrow> zsm_degraded_interfaces m' = []"
    using tr by (auto simp: central_transition_to_def Let_def track_failure_def split: if_splits)
  show ?thesis
    unfolding central_sm_inv_def using h f d central_transition_Inr(4) [OF tr] by simp
qed

lemma central_init_inv: "central_sm_inv (central_sm_init now name bus)"
  by (simp add: central_sm_inv_def central_sm_init_def)

lemma central_call_step_inv [inv_intros]: "central_sm_inv m \<Longrightarrow> central_sm_inv (central_call_step m c)"
  by (auto simp: central_call_step_def intro: central_transition_inv split: sum.splits)

lemma central_run_inv: "central_sm_inv m \<Longrightarrow> central_sm_inv (foldl central_call_step m cs)"
  by (induction cs arbitrary: m) (auto intro: central_call_step_inv)

lemma central_history_window:
  "zsm_state_history m = take_last 100 h \<Longrightarrow>
     zsm_state_history (foldl central_call_step m cs) = take_last 100 (h @ central_log m cs)"
proof (induction cs arbitrary: m h)
  case (Cons c cs)
  show ?case
  proof (cases "central_transition_to (fst c) (snd c) m")
    case (Inl e)
    with Cons show ?thesis by (simp add: central_call_step_def)
  next
    case (Inr p)
    obtain m' es where p: "p = (m', es)" by force
    let ?e = "(ta_now (fst c), zsm_state m, snd c, ta_reason (fst c))"
    have "zsm_state_history m' = take_last 100 (h @ [?e])"
      using central_transition_Inr(4) [OF Inr [unfolded p]] Cons.prems by (simp add: take_last_snoc)
    from Cons.IH [OF this] Inr p show ?thesis by (simp add: central_call_step_def)
  qed
qed simp

subsection \<open>The machine as a guarded machine\<close>

definition central_unforced ::
  "transition_args \<Rightarrow> central_state \<Rightarrow> central_sm \<Rightarrow> central_sm_error + central_sm \<times> event list" where
  "central_unforced a = central_transition_to (a\<lparr>ta_force := False\<rparr>)"

interpretation zsm: guarded_machine "\<lambda>s. set (VALID_CENTRAL_TRANSITIONS s)" zsm_state central_unforced
proof unfold_locales
  fix t and m :: central_sm and a
  assume "t \<in> set (VALID_CENTRAL_TRANSITIONS (zsm_state m))"
  then have "\<not> (\<exists>e. central_unforced a t m = Inl e)"
    unfolding central_unforced_def by (subst central_transition_Inl_iff) simp
  then obtain m' es where "central_unforced a t m = Inr (m', es)"
    by (cases "central_unforced a t m") auto
  with central_transition_Inr(2) [of "a\<lparr>ta_force := False\<rparr>" t m m' es]
  show "\<exists>m' os. central_unforced a t m = Inr (m', os) \<and> zsm_state m' = t"
    by (auto simp: central_unforced_def)
next
  fix t and m :: central_sm and a
  assume "t \<notin> set (VALID_CENTRAL_TRANSITIONS (zsm_state m))"
  then show "\<exists>e. central_unforced a t m = Inl e"
    unfolding central_unforced_def by (subst central_transition_Inl_iff) simp
qed

subsection \<open>Properties\<close>

fun chained :: "central_state \<Rightarrow> history_entry list \<Rightarrow> bool" where
  "chained s [] = True"
| "chained s ((t, old, new, r) # h) = (old = s \<and> chained new h)"

lemma chained_log: "chained (zsm_state m) (central_log m cs)"
proof (induction cs arbitrary: m)
  case (Cons c cs)
  show ?case
  proof (cases "central_transition_to (fst c) (snd c) m")
    case (Inr p)
    obtain m' es where p: "p = (m', es)" by force
    have "zsm_state m' = snd c"
      using central_transition_Inr(2) Inr p by blast
    with Cons [of m'] Inr p show ?thesis by simp
  qed (use Cons in simp)
qed simp

text \<open>
  The state history. After any sequence of calls on a fresh machine, forced or not, failing
  or not, \<open>state_history\<close> is the window of the last 100 entries of the complete log of the
  successful transitions; that log is chained (each transition starts in the state the one before
  ended in, the first in STARTING), and a non-empty history ends with the current state and its
  time.
\<close>

theorem central_history:
  "let m0 = central_sm_init now name bus; m = foldl central_call_step m0 cs; h = zsm_state_history m
   in h = take_last 100 (central_log m0 cs) \<and> chained C_STARTING (central_log m0 cs) \<and> length h \<le> 100 \<and>
      (h = [] \<or> (\<exists>s r. last h = (zsm_last_state_change m, s, zsm_state m, r)))"
proof -
  let ?m0 = "central_sm_init now name bus"
  have "zsm_state_history ?m0 = take_last 100 []" "zsm_state ?m0 = C_STARTING"
    by (simp_all add: central_sm_init_def)
  with central_history_window [of ?m0 "[]" cs] chained_log [of ?m0 cs]
    central_run_inv [OF central_init_inv, of now name bus cs]
  show ?thesis unfolding central_sm_inv_def Let_def by auto
qed

text \<open>
  The central state machine can always be stopped and never leaves STOPPED: the unforced
  transition to STOPPED succeeds from every other state, an unforced transition from STOPPED
  raises the exception that names both states, and a failed central gets back to RUNNING or
  DEGRADED only through RECOVERING.
\<close>

theorem central_stop_and_recover:
  "(zsm_state m \<noteq> C_STOPPED \<longrightarrow>
      (\<exists>m' es. central_transition_to (default_args now r) C_STOPPED m = Inr (m', es) \<and> zsm_state m' = C_STOPPED)) \<and>
   (zsm_state m = C_STOPPED \<longrightarrow>
      central_transition_to (default_args now r) t m =
        Inl (InvalidCentralStateTransitionError C_STOPPED t (zsm_central_name m))) \<and>
   (zsm_state m = C_FAILED \<longrightarrow> run_machine central_unforced ats m = Inr (m'', es') \<longrightarrow>
      zsm_state m'' \<in> {C_RUNNING, C_DEGRADED} \<longrightarrow> C_RECOVERING \<in> snd ` set ats)"
proof (intro conjI impI)
  assume "zsm_state m \<noteq> C_STOPPED"
  then have "C_STOPPED \<in> set (VALID_CENTRAL_TRANSITIONS (zsm_state m))"
    by (cases "zsm_state m") auto
  from zsm.step_valid [OF this, of "default_args now r"]
  show "\<exists>m' es. central_transition_to (default_args now r) C_STOPPED m = Inr (m', es) \<and> zsm_state m' = C_STOPPED"
    by (simp add: central_unforced_def default_args_def)
next
  assume "zsm_state m = C_STOPPED"
  then show "central_transition_to (default_args now r) t m =
      Inl (InvalidCentralStateTransitionError C_STOPPED t (zsm_central_name m))"
    by (simp add: central_transition_to_def central_can_transition_to_def default_args_def)
next
  assume m: "zsm_state m = C_FAILED" and run: "run_machine central_unforced ats m = Inr (m'', es')"
    and e: "zsm_state m'' \<in> {C_RUNNING, C_DEGRADED}"
  have "set (map snd ats) \<inter> {C_RECOVERING} \<noteq> {}"
    by (rule zsm.run_through [OF run, of "{C_FAILED, C_STOPPED}"]) (use m e in auto)
  then show "C_RECOVERING \<in> snd ` set ats" by auto
qed

theorem central_stop_and_recover_witness:
  "let m = (central_sm_init 0 ''c'' False)\<lparr>zsm_state := C_FAILED\<rparr>;
       ats = [(default_args 1 [], C_RECOVERING), (default_args 2 [], C_RUNNING)]
   in (\<exists>m' es. central_transition_to (default_args 0 []) C_STOPPED m = Inr (m', es) \<and> zsm_state m' = C_STOPPED) \<and>
      (\<exists>m'' es'. run_machine central_unforced ats m = Inr (m'', es') \<and> zsm_state m'' = C_RUNNING) \<and>
      C_RECOVERING \<in> snd ` set ats \<and>
      central_transition_to (default_args 0 []) C_RUNNING (m\<lparr>zsm_state := C_STOPPED\<rparr>) =
        Inl (InvalidCentralStateTransitionError C_STOPPED C_RUNNING ''c'')"
proof -
  let ?m = "(central_sm_init 0 ''c'' False)\<lparr>zsm_state := C_FAILED\<rparr>"
  let ?ats = "[(default_args 1 [], C_RECOVERING), (default_args 2 [], C_RUNNING)]"
  have "valid_walk (\<lambda>s. set (VALID_CENTRAL_TRANSITIONS s)) (zsm_state ?m) (map snd ?ats)"
    by simp
  then obtain m'' es' where r: "run_machine central_unforced ?ats ?m = Inr (m'', es')"
    using zsm.walk_run by blast
  moreover have "zsm_state m'' = C_RUNNING"
    using zsm.run_walk [OF r] by simp
  ultimately show ?thesis
    using central_stop_and_recover [of ?m 0 "[]" C_RUNNING ?ats m'' es']
      central_stop_and_recover [of "?m\<lparr>zsm_state := C_STOPPED\<rparr>" 0 "[]" C_RUNNING ?ats m'' es']
    by (simp add: central_sm_init_def)
qed

text \<open>
  What observers are told. A successful transition of a machine with a bus publishes exactly a
  \<open>SystemStatusChangedEvent\<close> followed by a \<open>CentralStateChangedEvent\<close>; the status event carries
  the failure reason and interface exactly on entering FAILED, the degraded interfaces exactly on
  entering DEGRADED, both as given in the call; without a bus nothing is published.
\<close>

theorem central_transition_events:
  assumes "central_transition_to a target m = Inr (m', es)"
  shows "es = (if \<not> zsm_event_bus m then [] else
     [SystemStatusChangedEvent (ta_now a)
        (case target of
           C_FAILED \<Rightarrow> empty_status\<lparr>ss_central_state := Some C_FAILED, ss_failure_reason := Some (ta_failure_reason a),
                                     ss_failure_interface_id := ta_failure_interface_id a\<rparr>
         | C_DEGRADED \<Rightarrow> empty_status\<lparr>ss_central_state := Some C_DEGRADED,
                           ss_degraded_interfaces := Some (case ta_degraded_interfaces a of None \<Rightarrow> [] | Some d \<Rightarrow> d)\<rparr>
         | _ \<Rightarrow> empty_status\<lparr>ss_central_state := Some target\<rparr>),
      CentralStateChangedEvent (ta_now a) (zsm_central_name m) (zsm_state m) target
        (if ta_reason a = [] then None else Some (ta_reason a))])"
  using assms
  by (cases target)
    (auto simp: central_transition_to_def Let_def publish_state_change_event_def track_failure_def
      or_none_def empty_status_def split: if_splits)

theorem central_transition_events_witness:
  "central_transition_to ((default_args 5 ''lost'')\<lparr>ta_failure_reason := FR_NETWORK\<rparr>) C_FAILED
      ((central_sm_init 0 ''c'' True)\<lparr>zsm_state := C_RECOVERING\<rparr>) =
     Inr ((central_sm_init 5 ''c'' True)\<lparr>zsm_state := C_FAILED, zsm_failure_reason := FR_NETWORK,
            zsm_failure_message := ''lost'', zsm_state_history := [(5, C_RECOVERING, C_FAILED, ''lost'')]\<rparr>,
          [SystemStatusChangedEvent 5 (empty_status\<lparr>ss_central_state := Some C_FAILED, ss_failure_reason := Some FR_NETWORK\<rparr>),
           CentralStateChangedEvent 5 ''c'' C_RECOVERING C_FAILED (Some ''lost'')])"
proof -
  let ?a = "(default_args 5 ''lost'')\<lparr>ta_failure_reason := FR_NETWORK\<rparr>"
  let ?m = "(central_sm_init 0 ''c'' True)\<lparr>zsm_state := C_RECOVERING\<rparr>"
  let ?m' = "(central_sm_init 5 ''c'' True)\<lparr>zsm_state := C_FAILED, zsm_failure_reason := FR_NETWORK,
            zsm_failure_message := ''lost'', zsm_state_history := [(5, C_RECOVERING, C_FAILED, ''lost'')]\<rparr>"
  obtain es where e: "central_transition_to ?a C_FAILED ?m = Inr (?m', es)"
    by (simp add: central_transition_to_def central_can_transition_to_def Let_def track_failure_def
        record_history_def default_args_def central_sm_init_def)
  from central_transition_events [OF e] show ?thesis
    unfolding e by (simp add: default_args_def central_sm_init_def empty_status_def)
qed

end
