(* ===== verification/Connection_Recovery.thy ===== *)
theory Connection_Recovery
  imports Recovery_Stages Central_State_Machine "HOL-Library.Sublist"
begin

section \<open>The connection recovery coordinator\<close>

text \<open>
  \<open>ConnectionRecoveryCoordinator\<close> of \<open>central/coordinators/connection_recovery.py\<close> as a system of
  tasks. Every task created on the task scheduler is an entry of \<open>rc_tasks\<close>, and its phase says at
  which \<open>await\<close> it is suspended; one event resumes one task up to its next suspension, with the
  environment's answer as the input. Between two suspensions the code runs without interruption
  (one event loop), so every interleaving of the tasks, the event handlers and the heartbeat is a
  sequence of events. A stage's awaited publication and the stage's own probe are one suspension,
  because the task does nothing to the coordinator between them.

  The recovery states are never removed from \<open>_recovery_states\<close>, so the state object that a task
  holds is always the entry of the dictionary.
\<close>

subsection \<open>State\<close>

text \<open>
  One run of \<open>_execute_recovery_stages\<close> inside the semaphore: waiting for the semaphore, suspended in
  a stage (with the \<open>client_exists\<close> it determined at its start), or returned.
\<close>

datatype exec_phase = E_Waiting | E_Stage recovery_stage bool | E_Done bool

text \<open>
  The suspensions of \<open>_start_recovery\<close>. \<open>S_Failed_Published\<close> carries whether the publication is awaited
  inside the \<open>try\<close> statement.
\<close>

datatype single_phase =
    S_Start | S_Lost_Published | S_Exec exec_phase | S_Completed_Published | S_Restored_Published
  | S_Attempt_Published | S_Backoff time | S_Failed_Published bool | S_Ended

datatype gather_phase = G_Start | G_Run "exec_phase list" | G_Ended

text \<open>
  A task of \<open>_start_recovery\<close> (the flag tells whether the call is nested in the \<open>try\<close> of an earlier
  attempt) and a task of \<open>_recover_all_interfaces\<close>.
\<close>

datatype rec_task = Single string bool single_phase | Gather "string list" gather_phase

text \<open>
  A task of \<open>_heartbeat_loop\<close>. The field \<open>_heartbeat_task\<close> is what \<open>create_task\<close> of the task scheduler returned, here the
  index of the task: but \<open>Looper.create_task\<close> of \<open>async_support.py\<close> only schedules the task and returns \<open>None\<close>.
\<close>

datatype heartbeat = HB_Loop_Head | HB_Sleeping | HB_Ended

record coordinator =
  rc_name :: string
  rc_configs :: "interface_config list" \<comment> \<open>config.enabled_interface_configs\<close>
  rc_incident_recorder :: bool
  rc_machine :: "central_sm option"
  rc_states :: "(string, recovery_state) dict"
  rc_active :: "string set"
  rc_semaphore :: nat
  rc_in_failed_state :: bool
  rc_shutdown :: bool
  rc_heartbeat_task :: "nat option"
  rc_heartbeats :: "heartbeat list"
  rc_tasks :: "rec_task list"

definition coordinator_init :: "string \<Rightarrow> interface_config list \<Rightarrow> bool \<Rightarrow> central_sm option \<Rightarrow> coordinator" where
  "coordinator_init name configs incident_recorder machine =
     \<lparr>rc_name = name, rc_configs = configs, rc_incident_recorder = incident_recorder, rc_machine = machine,
      rc_states = [], rc_active = {}, rc_semaphore = MAX_CONCURRENT_RECOVERIES, rc_in_failed_state = False,
      rc_shutdown = False, rc_heartbeat_task = None, rc_heartbeats = [], rc_tasks = []\<rparr>"

datatype rec_output =
    Rec_Publish event
  | Incident_Connection_Lost string string nat bool
  | Incident_Connection_Restored string nat real "recovery_stage list" bool
  | Refresh_Interface_Data string
  | Clear_Json_Rpc_Session string

definition in_recovery :: "coordinator \<Rightarrow> bool" where
  "in_recovery c \<longleftrightarrow> rc_active c \<noteq> {}"

definition get_recovery_state :: "string \<Rightarrow> coordinator \<Rightarrow> recovery_state option" where
  "get_recovery_state iid c = dict_get (rc_states c) iid"

definition state_of :: "time \<Rightarrow> string \<Rightarrow> coordinator \<Rightarrow> recovery_state" where
  \<comment> \<open>the entry, which the code creates when it is missing\<close>
  "state_of now iid c = (case get_recovery_state iid c of None \<Rightarrow> recovery_state_init now iid | Some r \<Rightarrow> r)"

definition put_state :: "string \<Rightarrow> recovery_state \<Rightarrow> coordinator \<Rightarrow> coordinator" where
  "put_state iid r c = c\<lparr>rc_states := dict_set iid r (rc_states c)\<rparr>"

definition discard :: "string \<Rightarrow> coordinator \<Rightarrow> coordinator" where
  "discard iid c = c\<lparr>rc_active := rc_active c - {iid}\<rparr>"

subsection \<open>Transitions of the central state\<close>

definition try_transition :: "transition_args \<Rightarrow> central_state \<Rightarrow> coordinator \<Rightarrow> coordinator \<times> rec_output list" where
  "try_transition a target c =
     (case rc_machine c of
        None \<Rightarrow> (c, [])
      | Some m \<Rightarrow>
          if central_can_transition_to m target
          then (case central_transition_to a target m of
                  Inl _ \<Rightarrow> (c, [])
                | Inr (m', evs) \<Rightarrow> (c\<lparr>rc_machine := Some m'\<rparr>, map Rec_Publish evs))
          else (c, []))"

definition transition_to_recovering :: "time \<Rightarrow> coordinator \<Rightarrow> coordinator \<times> rec_output list" where
  "transition_to_recovering now c = try_transition (default_args now ''Connection recovery in progress'') C_RECOVERING c"

definition transition_to_running :: "time \<Rightarrow> coordinator \<Rightarrow> coordinator \<times> rec_output list" where
  "transition_to_running now c = try_transition (default_args now ''All interfaces recovered successfully'') C_RUNNING c"

text \<open>The decimal digits of a number, as in the f-string of the reason.\<close>

fun decimal :: "nat \<Rightarrow> string" where
  "decimal n = (if n < 10 then [char_of (48 + n)] else decimal (n div 10) @ [char_of (48 + n mod 10)])"

declare decimal.simps [simp del]

definition transition_to_degraded :: "time \<Rightarrow> nat \<Rightarrow> coordinator \<Rightarrow> coordinator \<times> rec_output list" where
  "transition_to_degraded now failed_count c =
     try_transition (default_args now (''Partial recovery: '' @ decimal failed_count @ '' interface(s) still failed'')) C_DEGRADED c"

definition transition_to_failed :: "time \<Rightarrow> string \<Rightarrow> coordinator \<Rightarrow> coordinator \<times> rec_output list" where
  "transition_to_failed now iid c =
     try_transition ((default_args now (''Max retries reached for '' @ iid))
                       \<lparr>ta_failure_reason := FR_UNKNOWN, ta_failure_interface_id := Some iid\<rparr>) C_FAILED c"

definition transition_stage :: "time \<Rightarrow> string \<Rightarrow> recovery_stage \<Rightarrow> coordinator \<Rightarrow> coordinator \<times> rec_output list" where
  "transition_stage now iid new_stage c =
     (case get_recovery_state iid c of
        None \<Rightarrow> (c, [])
      | Some r \<Rightarrow>
          if rs_current_stage r = new_stage then (c, [])
          else
            (let (duration_ms, r') = transition_to_stage now new_stage r
             in (put_state iid r' c,
                 [Rec_Publish (RecoveryStageChangedEvent now iid (rs_current_stage r) new_stage duration_ms
                    (int (rs_attempt_count r') + 1))])))"

definition create_task_result :: "nat \<Rightarrow> nat option" where
  "create_task_result i = None"

definition heartbeat_task_running :: "coordinator \<Rightarrow> bool" where
  "heartbeat_task_running c \<longleftrightarrow> (\<exists>i \<in> set_option (rc_heartbeat_task c). rc_heartbeats c ! i \<noteq> HB_Ended)"

definition start_heartbeat_timer :: "coordinator \<Rightarrow> coordinator" where
  "start_heartbeat_timer c =
     (if heartbeat_task_running c then c
      else c\<lparr>rc_heartbeats := rc_heartbeats c @ [HB_Loop_Head],
              rc_heartbeat_task := create_task_result (length (rc_heartbeats c))\<rparr>)"

definition cancel_heartbeat_task :: "coordinator \<Rightarrow> coordinator" where
  "cancel_heartbeat_task c =
     (case rc_heartbeat_task c of
        None \<Rightarrow> c
      | Some i \<Rightarrow> if heartbeat_task_running c then c\<lparr>rc_heartbeats := (rc_heartbeats c)[i := HB_Ended]\<rparr> else c)"

definition stop_heartbeat_timer :: "coordinator \<Rightarrow> coordinator" where
  "stop_heartbeat_timer c =
     (if heartbeat_task_running c then (cancel_heartbeat_task c)\<lparr>rc_heartbeat_task := None\<rparr> else c)"

definition transition_after_recovery :: "time \<Rightarrow> coordinator \<Rightarrow> coordinator \<times> rec_output list" where
  "transition_after_recovery now c =
     (if rc_machine c = None then (c, [])
      else if rc_active c = {}
      then (let (c1, out) = transition_to_running now c
            in (stop_heartbeat_timer (c1\<lparr>rc_in_failed_state := False\<rparr>), out))
      else (c, []))"

subsection \<open>The stages of one interface\<close>

datatype exec_input = Acquire bool | Probe bool

definition exec_step :: "time \<Rightarrow> string \<Rightarrow> exec_input \<Rightarrow> exec_phase \<Rightarrow> coordinator \<Rightarrow> exec_phase \<times> coordinator \<times> rec_output list" where
  "exec_step now iid inp ph c =
     (case (ph, inp) of
        (E_Waiting, Acquire client_exists) \<Rightarrow>
          if rc_semaphore c = 0 then (ph, c, [])
          else if get_recovery_state iid c = None then (E_Done False, c, [])
          else (let (c1, out) = transition_stage now iid COOLDOWN (c\<lparr>rc_semaphore := rc_semaphore c - 1\<rparr>)
                in (E_Stage COOLDOWN client_exists, c1, out))
      | (E_Stage st client_exists, Probe ok) \<Rightarrow>
          if st = RECOVERED then (E_Done True, c\<lparr>rc_semaphore := rc_semaphore c + 1\<rparr>, [])
          else
            (case next_stage client_exists st ok of
               None \<Rightarrow> (E_Done False, c\<lparr>rc_semaphore := rc_semaphore c + 1\<rparr>, [])
             | Some st' \<Rightarrow> (let (c1, out) = transition_stage now iid st' c in (E_Stage st' client_exists, c1, out)))
      | _ \<Rightarrow> (ph, c, []))"

definition holds_semaphore :: "exec_phase \<Rightarrow> bool" where
  "holds_semaphore ph \<longleftrightarrow> (case ph of E_Stage _ _ \<Rightarrow> True | _ \<Rightarrow> False)"

definition release_semaphore :: "nat \<Rightarrow> coordinator \<Rightarrow> coordinator" where
  "release_semaphore n c = c\<lparr>rc_semaphore := rc_semaphore c + n\<rparr>"

subsection \<open>\<open>_start_recovery\<close>\<close>

definition emit_recovery_attempt :: "time \<Rightarrow> string \<Rightarrow> recovery_state \<Rightarrow> rec_output" where
  "emit_recovery_attempt now iid r =
     Rec_Publish (RecoveryAttemptedEvent now iid (int (rs_attempt_count r)) (int MAX_RECOVERY_ATTEMPTS) (rs_current_stage r) False None)"

definition emit_recovery_completed :: "time \<Rightarrow> string \<Rightarrow> recovery_state \<Rightarrow> coordinator \<Rightarrow> rec_output" where
  "emit_recovery_completed now iid r c =
     Rec_Publish (RecoveryCompletedEvent now (Some iid) (rc_name c) (int (rs_attempt_count r)) (recovery_duration_ms now r)
       (rs_stages_completed r) None)"

definition emit_recovery_failed :: "time \<Rightarrow> string \<Rightarrow> recovery_state \<Rightarrow> coordinator \<Rightarrow> rec_output" where
  "emit_recovery_failed now iid r c =
     Rec_Publish (RecoveryFailedEvent now (Some iid) (rc_name c) (int (rs_attempt_count r)) (recovery_duration_ms now r)
       (rs_current_stage r) FR_UNKNOWN True None)"

definition emit_connection_state :: "time \<Rightarrow> string \<Rightarrow> bool \<Rightarrow> rec_output" where
  "emit_connection_state now iid is_connected =
     Rec_Publish (SystemStatusChangedEvent now (empty_status\<lparr>ss_connection_state := Some (iid, is_connected)\<rparr>))"

text \<open>\<open>_handle_max_retries_reached\<close> up to its publication; the heartbeat starts after it.\<close>

definition handle_max_retries_reached :: "time \<Rightarrow> string \<Rightarrow> coordinator \<Rightarrow> coordinator \<times> rec_output list" where
  "handle_max_retries_reached now iid c =
     (let (c1, out) = transition_to_failed now iid (c\<lparr>rc_in_failed_state := True\<rparr>)
      in (c1, out @ (case get_recovery_state iid c1 of None \<Rightarrow> [] | Some r \<Rightarrow> [emit_recovery_failed now iid r c1])))"

definition start_recovery :: "time \<Rightarrow> string \<Rightarrow> bool \<Rightarrow> coordinator \<Rightarrow> single_phase \<times> coordinator \<times> rec_output list" where
  "start_recovery now iid nested c =
     (if rc_shutdown c then (S_Ended, if nested then discard iid c else c, [])
      else
        (let r = state_of now iid c; c1 = put_state iid r c
         in if \<not> can_retry r
            then (let (c2, out) = handle_max_retries_reached now iid c1 in (S_Failed_Published nested, c2, out))
            else
              (let c2 = put_state iid (rs_start_recovery now r) (c1\<lparr>rc_active := insert iid (rc_active c1)\<rparr>);
                   (c3, out) = transition_to_recovering now c2
               in (S_Lost_Published, c3, out @ [emit_connection_state now iid False]))))"

definition restored_incident :: "time \<Rightarrow> string \<Rightarrow> recovery_state \<Rightarrow> coordinator \<Rightarrow> rec_output list" where
  "restored_incident now iid r c =
     (if rc_incident_recorder c
      then [Incident_Connection_Restored iid (rs_attempt_count r) (recovery_duration_ms now r) (rs_stages_completed r)
              (rc_in_failed_state c)]
      else [])"

datatype task_input = Resume | Client_Lookup bool | Exec exec_input | Sub nat exec_input | Cancelled

text \<open>The end of a call: the \<open>finally\<close> clause of its \<open>try\<close>, or of the \<open>try\<close> of the call it is nested in.\<close>

definition end_in_try :: "string \<Rightarrow> coordinator \<Rightarrow> single_phase \<times> coordinator \<times> rec_output list" where
  "end_in_try iid c = (S_Ended, discard iid c, [])"

definition end_before_try :: "bool \<Rightarrow> string \<Rightarrow> coordinator \<Rightarrow> single_phase \<times> coordinator \<times> rec_output list" where
  "end_before_try nested iid c = (S_Ended, if nested then discard iid c else c, [])"

definition exec_finished :: "time \<Rightarrow> string \<Rightarrow> bool \<Rightarrow> coordinator \<Rightarrow> single_phase \<times> coordinator \<times> rec_output list" where
  "exec_finished now iid success c =
     (let r = state_of now iid c
      in if success
         then (let r' = rs_record_success now r; c1 = put_state iid r' c
               in (S_Completed_Published, c1, restored_incident now iid r' c1 @ [emit_recovery_completed now iid r' c1]))
         else (let r' = rs_record_failure now r
               in (S_Attempt_Published, put_state iid r' c, [emit_recovery_attempt now iid r'])))"

definition single_cancelled :: "string \<Rightarrow> bool \<Rightarrow> single_phase \<Rightarrow> coordinator \<Rightarrow> single_phase \<times> coordinator \<times> rec_output list" where
  "single_cancelled iid nested ph c =
     (case ph of
        S_Start \<Rightarrow> end_before_try nested iid c
      | S_Lost_Published \<Rightarrow> end_before_try nested iid c
      | S_Exec e \<Rightarrow> end_in_try iid (release_semaphore (if holds_semaphore e then 1 else 0) c)
      | S_Failed_Published in_try \<Rightarrow> end_before_try in_try iid c
      | S_Ended \<Rightarrow> (S_Ended, c, [])
      | _ \<Rightarrow> end_in_try iid c)"

text \<open>One resumption of a \<open>_start_recovery\<close> task; the first component is whether the call is nested.\<close>

definition single_step ::
  "time \<Rightarrow> string \<Rightarrow> task_input \<Rightarrow> bool \<Rightarrow> single_phase \<Rightarrow> coordinator \<Rightarrow> (bool \<times> single_phase) \<times> coordinator \<times> rec_output list" where
  "single_step now iid inp nested ph c =
     (if inp = Cancelled then (let (ph', c', out) = single_cancelled iid nested ph c in ((nested, ph'), c', out))
      else
        case (ph, inp) of
          (S_Start, Resume) \<Rightarrow> (let (ph', c', out) = start_recovery now iid nested c in ((nested, ph'), c', out))
        | (S_Lost_Published, Client_Lookup found) \<Rightarrow>
            if found then ((nested, S_Exec E_Waiting), c, [Clear_Json_Rpc_Session iid])
            else (let (ph', c', out) = end_before_try nested iid c in ((nested, ph'), c', out))
        | (S_Exec e, Exec x) \<Rightarrow>
            (let (e', c1, out) = exec_step now iid x e c
             in case e' of
                  E_Done success \<Rightarrow>
                    (let (ph', c2, out') = exec_finished now iid success c1 in ((nested, ph'), c2, out @ out'))
                | _ \<Rightarrow> ((nested, S_Exec e'), c1, out))
        | (S_Completed_Published, Resume) \<Rightarrow>
            ((nested, S_Restored_Published), put_state iid (rs_reset (state_of now iid c)) c, [emit_connection_state now iid True])
        | (S_Restored_Published, Resume) \<Rightarrow>
            (let (c1, out) = transition_after_recovery now (discard iid c) in ((nested, S_Ended), discard iid c1, out))
        | (S_Attempt_Published, Resume) \<Rightarrow>
            if \<not> can_retry (state_of now iid c)
            then (let (c1, out) = handle_max_retries_reached now iid c in ((nested, S_Failed_Published True), c1, out))
            else ((nested, S_Backoff (next_retry_delay (state_of now iid c))), c, [])
        | (S_Backoff d, Resume) \<Rightarrow>
            if rc_shutdown c then ((nested, S_Ended), discard iid c, [])
            else (let (ph', c', out) = start_recovery now iid True c in ((True, ph'), c', out))
        | (S_Failed_Published in_try, Resume) \<Rightarrow>
            (let c1 = start_heartbeat_timer c in ((nested, S_Ended), if in_try then discard iid c1 else c1, []))
        | _ \<Rightarrow> ((nested, ph), c, []))"

subsection \<open>\<open>_recover_all_interfaces\<close>\<close>

definition all_done :: "exec_phase list \<Rightarrow> bool" where
  "all_done es \<longleftrightarrow> list_all (\<lambda>e. case e of E_Done _ \<Rightarrow> True | _ \<Rightarrow> False) es"

definition gather_step ::
  "time \<Rightarrow> string list \<Rightarrow> task_input \<Rightarrow> gather_phase \<Rightarrow> coordinator \<Rightarrow> gather_phase \<times> coordinator \<times> rec_output list" where
  "gather_step now ids inp ph c =
     (case (ph, inp) of
        (G_Start, Resume) \<Rightarrow>
          if rc_shutdown c then (G_Ended, c, [])
          else (let (c1, out) = transition_to_recovering now (c\<lparr>rc_active := rc_active c \<union> set ids\<rparr>)
                in (G_Run (map (\<lambda>_. E_Waiting) ids), c1, out))
      | (G_Start, Cancelled) \<Rightarrow> (G_Ended, c, [])
      | (G_Run es, Sub k x) \<Rightarrow>
          if k < length ids \<and> k < length es
          then (let (e', c1, out) = exec_step now (ids ! k) x (es ! k) c in (G_Run (es[k := e']), c1, out))
          else (ph, c, [])
      | (G_Run es, Resume) \<Rightarrow>
          if \<not> all_done es then (ph, c, [])
          else
            (let success_count = length (filter (\<lambda>e. e = E_Done True) es);
                 failed_count = length ids - success_count;
                 c1 = c\<lparr>rc_active := rc_active c - set ids\<rparr>
             in if success_count = length ids
                then (let (c2, out) = transition_to_running now (c1\<lparr>rc_in_failed_state := False\<rparr>) in (G_Ended, c2, out))
                else if success_count > 0
                then (let (c2, out) = transition_to_degraded now failed_count c1 in (G_Ended, c2, out))
                else (G_Ended, c1, []))
      | (G_Run es, Cancelled) \<Rightarrow>
          (G_Ended, release_semaphore (length (filter holds_semaphore es)) (c\<lparr>rc_active := rc_active c - set ids\<rparr>), [])
      | _ \<Rightarrow> (ph, c, []))"

definition task_step :: "time \<Rightarrow> nat \<Rightarrow> task_input \<Rightarrow> coordinator \<Rightarrow> coordinator \<times> rec_output list" where
  "task_step now i inp c =
     (if i < length (rc_tasks c)
      then (case rc_tasks c ! i of
              Single iid nested ph \<Rightarrow>
                (let ((nested', ph'), c', out) = single_step now iid inp nested ph c
                 in (c'\<lparr>rc_tasks := (rc_tasks c')[i := Single iid nested' ph']\<rparr>, out))
            | Gather ids ph \<Rightarrow>
                (let (ph', c', out) = gather_step now ids inp ph c
                 in (c'\<lparr>rc_tasks := (rc_tasks c')[i := Gather ids ph']\<rparr>, out)))
      else (c, []))"

subsection \<open>Event handlers and heartbeat\<close>

definition create_task :: "rec_task \<Rightarrow> coordinator \<Rightarrow> coordinator" where
  "create_task t c = c\<lparr>rc_tasks := rc_tasks c @ [t]\<rparr>"

definition on_connection_lost :: "string \<Rightarrow> string \<Rightarrow> coordinator \<Rightarrow> coordinator \<times> rec_output list" where
  "on_connection_lost iid reason c =
     (if rc_shutdown c \<or> iid \<in> rc_active c then (c, [])
      else
        (create_task (Single iid False S_Start) c,
         if rc_incident_recorder c
         then [Incident_Connection_Lost iid reason
                 (case get_recovery_state iid c of None \<Rightarrow> 0 | Some r \<Rightarrow> rs_attempt_count r) (rc_in_failed_state c)]
         else []))"

definition on_circuit_breaker_tripped :: "string \<Rightarrow> coordinator \<Rightarrow> coordinator" where
  "on_circuit_breaker_tripped iid c =
     (if rc_shutdown c then c
      else if iid \<notin> rc_active c then create_task (Single iid False S_Start) c else c)"

definition on_circuit_breaker_state_changed :: "string \<Rightarrow> circuit_state \<Rightarrow> circuit_state \<Rightarrow> coordinator \<Rightarrow> rec_output list" where
  "on_circuit_breaker_state_changed iid old_state new_state c =
     (if rc_shutdown c then []
      else if old_state = HALF_OPEN \<and> new_state = CLOSED then [Refresh_Interface_Data iid] else [])"

definition no_clients_connected :: string where
  "no_clients_connected = ''no clients connected''"

definition on_central_state_changed :: "time \<Rightarrow> central_state \<Rightarrow> central_state \<Rightarrow> string option \<Rightarrow> coordinator \<Rightarrow> coordinator" where
  "on_central_state_changed now old_state new_state trigger c =
     (if rc_shutdown c then c
      else if new_state \<noteq> C_FAILED then c
      else if old_state = C_INITIALIZING \<and> (case trigger of None \<Rightarrow> False | Some t \<Rightarrow> prefix no_clients_connected t)
      then
        (let c1 = start_heartbeat_timer (c\<lparr>rc_in_failed_state := True\<rparr>)
         in foldl (\<lambda>c ic. put_state (ic_interface_id ic) (state_of now (ic_interface_id ic) c) c) c1 (rc_configs c1))
      else c)"

definition on_heartbeat_timer_fired :: "string list \<Rightarrow> coordinator \<Rightarrow> coordinator" where
  "on_heartbeat_timer_fired ids c =
     (if rc_shutdown c \<or> \<not> rc_in_failed_state c then c else create_task (Gather ids G_Start) c)"

definition failed_interfaces :: "(string \<Rightarrow> bool) \<Rightarrow> coordinator \<Rightarrow> string list" where
  "failed_interfaces available c =
     map fst (filter (\<lambda>(iid, r). \<not> can_retry r \<or> \<not> available iid) (rc_states c))"

definition allow_one_attempt :: "string list \<Rightarrow> coordinator \<Rightarrow> coordinator" where
  "allow_one_attempt ids c =
     foldl (\<lambda>c iid. case get_recovery_state iid c of
                       None \<Rightarrow> c
                     | Some r \<Rightarrow> put_state iid (r\<lparr>rs_attempt_count := MAX_RECOVERY_ATTEMPTS - 1\<rparr>) c) c ids"

text \<open>
  One resumption of the task \<open>i\<close> of \<open>_heartbeat_loop\<close>: from the loop head (where the publication of the previous
  round resumes too) into the sleep, or from the sleep. \<open>available\<close> says which interfaces have a client
  that is available.
\<close>

definition set_heartbeat :: "nat \<Rightarrow> heartbeat \<Rightarrow> coordinator \<Rightarrow> coordinator" where
  "set_heartbeat i h c = c\<lparr>rc_heartbeats := (rc_heartbeats c)[i := h]\<rparr>"

definition heartbeat_step :: "time \<Rightarrow> nat \<Rightarrow> (string \<Rightarrow> bool) \<Rightarrow> coordinator \<Rightarrow> coordinator \<times> rec_output list" where
  "heartbeat_step now i available c =
     (if length (rc_heartbeats c) \<le> i then (c, [])
      else case rc_heartbeats c ! i of
        HB_Loop_Head \<Rightarrow> (set_heartbeat i (if rc_in_failed_state c \<and> \<not> rc_shutdown c then HB_Sleeping else HB_Ended) c, [])
      | HB_Sleeping \<Rightarrow>
          if \<not> rc_in_failed_state c \<or> rc_shutdown c then (set_heartbeat i HB_Ended c, [])
          else
            (let ids = failed_interfaces available c
             in if ids = [] then (c, [])
                else (set_heartbeat i HB_Loop_Head (allow_one_attempt ids c),
                      [Rec_Publish (HeartbeatTimerFiredEvent now (rc_name c) ids)]))
      | HB_Ended \<Rightarrow> (c, []))"

definition coordinator_stop :: "coordinator \<Rightarrow> coordinator" where
  "coordinator_stop c = cancel_heartbeat_task (c\<lparr>rc_shutdown := True\<rparr>)"

datatype rec_event =
    Connection_Lost string string
  | Breaker_Tripped string
  | Breaker_State_Changed string circuit_state circuit_state
  | Central_State_Changed time central_state central_state "string option"
  | Heartbeat_Fired "string list"
  | Heartbeat_Runs time nat "string \<Rightarrow> bool"
  | Heartbeat_Cancelled nat
  | Task_Runs time nat task_input
  | Set_State_Machine central_sm
  | Stop_Coordinator

text \<open>After \<open>stop\<close> the coordinator is unsubscribed; the handlers ignore events that are still underway.\<close>

fun rec_step :: "coordinator \<Rightarrow> rec_event \<Rightarrow> coordinator \<times> rec_output list" where
  "rec_step c (Connection_Lost iid reason) = on_connection_lost iid reason c"
| "rec_step c (Breaker_Tripped iid) = (on_circuit_breaker_tripped iid c, [])"
| "rec_step c (Breaker_State_Changed iid s s') = (c, on_circuit_breaker_state_changed iid s s' c)"
| "rec_step c (Central_State_Changed now s s' t) = (on_central_state_changed now s s' t c, [])"
| "rec_step c (Heartbeat_Fired ids) = (on_heartbeat_timer_fired ids c, [])"
| "rec_step c (Heartbeat_Runs now i available) = heartbeat_step now i available c"
| "rec_step c (Heartbeat_Cancelled i) = (set_heartbeat i HB_Ended c, [])"
| "rec_step c (Task_Runs now i inp) = task_step now i inp c"
| "rec_step c (Set_State_Machine m) = (c\<lparr>rc_machine := Some m\<rparr>, [])"
| "rec_step c Stop_Coordinator = (coordinator_stop c, [])"

definition rec_run :: "coordinator \<Rightarrow> rec_event list \<Rightarrow> coordinator" where
  "rec_run c es = foldl (\<lambda>c e. fst (rec_step c e)) c es"

fun rec_outputs :: "coordinator \<Rightarrow> rec_event list \<Rightarrow> rec_output list" where
  "rec_outputs c [] = []"
| "rec_outputs c (e # es) = snd (rec_step c e) @ rec_outputs (fst (rec_step c e)) es"

subsection \<open>What the helpers leave alone\<close>

definition same_tasks :: "coordinator \<Rightarrow> coordinator \<Rightarrow> bool" where
  "same_tasks c c' \<longleftrightarrow> rc_tasks c' = rc_tasks c \<and> rc_semaphore c' = rc_semaphore c"

lemma same_tasks_refl [simp]: "same_tasks c c"
  by (simp add: same_tasks_def)

lemma same_tasks_trans: "same_tasks c c1 \<Longrightarrow> same_tasks c1 c2 \<Longrightarrow> same_tasks c c2"
  by (simp add: same_tasks_def)

lemma try_transition_cases:
  obtains "try_transition a target c = (c, [])"
  | m m' evs where "rc_machine c = Some m" "central_can_transition_to m target" "central_transition_to a target m = Inr (m', evs)"
      "try_transition a target c = (c\<lparr>rc_machine := Some m'\<rparr>, map Rec_Publish evs)"
proof (cases "rc_machine c")
  case None
  with that(1) show ?thesis by (simp add: try_transition_def)
next
  case (Some m)
  show ?thesis
  proof (cases "central_transition_to a target m")
    case (Inl e)
    with Some that(1) show ?thesis by (simp add: try_transition_def)
  next
    case (Inr p)
    with Some that show ?thesis
      by (cases p; cases "central_can_transition_to m target") (auto simp: try_transition_def)
  qed
qed

lemma try_transition_frame [simp]:
  "rc_tasks (fst (try_transition a t c)) = rc_tasks c" "rc_semaphore (fst (try_transition a t c)) = rc_semaphore c"
  "rc_states (fst (try_transition a t c)) = rc_states c" "rc_active (fst (try_transition a t c)) = rc_active c"
  "rc_heartbeats (fst (try_transition a t c)) = rc_heartbeats c" "rc_heartbeat_task (fst (try_transition a t c)) = rc_heartbeat_task c" "rc_shutdown (fst (try_transition a t c)) = rc_shutdown c"
  "rc_in_failed_state (fst (try_transition a t c)) = rc_in_failed_state c" "rc_name (fst (try_transition a t c)) = rc_name c"
  by (rule try_transition_cases [of a t c]; simp)+

lemma try_transition_eqD:
  "try_transition a t c = (c', out) \<Longrightarrow> rc_tasks c' = rc_tasks c \<and> rc_semaphore c' = rc_semaphore c \<and>
     rc_states c' = rc_states c \<and> rc_heartbeats c' = rc_heartbeats c \<and> rc_heartbeat_task c' = rc_heartbeat_task c \<and> rc_shutdown c' = rc_shutdown c \<and>
     rc_in_failed_state c' = rc_in_failed_state c \<and> rc_active c' = rc_active c"
  using try_transition_frame [of a t c] by simp

lemmas central_moves = transition_to_recovering_def transition_to_running_def transition_to_degraded_def transition_to_failed_def

lemma put_state_frame [simp]:
  "rc_tasks (put_state iid r c) = rc_tasks c" "rc_semaphore (put_state iid r c) = rc_semaphore c"
  "rc_active (put_state iid r c) = rc_active c" "rc_heartbeats (put_state iid r c) = rc_heartbeats c" "rc_heartbeat_task (put_state iid r c) = rc_heartbeat_task c"
  "rc_shutdown (put_state iid r c) = rc_shutdown c" "rc_in_failed_state (put_state iid r c) = rc_in_failed_state c"
  "rc_machine (put_state iid r c) = rc_machine c" "rc_name (put_state iid r c) = rc_name c"
  by (simp_all add: put_state_def)

lemma get_put_state [simp]:
  "get_recovery_state iid' (put_state iid r c) = (if iid' = iid then Some r else get_recovery_state iid' c)"
  by (simp add: get_recovery_state_def put_state_def)

lemma get_recovery_state_cong: "rc_states c' = rc_states c \<Longrightarrow> get_recovery_state iid c' = get_recovery_state iid c"
  by (simp add: get_recovery_state_def)

lemma discard_frame [simp]:
  "rc_tasks (discard iid c) = rc_tasks c" "rc_semaphore (discard iid c) = rc_semaphore c"
  "rc_states (discard iid c) = rc_states c" "rc_heartbeats (discard iid c) = rc_heartbeats c" "rc_heartbeat_task (discard iid c) = rc_heartbeat_task c"
  "rc_shutdown (discard iid c) = rc_shutdown c" "rc_in_failed_state (discard iid c) = rc_in_failed_state c"
  "rc_machine (discard iid c) = rc_machine c" "rc_active (discard iid c) = rc_active c - {iid}"
  by (simp_all add: discard_def)

lemma transition_stage_frame [simp]:
  "rc_tasks (fst (transition_stage now iid st c)) = rc_tasks c"
  "rc_semaphore (fst (transition_stage now iid st c)) = rc_semaphore c"
  "rc_active (fst (transition_stage now iid st c)) = rc_active c"
  "rc_heartbeats (fst (transition_stage now iid st c)) = rc_heartbeats c" "rc_heartbeat_task (fst (transition_stage now iid st c)) = rc_heartbeat_task c"
  "rc_shutdown (fst (transition_stage now iid st c)) = rc_shutdown c"
  "rc_in_failed_state (fst (transition_stage now iid st c)) = rc_in_failed_state c"
  "rc_machine (fst (transition_stage now iid st c)) = rc_machine c"
  by (simp_all add: transition_stage_def transition_to_stage_def Let_def split: option.splits)

lemma transition_stage_eqD:
  "transition_stage now iid st c = (c', out) \<Longrightarrow> rc_tasks c' = rc_tasks c \<and> rc_semaphore c' = rc_semaphore c"
  using transition_stage_frame(1,2) [of now iid st c] by simp

lemma heartbeat_timer_frame [simp]:
  "rc_tasks (start_heartbeat_timer c) = rc_tasks c" "rc_semaphore (start_heartbeat_timer c) = rc_semaphore c"
  "rc_tasks (stop_heartbeat_timer c) = rc_tasks c" "rc_semaphore (stop_heartbeat_timer c) = rc_semaphore c"
  "rc_in_failed_state (start_heartbeat_timer c) = rc_in_failed_state c" "rc_in_failed_state (stop_heartbeat_timer c) = rc_in_failed_state c"
  "rc_shutdown (start_heartbeat_timer c) = rc_shutdown c" "rc_shutdown (stop_heartbeat_timer c) = rc_shutdown c"
  "rc_states (start_heartbeat_timer c) = rc_states c" "rc_machine (start_heartbeat_timer c) = rc_machine c"
  "rc_active (start_heartbeat_timer c) = rc_active c" "rc_active (stop_heartbeat_timer c) = rc_active c"
  "rc_states (stop_heartbeat_timer c) = rc_states c" "rc_machine (stop_heartbeat_timer c) = rc_machine c"
  by (simp_all add: start_heartbeat_timer_def stop_heartbeat_timer_def cancel_heartbeat_task_def split: option.splits)

lemma set_heartbeat_frame [simp]:
  "rc_tasks (set_heartbeat i h c) = rc_tasks c" "rc_semaphore (set_heartbeat i h c) = rc_semaphore c"
  "rc_in_failed_state (set_heartbeat i h c) = rc_in_failed_state c" "rc_shutdown (set_heartbeat i h c) = rc_shutdown c"
  "rc_heartbeat_task (set_heartbeat i h c) = rc_heartbeat_task c" "rc_states (set_heartbeat i h c) = rc_states c"
  "rc_tasks (cancel_heartbeat_task c) = rc_tasks c" "rc_semaphore (cancel_heartbeat_task c) = rc_semaphore c"
  by (simp_all add: set_heartbeat_def cancel_heartbeat_task_def split: option.splits)

lemma handle_max_frame:
  "rc_tasks (fst (handle_max_retries_reached now iid c)) = rc_tasks c"
  "rc_semaphore (fst (handle_max_retries_reached now iid c)) = rc_semaphore c"
  "rc_heartbeats (fst (handle_max_retries_reached now iid c)) = rc_heartbeats c" "rc_heartbeat_task (fst (handle_max_retries_reached now iid c)) = rc_heartbeat_task c"
  "rc_shutdown (fst (handle_max_retries_reached now iid c)) = rc_shutdown c"
  by (simp_all add: handle_max_retries_reached_def transition_to_failed_def split_beta Let_def)

lemma start_recovery_frame:
  "rc_tasks (fst (snd (start_recovery now iid nested c))) = rc_tasks c"
  "rc_semaphore (fst (snd (start_recovery now iid nested c))) = rc_semaphore c"
  by (simp_all add: start_recovery_def handle_max_frame transition_to_recovering_def split_beta Let_def)

lemma transition_after_frame:
  "rc_tasks (fst (transition_after_recovery now c)) = rc_tasks c"
  "rc_semaphore (fst (transition_after_recovery now c)) = rc_semaphore c"
  by (simp_all add: transition_after_recovery_def transition_to_running_def split_beta Let_def)

lemma handle_max_eqD:
  "handle_max_retries_reached now iid c = (c', out) \<Longrightarrow> rc_tasks c' = rc_tasks c \<and> rc_semaphore c' = rc_semaphore c \<and>
     rc_heartbeats c' = rc_heartbeats c \<and> rc_heartbeat_task c' = rc_heartbeat_task c \<and> rc_shutdown c' = rc_shutdown c"
  using handle_max_frame [of now iid c] by simp

lemma start_recovery_eqD:
  "start_recovery now iid nested c = (ph, c', out) \<Longrightarrow> rc_tasks c' = rc_tasks c \<and> rc_semaphore c' = rc_semaphore c"
  using start_recovery_frame [of now iid nested c] by simp

lemma transition_after_eqD:
  "transition_after_recovery now c = (c', out) \<Longrightarrow> rc_tasks c' = rc_tasks c \<and> rc_semaphore c' = rc_semaphore c"
  using transition_after_frame [of now c] by simp

subsection \<open>The semaphore\<close>

definition exec_held :: "exec_phase \<Rightarrow> nat" where
  "exec_held e = (if holds_semaphore e then 1 else 0)"

fun single_held :: "single_phase \<Rightarrow> nat" where
  "single_held (S_Exec e) = exec_held e"
| "single_held _ = 0"

fun gather_held :: "gather_phase \<Rightarrow> nat" where
  "gather_held (G_Run es) = sum_list (map exec_held es)"
| "gather_held _ = 0"

fun task_held :: "rec_task \<Rightarrow> nat" where
  "task_held (Single _ _ ph) = single_held ph"
| "task_held (Gather _ ph) = gather_held ph"

lemma exec_held_simps [simp]: "exec_held E_Waiting = 0" "exec_held (E_Stage st b) = 1" "exec_held (E_Done b) = 0"
  by (simp_all add: exec_held_def holds_semaphore_def)

lemma exec_step_semaphore:
  "exec_step now iid x e c = (e', c', out) \<Longrightarrow>
     rc_tasks c' = rc_tasks c \<and> rc_semaphore c' + exec_held e' = rc_semaphore c + exec_held e"
  by (auto simp: exec_step_def split_beta Let_def dest!: transition_stage_eqD split: exec_phase.splits exec_input.splits if_splits option.splits)

lemma sum_held_update:
  "k < length es \<Longrightarrow> sum_list (map h (es[k := e'])) + h (es ! k) = sum_list (map h es) + (h e' :: nat)"
  by (induction es arbitrary: k) (auto simp: nth_Cons split: nat.splits)

lemma exec_finished_frame:
  "exec_finished now iid ok c = (ph, c', out) \<Longrightarrow> rc_tasks c' = rc_tasks c \<and> rc_semaphore c' = rc_semaphore c \<and> single_held ph = 0"
  by (auto simp: exec_finished_def Let_def split: if_splits)

lemma single_cancelled_semaphore:
  "single_cancelled iid nested ph c = (ph', c', out) \<Longrightarrow>
     rc_tasks c' = rc_tasks c \<and> rc_semaphore c' + single_held ph' = rc_semaphore c + single_held ph"
  by (cases ph) (auto simp: single_cancelled_def end_before_try_def end_in_try_def release_semaphore_def exec_held_def)

lemma start_recovery_held:
  "start_recovery now iid nested c = (ph, c', out) \<Longrightarrow>
     rc_tasks c' = rc_tasks c \<and> rc_semaphore c' = rc_semaphore c \<and> single_held ph = 0"
  using start_recovery_eqD [of now iid nested c ph c' out]
  by (auto simp: start_recovery_def split_beta Let_def split: if_splits)

lemma single_step_exec:
  assumes "exec_step now iid x e c = (e', c1, out)"
  shows "single_step now iid (Exec x) nested (S_Exec e) c =
           (case e' of
              E_Done ok \<Rightarrow> (let (ph', c2, out') = exec_finished now iid ok c1 in ((nested, ph'), c2, out @ out'))
            | _ \<Rightarrow> ((nested, S_Exec e'), c1, out))"
  using assms by (simp add: single_step_def)

lemma single_step_semaphore:
  assumes "single_step now iid inp nested ph c = ((nested', ph'), c', out)"
  shows "rc_tasks c' = rc_tasks c \<and> rc_semaphore c' + single_held ph' = rc_semaphore c + single_held ph"
proof (cases "\<exists>e x. ph = S_Exec e \<and> inp = Exec x")
  case True
  then obtain e x e' c1 out1 where e: "ph = S_Exec e" "inp = Exec x" and s: "exec_step now iid x e c = (e', c1, out1)"
    by (metis prod_cases3)
  from exec_step_semaphore [OF s] assms e show ?thesis
    by (cases e') (auto simp: single_step_exec [OF s] split: prod.splits dest: exec_finished_frame)
next
  case False
  show ?thesis
  proof (cases "inp = Cancelled")
    case True
    with assms show ?thesis
      by (auto simp: single_step_def split: prod.splits dest!: single_cancelled_semaphore)
  next
    case not_cancelled: False
    with False assms show ?thesis
      by (cases ph; cases inp)
        (auto simp: single_step_def end_before_try_def Let_def split: if_splits prod.splits
          dest: start_recovery_held transition_after_eqD handle_max_eqD)
  qed
qed

lemma gather_step_semaphore:
  assumes "gather_step now ids inp ph c = (ph', c', out)"
  shows "rc_tasks c' = rc_tasks c \<and> rc_semaphore c' + gather_held ph' = rc_semaphore c + gather_held ph"
proof (cases "\<exists>es k x. ph = G_Run es \<and> inp = Sub k x \<and> k < length ids \<and> k < length es")
  case True
  then obtain es k x e' c1 out1 where e: "ph = G_Run es" "inp = Sub k x" "k < length ids" "k < length es"
    and s: "exec_step now (ids ! k) x (es ! k) c = (e', c1, out1)"
    by (metis prod_cases3)
  from exec_step_semaphore [OF s] assms e sum_held_update [of k es exec_held e'] show ?thesis
    by (auto simp: gather_step_def s)
next
  case False
  have d: "sum_list (map exec_held es) = 0" if "all_done es" for es
    using that by (induction es) (auto simp: all_done_def split: exec_phase.splits)
  have h: "length (filter holds_semaphore es) = sum_list (map exec_held es)" for es
    by (induction es) (auto simp: exec_held_def)
  have w: "sum_list (map (exec_held \<circ> (\<lambda>_. E_Waiting)) xs) = 0" for xs :: "string list"
    by (induction xs) auto
  from False assms show ?thesis
    by (cases ph; cases inp)
      (auto simp: gather_step_def split_beta Let_def central_moves release_semaphore_def d h w split: if_splits
        dest!: try_transition_eqD)
qed

lemma init_states_frame [simp]:
  "rc_tasks (foldl (\<lambda>c ic. put_state (g ic) (h c ic) c) c xs) = rc_tasks c"
  "rc_semaphore (foldl (\<lambda>c ic. put_state (g ic) (h c ic) c) c xs) = rc_semaphore c"
  "rc_heartbeats (foldl (\<lambda>c ic. put_state (g ic) (h c ic) c) c xs) = rc_heartbeats c" "rc_heartbeat_task (foldl (\<lambda>c ic. put_state (g ic) (h c ic) c) c xs) = rc_heartbeat_task c"
  "rc_shutdown (foldl (\<lambda>c ic. put_state (g ic) (h c ic) c) c xs) = rc_shutdown c"
  "rc_in_failed_state (foldl (\<lambda>c ic. put_state (g ic) (h c ic) c) c xs) = rc_in_failed_state c"
  by (induction xs arbitrary: c) simp_all

lemma allow_one_attempt_frame [simp]:
  "rc_tasks (allow_one_attempt ids c) = rc_tasks c" "rc_semaphore (allow_one_attempt ids c) = rc_semaphore c"
  "rc_in_failed_state (allow_one_attempt ids c) = rc_in_failed_state c" "rc_shutdown (allow_one_attempt ids c) = rc_shutdown c"
  "rc_heartbeats (allow_one_attempt ids c) = rc_heartbeats c" "rc_heartbeat_task (allow_one_attempt ids c) = rc_heartbeat_task c"
  by (induction ids arbitrary: c) (simp_all add: allow_one_attempt_def split: option.split)

definition tasks_held :: "coordinator \<Rightarrow> nat" where
  "tasks_held c = sum_list (map task_held (rc_tasks c))"

definition semaphore_inv :: "coordinator \<Rightarrow> bool" where
  "semaphore_inv c \<longleftrightarrow> rc_semaphore c + tasks_held c = MAX_CONCURRENT_RECOVERIES"

lemma semaphore_inv_cong:
  "semaphore_inv c \<Longrightarrow> rc_tasks c' = rc_tasks c \<Longrightarrow> rc_semaphore c' = rc_semaphore c \<Longrightarrow> semaphore_inv c'"
  by (simp add: semaphore_inv_def tasks_held_def)

lemma semaphore_inv_create: "semaphore_inv c \<Longrightarrow> task_held t = 0 \<Longrightarrow> semaphore_inv (create_task t c)"
  by (simp add: semaphore_inv_def tasks_held_def create_task_def)

lemma semaphore_inv_task_step:
  assumes "semaphore_inv c"
  shows "semaphore_inv (fst (task_step now i inp c))"
proof (cases "i < length (rc_tasks c)")
  case True
  note u = sum_held_update [OF True, of task_held]
  show ?thesis
  proof (cases "rc_tasks c ! i")
    case (Single iid nested ph)
    obtain nested' ph' c' out where s: "single_step now iid inp nested ph c = ((nested', ph'), c', out)"
      by (metis prod_cases3 surj_pair)
    from single_step_semaphore [OF s] u [of "Single iid nested' ph'"] assms True Single show ?thesis
      by (simp add: task_step_def s semaphore_inv_def tasks_held_def)
  next
    case (Gather ids ph)
    obtain ph' c' out where s: "gather_step now ids inp ph c = (ph', c', out)"
      by (metis prod_cases3)
    from gather_step_semaphore [OF s] u [of "Gather ids ph'"] assms True Gather show ?thesis
      by (simp add: task_step_def s semaphore_inv_def tasks_held_def)
  qed
qed (simp add: task_step_def assms)

lemma semaphore_inv_step: "semaphore_inv c \<Longrightarrow> semaphore_inv (fst (rec_step c e))"
proof (cases e)
  case (Central_State_Changed now s s' t)
  then show "semaphore_inv c \<Longrightarrow> ?thesis"
    by (auto simp: on_central_state_changed_def Let_def intro: semaphore_inv_cong)
next
  case (Heartbeat_Runs now av)
  then show "semaphore_inv c \<Longrightarrow> ?thesis"
    by (auto simp: heartbeat_step_def Let_def split: heartbeat.splits intro: semaphore_inv_cong)
next
  case (Task_Runs now i inp)
  then show "semaphore_inv c \<Longrightarrow> ?thesis" by (simp add: semaphore_inv_task_step)
qed (auto simp: on_connection_lost_def on_circuit_breaker_tripped_def on_heartbeat_timer_fired_def coordinator_stop_def
    intro: semaphore_inv_create semaphore_inv_cong)

interpretation sem: step_system "\<lambda>c e. fst (rec_step c e)" semaphore_inv "\<lambda>_. True"
  by unfold_locales (rule semaphore_inv_step)

lemma semaphore_inv_init: "semaphore_inv (coordinator_init name configs inc m)"
  by (simp add: semaphore_inv_def tasks_held_def coordinator_init_def)

subsection \<open>The heartbeat\<close>

definition heartbeat_alive :: "coordinator \<Rightarrow> bool" where
  "heartbeat_alive c \<longleftrightarrow> (\<exists>h \<in> set (rc_heartbeats c). h \<noteq> HB_Ended)"

fun failing_task :: "rec_task \<Rightarrow> bool" where
  "failing_task (Single _ _ (S_Failed_Published _)) = True"
| "failing_task _ = False"

text \<open>
  Since the task scheduler returns nothing, the coordinator holds no handle of a heartbeat: it never
  sees one running and never cancels one. In the failed state a heartbeat runs, or a task has just
  published the failure and starts one when it resumes.
\<close>

definition heartbeat_inv :: "coordinator \<Rightarrow> bool" where
  "heartbeat_inv c \<longleftrightarrow>
     rc_heartbeat_task c = None \<and>
     (rc_in_failed_state c \<and> \<not> rc_shutdown c \<longrightarrow> heartbeat_alive c \<or> (\<exists>t \<in> set (rc_tasks c). failing_task t))"

lemma no_handle [simp]:
  assumes "rc_heartbeat_task c = None"
  shows "start_heartbeat_timer c = c\<lparr>rc_heartbeats := rc_heartbeats c @ [HB_Loop_Head], rc_heartbeat_task := None\<rparr>"
    and "stop_heartbeat_timer c = c" and "cancel_heartbeat_task c = c"
  using assms
  by (simp_all add: start_heartbeat_timer_def stop_heartbeat_timer_def cancel_heartbeat_task_def heartbeat_task_running_def
      create_task_result_def)

fun not_cancelled :: "rec_event \<Rightarrow> bool" where
  "not_cancelled (Task_Runs _ _ Cancelled) = False"
| "not_cancelled (Heartbeat_Cancelled _) = False"
| "not_cancelled _ = True"

lemma exec_step_keeps:
  "exec_step now iid x e c = (e', c', out) \<Longrightarrow>
     rc_shutdown c' = rc_shutdown c \<and> rc_in_failed_state c' = rc_in_failed_state c \<and> rc_heartbeats c' = rc_heartbeats c \<and> rc_heartbeat_task c' = rc_heartbeat_task c"
  by (auto simp: exec_step_def split_beta Let_def split: exec_phase.splits exec_input.splits if_splits option.splits
      dest!: arg_cong [of "transition_stage _ _ _ _" _ fst])

lemma start_recovery_keeps:
  "start_recovery now iid nested c = (ph, c', out) \<Longrightarrow> rc_shutdown c' = rc_shutdown c \<and> rc_heartbeats c' = rc_heartbeats c \<and> rc_heartbeat_task c' = rc_heartbeat_task c \<and>
     (rc_in_failed_state c' = rc_in_failed_state c \<or> failing_task (Single iid n ph))"
  by (auto simp: start_recovery_def Let_def transition_to_recovering_def split: if_splits prod.splits
      dest!: handle_max_eqD try_transition_eqD)

lemma exec_finished_keeps:
  "exec_finished now iid ok c = (ph, c', out) \<Longrightarrow>
     rc_shutdown c' = rc_shutdown c \<and> rc_in_failed_state c' = rc_in_failed_state c \<and> rc_heartbeats c' = rc_heartbeats c \<and> rc_heartbeat_task c' = rc_heartbeat_task c"
  by (auto simp: exec_finished_def Let_def split: if_splits)

lemma transition_after_keeps:
  "transition_after_recovery now c = (c', out) \<Longrightarrow>
     rc_heartbeat_task c = None \<Longrightarrow>
     rc_shutdown c' = rc_shutdown c \<and> (rc_in_failed_state c' \<longrightarrow> rc_in_failed_state c) \<and>
     rc_heartbeats c' = rc_heartbeats c \<and> rc_heartbeat_task c' = rc_heartbeat_task c"
  by (auto simp: transition_after_recovery_def transition_to_running_def split: if_splits prod.splits dest!: try_transition_eqD)

lemma heartbeat_alive_started [simp]:
  "heartbeat_alive (c\<lparr>rc_heartbeats := hs @ [HB_Loop_Head], rc_heartbeat_task := x\<rparr>)"
  by (simp add: heartbeat_alive_def)

lemma start_heartbeat_alive: "rc_heartbeat_task c = None \<Longrightarrow> heartbeat_alive (start_heartbeat_timer c)"
  by (simp add: heartbeat_alive_def)

lemma heartbeat_alive_discard [simp]: "heartbeat_alive (discard iid c) = heartbeat_alive c"
  by (simp add: heartbeat_alive_def)

lemma single_step_failed:
  assumes "single_step now iid inp nested ph c = ((nested', ph'), c', out)" and "inp \<noteq> Cancelled"
    and "rc_heartbeat_task c = None"
  shows "rc_shutdown c' = rc_shutdown c \<and> rc_heartbeat_task c' = None \<and>
         (rc_in_failed_state c' \<longrightarrow>
            rc_in_failed_state c \<and> rc_heartbeats c' = rc_heartbeats c \<and> \<not> failing_task (Single iid nested ph) \<or>
            heartbeat_alive c' \<or> failing_task (Single iid nested' ph'))"
proof (cases "\<exists>e x. ph = S_Exec e \<and> inp = Exec x")
  case True
  then obtain e x e' c1 out1 where e: "ph = S_Exec e" "inp = Exec x" and s: "exec_step now iid x e c = (e', c1, out1)"
    by (metis prod_cases3)
  from exec_step_keeps [OF s] assms(1,3) e show ?thesis
    by (cases e') (auto simp: single_step_exec [OF s] split: prod.splits dest: exec_finished_keeps)
next
  case False
  with assms show ?thesis
    by (cases ph; cases inp)
      (auto simp: single_step_def end_before_try_def Let_def split: if_splits prod.splits
        dest: start_recovery_keeps transition_after_keeps handle_max_eqD)
qed

lemma gather_step_failed:
  assumes "gather_step now ids inp ph c = (ph', c', out)"
  shows "rc_shutdown c' = rc_shutdown c \<and> (rc_in_failed_state c' \<longrightarrow> rc_in_failed_state c) \<and>
         rc_heartbeats c' = rc_heartbeats c \<and> rc_heartbeat_task c' = rc_heartbeat_task c"
proof (cases "\<exists>es k x. ph = G_Run es \<and> inp = Sub k x \<and> k < length ids \<and> k < length es")
  case True
  then obtain es k x e' c1 out1 where e: "ph = G_Run es" "inp = Sub k x" "k < length ids" "k < length es"
    and s: "exec_step now (ids ! k) x (es ! k) c = (e', c1, out1)"
    by (metis prod_cases3)
  from exec_step_keeps [OF s] assms e show ?thesis by (auto simp: gather_step_def s)
next
  case False
  with assms show ?thesis
    by (cases ph; cases inp)
      (auto simp: gather_step_def split_beta Let_def central_moves release_semaphore_def split: if_splits
        dest!: try_transition_eqD)
qed

lemma failing_update:
  assumes "\<exists>t \<in> set ts. failing_task t" and "\<not> failing_task (ts ! i)" and "i < length ts"
  shows "\<exists>t \<in> set (ts[i := t']). failing_task t"
proof -
  obtain j where j: "j < length ts" "failing_task (ts ! j)" using assms(1) by (auto simp: in_set_conv_nth)
  then have "ts[i := t'] ! j = ts ! j" using assms(2) by (cases "i = j") auto
  with j show ?thesis by (metis length_list_update nth_mem)
qed

lemma heartbeat_inv_task_step:
  assumes "heartbeat_inv c" and "inp \<noteq> Cancelled"
  shows "heartbeat_inv (fst (task_step now i inp c))"
proof (cases "i < length (rc_tasks c)")
  case True
  show ?thesis
  proof (cases "rc_tasks c ! i")
    case (Single iid nested ph)
    obtain nested' ph' c' out where s: "single_step now iid inp nested ph c = ((nested', ph'), c', out)"
      by (metis prod_cases3 surj_pair)
    have t: "rc_tasks c' = rc_tasks c" using single_step_semaphore [OF s] by simp
    have "failing_task (Single iid nested' ph') \<Longrightarrow> \<exists>t \<in> set ((rc_tasks c)[i := Single iid nested' ph']). failing_task t"
      using True by (intro bexI [of _ "Single iid nested' ph'"]) (simp_all add: set_update_memI)
    then show ?thesis
      using single_step_failed [OF s assms(2)] assms(1) True Single t failing_update [of "rc_tasks c" i]
      by (auto simp: task_step_def s heartbeat_inv_def heartbeat_alive_def)
  next
    case (Gather ids ph)
    obtain ph' c' out where s: "gather_step now ids inp ph c = (ph', c', out)"
      by (metis prod_cases3)
    have t: "rc_tasks c' = rc_tasks c" using gather_step_semaphore [OF s] by simp
    show ?thesis
      using gather_step_failed [OF s] assms(1) True Gather t failing_update [of "rc_tasks c" i]
      by (auto simp: task_step_def s heartbeat_inv_def heartbeat_alive_def)
  qed
qed (simp add: task_step_def assms)

lemma heartbeat_inv_heartbeat:
  assumes "heartbeat_inv c"
  shows "heartbeat_inv (fst (heartbeat_step now i av c))"
proof (cases "i < length (rc_heartbeats c) \<and> rc_heartbeats c ! i \<noteq> HB_Ended \<and> rc_in_failed_state c \<and> \<not> rc_shutdown c")
  case True
  then have "heartbeat_alive (set_heartbeat i h c)" if "h \<noteq> HB_Ended" for h
    using that by (auto simp: heartbeat_alive_def set_heartbeat_def intro: set_update_memI)
  with True assms show ?thesis
    by (cases "rc_heartbeats c ! i")
      (auto simp: heartbeat_step_def heartbeat_inv_def heartbeat_alive_def set_heartbeat_def Let_def)
next
  case False
  with assms show ?thesis
    by (auto simp: heartbeat_step_def heartbeat_inv_def set_heartbeat_def split: heartbeat.splits)
qed

lemma heartbeat_inv_step: "heartbeat_inv c \<Longrightarrow> not_cancelled e \<Longrightarrow> heartbeat_inv (fst (rec_step c e))"
proof (cases e)
  case (Central_State_Changed now s s' t)
  then show "heartbeat_inv c \<Longrightarrow> ?thesis"
    by (auto simp: on_central_state_changed_def Let_def heartbeat_inv_def heartbeat_alive_def)
next
  case (Heartbeat_Runs now i av)
  then show "heartbeat_inv c \<Longrightarrow> ?thesis"
    by (auto simp: heartbeat_inv_heartbeat)
next
  case (Task_Runs now i inp)
  then show "heartbeat_inv c \<Longrightarrow> not_cancelled e \<Longrightarrow> ?thesis"
    by (cases inp) (simp_all add: heartbeat_inv_task_step)
qed (auto simp: on_connection_lost_def on_circuit_breaker_tripped_def on_heartbeat_timer_fired_def coordinator_stop_def
    heartbeat_inv_def heartbeat_alive_def create_task_def)

interpretation hb: step_system "\<lambda>c e. fst (rec_step c e)" heartbeat_inv not_cancelled
  by unfold_locales (rule heartbeat_inv_step)

text \<open>
  Outside the failed state a heartbeat that runs next ends without a request. Until then it is there, and
  every failure starts one more, whatever heartbeats there are.
\<close>

lemma heartbeat_ends: "\<not> rc_in_failed_state c \<Longrightarrow> heartbeat_step now i available c = (set_heartbeat i HB_Ended c, [])"
proof (cases "i < length (rc_heartbeats c) \<and> rc_heartbeats c ! i \<noteq> HB_Ended")
  case False
  then have "(rc_heartbeats c)[i := HB_Ended] = rc_heartbeats c"
    by (cases "i < length (rc_heartbeats c)") (auto simp: list_update_same_conv list_update_beyond)
  then have "set_heartbeat i HB_Ended c = c" by (simp add: set_heartbeat_def)
  with False show "\<not> rc_in_failed_state c \<Longrightarrow> ?thesis" by (auto simp: heartbeat_step_def)
qed (auto simp: heartbeat_step_def split: heartbeat.splits)

lemma heartbeats_accumulate:
  assumes "heartbeat_inv c" and "i < length (rc_tasks c)" and "rc_tasks c ! i = Single iid nested (S_Failed_Published in_try)"
  shows "rc_heartbeats (fst (task_step now i Resume c)) = rc_heartbeats c @ [HB_Loop_Head]"
  using assms by (simp add: heartbeat_inv_def task_step_def single_step_def Let_def)

lemma heartbeat_inv_init: "heartbeat_inv (coordinator_init name configs inc m)"
  by (simp add: heartbeat_inv_def coordinator_init_def)

subsection \<open>One recovery to its end\<close>

text \<open>
  An environment in which the stage \<open>st\<close> answers \<open>ok st\<close> whenever it is probed and in which the client
  exists or not. The task of one recovery is driven by the environment's answers at arbitrary times.
\<close>

fun env_answer :: "(recovery_stage \<Rightarrow> bool) \<Rightarrow> bool \<Rightarrow> single_phase \<Rightarrow> task_input" where
  "env_answer ok ce S_Lost_Published = Client_Lookup True"
| "env_answer ok ce (S_Exec E_Waiting) = Exec (Acquire ce)"
| "env_answer ok ce (S_Exec (E_Stage st _)) = Exec (Probe (ok st))"
| "env_answer ok ce _ = Resume"

type_synonym single_config = "bool \<times> single_phase \<times> coordinator"

fun env_step :: "(recovery_stage \<Rightarrow> bool) \<Rightarrow> bool \<Rightarrow> string \<Rightarrow> time \<Rightarrow> single_config \<Rightarrow> single_config" where
  "env_step ok ce iid now (nested, ph, c) =
     (let ((nested', ph'), c', out) = single_step now iid (env_answer ok ce ph) nested ph c in (nested', ph', c'))"

fun env_run :: "(recovery_stage \<Rightarrow> bool) \<Rightarrow> bool \<Rightarrow> string \<Rightarrow> (nat \<Rightarrow> time) \<Rightarrow> nat \<Rightarrow> single_config \<Rightarrow> single_config" where
  "env_run ok ce iid tm 0 s = s"
| "env_run ok ce iid tm (Suc n) s = env_run ok ce iid (\<lambda>k. tm (Suc k)) n (env_step ok ce iid (tm 0) s)"

declare env_step.simps [simp del]

text \<open>A configuration from which a goal is reached whatever the times are.\<close>

inductive inevitable :: "(recovery_stage \<Rightarrow> bool) \<Rightarrow> bool \<Rightarrow> string \<Rightarrow> (single_config \<Rightarrow> bool) \<Rightarrow> single_config \<Rightarrow> bool"
  for ok ce iid P where
  reached: "P s \<Longrightarrow> inevitable ok ce iid P s"
| driven: "(\<And>now. inevitable ok ce iid P (env_step ok ce iid now s)) \<Longrightarrow> inevitable ok ce iid P s"

lemma inevitable_run: "inevitable ok ce iid P s \<Longrightarrow> \<exists>n. P (env_run ok ce iid tm n s)"
proof (induction s arbitrary: tm rule: inevitable.induct)
  case (reached s)
  then show ?case by (intro exI [of _ 0]) simp
next
  case (driven s)
  from driven.IH [of "\<lambda>k. tm (Suc k)" "tm 0"] obtain n where "P (env_run ok ce iid (\<lambda>k. tm (Suc k)) n (env_step ok ce iid (tm 0) s))"
    by blast
  then show ?case by (intro exI [of _ "Suc n"]) simp
qed

lemma inevitable_trans:
  "inevitable ok ce iid Q s \<Longrightarrow> (\<And>s'. Q s' \<Longrightarrow> inevitable ok ce iid P s') \<Longrightarrow> inevitable ok ce iid P s"
  by (induction rule: inevitable.induct) (auto intro: inevitable.driven)

lemma inevitable_one: "(\<And>now. P (env_step ok ce iid now s)) \<Longrightarrow> inevitable ok ce iid P s"
  by (rule inevitable.driven) (rule inevitable.reached)

lemma inevitable_mono: "inevitable ok ce iid Q s \<Longrightarrow> (\<And>s'. Q s' \<Longrightarrow> P s') \<Longrightarrow> inevitable ok ce iid P s"
  by (erule inevitable_trans) (rule inevitable.reached)

lemma get_state_semaphore [simp]: "get_recovery_state iid (c\<lparr>rc_semaphore := n\<rparr>) = get_recovery_state iid c"
  by (simp add: get_recovery_state_def)

definition only_states :: "coordinator \<Rightarrow> coordinator \<Rightarrow> bool" where
  "only_states c c' \<longleftrightarrow> (\<exists>d. c' = c\<lparr>rc_states := d\<rparr>)"

lemma only_states_refl [simp]: "only_states c c"
  unfolding only_states_def by (rule exI [of _ "rc_states c"]) simp

lemma only_states_put: "only_states c (put_state iid r c)"
  by (auto simp: only_states_def put_state_def)

lemma only_states_semaphore: "only_states c c' \<Longrightarrow> only_states (c\<lparr>rc_semaphore := n\<rparr>) (c'\<lparr>rc_semaphore := n\<rparr>)"
proof (unfold only_states_def, elim exE)
  fix d assume "c' = c\<lparr>rc_states := d\<rparr>"
  then show "\<exists>d. c'\<lparr>rc_semaphore := n\<rparr> = c\<lparr>rc_semaphore := n, rc_states := d\<rparr>"
    by (intro exI [of _ d]) simp
qed

lemma only_states_trans: "only_states c c1 \<Longrightarrow> only_states c1 c2 \<Longrightarrow> only_states c c2"
  by (auto simp: only_states_def)

lemma transition_stage_state:
  assumes "get_recovery_state iid c = Some r"
  shows "\<exists>r'. get_recovery_state iid (fst (transition_stage now iid st c)) = Some r' \<and> rs_attempt_count r' = rs_attempt_count r \<and>
           rs_consecutive_failures r' = rs_consecutive_failures r \<and> rs_current_stage r' = st \<and>
           only_states c (fst (transition_stage now iid st c))"
  using assms by (auto simp: transition_stage_def transition_to_stage_def Let_def only_states_put)

definition stages :: "bool \<Rightarrow> recovery_stage list" where
  "stages ce = stage_plan ce @ [RECOVERED]"

lemma next_stage_plan:
  assumes "k < length (stage_plan ce)"
  shows "next_stage ce (stages ce ! k) b = (if probed (stages ce ! k) \<and> \<not> b then None else Some (stages ce ! Suc k))"
    and "stages ce ! k \<noteq> RECOVERED"
  using assms by (cases ce; auto simp: stages_def stage_plan_def probed_def less_Suc_eq nth_Cons split: nat.splits)+

text \<open>Where the task is after its execution returned \<open>success\<close>, apart from the recovery states.\<close>

definition after_exec :: "string \<Rightarrow> bool \<Rightarrow> bool \<Rightarrow> recovery_state \<Rightarrow> coordinator \<Rightarrow> single_config \<Rightarrow> bool" where
  "after_exec iid nested success r c s \<longleftrightarrow>
     (\<exists>c' r'. s = (nested, if success then S_Completed_Published else S_Attempt_Published, c') \<and> only_states c c' \<and>
        get_recovery_state iid c' = Some r' \<and> rs_attempt_count r' = rs_attempt_count r + 1 \<and>
        rs_consecutive_failures r' = (if success then 0 else rs_consecutive_failures r + 1))"

lemma after_exec_mono:
  "after_exec iid nested b r' c1 s \<Longrightarrow> only_states c c1 \<Longrightarrow> rs_attempt_count r' = rs_attempt_count r \<Longrightarrow>
     rs_consecutive_failures r' = rs_consecutive_failures r \<Longrightarrow> after_exec iid nested b r c s"
  unfolding after_exec_def by (metis only_states_trans)

lemma exec_finished_after:
  assumes "get_recovery_state iid c = Some r"
  shows "after_exec iid nested success r c
           (case exec_finished now iid success c of (ph, c', out) \<Rightarrow> (nested, ph, c'))"
  using assms
  by (auto simp: after_exec_def exec_finished_def Let_def state_of_def rs_record_success_def rs_record_failure_def only_states_put)

lemma env_step_exec:
  "env_step ok ce iid now (nested, S_Exec (E_Stage st ce'), c) =
     (let (e', c1, out) = exec_step now iid (Probe (ok st)) (E_Stage st ce') c
      in case e' of
           E_Done success \<Rightarrow> (let (ph, c', out) = exec_finished now iid success c1 in (nested, ph, c'))
         | _ \<Rightarrow> (nested, S_Exec e', c1))"
  by (auto simp: env_step.simps single_step_def split: prod.splits exec_phase.splits)

lemma exec_inevitable:
  assumes "k \<le> length (stage_plan ce)" and "get_recovery_state iid c = Some r"
  shows "inevitable ok ce iid
           (after_exec iid nested (\<forall>st \<in> set (drop k (stage_plan ce)). probed st \<longrightarrow> ok st) r (c\<lparr>rc_semaphore := rc_semaphore c + 1\<rparr>))
           (nested, S_Exec (E_Stage (stages ce ! k) ce), c)"
  using assms
proof (induction "length (stage_plan ce) - k" arbitrary: k c r)
  case 0
  then have "stages ce ! k = RECOVERED" by (auto simp: stages_def nth_append)
  with 0 show ?case
    by (intro inevitable_one) (auto simp: env_step_exec exec_step_def intro!: exec_finished_after)
next
  case (Suc n)
  then have k: "k < length (stage_plan ce)" by simp
  note nx = next_stage_plan [OF k]
  have d: "drop k (stage_plan ce) = (stages ce ! k) # drop (Suc k) (stage_plan ce)"
    using k by (simp add: Cons_nth_drop_Suc stages_def nth_append)
  show ?case
  proof (cases "probed (stages ce ! k) \<and> \<not> ok (stages ce ! k)")
    case True
    then have "next_stage ce (stages ce ! k) (ok (stages ce ! k)) = None" "stages ce ! k \<noteq> RECOVERED"
      and e: "(\<forall>st \<in> set (drop k (stage_plan ce)). probed st \<longrightarrow> ok st) = False"
      using nx d by auto
    with Suc.prems show ?thesis unfolding e
      by (intro inevitable_one) (auto simp: env_step_exec exec_step_def intro!: exec_finished_after)
  next
    case False
    show ?thesis
    proof (rule inevitable.driven)
      fix now
      let ?c = "fst (transition_stage now iid (stages ce ! Suc k) c)"
      obtain r' where r': "get_recovery_state iid ?c = Some r'" "rs_attempt_count r' = rs_attempt_count r"
        "rs_consecutive_failures r' = rs_consecutive_failures r" "only_states c ?c"
        using transition_stage_state [OF Suc.prems(2)] by metis
      have st: "env_step ok ce iid now (nested, S_Exec (E_Stage (stages ce ! k) ce), c) =
                (nested, S_Exec (E_Stage (stages ce ! Suc k) ce), ?c)"
        using nx False by (auto simp: env_step_exec exec_step_def split: prod.splits)
      have e: "(\<forall>st \<in> set (drop k (stage_plan ce)). probed st \<longrightarrow> ok st) \<longleftrightarrow>
            (\<forall>st \<in> set (drop (Suc k) (stage_plan ce)). probed st \<longrightarrow> ok st)"
        using False by (auto simp: d)
      have i: "inevitable ok ce iid
           (after_exec iid nested (\<forall>st \<in> set (drop (Suc k) (stage_plan ce)). probed st \<longrightarrow> ok st) r' (?c\<lparr>rc_semaphore := rc_semaphore ?c + 1\<rparr>))
           (nested, S_Exec (E_Stage (stages ce ! Suc k) ce), ?c)"
        using Suc.hyps(2) k r'(1) by (intro Suc.hyps(1)) auto
      have os: "only_states (c\<lparr>rc_semaphore := rc_semaphore c + 1\<rparr>) (?c\<lparr>rc_semaphore := rc_semaphore ?c + 1\<rparr>)"
        using only_states_semaphore [OF r'(4), of "rc_semaphore c + 1"] by simp
      show "inevitable ok ce iid
           (after_exec iid nested (\<forall>st \<in> set (drop k (stage_plan ce)). probed st \<longrightarrow> ok st) r (c\<lparr>rc_semaphore := rc_semaphore c + 1\<rparr>))
           (env_step ok ce iid now (nested, S_Exec (E_Stage (stages ce ! k) ce), c))"
        unfolding st e by (rule inevitable_mono [OF i]) (rule after_exec_mono [OF _ os r'(2,3)])
    qed
  qed
qed

lemma only_statesD:
  "only_states c c' \<Longrightarrow> rc_machine c' = rc_machine c \<and> rc_active c' = rc_active c \<and> rc_semaphore c' = rc_semaphore c \<and>
     rc_in_failed_state c' = rc_in_failed_state c \<and> rc_shutdown c' = rc_shutdown c \<and> rc_heartbeats c' = rc_heartbeats c \<and> rc_heartbeat_task c' = rc_heartbeat_task c"
  by (auto simp: only_states_def)

text \<open>One attempt, from the publication of the lost connection to the result of the stages.\<close>

lemma attempt_inevitable:
  assumes "get_recovery_state iid c = Some r" and "0 < rc_semaphore c"
  shows "inevitable ok ce iid (after_exec iid nested (\<forall>st \<in> set (stage_plan ce). probed st \<longrightarrow> ok st) r c) (nested, S_Lost_Published, c)"
proof (rule inevitable.driven, rule inevitable_trans)
  fix now
  show "inevitable ok ce iid (\<lambda>s. s = (nested, S_Exec E_Waiting, c)) (env_step ok ce iid now (nested, S_Lost_Published, c))"
    by (rule inevitable.reached) (simp add: env_step.simps single_step_def)
next
  fix s' assume s': "s' = (nested, S_Exec E_Waiting, c)"
  show "inevitable ok ce iid (after_exec iid nested (\<forall>st \<in> set (stage_plan ce). probed st \<longrightarrow> ok st) r c) s'"
    unfolding s'
  proof (rule inevitable.driven)
    fix now
    let ?b = "c\<lparr>rc_semaphore := rc_semaphore c - 1\<rparr>"
    let ?c = "fst (transition_stage now iid COOLDOWN ?b)"
    have g: "get_recovery_state iid ?b = Some r" using assms(1) by simp
    obtain r' where r': "get_recovery_state iid ?c = Some r'" "rs_attempt_count r' = rs_attempt_count r"
      "rs_consecutive_failures r' = rs_consecutive_failures r" "only_states ?b ?c"
      using transition_stage_state [OF g] by metis
    have st: "env_step ok ce iid now (nested, S_Exec E_Waiting, c) = (nested, S_Exec (E_Stage (stages ce ! 0) ce), ?c)"
      using assms by (auto simp: env_step.simps single_step_def exec_step_def stages_def stage_plan_def split: prod.splits)
    have "only_states c (?c\<lparr>rc_semaphore := rc_semaphore ?c + 1\<rparr>)"
      using only_states_semaphore [OF r'(4), of "rc_semaphore c"] assms(2) by simp
    note mono = after_exec_mono [OF _ this r'(2,3)]
    show "inevitable ok ce iid (after_exec iid nested (\<forall>st \<in> set (stage_plan ce). probed st \<longrightarrow> ok st) r c)
            (env_step ok ce iid now (nested, S_Exec E_Waiting, c))"
      unfolding st by (rule inevitable_mono [OF exec_inevitable [of 0 ce iid ?c r' ok nested, OF _ r'(1)]])
        (auto intro: mono)
  qed
qed

definition in_central_state :: "central_state \<Rightarrow> coordinator \<Rightarrow> bool" where
  "in_central_state st c \<longleftrightarrow> (\<exists>m. rc_machine c = Some m \<and> zsm_state m = st)"

lemma try_transition_to:
  assumes "rc_machine c = Some m" and "target \<in> set (VALID_CENTRAL_TRANSITIONS (zsm_state m))" and "\<not> ta_force a"
  shows "in_central_state target (fst (try_transition a target c))"
proof -
  have "central_can_transition_to m target" using assms(2) by (simp add: central_can_transition_to_def)
  then show ?thesis using assms(1)
    by (auto simp: try_transition_def central_transition_to_def in_central_state_def Let_def)
qed

lemma try_transition_stays:
  assumes "rc_machine c = Some m" and "target \<notin> set (VALID_CENTRAL_TRANSITIONS (zsm_state m))"
  shows "try_transition a target c = (c, [])"
  using assms by (simp add: try_transition_def central_can_transition_to_def)

lemma start_recovery_ready:
  assumes "\<not> rc_shutdown c" and "can_retry (state_of now iid c)" and "0 < rc_semaphore c"
    and "rc_machine c = Some m" and "zsm_state m \<in> {C_RUNNING, C_DEGRADED, C_RECOVERING, C_FAILED}"
    and "start_recovery now iid nested c = (ph, c', out)"
  shows "ph = S_Lost_Published \<and> \<not> rc_shutdown c' \<and> 0 < rc_semaphore c' \<and> in_central_state C_RECOVERING c' \<and>
         rc_active c' = insert iid (rc_active c) \<and> rc_heartbeats c' = rc_heartbeats c \<and> rc_heartbeat_task c' = rc_heartbeat_task c \<and>
         (\<exists>r. get_recovery_state iid c' = Some r \<and> rs_attempt_count r = rs_attempt_count (state_of now iid c) \<and>
              rs_consecutive_failures r = rs_consecutive_failures (state_of now iid c))"
proof -
  let ?c2 = "put_state iid (rs_start_recovery now (state_of now iid c))
               ((put_state iid (state_of now iid c) c)\<lparr>rc_active := insert iid (rc_active c)\<rparr>)"
  let ?t = "try_transition (default_args now ''Connection recovery in progress'') C_RECOVERING ?c2"
  have "in_central_state C_RECOVERING (fst ?t)"
  proof (cases "zsm_state m = C_RECOVERING")
    case True
    then show ?thesis
      using try_transition_stays [of ?c2 m C_RECOVERING] assms(4) by (simp add: in_central_state_def)
  next
    case False
    then show ?thesis using assms(4,5) by (intro try_transition_to [where m = m]) (auto simp: default_args_def)
  qed
  moreover have "ph = S_Lost_Published" "c' = fst ?t"
    using assms(1,2,6) by (auto simp: start_recovery_def Let_def transition_to_recovering_def split: prod.splits)
  ultimately show ?thesis
    using assms(1,3) get_recovery_state_cong [of "fst ?t" ?c2 iid] by (simp add: rs_start_recovery_def)
qed

lemma state_of_Some: "get_recovery_state iid c = Some r \<Longrightarrow> state_of now iid c = r"
  by (simp add: state_of_def)

lemma failed_published_inevitable:
  assumes "get_recovery_state iid c = Some r" and "\<not> can_retry r" and "in_central_state C_RECOVERING c"
    and "rc_heartbeat_task c = None"
  shows "inevitable ok ce iid
           (\<lambda>(n, ph, c'). ph = S_Ended \<and> rc_in_failed_state c' \<and> heartbeat_alive c' \<and> in_central_state C_FAILED c' \<and>
              iid \<notin> rc_active c' \<and> get_recovery_state iid c' = Some r)
           (nested, S_Attempt_Published, c)"
proof (rule inevitable.driven)
  fix now
  obtain c1 out where h: "handle_max_retries_reached now iid c = (c1, out)" by force
  have st: "env_step ok ce iid now (nested, S_Attempt_Published, c) = (nested, S_Failed_Published True, c1)"
    using assms(1,2) h by (simp add: env_step.simps single_step_def state_of_Some)
  obtain m where m: "rc_machine c = Some m" "zsm_state m = C_RECOVERING" using assms(3) by (auto simp: in_central_state_def)
  have no: "rc_heartbeat_task c1 = None" using handle_max_eqD [OF h] assms(4) by simp
  have f: "rc_in_failed_state c1" "in_central_state C_FAILED c1" "get_recovery_state iid c1 = Some r"
  proof -
    let ?a = "(default_args now (''Max retries reached for '' @ iid))\<lparr>ta_failure_reason := FR_UNKNOWN, ta_failure_interface_id := Some iid\<rparr>"
    let ?t = "try_transition ?a C_FAILED (c\<lparr>rc_in_failed_state := True\<rparr>)"
    have c1: "c1 = fst ?t" using h by (auto simp: handle_max_retries_reached_def transition_to_failed_def Let_def split: prod.splits)
    show "rc_in_failed_state c1" unfolding c1 by simp
    show "in_central_state C_FAILED c1" unfolding c1
      by (rule try_transition_to [where m = m]) (use m in \<open>simp_all add: default_args_def\<close>)
    show "get_recovery_state iid c1 = Some r" using assms(1) unfolding c1 by (simp add: get_recovery_state_def)
  qed
  show "inevitable ok ce iid
           (\<lambda>(n, ph, c'). ph = S_Ended \<and> rc_in_failed_state c' \<and> heartbeat_alive c' \<and> in_central_state C_FAILED c' \<and>
              iid \<notin> rc_active c' \<and> get_recovery_state iid c' = Some r)
           (env_step ok ce iid now (nested, S_Attempt_Published, c))"
    unfolding st
  proof (rule inevitable_one)
    fix now
    have "env_step ok ce iid now (nested, S_Failed_Published True, c1) = (nested, S_Ended, discard iid (start_heartbeat_timer c1))"
      by (simp add: env_step.simps single_step_def)
    with f start_heartbeat_alive [OF no] no show "(\<lambda>(n, ph, c'). ph = S_Ended \<and> rc_in_failed_state c' \<and> heartbeat_alive c' \<and> in_central_state C_FAILED c' \<and>
              iid \<notin> rc_active c' \<and> get_recovery_state iid c' = Some r)
           (env_step ok ce iid now (nested, S_Failed_Published True, c1))"
      by (simp add: in_central_state_def get_recovery_state_def)
  qed
qed

lemma retry_inevitable:
  assumes "get_recovery_state iid c = Some r" and "can_retry r" and "in_central_state C_RECOVERING c" and "\<not> rc_shutdown c"
    and "0 < rc_semaphore c" and "rc_heartbeat_task c = None"
  shows "inevitable ok ce iid
           (\<lambda>(n, ph, c'). ph = S_Lost_Published \<and> in_central_state C_RECOVERING c' \<and> \<not> rc_shutdown c' \<and> 0 < rc_semaphore c' \<and>
              rc_heartbeat_task c' = None \<and>
              (\<exists>r'. get_recovery_state iid c' = Some r' \<and> rs_attempt_count r' = rs_attempt_count r \<and>
                 rs_consecutive_failures r' = rs_consecutive_failures r))
           (nested, S_Attempt_Published, c)"
proof (rule inevitable.driven)
  fix now
  have st: "env_step ok ce iid now (nested, S_Attempt_Published, c) = (nested, S_Backoff (next_retry_delay r), c)"
    using assms(1,2) by (simp add: env_step.simps single_step_def state_of_Some)
  obtain m where m: "rc_machine c = Some m" "zsm_state m = C_RECOVERING" using assms(3) by (auto simp: in_central_state_def)
  show "inevitable ok ce iid
           (\<lambda>(n, ph, c'). ph = S_Lost_Published \<and> in_central_state C_RECOVERING c' \<and> \<not> rc_shutdown c' \<and> 0 < rc_semaphore c' \<and>
              rc_heartbeat_task c' = None \<and>
              (\<exists>r'. get_recovery_state iid c' = Some r' \<and> rs_attempt_count r' = rs_attempt_count r \<and>
                 rs_consecutive_failures r' = rs_consecutive_failures r))
           (env_step ok ce iid now (nested, S_Attempt_Published, c))"
    unfolding st
  proof (rule inevitable_one)
    fix now
    obtain ph c' out where s: "start_recovery now iid True c = (ph, c', out)" by (metis prod_cases3)
    have e: "env_step ok ce iid now (nested, S_Backoff (next_retry_delay r), c) = (True, ph, c')"
      using assms(4) s by (simp add: env_step.simps single_step_def)
    from start_recovery_ready [OF assms(4) _ assms(5) m(1) _ s] assms(1,2,6) m(2)
    show "(\<lambda>(n, ph, c'). ph = S_Lost_Published \<and> in_central_state C_RECOVERING c' \<and> \<not> rc_shutdown c' \<and> 0 < rc_semaphore c' \<and>
              rc_heartbeat_task c' = None \<and>
              (\<exists>r'. get_recovery_state iid c' = Some r' \<and> rs_attempt_count r' = rs_attempt_count r \<and>
                 rs_consecutive_failures r' = rs_consecutive_failures r))
           (env_step ok ce iid now (nested, S_Backoff (next_retry_delay r), c))"
      unfolding e by (auto simp: state_of_Some)
  qed
qed

text \<open>The end of a recovery whose interface has used up its attempts, the last \<open>k\<close> of which failed in a row.\<close>

definition gave_up :: "string \<Rightarrow> nat \<Rightarrow> single_config \<Rightarrow> bool" where
  "gave_up iid k s \<longleftrightarrow>
     (case s of (n, ph, c) \<Rightarrow> ph = S_Ended \<and> rc_in_failed_state c \<and> heartbeat_alive c \<and> in_central_state C_FAILED c \<and>
        iid \<notin> rc_active c \<and>
        (\<exists>r. get_recovery_state iid c = Some r \<and> rs_attempt_count r = MAX_RECOVERY_ATTEMPTS \<and> rs_consecutive_failures r = k))"

lemma gives_up_inevitable:
  assumes "\<not> (\<forall>st \<in> set (stage_plan ce). probed st \<longrightarrow> ok st)"
    and "get_recovery_state iid c = Some r" and "rs_attempt_count r < MAX_RECOVERY_ATTEMPTS"
    and "in_central_state C_RECOVERING c" and "\<not> rc_shutdown c" and "0 < rc_semaphore c" and "rc_heartbeat_task c = None"
  shows "inevitable ok ce iid (gave_up iid (rs_consecutive_failures r + (MAX_RECOVERY_ATTEMPTS - rs_attempt_count r))) (nested, S_Lost_Published, c)"
  using assms(2-7)
proof (induction "MAX_RECOVERY_ATTEMPTS - rs_attempt_count r" arbitrary: r c nested)
  case (Suc n)
  have a: "inevitable ok ce iid (after_exec iid nested False r c) (nested, S_Lost_Published, c)"
    using attempt_inevitable [OF Suc.prems(1,5), of ok ce nested] assms(1) by simp
  show ?case
  proof (rule inevitable_trans [OF a])
    fix s' assume "after_exec iid nested False r c s'"
    then obtain c' r' where s': "s' = (nested, S_Attempt_Published, c')" "only_states c c'"
      "get_recovery_state iid c' = Some r'" "rs_attempt_count r' = rs_attempt_count r + 1"
      "rs_consecutive_failures r' = rs_consecutive_failures r + 1"
      by (auto simp: after_exec_def)
    note o = only_statesD [OF s'(2)]
    let ?k = "rs_consecutive_failures r + (MAX_RECOVERY_ATTEMPTS - rs_attempt_count r)"
    have cs: "in_central_state C_RECOVERING c'" "\<not> rc_shutdown c'" "0 < rc_semaphore c'" "rc_heartbeat_task c' = None"
      using o Suc.prems by (simp_all add: in_central_state_def)
    show "inevitable ok ce iid (gave_up iid ?k) s'"
    proof (cases "can_retry r'")
      case True
      show ?thesis unfolding s'(1)
      proof (rule inevitable_trans [OF retry_inevitable [OF s'(3) True cs]])
        fix s2 :: single_config assume "(\<lambda>(n, ph, c''). ph = S_Lost_Published \<and> in_central_state C_RECOVERING c'' \<and> \<not> rc_shutdown c'' \<and>
            0 < rc_semaphore c'' \<and> rc_heartbeat_task c'' = None \<and>
            (\<exists>r2. get_recovery_state iid c'' = Some r2 \<and> rs_attempt_count r2 = rs_attempt_count r' \<and>
               rs_consecutive_failures r2 = rs_consecutive_failures r')) s2"
        then obtain n2 c2 r2 where s2: "s2 = (n2, S_Lost_Published, c2)" "in_central_state C_RECOVERING c2" "\<not> rc_shutdown c2"
            "0 < rc_semaphore c2" "rc_heartbeat_task c2 = None" "get_recovery_state iid c2 = Some r2"
            "rs_attempt_count r2 = rs_attempt_count r'" "rs_consecutive_failures r2 = rs_consecutive_failures r'"
          by (cases s2) auto
        have "inevitable ok ce iid (gave_up iid (rs_consecutive_failures r2 + (MAX_RECOVERY_ATTEMPTS - rs_attempt_count r2))) s2"
          unfolding s2(1) using Suc.hyps(2) True s2 s'(4) by (intro Suc.hyps(1)) (auto simp: can_retry_def)
        moreover have "rs_consecutive_failures r2 + (MAX_RECOVERY_ATTEMPTS - rs_attempt_count r2) = ?k"
          using s2(7,8) s'(4,5) True by (simp add: can_retry_def)
        ultimately show "inevitable ok ce iid (gave_up iid ?k) s2" by simp
      qed
    next
      case False
      with s'(4) Suc.prems(2) have "rs_attempt_count r' = MAX_RECOVERY_ATTEMPTS" by (simp add: can_retry_def)
      then show ?thesis unfolding s'(1)
        using s'(4,5)
        by (intro inevitable_mono [OF failed_published_inevitable [OF s'(3) False cs(1,4)]]) (auto simp: gave_up_def)
    qed
  qed
qed simp

definition succeeded :: "string \<Rightarrow> string set \<Rightarrow> single_config \<Rightarrow> bool" where
  "succeeded iid others s \<longleftrightarrow>
     (case s of (n, ph, c) \<Rightarrow> ph = S_Ended \<and> rc_active c = others \<and>
        (\<exists>r. get_recovery_state iid c = Some r \<and> rs_attempt_count r = 0 \<and> rs_current_stage r = IDLE) \<and>
        (others = {} \<longrightarrow> in_central_state C_RUNNING c \<and> \<not> rc_in_failed_state c \<and>
           (\<forall>now i available. heartbeat_step now i available c = (set_heartbeat i HB_Ended c, []))))"

lemma restored_step:
  assumes "get_recovery_state iid c = Some r" and "in_central_state C_RECOVERING c"
    and "rs_attempt_count r = 0" and "rs_current_stage r = IDLE"
  shows "succeeded iid (rc_active c - {iid}) (env_step ok ce iid now (nested, S_Restored_Published, c))"
proof -
  obtain m where m: "rc_machine c = Some m" "zsm_state m = C_RECOVERING" using assms(2) by (auto simp: in_central_state_def)
  let ?t = "try_transition (default_args now ''All interfaces recovered successfully'') C_RUNNING (discard iid c)"
  have "in_central_state C_RUNNING (fst ?t)"
    by (rule try_transition_to [where m = m]) (use m in \<open>simp_all add: default_args_def\<close>)
  with m assms show ?thesis
    by (auto simp: env_step.simps single_step_def transition_after_recovery_def transition_to_running_def split_beta succeeded_def
        heartbeat_ends in_central_state_def get_recovery_state_def discard_def)
qed

lemma success_inevitable:
  assumes "\<forall>st \<in> set (stage_plan ce). probed st \<longrightarrow> ok st" and "get_recovery_state iid c = Some r"
    and "in_central_state C_RECOVERING c" and "0 < rc_semaphore c"
  shows "inevitable ok ce iid (succeeded iid (rc_active c - {iid})) (nested, S_Lost_Published, c)"
proof -
  have a: "inevitable ok ce iid (after_exec iid nested True r c) (nested, S_Lost_Published, c)"
    using attempt_inevitable [OF assms(2,4), of ok ce nested] assms(1) by simp
  show ?thesis
  proof (rule inevitable_trans [OF a])
    fix s' assume "after_exec iid nested True r c s'"
    then obtain c' r' where s': "s' = (nested, S_Completed_Published, c')" "only_states c c'" "get_recovery_state iid c' = Some r'"
      by (auto simp: after_exec_def)
    note o = only_statesD [OF s'(2)]
    show "inevitable ok ce iid (succeeded iid (rc_active c - {iid})) s'" unfolding s'(1)
    proof (rule inevitable.driven)
      fix now
      let ?c = "put_state iid (rs_reset r') c'"
      have e: "env_step ok ce iid now (nested, S_Completed_Published, c') = (nested, S_Restored_Published, ?c)"
        using s'(3) by (simp add: env_step.simps single_step_def state_of_Some)
      have "succeeded iid (rc_active ?c - {iid}) (env_step ok ce iid now (nested, S_Restored_Published, ?c))" for now
        by (rule restored_step [where r = "rs_reset r'"]) (use assms(3) o in \<open>simp_all add: in_central_state_def rs_reset_def\<close>)
      then show "inevitable ok ce iid (succeeded iid (rc_active c - {iid})) (env_step ok ce iid now (nested, S_Completed_Published, c'))"
        unfolding e using o by (intro inevitable_one) simp
    qed
  qed
qed

subsection \<open>What a heartbeat recovery leaves\<close>

text \<open>The outputs that tell subscribers that an interface is connected again.\<close>

fun announces_recovery :: "rec_output \<Rightarrow> bool" where
  "announces_recovery (Rec_Publish (RecoveryCompletedEvent _ _ _ _ _ _ _)) = True"
| "announces_recovery (Rec_Publish (SystemStatusChangedEvent _ st)) = (ss_connection_state st \<noteq> None)"
| "announces_recovery _ = False"

lemma try_transition_silent: "\<forall>y \<in> set (snd (try_transition a t c)). \<not> announces_recovery y"
  by (rule try_transition_cases [of a t c])
    (auto simp: central_transition_to_def publish_state_change_event_def Let_def empty_status_def split: if_splits)

lemma transition_stage_counts:
  assumes "transition_stage now iid st c = (c', out)" and "get_recovery_state jid c = Some r"
  shows "(\<exists>r'. get_recovery_state jid c' = Some r' \<and> rs_attempt_count r' = rs_attempt_count r) \<and>
         (\<forall>y \<in> set out. \<not> announces_recovery y)"
  using assms by (auto simp: transition_stage_def transition_to_stage_def Let_def split: option.splits if_splits)

lemma exec_step_counts:
  assumes "exec_step now iid x e c = (e', c', out)" and "get_recovery_state jid c = Some r"
  shows "(\<exists>r'. get_recovery_state jid c' = Some r' \<and> rs_attempt_count r' = rs_attempt_count r) \<and>
         (\<forall>y \<in> set out. \<not> announces_recovery y)"
  using assms
  by (auto simp: exec_step_def Let_def split_beta split: exec_phase.splits exec_input.splits if_splits option.splits
      dest!: transition_stage_counts)

lemma gather_step_counts:
  assumes "gather_step now ids inp ph c = (ph', c', out)" and "get_recovery_state jid c = Some r"
  shows "(\<exists>r'. get_recovery_state jid c' = Some r' \<and> rs_attempt_count r' = rs_attempt_count r) \<and>
         (\<forall>y \<in> set out. \<not> announces_recovery y)"
proof (cases "\<exists>es k x. ph = G_Run es \<and> inp = Sub k x \<and> k < length ids \<and> k < length es")
  case True
  then obtain es k x e' c1 out1 where e: "ph = G_Run es" "inp = Sub k x" "k < length ids" "k < length es"
    and s: "exec_step now (ids ! k) x (es ! k) c = (e', c1, out1)"
    by (metis prod_cases3)
  from exec_step_counts [OF s assms(2)] assms e show ?thesis by (auto simp: gather_step_def s)
next
  case False
  have silent: "\<forall>y \<in> set out'. \<not> announces_recovery y" if "try_transition a t c1 = (c2, out')" for a t c1 c2 out'
    using try_transition_silent [of a t c1] that by simp
  from False assms show ?thesis
    by (cases ph; cases inp)
      (auto simp: gather_step_def Let_def central_moves release_semaphore_def get_recovery_state_def
        split: if_splits prod.splits dest: try_transition_eqD silent)
qed

lemma gather_run_counts:
  assumes "i < length (rc_tasks c)" and "rc_tasks c ! i = Gather ids ph" and "get_recovery_state jid c = Some r"
  shows "\<exists>r'. get_recovery_state jid (foldl (\<lambda>c x. fst (task_step (fst x) i (snd x) c)) c xs) = Some r' \<and>
           rs_attempt_count r' = rs_attempt_count r"
  using assms
proof (induction xs arbitrary: c ph r)
  case (Cons x xs)
  obtain ph' c' out where g: "gather_step (fst x) ids (snd x) ph c = (ph', c', out)" by (metis prod_cases3)
  have t: "rc_tasks c' = rc_tasks c" using gather_step_semaphore [OF g] by simp
  have st: "fst (task_step (fst x) i (snd x) c) = c'\<lparr>rc_tasks := (rc_tasks c')[i := Gather ids ph']\<rparr>"
    using Cons.prems g by (simp add: task_step_def)
  obtain r' where r': "get_recovery_state jid c' = Some r'" "rs_attempt_count r' = rs_attempt_count r"
    using gather_step_counts [OF g Cons.prems(3)] by blast
  from Cons.IH [of "fst (task_step (fst x) i (snd x) c)" ph' r'] r' t Cons.prems(1) st show ?case
    by (simp add: get_recovery_state_def)
qed simp

lemma get_allow_one_attempt:
  "get_recovery_state iid (allow_one_attempt ids c) =
     map_option (\<lambda>r. if iid \<in> set ids then r\<lparr>rs_attempt_count := MAX_RECOVERY_ATTEMPTS - 1\<rparr> else r) (get_recovery_state iid c)"
proof (induction ids arbitrary: c)
  case (Cons jid ids)
  have "allow_one_attempt (jid # ids) c =
        allow_one_attempt ids (case get_recovery_state jid c of None \<Rightarrow> c
          | Some r \<Rightarrow> put_state jid (r\<lparr>rs_attempt_count := MAX_RECOVERY_ATTEMPTS - 1\<rparr>) c)"
    by (simp add: allow_one_attempt_def)
  then show ?case
    by (cases "get_recovery_state jid c"; cases "get_recovery_state iid c") (auto simp: Cons.IH)
qed (simp add: allow_one_attempt_def option.map_ident)

subsection \<open>Properties\<close>

text \<open>
  C33: At most two recoveries run their stages at any time. In every history of events, task
  interleavings, failures and cancellations the free slots of the semaphore and the executions that
  are inside a stage add up to the configured two.
\<close>

theorem recovery_concurrency:
  "rc_semaphore (rec_run (coordinator_init name configs inc m) es) +
     tasks_held (rec_run (coordinator_init name configs inc m) es) = MAX_CONCURRENT_RECOVERIES"
  using sem.run_inv [OF semaphore_inv_init, of es name configs inc m]
  by (simp add: rec_run_def semaphore_inv_def list_all_iff)



text \<open>
  C15: In the failed state the coordinator keeps trying. In every history without cancelled tasks, while
  the failed state is set and the coordinator is not stopped, a heartbeat is alive, or a task has just
  published the failure and starts one when it resumes; and a heartbeat that wakes up requests the
  recovery of every interface that has used up its attempts and gives it an attempt again.
\<close>

theorem recovery_heartbeat:
  assumes c: "c = rec_run (coordinator_init name configs inc m) es" and "list_all not_cancelled es"
    and "rc_in_failed_state c" and "\<not> rc_shutdown c"
  shows "(heartbeat_alive c \<or>
            (\<exists>i iid nested in_try. i < length (rc_tasks c) \<and> rc_tasks c ! i = Single iid nested (S_Failed_Published in_try) \<and>
               heartbeat_alive (fst (task_step now i Resume c)))) \<and>
         (\<forall>i iid r. i < length (rc_heartbeats c) \<longrightarrow> rc_heartbeats c ! i = HB_Sleeping \<longrightarrow>
            get_recovery_state iid c = Some r \<longrightarrow> \<not> can_retry r \<longrightarrow>
            (\<exists>ids. snd (heartbeat_step now i available c) = [Rec_Publish (HeartbeatTimerFiredEvent now (rc_name c) ids)] \<and> iid \<in> set ids) \<and>
            (\<exists>r'. get_recovery_state iid (fst (heartbeat_step now i available c)) = Some r' \<and> can_retry r'))"
proof -
  have inv: "heartbeat_inv c"
    using hb.run_inv [OF heartbeat_inv_init assms(2)] by (simp add: c rec_run_def)
  have starts: "heartbeat_alive (fst (task_step now i Resume c))"
    if "i < length (rc_tasks c)" "rc_tasks c ! i = Single iid nested (S_Failed_Published in_try)" for i iid nested in_try
    using heartbeats_accumulate [OF inv that] by (simp add: heartbeat_alive_def)
  have "heartbeat_alive c \<or> (\<exists>t \<in> set (rc_tasks c). failing_task t)"
    using inv assms(3,4) by (simp add: heartbeat_inv_def)
  then have "heartbeat_alive c \<or>
            (\<exists>i iid nested in_try. i < length (rc_tasks c) \<and> rc_tasks c ! i = Single iid nested (S_Failed_Published in_try) \<and>
               heartbeat_alive (fst (task_step now i Resume c)))"
    using starts by (metis failing_task.elims(2) in_set_conv_nth)
  moreover have "(\<exists>ids. snd (heartbeat_step now i available c) = [Rec_Publish (HeartbeatTimerFiredEvent now (rc_name c) ids)] \<and> iid \<in> set ids) \<and>
            (\<exists>r'. get_recovery_state iid (fst (heartbeat_step now i available c)) = Some r' \<and> can_retry r')"
    if h: "i < length (rc_heartbeats c)" "rc_heartbeats c ! i = HB_Sleeping" "get_recovery_state iid c = Some r" "\<not> can_retry r" for i iid r
  proof -
    have i: "iid \<in> set (failed_interfaces available c)"
      using h(3,4) dict_get_in_set [of "rc_states c" iid r] by (force simp: failed_interfaces_def get_recovery_state_def)
    then have "get_recovery_state iid (allow_one_attempt (failed_interfaces available c) c) = Some (r\<lparr>rs_attempt_count := MAX_RECOVERY_ATTEMPTS - 1\<rparr>)"
      using h(3) by (simp add: get_allow_one_attempt)
    with i h(1,2) assms(3,4) show ?thesis
      by (auto simp: heartbeat_step_def Let_def get_recovery_state_def can_retry_def MAX_RECOVERY_ATTEMPTS_def set_heartbeat_def)
  qed
  ultimately show ?thesis by blast
qed

text \<open>
  An interface without a client at the start: the heartbeat wakes up once, the recovery that it allows fails
  in its second stage, and the heartbeat is asleep again.
\<close>

definition failed_start_history :: "rec_event list" where
  "failed_start_history =
     [Central_State_Changed 1 C_INITIALIZING C_FAILED (Some no_clients_connected),
      Heartbeat_Runs 2 0 (\<lambda>_. False), Heartbeat_Runs 3 0 (\<lambda>_. False), Heartbeat_Runs 4 0 (\<lambda>_. False),
      Breaker_Tripped ''rf'', Task_Runs 5 0 Resume, Task_Runs 6 0 (Client_Lookup True), Task_Runs 7 0 (Exec (Acquire True)),
      Task_Runs 8 0 (Exec (Probe True)), Task_Runs 9 0 (Exec (Probe False))]"

definition failed_start_coordinator :: coordinator where
  "failed_start_coordinator =
     coordinator_init ''ccu'' [\<lparr>ic_interface_id = ''rf'', ic_interface = HMIP_RF, ic_port = None\<rparr>] False None"

lemma failed_start_run:
  "let c = rec_run failed_start_coordinator failed_start_history
   in rc_in_failed_state c \<and> \<not> rc_shutdown c \<and> rc_heartbeats c = [HB_Sleeping] \<and>
      (\<exists>r. get_recovery_state ''rf'' c = Some r \<and> rs_attempt_count r = 8)"
  by (simp add: failed_start_history_def failed_start_coordinator_def rec_run_def coordinator_init_def on_central_state_changed_def
      no_clients_connected_def state_of_def get_recovery_state_def put_state_def heartbeat_step_def set_heartbeat_def
      failed_interfaces_def allow_one_attempt_def dict_set_def dict_get_Cons recovery_state_init_def
      on_circuit_breaker_tripped_def create_task_def task_step_def single_step_def start_recovery_def can_retry_def
      MAX_RECOVERY_ATTEMPTS_def MAX_CONCURRENT_RECOVERIES_def rs_start_recovery_def transition_to_recovering_def try_transition_def
      exec_step_def transition_stage_def transition_to_stage_def exec_finished_def rs_record_failure_def Let_def)

theorem recovery_heartbeat_witness:
  "let c = rec_run failed_start_coordinator failed_start_history
   in heartbeat_alive c \<and>
      (\<exists>ids. snd (heartbeat_step 10 0 (\<lambda>_. False) c) = [Rec_Publish (HeartbeatTimerFiredEvent 10 (rc_name c) ids)] \<and> ''rf'' \<in> set ids) \<and>
      (\<exists>r. get_recovery_state ''rf'' (fst (heartbeat_step 10 0 (\<lambda>_. False) c)) = Some r \<and> can_retry r)"
proof -
  let ?c = "rec_run failed_start_coordinator failed_start_history"
  have run: "rc_in_failed_state ?c" "\<not> rc_shutdown ?c" "rc_heartbeats ?c = [HB_Sleeping]"
    "\<exists>r. get_recovery_state ''rf'' ?c = Some r \<and> rs_attempt_count r = 8"
    using failed_start_run by (simp_all add: Let_def)
  have "list_all not_cancelled failed_start_history" by (simp add: failed_start_history_def)
  note beats = recovery_heartbeat [OF failed_start_coordinator_def [THEN arg_cong, of "\<lambda>c. rec_run c failed_start_history"] this run(1,2)]
  from beats [of 10 "\<lambda>_. False"] run(3,4) show ?thesis
    by (auto simp: Let_def heartbeat_alive_def can_retry_def MAX_RECOVERY_ATTEMPTS_def)
qed

text \<open>
  A recovery by the heartbeat is not recorded as one. Whatever the tasks of
  \<open>_recover_all_interfaces\<close> do, they change no attempt counter and announce no recovery, so after a
  successful heartbeat recovery an interface keeps the seven attempts that the heartbeat set: the
  next failed attempt ends in FAILED at once, and commands that wait for \<open>RecoveryCompletedEvent\<close>
  are not woken.
\<close>

theorem heartbeat_recovery_not_recorded:
  assumes "i < length (rc_tasks c)" and "rc_tasks c ! i = Gather ids ph" and "get_recovery_state iid c = Some r"
  shows "(\<exists>r'. get_recovery_state iid (foldl (\<lambda>c x. fst (task_step (fst x) i (snd x) c)) c xs) = Some r' \<and>
            rs_attempt_count r' = rs_attempt_count r \<and>
            (rs_attempt_count r = MAX_RECOVERY_ATTEMPTS - 1 \<longrightarrow> \<not> can_retry (rs_record_failure now r'))) \<and>
         (\<forall>y \<in> set (snd (task_step now i inp c)). \<not> announces_recovery y)"
proof -
  obtain ph' c' out where g: "gather_step now ids inp ph c = (ph', c', out)" by (metis prod_cases3)
  have "\<forall>y \<in> set (snd (task_step now i inp c)). \<not> announces_recovery y"
    using gather_step_counts [OF g assms(3)] assms(1,2) g by (simp add: task_step_def)
  then show ?thesis
    using gather_run_counts [OF assms, of xs] by (auto simp: can_retry_def rs_record_failure_def MAX_RECOVERY_ATTEMPTS_def)
qed

theorem heartbeat_recovery_not_recorded_witness:
  "let r = (recovery_state_init 0 ''rf'')\<lparr>rs_attempt_count := 7\<rparr>;
       c = (coordinator_init ''ccu'' [] False None)\<lparr>rc_states := [(''rf'', r)], rc_tasks := [Gather [''rf''] (G_Run [E_Stage DATA_LOADING True])]\<rparr>;
       c' = foldl (\<lambda>c x. fst (task_step (fst x) 0 (snd x) c)) c [(1, Sub 0 (Probe True)), (2, Sub 0 (Probe True)), (3, Resume)]
   in (\<exists>r'. get_recovery_state ''rf'' c' = Some r' \<and> \<not> can_retry (rs_record_failure 4 r'))"
proof -
  let ?r = "(recovery_state_init 0 ''rf'')\<lparr>rs_attempt_count := 7\<rparr>"
  let ?c = "(coordinator_init ''ccu'' [] False None)\<lparr>rc_states := [(''rf'', ?r)], rc_tasks := [Gather [''rf''] (G_Run [E_Stage DATA_LOADING True])]\<rparr>"
  have "get_recovery_state ''rf'' ?c = Some ?r" by (simp add: get_recovery_state_def dict_get_Cons)
  from heartbeat_recovery_not_recorded [of 0 ?c "[''rf'']" "G_Run [E_Stage DATA_LOADING True]" "''rf''" ?r
      "[(1, Sub 0 (Probe True)), (2, Sub 0 (Probe True)), (3, Resume)]" 4, OF _ _ this]
  show ?thesis by (simp add: Let_def MAX_RECOVERY_ATTEMPTS_def) blast
qed

text \<open>
  The success of one interface makes the coordinator forget the others that failed. When the last
  active recovery succeeds, the central becomes RUNNING and the failed state is left even though another
  interface has used up its attempts: its state stays exhausted, and every heartbeat ends without a
  request when it runs next.
\<close>

theorem recovery_forgets_failed_interface:
  assumes "i < length (rc_tasks c)" and "rc_tasks c ! i = Single iid nested S_Restored_Published"
    and "rc_active c \<subseteq> {iid}" and "in_central_state C_RECOVERING c"
    and "get_recovery_state jid c = Some r" and "\<not> can_retry r"
  shows "in_central_state C_RUNNING (fst (task_step now i Resume c)) \<and> \<not> rc_in_failed_state (fst (task_step now i Resume c)) \<and>
         heartbeat_step later k available (fst (task_step now i Resume c)) = (set_heartbeat k HB_Ended (fst (task_step now i Resume c)), []) \<and>
         \<not> in_recovery (fst (task_step now i Resume c)) \<and>
         get_recovery_state jid (fst (task_step now i Resume c)) = Some r"
proof -
  obtain m where m: "rc_machine c = Some m" "zsm_state m = C_RECOVERING" using assms(4) by (auto simp: in_central_state_def)
  let ?t = "try_transition (default_args now ''All interfaces recovered successfully'') C_RUNNING (discard iid c)"
  have "in_central_state C_RUNNING (fst ?t)"
    by (rule try_transition_to [where m = m]) (use m in \<open>simp_all add: default_args_def\<close>)
  moreover have "transition_after_recovery now (discard iid c) = (stop_heartbeat_timer ((fst ?t)\<lparr>rc_in_failed_state := False\<rparr>), snd ?t)"
    using assms(3) m by (auto simp: transition_after_recovery_def transition_to_running_def split_beta)
  ultimately show ?thesis
    using assms(1,2,3,5)
    by (auto simp: task_step_def single_step_def heartbeat_ends in_central_state_def get_recovery_state_def in_recovery_def)
qed

theorem recovery_forgets_failed_interface_witness:
  "let c = (coordinator_init ''ccu'' [] False (Some ((central_sm_init 0 ''ccu'' False)\<lparr>zsm_state := C_RECOVERING\<rparr>)))
             \<lparr>rc_states := [(''wired'', (recovery_state_init 0 ''wired'')\<lparr>rs_attempt_count := 8\<rparr>), (''rf'', recovery_state_init 0 ''rf'')],
              rc_active := {''rf''}, rc_in_failed_state := True, rc_heartbeats := [HB_Sleeping],
              rc_tasks := [Single ''wired'' True S_Ended, Single ''rf'' False S_Restored_Published]\<rparr>
   in rc_heartbeats (fst (heartbeat_step 10 0 (\<lambda>_. False) (fst (task_step 9 1 Resume c)))) = [HB_Ended] \<and> in_central_state C_RUNNING (fst (task_step 9 1 Resume c))"
proof -
  let ?w = "(recovery_state_init 0 ''wired'')\<lparr>rs_attempt_count := 8\<rparr>"
  let ?c = "(coordinator_init ''ccu'' [] False (Some ((central_sm_init 0 ''ccu'' False)\<lparr>zsm_state := C_RECOVERING\<rparr>)))
             \<lparr>rc_states := [(''wired'', ?w), (''rf'', recovery_state_init 0 ''rf'')],
              rc_active := {''rf''}, rc_in_failed_state := True, rc_heartbeats := [HB_Sleeping],
              rc_tasks := [Single ''wired'' True S_Ended, Single ''rf'' False S_Restored_Published]\<rparr>"
  have "in_central_state C_RECOVERING ?c" by (simp add: in_central_state_def coordinator_init_def)
  moreover have "get_recovery_state ''wired'' ?c = Some ?w" by (simp add: get_recovery_state_def dict_get_Cons)
  moreover have "\<not> can_retry ?w" by (simp add: can_retry_def MAX_RECOVERY_ATTEMPTS_def)
  ultimately have "in_central_state C_RUNNING (fst (task_step 9 1 Resume ?c)) \<and>
      heartbeat_step 10 0 (\<lambda>_. False) (fst (task_step 9 1 Resume ?c)) = (set_heartbeat 0 HB_Ended (fst (task_step 9 1 Resume ?c)), [])"
    using recovery_forgets_failed_interface [of 1 ?c "''rf''" False "''wired''" ?w 9 10 0 "\<lambda>_. False"] by simp
  moreover have "rc_heartbeats (fst (task_step 9 1 Resume ?c)) = [HB_Sleeping]"
    by (simp add: task_step_def single_step_def transition_after_recovery_def transition_to_running_def coordinator_init_def split_beta)
  ultimately show ?thesis by (simp add: Let_def set_heartbeat_def)
qed

text \<open>
  A recovery that finds no client blocks its interface. \<open>_start_recovery\<close> marks the interface as
  active before it looks up the client, and the lookup is outside its \<open>try\<close> statement: when it
  raises, the task is over but the interface stays marked, and from then on lost connections and
  tripped breakers of that interface are ignored.
\<close>

theorem recovery_blocked_by_missing_client:
  assumes "i < length (rc_tasks c)" and "rc_tasks c ! i = Single iid False S_Lost_Published" and "iid \<in> rc_active c"
  shows "let c' = fst (task_step now i (Client_Lookup False) c)
         in rc_tasks c' ! i = Single iid False S_Ended \<and> iid \<in> rc_active c' \<and>
            rec_step c' (Connection_Lost iid reason) = (c', []) \<and> rec_step c' (Breaker_Tripped iid) = (c', [])"
  using assms
  by (simp add: task_step_def single_step_def end_before_try_def on_connection_lost_def on_circuit_breaker_tripped_def)

theorem recovery_blocked_by_missing_client_witness:
  "let c = rec_run (coordinator_init ''ccu'' [] False None)
             [Connection_Lost ''rf'' ''ping'', Task_Runs 1 0 Resume, Task_Runs 2 0 (Client_Lookup False)]
   in rc_tasks c ! 0 = Single ''rf'' False S_Ended \<and> rec_step c (Connection_Lost ''rf'' ''ping'') = (c, [])"
proof -
  let ?c = "rec_run (coordinator_init ''ccu'' [] False None) [Connection_Lost ''rf'' ''ping'', Task_Runs 1 0 Resume]"
  have "rc_tasks ?c = [Single ''rf'' False S_Lost_Published]" "rc_active ?c = {''rf''}"
    by (simp_all add: rec_run_def coordinator_init_def on_connection_lost_def create_task_def task_step_def single_step_def
        start_recovery_def state_of_def get_recovery_state_def can_retry_def recovery_state_init_def MAX_RECOVERY_ATTEMPTS_def
        transition_to_recovering_def try_transition_def put_state_def Let_def)
  then show ?thesis
    using recovery_blocked_by_missing_client [of 0 ?c "''rf''" 2 "''ping''"] by (simp add: rec_run_def Let_def)
qed

end
