(* ===== verification/Client_State_Machine.thy ===== *)
theory Client_State_Machine
  imports Events
begin

section \<open>The client state machine (\<open>client/state_machine.py\<close>)\<close>

text \<open>
  \<open>ClientStateMachine\<close>: the table \<open>_VALID_TRANSITIONS\<close>, the record of the slots of the class, the
  queries and the two operations that change it, \<open>transition_to\<close> and \<open>reset\<close>. The lemmas show the
  exact error behaviour, the invariant of the failure information, and, through the
  \<open>guarded_machine\<close> interface, what every history of calls looks like.
\<close>

subsection \<open>Definitions\<close>

fun client_transitions :: "client_state \<Rightarrow> client_state list" where
  "client_transitions CREATED = [INITIALIZING]"
| "client_transitions INITIALIZING = [INITIALIZED, FAILED]"
| "client_transitions INITIALIZED = [CONNECTING, DISCONNECTED]"
| "client_transitions CONNECTING = [CONNECTED, FAILED]"
| "client_transitions CONNECTED = [DISCONNECTED, RECONNECTING, STOPPING]"
| "client_transitions DISCONNECTED = [CONNECTING, DISCONNECTED, RECONNECTING, STOPPING]"
| "client_transitions RECONNECTING = [CONNECTED, DISCONNECTED, FAILED, CONNECTING]"
| "client_transitions STOPPING = [STOPPED]"
| "client_transitions STOPPED = []"
| "client_transitions FAILED = [INITIALIZING, CONNECTING, RECONNECTING, DISCONNECTED]"

datatype client_sm_error = InvalidStateTransitionError client_state client_state string

record client_sm =
  csm_interface_id :: string
  csm_event_bus :: bool \<comment> \<open>whether an event bus is attached\<close>
  csm_state :: client_state
  csm_failure_reason :: failure_reason
  csm_failure_message :: string

definition client_sm_init :: "string \<Rightarrow> bool \<Rightarrow> client_sm" where
  "client_sm_init interface_id event_bus =
     \<lparr>csm_interface_id = interface_id, csm_event_bus = event_bus, csm_state = CREATED,
      csm_failure_reason = FR_NONE, csm_failure_message = []\<rparr>"

definition client_can_reconnect :: "client_sm \<Rightarrow> bool" where
  "client_can_reconnect m \<longleftrightarrow> RECONNECTING \<in> set (client_transitions (csm_state m))"

definition client_is_available :: "client_sm \<Rightarrow> bool" where
  "client_is_available m \<longleftrightarrow> csm_state m \<in> {CONNECTED, RECONNECTING}"

definition client_is_connected :: "client_sm \<Rightarrow> bool" where
  "client_is_connected m \<longleftrightarrow> csm_state m = CONNECTED"

definition client_is_failed :: "client_sm \<Rightarrow> bool" where
  "client_is_failed m \<longleftrightarrow> csm_state m = FAILED"

definition client_is_stopped :: "client_sm \<Rightarrow> bool" where
  "client_is_stopped m \<longleftrightarrow> csm_state m = STOPPED"

definition client_can_transition_to :: "client_sm \<Rightarrow> client_state \<Rightarrow> bool" where
  "client_can_transition_to m target \<longleftrightarrow> target \<in> set (client_transitions (csm_state m))"

definition client_reset :: "client_sm \<Rightarrow> client_sm" where
  "client_reset m = m\<lparr>csm_state := CREATED, csm_failure_reason := FR_NONE, csm_failure_message := []\<rparr>"

definition client_emit_state_change :: "time \<Rightarrow> client_sm \<Rightarrow> client_state \<Rightarrow> client_state \<Rightarrow> string option \<Rightarrow> event list" where
  "client_emit_state_change now m old_state new_state trigger =
     (if \<not> csm_event_bus m then []
      else [ClientStateChangedEvent now (csm_interface_id m) old_state new_state trigger])"

definition client_transition_to ::
  "time \<Rightarrow> client_state \<Rightarrow> string \<Rightarrow> bool \<Rightarrow> failure_reason \<Rightarrow> client_sm \<Rightarrow> client_sm_error + client_sm \<times> event list" where
  "client_transition_to now target reason force failure_reason m =
     (if \<not> force \<and> \<not> client_can_transition_to m target
      then Inl (InvalidStateTransitionError (csm_state m) target (csm_interface_id m))
      else
        let old_state = csm_state m;
            m1 = m\<lparr>csm_state := target\<rparr>;
            m2 = (if target = FAILED
                  then m1\<lparr>csm_failure_reason := failure_reason, csm_failure_message := reason\<rparr>
                  else if target \<in> {CONNECTED, INITIALIZED}
                  then m1\<lparr>csm_failure_reason := FR_NONE, csm_failure_message := []\<rparr>
                  else m1)
        in Inr (m2, client_emit_state_change now m2 old_state target (or_none reason)))"

text \<open>The calls that change a client state machine, and a history of them.\<close>

datatype client_call =
    ClientTransition time client_state string bool failure_reason
  | ClientReset

fun client_call_step :: "client_sm \<Rightarrow> client_call \<Rightarrow> client_sm" where
  "client_call_step m (ClientTransition now t r f fr) =
     (case client_transition_to now t r f fr m of Inl _ \<Rightarrow> m | Inr (m', _) \<Rightarrow> m')"
| "client_call_step m ClientReset = client_reset m"

text \<open>
  The invariant of the failure information: a machine that is connected, initialised or freshly
  created carries no failure, and a failure message needs a failure to have been recorded.
\<close>

definition client_sm_inv :: "client_sm \<Rightarrow> bool" where
  "client_sm_inv m \<longleftrightarrow>
     (csm_state m \<in> {CONNECTED, INITIALIZED} \<longrightarrow> csm_failure_reason m = FR_NONE \<and> csm_failure_message m = [])"

subsection \<open>Behaviour of one call\<close>

lemma client_transition_state [step_simps]:
  "client_transition_to now t r f fr m = Inr (m', es) \<Longrightarrow>
     csm_state m' = t \<and> csm_interface_id m' = csm_interface_id m \<and> csm_event_bus m' = csm_event_bus m"
  by (auto simp: client_transition_to_def Let_def split: if_splits)

lemma client_transition_Inl_iff:
  "(\<exists>e. client_transition_to now t r f fr m = Inl e) \<longleftrightarrow> \<not> f \<and> t \<notin> set (client_transitions (csm_state m))"
  by (auto simp: client_transition_to_def client_can_transition_to_def Let_def)

lemma client_transition_inv [inv_intros]:
  "client_sm_inv m \<Longrightarrow> client_transition_to now t r f fr m = Inr (m', es) \<Longrightarrow> client_sm_inv m'"
  by (auto simp: client_sm_inv_def client_transition_to_def Let_def split: if_splits)

lemma client_call_step_inv [inv_intros]: "client_sm_inv m \<Longrightarrow> client_sm_inv (client_call_step m c)"
  by (cases c) (auto simp: client_sm_inv_def client_reset_def
      intro: client_transition_inv [unfolded client_sm_inv_def] split: sum.splits dest!: client_transition_inv [rotated])

lemma client_run_inv: "client_sm_inv m \<Longrightarrow> client_sm_inv (foldl client_call_step m cs)"
  by (induction cs arbitrary: m) (auto intro: client_call_step_inv)

subsection \<open>The machine as a guarded machine\<close>

text \<open>The unforced call, with its other arguments as one argument of the interface.\<close>

definition client_unforced ::
  "time \<times> string \<times> failure_reason \<Rightarrow> client_state \<Rightarrow> client_sm \<Rightarrow> client_sm_error + client_sm \<times> event list" where
  "client_unforced a t m = (case a of (now, r, fr) \<Rightarrow> client_transition_to now t r False fr m)"

interpretation csm: guarded_machine "\<lambda>s. set (client_transitions s)" csm_state client_unforced
proof unfold_locales
  fix t and m :: client_sm and a :: "time \<times> string \<times> failure_reason"
  assume t: "t \<in> set (client_transitions (csm_state m))"
  obtain now r fr where a: "a = (now, r, fr)" by (cases a) auto
  from t have "\<not> (\<exists>e. client_transition_to now t r False fr m = Inl e)"
    by (subst client_transition_Inl_iff) simp
  then obtain p where p: "client_transition_to now t r False fr m = Inr p"
    by (cases "client_transition_to now t r False fr m") auto
  obtain m' es where "p = (m', es)" by force
  with p a client_transition_state [of now t r False fr m m' es]
  show "\<exists>m' os. client_unforced a t m = Inr (m', os) \<and> csm_state m' = t"
    by (auto simp: client_unforced_def)
next
  fix t and m :: client_sm and a :: "time \<times> string \<times> failure_reason"
  assume "t \<notin> set (client_transitions (csm_state m))"
  then show "\<exists>e. client_unforced a t m = Inl e"
    by (cases a) (simp add: client_unforced_def client_transition_to_def client_can_transition_to_def)
qed

subsection \<open>Properties\<close>

text \<open>
  \<open>transition_to\<close> on every branch. Without \<open>force\<close> it raises
  \<open>InvalidStateTransitionError\<close> exactly when the target is not in the table's entry for the
  current state, and then names both states and the interface. In every other case the machine is
  in the target state, a move to FAILED records the given reason and message, a move to CONNECTED or
  INITIALIZED clears them, every other move keeps them, and exactly one state-changed event with the
  old and the new state is published when a bus is attached.
\<close>

theorem client_transition_to_spec:
  "client_transition_to now target reason force fr m =
     (if force \<or> target \<in> set (client_transitions (csm_state m))
      then Inr (\<lparr>csm_interface_id = csm_interface_id m, csm_event_bus = csm_event_bus m, csm_state = target,
                 csm_failure_reason =
                   (case target of FAILED \<Rightarrow> fr | CONNECTED \<Rightarrow> FR_NONE | INITIALIZED \<Rightarrow> FR_NONE
                    | _ \<Rightarrow> csm_failure_reason m),
                 csm_failure_message =
                   (case target of FAILED \<Rightarrow> reason | CONNECTED \<Rightarrow> [] | INITIALIZED \<Rightarrow> []
                    | _ \<Rightarrow> csm_failure_message m)\<rparr>,
                if csm_event_bus m
                then [ClientStateChangedEvent now (csm_interface_id m) (csm_state m) target
                        (if reason = [] then None else Some reason)]
                else [])
      else Inl (InvalidStateTransitionError (csm_state m) target (csm_interface_id m)))"
  by (cases target)
    (auto simp: client_transition_to_def client_can_transition_to_def client_emit_state_change_def
      or_none_def Let_def)

text \<open>
  Over every history of calls (transitions forced or not, failing or not, and resets) from a
  fresh machine, a machine that is CONNECTED or INITIALIZED carries no failure reason and no
  failure message, so a recovered client never reports a stale failure.
\<close>

theorem client_no_stale_failure:
  assumes "csm_state (foldl client_call_step (client_sm_init iid bus) cs) \<in> {CONNECTED, INITIALIZED}"
  shows "csm_failure_reason (foldl client_call_step (client_sm_init iid bus) cs) = FR_NONE \<and>
         csm_failure_message (foldl client_call_step (client_sm_init iid bus) cs) = []"
proof -
  have "client_sm_inv (client_sm_init iid bus)"
    by (simp add: client_sm_inv_def client_sm_init_def)
  from client_run_inv [OF this, of cs] have "client_sm_inv (foldl client_call_step (client_sm_init iid bus) cs)" .
  with assms show ?thesis
    unfolding client_sm_inv_def by blast
qed

theorem client_no_stale_failure_witness:
  "let cs = [ClientTransition 0 INITIALIZING [] False FR_NONE, ClientTransition 1 FAILED ''x'' False FR_NETWORK,
             ClientTransition 2 RECONNECTING [] False FR_NONE, ClientTransition 3 CONNECTED [] False FR_NONE];
       m = foldl client_call_step (client_sm_init ''i'' True) cs
   in csm_state m = CONNECTED \<and> csm_failure_reason m = FR_NONE \<and> csm_failure_message m = []"
  using client_no_stale_failure [of "''i''" True
      "[ClientTransition 0 INITIALIZING [] False FR_NONE, ClientTransition 1 FAILED ''x'' False FR_NETWORK,
        ClientTransition 2 RECONNECTING [] False FR_NONE, ClientTransition 3 CONNECTED [] False FR_NONE]"]
  by (simp add: client_transition_to_spec client_sm_init_def)

text \<open>
  A sequence of unforced calls succeeds exactly when its targets form a walk in the transition
  table, and a client that failed or was never started becomes available again only by passing
  through CONNECTING or RECONNECTING.
\<close>

theorem client_walks:
  "((\<exists>m' es. run_machine client_unforced ats m = Inr (m', es)) \<longleftrightarrow>
      valid_walk (\<lambda>s. set (client_transitions s)) (csm_state m) (map snd ats)) \<and>
   (\<forall>m' es. run_machine client_unforced ats m = Inr (m', es) \<longrightarrow>
      csm_state m \<notin> {CONNECTED, CONNECTING, RECONNECTING} \<longrightarrow> csm_state m' = CONNECTED \<longrightarrow>
      CONNECTING \<in> snd ` set ats \<or> RECONNECTING \<in> snd ` set ats)"
proof -
  let ?S = "{s. s \<notin> {CONNECTED, CONNECTING, RECONNECTING}}"
  have closed: "set (client_transitions s) \<subseteq> ?S \<union> {CONNECTING, RECONNECTING}" if "s \<in> ?S" for s
    using that by (cases s) auto
  have "set (map snd ats) \<inter> {CONNECTING, RECONNECTING} \<noteq> {}"
    if "run_machine client_unforced ats m = Inr (m', es)" "csm_state m \<in> ?S" "csm_state m' = CONNECTED" for m' es
    using that by (intro csm.run_through [OF that(1,2)] closed) auto
  then show ?thesis
    using csm.run_iff_walk [of ats m] by fastforce
qed

theorem client_walks_witness:
  "CONNECTING \<in> snd ` set [((0, [], FR_NONE), CONNECTING), ((1, [], FR_NONE), CONNECTED)] \<or>
   RECONNECTING \<in> snd ` set [((0 :: time, [] :: string, FR_NONE), CONNECTING), ((1, [], FR_NONE), CONNECTED)]"
  using client_walks [of "[((0, [], FR_NONE), CONNECTING), ((1, [], FR_NONE), CONNECTED)]"
      "client_reset (client_sm_init ''i'' False)\<lparr>csm_state := FAILED\<rparr>"]
  by (simp add: client_unforced_def client_transition_to_spec client_sm_init_def client_reset_def)

end
