(* ===== verification/Rpc_Errors.thy ===== *)
theory Rpc_Errors
  imports Events "HOL-Library.Sublist"
begin

section \<open>Exceptions and their mapping (\<open>exceptions.py\<close>, \<open>client/_rpc_errors.py\<close>)\<close>

text \<open>
  The exception classes of the library, the mapping of JSON-RPC errors, XML-RPC faults and transport
  errors to them, and the classification into failure reasons. An exception carries its class, its
  message, the fault code of an XML-RPC fault and the exception it was raised from. A message of
  the translation catalogue is represented by its catalogue key.
\<close>

subsection \<open>Exceptions\<close>

datatype exn_class =
    BaseHomematicException | ClientException | UnsupportedException | ValidationException
  | NoConnectionException | CircuitBreakerOpenException | NoClientsException | AuthFailure
  | AioHomematicException | AioHomematicConfigException | InternalBackendException
  | CommandSupersededError | DescriptionNotFoundException
  | PyOSError | PySSLError | PyTimeoutError | PyXmlRpcFault | PyTypeError | PyProtocolError
  | PyImproperConnectionState | PyExpatError | PyIndexError | PyValueError | PyRuntimeError
  | PyCancelledError | PyException

text \<open>The base classes of each class, itself included: \<open>isinstance\<close> tests membership.\<close>

fun exn_bases :: "exn_class \<Rightarrow> exn_class list" where
  "exn_bases BaseHomematicException = [BaseHomematicException, PyException]"
| "exn_bases ClientException = [ClientException, BaseHomematicException, PyException]"
| "exn_bases UnsupportedException = [UnsupportedException, BaseHomematicException, PyException]"
| "exn_bases ValidationException = [ValidationException, BaseHomematicException, PyException]"
| "exn_bases NoConnectionException = [NoConnectionException, BaseHomematicException, PyException]"
| "exn_bases CircuitBreakerOpenException = [CircuitBreakerOpenException, BaseHomematicException, PyException]"
| "exn_bases NoClientsException = [NoClientsException, BaseHomematicException, PyException]"
| "exn_bases AuthFailure = [AuthFailure, BaseHomematicException, PyException]"
| "exn_bases AioHomematicException = [AioHomematicException, BaseHomematicException, PyException]"
| "exn_bases AioHomematicConfigException = [AioHomematicConfigException, BaseHomematicException, PyException]"
| "exn_bases InternalBackendException = [InternalBackendException, BaseHomematicException, PyException]"
| "exn_bases CommandSupersededError = [CommandSupersededError, BaseHomematicException, PyException]"
| "exn_bases DescriptionNotFoundException = [DescriptionNotFoundException, BaseHomematicException, PyException]"
| "exn_bases PyOSError = [PyOSError, PyException]"
| "exn_bases PySSLError = [PySSLError, PyOSError, PyException]"
| "exn_bases PyTimeoutError = [PyTimeoutError, PyOSError, PyException]"
| "exn_bases PyXmlRpcFault = [PyXmlRpcFault, PyException]"
| "exn_bases PyTypeError = [PyTypeError, PyException]"
| "exn_bases PyProtocolError = [PyProtocolError, PyException]"
| "exn_bases PyImproperConnectionState = [PyImproperConnectionState, PyException]"
| "exn_bases PyExpatError = [PyExpatError, PyException]"
| "exn_bases PyIndexError = [PyIndexError, PyException]"
| "exn_bases PyValueError = [PyValueError, PyException]"
| "exn_bases PyRuntimeError = [PyRuntimeError, PyException]"
| "exn_bases PyCancelledError = [PyCancelledError]"
| "exn_bases PyException = [PyException]"

datatype exn = Exn (exn_cls: exn_class) (exn_msg: string) (exn_fault: "int option") (exn_cause: "exn option")

definition isinstance :: "exn \<Rightarrow> exn_class \<Rightarrow> bool" where
  "isinstance e c \<longleftrightarrow> c \<in> set (exn_bases (exn_cls e))"

text \<open>An exception raised with a message only, and one raised \<open>from\<close> another.\<close>

definition new_exn :: "exn_class \<Rightarrow> string \<Rightarrow> exn" where
  "new_exn c msg = Exn c msg None None"

definition raise_from :: "exn \<Rightarrow> exn \<Rightarrow> exn" where
  "raise_from e cause = Exn (exn_cls e) (exn_msg e) (exn_fault e) (Some cause)"

subsection \<open>String tests\<close>

definition py_lower_char :: "char \<Rightarrow> char" where
  "py_lower_char c = (let n = of_char c :: nat in if 65 \<le> n \<and> n \<le> 90 then char_of (n + 32) else c)"

definition py_lower :: "string \<Rightarrow> string" where
  "py_lower s = map py_lower_char s"

fun py_join :: "string \<Rightarrow> string list \<Rightarrow> string" where
  "py_join sep [] = []"
| "py_join sep [x] = x"
| "py_join sep (x # y # xs) = x @ sep @ py_join sep (y # xs)"

text \<open>\<open>str\<close> of a Python \<open>int\<close>.\<close>

fun str_nat :: "nat \<Rightarrow> string" where
  "str_nat n = (if n < 10 then [char_of (48 + n)] else str_nat (n div 10) @ [char_of (48 + n mod 10)])"

declare str_nat.simps [simp del]

definition str_int :: "int \<Rightarrow> string" where
  "str_int i = (if i < 0 then ''-'' @ str_nat (nat (- i)) else str_nat (nat i))"

subsection \<open>Mapping of errors\<close>

record rpc_context =
  rc_protocol :: string
  rc_method :: string
  rc_host :: "string option"
  rc_interface :: "string option"

definition truthy :: "string option \<Rightarrow> bool" where
  "truthy x \<longleftrightarrow> x \<noteq> None \<and> x \<noteq> Some []"

definition rpc_fmt :: "rpc_context \<Rightarrow> bool \<Rightarrow> string" where
  "rpc_fmt ctx sanitize =
     py_join '', ''
       ([''protocol='' @ rc_protocol ctx, ''method='' @ rc_method ctx]
        @ (if truthy (rc_interface ctx) then [''interface='' @ the (rc_interface ctx)] else [])
        @ (if truthy (rc_host ctx) \<and> \<not> sanitize then [''host='' @ the (rc_host ctx)] else []))"

definition rpc_fmt_sanitized :: "rpc_context \<Rightarrow> string" where
  "rpc_fmt_sanitized ctx = rpc_fmt ctx True"

text \<open>
  \<open>map_jsonrpc_error\<close>: code and message are the values of the error object, 0 and the empty string
  when a key is missing.
\<close>

definition map_jsonrpc_error :: "int option \<Rightarrow> string option \<Rightarrow> rpc_context \<Rightarrow> exn" where
  "map_jsonrpc_error err_code err_message ctx =
     (let code = (case err_code of None \<Rightarrow> 0 | Some c \<Rightarrow> c);
          message = (case err_message of None \<Rightarrow> [] | Some m \<Rightarrow> m);
          base_msg = message @ '' ('' @ rpc_fmt ctx False @ '')''
      in if prefix ''access denied'' message \<or> code \<in> {401, -32001} then new_exn AuthFailure base_msg
         else if sublist ''internal error'' (py_lower message) \<or> code \<in> {-32603, 500}
         then new_exn InternalBackendException base_msg
         else new_exn ClientException base_msg)"

definition map_transport_error :: "exn \<Rightarrow> rpc_context \<Rightarrow> exn" where
  "map_transport_error e ctx =
     (let msg = exn_msg e @ '' ('' @ rpc_fmt ctx False @ '')''
      in if isinstance e PyOSError then new_exn NoConnectionException msg else new_exn ClientException msg)"

definition map_xmlrpc_fault :: "int \<Rightarrow> string \<Rightarrow> rpc_context \<Rightarrow> exn" where
  "map_xmlrpc_fault code fault_string ctx =
     (let fault_msg = ''XMLRPC Fault '' @ str_int code @ '': '' @ fault_string @ '' ('' @ rpc_fmt ctx False @ '')''
      in if sublist ''unauthorized'' (py_lower fault_string) then new_exn AuthFailure fault_msg
         else if sublist ''internal'' (py_lower fault_string) then new_exn InternalBackendException fault_msg
         else new_exn ClientException fault_msg)"

definition exception_to_failure_reason :: "exn \<Rightarrow> failure_reason" where
  "exception_to_failure_reason e =
     (if isinstance e AuthFailure then FR_AUTH
      else if isinstance e NoConnectionException then FR_NETWORK
      else if isinstance e InternalBackendException then FR_INTERNAL
      else if isinstance e CircuitBreakerOpenException then FR_CIRCUIT_BREAKER
      else if isinstance e PyTimeoutError then FR_TIMEOUT
      else FR_UNKNOWN)"

subsection \<open>Properties\<close>

text \<open>
  Classification of backend errors. A fault string that mentions \<open>unauthorized\<close> in any
  capitalisation ends as an authentication failure, otherwise one that mentions \<open>internal\<close> as an
  internal failure, otherwise as an unclassified one; an operating system error is a network failure
  and nothing else that the transport raises is; the exceptions the mappings produce are always of
  the library's hierarchy, so a handler for the base class catches them.
\<close>

theorem fault_classification:
  "exception_to_failure_reason (map_xmlrpc_fault code fs ctx) =
     (if sublist ''unauthorized'' (py_lower fs) then FR_AUTH
      else if sublist ''internal'' (py_lower fs) then FR_INTERNAL else FR_UNKNOWN) \<and>
   exception_to_failure_reason (map_transport_error e ctx) =
     (if exn_cls e \<in> {PyOSError, PySSLError, PyTimeoutError} then FR_NETWORK else FR_UNKNOWN) \<and>
   exception_to_failure_reason (map_jsonrpc_error c m ctx) \<in> {FR_AUTH, FR_INTERNAL, FR_UNKNOWN} \<and>
   isinstance (map_xmlrpc_fault code fs ctx) BaseHomematicException \<and>
   isinstance (map_transport_error e ctx) BaseHomematicException \<and>
   isinstance (map_jsonrpc_error c m ctx) BaseHomematicException"
proof -
  have "isinstance e PyOSError \<longleftrightarrow> exn_cls e \<in> {PyOSError, PySSLError, PyTimeoutError}"
    by (cases "exn_cls e") (simp_all add: isinstance_def)
  then show ?thesis
    by (auto simp: exception_to_failure_reason_def map_xmlrpc_fault_def map_transport_error_def
        map_jsonrpc_error_def isinstance_def new_exn_def Let_def)
qed

text \<open>
  A sanitised context does not depend on the host, and an unsanitised one is the sanitised one
  followed by the host when there is one, so sanitising removes the host and nothing else.
\<close>

theorem sanitize_removes_host:
  "rpc_fmt_sanitized ctx = rpc_fmt (ctx\<lparr>rc_host := h\<rparr>) True \<and>
   rpc_fmt ctx False =
     rpc_fmt_sanitized ctx @ (if truthy (rc_host ctx) then '', host='' @ the (rc_host ctx) else [])"
  by (auto simp: rpc_fmt_sanitized_def rpc_fmt_def)

end
