(* ===== verification/Connection_State.thy ===== *)
theory Connection_State
  imports Events
begin

section \<open>Connection issues of the central (\<open>central/connection_state.py\<close>)\<close>

text \<open>
  \<open>CentralConnectionState\<close> keeps one list of interface ids with a connection issue per transport,
  JSON-RPC and XML-RPC. The locale \<open>issue_registry\<close> states what the circuit breakers rely on:
  membership after adding and removing; from it follows that the answer depends only on the last
  operation on the issue. The interpretation discharges it for the model.
\<close>

subsection \<open>Definitions\<close>

text \<open>\<open>ConnectionProblemIssuer\<close>: which of the two client classes reports the issue.\<close>

datatype issuer = JsonRpcClient | RpcProxy

record conn_state =
  cs_json_issues :: "string list"
  cs_rpc_proxy_issues :: "string list"
  cs_event_bus_provider :: bool \<comment> \<open>whether an event bus provider is attached\<close>

definition conn_state_init :: "bool \<Rightarrow> conn_state" where
  "conn_state_init provider = \<lparr>cs_json_issues = [], cs_rpc_proxy_issues = [], cs_event_bus_provider = provider\<rparr>"

definition is_any_issue :: "conn_state \<Rightarrow> bool" where
  "is_any_issue s \<longleftrightarrow> length (cs_json_issues s) > 0 \<or> length (cs_rpc_proxy_issues s) > 0"

definition issue_count :: "conn_state \<Rightarrow> nat" where
  "issue_count s = length (cs_json_issues s) + length (cs_rpc_proxy_issues s)"

definition json_issue_count :: "conn_state \<Rightarrow> nat" where
  "json_issue_count s = length (cs_json_issues s)"

definition rpc_proxy_issue_count :: "conn_state \<Rightarrow> nat" where
  "rpc_proxy_issue_count s = length (cs_rpc_proxy_issues s)"

definition conn_publish_state_change :: "time \<Rightarrow> conn_state \<Rightarrow> string \<Rightarrow> bool \<Rightarrow> event list" where
  "conn_publish_state_change now s interface_id connected' =
     (if \<not> cs_event_bus_provider s then []
      else [SystemStatusChangedEvent now (empty_status\<lparr>ss_connection_state := Some (interface_id, connected')\<rparr>)])"

definition add_issue :: "time \<Rightarrow> issuer \<Rightarrow> string \<Rightarrow> conn_state \<Rightarrow> bool \<times> conn_state \<times> event list" where
  "add_issue now i iid s =
     (let (added, s') =
        (if i = JsonRpcClient \<and> iid \<notin> set (cs_json_issues s)
         then (True, s\<lparr>cs_json_issues := cs_json_issues s @ [iid]\<rparr>)
         else if i = RpcProxy \<and> iid \<notin> set (cs_rpc_proxy_issues s)
         then (True, s\<lparr>cs_rpc_proxy_issues := cs_rpc_proxy_issues s @ [iid]\<rparr>)
         else (False, s))
      in (added, s', if added then conn_publish_state_change now s' iid False else []))"

definition clear_all_issues :: "time \<Rightarrow> conn_state \<Rightarrow> nat \<times> conn_state \<times> event list" where
  "clear_all_issues now s =
     (let count = issue_count s
      in if count > 0
         then let all_iids = cs_json_issues s @ cs_rpc_proxy_issues s;
                  s' = s\<lparr>cs_json_issues := [], cs_rpc_proxy_issues := []\<rparr>
              in (count, s', concat (map (\<lambda>iid. conn_publish_state_change now s' iid True) all_iids))
         else (0, s, []))"

definition is_issue :: "issuer \<Rightarrow> string \<Rightarrow> conn_state \<Rightarrow> bool" where
  "is_issue i iid s =
     (if i = JsonRpcClient then iid \<in> set (cs_json_issues s) else iid \<in> set (cs_rpc_proxy_issues s))"

definition is_rpc_proxy_issue :: "string \<Rightarrow> conn_state \<Rightarrow> bool" where
  "is_rpc_proxy_issue interface_id s \<longleftrightarrow> interface_id \<in> set (cs_rpc_proxy_issues s)"

definition remove_issue :: "time \<Rightarrow> issuer \<Rightarrow> string \<Rightarrow> conn_state \<Rightarrow> bool \<times> conn_state \<times> event list" where
  "remove_issue now i iid s =
     (let (removed, s') =
        (if i = JsonRpcClient \<and> iid \<in> set (cs_json_issues s)
         then (True, s\<lparr>cs_json_issues := remove1 iid (cs_json_issues s)\<rparr>)
         else if i = RpcProxy \<and> iid \<in> set (cs_rpc_proxy_issues s)
         then (True, s\<lparr>cs_rpc_proxy_issues := remove1 iid (cs_rpc_proxy_issues s)\<rparr>)
         else (False, s))
      in (removed, s', if removed then conn_publish_state_change now s' iid True else []))"

text \<open>
  \<open>handle_exception_log\<close> writes one log record: at debug level when the issue is known and repeated
  logging is switched off, otherwise at the requested level after adding the issue.
\<close>

datatype log_level = LOG_DEBUG | LOG_REQUESTED

definition handle_exception_log ::
  "time \<Rightarrow> issuer \<Rightarrow> string \<Rightarrow> bool \<Rightarrow> conn_state \<Rightarrow> log_level \<times> conn_state \<times> event list" where
  "handle_exception_log now i iid multiple_logs s =
     (if is_issue i iid s \<and> \<not> multiple_logs then (LOG_DEBUG, s, [])
      else let (_, s', es) = add_issue now i iid s in (LOG_REQUESTED, s', es))"

definition conn_state_inv :: "conn_state \<Rightarrow> bool" where
  "conn_state_inv s \<longleftrightarrow> distinct (cs_json_issues s) \<and> distinct (cs_rpc_proxy_issues s)"

subsection \<open>The interface of an issue registry\<close>

datatype 'k issue_op = Add_Issue 'k | Remove_Issue 'k

fun about :: "'k issue_op \<Rightarrow> 'k" where
  "about (Add_Issue k) = k"
| "about (Remove_Issue k) = k"

fun apply_issue_op :: "('k \<Rightarrow> 's \<Rightarrow> 's) \<Rightarrow> ('k \<Rightarrow> 's \<Rightarrow> 's) \<Rightarrow> 's \<Rightarrow> 'k issue_op \<Rightarrow> 's" where
  "apply_issue_op add remove s (Add_Issue k) = add k s"
| "apply_issue_op add remove s (Remove_Issue k) = remove k s"

locale issue_registry =
  fixes inv :: "'s \<Rightarrow> bool"
    and member :: "'k \<Rightarrow> 's \<Rightarrow> bool"
    and add :: "'k \<Rightarrow> 's \<Rightarrow> 's"
    and remove :: "'k \<Rightarrow> 's \<Rightarrow> 's"
  assumes inv_add: "inv s \<Longrightarrow> inv (add k s)"
    and inv_remove: "inv s \<Longrightarrow> inv (remove k s)"
    and member_add: "inv s \<Longrightarrow> member k' (add k s) \<longleftrightarrow> k' = k \<or> member k' s"
    and member_remove: "inv s \<Longrightarrow> member k' (remove k s) \<longleftrightarrow> k' \<noteq> k \<and> member k' s"
begin

abbreviation apply_op :: "'s \<Rightarrow> 'k issue_op \<Rightarrow> 's" where
  "apply_op \<equiv> apply_issue_op add remove"

lemma inv_apply: "inv s \<Longrightarrow> inv (apply_op s x)"
  by (cases x) (simp_all add: inv_add inv_remove)

lemma inv_run: "inv s \<Longrightarrow> inv (foldl apply_op s xs)"
  by (induction xs arbitrary: s) (simp_all add: inv_apply)

text \<open>Only the last operation on the issue matters, whoever else uses the registry.\<close>

lemma member_run:
  assumes "inv s"
  shows "member k (foldl apply_op s xs) \<longleftrightarrow>
    (let ys = filter (\<lambda>x. about x = k) xs in if ys = [] then member k s else last ys = Add_Issue k)"
  using assms
proof (induction xs rule: rev_induct)
  case (snoc x xs)
  have i: "inv (foldl apply_op s xs)"
    using inv_run [OF snoc.prems] .
  show ?case
    using snoc by (cases x) (auto simp: member_add [OF i] member_remove [OF i] Let_def)
qed simp

lemma add_remove_other: "inv s \<Longrightarrow> k \<noteq> k' \<Longrightarrow> member k' (remove k (add k s)) = member k' s"
  by (simp add: member_add member_remove inv_add)

end

subsection \<open>The model is an issue registry\<close>

definition conn_add :: "issuer \<times> string \<Rightarrow> conn_state \<Rightarrow> conn_state" where
  "conn_add k s = fst (snd (add_issue 0 (fst k) (snd k) s))"

definition conn_remove :: "issuer \<times> string \<Rightarrow> conn_state \<Rightarrow> conn_state" where
  "conn_remove k s = fst (snd (remove_issue 0 (fst k) (snd k) s))"

lemma add_issue_conn_add:
  "add_issue now i iid s =
     (\<not> is_issue i iid s, conn_add (i, iid) s,
      if is_issue i iid s then [] else conn_publish_state_change now s iid False)"
  by (cases i) (auto simp: add_issue_def conn_add_def is_issue_def conn_publish_state_change_def)

lemma remove_issue_conn_remove:
  "remove_issue now i iid s =
     (is_issue i iid s, conn_remove (i, iid) s,
      if is_issue i iid s then conn_publish_state_change now s iid True else [])"
  by (cases i) (auto simp: remove_issue_def conn_remove_def is_issue_def conn_publish_state_change_def)

lemma conn_provider [simp]:
  "cs_event_bus_provider (conn_add k s) = cs_event_bus_provider s"
  "cs_event_bus_provider (conn_remove k s) = cs_event_bus_provider s"
  by (cases k, cases "fst k", auto simp: conn_add_def conn_remove_def add_issue_def remove_issue_def)+

interpretation conn: issue_registry conn_state_inv "\<lambda>k. is_issue (fst k) (snd k)" conn_add conn_remove
proof unfold_locales
  fix s and k k' :: "issuer \<times> string"
  assume s: "conn_state_inv s"
  obtain i iid where k: "k = (i, iid)" by force
  obtain i' iid' where k': "k' = (i', iid')" by force
  show "conn_state_inv (conn_add k s)"
    using s k by (cases i) (auto simp: conn_state_inv_def conn_add_def add_issue_def)
  show "conn_state_inv (conn_remove k s)"
    using s k by (cases i) (auto simp: conn_state_inv_def conn_remove_def remove_issue_def)
  show "is_issue (fst k') (snd k') (conn_add k s) \<longleftrightarrow> k' = k \<or> is_issue (fst k') (snd k') s"
    using k k' by (cases i; cases i') (auto simp: conn_add_def add_issue_def is_issue_def)
  show "is_issue (fst k') (snd k') (conn_remove k s) \<longleftrightarrow> k' \<noteq> k \<and> is_issue (fst k') (snd k') s"
    using s k k'
    by (cases i; cases i') (auto simp: conn_remove_def remove_issue_def is_issue_def conn_state_inv_def)
qed

lemma conn_state_init_inv: "conn_state_inv (conn_state_init p)"
  by (simp add: conn_state_inv_def conn_state_init_def)

subsection \<open>Properties\<close>

text \<open>
  Whatever sequence of \<open>add_issue\<close> and \<open>remove_issue\<close> calls the circuit breakers of all
  interfaces make on a fresh connection state, an interface has an issue at a transport exactly when
  the last call for that transport and interface was \<open>add_issue\<close>; \<open>issue_count\<close> is the number of
  such pairs.
\<close>

theorem conn_state_last_call:
  "let s = foldl (apply_issue_op conn_add conn_remove) (conn_state_init p) xs
   in (is_issue i iid s \<longleftrightarrow>
        (let ys = filter (\<lambda>x. about x = (i, iid)) xs in ys \<noteq> [] \<and> last ys = Add_Issue (i, iid))) \<and>
      issue_count s = card {(i, iid). is_issue i iid s}"
proof -
  let ?s = "foldl (apply_issue_op conn_add conn_remove) (conn_state_init p) xs"
  have inv: "conn_state_inv ?s"
    by (rule conn.inv_run [OF conn_state_init_inv])
  have "{(i, iid). is_issue i iid ?s} =
      Pair JsonRpcClient ` set (cs_json_issues ?s) \<union> Pair RpcProxy ` set (cs_rpc_proxy_issues ?s)" (is "?L = ?R")
  proof (rule set_eqI)
    fix x :: "issuer \<times> string"
    show "x \<in> ?L \<longleftrightarrow> x \<in> ?R"
      by (cases x; cases "fst x") (auto simp: is_issue_def)
  qed
  then have "card ?L = length (cs_json_issues ?s) + length (cs_rpc_proxy_issues ?s)"
    using inv by (simp add: card_Un_disjoint card_image inj_on_def distinct_card conn_state_inv_def disjoint_iff image_iff)
  moreover have "is_issue i iid ?s \<longleftrightarrow>
      (let ys = filter (\<lambda>x. about x = (i, iid)) xs in ys \<noteq> [] \<and> last ys = Add_Issue (i, iid))"
    using conn.member_run [OF conn_state_init_inv, of "(i, iid)" p xs]
    by (simp add: Let_def is_issue_def conn_state_init_def)
  ultimately show ?thesis by (simp add: Let_def issue_count_def)
qed

text \<open>
  The events of the connection state tell the truth: an operation publishes a status event for
  an interface exactly when its answer to \<open>is_issue\<close> changes, with \<open>connected\<close> the new answer
  negated. Adding a known issue and removing an unknown one change and publish nothing;
  \<open>clear_all_issues\<close> returns the number of issues, leaves none and reports each as connected.
\<close>

theorem conn_state_events:
  assumes "cs_event_bus_provider s"
  shows "add_issue now i iid s =
           (if is_issue i iid s then (False, s, [])
            else (True, fst (snd (add_issue now i iid s)),
                  [SystemStatusChangedEvent now (empty_status\<lparr>ss_connection_state := Some (iid, False)\<rparr>)])) \<and>
         remove_issue now i iid s =
           (if is_issue i iid s
            then (True, fst (snd (remove_issue now i iid s)),
                  [SystemStatusChangedEvent now (empty_status\<lparr>ss_connection_state := Some (iid, True)\<rparr>)])
            else (False, s, [])) \<and>
         fst (clear_all_issues now s) = issue_count s \<and>
         \<not> is_issue i iid (fst (snd (clear_all_issues now s))) \<and>
         snd (snd (clear_all_issues now s)) =
           map (\<lambda>x. SystemStatusChangedEvent now (empty_status\<lparr>ss_connection_state := Some (x, True)\<rparr>))
             (cs_json_issues s @ cs_rpc_proxy_issues s)"
proof -
  have c: "concat (map (\<lambda>x. [f x]) xs) = map f xs" for f :: "string \<Rightarrow> event" and xs
    by (induction xs) auto
  have a: "is_issue i iid s \<Longrightarrow> conn_add (i, iid) s = s"
    by (cases i) (auto simp: conn_add_def add_issue_def is_issue_def)
  have r: "\<not> is_issue i iid s \<Longrightarrow> conn_remove (i, iid) s = s"
    by (cases i) (auto simp: conn_remove_def remove_issue_def is_issue_def)
  show ?thesis
    using assms a r
    by (auto simp: add_issue_conn_add remove_issue_conn_remove clear_all_issues_def issue_count_def
        conn_publish_state_change_def is_issue_def c Let_def)
qed

theorem conn_state_events_witness:
  "snd (snd (clear_all_issues 7 (fst (snd (add_issue 3 RpcProxy ''a'' (conn_state_init True)))))) =
     [SystemStatusChangedEvent 7 (empty_status\<lparr>ss_connection_state := Some (''a'', True)\<rparr>)]"
proof -
  let ?s = "fst (snd (add_issue 3 RpcProxy ''a'' (conn_state_init True)))"
  have "cs_event_bus_provider ?s" and "cs_json_issues ?s @ cs_rpc_proxy_issues ?s = [''a'']"
    by (simp_all add: add_issue_def conn_state_init_def)
  with conn_state_events [of ?s 7 RpcProxy "''a''"] show ?thesis by simp
qed

end
