(* ===== verification/Ping_Pong.thy ===== *)
theory Ping_Pong
  imports Connection_State Eviction
begin

section \<open>Ping/pong tracking (\<open>store/dynamic/ping_pong.py\<close>, \<open>store/types.py\<close>)\<close>

text \<open>
  \<open>PingPongTracker\<close> keeps the tokens of pings without pong (pending) and of pongs without ping
  (unknown), each in a \<open>PongTracker\<close> with a time to live and a maximal size, and a diagnostic journal.
  The set of tokens is a list without duplicates in insertion order; the order in which Python visits
  a set only decides the order of equal journal entries. The connection state, which is shared, is
  an argument. The several readings of the clock in one operation are one \<open>now\<close>.
\<close>

subsection \<open>Trackers and journal\<close>

record pong_tracker =
  pt_tokens :: "string list"
  pt_seen_at :: "(string, time) dict"
  pt_logged :: bool

definition empty_tracker :: pong_tracker where
  "empty_tracker = \<lparr>pt_tokens = [], pt_seen_at = [], pt_logged = False\<rparr>"

definition pt_len :: "pong_tracker \<Rightarrow> nat" where
  "pt_len p = length (pt_tokens p)"

definition pt_add :: "string \<Rightarrow> time \<Rightarrow> pong_tracker \<Rightarrow> pong_tracker" where
  "pt_add token timestamp p =
     p\<lparr>pt_tokens := (if token \<in> set (pt_tokens p) then pt_tokens p else pt_tokens p @ [token]),
       pt_seen_at := dict_set token timestamp (pt_seen_at p)\<rparr>"

definition pt_clear :: "pong_tracker \<Rightarrow> pong_tracker" where
  "pt_clear p = p\<lparr>pt_tokens := [], pt_seen_at := [], pt_logged := False\<rparr>"

definition pt_contains :: "string \<Rightarrow> pong_tracker \<Rightarrow> bool" where
  "pt_contains token p \<longleftrightarrow> token \<in> set (pt_tokens p)"

definition pt_remove :: "string \<Rightarrow> pong_tracker \<Rightarrow> pong_tracker" where
  "pt_remove token p = p\<lparr>pt_tokens := removeAll token (pt_tokens p), pt_seen_at := dict_del token (pt_seen_at p)\<rparr>"

datatype pp_event_type = PING_SENT | PONG_RECEIVED | PONG_UNKNOWN | PONG_EXPIRED

record journal_event =
  je_timestamp :: time
  je_event_type :: pp_event_type
  je_token :: string
  je_rtt_ms :: "real option"

record journal =
  jn_max_entries :: nat
  jn_max_age_seconds :: time
  jn_events :: "journal_event list"
  jn_rtt_samples :: "real list"

definition new_journal :: journal where
  "new_journal = \<lparr>jn_max_entries = 100, jn_max_age_seconds = 1800, jn_events = [], jn_rtt_samples = []\<rparr>"

text \<open>\<open>_add_event\<close>: eviction by age from the front, then by size, then the new event.\<close>

definition jn_add_event :: "time \<Rightarrow> pp_event_type \<Rightarrow> string \<Rightarrow> real option \<Rightarrow> journal \<Rightarrow> journal" where
  "jn_add_event now event_type token rtt_ms j =
     (let young = dropWhile (\<lambda>e. now - je_timestamp e > jn_max_age_seconds j) (jn_events j);
          room = drop (length young + 1 - jn_max_entries j) young;
          display_token = (if length token > 20 then take_last 20 token else token)
      in j\<lparr>jn_events := room @ [\<lparr>je_timestamp = now, je_event_type = event_type, je_token = display_token, je_rtt_ms = rtt_ms\<rparr>]\<rparr>)"

definition record_ping_sent :: "time \<Rightarrow> string \<Rightarrow> journal \<Rightarrow> journal" where
  "record_ping_sent now token j = jn_add_event now PING_SENT token None j"

definition record_pong_expired :: "time \<Rightarrow> string \<Rightarrow> journal \<Rightarrow> journal" where
  "record_pong_expired now token j = jn_add_event now PONG_EXPIRED token None j"

definition record_pong_received :: "time \<Rightarrow> string \<Rightarrow> real \<Rightarrow> journal \<Rightarrow> journal" where
  "record_pong_received now token rtt_ms j =
     (let j1 = jn_add_event now PONG_RECEIVED token (Some rtt_ms) j; samples = jn_rtt_samples j1 @ [rtt_ms]
      in j1\<lparr>jn_rtt_samples := if length samples > 50 then tl samples else samples\<rparr>)"

definition record_pong_unknown :: "time \<Rightarrow> string \<Rightarrow> journal \<Rightarrow> journal" where
  "record_pong_unknown now token j = jn_add_event now PONG_UNKNOWN token None j"

definition jn_clear :: "journal \<Rightarrow> journal" where
  "jn_clear j = j\<lparr>jn_events := [], jn_rtt_samples := []\<rparr>"

definition count_events_by_type :: "time \<Rightarrow> pp_event_type \<Rightarrow> int \<Rightarrow> journal \<Rightarrow> nat" where
  "count_events_by_type now event_type minutes j =
     length (filter (\<lambda>e. je_event_type e = event_type \<and> je_timestamp e \<ge> now - of_int (minutes * 60)) (jn_events j))"

definition get_success_rate :: "time \<Rightarrow> int \<Rightarrow> journal \<Rightarrow> real" where
  "get_success_rate now minutes j =
     (let pings = count_events_by_type now PING_SENT minutes j; pongs = count_events_by_type now PONG_RECEIVED minutes j
      in if pings = 0 then 1 else real pongs / real pings)"

subsection \<open>The ping/pong tracker\<close>

record ping_pong =
  pp_interface_id :: string
  pp_allowed_delta :: nat
  pp_ttl :: time
  pp_looper :: bool \<comment> \<open>the central has a task looper\<close>
  pp_incident_recorder :: bool
  pp_pending :: pong_tracker
  pp_unknown :: pong_tracker
  pp_retry_at :: "string list"
  pp_journal :: journal

datatype pp_output =
    PP_Publish event
  | PP_Incident_Pending_High nat nat
  | PP_Incident_Unknown_High nat nat
  | PP_Schedule_Retry string real

definition ping_pong_init :: "string \<Rightarrow> nat \<Rightarrow> time \<Rightarrow> bool \<Rightarrow> bool \<Rightarrow> ping_pong" where
  "ping_pong_init interface_id allowed_delta ttl looper incident_recorder =
     \<lparr>pp_interface_id = interface_id, pp_allowed_delta = allowed_delta, pp_ttl = ttl, pp_looper = looper,
      pp_incident_recorder = incident_recorder, pp_pending = empty_tracker, pp_unknown = empty_tracker,
      pp_retry_at = [], pp_journal = new_journal\<rparr>"

definition has_connection_issue :: "conn_state option \<Rightarrow> ping_pong \<Rightarrow> bool" where
  "has_connection_issue cs s = (case cs of None \<Rightarrow> False | Some c \<Rightarrow> is_rpc_proxy_issue (pp_interface_id s) c)"

definition pp_size :: "ping_pong \<Rightarrow> nat" where
  "pp_size s = pt_len (pp_pending s) + pt_len (pp_unknown s)"

definition pp_clear :: "ping_pong \<Rightarrow> ping_pong" where
  "pp_clear s = s\<lparr>pp_pending := pt_clear (pp_pending s), pp_unknown := pt_clear (pp_unknown s),
     pp_journal := jn_clear (pp_journal s)\<rparr>"

text \<open>\<open>_cleanup_tracker\<close> for one tracker: the tokens that expired are reported to the journal by the caller.\<close>

definition expired_tokens :: "time \<Rightarrow> time \<Rightarrow> pong_tracker \<Rightarrow> string list" where
  "expired_tokens now ttl p =
     filter (\<lambda>token. case dict_get (pt_seen_at p) token of Some t \<Rightarrow> now - t > ttl | None \<Rightarrow> False) (pt_tokens p)"

definition remove_tokens :: "string list \<Rightarrow> pong_tracker \<Rightarrow> pong_tracker" where
  "remove_tokens ts p = foldl (\<lambda>p t. pt_remove t p) p ts"

definition evict_tracker :: "pong_tracker \<Rightarrow> pong_tracker" where
  "evict_tracker p =
     (if pt_len p > PING_PONG_CACHE_MAX_SIZE
      then remove_tokens (oldest (\<lambda>t. t) (pt_len p - PING_PONG_CACHE_MAX_SIZE) (pt_seen_at p)) p else p)"

definition cleanup_tracker :: "time \<Rightarrow> time \<Rightarrow> pong_tracker \<Rightarrow> pong_tracker" where
  "cleanup_tracker now ttl p = evict_tracker (remove_tokens (expired_tokens now ttl p) p)"

definition cleanup_pending :: "time \<Rightarrow> ping_pong \<Rightarrow> ping_pong" where
  "cleanup_pending now s =
     s\<lparr>pp_pending := cleanup_tracker now (pp_ttl s) (pp_pending s),
       pp_journal := foldl (\<lambda>j t. record_pong_expired now t j) (pp_journal s) (expired_tokens now (pp_ttl s) (pp_pending s))\<rparr>"

definition cleanup_unknown :: "time \<Rightarrow> ping_pong \<Rightarrow> ping_pong" where
  "cleanup_unknown now s = s\<lparr>pp_unknown := cleanup_tracker now (pp_ttl s) (pp_unknown s)\<rparr>"

text \<open>\<open>_publish_event\<close>: the mismatch as an integration issue, an error beyond the allowed delta.\<close>

definition pp_publish :: "time \<Rightarrow> ping_pong \<Rightarrow> pingpong_mismatch_type \<Rightarrow> nat \<Rightarrow> pp_output" where
  "pp_publish now s mt cnt =
     PP_Publish (SystemStatusChangedEvent now (empty_status\<lparr>ss_issues :=
       [\<lparr>ii_issue_type = PING_PONG_MISMATCH,
         ii_severity = (if cnt \<le> pp_allowed_delta s then SEV_WARNING else SEV_ERROR),
         ii_interface_id = pp_interface_id s, ii_mismatch_type = Some mt, ii_mismatch_count = Some (int cnt),
         ii_device_addresses = None, ii_missing_parameters = None\<rparr>]\<rparr>))"

definition check_pending :: "time \<Rightarrow> ping_pong \<Rightarrow> ping_pong \<times> pp_output list" where
  "check_pending now s0 =
     (let s = cleanup_pending now s0; count = pt_len (pp_pending s); logged = pt_logged (pp_pending s)
      in if count > pp_allowed_delta s
         then (s\<lparr>pp_pending := (pp_pending s)\<lparr>pt_logged := True\<rparr>\<rparr>,
               pp_publish now s PENDING count #
                 (if \<not> logged \<and> pp_incident_recorder s \<and> pp_looper s then [PP_Incident_Pending_High count (pp_allowed_delta s)] else []))
         else if logged
         then (s\<lparr>pp_pending := (pp_pending s)\<lparr>pt_logged := False\<rparr>\<rparr>, [pp_publish now s PENDING 0])
         else if count > 0 \<and> even count then (s, [pp_publish now s PENDING count])
         else (s, []))"

definition check_unknown :: "time \<Rightarrow> ping_pong \<Rightarrow> ping_pong \<times> pp_output list" where
  "check_unknown now s0 =
     (let s = cleanup_unknown now s0; count = pt_len (pp_unknown s); logged = pt_logged (pp_unknown s)
      in if count > pp_allowed_delta s
         then (s\<lparr>pp_unknown := (pp_unknown s)\<lparr>pt_logged := True\<rparr>\<rparr>,
               pp_publish now s UNKNOWN count #
                 (if \<not> logged \<and> pp_incident_recorder s \<and> pp_looper s then [PP_Incident_Unknown_High count (pp_allowed_delta s)] else []))
         else if logged
         then (s\<lparr>pp_unknown := (pp_unknown s)\<lparr>pt_logged := False\<rparr>\<rparr>, [pp_publish now s UNKNOWN 0])
         else (s, []))"

text \<open>\<open>_schedule_unknown_pong_retry\<close>: at most one retry per token, and none without a looper.\<close>

definition schedule_unknown_pong_retry :: "string \<Rightarrow> real \<Rightarrow> ping_pong \<Rightarrow> ping_pong \<times> pp_output list" where
  "schedule_unknown_pong_retry token delay s =
     (if token \<in> set (pp_retry_at s) then (s, [])
      else if \<not> pp_looper s then (s, [])
      else (s\<lparr>pp_retry_at := pp_retry_at s @ [token]\<rparr>, [PP_Schedule_Retry token delay]))"

definition handle_received_pong :: "time \<Rightarrow> string \<Rightarrow> ping_pong \<Rightarrow> ping_pong \<times> pp_output list" where
  "handle_received_pong now pong_token s =
     (if pt_contains pong_token (pp_pending s)
      then
        let rtt_ms = (case dict_get (pt_seen_at (pp_pending s)) pong_token of
                        Some send_time \<Rightarrow> Some ((now - send_time) * 1000) | None \<Rightarrow> None);
            out0 = (case rtt_ms of
                      Some r \<Rightarrow> [PP_Publish (emit_latency now (metric_key ''ping_pong'' ''rtt'' (pp_interface_id s)) r)]
                    | None \<Rightarrow> []);
            s1 = s\<lparr>pp_journal := record_pong_received now pong_token (case rtt_ms of Some r \<Rightarrow> r | None \<Rightarrow> 0) (pp_journal s),
                   pp_pending := pt_remove pong_token (pp_pending s)\<rparr>;
            (s2, out) = check_pending now (cleanup_pending now s1)
        in (s2, out0 @ out)
      else
        let s1 = s\<lparr>pp_journal := record_pong_unknown now pong_token (pp_journal s),
                   pp_unknown := pt_add pong_token now (pp_unknown s)\<rparr>;
            (s2, out) = check_unknown now (cleanup_unknown now s1);
            (s3, out') = schedule_unknown_pong_retry pong_token 15 s2
        in (s3, out @ out'))"

definition handle_send_ping :: "time \<Rightarrow> conn_state option \<Rightarrow> string \<Rightarrow> ping_pong \<Rightarrow> ping_pong \<times> pp_output list" where
  "handle_send_ping now cs ping_token s =
     (if has_connection_issue cs s then (s, [])
      else
        let s1 = cleanup_pending now
              (s\<lparr>pp_journal := record_ping_sent now ping_token (pp_journal s),
                 pp_pending := pt_add ping_token now (pp_pending s)\<rparr>);
            count = pt_len (pp_pending s1)
        in if count > pp_allowed_delta s1 \<or> even count then check_pending now s1 else (s1, []))"

definition retry_reconcile_pong :: "time \<Rightarrow> string \<Rightarrow> ping_pong \<Rightarrow> ping_pong \<times> pp_output list" where
  "retry_reconcile_pong now token s0 =
     (let s = cleanup_unknown now (cleanup_pending now s0);
          (s', out) =
            (if pt_contains token (pp_pending s)
             then
               let s1 = s\<lparr>pp_pending := pt_remove token (pp_pending s)\<rparr>;
                   unknown_before = pt_len (pp_unknown s1);
                   s2 = (if pt_contains token (pp_unknown s1) then s1\<lparr>pp_unknown := pt_remove token (pp_unknown s1)\<rparr> else s1);
                   (s3, out3) = check_pending now s2;
                   (s4, out4) = (if pt_len (pp_unknown s3) \<noteq> unknown_before then check_unknown now s3 else (s3, []))
               in (s4, out3 @ out4)
             else (s, []))
      in (s'\<lparr>pp_retry_at := removeAll token (pp_retry_at s')\<rparr>, out))"

datatype pp_call =
    Send_Ping time "conn_state option" string
  | Received_Pong time string
  | Retry_Reconcile time string
  | Clear_Cache

fun pp_step :: "ping_pong \<Rightarrow> pp_call \<Rightarrow> ping_pong \<times> pp_output list" where
  "pp_step s (Send_Ping now cs t) = handle_send_ping now cs t s"
| "pp_step s (Received_Pong now t) = handle_received_pong now t s"
| "pp_step s (Retry_Reconcile now t) = retry_reconcile_pong now t s"
| "pp_step s Clear_Cache = (pp_clear s, [])"

subsection \<open>Invariant\<close>

text \<open>A tracker's set of tokens and its dictionary of times agree; after a cleanup it fits the limit.\<close>

definition pt_wf :: "pong_tracker \<Rightarrow> bool" where
  "pt_wf p \<longleftrightarrow> distinct (pt_tokens p) \<and> dict_wf (pt_seen_at p) \<and> set (pt_tokens p) = fst ` set (pt_seen_at p)"

lemma pt_wf_len: "pt_wf p \<Longrightarrow> pt_len p = length (pt_seen_at p)"
  unfolding pt_wf_def pt_len_def dict_wf_def
  by (metis distinct_card length_map set_map)

lemma fst_set_keys: "fst ` set d = set (dict_keys d)"
  by (simp add: dict_keys_def)

lemma pt_add_wf [inv_intros]: "pt_wf p \<Longrightarrow> pt_wf (pt_add t x p)"
  by (auto simp: pt_wf_def pt_add_def fst_set_keys)

lemma pt_remove_wf [inv_intros]: "pt_wf p \<Longrightarrow> pt_wf (pt_remove t p)"
  by (auto simp: pt_wf_def pt_remove_def fst_set_keys distinct_removeAll)

lemma pt_logged_wf [simp]: "pt_wf (p\<lparr>pt_logged := b\<rparr>) = pt_wf p" "pt_len (p\<lparr>pt_logged := b\<rparr>) = pt_len p"
  by (simp_all add: pt_wf_def pt_len_def)

lemma pt_add_len: "pt_len (pt_add t x p) \<le> Suc (pt_len p)"
  by (simp add: pt_len_def pt_add_def)

lemma pt_remove_len: "pt_len (pt_remove t p) \<le> pt_len p"
  by (simp add: pt_len_def pt_remove_def)

lemma pt_remove_contains [simp]: "pt_contains u (pt_remove t p) \<longleftrightarrow> u \<noteq> t \<and> pt_contains u p"
  by (auto simp: pt_contains_def pt_remove_def)

lemma remove_tokens_props:
  "pt_wf p \<Longrightarrow> pt_wf (remove_tokens ts p) \<and> pt_len (remove_tokens ts p) \<le> pt_len p \<and>
     pt_logged (remove_tokens ts p) = pt_logged p \<and> pt_seen_at (remove_tokens ts p) = remove_keys ts (pt_seen_at p) \<and>
     set (pt_tokens (remove_tokens ts p)) = set (pt_tokens p) - set ts"
proof (induction ts arbitrary: p)
  case (Cons t ts)
  have l: "pt_logged (pt_remove t p) = pt_logged p" "pt_seen_at (pt_remove t p) = dict_del t (pt_seen_at p)"
    "set (pt_tokens (pt_remove t p)) = set (pt_tokens p) - {t}"
    by (auto simp: pt_remove_def)
  from Cons.IH [OF pt_remove_wf [OF Cons.prems, of t]] pt_remove_len [of t p] l show ?case
    by (auto simp: remove_tokens_def remove_keys_def)
qed (simp add: remove_tokens_def remove_keys_def)

lemma evict_tracker_props:
  assumes "pt_wf p"
  shows "pt_wf (evict_tracker p)" and "pt_len (evict_tracker p) \<le> 100" and "pt_len (evict_tracker p) \<le> pt_len p"
    and "pt_logged (evict_tracker p) = pt_logged p" and "set (pt_tokens (evict_tracker p)) \<subseteq> set (pt_tokens p)"
proof -
  let ?o = "oldest (\<lambda>t. t) (pt_len p - 100) (pt_seen_at p)"
  note R = remove_tokens_props [OF assms, of ?o]
  have d: "dict_wf (pt_seen_at p)" using assms by (simp add: pt_wf_def)
  have "pt_len (remove_tokens ?o p) = pt_len p - (pt_len p - 100)"
    using pt_wf_len R length_remove_oldest [OF d, of "\<lambda>t. t" "pt_len p - 100"] pt_wf_len [OF assms] by simp
  then show "pt_wf (evict_tracker p)" "pt_len (evict_tracker p) \<le> 100" "pt_len (evict_tracker p) \<le> pt_len p"
    "pt_logged (evict_tracker p) = pt_logged p" "set (pt_tokens (evict_tracker p)) \<subseteq> set (pt_tokens p)"
    using R assms by (auto simp: evict_tracker_def PING_PONG_CACHE_MAX_SIZE_def)
qed

lemma cleanup_tracker_props:
  assumes "pt_wf p"
  shows "pt_wf (cleanup_tracker now ttl p)" and "pt_len (cleanup_tracker now ttl p) \<le> 100"
    and "pt_len (cleanup_tracker now ttl p) \<le> pt_len p" and "pt_logged (cleanup_tracker now ttl p) = pt_logged p"
    and "set (pt_tokens (cleanup_tracker now ttl p)) \<subseteq> set (pt_tokens p) - set (expired_tokens now ttl p)"
proof -
  let ?p = "remove_tokens (expired_tokens now ttl p) p"
  note R = remove_tokens_props [OF assms, of "expired_tokens now ttl p"]
  have w: "pt_wf ?p" using R by blast
  note E = evict_tracker_props [OF w]
  show "pt_wf (cleanup_tracker now ttl p)" "pt_len (cleanup_tracker now ttl p) \<le> 100"
    "pt_logged (cleanup_tracker now ttl p) = pt_logged p"
    unfolding cleanup_tracker_def using E R by simp_all
  show "pt_len (cleanup_tracker now ttl p) \<le> pt_len p"
    unfolding cleanup_tracker_def using E(3) R by linarith
  show "set (pt_tokens (cleanup_tracker now ttl p)) \<subseteq> set (pt_tokens p) - set (expired_tokens now ttl p)"
    unfolding cleanup_tracker_def using E(5) R by blast
qed

definition jn_ok :: "journal \<Rightarrow> bool" where
  "jn_ok j \<longleftrightarrow> jn_max_entries j = 100 \<and> length (jn_events j) \<le> 100 \<and> length (jn_rtt_samples j) \<le> 50"

lemma jn_add_ok: "jn_ok j \<Longrightarrow> jn_ok (jn_add_event now e t r j)"
  by (simp add: jn_ok_def jn_add_event_def Let_def)

lemma jn_ops_ok [inv_intros]:
  assumes "jn_ok j"
  shows "jn_ok (record_ping_sent now t j)" "jn_ok (record_pong_expired now t j)" "jn_ok (record_pong_unknown now t j)"
    "jn_ok (record_pong_received now t r j)" "jn_ok (jn_clear j)"
  using jn_add_ok [OF assms] assms
  by (simp_all add: record_ping_sent_def record_pong_expired_def record_pong_unknown_def record_pong_received_def
      jn_clear_def Let_def jn_ok_def)

lemma jn_expired_ok: "jn_ok j \<Longrightarrow> jn_ok (foldl (\<lambda>j t. record_pong_expired now t j) j ts)"
  by (induction ts arbitrary: j) (simp_all add: jn_ops_ok)

text \<open>
  The invariant of the tracker. The last part says that no high count goes unnoticed: beyond the
  allowed delta the tracker is marked as logged.
\<close>

definition pp_inv :: "ping_pong \<Rightarrow> bool" where
  "pp_inv s \<longleftrightarrow>
     pt_wf (pp_pending s) \<and> pt_wf (pp_unknown s) \<and> pt_len (pp_pending s) \<le> 100 \<and> pt_len (pp_unknown s) \<le> 100 \<and>
     jn_ok (pp_journal s) \<and>
     (pt_len (pp_pending s) > pp_allowed_delta s \<longrightarrow> pt_logged (pp_pending s)) \<and>
     (pt_len (pp_unknown s) > pp_allowed_delta s \<longrightarrow> pt_logged (pp_unknown s))"

text \<open>The invariant of one side while the other is being worked on.\<close>

definition side_ok :: "nat \<Rightarrow> pong_tracker \<Rightarrow> bool" where
  "side_ok delta p \<longleftrightarrow> pt_wf p \<and> pt_len p \<le> 100 \<and> (pt_len p > delta \<longrightarrow> pt_logged p)"

lemma pp_inv_sides:
  "pp_inv s \<longleftrightarrow> side_ok (pp_allowed_delta s) (pp_pending s) \<and> side_ok (pp_allowed_delta s) (pp_unknown s) \<and> jn_ok (pp_journal s)"
  by (auto simp: pp_inv_def side_ok_def)

lemma side_remove: "side_ok d p \<Longrightarrow> side_ok d (pt_remove t p)"
  using pt_remove_len [of t p] pt_remove_wf [of p t]
  by (auto simp: side_ok_def) (simp add: pt_remove_def)

lemma side_cleanup: "side_ok d p \<Longrightarrow> side_ok d (cleanup_tracker now ttl p)"
  using cleanup_tracker_props [of p now ttl] by (auto simp: side_ok_def)

lemma cleanup_simps [simp]:
  "pp_allowed_delta (cleanup_pending now s) = pp_allowed_delta s" "pp_unknown (cleanup_pending now s) = pp_unknown s"
  "pp_ttl (cleanup_pending now s) = pp_ttl s" "pp_interface_id (cleanup_pending now s) = pp_interface_id s"
  "pp_allowed_delta (cleanup_unknown now s) = pp_allowed_delta s" "pp_pending (cleanup_unknown now s) = pp_pending s"
  "pp_journal (cleanup_unknown now s) = pp_journal s" "pp_retry_at (cleanup_pending now s) = pp_retry_at s"
  "pp_retry_at (cleanup_unknown now s) = pp_retry_at s"
  "pp_pending (cleanup_pending now s) = cleanup_tracker now (pp_ttl s) (pp_pending s)"
  "pp_unknown (cleanup_unknown now s) = cleanup_tracker now (pp_ttl s) (pp_unknown s)"
  by (simp_all add: cleanup_pending_def cleanup_unknown_def)

lemma cleanup_journal: "jn_ok (pp_journal s) \<Longrightarrow> jn_ok (pp_journal (cleanup_pending now s))"
  by (simp add: cleanup_pending_def jn_expired_ok)

text \<open>The checks restore the invariant of their side from well-formedness alone.\<close>

lemma check_pending_ok:
  assumes "pt_wf (pp_pending s)" and "jn_ok (pp_journal s)"
  shows "side_ok (pp_allowed_delta s) (pp_pending (fst (check_pending now s)))"
    and "jn_ok (pp_journal (fst (check_pending now s)))"
    and "pp_unknown (fst (check_pending now s)) = pp_unknown s"
    and "pp_allowed_delta (fst (check_pending now s)) = pp_allowed_delta s"
    and "pp_ttl (fst (check_pending now s)) = pp_ttl s"
    and "set (pt_tokens (pp_pending (fst (check_pending now s)))) \<subseteq> set (pt_tokens (pp_pending s))"
  using cleanup_tracker_props [OF assms(1), of now "pp_ttl s"] cleanup_journal [OF assms(2)]
  by (auto simp: check_pending_def side_ok_def Let_def)

lemma check_unknown_ok:
  assumes "pt_wf (pp_unknown s)"
  shows "side_ok (pp_allowed_delta s) (pp_unknown (fst (check_unknown now s)))"
    and "pp_journal (fst (check_unknown now s)) = pp_journal s"
    and "pp_pending (fst (check_unknown now s)) = pp_pending s"
    and "pp_allowed_delta (fst (check_unknown now s)) = pp_allowed_delta s"
  using cleanup_tracker_props [OF assms(1), of now "pp_ttl s"]
  by (auto simp: check_unknown_def side_ok_def Let_def)

lemma side_okD: "side_ok d p \<Longrightarrow> pt_wf p"
  by (simp add: side_ok_def)

lemma schedule_simps [simp]:
  "pp_pending (fst (schedule_unknown_pong_retry t d s)) = pp_pending s"
  "pp_unknown (fst (schedule_unknown_pong_retry t d s)) = pp_unknown s"
  "pp_journal (fst (schedule_unknown_pong_retry t d s)) = pp_journal s"
  "pp_allowed_delta (fst (schedule_unknown_pong_retry t d s)) = pp_allowed_delta s"
  by (simp_all add: schedule_unknown_pong_retry_def)

lemma received_pong_inv:
  assumes inv: "pp_inv s"
  shows "pp_inv (fst (handle_received_pong now t s)) \<and> pp_allowed_delta (fst (handle_received_pong now t s)) = pp_allowed_delta s"
proof -
  have I: "side_ok (pp_allowed_delta s) (pp_pending s)" "side_ok (pp_allowed_delta s) (pp_unknown s)" "jn_ok (pp_journal s)"
    using inv by (simp_all add: pp_inv_sides)
  show ?thesis
  proof (cases "pt_contains t (pp_pending s)")
    case True
    define s1 where "s1 = s\<lparr>pp_journal := record_pong_received now t
        (case dict_get (pt_seen_at (pp_pending s)) t of Some x \<Rightarrow> (now - x) * 1000 | None \<Rightarrow> 0) (pp_journal s),
      pp_pending := pt_remove t (pp_pending s)\<rparr>"
    let ?c = "cleanup_pending now s1"
    have "pt_wf (pp_pending ?c)" "jn_ok (pp_journal ?c)"
      using side_okD [OF side_cleanup [OF side_remove [OF I(1)]]] I(3)
      by (simp_all add: s1_def cleanup_journal jn_ops_ok)
    note C = check_pending_ok [OF this, of now]
    have "fst (handle_received_pong now t s) = fst (check_pending now ?c)"
      using True by (simp add: handle_received_pong_def s1_def Let_def split_beta split: option.split)
    then show ?thesis using C I by (simp add: pp_inv_sides s1_def)
  next
    case False
    define s1 where "s1 = s\<lparr>pp_journal := record_pong_unknown now t (pp_journal s), pp_unknown := pt_add t now (pp_unknown s)\<rparr>"
    let ?c = "cleanup_unknown now s1"
    have "pt_wf (pp_unknown ?c)"
      using cleanup_tracker_props(1) [OF pt_add_wf [OF side_okD [OF I(2)]]] by (simp add: s1_def)
    note C = check_unknown_ok [OF this, of now]
    have "fst (handle_received_pong now t s) = fst (schedule_unknown_pong_retry t 15 (fst (check_unknown now ?c)))"
      using False by (simp add: handle_received_pong_def s1_def Let_def split_beta)
    then show ?thesis using C I by (simp add: pp_inv_sides s1_def jn_ops_ok)
  qed
qed

lemma send_ping_inv:
  assumes inv: "pp_inv s"
  shows "pp_inv (fst (handle_send_ping now cs t s)) \<and> pp_allowed_delta (fst (handle_send_ping now cs t s)) = pp_allowed_delta s"
proof (cases "has_connection_issue cs s")
  case False
  have I: "side_ok (pp_allowed_delta s) (pp_pending s)" "side_ok (pp_allowed_delta s) (pp_unknown s)" "jn_ok (pp_journal s)"
    using inv by (simp_all add: pp_inv_sides)
  define s1 where "s1 = cleanup_pending now (s\<lparr>pp_journal := record_ping_sent now t (pp_journal s), pp_pending := pt_add t now (pp_pending s)\<rparr>)"
  have P: "pt_wf (pp_pending s1)" "pt_len (pp_pending s1) \<le> 100"
    using cleanup_tracker_props [OF pt_add_wf [OF side_okD [OF I(1)]]] by (simp_all add: s1_def)
  have J: "jn_ok (pp_journal s1)"
    using I(3) by (simp add: s1_def cleanup_journal jn_ops_ok)
  have U: "pp_unknown s1 = pp_unknown s" "pp_allowed_delta s1 = pp_allowed_delta s" by (simp_all add: s1_def)
  note C = check_pending_ok [OF P(1) J, of now]
  have "handle_send_ping now cs t s =
      (if pt_len (pp_pending s1) > pp_allowed_delta s1 \<or> even (pt_len (pp_pending s1)) then check_pending now s1 else (s1, []))"
    using False by (simp add: handle_send_ping_def s1_def Let_def)
  then show ?thesis using C P J U I by (auto simp: pp_inv_sides side_ok_def)
qed (use inv in \<open>simp add: handle_send_ping_def\<close>)

lemma retry_inv:
  assumes inv: "pp_inv s"
  shows "pp_inv (fst (retry_reconcile_pong now t s)) \<and> pp_allowed_delta (fst (retry_reconcile_pong now t s)) = pp_allowed_delta s"
proof -
  define c where "c = cleanup_unknown now (cleanup_pending now s)"
  have I: "side_ok (pp_allowed_delta s) (pp_pending c)" "side_ok (pp_allowed_delta s) (pp_unknown c)" "jn_ok (pp_journal c)"
    "pp_allowed_delta c = pp_allowed_delta s"
    using inv by (simp_all add: pp_inv_sides c_def side_cleanup cleanup_journal)
  define s2 where "s2 = (let s1 = c\<lparr>pp_pending := pt_remove t (pp_pending c)\<rparr>
      in if pt_contains t (pp_unknown s1) then s1\<lparr>pp_unknown := pt_remove t (pp_unknown s1)\<rparr> else s1)"
  have S: "side_ok (pp_allowed_delta s) (pp_pending s2)" "side_ok (pp_allowed_delta s) (pp_unknown s2)" "jn_ok (pp_journal s2)"
    "pp_allowed_delta s2 = pp_allowed_delta s"
    using I by (simp_all add: s2_def side_remove Let_def)
  note C = check_pending_ok [OF side_okD [OF S(1)] S(3), of now]
  let ?s3 = "fst (check_pending now s2)"
  have w: "pt_wf (pp_unknown ?s3)" using C(3) side_okD [OF S(2)] by simp
  note U = check_unknown_ok [OF w, of now]
  let ?s4 = "if pt_len (pp_unknown ?s3) \<noteq> pt_len (pp_unknown c) then fst (check_unknown now ?s3) else ?s3"
  have "pp_inv ?s4 \<and> pp_allowed_delta ?s4 = pp_allowed_delta s"
    using C U S by (simp add: pp_inv_sides)
  moreover have "fst (retry_reconcile_pong now t s) =
      (let r = (if pt_contains t (pp_pending c) then ?s4 else c) in r\<lparr>pp_retry_at := removeAll t (pp_retry_at r)\<rparr>)"
    by (simp add: retry_reconcile_pong_def c_def s2_def Let_def split_beta)
  moreover have "pp_inv c" using I by (simp add: pp_inv_sides)
  ultimately show ?thesis using I(4) by (simp add: pp_inv_def Let_def)
qed

lemma pp_step_inv [inv_intros]:
  assumes "pp_inv s"
  shows "pp_inv (fst (pp_step s c)) \<and> pp_allowed_delta (fst (pp_step s c)) = pp_allowed_delta s"
proof (cases c)
  case Clear_Cache
  then show ?thesis
    using assms by (simp add: pp_inv_def pp_clear_def pt_clear_def pt_wf_def pt_len_def jn_ops_ok)
qed (use assms received_pong_inv send_ping_inv retry_inv in simp_all)

definition pp_run :: "ping_pong \<Rightarrow> pp_call list \<Rightarrow> ping_pong" where
  "pp_run s cs = foldl (\<lambda>s c. fst (pp_step s c)) s cs"

lemma pp_run_inv: "pp_inv s \<Longrightarrow> pp_inv (pp_run s cs) \<and> pp_allowed_delta (pp_run s cs) = pp_allowed_delta s"
  unfolding pp_run_def
proof (induction cs arbitrary: s)
  case (Cons c cs)
  then show ?case using pp_step_inv [of s c] by simp
qed simp

lemma pp_init_inv: "pp_inv (ping_pong_init i a ttl l r)"
  by (simp add: pp_inv_def ping_pong_init_def empty_tracker_def new_journal_def pt_wf_def pt_len_def jn_ok_def)

subsection \<open>Properties\<close>

text \<open>
  Bounded memory and no silent mismatch. After any history of sent pings, received pongs,
  reconciliation retries and clears, each tracker holds at most 100 tokens, each with its time; the
  journal holds at most 100 events and 50 round-trip samples; and whenever more pings or pongs are
  unmatched than allowed, the tracker has reported it.
\<close>

theorem ping_pong_bounded:
  "let s = pp_run (ping_pong_init iid delta ttl l r) calls
   in pt_len (pp_pending s) \<le> 100 \<and> pt_len (pp_unknown s) \<le> 100 \<and>
      set (pt_tokens (pp_pending s)) = fst ` set (pt_seen_at (pp_pending s)) \<and>
      set (pt_tokens (pp_unknown s)) = fst ` set (pt_seen_at (pp_unknown s)) \<and>
      length (jn_events (pp_journal s)) \<le> 100 \<and> length (jn_rtt_samples (pp_journal s)) \<le> 50 \<and>
      (pt_len (pp_pending s) \<le> delta \<or> pt_logged (pp_pending s)) \<and>
      (pt_len (pp_unknown s) \<le> delta \<or> pt_logged (pp_unknown s))"
  using pp_run_inv [OF pp_init_inv, of iid delta ttl l r calls]
  unfolding Let_def pp_inv_def pt_wf_def jn_ok_def by (auto simp: ping_pong_init_def)

text \<open>The entry with the latest time survives a cleanup.\<close>

definition newest :: "string \<Rightarrow> time \<Rightarrow> pong_tracker \<Rightarrow> bool" where
  "newest token now p \<longleftrightarrow> pt_wf p \<and> dict_get (pt_seen_at p) token = Some now \<and>
     (\<forall>k x. k \<noteq> token \<longrightarrow> dict_get (pt_seen_at p) k = Some x \<longrightarrow> x < now)"

lemma newest_not_oldest:
  assumes "newest token now p" and "n < length (pt_seen_at p)"
  shows "token \<notin> set (oldest (\<lambda>t. t) n (pt_seen_at p))"
proof
  let ?d = "pt_seen_at p"
  assume t: "token \<in> set (oldest (\<lambda>t. t) n ?d)"
  have wf: "dict_wf ?d" and g: "dict_get ?d token = Some now"
    using assms(1) by (auto simp: newest_def pt_wf_def)
  have "remove_keys (oldest (\<lambda>t. t) n ?d) ?d \<noteq> []"
    using length_remove_oldest [OF wf, of "\<lambda>t. t" n] assms(2) by (metis length_0_conv zero_less_diff less_irrefl)
  then obtain k x where kx: "(k, x) \<in> set (remove_keys (oldest (\<lambda>t. t) n ?d) ?d)"
    by (metis list.set_intros(1) neq_Nil_conv surj_pair)
  then have r: "dict_get (remove_keys (oldest (\<lambda>t. t) n ?d) ?d) k = Some x"
    using wf by (simp add: dict_get_Some_iff)
  then have "k \<noteq> token" "dict_get ?d k = Some x" using t by (auto simp: remove_keys_get split: if_splits)
  then have "x < now" using assms(1) by (auto simp: newest_def)
  moreover have "now \<le> x" using survivors_newer [OF wf t g r] .
  ultimately show False by simp
qed

lemma newest_remove:
  assumes "newest token now p" and "token \<notin> set ts"
  shows "newest token now (remove_tokens ts p)"
  using assms remove_tokens_props [of p ts] by (auto simp: newest_def remove_keys_get split: if_splits)

lemma newest_cleanup:
  assumes n: "newest token now p" and "0 \<le> ttl"
  shows "newest token now (cleanup_tracker now ttl p)"
proof -
  let ?p = "remove_tokens (expired_tokens now ttl p) p"
  have e: "token \<notin> set (expired_tokens now ttl p)"
    using assms by (simp add: expired_tokens_def newest_def)
  have q: "newest token now ?p" by (rule newest_remove [OF n e])
  have "length (pt_seen_at ?p) > 0" using q by (auto simp: newest_def)
  then have "pt_len ?p - 100 < length (pt_seen_at ?p)"
    using pt_wf_len [of ?p] q by (auto simp: newest_def)
  from newest_remove [OF q newest_not_oldest [OF q this]] q show ?thesis
    by (simp add: cleanup_tracker_def evict_tracker_def PING_PONG_CACHE_MAX_SIZE_def)
qed

lemma newest_contains: "newest token now p \<Longrightarrow> pt_contains token p"
  unfolding newest_def pt_wf_def pt_contains_def by (metis dict_get_None_iff option.distinct(1))

lemma newest_check:
  assumes "newest token now (pp_pending s)" and "0 \<le> pp_ttl s"
  shows "newest token now (pp_pending (fst (check_pending now s)))"
  using newest_cleanup [OF assms] by (auto simp: check_pending_def newest_def Let_def)

text \<open>
  A ping answered in time. In any reachable state without connection issue, a ping that is
  younger than all tracked ones becomes pending, even when the tracker is full, and when its pong
  comes next, at whatever time, the token is no longer pending, is not counted as unknown, and the
  round trip time in milliseconds is published first of all.
\<close>

theorem ping_pong_roundtrip:
  assumes s: "s = pp_run (ping_pong_init iid delta ttl l r) calls" and "\<not> has_connection_issue cs s"
    and "\<And>k x. dict_get (pt_seen_at (pp_pending s)) k = Some x \<Longrightarrow> x < now" and "0 \<le> pp_ttl s"
  shows "let s1 = fst (handle_send_ping now cs token s); (s2, out) = handle_received_pong now' token s1
         in pt_contains token (pp_pending s1) \<and> \<not> pt_contains token (pp_pending s2) \<and> pp_unknown s2 = pp_unknown s \<and>
            out \<noteq> [] \<and> hd out = PP_Publish (emit_latency now' (metric_key ''ping_pong'' ''rtt'' (pp_interface_id s1)) ((now' - now) * 1000))"
proof -
  have inv: "pp_inv s" unfolding s using pp_run_inv [OF pp_init_inv] by blast
  define s0 where "s0 = s\<lparr>pp_journal := record_ping_sent now token (pp_journal s), pp_pending := pt_add token now (pp_pending s)\<rparr>"
  define s1 where "s1 = fst (handle_send_ping now cs token s)"
  have n0: "newest token now (pp_pending s0)"
    using inv assms(3) pt_add_wf [of "pp_pending s" token now]
    by (auto simp: newest_def s0_def pp_inv_def) (simp_all add: pt_add_def split: if_splits)
  have c: "newest token now (pp_pending (cleanup_pending now s0))"
    using newest_cleanup [OF n0] assms(4) by (simp add: s0_def)
  have e1: "s1 = cleanup_pending now s0 \<or> s1 = fst (check_pending now (cleanup_pending now s0))"
    using assms(2) by (auto simp: s1_def handle_send_ping_def s0_def Let_def)
  have n1: "newest token now (pp_pending s1)"
    using e1 c newest_check [OF c] assms(4) by (auto simp: s0_def)
  have u1: "pp_unknown s1 = pp_unknown s"
    using e1 by (auto simp: s0_def check_pending_def Let_def)
  have inv1: "pp_inv s1" using send_ping_inv [OF inv] by (simp add: s1_def)
  define r1 where "r1 = s1\<lparr>pp_journal := record_pong_received now' token ((now' - now) * 1000) (pp_journal s1),
      pp_pending := pt_remove token (pp_pending s1)\<rparr>"
  let ?c = "cleanup_pending now' r1"
  have w: "pt_wf (pp_pending r1)" "jn_ok (pp_journal r1)"
    using inv1 by (simp_all add: r1_def pp_inv_def pt_remove_wf jn_ops_ok)
  have wc: "pt_wf (pp_pending ?c)" "jn_ok (pp_journal ?c)"
    using w cleanup_tracker_props(1) [OF w(1)] cleanup_journal [OF w(2)] by simp_all
  have sub: "set (pt_tokens (pp_pending (fst (check_pending now' ?c)))) \<subseteq> set (pt_tokens (pp_pending r1))"
    using check_pending_ok(6) [OF wc, of now'] cleanup_tracker_props(5) [OF w(1), of now' "pp_ttl r1"] by auto
  have "handle_received_pong now' token s1 =
      (fst (check_pending now' ?c),
       PP_Publish (emit_latency now' (metric_key ''ping_pong'' ''rtt'' (pp_interface_id s1)) ((now' - now) * 1000)) # snd (check_pending now' ?c))"
    using n1 newest_contains [OF n1] by (simp add: handle_received_pong_def r1_def newest_def Let_def split_beta)
  moreover have "pp_unknown (fst (check_pending now' ?c)) = pp_unknown s"
    using check_pending_ok(3) [OF wc] u1 by (simp add: r1_def)
  moreover have "\<not> pt_contains token (pp_pending (fst (check_pending now' ?c)))"
    using sub pt_remove_contains [of token token "pp_pending s1"] by (auto simp: r1_def pt_contains_def)
  ultimately show ?thesis
    using newest_contains [OF n1] by (simp flip: s1_def)
qed

theorem ping_pong_roundtrip_witness:
  "let s = pp_run (ping_pong_init ''i'' 15 300 True True) [];
       s1 = fst (handle_send_ping 10 None ''t'' s)
   in pt_contains ''t'' (pp_pending s1) \<and> \<not> pt_contains ''t'' (pp_pending (fst (handle_received_pong 11 ''t'' s1)))"
proof -
  let ?s = "pp_run (ping_pong_init ''i'' 15 300 True True) []"
  have p: "pt_seen_at (pp_pending ?s) = []" "0 \<le> pp_ttl ?s"
    by (simp_all add: pp_run_def ping_pong_init_def empty_tracker_def)
  then show ?thesis
    using ping_pong_roundtrip [of ?s "''i''" 15 300 True True "[]" None 10 "''t''" 11]
    by (simp add: has_connection_issue_def Let_def split_beta)
qed

end
