(* ===== verification/Device_Availability.thy ===== *)
theory Device_Availability
  imports Events
begin

section \<open>Availability of devices (\<open>model/device.py\<close>)\<close>

text \<open>
  The part of a device that the client and the central act on: its forced availability and the two
  data points \<open>UN_REACH\<close> and \<open>STICKY_UN_REACH\<close> that \<open>is_reachable\<close> falls back to. The outer
  option of such a data point says whether the device has it, the inner one whether it has a value.
  A device of the registry is identified by its address and belongs to an interface. The refresh
  events of the device's data points carry no state and are left out.
\<close>

record device =
  dev_address :: string
  dev_name :: string
  dev_interface_id :: string
  dev_forced :: forced_availability
  dev_un_reach :: "bool option option"
  dev_sticky_un_reach :: "bool option option"

definition is_reachable :: "device \<Rightarrow> bool" where
  "is_reachable d \<longleftrightarrow>
     (if dev_forced d \<noteq> NOT_SET then dev_forced d = FORCE_TRUE
      else
        let un_reach = (case dev_un_reach d of None \<Rightarrow> dev_sticky_un_reach d | Some u \<Rightarrow> Some u)
        in case un_reach of
             Some (Some v) \<Rightarrow> \<not> v
           | _ \<Rightarrow> True)"

definition set_forced :: "forced_availability \<Rightarrow> device \<Rightarrow> device \<times> bool" where
  "set_forced fa d =
     (if dev_forced d = fa then (d, False)
      else let d' = d\<lparr>dev_forced := fa\<rparr> in (d', is_reachable d \<noteq> is_reachable d'))"

definition set_forced_availability :: "time \<Rightarrow> forced_availability \<Rightarrow> device \<Rightarrow> device \<times> event list" where
  "set_forced_availability now fa d =
     (if dev_forced d = fa then (d, [])
      else
        let (d', availability_changed) = set_forced fa d
        in (d', if availability_changed
                then [DeviceLifecycleEvent now DL_AVAILABILITY_CHANGED [] [(dev_address d, is_reachable d')] False None
                        [dev_name d]]
                else []))"

text \<open>The loop over the registry that both the client and the central run for one interface.\<close>

fun force_devices :: "time \<Rightarrow> string \<Rightarrow> forced_availability \<Rightarrow> device list \<Rightarrow> device list \<times> event list" where
  "force_devices now iid fa [] = ([], [])"
| "force_devices now iid fa (d # ds) =
     (let (d', es) = (if dev_interface_id d = iid then set_forced_availability now fa d else (d, []));
          (ds', es') = force_devices now iid fa ds
      in (d' # ds', es @ es'))"

lemma set_forced_availability_fst [simp]: "fst (set_forced_availability now fa d) = d\<lparr>dev_forced := fa\<rparr>"
  by (simp add: set_forced_availability_def set_forced_def Let_def)

definition mark_device :: "string \<Rightarrow> forced_availability \<Rightarrow> device \<Rightarrow> device" where
  "mark_device iid fa d = (if dev_interface_id d = iid then d\<lparr>dev_forced := fa\<rparr> else d)"

lemma mark_device_sel [simp]:
  "dev_interface_id (mark_device iid fa d) = dev_interface_id d"
  "dev_forced (mark_device iid fa d) = (if dev_interface_id d = iid then fa else dev_forced d)"
  by (simp_all add: mark_device_def)

lemma force_devices_fst: "fst (force_devices now iid fa ds) = map (mark_device iid fa) ds"
  by (induction ds) (simp_all add: case_prod_beta Let_def mark_device_def)

text \<open>All devices of an interface carry the given mark.\<close>

definition all_forced :: "string \<Rightarrow> forced_availability \<Rightarrow> device list \<Rightarrow> bool" where
  "all_forced iid fa ds \<longleftrightarrow> (\<forall>d \<in> set ds. dev_interface_id d = iid \<longrightarrow> dev_forced d = fa)"

definition none_forced :: "string \<Rightarrow> forced_availability \<Rightarrow> device list \<Rightarrow> bool" where
  "none_forced iid fa ds \<longleftrightarrow> (\<forall>d \<in> set ds. dev_interface_id d = iid \<longrightarrow> dev_forced d \<noteq> fa)"

definition has_devices :: "string \<Rightarrow> device list \<Rightarrow> bool" where
  "has_devices iid ds \<longleftrightarrow> (\<exists>d \<in> set ds. dev_interface_id d = iid)"

lemma all_forced_force [simp]:
  "all_forced iid' fa' (fst (force_devices now iid fa ds)) = (if iid' = iid then fa' = fa \<or> \<not> has_devices iid ds else all_forced iid' fa' ds)"
  by (auto simp: all_forced_def has_devices_def force_devices_fst)

lemma none_forced_force [simp]:
  "none_forced iid' fa' (fst (force_devices now iid fa ds)) =
     (if iid' = iid then fa' \<noteq> fa \<or> \<not> has_devices iid ds else none_forced iid' fa' ds)"
  by (auto simp: none_forced_def has_devices_def force_devices_fst)

end
