(* ===== verification/Interface_Client.thy ===== *)
theory Interface_Client
  imports Client_State_Machine Rpc_Errors Ping_Pong Device_Availability
begin

section \<open>Lifecycle of an interface client (\<open>client/interface_client.py\<close>)\<close>

text \<open>
  The operations of \<open>InterfaceClient\<close> that move its state machine: \<open>init_client\<close>, \<open>init_proxy\<close>,
  \<open>deinit_proxy\<close>, \<open>reconnect\<close>, \<open>is_connected\<close> with \<open>check_connection_availability\<close>,
  \<open>is_callback_alive\<close> and \<open>stop\<close>. A coroutine is cut at its awaits into sections that run without
  interruption: a section starts with the answer of the awaited call and ends at the next await, and
  the position of the task is a value of \<open>client_pc\<close>. What the backend answers is an input of the
  section. The devices are those of the central's registry, which the client marks itself.
\<close>

subsection \<open>State\<close>

record iface_client =
  cl_interface_id :: string
  cl_interface :: interface
  cl_rpc_callback :: bool \<comment> \<open>capabilities of the backend\<close>
  cl_has_ping_pong :: bool
  cl_push_updates :: bool
  cl_state_machine :: client_sm
  cl_connection_error_count :: int
  cl_is_callback_alive :: bool
  cl_reconnect_attempts :: nat
  cl_ping_pong_tracker :: ping_pong
  cl_modified_at :: time
  cl_modified_at_monotonic :: time
  cl_subscribed :: bool \<comment> \<open>to its own state changes and to the system status\<close>

definition client_state :: "iface_client \<Rightarrow> client_state" where
  "client_state c = csm_state (cl_state_machine c)"

definition client_available :: "iface_client \<Rightarrow> bool" where
  "client_available c = client_is_available (cl_state_machine c)"

definition iface_client_init :: "string \<Rightarrow> interface \<Rightarrow> bool \<Rightarrow> bool \<Rightarrow> bool \<Rightarrow> iface_client" where
  "iface_client_init interface_id iface rpc_callback has_ping_pong push_updates =
     \<lparr>cl_interface_id = interface_id, cl_interface = iface, cl_rpc_callback = rpc_callback,
      cl_has_ping_pong = has_ping_pong, cl_push_updates = push_updates,
      cl_state_machine = client_sm_init interface_id True, cl_connection_error_count = 0,
      cl_is_callback_alive = True, cl_reconnect_attempts = 0,
      cl_ping_pong_tracker = ping_pong_init interface_id 15 300 True True,
      cl_modified_at = INIT_DATETIME, cl_modified_at_monotonic = 0, cl_subscribed = True\<rparr>"

record client_world =
  cw_client :: iface_client
  cw_devices :: "device list"

datatype client_output =
    CO_Publish event
  | CO_PingPong pp_output
  | CO_ResetBreakers
  | CO_CallbackTimeoutIncident real
  | CO_CancelRetries
  | CO_StopBackend

datatype client_exn = CX_State client_sm_error | CX_Raised exn

type_synonym client_run = "(client_world, client_output, client_exn) run"

definition is_initialized :: "iface_client \<Rightarrow> bool" where
  "is_initialized c \<longleftrightarrow> client_state c \<in> {CONNECTED, DISCONNECTED, RECONNECTING}"

definition set_modified_at :: "time \<Rightarrow> time \<Rightarrow> iface_client \<Rightarrow> iface_client" where
  "set_modified_at value mt c =
     c\<lparr>cl_modified_at := value, cl_modified_at_monotonic := if value \<noteq> INIT_DATETIME then mt else 0\<rparr>"

definition on_client :: "(iface_client \<Rightarrow> iface_client) \<Rightarrow> client_world \<Rightarrow> client_run" where
  "on_client f w = (w\<lparr>cw_client := f (cw_client w)\<rparr>, [], None)"

definition sm_transition :: "time \<Rightarrow> client_state \<Rightarrow> string \<Rightarrow> failure_reason \<Rightarrow> client_world \<Rightarrow> client_run" where
  \<comment> \<open>self._state_machine.transition_to(...)\<close>
  "sm_transition now target reason fr w =
     (case client_transition_to now target reason False fr (cl_state_machine (cw_client w)) of
        Inl e \<Rightarrow> (w, [], Some (CX_State e))
      | Inr (m, es) \<Rightarrow> (w\<lparr>cw_client := (cw_client w)\<lparr>cl_state_machine := m\<rparr>\<rparr>, map CO_Publish es, None))"

definition mark_all_devices :: "time \<Rightarrow> forced_availability \<Rightarrow> client_world \<Rightarrow> client_run" where
  \<comment> \<open>_mark_all_devices_forced_availability\<close>
  "mark_all_devices now fa w =
     (let available = (fa \<noteq> FORCE_FALSE)
      in if \<not> available \<or> client_available (cw_client w) \<noteq> available
         then let (ds, es) = force_devices now (cl_interface_id (cw_client w)) fa (cw_devices w)
              in (w\<lparr>cw_devices := ds\<rparr>, map CO_Publish es, None)
         else (w, [], None))"

subsection \<open>Initialisation and reconnection\<close>

text \<open>\<open>str(exc)\<close> and \<open>exception_to_failure_reason(exc)\<close>; the error of the state machine belongs to no class of the latter.\<close>

fun client_exn_text :: "client_exn \<Rightarrow> string" where
  "client_exn_text (CX_State (InvalidStateTransitionError current target iid)) =
     ''Invalid state transition from '' @ py_lower (client_state_name current) @ '' to '' @ py_lower (client_state_name target) @
     '' for interface '' @ iid"
| "client_exn_text (CX_Raised e) = exn_msg e"

fun client_exn_reason :: "client_exn \<Rightarrow> failure_reason" where
  "client_exn_reason (CX_State _) = FR_UNKNOWN"
| "client_exn_reason (CX_Raised e) = exception_to_failure_reason e"

definition init_client :: "time \<Rightarrow> client_world \<Rightarrow> client_run" where
  "init_client now w =
     then_do (sm_transition now INITIALIZING [] FR_NONE w) (\<lambda>w1.
       case sm_transition now INITIALIZED [] FR_NONE w1 of
         (w2, out, None) \<Rightarrow> (w2, out, None)
       | (w2, out, Some e) \<Rightarrow>
           (case sm_transition now FAILED (client_exn_text e) (client_exn_reason e) w2 of
              (w3, out3, None) \<Rightarrow> (w3, out @ out3, Some e)
            | (w3, out3, Some e3) \<Rightarrow> (w3, out @ out3, Some e3))) id"

text \<open>
  Position of the task that runs \<open>init_proxy\<close> or \<open>reconnect\<close>. The flag tells whether \<open>reconnect\<close>
  is the caller; \<open>P_Init\<close> keeps \<open>modified_at_before_init\<close>.
\<close>

datatype client_pc =
    P_Idle
  | P_Sleeping time
  | P_Deinit
  | P_Listing bool
  | P_Adding bool
  | P_Init bool time

type_synonym client_task = "client_world \<times> client_pc \<times> bool option" \<comment> \<open>with the value returned, if any\<close>
type_synonym task_run = "(client_task, client_output, client_exn) run"

definition goto :: "client_pc \<Rightarrow> client_run \<Rightarrow> task_run" where
  "goto pc r = then_do r (\<lambda>w. ((w, pc, None), [], None)) (\<lambda>w. (w, P_Idle, None))"

definition reconnect_delay :: "timeout_config \<Rightarrow> nat \<Rightarrow> time" where
  "reconnect_delay tc attempts =
     min (reconnect_initial_delay tc * reconnect_backoff_factor tc ^ attempts) (reconnect_max_delay tc)"

definition init_proxy_begin :: "time \<Rightarrow> bool \<Rightarrow> client_world \<Rightarrow> task_run" where
  "init_proxy_begin now reconnecting w =
     (if \<not> cl_rpc_callback (cw_client w)
      then goto (P_Listing reconnecting) (sm_transition now CONNECTING [] FR_NONE w)
      else goto (P_Init reconnecting (cl_modified_at (cw_client w)))
             (then_do (sm_transition now CONNECTING [] FR_NONE w)
                (on_client (\<lambda>c. c\<lparr>cl_ping_pong_tracker := pp_clear (cl_ping_pong_tracker c)\<rparr>)) id))"

definition init_result :: "bool \<Rightarrow> proxy_init_state \<Rightarrow> client_world \<Rightarrow> task_run" where
  \<comment> \<open>what the caller does with the result: reconnect resets or counts, start_clients only compares\<close>
  "init_result reconnecting result w =
     (if \<not> reconnecting then ((w, P_Idle, Some (result = INIT_SUCCESS)), [], None)
      else if result = INIT_SUCCESS
      then ((w\<lparr>cw_client := (cw_client w)\<lparr>cl_reconnect_attempts := 0, cl_connection_error_count := 0\<rparr>\<rparr>,
             P_Idle, Some True), [CO_ResetBreakers], None)
      else ((w\<lparr>cw_client := (cw_client w)\<lparr>cl_reconnect_attempts := cl_reconnect_attempts (cw_client w) + 1\<rparr>\<rparr>,
             P_Idle, Some False), [], None))"

definition finish_init :: "bool \<Rightarrow> proxy_init_state \<Rightarrow> client_run \<Rightarrow> task_run" where
  "finish_init reconnecting result r = then_do r (init_result reconnecting result) (\<lambda>w. (w, P_Idle, None))"

text \<open>\<open>list_devices\<close> answers with descriptions (\<open>Inr True\<close>), with \<open>None\<close> (\<open>Inr False\<close>) or raises.\<close>

definition init_proxy_listed :: "time \<Rightarrow> bool \<Rightarrow> exn + bool \<Rightarrow> client_world \<Rightarrow> task_run" where
  "init_proxy_listed now reconnecting answer w =
     (case answer of
        Inl e \<Rightarrow> ((w, P_Idle, None), [], Some (CX_Raised e))
      | Inr True \<Rightarrow> ((w, P_Adding reconnecting, None), [], None)
      | Inr False \<Rightarrow>
          finish_init reconnecting INIT_FAILED
            (then_do (sm_transition now FAILED ''device listing failed'' FR_NETWORK w) (mark_all_devices now FORCE_FALSE) id))"

definition init_proxy_added :: "time \<Rightarrow> bool \<Rightarrow> exn option \<Rightarrow> client_world \<Rightarrow> task_run" where
  "init_proxy_added now reconnecting answer w =
     (case answer of
        Some e \<Rightarrow> ((w, P_Idle, None), [], Some (CX_Raised e))
      | None \<Rightarrow> finish_init reconnecting INIT_SUCCESS
                  (sm_transition now CONNECTED ''proxy initialized (no callback)'' FR_NONE w))"

definition init_proxy_connected :: "time \<Rightarrow> time \<Rightarrow> bool \<Rightarrow> client_world \<Rightarrow> task_run" where
  "init_proxy_connected now mt reconnecting w =
     finish_init reconnecting INIT_SUCCESS
       (then_do
          (then_do (sm_transition now CONNECTED ''proxy initialized'' FR_NONE w) (mark_all_devices now NOT_SET) id)
          (on_client (set_modified_at now mt)) id)"

definition init_proxy_answered :: "time \<Rightarrow> time \<Rightarrow> bool \<Rightarrow> time \<Rightarrow> exn option \<Rightarrow> client_world \<Rightarrow> task_run" where
  "init_proxy_answered now mt reconnecting modified_at_before_init answer w =
     (case answer of
        None \<Rightarrow> init_proxy_connected now mt reconnecting w
      | Some e \<Rightarrow>
          if \<not> isinstance e BaseHomematicException then ((w, P_Idle, None), [], Some (CX_Raised e))
          else if cl_modified_at (cw_client w) > modified_at_before_init
          then init_proxy_connected now mt reconnecting w
          else
            finish_init reconnecting INIT_FAILED
              (then_do
                 (then_do (on_client (set_modified_at INIT_DATETIME mt) w)
                    (sm_transition now FAILED ''proxy init failed'' (exception_to_failure_reason e)) id)
                 (mark_all_devices now FORCE_FALSE) id))"

text \<open>
  \<open>deinit_proxy\<close>: without callbacks or without a preceding contact it ends at once, otherwise it
  awaits the backend. \<open>deinit_answered\<close> is what follows the answer.
\<close>

definition deinit_answered :: "time \<Rightarrow> time \<Rightarrow> exn option \<Rightarrow> client_world \<Rightarrow> client_run \<times> proxy_init_state" where
  "deinit_answered now mt answer w =
     (case answer of
        None \<Rightarrow> (then_do (sm_transition now DISCONNECTED ''proxy de-initialized'' FR_NONE w)
                   (on_client (set_modified_at INIT_DATETIME mt)) id, DE_INIT_SUCCESS)
      | Some e \<Rightarrow>
          if isinstance e BaseHomematicException then ((w, [], None), DE_INIT_FAILED)
          else ((w, [], Some (CX_Raised e)), DE_INIT_FAILED))"

definition deinit_proxy :: "time \<Rightarrow> time \<Rightarrow> exn option \<Rightarrow> client_world \<Rightarrow> client_run \<times> proxy_init_state" where
  \<comment> \<open>the whole coroutine, with the answer of the backend for the branch that awaits it\<close>
  "deinit_proxy now mt answer w =
     (if \<not> cl_rpc_callback (cw_client w)
      then (sm_transition now DISCONNECTED ''no callback support'' FR_NONE w, DE_INIT_SUCCESS)
      else if cl_modified_at (cw_client w) = INIT_DATETIME then ((w, [], None), DE_INIT_SKIPPED)
      else deinit_answered now mt answer w)"

definition chain_task :: "client_run \<Rightarrow> (client_world \<Rightarrow> task_run) \<Rightarrow> task_run" where
  "chain_task r k = then_do r k (\<lambda>w. (w, P_Idle, None))"

definition reinit_proxy_begin :: "time \<Rightarrow> client_world \<Rightarrow> task_run" where
  \<comment> \<open>the first section of reinit_proxy, called by reconnect after its delay\<close>
  "reinit_proxy_begin now w =
     (if \<not> cl_rpc_callback (cw_client w)
      then chain_task (sm_transition now DISCONNECTED ''no callback support'' FR_NONE w) (init_proxy_begin now True)
      else if cl_modified_at (cw_client w) = INIT_DATETIME then init_proxy_begin now True w
      else ((w, P_Deinit, None), [], None))"

definition reinit_proxy_deinit_answered :: "time \<Rightarrow> time \<Rightarrow> exn option \<Rightarrow> client_world \<Rightarrow> task_run" where
  "reinit_proxy_deinit_answered now mt answer w =
     chain_task (fst (deinit_answered now mt answer w)) (init_proxy_begin now True)"

definition reconnect_begin :: "timeout_config \<Rightarrow> time \<Rightarrow> client_world \<Rightarrow> task_run" where
  "reconnect_begin tc now w =
     chain_task
       (if client_state (cw_client w) = INITIALIZED
        then sm_transition now DISCONNECTED ''recovery from initialized state'' FR_NONE w
        else (w, [], None))
       (\<lambda>w. if client_can_reconnect (cl_state_machine (cw_client w))
            then goto (P_Sleeping (reconnect_delay tc (cl_reconnect_attempts (cw_client w))))
                   (sm_transition now RECONNECTING [] FR_NONE w)
            else ((w, P_Idle, Some False), [], None))"

subsection \<open>Connection checks\<close>

text \<open>
  \<open>check_connection_availability\<close> registers a ping before it awaits the backend's answer, which is a
  truth value or an exception. \<open>is_connected\<close> counts the failures.
\<close>

definition check_begin :: "time \<Rightarrow> string \<Rightarrow> conn_state option \<Rightarrow> bool \<Rightarrow> client_world \<Rightarrow> client_run" where
  "check_begin now token cs handle_ping_pong w =
     (if handle_ping_pong \<and> cl_has_ping_pong (cw_client w) \<and> is_initialized (cw_client w)
      then let (pp, out) = handle_send_ping now cs token (cl_ping_pong_tracker (cw_client w))
           in (w\<lparr>cw_client := (cw_client w)\<lparr>cl_ping_pong_tracker := pp\<rparr>\<rparr>, map CO_PingPong out, None)
      else (w, [], None))"

definition check_connection_availability ::
  "time \<Rightarrow> time \<Rightarrow> exn + bool \<Rightarrow> client_world \<Rightarrow> (exn + bool) \<times> client_world" where
  "check_connection_availability dt_now mt answer w =
     (case answer of
        Inr True \<Rightarrow> (Inr True, w\<lparr>cw_client := set_modified_at dt_now mt (cw_client w)\<rparr>)
      | Inr False \<Rightarrow> (Inr False, w\<lparr>cw_client := set_modified_at INIT_DATETIME mt (cw_client w)\<rparr>)
      | Inl e \<Rightarrow>
          if isinstance e BaseHomematicException
          then (Inr False, w\<lparr>cw_client := set_modified_at INIT_DATETIME mt (cw_client w)\<rparr>)
          else (Inl e, w))"

definition count_check :: "bool \<Rightarrow> client_world \<Rightarrow> client_world" where
  "count_check ok w =
     w\<lparr>cw_client := (cw_client w)\<lparr>cl_connection_error_count :=
          if ok then 0 else cl_connection_error_count (cw_client w) + 1\<rparr>\<rparr>"

definition check_evaluate :: "timeout_config \<Rightarrow> time \<Rightarrow> time \<Rightarrow> client_world \<Rightarrow> client_run \<times> bool" where
  \<comment> \<open>the part of is_connected after the counting\<close>
  "check_evaluate tc now mt w =
     (if cl_connection_error_count (cw_client w) > connectivity_error_threshold tc
      then (then_do (mark_all_devices now FORCE_FALSE w) (\<lambda>w.
              if client_state (cw_client w) = CONNECTED
              then sm_transition now DISCONNECTED ''connection check failed'' FR_NONE w
              else (w, [], None)) id, False)
      else if \<not> cl_push_updates (cw_client w) then ((w, [], None), True)
      else if \<not> cl_has_ping_pong (cw_client w) then ((w, [], None), True)
      else ((w, [], None),
            cl_modified_at_monotonic (cw_client w) > 0 \<and>
            mt - cl_modified_at_monotonic (cw_client w) < callback_warn_interval tc))"

definition is_connected_end ::
  "timeout_config \<Rightarrow> time \<Rightarrow> time \<Rightarrow> time \<Rightarrow> exn + bool \<Rightarrow> client_world \<Rightarrow> client_run \<times> bool" where
  "is_connected_end tc dt_now now mt answer w =
     (case check_connection_availability dt_now mt answer w of
        (Inl e, w1) \<Rightarrow> ((w1, [], Some (CX_Raised e)), False)
      | (Inr ok, w1) \<Rightarrow> check_evaluate tc now mt (count_check ok w1))"

definition callback_status :: "time \<Rightarrow> bool \<Rightarrow> client_world \<Rightarrow> client_output" where
  "callback_status now alive w =
     CO_Publish (SystemStatusChangedEvent now
       (empty_status\<lparr>ss_callback_state := Some (cl_interface_id (cw_client w), alive)\<rparr>))"

definition is_callback_alive ::
  "timeout_config \<Rightarrow> time \<Rightarrow> time \<Rightarrow> time option \<Rightarrow> client_world \<Rightarrow> client_run \<times> bool" where
  "is_callback_alive tc now mt last_event w =
     (let c = cw_client w in
      if \<not> cl_has_ping_pong c then ((w, [], None), True)
      else if client_is_failed (cl_state_machine c) \<or> client_state c = RECONNECTING then ((w, [], None), False)
      else case last_event of
          None \<Rightarrow> ((w, [], None), True)
        | Some t \<Rightarrow>
            if mt - t > callback_warn_interval tc
            then (if cl_is_callback_alive c
                  then ((w\<lparr>cw_client := c\<lparr>cl_is_callback_alive := False\<rparr>\<rparr>,
                         [callback_status now False w, CO_CallbackTimeoutIncident (mt - t)], None), False)
                  else ((w, [], None), False))
            else if \<not> cl_is_callback_alive c
            then ((w\<lparr>cw_client := c\<lparr>cl_is_callback_alive := True\<rparr>\<rparr>, [callback_status now True w], None), True)
            else ((w, [], None), True))"

subsection \<open>Handlers and stop\<close>

definition on_client_state_changed_event :: "time \<Rightarrow> string \<Rightarrow> client_state \<Rightarrow> client_state \<Rightarrow> event" where
  "on_client_state_changed_event now interface_id old_state new_state =
     SystemStatusChangedEvent now (empty_status\<lparr>ss_client_state := Some (interface_id, old_state, new_state)\<rparr>)"

definition on_system_status_event :: "system_status \<Rightarrow> iface_client \<Rightarrow> iface_client" where
  "on_system_status_event st c =
     (case ss_connection_state st of
        Some (iid, up) \<Rightarrow> if iid = cl_interface_id c \<and> up
          then c\<lparr>cl_ping_pong_tracker := pp_clear (cl_ping_pong_tracker c)\<rparr> else c
      | None \<Rightarrow> c)"

text \<open>\<open>stop\<close> up to its await, what follows the answer of the backend, and the whole coroutine.\<close>

definition client_stop_begin :: "time \<Rightarrow> client_world \<Rightarrow> client_run" where
  "client_stop_begin now w =
     then_do (w\<lparr>cw_client := (cw_client w)\<lparr>cl_subscribed := False\<rparr>\<rparr>, [CO_CancelRetries], None)
       (sm_transition now STOPPING ''stop() called'' FR_NONE) id"

definition client_stop_answered :: "time \<Rightarrow> exn option \<Rightarrow> client_world \<Rightarrow> client_run" where
  "client_stop_answered now answer w =
     (case answer of
        Some e \<Rightarrow> (w, [CO_StopBackend], Some (CX_Raised e))
      | None \<Rightarrow> then_do (w, [CO_StopBackend], None) (sm_transition now STOPPED ''services stopped'' FR_NONE) id)"

definition client_stop :: "time \<Rightarrow> exn option \<Rightarrow> client_world \<Rightarrow> client_run" where
  "client_stop now answer w = then_do (client_stop_begin now w) (client_stop_answered now answer) id"

subsection \<open>The client as a system of sections\<close>

text \<open>
  One task at a time runs \<open>init_proxy\<close> or \<open>reconnect\<close>. The answers it awaits and everything that
  other tasks do to the client in between (connection checks, callbacks, status events) are the
  events of a history. An answer that the task does not await is ignored.
\<close>

datatype client_ev =
    CE_StartInit time
  | CE_Reconnect time
  | CE_Wake time
  | CE_DeinitAnswer time time "exn option"
  | CE_ListAnswer time "exn + bool"
  | CE_AddAnswer time "exn option"
  | CE_InitAnswer time time "exn option"
  | CE_CheckBegin time string "conn_state option" bool
  | CE_CheckEnd time time time "exn + bool"
  | CE_Callback time time
  | CE_CallbackAlive time time "time option"
  | CE_Status system_status

definition keep_pc :: "client_pc \<Rightarrow> client_run \<Rightarrow> task_run" where
  "keep_pc pc r = (case r of (w, out, e) \<Rightarrow> ((w, pc, None), out, e))"

fun client_react :: "timeout_config \<Rightarrow> client_world \<Rightarrow> client_pc \<Rightarrow> client_ev \<Rightarrow> task_run" where
  "client_react tc w pc (CE_StartInit now) =
     (case pc of P_Idle \<Rightarrow> init_proxy_begin now False w | _ \<Rightarrow> ((w, pc, None), [], None))"
| "client_react tc w pc (CE_Reconnect now) =
     (case pc of P_Idle \<Rightarrow> reconnect_begin tc now w | _ \<Rightarrow> ((w, pc, None), [], None))"
| "client_react tc w pc (CE_Wake now) =
     (case pc of P_Sleeping _ \<Rightarrow> reinit_proxy_begin now w | _ \<Rightarrow> ((w, pc, None), [], None))"
| "client_react tc w pc (CE_DeinitAnswer now mt a) =
     (case pc of P_Deinit \<Rightarrow> reinit_proxy_deinit_answered now mt a w | _ \<Rightarrow> ((w, pc, None), [], None))"
| "client_react tc w pc (CE_ListAnswer now a) =
     (case pc of P_Listing r \<Rightarrow> init_proxy_listed now r a w | _ \<Rightarrow> ((w, pc, None), [], None))"
| "client_react tc w pc (CE_AddAnswer now a) =
     (case pc of P_Adding r \<Rightarrow> init_proxy_added now r a w | _ \<Rightarrow> ((w, pc, None), [], None))"
| "client_react tc w pc (CE_InitAnswer now mt a) =
     (case pc of P_Init r t \<Rightarrow> init_proxy_answered now mt r t a w | _ \<Rightarrow> ((w, pc, None), [], None))"
| "client_react tc w pc (CE_CheckBegin now token cs h) = keep_pc pc (check_begin now token cs h w)"
| "client_react tc w pc (CE_CheckEnd dt now mt a) = keep_pc pc (fst (is_connected_end tc dt now mt a w))"
| "client_react tc w pc (CE_Callback now mt) = keep_pc pc (on_client (set_modified_at now mt) w)"
| "client_react tc w pc (CE_CallbackAlive now mt t) = keep_pc pc (fst (is_callback_alive tc now mt t w))"
| "client_react tc w pc (CE_Status st) = keep_pc pc (on_client (on_system_status_event st) w)"

text \<open>A history remembers the exceptions that left a section and the values returned.\<close>

record client_sys =
  sy_world :: client_world
  sy_pc :: client_pc
  sy_raised :: "client_exn list"
  sy_returned :: "bool list"

definition client_sys_step :: "timeout_config \<Rightarrow> client_sys \<Rightarrow> client_ev \<Rightarrow> client_sys" where
  "client_sys_step tc s ev =
     (case client_react tc (sy_world s) (sy_pc s) ev of
        ((w, pc, r), out, e) \<Rightarrow>
          \<lparr>sy_world = w, sy_pc = pc,
           sy_raised = sy_raised s @ (case e of None \<Rightarrow> [] | Some x \<Rightarrow> [x]),
           sy_returned = sy_returned s @ (case r of None \<Rightarrow> [] | Some b \<Rightarrow> [b])\<rparr>)"

definition client_start :: "client_world \<Rightarrow> client_sys" where
  "client_start w = \<lparr>sy_world = w, sy_pc = P_Idle, sy_raised = [], sy_returned = []\<rparr>"

text \<open>Events other than the answers of the task, and answers that raise nothing unexpected.\<close>

fun background :: "client_ev \<Rightarrow> bool" where
  "background (CE_CheckBegin _ _ _ _) = True"
| "background (CE_CheckEnd _ _ _ _) = True"
| "background (CE_Callback _ _) = True"
| "background (CE_CallbackAlive _ _ _) = True"
| "background (CE_Status _) = True"
| "background _ = False"

definition expected :: "exn option \<Rightarrow> bool" where
  "expected a \<longleftrightarrow> (case a of None \<Rightarrow> True | Some e \<Rightarrow> isinstance e BaseHomematicException)"

fun regular :: "client_ev \<Rightarrow> bool" where
  "regular (CE_StartInit _) = False" \<comment> \<open>called once, on the fresh client\<close>
| "regular (CE_DeinitAnswer _ _ a) = expected a"
| "regular (CE_ListAnswer _ a) = (case a of Inl _ \<Rightarrow> False | Inr _ \<Rightarrow> True)"
| "regular (CE_AddAnswer _ a) = (a = None)"
| "regular (CE_InitAnswer _ _ a) = expected a"
| "regular _ = True"

fun contact :: "client_ev \<Rightarrow> bool" where
  "contact (CE_Callback _ _) = True"
| "contact (CE_CheckEnd _ _ _ a) = (a = Inr True)"
| "contact _ = False"

fun pc_ok :: "client_pc \<Rightarrow> client_state \<Rightarrow> bool" where
  "pc_ok P_Idle s = (s \<in> {INITIALIZED, CONNECTED, DISCONNECTED, FAILED})"
| "pc_ok (P_Sleeping _) s = (s = RECONNECTING)"
| "pc_ok P_Deinit s = (s = RECONNECTING)"
| "pc_ok (P_Listing _) s = (s = CONNECTING)"
| "pc_ok (P_Adding _) s = (s = CONNECTING)"
| "pc_ok (P_Init _ _) s = (s = CONNECTING)"

subsection \<open>The whole life of a client\<close>

text \<open>
  The calls of \<open>init_client\<close>, \<open>deinit_proxy\<close> and \<open>stop\<close> from outside, between the calls of \<open>init_proxy\<close> and
  \<open>reconnect\<close>: one of them runs at a time, with checks, callbacks and status events in between. An event that does
  not fit the position is ignored.
\<close>

datatype life_pc =
    LP_Task client_pc
  | LP_Deinitializing \<comment> \<open>deinit_proxy awaits the backend\<close>
  | LP_Stopping \<comment> \<open>stop awaits the backend\<close>

datatype life_ev =
    LE_Section client_ev
  | LE_InitClient time
  | LE_Deinit time
  | LE_DeinitAnswer time time "exn option"
  | LE_Stop time
  | LE_StopAnswer time "exn option"

type_synonym life_run = "(client_world \<times> life_pc \<times> bool option, client_output, client_exn) run"

definition life_goto :: "life_pc \<Rightarrow> client_run \<Rightarrow> life_run" where
  "life_goto pc r = then_do r (\<lambda>w. ((w, pc, None), [], None)) (\<lambda>w. (w, LP_Task P_Idle, None))"

definition life_ignored :: "client_world \<Rightarrow> life_pc \<Rightarrow> life_run" where
  "life_ignored w pc = ((w, pc, None), [], None)"

fun life_react :: "timeout_config \<Rightarrow> client_world \<Rightarrow> life_pc \<Rightarrow> life_ev \<Rightarrow> life_run" where
  "life_react tc w pc (LE_Section ev) =
     (case pc of
        LP_Task p \<Rightarrow> (case client_react tc w p ev of ((w', p', b), out, e) \<Rightarrow> ((w', LP_Task p', b), out, e))
      | _ \<Rightarrow> if background ev then (case client_react tc w P_Idle ev of ((w', _, b), out, e) \<Rightarrow> ((w', pc, b), out, e))
             else life_ignored w pc)"
| "life_react tc w pc (LE_InitClient now) =
     (if pc = LP_Task P_Idle then life_goto (LP_Task P_Idle) (init_client now w) else life_ignored w pc)"
| "life_react tc w pc (LE_Deinit now) =
     (if pc \<noteq> LP_Task P_Idle then life_ignored w pc
      else if \<not> cl_rpc_callback (cw_client w)
      then life_goto (LP_Task P_Idle) (sm_transition now DISCONNECTED ''no callback support'' FR_NONE w)
      else if cl_modified_at (cw_client w) = INIT_DATETIME then life_ignored w pc
      else ((w, LP_Deinitializing, None), [], None))"
| "life_react tc w pc (LE_DeinitAnswer now mt a) =
     (if pc = LP_Deinitializing then life_goto (LP_Task P_Idle) (fst (deinit_answered now mt a w)) else life_ignored w pc)"
| "life_react tc w pc (LE_Stop now) =
     (if pc = LP_Task P_Idle then life_goto LP_Stopping (client_stop_begin now w) else life_ignored w pc)"
| "life_react tc w pc (LE_StopAnswer now a) =
     (if pc = LP_Stopping then life_goto (LP_Task P_Idle) (client_stop_answered now a w) else life_ignored w pc)"

record life_sys =
  ly_world :: client_world
  ly_pc :: life_pc
  ly_raised :: "client_exn list"
  ly_returned :: "bool list"

definition life_step :: "timeout_config \<Rightarrow> life_sys \<Rightarrow> life_ev \<Rightarrow> life_sys" where
  "life_step tc s ev =
     (case life_react tc (ly_world s) (ly_pc s) ev of
        ((w, pc, r), out, e) \<Rightarrow>
          \<lparr>ly_world = w, ly_pc = pc,
           ly_raised = ly_raised s @ (case e of None \<Rightarrow> [] | Some x \<Rightarrow> [x]),
           ly_returned = ly_returned s @ (case r of None \<Rightarrow> [] | Some b \<Rightarrow> [b])\<rparr>)"

definition life_start :: "client_world \<Rightarrow> life_sys" where
  "life_start w = \<lparr>ly_world = w, ly_pc = LP_Task P_Idle, ly_raised = [], ly_returned = []\<rparr>"

abbreviation ly_state :: "life_sys \<Rightarrow> client_state" where
  "ly_state s \<equiv> client_state (cw_client (ly_world s))"

text \<open>The calls the state machine refuses.\<close>

fun refused :: "client_world \<Rightarrow> life_pc \<Rightarrow> life_ev \<Rightarrow> bool" where
  "refused w pc (LE_Section ev) \<longleftrightarrow>
     (case ev of CE_StartInit _ \<Rightarrow> True | _ \<Rightarrow> False) \<and> pc = LP_Task P_Idle \<and>
     client_state (cw_client w) \<in> {CREATED, INITIALIZING, CONNECTING, CONNECTED, STOPPING, STOPPED}"
| "refused w pc (LE_InitClient _) \<longleftrightarrow> pc = LP_Task P_Idle \<and> client_state (cw_client w) \<notin> {CREATED, FAILED}"
| "refused w pc (LE_Deinit _) \<longleftrightarrow> pc = LP_Task P_Idle \<and> \<not> cl_rpc_callback (cw_client w) \<and>
     client_state (cw_client w) \<in> {CREATED, INITIALIZING, CONNECTING, STOPPING, STOPPED}"
| "refused w pc (LE_DeinitAnswer _ _ a) \<longleftrightarrow> pc = LP_Deinitializing \<and> a = None \<and>
     client_state (cw_client w) \<in> {CREATED, INITIALIZING, CONNECTING, STOPPING, STOPPED}"
| "refused w pc (LE_Stop _) \<longleftrightarrow> pc = LP_Task P_Idle \<and> client_state (cw_client w) \<notin> {CONNECTED, DISCONNECTED}"
| "refused w pc (LE_StopAnswer _ _) \<longleftrightarrow> False"

fun regular_life :: "life_ev \<Rightarrow> bool" where
  "regular_life (LE_Section ev) = regular ev"
| "regular_life (LE_InitClient _) = False"
| "regular_life (LE_Deinit _) = True"
| "regular_life (LE_DeinitAnswer _ _ a) = expected a"
| "regular_life (LE_Stop _) = False"
| "regular_life (LE_StopAnswer _ _) = False"

subsection \<open>Lemmas\<close>

text \<open>The world after a transition, with the facts that the sections need of it.\<close>

definition enter_state :: "client_state \<Rightarrow> string \<Rightarrow> failure_reason \<Rightarrow> client_world \<Rightarrow> client_world" where
  "enter_state target reason fr w =
     w\<lparr>cw_client := (cw_client w)\<lparr>cl_state_machine :=
       (cl_state_machine (cw_client w))\<lparr>csm_state := target,
         csm_failure_reason := (if target = FAILED then fr else if target \<in> {CONNECTED, INITIALIZED} then FR_NONE
                                else csm_failure_reason (cl_state_machine (cw_client w))),
         csm_failure_message := (if target = FAILED then reason else if target \<in> {CONNECTED, INITIALIZED} then []
                                 else csm_failure_message (cl_state_machine (cw_client w)))\<rparr>\<rparr>\<rparr>"

definition transition_outputs :: "time \<Rightarrow> client_state \<Rightarrow> string \<Rightarrow> client_world \<Rightarrow> client_output list" where
  "transition_outputs now target reason w =
     (let m = cl_state_machine (cw_client w)
      in map CO_Publish (client_emit_state_change now m (csm_state m) target (or_none reason)))"

lemma sm_transition_eq:
  "sm_transition now target reason fr w =
     (if target \<in> set (client_transitions (client_state (cw_client w)))
      then (enter_state target reason fr w, transition_outputs now target reason w, None)
      else (w, [], Some (CX_State (InvalidStateTransitionError (client_state (cw_client w)) target
              (csm_interface_id (cl_state_machine (cw_client w)))))))"
  by (simp add: sm_transition_def client_transition_to_def client_can_transition_to_def client_state_def
      enter_state_def transition_outputs_def client_emit_state_change_def Let_def)

lemma enter_state_sel [simp]:
  "client_state (cw_client (enter_state target reason fr w)) = target"
  "cw_devices (enter_state target reason fr w) = cw_devices w"
  "cl_rpc_callback (cw_client (enter_state target reason fr w)) = cl_rpc_callback (cw_client w)"
  "cl_modified_at (cw_client (enter_state target reason fr w)) = cl_modified_at (cw_client w)"
  "cl_reconnect_attempts (cw_client (enter_state target reason fr w)) = cl_reconnect_attempts (cw_client w)"
  "cl_connection_error_count (cw_client (enter_state target reason fr w)) = cl_connection_error_count (cw_client w)"
  "cl_interface_id (cw_client (enter_state target reason fr w)) = cl_interface_id (cw_client w)"
  "cl_subscribed (cw_client (enter_state target reason fr w)) = cl_subscribed (cw_client w)"
  "client_can_reconnect (cl_state_machine (cw_client (enter_state target reason fr w))) \<longleftrightarrow>
     RECONNECTING \<in> set (client_transitions target)"
  "csm_failure_reason (cl_state_machine (cw_client (enter_state FAILED reason fr w))) = fr"
  by (simp_all add: enter_state_def client_state_def client_can_reconnect_def)

lemma can_reconnect_state:
  "client_can_reconnect (cl_state_machine (cw_client w)) \<longleftrightarrow>
     RECONNECTING \<in> set (client_transitions (client_state (cw_client w)))"
  by (simp add: client_can_reconnect_def client_state_def)

lemma client_state_update [simp]:
  "client_state (c\<lparr>cl_ping_pong_tracker := pp\<rparr>) = client_state c"
  "client_state (c\<lparr>cl_reconnect_attempts := n\<rparr>) = client_state c"
  "client_state (c\<lparr>cl_connection_error_count := k\<rparr>) = client_state c"
  "client_state (c\<lparr>cl_reconnect_attempts := n, cl_connection_error_count := k\<rparr>) = client_state c"
  "client_state (c\<lparr>cl_is_callback_alive := b\<rparr>) = client_state c"
  "client_state (c\<lparr>cl_subscribed := b\<rparr>) = client_state c"
  "client_state (set_modified_at t mt c) = client_state c"
  by (simp_all add: client_state_def set_modified_at_def)

lemma set_modified_at_sel [simp]:
  "cl_rpc_callback (set_modified_at t mt c) = cl_rpc_callback c"
  "cl_reconnect_attempts (set_modified_at t mt c) = cl_reconnect_attempts c"
  "cl_interface_id (set_modified_at t mt c) = cl_interface_id c"
  "cl_connection_error_count (set_modified_at t mt c) = cl_connection_error_count c"
  "cl_modified_at (set_modified_at t mt c) = t"
  "cl_state_machine (set_modified_at t mt c) = cl_state_machine c"
  by (simp_all add: set_modified_at_def)

text \<open>
  Marking the devices as unavailable always reaches all of them; resetting the mark does nothing
  when the client is available.
\<close>

lemma mark_all_devices_false [simp]:
  "mark_all_devices now FORCE_FALSE w =
     (w\<lparr>cw_devices := fst (force_devices now (cl_interface_id (cw_client w)) FORCE_FALSE (cw_devices w))\<rparr>,
      map CO_Publish (snd (force_devices now (cl_interface_id (cw_client w)) FORCE_FALSE (cw_devices w))), None)"
  by (simp add: mark_all_devices_def case_prod_beta)

lemma mark_all_devices_available [simp]:
  "client_available (cw_client w) \<Longrightarrow> mark_all_devices now NOT_SET w = (w, [], None)"
  by (simp add: mark_all_devices_def)

lemma client_available_state: "client_available c \<longleftrightarrow> client_state c \<in> {CONNECTED, RECONNECTING}"
  by (simp add: client_available_def client_is_available_def client_state_def)

text \<open>
  What background events leave alone: the position of the task, the capabilities, the attempts, and
  every state but CONNECTED, which a failed check may turn into DISCONNECTED.
\<close>

definition same_task :: "client_world \<Rightarrow> client_world \<Rightarrow> bool" where
  "same_task w w' \<longleftrightarrow>
     cl_interface_id (cw_client w') = cl_interface_id (cw_client w) \<and>
     cl_rpc_callback (cw_client w') = cl_rpc_callback (cw_client w) \<and>
     cl_reconnect_attempts (cw_client w') = cl_reconnect_attempts (cw_client w) \<and>
     (client_state (cw_client w') = client_state (cw_client w) \<or>
      client_state (cw_client w) = CONNECTED \<and> client_state (cw_client w') = DISCONNECTED)"

lemma same_task_refl [simp]: "same_task w w"
  by (simp add: same_task_def)

lemma same_task_trans:
  "same_task w w' \<Longrightarrow> client_state (cw_client w) \<noteq> CONNECTED \<Longrightarrow> same_task w' w'' \<Longrightarrow> same_task w w''"
  by (auto simp: same_task_def)

lemma check_evaluate_effect:
  "same_task w (fst (fst (check_evaluate tc now mt w)))"
  "snd (snd (fst (check_evaluate tc now mt w))) = None"
  "cl_modified_at (cw_client (fst (fst (check_evaluate tc now mt w)))) = cl_modified_at (cw_client w)"
  by (cases "client_state (cw_client w) = CONNECTED"; simp add: check_evaluate_def same_task_def sm_transition_eq)+

lemma check_availability_effect:
  assumes "check_connection_availability dt mt a w = (r, w')"
  shows "same_task w w'" and "client_state (cw_client w') = client_state (cw_client w)"
    and "a \<noteq> Inr True \<Longrightarrow> cl_modified_at (cw_client w') \<in> {cl_modified_at (cw_client w), INIT_DATETIME}"
  using assms
  by (auto simp: check_connection_availability_def same_task_def split: sum.splits bool.splits if_splits)

lemma background_react:
  assumes "background ev"
  shows "\<exists>w' out e. client_react tc w pc ev = ((w', pc, None), out, e) \<and> same_task w w' \<and>
           (e = None \<or> (\<exists>x. e = Some (CX_Raised x))) \<and>
           (contact ev \<or> cl_modified_at (cw_client w') \<in> {cl_modified_at (cw_client w), INIT_DATETIME})"
proof (cases ev)
  case (CE_CheckBegin now token cs h)
  then show ?thesis
    by (auto simp: keep_pc_def check_begin_def same_task_def case_prod_beta Let_def split: prod.splits)
next
  case (CE_CheckEnd dt now mt a)
  obtain r w1 where a: "check_connection_availability dt mt a w = (r, w1)" by force
  note eff = check_availability_effect [OF a]
  show ?thesis
  proof (cases r)
    case (Inl e)
    with CE_CheckEnd a eff show ?thesis by (auto simp: keep_pc_def is_connected_end_def)
  next
    case (Inr ok)
    let ?w2 = "count_check ok w1"
    have w2: "same_task w ?w2" "client_state (cw_client ?w2) = client_state (cw_client w)"
      "cl_modified_at (cw_client ?w2) = cl_modified_at (cw_client w1)"
      using eff by (auto simp: count_check_def same_task_def)
    obtain w3 out b where ce: "check_evaluate tc now mt ?w2 = ((w3, out, None), b)"
      using check_evaluate_effect(2) [where tc = tc and now = now and mt = mt and w = ?w2] by (metis prod.collapse)
    have "same_task w w3" "cl_modified_at (cw_client w3) = cl_modified_at (cw_client w1)"
      using check_evaluate_effect(1,3) [where tc = tc and now = now and mt = mt and w = ?w2] w2 unfolding ce by (auto simp: same_task_def)
    with CE_CheckEnd a Inr ce eff show ?thesis
      by (auto simp: keep_pc_def is_connected_end_def)
  qed
next
  case (CE_Callback now mt)
  then show ?thesis by (simp add: keep_pc_def on_client_def same_task_def)
next
  case (CE_CallbackAlive now mt t)
  then show ?thesis
    by (auto simp: keep_pc_def is_callback_alive_def same_task_def Let_def split: option.splits)
next
  case (CE_Status st)
  then show ?thesis
    by (auto simp: keep_pc_def on_client_def on_system_status_event_def same_task_def split: option.splits)
qed (use assms in simp_all)

definition good_result :: "task_run \<Rightarrow> bool" where
  "good_result r \<longleftrightarrow>
     (case r of ((w, pc, _), _, e) \<Rightarrow>
        pc_ok pc (client_state (cw_client w)) \<and> (case e of Some (CX_State _) \<Rightarrow> False | _ \<Rightarrow> True))"

lemma good_result_simps [simp]:
  "good_result ((w, pc, r), out, None) = pc_ok pc (client_state (cw_client w))"
  "good_result ((w, pc, r), out, Some (CX_Raised x)) = pc_ok pc (client_state (cw_client w))"
  by (simp_all add: good_result_def)

lemmas section_defs =
  goto_def init_proxy_begin_def init_result_def finish_init_def init_proxy_listed_def init_proxy_added_def
  init_proxy_connected_def init_proxy_answered_def deinit_answered_def chain_task_def reinit_proxy_begin_def
  reinit_proxy_deinit_answered_def reconnect_begin_def on_client_def

lemma init_begin_good:
  "client_state (cw_client w) \<in> {INITIALIZED, DISCONNECTED, FAILED, RECONNECTING} \<Longrightarrow> good_result (init_proxy_begin now r w)"
  by (auto simp: good_result_def section_defs sm_transition_eq)

lemma init_connected_good:
  "client_state (cw_client w) = CONNECTING \<Longrightarrow> good_result (init_proxy_connected now mt r w)"
  by (simp add: good_result_def section_defs sm_transition_eq client_available_state)

lemma init_answered_good:
  assumes "client_state (cw_client w) = CONNECTING" and "expected a"
  shows "good_result (init_proxy_answered now mt r t a w)"
proof (cases "a = None \<or> cl_modified_at (cw_client w) > t")
  case True
  with assms init_connected_good [OF assms(1)] show ?thesis
    by (auto simp: init_proxy_answered_def expected_def split: option.splits)
next
  case False
  with assms show ?thesis
    by (auto simp: good_result_def section_defs sm_transition_eq expected_def split: option.splits)
qed

lemma chain_good:
  assumes "r = (w, out, None)" and "good_result (k w)"
  shows "good_result (chain_task r k)"
  using assms by (auto simp: chain_task_def good_result_def split: prod.splits)

lemma reconnect_begin_good:
  "client_state (cw_client w) \<in> {INITIALIZED, CONNECTED, DISCONNECTED, FAILED} \<Longrightarrow> good_result (reconnect_begin tc now w)"
  by (auto simp: good_result_def section_defs sm_transition_eq can_reconnect_state)

lemma reinit_begin_good:
  assumes "client_state (cw_client w) = RECONNECTING"
  shows "good_result (reinit_proxy_begin now w)"
proof (cases "cl_rpc_callback (cw_client w)")
  case True
  with assms show ?thesis
    by (auto simp: reinit_proxy_begin_def intro: init_begin_good)
next
  case False
  with assms show ?thesis
    by (simp add: reinit_proxy_begin_def sm_transition_eq chain_good [OF refl] init_begin_good)
qed

lemma deinit_answered_good:
  assumes "client_state (cw_client w) = RECONNECTING" and "expected a"
  shows "good_result (reinit_proxy_deinit_answered now mt a w)"
  using assms unfolding reinit_proxy_deinit_answered_def deinit_answered_def
  by (auto simp: expected_def sm_transition_eq on_client_def split: option.splits
      intro!: chain_good init_begin_good)

lemma init_listed_good:
  "client_state (cw_client w) = CONNECTING \<Longrightarrow> good_result (init_proxy_listed now r (Inr b) w)"
  by (cases b) (simp_all add: good_result_def section_defs sm_transition_eq)

lemma init_added_good:
  "client_state (cw_client w) = CONNECTING \<Longrightarrow> good_result (init_proxy_added now r None w)"
  by (simp add: good_result_def section_defs sm_transition_eq)

lemma client_react_good:
  assumes ok: "pc_ok pc (client_state (cw_client w))" and reg: "regular ev"
  shows "good_result (client_react tc w pc ev)"
proof (cases "background ev")
  case True
  from background_react [OF this, of tc w pc] ok show ?thesis
    by (cases pc) (auto simp: good_result_def same_task_def)
next
  case False
  have ignored: "good_result ((w, pc, None), [], None)"
    using ok by (simp add: good_result_def)
  from False reg ok ignored show ?thesis
    by (cases ev; cases pc)
      (auto simp: reconnect_begin_good reinit_begin_good deinit_answered_good init_listed_good init_added_good
        init_answered_good split: sum.splits)
qed

lemma background_step:
  assumes "background ev"
  shows "sy_pc (client_sys_step tc s ev) = sy_pc s" and "sy_returned (client_sys_step tc s ev) = sy_returned s"
    and "same_task (sy_world s) (sy_world (client_sys_step tc s ev))"
    and "\<not> contact ev \<Longrightarrow> cl_modified_at (cw_client (sy_world (client_sys_step tc s ev)))
           \<in> {cl_modified_at (cw_client (sy_world s)), INIT_DATETIME}"
  using background_react [OF assms, of tc "sy_world s" "sy_pc s"]
  by (auto simp: client_sys_step_def split: option.splits)

lemma background_run:
  assumes "list_all background bs" and "client_state (cw_client (sy_world s)) \<noteq> CONNECTED"
  shows "sy_pc (foldl (client_sys_step tc) s bs) = sy_pc s"
    and "sy_returned (foldl (client_sys_step tc) s bs) = sy_returned s"
    and "same_task (sy_world s) (sy_world (foldl (client_sys_step tc) s bs))"
    and "list_all (\<lambda>b. \<not> contact b) bs \<Longrightarrow>
           cl_modified_at (cw_client (sy_world (foldl (client_sys_step tc) s bs)))
             \<in> {cl_modified_at (cw_client (sy_world s)), INIT_DATETIME}"
  using assms
proof (induction bs rule: rev_induct)
  case (snoc b bs)
  { case 1 with snoc show ?case by (simp add: background_step) }
  { case 2 with snoc show ?case by (simp add: background_step) }
  { case 3 with snoc show ?case by (auto intro: same_task_trans background_step(3)) }
  { case 4 with snoc background_step(4) [where tc = tc and ev = b and s = "foldl (client_sys_step tc) s bs"] show ?case by auto }
qed simp_all

lemma regular_background: "background ev \<Longrightarrow> regular ev"
  by (cases ev) simp_all

text \<open>A client that waits in CONNECTING for nobody is left there by every event.\<close>

definition stuck_connecting :: "client_sys \<Rightarrow> bool" where
  "stuck_connecting s \<longleftrightarrow>
     sy_pc s = P_Idle \<and> client_state (cw_client (sy_world s)) = CONNECTING \<and> True \<notin> set (sy_returned s)"

lemma stuck_step: "stuck_connecting s \<Longrightarrow> stuck_connecting (client_sys_step tc s ev)"
proof (cases "background ev")
  case True
  with background_step [OF True, where tc = tc and s = s] show "stuck_connecting s \<Longrightarrow> ?thesis"
    by (auto simp: stuck_connecting_def same_task_def)
next
  case False
  then show "stuck_connecting s \<Longrightarrow> ?thesis"
    by (cases ev)
      (auto simp: stuck_connecting_def client_sys_step_def section_defs sm_transition_eq can_reconnect_state)
qed

interpretation stuck: step_system "client_sys_step tc" stuck_connecting "\<lambda>_. True" for tc
  by unfold_locales (rule stuck_step)

text \<open>
  The phases of a reconnect: \<open>phase pc st c0 q s\<close> says that the task is at \<open>pc\<close> in state \<open>st\<close>, has
  returned nothing yet, and still has the identity and the attempts of the client \<open>c0\<close> it started
  with; when nothing was heard of the backend (\<open>q\<close>), \<open>modified_at\<close> is not newer than what the task
  recorded.
\<close>

definition phase :: "client_pc \<Rightarrow> client_state \<Rightarrow> iface_client \<Rightarrow> bool \<Rightarrow> client_sys \<Rightarrow> bool" where
  "phase pc st c0 q s \<longleftrightarrow>
     (let c = cw_client (sy_world s) in
      sy_pc s = pc \<and> client_state c = st \<and> sy_returned s = [] \<and> cl_rpc_callback c \<and>
      cl_interface_id c = cl_interface_id c0 \<and> cl_reconnect_attempts c = cl_reconnect_attempts c0 \<and>
      (q \<longrightarrow> INIT_DATETIME \<le> cl_modified_at c \<and> (case pc of P_Init _ t \<Rightarrow> cl_modified_at c \<le> t | _ \<Rightarrow> True)))"

lemma phase_background:
  assumes "phase pc st c0 q s" and "st \<noteq> CONNECTED" and "list_all background bs"
    and "q \<Longrightarrow> list_all (\<lambda>b. \<not> contact b) bs"
  shows "phase pc st c0 q (foldl (client_sys_step tc) s bs)"
proof -
  have st: "client_state (cw_client (sy_world s)) \<noteq> CONNECTED"
    using assms(1,2) by (simp add: phase_def Let_def)
  note bg = background_run [OF assms(3) st, where tc = tc]
  have "q \<Longrightarrow> cl_modified_at (cw_client (sy_world (foldl (client_sys_step tc) s bs)))
           \<in> {cl_modified_at (cw_client (sy_world s)), INIT_DATETIME}"
    using bg(4) assms(4) by blast
  with bg(1-3) assms(1) st show ?thesis
    by (cases pc) (auto simp: phase_def Let_def same_task_def)
qed

lemma phase_reconnect:
  assumes "client_state (cw_client w) \<in> {INITIALIZED, CONNECTED, DISCONNECTED, FAILED}"
    and "cl_rpc_callback (cw_client w)" and "INIT_DATETIME \<le> cl_modified_at (cw_client w)"
  shows "phase (P_Sleeping (reconnect_delay tc (cl_reconnect_attempts (cw_client w)))) RECONNECTING (cw_client w) q
           (client_sys_step tc (client_start w) (CE_Reconnect t))"
  using assms
  by (auto simp: phase_def Let_def client_start_def client_sys_step_def section_defs sm_transition_eq
      can_reconnect_state)

lemma phase_wake:
  assumes "phase (P_Sleeping d) RECONNECTING c0 q s"
  shows "phase P_Deinit RECONNECTING c0 q (client_sys_step tc s (CE_Wake t)) \<or>
         (\<exists>m. phase (P_Init True m) CONNECTING c0 q (client_sys_step tc s (CE_Wake t)))"
  using assms
  by (auto simp: phase_def Let_def client_sys_step_def section_defs sm_transition_eq)

lemma phase_deinit:
  assumes "phase P_Deinit RECONNECTING c0 q s" and "expected d"
  shows "\<exists>m. phase (P_Init True m) CONNECTING c0 q (client_sys_step tc s (CE_DeinitAnswer t mt d))"
  using assms
  by (auto simp: phase_def Let_def client_sys_step_def section_defs sm_transition_eq expected_def split: option.splits)

lemma phase_ignores_deinit:
  "phase (P_Init True m) CONNECTING c0 q s \<Longrightarrow>
     phase (P_Init True m) CONNECTING c0 q (client_sys_step tc s (CE_DeinitAnswer t mt d))"
  by (simp add: phase_def Let_def client_sys_step_def)

definition reconnected :: "client_sys \<Rightarrow> bool" where
  "reconnected s \<longleftrightarrow>
     (let c = cw_client (sy_world s) in
      client_state c = CONNECTED \<and> sy_returned s = [True] \<and> cl_reconnect_attempts c = 0 \<and>
      cl_connection_error_count c = 0)"

definition reconnect_failed :: "exn option \<Rightarrow> iface_client \<Rightarrow> client_sys \<Rightarrow> bool" where
  "reconnect_failed a c0 s \<longleftrightarrow>
     (let c = cw_client (sy_world s) in
      client_state c = FAILED \<and> sy_returned s = [False] \<and>
      cl_reconnect_attempts c = cl_reconnect_attempts c0 + 1 \<and>
      Some (csm_failure_reason (cl_state_machine c)) = map_option exception_to_failure_reason a \<and>
      cl_modified_at c = INIT_DATETIME \<and> all_forced (cl_interface_id c0) FORCE_FALSE (cw_devices (sy_world s)))"

lemma phase_init_answer:
  assumes ph: "phase (P_Init True m) CONNECTING c0 q s" and ex: "expected a"
  shows "sy_pc (client_sys_step tc s (CE_InitAnswer t mt a)) = P_Idle \<and>
         (reconnected (client_sys_step tc s (CE_InitAnswer t mt a)) \<or>
          a \<noteq> None \<and> reconnect_failed a c0 (client_sys_step tc s (CE_InitAnswer t mt a))) \<and>
         (q \<longrightarrow> a \<noteq> None \<longrightarrow> reconnect_failed a c0 (client_sys_step tc s (CE_InitAnswer t mt a)))"
proof (cases a)
  case None
  with ph show ?thesis
    by (simp add: phase_def Let_def client_sys_step_def section_defs sm_transition_eq client_available_state
        reconnected_def)
next
  case (Some e)
  with ph ex show ?thesis
    by (auto simp: phase_def Let_def client_sys_step_def section_defs sm_transition_eq client_available_state
        reconnected_def reconnect_failed_def expected_def)
qed

text \<open>Connection checks only: the counter is the number of failures since the last success.\<close>

definition run_checks :: "timeout_config \<Rightarrow> time \<Rightarrow> bool list \<Rightarrow> client_world \<Rightarrow> client_world" where
  "run_checks tc now oks w = foldl (\<lambda>w ok. fst (fst (is_connected_end tc now now now (Inr ok) w))) w oks"

lemma run_checks_snoc [simp]:
  "run_checks tc now (oks @ [ok]) w = fst (fst (is_connected_end tc now now now (Inr ok) (run_checks tc now oks w)))"
  by (simp add: run_checks_def)

lemma check_result:
  "fst (fst (is_connected_end tc dt now mt (Inr ok) w)) = fst (fst (check_evaluate tc now mt (count_check ok
     (w\<lparr>cw_client := set_modified_at (if ok then dt else INIT_DATETIME) mt (cw_client w)\<rparr>))))"
  by (cases ok) (simp_all add: is_connected_end_def check_connection_availability_def)

lemma check_evaluate_result:
  "fst (fst (check_evaluate tc now mt w)) =
     (if cl_connection_error_count (cw_client w) > connectivity_error_threshold tc
      then let w' = w\<lparr>cw_devices := fst (force_devices now (cl_interface_id (cw_client w)) FORCE_FALSE (cw_devices w))\<rparr>
           in if client_state (cw_client w) = CONNECTED
              then enter_state DISCONNECTED ''connection check failed'' FR_NONE w' else w'
      else w)"
  by (simp add: check_evaluate_def sm_transition_eq Let_def)

definition too_many_failures :: "timeout_config \<Rightarrow> bool list \<Rightarrow> bool" where
  "too_many_failures tc oks \<longleftrightarrow>
     (\<exists>n \<le> length oks. int (length (since_last (\<lambda>ok. ok) (take n oks))) > connectivity_error_threshold tc)"

lemma too_many_failures_snoc:
  "too_many_failures tc (oks @ [ok]) \<longleftrightarrow>
     too_many_failures tc oks \<or> int (length (since_last (\<lambda>ok. ok) (oks @ [ok]))) > connectivity_error_threshold tc"
proof -
  have le: "n \<le> length (oks @ [ok]) \<longleftrightarrow> n \<le> length oks \<or> n = length (oks @ [ok])" for n
    by auto
  show ?thesis
    unfolding too_many_failures_def le by auto
qed

lemma run_checks_invariant:
  assumes "client_state (cw_client w) = CONNECTED" and "cl_connection_error_count (cw_client w) = 0"
    and "connectivity_error_threshold tc \<ge> 0"
  shows "cl_connection_error_count (cw_client (run_checks tc now oks w)) = int (length (since_last (\<lambda>ok. ok) oks)) \<and>
         cl_interface_id (cw_client (run_checks tc now oks w)) = cl_interface_id (cw_client w) \<and>
         client_state (cw_client (run_checks tc now oks w)) = (if too_many_failures tc oks then DISCONNECTED else CONNECTED) \<and>
         (if too_many_failures tc oks
          then all_forced (cl_interface_id (cw_client w)) FORCE_FALSE (cw_devices (run_checks tc now oks w))
          else cw_devices (run_checks tc now oks w) = cw_devices w)"
proof (induction oks rule: rev_induct)
  case Nil
  with assms show ?case
    by (simp add: run_checks_def too_many_failures_def)
next
  case (snoc ok oks)
  then show ?case
    by (simp add: check_result check_evaluate_result count_check_def Let_def too_many_failures_snoc)
qed

text \<open>
  The positions that fit a state, whatever the answers were; \<open>pc_ok\<close> is stricter for a task that does not run.
\<close>

fun life_fits :: "life_pc \<Rightarrow> client_state \<Rightarrow> bool" where
  "life_fits (LP_Task P_Idle) st = True"
| "life_fits (LP_Task p) st = pc_ok p st"
| "life_fits LP_Deinitializing st = True"
| "life_fits LP_Stopping st = (st = STOPPING)"

text \<open>What a section ends with: a position that fits the state, and an error of the state machine exactly if \<open>bad\<close>.\<close>

definition task_fits :: "bool \<Rightarrow> task_run \<Rightarrow> bool" where
  "task_fits bad r \<longleftrightarrow>
     (case r of ((w, pc, _), _, e) \<Rightarrow> life_fits (LP_Task pc) (client_state (cw_client w)) \<and> ((\<exists>x. e = Some (CX_State x)) \<longleftrightarrow> bad))"

lemma life_fits_pc: "life_fits (LP_Task p) st \<Longrightarrow> p \<noteq> P_Idle \<Longrightarrow> pc_ok p st"
  by (cases p) simp_all

lemma good_task_fits: "good_result r \<Longrightarrow> task_fits False r"
proof -
  assume g: "good_result r"
  obtain w pc b out e where r: "r = ((w, pc, b), out, e)" by (metis prod.collapse)
  have "life_fits (LP_Task pc) (client_state (cw_client w))"
    using g by (cases pc) (simp_all add: r good_result_def)
  with g show ?thesis
    by (auto simp: r good_result_def task_fits_def split: option.splits client_exn.splits)
qed

lemma idle_raised: "task_fits False ((w, P_Idle, b), out, Some (CX_Raised x))"
  by (simp add: task_fits_def)

lemma idle_begin:
  "task_fits (client_state (cw_client w) \<in> {CREATED, INITIALIZING, CONNECTING, CONNECTED, STOPPING, STOPPED}) (init_proxy_begin now r w)"
  by (cases "client_state (cw_client w)") (simp_all add: task_fits_def section_defs sm_transition_eq)

lemma idle_reconnect: "task_fits False (reconnect_begin tc now w)"
  by (cases "client_state (cw_client w)") (simp_all add: task_fits_def section_defs sm_transition_eq can_reconnect_state)

lemma react_fits:
  assumes ok: "life_fits (LP_Task p) (client_state (cw_client w))"
  shows "task_fits (refused w (LP_Task p) (LE_Section ev)) (client_react tc w p ev)"
proof (cases "background ev")
  case True
  then have "\<not> refused w (LP_Task p) (LE_Section ev)" by (cases ev) simp_all
  with background_react [OF True, of tc w p] ok show ?thesis
    by (cases p) (auto simp: task_fits_def same_task_def)
next
  case False
  show ?thesis
  proof (cases "p = P_Idle")
    case True
    with False idle_begin idle_reconnect ok show ?thesis
      by (cases ev) (auto simp: task_fits_def)
  next
    case busy: False
    then have pc: "pc_ok p (client_state (cw_client w))" using life_fits_pc ok by blast
    have no: "\<not> refused w (LP_Task p) (LE_Section ev)" using busy by simp
    have "task_fits False (client_react tc w p ev)"
    proof (cases "regular ev")
      case True
      from good_task_fits [OF client_react_good [OF pc this]] show ?thesis .
    next
      case irregular: False
      then show ?thesis
        using busy pc ok
        by (cases ev; cases p)
          (auto simp: task_fits_def expected_def init_proxy_answered_def init_proxy_listed_def init_proxy_added_def
            reinit_proxy_deinit_answered_def deinit_answered_def chain_task_def then_do_def split: option.splits sum.splits)
    qed
    with no show ?thesis by (simp del: refused.simps)
  qed
qed

definition life_inv :: "life_sys \<Rightarrow> bool" where
  "life_inv s \<longleftrightarrow> life_fits (ly_pc s) (ly_state s)"

definition step_fits :: "life_sys \<Rightarrow> bool \<Rightarrow> life_sys \<Rightarrow> bool" where
  "step_fits s bad s' \<longleftrightarrow> life_inv s' \<and> ((\<exists>x. ly_raised s' = ly_raised s @ [CX_State x]) \<longleftrightarrow> bad)"

lemma life_background:
  assumes "background ev"
  shows "\<exists>w' b out e. client_react tc w P_Idle ev = ((w', P_Idle, b), out, e) \<and> same_task w w' \<and> (\<forall>x. e \<noteq> Some (CX_State x))"
  using background_react [OF assms, of tc w P_Idle] by fastforce

lemma life_step_fits:
  assumes inv: "life_inv s"
  shows "step_fits s (refused (ly_world s) (ly_pc s) ev) (life_step tc s ev)"
proof (cases ev)
  case (LE_Section e)
  show ?thesis
  proof (cases "ly_pc s")
    case (LP_Task p)
    then have "task_fits (refused (ly_world s) (LP_Task p) ev) (client_react tc (ly_world s) p e)"
      using react_fits inv LE_Section by (simp add: life_inv_def)
    with LP_Task LE_Section show ?thesis
      by (auto simp: step_fits_def life_inv_def life_step_def task_fits_def split: prod.splits option.splits simp del: refused.simps)
  next
    case LP_Deinitializing
    with LE_Section life_background [of e tc "ly_world s"] show ?thesis
      by (auto simp: step_fits_def life_inv_def life_step_def life_ignored_def split: option.splits)
  next
    case LP_Stopping
    with LE_Section life_background [of e tc "ly_world s"] inv show ?thesis
      by (auto simp: step_fits_def life_inv_def life_step_def life_ignored_def same_task_def split: option.splits)
  qed
next
  case (LE_InitClient now)
  with inv show ?thesis
    by (cases "ly_state s")
      (auto simp: step_fits_def life_inv_def life_step_def life_ignored_def life_goto_def init_client_def sm_transition_eq)
next
  case (LE_Deinit now)
  with inv show ?thesis
    by (cases "ly_state s")
      (auto simp: step_fits_def life_inv_def life_step_def life_ignored_def life_goto_def sm_transition_eq)
next
  case (LE_DeinitAnswer now mt a)
  with inv show ?thesis
    by (cases "ly_state s"; cases a)
      (auto simp: step_fits_def life_inv_def life_step_def life_ignored_def life_goto_def deinit_answered_def on_client_def sm_transition_eq)
next
  case (LE_Stop now)
  have st: "client_state (cw_client w\<lparr>cl_subscribed := b\<rparr>) = client_state (cw_client w)" for w b by simp
  from LE_Stop inv show ?thesis
    by (cases "ly_state s")
      (auto simp: step_fits_def life_inv_def life_step_def life_ignored_def life_goto_def client_stop_begin_def sm_transition_eq)
next
  case (LE_StopAnswer now a)
  with inv show ?thesis
    by (cases a)
      (auto simp: step_fits_def life_inv_def life_step_def life_ignored_def life_goto_def client_stop_answered_def sm_transition_eq)
qed


interpretation whole: step_system "life_step tc" life_inv "\<lambda>_. True" for tc
  using life_step_fits by unfold_locales (simp add: step_fits_def)

text \<open>A stopped client stays stopped.\<close>

definition life_over :: "life_sys \<Rightarrow> bool" where
  "life_over s \<longleftrightarrow> ly_pc s \<in> {LP_Task P_Idle, LP_Deinitializing} \<and> ly_state s = STOPPED"

lemma life_over_section:
  assumes "life_over s"
  shows "life_over (life_step tc s (LE_Section e))"
proof (cases "background e")
  case True
  from life_background [OF this, of tc "ly_world s"] assms True show ?thesis
    by (auto simp: life_over_def life_step_def same_task_def)
next
  case False
  with assms show ?thesis
    by (cases e) (auto simp: life_over_def life_step_def life_ignored_def section_defs sm_transition_eq can_reconnect_state)
qed

lemma life_over_step: "life_over s \<Longrightarrow> life_over (life_step tc s ev)"
proof (cases ev)
  case (LE_Section e)
  then show "life_over s \<Longrightarrow> ?thesis" by (simp add: life_over_section)
next
  case (LE_DeinitAnswer now mt a)
  then show "life_over s \<Longrightarrow> ?thesis"
    by (cases a) (auto simp: life_over_def life_step_def life_ignored_def life_goto_def deinit_answered_def on_client_def sm_transition_eq)
qed (auto simp: life_over_def life_step_def life_ignored_def life_goto_def init_client_def client_stop_begin_def sm_transition_eq)

interpretation over: step_system "life_step tc" life_over "\<lambda>_. True" for tc
  by unfold_locales (rule life_over_step)

text \<open>The life of a client that was initialised, before it is stopped.\<close>

definition in_use :: "life_sys \<Rightarrow> bool" where
  "in_use s \<longleftrightarrow> (case ly_pc s of LP_Task p \<Rightarrow> pc_ok p (ly_state s) | LP_Deinitializing \<Rightarrow> pc_ok P_Idle (ly_state s) | LP_Stopping \<Rightarrow> False) \<and>
     (\<forall>x. CX_State x \<notin> set (ly_raised s))"

lemma good_pair: "good_result ((w, pc, b), out, e) \<longleftrightarrow> pc_ok pc (client_state (cw_client w)) \<and> (\<forall>x. e \<noteq> Some (CX_State x))"
  by (auto simp: good_result_def split: option.splits client_exn.splits)

lemma in_use_good:
  assumes "in_use s" and "ly_pc s = LP_Task p" and "good_result (client_react tc (ly_world s) p ev)"
  shows "in_use (life_step tc s (LE_Section ev))"
  using assms
  by (cases "client_react tc (ly_world s) p ev") (auto simp: in_use_def life_step_def good_pair split: option.splits)

lemma in_use_step:
  assumes use: "in_use s" and reg: "regular_life ev"
  shows "in_use (life_step tc s ev)"
proof (cases ev)
  case (LE_Section e)
  show ?thesis
  proof (cases "ly_pc s")
    case (LP_Task p)
    with use reg LE_Section client_react_good [of p "ly_world s" e tc] in_use_good [OF use LP_Task] show ?thesis
      by (simp add: in_use_def)
  next
    case LP_Deinitializing
    with LE_Section use life_background [of e tc "ly_world s"] show ?thesis
      by (auto simp: in_use_def life_step_def life_ignored_def same_task_def split: option.splits)
  qed (use use in \<open>simp add: in_use_def\<close>)
next
  case (LE_Deinit now)
  with use show ?thesis
    by (auto simp: in_use_def life_step_def life_ignored_def life_goto_def sm_transition_eq split: life_pc.splits)
next
  case (LE_DeinitAnswer now mt a)
  with use reg show ?thesis
    by (cases a)
      (auto simp: in_use_def life_step_def life_ignored_def life_goto_def deinit_answered_def on_client_def sm_transition_eq expected_def
        split: life_pc.splits)
qed (use use reg in \<open>simp_all add: life_step_def life_ignored_def in_use_def split: life_pc.splits\<close>)

interpretation in_use: step_system "life_step tc" in_use regular_life for tc
  by unfold_locales (rule in_use_step)

text \<open>What a reconnect does when no task runs.\<close>

lemma life_reconnect:
  assumes "ly_pc s = LP_Task P_Idle"
  shows "if ly_state s \<in> {INITIALIZED, CONNECTED, DISCONNECTED, FAILED}
    then ly_pc (life_step tc s (LE_Section (CE_Reconnect t))) =
           LP_Task (P_Sleeping (reconnect_delay tc (cl_reconnect_attempts (cw_client (ly_world s))))) \<and>
         ly_state (life_step tc s (LE_Section (CE_Reconnect t))) = RECONNECTING
    else life_step tc s (LE_Section (CE_Reconnect t)) = s\<lparr>ly_returned := ly_returned s @ [False]\<rparr>"
  using assms
  by (cases "ly_state s") (simp_all add: life_step_def section_defs sm_transition_eq can_reconnect_state)

subsection \<open>Properties\<close>



definition initialized_client :: client_world where
  "initialized_client =
     \<lparr>cw_client = (iface_client_init ''i'' HMIP_RF True True True)
        \<lparr>cl_state_machine := (client_sm_init ''i'' True)\<lparr>csm_state := INITIALIZED\<rparr>\<rparr>, cw_devices = []\<rparr>"




text \<open>
  Connection checks disconnect a client exactly at the threshold. A CONNECTED client whose error
  counter is 0 is DISCONNECTED after a sequence of check results exactly when at some point more than
  \<open>connectivity_error_threshold\<close> checks had failed in a row; then all devices of the interface are
  marked unavailable, and otherwise no device is touched. The counter is always the number of
  failures since the last success.
\<close>

theorem client_check_threshold:
  assumes "client_state (cw_client w) = CONNECTED" and "cl_connection_error_count (cw_client w) = 0"
    and "connectivity_error_threshold tc \<ge> 0"
  shows "let w' = run_checks tc now oks w
         in cl_connection_error_count (cw_client w') = int (length (since_last (\<lambda>ok. ok) oks)) \<and>
            client_state (cw_client w') = (if too_many_failures tc oks then DISCONNECTED else CONNECTED) \<and>
            (if too_many_failures tc oks
             then all_forced (cl_interface_id (cw_client w)) FORCE_FALSE (cw_devices w')
             else cw_devices w' = cw_devices w)"
  using run_checks_invariant [OF assms, of now oks] by (simp add: Let_def)

theorem client_check_threshold_witness:
  "let w = \<lparr>cw_client = iface_client_init ''i'' HMIP_RF True True True
              \<lparr>cl_state_machine := (client_sm_init ''i'' True)\<lparr>csm_state := CONNECTED\<rparr>\<rparr>, cw_devices = []\<rparr>
   in client_state (cw_client (run_checks default_timeout_config 9 [False, True, False, False] w)) = DISCONNECTED"
  using client_check_threshold [of "\<lparr>cw_client = iface_client_init ''i'' HMIP_RF True True True
              \<lparr>cl_state_machine := (client_sm_init ''i'' True)\<lparr>csm_state := CONNECTED\<rparr>\<rparr>, cw_devices = []\<rparr>"
      default_timeout_config 9 "[False, True, False, False]"]
  by (simp add: client_state_def iface_client_init_def default_timeout_config_def too_many_failures_def
      since_last_def Let_def exI [of _ "4 :: nat"])

text \<open>
  An exception that \<open>init_proxy\<close> does not handle leaves the client in CONNECTING for ever. When
  listing or adding the devices of a client without callbacks raises anything, or the initialisation
  of one with callbacks raises an exception from outside the library, the exception leaves the call
  and the client stays in CONNECTING; from then on no history of calls, reconnects included, moves it
  to another state or makes a call return True.
\<close>

theorem client_stuck_connecting:
  assumes "client_state (cw_client (sy_world s)) = CONNECTING" and "True \<notin> set (sy_returned s)"
    and "(\<exists>r. sy_pc s = P_Listing r \<and> ev = CE_ListAnswer t (Inl e)) \<or>
         (\<exists>r. sy_pc s = P_Adding r \<and> ev = CE_AddAnswer t (Some e)) \<or>
         (\<exists>r m. sy_pc s = P_Init r m \<and> ev = CE_InitAnswer t mt (Some e) \<and> \<not> isinstance e BaseHomematicException)"
  shows "let s' = foldl (client_sys_step tc) s (ev # es)
         in client_state (cw_client (sy_world s')) = CONNECTING \<and> sy_pc s' = P_Idle \<and> True \<notin> set (sy_returned s')"
proof -
  have "stuck_connecting (client_sys_step tc s ev)"
    using assms by (auto simp: stuck_connecting_def client_sys_step_def section_defs)
  from stuck.run_inv [OF this, of es] have "stuck_connecting (foldl (client_sys_step tc) s (ev # es))"
    by (simp add: list_all_iff)
  then show ?thesis
    by (simp add: stuck_connecting_def Let_def)
qed

theorem client_stuck_connecting_witness:
  "let w = \<lparr>cw_client = iface_client_init ''i'' CUXD False False True
              \<lparr>cl_state_machine := (client_sm_init ''i'' True)\<lparr>csm_state := CONNECTING\<rparr>\<rparr>, cw_devices = []\<rparr>;
       s = \<lparr>sy_world = w, sy_pc = P_Adding False, sy_raised = [], sy_returned = []\<rparr>;
       s' = foldl (client_sys_step default_timeout_config) s
              [CE_AddAnswer 1 (Some (new_exn ClientException ''x'')), CE_Reconnect 2]
   in client_state (cw_client (sy_world s')) = CONNECTING"
  using client_stuck_connecting [of "\<lparr>sy_world = \<lparr>cw_client = iface_client_init ''i'' CUXD False False True
              \<lparr>cl_state_machine := (client_sm_init ''i'' True)\<lparr>csm_state := CONNECTING\<rparr>\<rparr>, cw_devices = []\<rparr>,
              sy_pc = P_Adding False, sy_raised = [], sy_returned = []\<rparr>"
      "CE_AddAnswer 1 (Some (new_exn ClientException ''x''))" 1 "new_exn ClientException ''x''" 0
      default_timeout_config "[CE_Reconnect 2]"]
  by (simp add: client_state_def Let_def ex_bool_eq)

end
