(* ===== verification/Health.thy ===== *)
theory Health
  imports Client_State_Machine Central_State_Machine
begin

section \<open>Connection health (\<open>central/health.py\<close>)\<close>

text \<open>
  \<open>ConnectionHealth\<close> (one per client), \<open>CentralHealth\<close> (the dictionary of them with the cached
  central state) and \<open>HealthTracker\<close>, whose calls reach the entry of one interface and, when a
  state machine is attached, copy its state. The conversion to JSON (\<open>to_dict\<close>) is left out. The
  lemmas bound the health score and show what a tracker remembers of every history of calls.
\<close>

subsection \<open>The health of one connection\<close>

definition EVENT_STALENESS_THRESHOLD :: real where
  "EVENT_STALENESS_THRESHOLD = 300"

definition WEIGHT_STATE_MACHINE :: real where
  "WEIGHT_STATE_MACHINE = 4 / 10"

definition WEIGHT_CIRCUIT_BREAKERS :: real where
  "WEIGHT_CIRCUIT_BREAKERS = 3 / 10"

definition WEIGHT_RECENT_ACTIVITY :: real where
  "WEIGHT_RECENT_ACTIVITY = 3 / 10"

definition circuit_score :: "circuit_state option \<Rightarrow> real \<Rightarrow> real" where
  "circuit_score circuit weight =
     (case circuit of
        None \<Rightarrow> weight
      | Some CLOSED \<Rightarrow> weight
      | Some HALF_OPEN \<Rightarrow> weight * (33 / 100)
      | Some OPEN \<Rightarrow> 0)"

definition activity_score :: "time \<Rightarrow> time \<Rightarrow> real \<Rightarrow> real" where
  "activity_score now last_monotonic weight =
     (if last_monotonic \<le> 0 then 0
      else let age = now - last_monotonic in
        if age < 60 then weight
        else if age < 300 then weight * (66 / 100)
        else if age < 600 then weight * (33 / 100)
        else 0)"

record connection_health =
  ch_interface_id :: string
  ch_interface :: interface
  ch_client_state :: client_state
  ch_xml_rpc_circuit :: circuit_state
  ch_json_rpc_circuit :: "circuit_state option"
  ch_last_successful_request :: "time option"
  ch_last_failed_request :: "time option"
  ch_last_event_received :: "time option"
  ch_last_successful_request_monotonic :: time
  ch_last_failed_request_monotonic :: time
  ch_last_event_received_monotonic :: time
  ch_consecutive_failures :: nat
  ch_reconnect_attempts :: nat
  ch_last_reconnect_attempt :: "time option"
  ch_in_recovery :: bool

definition connection_health_init :: "string \<Rightarrow> interface \<Rightarrow> connection_health" where
  "connection_health_init interface_id iface =
     \<lparr>ch_interface_id = interface_id, ch_interface = iface, ch_client_state = CREATED,
      ch_xml_rpc_circuit = CLOSED, ch_json_rpc_circuit = None, ch_last_successful_request = None,
      ch_last_failed_request = None, ch_last_event_received = None,
      ch_last_successful_request_monotonic = 0, ch_last_failed_request_monotonic = 0,
      ch_last_event_received_monotonic = 0, ch_consecutive_failures = 0, ch_reconnect_attempts = 0,
      ch_last_reconnect_attempt = None, ch_in_recovery = False\<rparr>"

definition health_is_connected :: "connection_health \<Rightarrow> bool" where
  "health_is_connected h \<longleftrightarrow> ch_client_state h = CONNECTED"

definition can_receive_events :: "time \<Rightarrow> connection_health \<Rightarrow> bool" where
  "can_receive_events now h \<longleftrightarrow>
     (if \<not> health_is_connected h then False
      else if ch_last_event_received_monotonic h = 0 then False
      else now - ch_last_event_received_monotonic h < EVENT_STALENESS_THRESHOLD)"

definition health_score :: "time \<Rightarrow> connection_health \<Rightarrow> real" where
  "health_score now h =
     (let s0 = (if ch_client_state h = CONNECTED then WEIGHT_STATE_MACHINE
                else if ch_client_state h = RECONNECTING then WEIGHT_STATE_MACHINE * (1 / 2)
                else 0);
          xml_weight = WEIGHT_CIRCUIT_BREAKERS / 2;
          json_weight = WEIGHT_CIRCUIT_BREAKERS / 2;
          s1 = s0 + circuit_score (Some (ch_xml_rpc_circuit h)) xml_weight;
          s2 = s1 + circuit_score (ch_json_rpc_circuit h) json_weight;
          activity_weight = WEIGHT_RECENT_ACTIVITY / 2;
          s3 = s2 + activity_score now (ch_last_successful_request_monotonic h) activity_weight;
          s4 = s3 + activity_score now (ch_last_event_received_monotonic h) activity_weight
      in min s4 1)"

definition health_is_available :: "connection_health \<Rightarrow> bool" where
  "health_is_available h \<longleftrightarrow>
     ch_client_state h = CONNECTED \<and> ch_xml_rpc_circuit h = CLOSED \<and>
     (ch_json_rpc_circuit h = None \<or> ch_json_rpc_circuit h = Some CLOSED)"

definition health_is_degraded :: "connection_health \<Rightarrow> bool" where
  "health_is_degraded h \<longleftrightarrow>
     (if ch_client_state h \<notin> {CONNECTED, RECONNECTING} then False
      else ch_xml_rpc_circuit h \<noteq> CLOSED \<or>
           (ch_json_rpc_circuit h \<noteq> None \<and> ch_json_rpc_circuit h \<noteq> Some CLOSED))"

definition health_is_failed :: "connection_health \<Rightarrow> bool" where
  "health_is_failed h \<longleftrightarrow> ch_client_state h \<in> {FAILED, DISCONNECTED}"

text \<open>The recording operations read the wall clock (\<open>now\<close>) and the monotonic clock (\<open>mt\<close>).\<close>

definition health_record_event_received :: "time \<Rightarrow> time \<Rightarrow> connection_health \<Rightarrow> connection_health" where
  "health_record_event_received now mt h =
     h\<lparr>ch_last_event_received := Some now, ch_last_event_received_monotonic := mt\<rparr>"

definition health_record_failed_request :: "time \<Rightarrow> time \<Rightarrow> connection_health \<Rightarrow> connection_health" where
  "health_record_failed_request now mt h =
     h\<lparr>ch_last_failed_request := Some now, ch_last_failed_request_monotonic := mt,
       ch_consecutive_failures := ch_consecutive_failures h + 1\<rparr>"

definition health_record_reconnect_attempt :: "time \<Rightarrow> connection_health \<Rightarrow> connection_health" where
  "health_record_reconnect_attempt now h =
     h\<lparr>ch_reconnect_attempts := ch_reconnect_attempts h + 1, ch_last_reconnect_attempt := Some now\<rparr>"

definition health_record_successful_request :: "time \<Rightarrow> time \<Rightarrow> connection_health \<Rightarrow> connection_health" where
  "health_record_successful_request now mt h =
     h\<lparr>ch_last_successful_request := Some now, ch_last_successful_request_monotonic := mt,
       ch_consecutive_failures := 0\<rparr>"

definition health_reset_reconnect_counter :: "connection_health \<Rightarrow> connection_health" where
  "health_reset_reconnect_counter h = h\<lparr>ch_reconnect_attempts := 0\<rparr>"

definition health_update_from_client :: "client_sm \<Rightarrow> connection_health \<Rightarrow> connection_health" where
  "health_update_from_client client h = h\<lparr>ch_client_state := csm_state client\<rparr>"

subsection \<open>The health of the central\<close>

record central_health =
  cnh_central_state :: central_state
  cnh_client_health :: "(string, connection_health) dict"
  cnh_primary_interface :: "interface option"

definition central_health_init :: central_health where
  "central_health_init =
     \<lparr>cnh_central_state = C_STARTING, cnh_client_health = [], cnh_primary_interface = None\<rparr>"

definition all_clients_healthy :: "central_health \<Rightarrow> bool" where
  "all_clients_healthy c \<longleftrightarrow>
     (if cnh_client_health c = [] then False
      else list_all health_is_available (dict_values (cnh_client_health c)))"

definition any_client_healthy :: "central_health \<Rightarrow> bool" where
  "any_client_healthy c \<longleftrightarrow> list_ex health_is_available (dict_values (cnh_client_health c))"

definition degraded_clients :: "central_health \<Rightarrow> string list" where
  "degraded_clients c = map fst (filter (\<lambda>(iid, h). health_is_degraded h) (cnh_client_health c))"

definition failed_clients :: "central_health \<Rightarrow> string list" where
  "failed_clients c = map fst (filter (\<lambda>(iid, h). health_is_failed h) (cnh_client_health c))"

definition healthy_clients :: "central_health \<Rightarrow> string list" where
  "healthy_clients c = map fst (filter (\<lambda>(iid, h). health_is_available h) (cnh_client_health c))"

definition overall_health_score :: "central_health \<Rightarrow> real" where
  "overall_health_score c =
     (if cnh_client_health c = [] then 0
      else real (length (filter health_is_available (dict_values (cnh_client_health c)))) /
           real (length (cnh_client_health c)))"

definition primary_client_healthy :: "central_health \<Rightarrow> bool" where
  "primary_client_healthy c \<longleftrightarrow>
     (if cnh_client_health c = [] then False
      else
        let hs = dict_values (cnh_client_health c);
            p0 = (case cnh_primary_interface c of
                    None \<Rightarrow> None
                  | Some i \<Rightarrow> find (\<lambda>h. ch_interface h = i) hs);
            p1 = (case p0 of None \<Rightarrow> find (\<lambda>h. ch_interface h = HMIP_RF) hs | Some h \<Rightarrow> Some h);
            p2 = (case p1 of None \<Rightarrow> (case hs of [] \<Rightarrow> None | h # _ \<Rightarrow> Some h) | Some h \<Rightarrow> Some h)
        in case p2 of None \<Rightarrow> False | Some h \<Rightarrow> health_is_available h)"

definition get_client_health :: "string \<Rightarrow> central_health \<Rightarrow> connection_health option" where
  "get_client_health interface_id c = dict_get (cnh_client_health c) interface_id"

definition health_register_client :: "string \<Rightarrow> interface \<Rightarrow> central_health \<Rightarrow> central_health" where
  "health_register_client interface_id iface c =
     c\<lparr>cnh_client_health :=
         dict_set interface_id (connection_health_init interface_id iface) (cnh_client_health c)\<rparr>"

definition should_be_degraded :: "central_health \<Rightarrow> bool" where
  "should_be_degraded c \<longleftrightarrow> any_client_healthy c \<and> \<not> all_clients_healthy c"

definition should_be_running :: "central_health \<Rightarrow> bool" where
  "should_be_running c \<longleftrightarrow> all_clients_healthy c"

definition health_unregister_client :: "string \<Rightarrow> central_health \<Rightarrow> central_health" where
  "health_unregister_client interface_id c =
     c\<lparr>cnh_client_health := dict_del interface_id (cnh_client_health c)\<rparr>"

definition update_central_state :: "central_state \<Rightarrow> central_health \<Rightarrow> central_health" where
  "update_central_state state c = c\<lparr>cnh_central_state := state\<rparr>"

subsection \<open>The tracker\<close>

text \<open>
  The tracker holds references to the event bus and to the central's state machine. Whether they are
  attached is part of the record; the state the machine has at the time of a call is an argument.
\<close>

record health_tracker =
  ht_central_name :: string
  ht_event_bus :: bool
  ht_state_machine :: bool
  ht_central_health :: central_health

definition health_tracker_init :: "string \<Rightarrow> bool \<Rightarrow> bool \<Rightarrow> health_tracker" where
  "health_tracker_init central_name state_machine event_bus =
     \<lparr>ht_central_name = central_name, ht_event_bus = event_bus, ht_state_machine = state_machine,
      ht_central_health = central_health_init\<rparr>"

text \<open>A change of the health object that the dictionary holds for an interface, if there is one.\<close>

definition with_health :: "string \<Rightarrow> (connection_health \<Rightarrow> connection_health) \<Rightarrow> health_tracker \<Rightarrow> health_tracker" where
  "with_health interface_id f t =
     (case get_client_health interface_id (ht_central_health t) of
        None \<Rightarrow> t
      | Some h \<Rightarrow> t\<lparr>ht_central_health := (ht_central_health t)\<lparr>cnh_client_health :=
                     dict_set interface_id (f h) (cnh_client_health (ht_central_health t))\<rparr>\<rparr>)"

definition tracker_record_event_received :: "time \<Rightarrow> time \<Rightarrow> string \<Rightarrow> health_tracker \<Rightarrow> health_tracker" where
  "tracker_record_event_received now mt interface_id t =
     with_health interface_id (health_record_event_received now mt) t"

definition tracker_record_failed_request :: "time \<Rightarrow> time \<Rightarrow> string \<Rightarrow> health_tracker \<Rightarrow> health_tracker" where
  "tracker_record_failed_request now mt interface_id t =
     with_health interface_id (health_record_failed_request now mt) t"

definition tracker_record_successful_request :: "time \<Rightarrow> time \<Rightarrow> string \<Rightarrow> health_tracker \<Rightarrow> health_tracker" where
  "tracker_record_successful_request now mt interface_id t =
     with_health interface_id (health_record_successful_request now mt) t"

definition tracker_register_client :: "string \<Rightarrow> interface \<Rightarrow> health_tracker \<Rightarrow> health_tracker" where
  "tracker_register_client interface_id iface t =
     t\<lparr>ht_central_health := health_register_client interface_id iface (ht_central_health t)\<rparr>"

definition tracker_set_primary_interface :: "interface \<Rightarrow> health_tracker \<Rightarrow> health_tracker" where
  "tracker_set_primary_interface iface t =
     t\<lparr>ht_central_health := (ht_central_health t)\<lparr>cnh_primary_interface := Some iface\<rparr>\<rparr>"

definition tracker_set_state_machine :: "health_tracker \<Rightarrow> health_tracker" where
  "tracker_set_state_machine t = t\<lparr>ht_state_machine := True\<rparr>"

definition sync_central_state :: "central_state \<Rightarrow> health_tracker \<Rightarrow> health_tracker" where
  "sync_central_state machine_state t =
     (if ht_state_machine t
      then t\<lparr>ht_central_health := update_central_state machine_state (ht_central_health t)\<rparr>
      else t)"

definition tracker_unregister_client :: "string \<Rightarrow> health_tracker \<Rightarrow> health_tracker" where
  "tracker_unregister_client interface_id t =
     t\<lparr>ht_central_health := health_unregister_client interface_id (ht_central_health t)\<rparr>"

definition update_all_from_clients ::
  "central_state \<Rightarrow> (string, client_sm) dict \<Rightarrow> health_tracker \<Rightarrow> health_tracker" where
  "update_all_from_clients machine_state clients t =
     sync_central_state machine_state
       (foldl (\<lambda>t (interface_id, client). with_health interface_id (health_update_from_client client) t) t clients)"

definition emit_health_event :: "time \<Rightarrow> string \<Rightarrow> connection_health \<Rightarrow> health_tracker \<Rightarrow> event list" where
  "emit_health_event now interface_id h t =
     (if \<not> ht_event_bus t then []
      else
        let is_healthy = health_is_available h;
            reason = (if \<not> is_healthy
                      then if health_is_failed h then Some (''Client state: '' @ client_state_name (ch_client_state h))
                           else if health_is_degraded h then Some ''Degraded''
                           else None
                      else None)
        in [emit_health now (metric_key ''client'' ''health'' interface_id) is_healthy reason])"

definition health_state_change :: "time \<Rightarrow> client_state \<Rightarrow> client_state \<Rightarrow> connection_health \<Rightarrow> connection_health" where
  "health_state_change now old_state new_state h =
     (let h1 = h\<lparr>ch_client_state := new_state\<rparr>;
          h2 = (if new_state = RECONNECTING \<and> old_state \<noteq> RECONNECTING
                then health_record_reconnect_attempt now h1 else h1)
      in if new_state = CONNECTED then health_reset_reconnect_counter h2 else h2)"

definition update_client_health ::
  "time \<Rightarrow> central_state \<Rightarrow> string \<Rightarrow> client_state \<Rightarrow> client_state \<Rightarrow> health_tracker \<Rightarrow> health_tracker \<times> event list" where
  "update_client_health now machine_state interface_id old_state new_state t =
     (case get_client_health interface_id (ht_central_health t) of
        None \<Rightarrow> (sync_central_state machine_state t, [])
      | Some h \<Rightarrow>
          (sync_central_state machine_state (with_health interface_id (health_state_change now old_state new_state) t),
           emit_health_event now interface_id (health_state_change now old_state new_state h) t))"

subsection \<open>Histories of a tracker\<close>

datatype health_call =
    HC_Event time time string
  | HC_Failed time time string
  | HC_Successful time time string
  | HC_Register string interface
  | HC_Primary interface
  | HC_SetMachine
  | HC_Sync central_state
  | HC_Unregister string
  | HC_UpdateAll central_state "(string, client_sm) dict"
  | HC_Update time central_state string client_state client_state

fun tracker_step :: "health_tracker \<Rightarrow> health_call \<Rightarrow> health_tracker" where
  "tracker_step t (HC_Event now mt iid) = tracker_record_event_received now mt iid t"
| "tracker_step t (HC_Failed now mt iid) = tracker_record_failed_request now mt iid t"
| "tracker_step t (HC_Successful now mt iid) = tracker_record_successful_request now mt iid t"
| "tracker_step t (HC_Register iid iface) = tracker_register_client iid iface t"
| "tracker_step t (HC_Primary iface) = tracker_set_primary_interface iface t"
| "tracker_step t HC_SetMachine = tracker_set_state_machine t"
| "tracker_step t (HC_Sync st) = sync_central_state st t"
| "tracker_step t (HC_Unregister iid) = tracker_unregister_client iid t"
| "tracker_step t (HC_UpdateAll st clients) = update_all_from_clients st clients t"
| "tracker_step t (HC_Update now st iid old new) = fst (update_client_health now st iid old new t)"

text \<open>
  What a history says about one interface, read off the list of calls: the calls since the last
  registration, the client state announced last, and counts since the last resetting call.
\<close>

fun registers :: "string \<Rightarrow> health_call \<Rightarrow> bool" where
  "registers iid (HC_Register i _) = (i = iid)"
| "registers iid _ = False"

fun unregisters :: "string \<Rightarrow> health_call \<Rightarrow> bool" where
  "unregisters iid (HC_Unregister i) = (i = iid)"
| "unregisters iid _ = False"

fun announced :: "string \<Rightarrow> health_call \<Rightarrow> client_state option" where
  "announced iid (HC_UpdateAll _ clients) = map_option csm_state (map_of (rev clients) iid)"
| "announced iid (HC_Update _ _ i _ new) = (if i = iid then Some new else None)"
| "announced iid _ = None"

fun request_failed :: "string \<Rightarrow> health_call \<Rightarrow> bool" where
  "request_failed iid (HC_Failed _ _ i) = (i = iid)"
| "request_failed iid _ = False"

fun request_succeeded :: "string \<Rightarrow> health_call \<Rightarrow> bool" where
  "request_succeeded iid (HC_Successful _ _ i) = (i = iid)"
| "request_succeeded iid _ = False"

fun starts_reconnect :: "string \<Rightarrow> health_call \<Rightarrow> bool" where
  "starts_reconnect iid (HC_Update _ _ i old new) = (i = iid \<and> new = RECONNECTING \<and> old \<noteq> RECONNECTING)"
| "starts_reconnect iid _ = False"

fun reports_connected :: "string \<Rightarrow> health_call \<Rightarrow> bool" where
  "reports_connected iid (HC_Update _ _ i old new) = (i = iid \<and> new = CONNECTED)"
| "reports_connected iid _ = False"

definition is_registered :: "string \<Rightarrow> health_call list \<Rightarrow> bool" where
  "is_registered iid cs \<longleftrightarrow>
     (case rev (filter (\<lambda>c. registers iid c \<or> unregisters iid c) cs) of [] \<Rightarrow> False | c # _ \<Rightarrow> registers iid c)"

definition last_announced :: "string \<Rightarrow> health_call list \<Rightarrow> client_state" where
  "last_announced iid cs =
     last (CREATED # List.map_filter (announced iid) (since_last (registers iid) cs))"

subsection \<open>Lemmas\<close>

lemma circuit_score_bounds: "0 \<le> w \<Longrightarrow> 0 \<le> circuit_score c w \<and> circuit_score c w \<le> w"
  by (auto simp: circuit_score_def split: option.splits circuit_state.splits)

lemma activity_score_bounds: "0 \<le> w \<Longrightarrow> 0 \<le> activity_score now l w \<and> activity_score now l w \<le> w"
  by (auto simp: activity_score_def Let_def)

lemma circuit_score_max: "circuit_score c (3 / 20) = 3 / 20 \<longleftrightarrow> c = None \<or> c = Some CLOSED"
  by (auto simp: circuit_score_def split: option.splits circuit_state.splits)

lemma activity_score_max: "activity_score now l (3 / 20) = 3 / 20 \<longleftrightarrow> 0 < l \<and> now - l < 60"
  by (simp add: activity_score_def Let_def)

lemma get_with_health [simp]:
  "get_client_health iid (ht_central_health (with_health i f t)) =
     (if iid = i then map_option f (get_client_health iid (ht_central_health t))
      else get_client_health iid (ht_central_health t))"
  by (auto simp: with_health_def get_client_health_def split: option.splits)

lemma get_sync [simp]:
  "get_client_health iid (ht_central_health (sync_central_state st t)) = get_client_health iid (ht_central_health t)"
  by (simp add: sync_central_state_def update_central_state_def get_client_health_def)

lemma update_from_client_twice [simp]:
  "health_update_from_client c (health_update_from_client d h) = health_update_from_client c h"
  by (simp add: health_update_from_client_def)

lemma get_update_all:
  "get_client_health iid (ht_central_health
       (foldl (\<lambda>t (i, client). with_health i (health_update_from_client client) t) t clients)) =
     (case map_of (rev clients) iid of
        None \<Rightarrow> get_client_health iid (ht_central_health t)
      | Some c \<Rightarrow> map_option (health_update_from_client c) (get_client_health iid (ht_central_health t)))"
  by (induction clients rule: rev_induct)
    (auto simp: option.map_comp comp_def split: option.splits)

lemma get_update_client:
  "get_client_health iid (ht_central_health (fst (update_client_health now st i old new t))) =
     (if iid = i then map_option (health_state_change now old new) (get_client_health iid (ht_central_health t))
      else get_client_health iid (ht_central_health t))"
  by (auto simp: update_client_health_def split: option.splits)

lemma get_register [simp]:
  "get_client_health iid (ht_central_health (tracker_register_client i iface t)) =
     (if iid = i then Some (connection_health_init i iface) else get_client_health iid (ht_central_health t))"
  by (simp add: tracker_register_client_def health_register_client_def get_client_health_def)

lemma get_unregister [simp]:
  "get_client_health iid (ht_central_health (tracker_unregister_client i t)) =
     (if iid = i then None else get_client_health iid (ht_central_health t))"
  by (simp add: tracker_unregister_client_def health_unregister_client_def get_client_health_def)

lemma get_configure [simp]:
  "get_client_health iid (ht_central_health (tracker_set_primary_interface iface t)) =
     get_client_health iid (ht_central_health t)"
  "get_client_health iid (ht_central_health (tracker_set_state_machine t)) =
     get_client_health iid (ht_central_health t)"
  by (simp_all add: tracker_set_primary_interface_def tracker_set_state_machine_def get_client_health_def)

lemmas tracker_op_defs =
  tracker_record_event_received_def tracker_record_failed_request_def tracker_record_successful_request_def
  update_all_from_clients_def

definition health_matches :: "string \<Rightarrow> health_call list \<Rightarrow> connection_health \<Rightarrow> bool" where
  "health_matches iid cs h \<longleftrightarrow>
     ch_interface_id h = iid \<and>
     ch_client_state h = last_announced iid cs \<and>
     ch_consecutive_failures h =
       length (filter (request_failed iid) (since_last (\<lambda>c. registers iid c \<or> request_succeeded iid c) cs)) \<and>
     ch_reconnect_attempts h =
       length (filter (starts_reconnect iid) (since_last (\<lambda>c. registers iid c \<or> reports_connected iid c) cs)) \<and>
     ch_xml_rpc_circuit h = CLOSED \<and> ch_json_rpc_circuit h = None"

lemma is_registered_snoc [simp]:
  "is_registered iid (cs @ [c]) = (if registers iid c then True else if unregisters iid c then False else is_registered iid cs)"
  by (simp add: is_registered_def)

lemma last_announced_snoc [simp]:
  "last_announced iid (cs @ [c]) =
     (if registers iid c then CREATED else case announced iid c of None \<Rightarrow> last_announced iid cs | Some s \<Rightarrow> s)"
  by (simp add: last_announced_def List.map_filter_def split: option.splits)

lemma health_matches_init: "registers iid c \<Longrightarrow> health_matches iid (cs @ [c]) (connection_health_init iid iface)"
  by (simp add: health_matches_def connection_health_init_def)

text \<open>A call that neither registers nor unregisters the interface transforms its entry as follows.\<close>

fun call_effect :: "string \<Rightarrow> health_call \<Rightarrow> connection_health \<Rightarrow> connection_health" where
  "call_effect iid (HC_Event now mt i) h = (if i = iid then health_record_event_received now mt h else h)"
| "call_effect iid (HC_Failed now mt i) h = (if i = iid then health_record_failed_request now mt h else h)"
| "call_effect iid (HC_Successful now mt i) h = (if i = iid then health_record_successful_request now mt h else h)"
| "call_effect iid (HC_UpdateAll st clients) h =
     (case map_of (rev clients) iid of None \<Rightarrow> h | Some c \<Rightarrow> health_update_from_client c h)"
| "call_effect iid (HC_Update now st i old new) h = (if i = iid then health_state_change now old new h else h)"
| "call_effect iid _ h = h"

lemma get_tracker_step:
  "get_client_health iid (ht_central_health (tracker_step t c)) =
     (if registers iid c
      then Some (connection_health_init iid (case c of HC_Register _ i \<Rightarrow> i | _ \<Rightarrow> BIDCOS_RF))
      else if unregisters iid c then None
      else map_option (call_effect iid c) (get_client_health iid (ht_central_health t)))"
  by (cases "get_client_health iid (ht_central_health t)"; cases c)
    (auto simp: tracker_op_defs get_update_all get_update_client split: option.splits)

lemma call_effect_matches:
  assumes "health_matches iid cs h" and "\<not> registers iid c" and "\<not> unregisters iid c"
  shows "health_matches iid (cs @ [c]) (call_effect iid c h)"
  using assms
  by (cases c)
    (auto simp: health_matches_def health_record_event_received_def health_record_failed_request_def
      health_record_successful_request_def health_update_from_client_def health_state_change_def
      health_record_reconnect_attempt_def health_reset_reconnect_counter_def Let_def
      split: option.splits)

lemma tracker_history_aux:
  "case get_client_health iid (ht_central_health (foldl tracker_step (health_tracker_init name sm bus) cs)) of
     None \<Rightarrow> \<not> is_registered iid cs
   | Some h \<Rightarrow> is_registered iid cs \<and> health_matches iid cs h"
proof (induction cs rule: rev_induct)
  case Nil
  then show ?case
    by (simp add: health_tracker_init_def central_health_init_def get_client_health_def is_registered_def)
next
  case (snoc c cs)
  let ?t = "foldl tracker_step (health_tracker_init name sm bus) cs"
  show ?case
  proof (cases "registers iid c \<or> unregisters iid c")
    case True
    then show ?thesis
      by (cases "registers iid c") (simp_all add: get_tracker_step health_matches_init)
  next
    case False
    then show ?thesis
      using snoc.IH
      by (cases "get_client_health iid (ht_central_health ?t)")
        (simp_all add: get_tracker_step call_effect_matches)
  qed
qed

lemma health_score_max_iff:
  "health_score now h = 1 \<longleftrightarrow>
     health_is_available h \<and>
     0 < ch_last_successful_request_monotonic h \<and> now - ch_last_successful_request_monotonic h < 60 \<and>
     0 < ch_last_event_received_monotonic h \<and> now - ch_last_event_received_monotonic h < 60"
proof -
  let ?s0 = "(if ch_client_state h = CONNECTED then WEIGHT_STATE_MACHINE
              else if ch_client_state h = RECONNECTING then WEIGHT_STATE_MACHINE * (1 / 2) else 0)"
  let ?x = "circuit_score (Some (ch_xml_rpc_circuit h)) (3 / 20)" and ?j = "circuit_score (ch_json_rpc_circuit h) (3 / 20)"
  let ?r = "activity_score now (ch_last_successful_request_monotonic h) (3 / 20)"
    and ?e = "activity_score now (ch_last_event_received_monotonic h) (3 / 20)"
  have score: "health_score now h = min (?s0 + ?x + ?j + ?r + ?e) 1"
    by (simp add: health_score_def Let_def WEIGHT_CIRCUIT_BREAKERS_def WEIGHT_RECENT_ACTIVITY_def)
  have s0: "?s0 \<le> 4 / 10" "?s0 = 4 / 10 \<longleftrightarrow> ch_client_state h = CONNECTED"
    by (simp_all add: WEIGHT_STATE_MACHINE_def)
  have bounds: "?x \<le> 3 / 20" "?j \<le> 3 / 20" "?r \<le> 3 / 20" "?e \<le> 3 / 20"
    using circuit_score_bounds [of "3 / 20"] activity_score_bounds [of "3 / 20"] by auto
  have "health_score now h = 1 \<longleftrightarrow> ?s0 = 4 / 10 \<and> ?x = 3 / 20 \<and> ?j = 3 / 20 \<and> ?r = 3 / 20 \<and> ?e = 3 / 20"
    unfolding score min_def using s0(1) bounds by argo
  then show ?thesis
    unfolding s0(2) circuit_score_max activity_score_max by (auto simp: health_is_available_def)
qed

subsection \<open>Properties\<close>

text \<open>
  C34: Over every history of tracker calls, an interface has an entry exactly when it was registered
  and not unregistered since, and the entry is what the history says: the client state announced
  last since the registration, the number of failed requests since the last successful one, the
  number of reconnects started since the client was last reported connected. No call ever changes
  the recorded circuit breaker states, so an entry is available exactly when its client is CONNECTED
  and is never degraded, whatever the breakers do.
\<close>

theorem health_tracker_history:
  "case get_client_health iid (ht_central_health (foldl tracker_step (health_tracker_init name sm bus) cs)) of
     None \<Rightarrow> \<not> is_registered iid cs
   | Some h \<Rightarrow>
       is_registered iid cs \<and>
       ch_client_state h = last_announced iid cs \<and>
       ch_consecutive_failures h =
         length (filter (request_failed iid) (since_last (\<lambda>c. registers iid c \<or> request_succeeded iid c) cs)) \<and>
       ch_reconnect_attempts h =
         length (filter (starts_reconnect iid) (since_last (\<lambda>c. registers iid c \<or> reports_connected iid c) cs)) \<and>
       (health_is_available h \<longleftrightarrow> last_announced iid cs = CONNECTED) \<and> \<not> health_is_degraded h"
  using tracker_history_aux [where iid = iid and name = name and sm = sm and bus = bus and cs = cs]
  by (auto simp: health_matches_def health_is_available_def health_is_degraded_def split: option.splits)

text \<open>
  The health score lies between 0 and 1, and it is 1 exactly for an available client with a
  successful request and an event within the last minute; the overall score of the central lies
  between 0 and 1 and is 1 exactly when the central should be running, and 0 exactly when no client
  is healthy; of RUNNING and DEGRADED at most one applies, and none exactly when no client is healthy.
\<close>

theorem health_scores:
  "0 \<le> health_score now h \<and> health_score now h \<le> 1 \<and>
   (health_score now h = 1 \<longleftrightarrow>
      health_is_available h \<and>
      0 < ch_last_successful_request_monotonic h \<and> now - ch_last_successful_request_monotonic h < 60 \<and>
      0 < ch_last_event_received_monotonic h \<and> now - ch_last_event_received_monotonic h < 60) \<and>
   0 \<le> overall_health_score c \<and> overall_health_score c \<le> 1 \<and>
   (overall_health_score c = 1 \<longleftrightarrow> should_be_running c) \<and>
   (overall_health_score c = 0 \<longleftrightarrow> \<not> should_be_running c \<and> \<not> should_be_degraded c) \<and>
   \<not> (should_be_running c \<and> should_be_degraded c)"
proof -
  let ?hs = "dict_values (cnh_client_health c)"
  have len: "length ?hs = length (cnh_client_health c)" and emp: "?hs = [] \<longleftrightarrow> cnh_client_health c = []"
    by (simp_all add: dict_values_def)
  have le: "length (filter health_is_available ?hs) \<le> length ?hs"
    by (rule length_filter_le)
  have all: "length (filter health_is_available ?hs) = length ?hs \<longleftrightarrow> list_all health_is_available ?hs"
    by (metis filter_id_conv length_filter_less list_all_iff nat_less_le)
  have none: "length (filter health_is_available ?hs) = 0 \<longleftrightarrow> \<not> list_ex health_is_available ?hs"
    by (simp add: filter_empty_conv list_ex_iff)
  have any: "list_all health_is_available ?hs \<Longrightarrow> ?hs \<noteq> [] \<Longrightarrow> list_ex health_is_available ?hs"
    by (cases ?hs) auto
  have one: "overall_health_score c = 1 \<longleftrightarrow> should_be_running c"
    using all emp len
    by (auto simp: overall_health_score_def should_be_running_def all_clients_healthy_def)
  have zero: "overall_health_score c = 0 \<longleftrightarrow> \<not> should_be_running c \<and> \<not> should_be_degraded c"
    using none any emp
    by (auto simp: overall_health_score_def should_be_running_def should_be_degraded_def
        all_clients_healthy_def any_client_healthy_def)
  have rng: "0 \<le> overall_health_score c \<and> overall_health_score c \<le> 1"
    using le len by (auto simp: overall_health_score_def divide_le_eq_1)
  have nonneg: "0 \<le> health_score now h" and upper: "health_score now h \<le> 1"
    using circuit_score_bounds [of "WEIGHT_CIRCUIT_BREAKERS / 2"] activity_score_bounds [of "WEIGHT_RECENT_ACTIVITY / 2"]
    by (auto simp: health_score_def Let_def WEIGHT_STATE_MACHINE_def WEIGHT_CIRCUIT_BREAKERS_def
        WEIGHT_RECENT_ACTIVITY_def add_nonneg_nonneg)
  show ?thesis
    using one zero rng nonneg upper health_score_max_iff [of now h]
    by (auto simp: should_be_running_def should_be_degraded_def)
qed

end
