(* ===== verification/Client_Coordinator.thy ===== *)
theory Client_Coordinator
  imports Interface_Client Health Recovery_Stages
begin

section \<open>The client coordinator (\<open>central/coordinators/client.py\<close>)\<close>

text \<open>
  The dictionary of clients with its queries, the creation of clients at startup with its retries,
  the initialisation, and the shutdown. A client object is a numbered entry of the dictionary: the
  cached primary client is a reference to such a number, so that a client that is gone can be told
  from a new one of the same interface. The clients of a \<open>gather\<close> are processed in the order of
  their configurations; their answers are inputs.
\<close>

subsection \<open>State and queries\<close>

record client_coord =
  cc_central_name :: string
  cc_clients :: "(string, nat \<times> iface_client) dict"
  cc_next :: nat \<comment> \<open>number of the next client object\<close>
  cc_clients_started :: bool
  cc_primary_client :: "(nat \<times> interface) option"
  cc_last_failure_reason :: failure_reason
  cc_last_failure_interface_id :: "string option"
  cc_health_subscribed :: bool
  cc_tracker :: health_tracker
  cc_configs :: "interface_config list" \<comment> \<open>the enabled interface configurations\<close>

definition client_coord_init :: "string \<Rightarrow> health_tracker \<Rightarrow> interface_config list \<Rightarrow> client_coord" where
  "client_coord_init name tracker configs =
     \<lparr>cc_central_name = name, cc_clients = [], cc_next = 0, cc_clients_started = False,
      cc_primary_client = None, cc_last_failure_reason = FR_NONE, cc_last_failure_interface_id = None,
      cc_health_subscribed = True, cc_tracker = tracker, cc_configs = configs\<rparr>"

definition coord_clients :: "client_coord \<Rightarrow> iface_client list" where
  "coord_clients c = map snd (dict_values (cc_clients c))"

definition all_clients_active :: "client_coord \<Rightarrow> bool" where
  "all_clients_active c \<longleftrightarrow>
     (let count_client = length (cc_clients c) in count_client > 0 \<and> count_client = length (cc_configs c))"

definition coord_available :: "client_coord \<Rightarrow> bool" where
  "coord_available c \<longleftrightarrow> list_all client_available (coord_clients c)"

definition has_clients :: "client_coord \<Rightarrow> bool" where
  "has_clients c \<longleftrightarrow> length (cc_clients c) > 0"

definition interface_ids :: "client_coord \<Rightarrow> string set" where
  "interface_ids c = set (dict_keys (cc_clients c))"

definition poll_clients :: "client_coord \<Rightarrow> iface_client list" where
  "poll_clients c = filter (\<lambda>cl. \<not> cl_push_updates cl) (coord_clients c)"

definition has_client :: "string \<Rightarrow> client_coord \<Rightarrow> bool" where
  "has_client iid c \<longleftrightarrow> iid \<in> set (dict_keys (cc_clients c))"

datatype get_client_error = No_Parameter | Interface_Missing string | Interface_Type_Missing interface

definition get_client :: "string option \<Rightarrow> interface option \<Rightarrow> client_coord \<Rightarrow> get_client_error + iface_client" where
  "get_client interface_id iface c =
     (case (interface_id, iface) of
        (None, None) \<Rightarrow> Inl No_Parameter
      | (Some iid, _) \<Rightarrow>
          (case dict_get (cc_clients c) iid of None \<Rightarrow> Inl (Interface_Missing iid) | Some (_, cl) \<Rightarrow> Inr cl)
      | (None, Some i) \<Rightarrow>
          (case find (\<lambda>cl. cl_interface cl = i) (coord_clients c) of
             None \<Rightarrow> Inl (Interface_Type_Missing i) | Some cl \<Rightarrow> Inr cl))"

text \<open>
  \<open>_get_primary_client\<close>: the first available client of a candidate interface. The loop variable
  keeps the last client when no one qualifies, and that client is returned.
\<close>

definition get_primary_client :: "client_coord \<Rightarrow> (nat \<times> iface_client) option" where
  "get_primary_client c =
     (case find (\<lambda>(n, cl). primary_client_candidate (cl_interface cl) \<and> client_available cl) (dict_values (cc_clients c)) of
        Some p \<Rightarrow> Some p
      | None \<Rightarrow> (if cc_clients c = [] then None else Some (last (dict_values (cc_clients c)))))"

definition primary_client :: "client_coord \<Rightarrow> (nat \<times> interface) option \<times> client_coord" where
  \<comment> \<open>the property caches what it finds\<close>
  "primary_client c =
     (case cc_primary_client c of
        Some p \<Rightarrow> (Some p, c)
      | None \<Rightarrow>
          (case get_primary_client c of
             Some (n, cl) \<Rightarrow> (Some (n, cl_interface cl), c\<lparr>cc_primary_client := Some (n, cl_interface cl)\<rparr>)
           | None \<Rightarrow> (None, c)))"

definition on_health_record_event :: "time \<Rightarrow> time \<Rightarrow> string \<Rightarrow> bool \<Rightarrow> client_coord \<Rightarrow> client_coord" where
  "on_health_record_event now mt interface_id success c =
     (if success then c\<lparr>cc_tracker := tracker_record_successful_request now mt interface_id (cc_tracker c)\<rparr>
      else c\<lparr>cc_tracker := tracker_record_failed_request now mt interface_id (cc_tracker c)\<rparr>)"

subsection \<open>Creation with retries\<close>

definition startup_retry_delay :: "timeout_config \<Rightarrow> nat \<Rightarrow> time" where
  "startup_retry_delay tc attempt =
     min (startup_init_retry_delay tc * reconnect_backoff_factor tc ^ (attempt - 1)) (startup_max_init_retry_delay tc)"

text \<open>
  \<open>_wait_for_tcp_ready\<close>: the time limit is checked before each probe, a probe takes some time and a
  failed one is followed by the interval. \<open>None\<close> means that a further probe is awaited.
\<close>

fun wait_for_tcp_ready :: "time \<Rightarrow> time \<Rightarrow> time \<Rightarrow> (bool \<times> time) list \<Rightarrow> bool option" where
  "wait_for_tcp_ready max_wait check_interval elapsed [] = (if elapsed < max_wait then None else Some False)"
| "wait_for_tcp_ready max_wait check_interval elapsed ((ready, duration) # probes) =
     (if elapsed < max_wait
      then if ready then Some True
           else wait_for_tcp_ready max_wait check_interval (elapsed + duration + check_interval) probes
      else Some False)"

datatype create_answer = Created iface_client | Not_Created | Create_Raised exn

datatype create_outcome =
    Client_Created iface_client
  | Create_Failed failure_reason
  | Create_Exhausted \<comment> \<open>the loop ended without a client and without a recorded failure\<close>
  | Create_Propagates exn

text \<open>
  The loop of \<open>_create_client\<close> over the attempts \<open>attempt .. max\<close>, with the answer of each attempt
  and the delays slept so far.
\<close>

fun create_attempts ::
  "timeout_config \<Rightarrow> nat \<Rightarrow> nat \<Rightarrow> create_answer list \<Rightarrow> time list \<Rightarrow> (create_outcome \<times> time list) option" where
  "create_attempts tc max_attempts attempt answers slept =
     (if attempt > max_attempts then Some (Create_Exhausted, slept)
      else case answers of
             [] \<Rightarrow> None
           | Created cl # _ \<Rightarrow> Some (Client_Created cl, slept)
           | Not_Created # rest \<Rightarrow> create_attempts tc max_attempts (attempt + 1) rest slept
           | Create_Raised e # rest \<Rightarrow>
               if isinstance e AuthFailure
               then if attempt < max_attempts
                    then create_attempts tc max_attempts (attempt + 1) rest (slept @ [startup_retry_delay tc attempt])
                    else Some (Create_Failed FR_AUTH, slept)
               else if isinstance e BaseHomematicException
               then Some (Create_Failed (exception_to_failure_reason e), slept)
               else Some (Create_Propagates e, slept))"

definition record_failure :: "failure_reason \<Rightarrow> string \<Rightarrow> client_coord \<Rightarrow> client_coord" where
  "record_failure fr iid c = c\<lparr>cc_last_failure_reason := fr, cc_last_failure_interface_id := Some iid\<rparr>"

definition add_client :: "iface_client \<Rightarrow> client_coord \<Rightarrow> client_coord" where
  "add_client cl c =
     c\<lparr>cc_clients := dict_set (cl_interface_id cl) (cc_next c, cl) (cc_clients c), cc_next := cc_next c + 1,
       cc_tracker := tracker_register_client (cl_interface_id cl) (cl_interface cl) (cc_tracker c)\<rparr>"

text \<open>
  \<open>_create_client\<close>: an interface with a port (not zero) is probed first. The result says whether the
  client was created; \<open>None\<close> stands for an answer still awaited or an exception that propagates.
\<close>

definition create_client ::
  "timeout_config \<Rightarrow> interface_config \<Rightarrow> (bool \<times> time) list \<Rightarrow> create_answer list \<Rightarrow> client_coord \<Rightarrow> bool option \<times> client_coord" where
  "create_client tc config probes answers c =
     (let max_attempts = nat (startup_max_init_attempts tc);
          needs_tcp = (max_attempts \<ge> 1 \<and> ic_port config \<noteq> None \<and> ic_port config \<noteq> Some 0);
          tcp = (if needs_tcp then wait_for_tcp_ready (reconnect_tcp_check_timeout tc) (reconnect_tcp_check_interval tc) 0 probes
                 else Some True)
      in case tcp of
           None \<Rightarrow> (None, c)
         | Some False \<Rightarrow> (Some False, record_failure FR_NETWORK (ic_interface_id config) c)
         | Some True \<Rightarrow>
             (case create_attempts tc max_attempts 1 answers [] of
                None \<Rightarrow> (None, c)
              | Some (Client_Created cl, _) \<Rightarrow> (Some True, add_client cl c)
              | Some (Create_Failed fr, _) \<Rightarrow> (Some False, record_failure fr (ic_interface_id config) c)
              | Some (Create_Exhausted, _) \<Rightarrow> (Some False, c)
              | Some (Create_Propagates e, _) \<Rightarrow> (None, c)))"

text \<open>
  \<open>_create_clients\<close>: refused when clients exist or none is configured; the JSON port is probed; the
  candidates for the primary client come first; of the others those that the primary client's backend
  does not offer are disabled. \<open>ans\<close> gives the probes and answers of an interface, \<open>offers\<close> the
  interfaces of the primary client's system information.
\<close>

fun create_in_order ::
  "timeout_config \<Rightarrow> (interface_config \<Rightarrow> (bool \<times> time) list \<times> create_answer list) \<Rightarrow> interface_config list \<Rightarrow>
   client_coord \<Rightarrow> bool \<times> client_coord" where
  \<comment> \<open>one after the other, up to the first that does not return\<close>
  "create_in_order tc ans [] c = (True, c)"
| "create_in_order tc ans (config # configs) c =
     (case create_client tc config (fst (ans config)) (snd (ans config)) c of
        (None, c1) \<Rightarrow> (False, c1)
      | (Some _, c1) \<Rightarrow> create_in_order tc ans configs c1)"

fun create_gathered ::
  "timeout_config \<Rightarrow> (interface_config \<Rightarrow> (bool \<times> time) list \<times> create_answer list) \<Rightarrow> interface_config list \<Rightarrow>
   client_coord \<Rightarrow> bool \<times> client_coord" where
  \<comment> \<open>all of them; asyncio.gather returns when all returned\<close>
  "create_gathered tc ans [] c = (True, c)"
| "create_gathered tc ans (config # configs) c =
     (case create_client tc config (fst (ans config)) (snd (ans config)) c of
        (r, c1) \<Rightarrow> (case create_gathered tc ans configs c1 of (ok, c2) \<Rightarrow> (r \<noteq> None \<and> ok, c2)))"

definition create_secondary ::
  "timeout_config \<Rightarrow> (interface_config \<Rightarrow> (bool \<times> time) list \<times> create_answer list) \<Rightarrow> (interface \<Rightarrow> bool) \<Rightarrow>
   client_coord \<Rightarrow> bool \<times> client_coord" where
  "create_secondary tc ans offers c =
     (let secondary = filter (\<lambda>ic. \<not> primary_client_candidate (ic_interface ic)) (cc_configs c);
          (primary, c1) = (if secondary = [] then (None, c) else primary_client c);
          usable = (\<lambda>ic. primary = None \<or> offers (ic_interface ic));
          c2 = c1\<lparr>cc_configs := filter (\<lambda>ic. primary_client_candidate (ic_interface ic) \<or> usable ic) (cc_configs c1)\<rparr>
      in create_gathered tc ans (filter usable secondary) c2)"

definition create_clients ::
  "timeout_config \<Rightarrow> int option \<Rightarrow> (bool \<times> time) list \<Rightarrow>
   (interface_config \<Rightarrow> (bool \<times> time) list \<times> create_answer list) \<Rightarrow> (interface \<Rightarrow> bool) \<Rightarrow>
   client_coord \<Rightarrow> bool option \<times> client_coord" where
  "create_clients tc json_port json_probes ans offers c =
     (if cc_clients c \<noteq> [] then (Some False, c)
      else if cc_configs c = [] then (Some False, c)
      else
        let json = (case json_port of
                      Some p \<Rightarrow> if p > 0 then wait_for_tcp_ready (reconnect_tcp_check_timeout tc) (reconnect_tcp_check_interval tc) 0 json_probes
                                else Some True
                    | None \<Rightarrow> Some True)
        in case json of
             None \<Rightarrow> (None, c)
           | Some False \<Rightarrow> (Some False, c\<lparr>cc_last_failure_reason := FR_NETWORK\<rparr>)
           | Some True \<Rightarrow>
               (case create_in_order tc ans (filter (\<lambda>ic. primary_client_candidate (ic_interface ic)) (cc_configs c)) c of
                  (False, c1) \<Rightarrow> (None, c1)
                | (True, c1) \<Rightarrow>
                    (case create_secondary tc ans offers c1 of
                       (False, c2) \<Rightarrow> (None, c2)
                     | (True, c2) \<Rightarrow>
                         if \<not> all_clients_active c2 then (Some False, c2)
                         else (Some True, snd (primary_client c2)))))"

subsection \<open>Initialisation and shutdown\<close>

text \<open>
  The first pass of \<open>_init_clients\<close> removes the clients whose interface the backend does not offer.
  The second pass runs \<open>init_proxy\<close> of each, as modelled for one client.
\<close>

definition remove_unavailable :: "(interface \<Rightarrow> bool) \<Rightarrow> client_coord \<Rightarrow> client_coord" where
  "remove_unavailable offers c = c\<lparr>cc_clients := filter (\<lambda>(iid, n, cl). offers (cl_interface cl)) (cc_clients c)\<rparr>"

definition start_clients_begin :: "client_coord \<Rightarrow> client_coord" where
  "start_clients_begin c = c\<lparr>cc_last_failure_reason := FR_NONE, cc_last_failure_interface_id := None\<rparr>"

definition start_clients_created :: "client_coord \<Rightarrow> client_coord" where
  "start_clients_created c =
     (case primary_client c of
        (Some (n, iface), c1) \<Rightarrow> c1\<lparr>cc_tracker := tracker_set_primary_interface iface (cc_tracker c1)\<rparr>
      | (None, c1) \<Rightarrow> c1)"

definition start_clients_end :: "client_coord \<Rightarrow> client_coord" where
  "start_clients_end c = c\<lparr>cc_clients_started := True\<rparr>"

text \<open>
  \<open>stop_clients\<close>: the de-initialisation of all clients, then their deregistration, then one \<open>stop\<close>
  after the other. The first exception of a \<open>stop\<close> leaves the method.
\<close>

definition client_world_of :: "iface_client \<Rightarrow> client_world" where
  "client_world_of cl = \<lparr>cw_client = cl, cw_devices = []\<rparr>"

definition deinit_one :: "time \<Rightarrow> time \<Rightarrow> (string \<Rightarrow> exn option) \<Rightarrow> iface_client \<Rightarrow> iface_client \<times> client_exn option" where
  "deinit_one now mt ans cl =
     (case deinit_proxy now mt (ans (cl_interface_id cl)) (client_world_of cl) of
        ((w, out, e), result) \<Rightarrow> (cw_client w, e))"

definition stop_one :: "time \<Rightarrow> (string \<Rightarrow> exn option) \<Rightarrow> iface_client \<Rightarrow> iface_client \<times> client_exn option" where
  "stop_one now ans cl =
     (case client_stop now (ans (cl_interface_id cl)) (client_world_of cl) of (w, out, e) \<Rightarrow> (cw_client w, e))"

fun stop_each ::
  "time \<Rightarrow> (string \<Rightarrow> exn option) \<Rightarrow> (string, nat \<times> iface_client) dict \<Rightarrow> (string, nat \<times> iface_client) dict \<times> client_exn option" where
  "stop_each now ans [] = ([], None)"
| "stop_each now ans ((iid, n, cl) # rest) =
     (case stop_one now ans cl of
        (cl', Some e) \<Rightarrow> ((iid, n, cl') # rest, Some e)
      | (cl', None) \<Rightarrow> (case stop_each now ans rest of (rest', e) \<Rightarrow> ((iid, n, cl') # rest', e)))"

definition deinit_clients ::
  "time \<Rightarrow> time \<Rightarrow> (string \<Rightarrow> exn option) \<Rightarrow> client_coord \<Rightarrow> client_coord \<times> client_exn option" where
  "deinit_clients now mt ans c =
     (let results = map (\<lambda>(iid, n, cl). (iid, n, deinit_one now mt ans cl)) (cc_clients c);
          raised = List.map_filter (\<lambda>(iid, n, cl, e). e) results
      in (c\<lparr>cc_clients := map (\<lambda>(iid, n, cl, e). (iid, n, cl)) results\<rparr>,
          (case raised of [] \<Rightarrow> None | e # _ \<Rightarrow> Some e)))"

definition unregister_all :: "client_coord \<Rightarrow> client_coord" where
  "unregister_all c =
     c\<lparr>cc_tracker := foldl (\<lambda>t cl. tracker_unregister_client (cl_interface_id cl) t) (cc_tracker c) (coord_clients c)\<rparr>"

definition stop_clients ::
  "time \<Rightarrow> time \<Rightarrow> (string \<Rightarrow> exn option) \<Rightarrow> (string \<Rightarrow> exn option) \<Rightarrow> client_coord \<Rightarrow> client_coord \<times> client_exn option" where
  "stop_clients now mt deinit_ans stop_ans c =
     (case deinit_clients now mt deinit_ans (c\<lparr>cc_health_subscribed := False\<rparr>) of
        (c1, Some e) \<Rightarrow> (c1, Some e)
      | (c1, None) \<Rightarrow>
          let c2 = unregister_all c1
          in case stop_each now stop_ans (cc_clients c2) of
               (cls, Some e) \<Rightarrow> (c2\<lparr>cc_clients := cls\<rparr>, Some e)
             | (cls, None) \<Rightarrow> (c2\<lparr>cc_clients := [], cc_clients_started := False\<rparr>, None))"

subsection \<open>Lemmas\<close>

declare create_attempts.simps [simp del]

lemma create_attempts_last [simp]:
  "attempt \<le> m \<Longrightarrow> create_attempts tc m attempt (Created cl # rest) slept = Some (Client_Created cl, slept)"
  "attempt \<le> m \<Longrightarrow> isinstance e BaseHomematicException \<Longrightarrow> \<not> isinstance e AuthFailure \<Longrightarrow>
     create_attempts tc m attempt (Create_Raised e # rest) slept =
       Some (Create_Failed (exception_to_failure_reason e), slept)"
  "isinstance e AuthFailure \<Longrightarrow>
     create_attempts tc m m (Create_Raised e # rest) slept = Some (Create_Failed FR_AUTH, slept)"
  by (simp_all add: create_attempts.simps)

lemma create_attempts_auth:
  assumes "list_all (\<lambda>e. isinstance e AuthFailure) es" and "attempt + length es \<le> m"
  shows "create_attempts tc m attempt (map Create_Raised es @ rest) slept =
         create_attempts tc m (attempt + length es) rest
           (slept @ map (startup_retry_delay tc) [attempt..<attempt + length es])"
  using assms
proof (induction es arbitrary: attempt slept)
  case (Cons e es)
  then have "create_attempts tc m attempt (map Create_Raised (e # es) @ rest) slept =
      create_attempts tc m (attempt + 1) (map Create_Raised es @ rest) (slept @ [startup_retry_delay tc attempt])"
    by (simp add: create_attempts.simps [of _ _ attempt])
  also have "\<dots> = create_attempts tc m (attempt + 1 + length es) rest
      ((slept @ [startup_retry_delay tc attempt]) @ map (startup_retry_delay tc) [attempt + 1..<attempt + 1 + length es])"
    using Cons.prems by (intro Cons.IH) simp_all
  finally have step: "create_attempts tc m attempt (map Create_Raised (e # es) @ rest) slept =
      create_attempts tc m (attempt + 1 + length es) rest
        ((slept @ [startup_retry_delay tc attempt]) @ map (startup_retry_delay tc) [attempt + 1..<attempt + 1 + length es])" .
  have "[attempt..<attempt + length (e # es)] = attempt # [attempt + 1..<attempt + 1 + length es]"
    by (simp add: upt_conv_Cons del: upt_Suc)
  with step show ?case
    by (simp del: upt_Suc)
qed simp

lemma deinit_one_skipped:
  assumes "cl_rpc_callback cl" and "cl_modified_at cl = INIT_DATETIME"
  shows "deinit_one now mt ans cl = (cl, None)"
  using assms by (simp add: deinit_one_def deinit_proxy_def client_world_of_def)

lemma stop_one_eq:
  "stop_one now ans cl =
     (if client_state cl \<in> {CONNECTED, DISCONNECTED}
      then case ans (cl_interface_id cl) of
             None \<Rightarrow> (cw_client (enter_state STOPPED ''services stopped'' FR_NONE
                        (enter_state STOPPING ''stop() called'' FR_NONE (client_world_of (cl\<lparr>cl_subscribed := False\<rparr>)))), None)
           | Some e \<Rightarrow> (cw_client (enter_state STOPPING ''stop() called'' FR_NONE
                        (client_world_of (cl\<lparr>cl_subscribed := False\<rparr>))), Some (CX_Raised e))
      else (cl\<lparr>cl_subscribed := False\<rparr>,
            Some (CX_State (InvalidStateTransitionError (client_state cl) STOPPING
              (csm_interface_id (cl_state_machine cl))))))"
proof -
  have "STOPPING \<in> set (client_transitions (client_state cl)) \<longleftrightarrow> client_state cl \<in> {CONNECTED, DISCONNECTED}"
    by (cases "client_state cl") simp_all
  then show ?thesis
    by (simp add: stop_one_def client_stop_def client_stop_begin_def client_stop_answered_def sm_transition_eq client_world_of_def split: option.split)
qed

lemma stop_each_stoppable:
  assumes "list_all (\<lambda>(iid, n, cl). client_state cl \<in> {CONNECTED, DISCONNECTED} \<and> ans (cl_interface_id cl) = None) cls"
  shows "\<exists>cls'. stop_each now ans cls = (cls', None) \<and>
           list_all (\<lambda>(iid, n, cl). client_state cl = STOPPED) cls'"
  using assms
proof (induction cls)
  case (Cons x cls)
  obtain iid n cl where x: "x = (iid, n, cl)" by (cases x)
  from Cons obtain cls' where "stop_each now ans cls = (cls', None)"
    "list_all (\<lambda>(iid, n, cl). client_state cl = STOPPED) cls'" by auto
  with Cons.prems show ?case
    by (simp add: x stop_one_eq)
qed simp

lemma stop_each_stops_at:
  assumes "list_all (\<lambda>(iid, n, cl). client_state cl \<in> {CONNECTED, DISCONNECTED} \<and> ans (cl_interface_id cl) = None) before"
    and "client_state cl \<notin> {CONNECTED, DISCONNECTED}"
  shows "\<exists>before'. length before' = length before \<and>
           stop_each now ans (before @ (iid, n, cl) # later) =
             (before' @ (iid, n, cl\<lparr>cl_subscribed := False\<rparr>) # later,
              Some (CX_State (InvalidStateTransitionError (client_state cl) STOPPING (csm_interface_id (cl_state_machine cl)))))"
  using assms(1)
proof (induction before)
  case Nil
  with assms(2) show ?case by (simp add: stop_one_eq)
next
  case (Cons x before)
  obtain iid' n' cl' where x: "x = (iid', n', cl')" by (cases x)
  from Cons obtain b where "length b = length before"
    "stop_each now ans (before @ (iid, n, cl) # later) =
       (b @ (iid, n, cl\<lparr>cl_subscribed := False\<rparr>) # later,
        Some (CX_State (InvalidStateTransitionError (client_state cl) STOPPING (csm_interface_id (cl_state_machine cl)))))"
    by auto
  with Cons.prems show ?case
    by (intro exI [of _ "(iid', n', fst (stop_one now ans cl')) # b"]) (simp add: x stop_one_eq)
qed

lemma wait_for_tcp_ready_ends_aux:
  assumes "0 < interval" and "list_all (\<lambda>(ok, d). 0 \<le> d) probes" and "max_wait \<le> elapsed + interval * real (length probes)"
  shows "wait_for_tcp_ready max_wait interval elapsed probes \<noteq> None"
  using assms
proof (induction probes arbitrary: elapsed)
  case (Cons p probes)
  obtain ok d where p: "p = (ok, d)" by force
  have "wait_for_tcp_ready max_wait interval (elapsed + d + interval) probes \<noteq> None"
    using Cons.prems p by (intro Cons.IH) (auto simp: algebra_simps)
  then show ?case by (auto simp: p)
qed simp

lemma wait_for_tcp_ready_False:
  "wait_for_tcp_ready max_wait interval elapsed probes = Some False \<Longrightarrow>
   \<exists>n. list_all (\<lambda>(ok, d). \<not> ok) (take n probes) \<and> n \<le> length probes \<and>
       max_wait \<le> elapsed + (\<Sum>(ok, d) \<leftarrow> take n probes. d + interval)"
proof (induction probes arbitrary: elapsed)
  case Nil
  then show ?case by (simp split: if_splits)
next
  case (Cons p probes)
  obtain ok d where p: "p = (ok, d)" by force
  show ?case
  proof (cases "elapsed < max_wait")
    case True
    with Cons.prems p have ok: "\<not> ok" and r: "wait_for_tcp_ready max_wait interval (elapsed + d + interval) probes = Some False"
      by (simp_all split: if_splits)
    from Cons.IH [OF r] obtain n where "list_all (\<lambda>(ok, d). \<not> ok) (take n probes)" "n \<le> length probes"
      "max_wait \<le> elapsed + d + interval + (\<Sum>(ok, d) \<leftarrow> take n probes. d + interval)" by blast
    with ok p show ?thesis
      by (intro exI [of _ "Suc n"]) simp
  next
    case False
    then show ?thesis by (intro exI [of _ 0]) simp
  qed
qed

lemma wait_for_tcp_ready_True:
  assumes "0 < interval" and "list_all (\<lambda>(ok, d). 0 \<le> d) probes"
  shows "wait_for_tcp_ready max_wait interval elapsed probes = Some True \<longleftrightarrow>
    (\<exists>n < length probes. fst (probes ! n) \<and> list_all (\<lambda>(ok, d). \<not> ok) (take n probes) \<and>
       elapsed + (\<Sum>(ok, d) \<leftarrow> take n probes. d + interval) < max_wait)"
  using assms(2)
proof (induction probes arbitrary: elapsed)
  case (Cons p probes)
  obtain ok d where p: "p = (ok, d)" by force
  have d: "0 \<le> d + interval" and rest: "list_all (\<lambda>(ok, d). 0 \<le> d) probes" using Cons.prems assms(1) p by auto
  have "0 \<le> (\<Sum>(ok, d) \<leftarrow> take n probes. d + interval)" for n
    using rest assms(1) by (intro sum_list_nonneg) (auto simp: list_all_iff dest!: in_set_takeD)
  with d have "elapsed < max_wait" if "elapsed + (d + interval + (\<Sum>(ok, d) \<leftarrow> take n probes. d + interval)) < max_wait" for n
    using that by (smt (verit))
  then show ?case
    using Cons.IH [OF rest, of "elapsed + d + interval"]
    by (auto simp: p Ex_less_Suc2 add.assoc)
qed simp

text \<open>Calls that say nothing about an interface leave its health entry alone.\<close>

definition silent_about :: "string \<Rightarrow> health_call \<Rightarrow> bool" where
  "silent_about iid hc \<longleftrightarrow> \<not> registers iid hc \<and> \<not> unregisters iid hc \<and> announced iid hc = None"

lemma silent_state:
  assumes "silent_about iid hc" and "get_client_health iid (ht_central_health t) = Some h"
  shows "\<exists>h'. get_client_health iid (ht_central_health (tracker_step t hc)) = Some h' \<and>
           ch_client_state h' = ch_client_state h"
proof -
  have "get_client_health iid (ht_central_health (tracker_step t hc)) = Some (call_effect iid hc h)"
    using assms by (simp add: silent_about_def get_tracker_step)
  moreover have "ch_client_state (call_effect iid hc h) = ch_client_state h"
    using assms(1)
    by (cases hc)
      (auto simp: silent_about_def health_record_event_received_def health_record_failed_request_def
        health_record_successful_request_def)
  ultimately show ?thesis by simp
qed

lemma silent_run:
  assumes "list_all (silent_about iid) hcs" and "get_client_health iid (ht_central_health t) = Some h"
  shows "\<exists>h'. get_client_health iid (ht_central_health (foldl tracker_step t hcs)) = Some h' \<and>
           ch_client_state h' = ch_client_state h"
  using assms
proof (induction hcs arbitrary: t h)
  case (Cons hc hcs)
  with silent_state [of iid hc t h] show ?case by fastforce
qed simp

lemma unhealthy_entry:
  assumes "get_client_health iid ch = Some h" and "\<not> health_is_available h"
  shows "\<not> should_be_running ch"
proof -
  from assms(1) have "h \<in> set (dict_values (cnh_client_health ch))"
    by (force simp: get_client_health_def dict_values_def dest!: dict_get_in_set)
  with assms(2) show ?thesis
    by (auto simp: should_be_running_def all_clients_healthy_def list_all_iff)
qed

definition numbers_fresh :: "client_coord \<Rightarrow> bool" where
  "numbers_fresh c \<longleftrightarrow> (\<forall>(iid, n, cl) \<in> set (cc_clients c). n < cc_next c)"

lemma add_clients_run:
  assumes "cc_primary_client c = Some (n, i)" and "n < cc_next c" and "\<forall>(iid, m, cl) \<in> set (cc_clients c). m \<noteq> n"
    and "dict_wf (cc_clients c)"
  shows "let c' = foldl (\<lambda>c cl. add_client cl c) c cls
         in cc_primary_client c' = Some (n, i) \<and> (\<forall>(iid, m, cl) \<in> set (cc_clients c'). m \<noteq> n)"
  using assms
proof (induction cls arbitrary: c)
  case (Cons cl cls)
  have "let c' = foldl (\<lambda>c cl. add_client cl c) (add_client cl c) cls
        in cc_primary_client c' = Some (n, i) \<and> (\<forall>(iid, m, cl) \<in> set (cc_clients c'). m \<noteq> n)"
    using Cons.prems by (intro Cons.IH) (auto simp: add_client_def set_dict_set)
  then show ?case by simp
qed simp

subsection \<open>Properties\<close>

text \<open>
  The startup retries. Authentication failures are retried after the capped exponential delay,
  and only those: when the first \<open>k\<close> attempts fail with an authentication failure, a client created
  by the next attempt is used after exactly the delays of the attempts \<open>1 .. k\<close>; any other library
  exception fails the interface at once with its reason; when all attempts fail this way the reason
  is AUTH. No delay exceeds the configured maximum.
\<close>

theorem startup_retries:
  assumes "list_all (\<lambda>e. isinstance e AuthFailure) es" and "0 < m"
  shows "(length es < m \<longrightarrow>
            create_attempts tc m 1 (map Create_Raised es @ Created cl # rest) [] =
              Some (Client_Created cl, map (startup_retry_delay tc) [1..<1 + length es])) \<and>
         (length es < m \<and> isinstance e BaseHomematicException \<and> \<not> isinstance e AuthFailure \<longrightarrow>
            create_attempts tc m 1 (map Create_Raised es @ Create_Raised e # rest) [] =
              Some (Create_Failed (exception_to_failure_reason e), map (startup_retry_delay tc) [1..<1 + length es])) \<and>
         (length es = m \<longrightarrow>
            create_attempts tc m 1 (map Create_Raised es) [] =
              Some (Create_Failed FR_AUTH, map (startup_retry_delay tc) [1..<m])) \<and>
         startup_retry_delay tc k \<le> startup_max_init_retry_delay tc"
proof (intro conjI impI)
  assume "length es < m"
  then show "create_attempts tc m 1 (map Create_Raised es @ Created cl # rest) [] =
      Some (Client_Created cl, map (startup_retry_delay tc) [1..<1 + length es])"
    using create_attempts_auth [OF assms(1), of 1 m tc "Created cl # rest" "[]"]
    by (simp del: upt_Suc)
next
  assume "length es < m \<and> isinstance e BaseHomematicException \<and> \<not> isinstance e AuthFailure"
  then show "create_attempts tc m 1 (map Create_Raised es @ Create_Raised e # rest) [] =
      Some (Create_Failed (exception_to_failure_reason e), map (startup_retry_delay tc) [1..<1 + length es])"
    using create_attempts_auth [OF assms(1), of 1 m tc "Create_Raised e # rest" "[]"]
    by (simp del: upt_Suc)
next
  assume len: "length es = m"
  with assms(2) obtain bs e where es: "es = bs @ [e]" by (cases es rule: rev_cases) auto
  with assms(1) len show "create_attempts tc m 1 (map Create_Raised es) [] =
      Some (Create_Failed FR_AUTH, map (startup_retry_delay tc) [1..<m])"
    using create_attempts_auth [of bs 1 m tc "[Create_Raised e]" "[]"]
    by (auto simp del: upt_Suc)
qed (simp add: startup_retry_delay_def)

theorem startup_retries_witness:
  "create_attempts default_timeout_config 5 1
     (map Create_Raised [new_exn AuthFailure ''a'', new_exn AuthFailure ''b''] @
      Created (iface_client_init ''i'' HMIP_RF True True True) # []) [] =
   Some (Client_Created (iface_client_init ''i'' HMIP_RF True True True), [3, 6])"
  using startup_retries [of "[new_exn AuthFailure ''a'', new_exn AuthFailure ''b'']" 5 default_timeout_config
      "iface_client_init ''i'' HMIP_RF True True True" "[]"]
  by (simp add: isinstance_def new_exn_def startup_retry_delay_def default_timeout_config_def
      upt_rec numeral_2_eq_2)

text \<open>
  C35: Waiting for a port. With a positive interval and probes that take no negative time, the loop returns True
  exactly when some probe succeeds, all before it failed, and it starts within the time limit. With enough
  probes to fill the time limit it returns at all, and it returns False only after failed probes used up the limit.
\<close>

theorem startup_tcp_wait_ends:
  assumes "0 < interval" and "list_all (\<lambda>(ok, d). 0 \<le> d) probes"
  shows "(wait_for_tcp_ready max_wait interval 0 probes = Some True \<longleftrightarrow>
            (\<exists>n < length probes. fst (probes ! n) \<and> list_all (\<lambda>(ok, d). \<not> ok) (take n probes) \<and>
               (\<Sum>(ok, d) \<leftarrow> take n probes. d + interval) < max_wait)) \<and>
         (max_wait \<le> interval * real (length probes) \<longrightarrow> (\<exists>r. wait_for_tcp_ready max_wait interval 0 probes = Some r)) \<and>
         (wait_for_tcp_ready max_wait interval 0 probes = Some False \<longrightarrow>
            (\<exists>n \<le> length probes. list_all (\<lambda>(ok, d). \<not> ok) (take n probes) \<and>
               max_wait \<le> (\<Sum>(ok, d) \<leftarrow> take n probes. d + interval)))"
  using wait_for_tcp_ready_ends_aux [OF assms, of max_wait 0] wait_for_tcp_ready_True [OF assms, of max_wait 0]
    wait_for_tcp_ready_False [of max_wait interval 0 probes]
  by auto

text \<open>A port that opens at the second probe, and one that does so too late.\<close>

theorem startup_tcp_wait_ends_witness:
  "wait_for_tcp_ready 10 5 0 [(False, 1), (True, 1)] = Some True \<and> wait_for_tcp_ready 6 5 0 [(False, 1), (True, 1)] = Some False"
proof -
  have "wait_for_tcp_ready 10 5 0 [(False, 1), (True, 1)] = Some True"
    using startup_tcp_wait_ends [of 5 "[(False, 1), (True, 1)]" 10] by (simp add: Ex_less_Suc2 numeral_2_eq_2)
  moreover have "wait_for_tcp_ready 6 5 0 [(False, 1), (True, 1)] \<noteq> Some True \<and> (\<exists>r. wait_for_tcp_ready 6 5 0 [(False, 1), (True, 1)] = Some r)"
    using startup_tcp_wait_ends [of 5 "[(False, 1), (True, 1)]" 6] by (simp add: Ex_less_Suc2 numeral_2_eq_2)
  ultimately show ?thesis by auto
qed

text \<open>
  Stopping. When every client is CONNECTED or DISCONNECTED after its de-initialisation and the
  backends answer, \<open>stop_clients\<close> stops them all and empties the dictionary. A client that FAILED to
  initialise its proxy is skipped by the de-initialisation and cannot be stopped: \<open>stop_clients\<close>
  raises \<open>InvalidStateTransitionError\<close>, keeps the dictionary with all its clients, and the clients
  behind the failed one are not stopped; they only lost their health entry.
\<close>

theorem stop_clients_outcome:
  assumes deinit: "deinit_clients now mt da (c\<lparr>cc_health_subscribed := False\<rparr>) = (c1, None)"
    and before: "list_all (\<lambda>(iid, n, cl). client_state cl \<in> {CONNECTED, DISCONNECTED} \<and> sa (cl_interface_id cl) = None) before"
  shows "(cc_clients c1 = before \<longrightarrow>
            snd (stop_clients now mt da sa c) = None \<and> cc_clients (fst (stop_clients now mt da sa c)) = []) \<and>
         (cc_clients c1 = before @ (iid, n, cl) # later \<and> client_state cl = FAILED \<longrightarrow>
            snd (stop_clients now mt da sa c) =
              Some (CX_State (InvalidStateTransitionError FAILED STOPPING (csm_interface_id (cl_state_machine cl)))) \<and>
            (\<exists>before'. length before' = length before \<and>
               cc_clients (fst (stop_clients now mt da sa c)) =
                 before' @ (iid, n, cl\<lparr>cl_subscribed := False\<rparr>) # later))"
proof (intro conjI impI)
  assume "cc_clients c1 = before"
  with stop_each_stoppable [OF before, of now]
  show "snd (stop_clients now mt da sa c) = None" "cc_clients (fst (stop_clients now mt da sa c)) = []"
    by (auto simp: stop_clients_def deinit unregister_all_def)
next
  assume a: "cc_clients c1 = before @ (iid, n, cl) # later \<and> client_state cl = FAILED"
  from a have st: "client_state cl \<notin> {CONNECTED, DISCONNECTED}" by simp
  from stop_each_stops_at [OF before st, of now iid n later] a
  show "snd (stop_clients now mt da sa c) =
      Some (CX_State (InvalidStateTransitionError FAILED STOPPING (csm_interface_id (cl_state_machine cl))))"
    and "\<exists>before'. length before' = length before \<and>
           cc_clients (fst (stop_clients now mt da sa c)) = before' @ (iid, n, cl\<lparr>cl_subscribed := False\<rparr>) # later"
    by (auto simp: stop_clients_def deinit unregister_all_def)
qed

theorem stop_clients_outcome_witness:
  "let cl = (iface_client_init ''i'' HMIP_RF True True True)
              \<lparr>cl_state_machine := (client_sm_init ''i'' True)\<lparr>csm_state := FAILED\<rparr>\<rparr>;
       c = (client_coord_init ''c'' (health_tracker_init ''c'' True True) [])\<lparr>cc_clients := [(''i'', 0, cl)]\<rparr>
   in snd (stop_clients 1 1 (\<lambda>_. None) (\<lambda>_. None) c) =
      Some (CX_State (InvalidStateTransitionError FAILED STOPPING ''i''))"
  using stop_clients_outcome [of 1 1 "\<lambda>_. None"
      "(client_coord_init ''c'' (health_tracker_init ''c'' True True) [])\<lparr>cc_clients := [(''i'', 0,
          (iface_client_init ''i'' HMIP_RF True True True)
              \<lparr>cl_state_machine := (client_sm_init ''i'' True)\<lparr>csm_state := FAILED\<rparr>\<rparr>)]\<rparr>"
      "(client_coord_init ''c'' (health_tracker_init ''c'' True True) [])\<lparr>cc_health_subscribed := False, cc_clients := [(''i'', 0,
          (iface_client_init ''i'' HMIP_RF True True True)
              \<lparr>cl_state_machine := (client_sm_init ''i'' True)\<lparr>csm_state := FAILED\<rparr>\<rparr>)]\<rparr>"
      "\<lambda>_. None" "[]" "''i''" 0 "(iface_client_init ''i'' HMIP_RF True True True)
              \<lparr>cl_state_machine := (client_sm_init ''i'' True)\<lparr>csm_state := FAILED\<rparr>\<rparr>" "[]"]
  by (simp add: deinit_clients_def deinit_one_skipped iface_client_init_def client_coord_init_def client_state_def
      client_sm_init_def List.map_filter_def)

text \<open>
  A client that is removed because the backend does not offer its interface stays in the health
  tracker. It is no longer among the clients, but its entry keeps the state it had, whatever calls
  about other interfaces follow, so the central is never reported as healthy again.
\<close>

theorem removed_client_spoils_health:
  assumes "\<not> offers (cl_interface cl)" and "dict_wf (cc_clients c)" and "dict_get (cc_clients c) iid = Some (n, cl)"
    and "get_client_health iid (ht_central_health (cc_tracker c)) = Some h" and "ch_client_state h \<noteq> CONNECTED"
    and "list_all (silent_about iid) hcs"
  shows "\<not> has_client iid (remove_unavailable offers c) \<and>
         \<not> should_be_running (ht_central_health (foldl tracker_step (cc_tracker (remove_unavailable offers c)) hcs))"
proof
  show "\<not> has_client iid (remove_unavailable offers c)"
  proof
    assume "has_client iid (remove_unavailable offers c)"
    then obtain m cl' where "(iid, m, cl') \<in> set (cc_clients c)" "offers (cl_interface cl')"
      by (auto simp: has_client_def remove_unavailable_def dict_keys_def)
    with assms(1-3) dict_get_Some_iff [OF assms(2), of iid "(m, cl')"] show False
      by simp
  qed
  obtain h' where "get_client_health iid (ht_central_health (foldl tracker_step (cc_tracker c) hcs)) = Some h'"
    "ch_client_state h' = ch_client_state h"
    using silent_run [OF assms(6,4)] by blast
  with assms(5) show "\<not> should_be_running (ht_central_health (foldl tracker_step (cc_tracker (remove_unavailable offers c)) hcs))"
    by (intro unhealthy_entry) (auto simp: remove_unavailable_def health_is_available_def)
qed

theorem removed_client_spoils_health_witness:
  "let cl = iface_client_init ''i'' BIDCOS_WIRED True True True;
       c = add_client cl (client_coord_init ''c'' (health_tracker_init ''c'' True True) [])
   in \<not> should_be_running (ht_central_health (foldl tracker_step
        (cc_tracker (remove_unavailable (\<lambda>i. i \<noteq> BIDCOS_WIRED) c)) [HC_Sync C_RUNNING]))"
  using removed_client_spoils_health [of "\<lambda>i. i \<noteq> BIDCOS_WIRED" "iface_client_init ''i'' BIDCOS_WIRED True True True"
      "add_client (iface_client_init ''i'' BIDCOS_WIRED True True True)
         (client_coord_init ''c'' (health_tracker_init ''c'' True True) [])"
      "''i''" 0 "connection_health_init ''i'' BIDCOS_WIRED" "[HC_Sync C_RUNNING]"]
  by (simp add: add_client_def client_coord_init_def iface_client_init_def dict_set_def dict_wf_def dict_get_def
      connection_health_init_def silent_about_def)

text \<open>
  The cached primary client survives \<open>stop_clients\<close>. After a successful stop and the creation of
  any new clients, the property \<open>primary_client\<close> still returns the stopped client object, which is
  none of the clients of the coordinator.
\<close>

theorem restart_keeps_stale_primary:
  assumes "cc_primary_client c = Some (n, i)" and "n < cc_next c"
    and "snd (stop_clients now mt da sa c) = None"
  shows "let c' = foldl (\<lambda>c cl. add_client cl c) (start_clients_begin (fst (stop_clients now mt da sa c))) cls
         in fst (primary_client c') = Some (n, i) \<and> n \<notin> fst ` set (dict_values (cc_clients c'))"
proof -
  let ?c1 = "start_clients_begin (fst (stop_clients now mt da sa c))"
  have "cc_primary_client ?c1 = Some (n, i) \<and> cc_next ?c1 = cc_next c \<and> cc_clients ?c1 = []"
    using assms(1,3)
    by (auto simp: start_clients_begin_def stop_clients_def deinit_clients_def unregister_all_def Let_def
        split: prod.splits option.splits list.splits)
  with assms(2) add_clients_run [of ?c1 n i cls] show ?thesis
    by (auto simp: primary_client_def Let_def dict_values_def)
qed

theorem restart_keeps_stale_primary_witness:
  "let c = (client_coord_init ''c'' (health_tracker_init ''c'' True True) [])\<lparr>cc_next := 1, cc_primary_client := Some (0, HMIP_RF)\<rparr>;
       c' = foldl (\<lambda>c cl. add_client cl c) (start_clients_begin (fst (stop_clients 1 1 (\<lambda>_. None) (\<lambda>_. None) c)))
              [iface_client_init ''i'' HMIP_RF True True True]
   in fst (primary_client c') = Some (0, HMIP_RF)"
  using restart_keeps_stale_primary [of "(client_coord_init ''c'' (health_tracker_init ''c'' True True) [])
      \<lparr>cc_next := 1, cc_primary_client := Some (0, HMIP_RF)\<rparr>" 0 HMIP_RF 1 1 "\<lambda>_. None" "\<lambda>_. None"
      "[iface_client_init ''i'' HMIP_RF True True True]"]
  by (simp add: Let_def stop_clients_def deinit_clients_def unregister_all_def client_coord_init_def List.map_filter_def)

end
