(* ===== verification/Central_Unit.thy ===== *)
theory Central_Unit
  imports Client_Coordinator
begin

section \<open>The central unit (\<open>central/central_unit.py\<close>)\<close>

text \<open>
  How the central follows its clients: \<open>_evaluate_central_state\<close> with its helpers and
  \<open>_on_system_status_event\<close>, which updates the health tracker, marks the devices of a lost interface
  and moves the central state machine. The second part puts clients, event bus and central together:
  every section of a client schedules its state changes on the bus, the client's own subscription
  turns such an event into a status event, and its delivery runs the handler of the central.
\<close>

subsection \<open>The central and its handler\<close>

record central =
  cu_machine :: central_sm
  cu_coord :: client_coord
  cu_devices :: "device list"

definition cu_clients :: "central \<Rightarrow> iface_client list" where
  "cu_clients c = coord_clients (cu_coord c)"

definition build_degraded_interfaces_map :: "central \<Rightarrow> (string, failure_reason) dict" where
  "build_degraded_interfaces_map c =
     foldl (\<lambda>d cl. dict_set (cl_interface_id cl)
                     (let reason = csm_failure_reason (cl_state_machine cl)
                      in if reason \<noteq> FR_NONE then reason else FR_UNKNOWN) d)
       [] (filter (\<lambda>cl. client_state cl \<noteq> CONNECTED) (cu_clients c))"

definition determine_failure_info :: "central \<Rightarrow> failure_reason \<times> string option" where
  "determine_failure_info c =
     (case find (\<lambda>cl. client_is_failed (cl_state_machine cl) \<and> csm_failure_reason (cl_state_machine cl) \<noteq> FR_NONE)
             (cu_clients c) of
        Some cl \<Rightarrow> (csm_failure_reason (cl_state_machine cl), Some (cl_interface_id cl))
      | None \<Rightarrow> (FR_NETWORK, None))"

fun join_comma :: "string list \<Rightarrow> string" where
  "join_comma [] = []"
| "join_comma [s] = s"
| "join_comma (s # ss) = s @ '', '' @ join_comma ss"

definition central_move :: "transition_args \<Rightarrow> central_state \<Rightarrow> central \<Rightarrow> central \<times> event list" where
  \<comment> \<open>transition_to behind a can_transition_to guard\<close>
  "central_move a target c =
     (case central_transition_to a target (cu_machine c) of
        Inl _ \<Rightarrow> (c, [])
      | Inr (m, es) \<Rightarrow> (c\<lparr>cu_machine := m\<rparr>, es))"

definition evaluate_central_state :: "time \<Rightarrow> string \<Rightarrow> bool \<Rightarrow> bool \<Rightarrow> central \<Rightarrow> central \<times> event list" where
  "evaluate_central_state now trigger from_start in_recovery c =
     (let current_state = zsm_state (cu_machine c);
          clients = cu_clients c;
          all_connected = (clients \<noteq> [] \<and> list_all (\<lambda>cl. client_state cl = CONNECTED) clients);
          any_connected = list_ex (\<lambda>cl. client_state cl = CONNECTED) clients
      in if all_connected \<and> (from_start \<or> \<not> in_recovery) \<and> central_can_transition_to (cu_machine c) C_RUNNING
         then central_move (default_args now (''all clients connected ('' @ trigger @ '')'')) C_RUNNING c
         else if any_connected \<and> \<not> all_connected \<and> (from_start \<or> current_state = C_RUNNING) \<and>
                 central_can_transition_to (cu_machine c) C_DEGRADED
         then let degraded_interfaces = build_degraded_interfaces_map c
              in central_move ((default_args now (''clients not connected: '' @ join_comma (dict_keys degraded_interfaces)))
                   \<lparr>ta_degraded_interfaces := Some degraded_interfaces\<rparr>) C_DEGRADED c
         else if \<not> any_connected \<and> (from_start \<or> current_state \<in> {C_RUNNING, C_DEGRADED}) \<and>
                 central_can_transition_to (cu_machine c) C_FAILED
         then let (failure_reason, failure_interface_id) =
                    (if from_start
                     then (cc_last_failure_reason (cu_coord c), cc_last_failure_interface_id (cu_coord c))
                     else determine_failure_info c)
              in central_move ((default_args now (''no clients connected ('' @ trigger @ '')''))
                   \<lparr>ta_failure_reason := failure_reason, ta_failure_interface_id := failure_interface_id\<rparr>) C_FAILED c
         else (c, []))"

definition cu_set_tracker :: "health_tracker \<Rightarrow> central \<Rightarrow> central" where
  "cu_set_tracker t c = c\<lparr>cu_coord := (cu_coord c)\<lparr>cc_tracker := t\<rparr>\<rparr>"

definition cu_force_devices :: "time \<Rightarrow> string \<Rightarrow> forced_availability \<Rightarrow> central \<Rightarrow> central \<times> event list" where
  "cu_force_devices now iid fa c =
     (let (ds, es) = force_devices now iid fa (cu_devices c) in (c\<lparr>cu_devices := ds\<rparr>, es))"

definition mark_on_event :: "time \<Rightarrow> string \<Rightarrow> client_state \<Rightarrow> client_state \<Rightarrow> central \<Rightarrow> central \<times> event list" where
  \<comment> \<open>the two device loops of the handler\<close>
  "mark_on_event now interface_id old_state new_state c =
     (let current_client_state = (case get_client (Some interface_id) None (cu_coord c) of
                                    Inr cl \<Rightarrow> client_state cl
                                  | Inl _ \<Rightarrow> new_state);
          (c1, es1) = (if new_state \<in> {DISCONNECTED, FAILED} \<and> current_client_state \<in> {DISCONNECTED, FAILED}
                       then cu_force_devices now interface_id FORCE_FALSE c else (c, []));
          (c2, es2) = (if new_state = CONNECTED \<and> old_state \<in> {CONNECTING, DISCONNECTED, FAILED, RECONNECTING}
                       then cu_force_devices now interface_id NOT_SET c1 else (c1, []))
      in (c2, es1 @ es2))"

definition on_central_status_event :: "time \<Rightarrow> bool \<Rightarrow> system_status \<Rightarrow> central \<Rightarrow> central \<times> event list" where
  \<comment> \<open>CentralUnit._on_system_status_event\<close>
  "on_central_status_event now in_recovery st c =
     (case ss_client_state st of
        None \<Rightarrow> (c, [])
      | Some (interface_id, old_state, new_state) \<Rightarrow>
          let (t, es0) = update_client_health now (zsm_state (cu_machine c)) interface_id old_state new_state
                           (cc_tracker (cu_coord c));
              (c1, es1) = mark_on_event now interface_id old_state new_state (cu_set_tracker t c);
              (c2, es2) =
                (if zsm_state (cu_machine c1) \<notin> {C_STARTING, C_STOPPED}
                 then let (c', es) = evaluate_central_state now (''triggered by '' @ interface_id) False in_recovery c1
                      in (cu_set_tracker (sync_central_state (zsm_state (cu_machine c')) (cc_tracker (cu_coord c'))) c', es)
                 else (c1, []))
          in (c2, es0 @ es1 @ es2))"

definition start_evaluation :: "time \<Rightarrow> central \<Rightarrow> central \<times> event list" where
  \<comment> \<open>the end of start()\<close>
  "start_evaluation now c =
     (let (c', es) = evaluate_central_state now ''start() completed'' True False c
      in (cu_set_tracker (sync_central_state (zsm_state (cu_machine c')) (cc_tracker (cu_coord c'))) c', es))"

subsection \<open>Clients, bus and central together\<close>

text \<open>
  Scheduled publications wait in a queue; a delivery takes one of them, so that any order of
  deliveries is a history, and the histories that always take the first are those of an event loop
  that runs its tasks in the order of their creation. A position of the task of each client belongs
  to the state. The set of clients and the set of devices are fixed.
\<close>

record network =
  nt_central :: central
  nt_pc :: "string \<Rightarrow> client_pc"
  nt_queue :: "event list"

datatype net_event =
    NE_Client timeout_config string client_ev
  | NE_Deliver time bool nat

definition published :: "client_output list \<Rightarrow> event list" where
  "published out =
     List.map_filter (\<lambda>x. case x of CO_Publish e \<Rightarrow> Some e | CO_PingPong (PP_Publish e) \<Rightarrow> Some e | _ \<Rightarrow> None) out"

definition put_client :: "string \<Rightarrow> iface_client \<Rightarrow> central \<Rightarrow> central" where
  "put_client iid cl c =
     c\<lparr>cu_coord := (cu_coord c)\<lparr>cc_clients :=
         map (\<lambda>(i, n, cl'). if i = iid then (i, n, cl) else (i, n, cl')) (cc_clients (cu_coord c))\<rparr>\<rparr>"

definition find_client :: "string \<Rightarrow> central \<Rightarrow> iface_client option" where
  "find_client iid c = map_option snd (dict_get (cc_clients (cu_coord c)) iid)"

definition client_section :: "timeout_config \<Rightarrow> string \<Rightarrow> client_ev \<Rightarrow> network \<Rightarrow> network" where
  "client_section tc iid ev s =
     (case find_client iid (nt_central s) of
        None \<Rightarrow> s
      | Some cl \<Rightarrow>
          (case client_react tc \<lparr>cw_client = cl, cw_devices = cu_devices (nt_central s)\<rparr> (nt_pc s iid) ev of
             ((w, pc, r), out, e) \<Rightarrow>
               s\<lparr>nt_central := put_client iid (cw_client w) ((nt_central s)\<lparr>cu_devices := cw_devices w\<rparr>),
                 nt_pc := (nt_pc s)(iid := pc), nt_queue := nt_queue s @ published out\<rparr>))"

definition clients_on_status :: "system_status \<Rightarrow> central \<Rightarrow> central" where
  "clients_on_status st c =
     c\<lparr>cu_coord := (cu_coord c)\<lparr>cc_clients :=
         map (\<lambda>(i, n, cl). (i, n, if cl_subscribed cl then on_system_status_event st cl else cl)) (cc_clients (cu_coord c))\<rparr>\<rparr>"

fun handle_event :: "time \<Rightarrow> bool \<Rightarrow> event \<Rightarrow> central \<Rightarrow> central \<times> event list" where
  "handle_event now in_recovery (ClientStateChangedEvent _ iid old new _) c =
     (case find_client iid c of
        Some cl \<Rightarrow> (c, if cl_subscribed cl then [on_client_state_changed_event now iid old new] else [])
      | None \<Rightarrow> (c, []))"
| "handle_event now in_recovery (SystemStatusChangedEvent _ st) c =
     on_central_status_event now in_recovery st (clients_on_status st c)"
| "handle_event now in_recovery _ c = (c, [])"

definition deliver :: "time \<Rightarrow> bool \<Rightarrow> nat \<Rightarrow> network \<Rightarrow> network" where
  "deliver now in_recovery i s =
     (if i < length (nt_queue s)
      then let (c, es) = handle_event now in_recovery (nt_queue s ! i) (nt_central s)
           in s\<lparr>nt_central := c, nt_queue := take i (nt_queue s) @ drop (Suc i) (nt_queue s) @ es\<rparr>
      else s)"

fun net_step :: "network \<Rightarrow> net_event \<Rightarrow> network" where
  "net_step s (NE_Client tc iid ev) = client_section tc iid ev s"
| "net_step s (NE_Deliver now r i) = deliver now r i s"

text \<open>Nothing about the states of clients is pending.\<close>

fun about_client :: "string \<Rightarrow> event \<Rightarrow> bool" where
  "about_client iid (ClientStateChangedEvent _ i _ _ _) = (i = iid)"
| "about_client iid (SystemStatusChangedEvent _ st) =
     (case ss_client_state st of Some (i, _, _) \<Rightarrow> i = iid | None \<Rightarrow> False)"
| "about_client iid _ = False"

definition quiescent :: "string \<Rightarrow> network \<Rightarrow> bool" where
  "quiescent iid s \<longleftrightarrow> list_all (\<lambda>e. \<not> about_client iid e) (nt_queue s)"

definition first_in_first_out :: "net_event \<Rightarrow> bool" where
  "first_in_first_out e = (case e of NE_Deliver _ _ i \<Rightarrow> i = 0 | NE_Client _ _ _ \<Rightarrow> True)"

subsection \<open>What a client section does to the network\<close>

fun change_of :: "string \<Rightarrow> event \<Rightarrow> (client_state \<times> client_state) option" where
  "change_of iid (ClientStateChangedEvent _ i old new _) = (if i = iid then Some (old, new) else None)"
| "change_of iid _ = None"

fun status_of :: "string \<Rightarrow> event \<Rightarrow> (client_state \<times> client_state) option" where
  "status_of iid (SystemStatusChangedEvent _ st) =
     (case ss_client_state st of Some (i, old, new) \<Rightarrow> if i = iid then Some (old, new) else None | None \<Rightarrow> None)"
| "status_of iid _ = None"

definition changes :: "string \<Rightarrow> event list \<Rightarrow> (client_state \<times> client_state) list" where
  "changes iid es = List.map_filter (change_of iid) es"

definition statuses :: "string \<Rightarrow> event list \<Rightarrow> (client_state \<times> client_state) list" where
  "statuses iid es = List.map_filter (status_of iid) es"

lemma changes_simps [simp]:
  "changes iid [] = []" "changes iid (es @ fs) = changes iid es @ changes iid fs"
  "changes iid (e # es) = (case change_of iid e of None \<Rightarrow> changes iid es | Some x \<Rightarrow> x # changes iid es)"
  by (simp_all add: changes_def List.map_filter_def split: option.split)

lemma statuses_simps [simp]:
  "statuses iid [] = []" "statuses iid (es @ fs) = statuses iid es @ statuses iid fs"
  "statuses iid (e # es) = (case status_of iid e of None \<Rightarrow> statuses iid es | Some x \<Rightarrow> x # statuses iid es)"
  by (simp_all add: statuses_def List.map_filter_def split: option.split)

lemma published_simps [simp]:
  "published [] = []" "published (xs @ ys) = published xs @ published ys"
  "published (CO_Publish e # xs) = e # published xs"
  "published (CO_ResetBreakers # xs) = published xs"
  "published (map CO_Publish es) = es"
  by (simp_all add: published_def List.map_filter_def comp_def)

lemma not_about_client: "\<not> about_client iid e \<longleftrightarrow> change_of iid e = None \<and> status_of iid e = None"
  by (cases e) (auto split: option.splits prod.splits)

lemma quiescent_iff: "quiescent iid s \<longleftrightarrow> changes iid (nt_queue s) = [] \<and> statuses iid (nt_queue s) = []"
proof -
  have "list_all (\<lambda>e. \<not> about_client iid e) es \<longleftrightarrow> changes iid es = [] \<and> statuses iid es = []" for es
    by (induction es) (auto simp: not_about_client split: option.splits)
  then show ?thesis by (simp add: quiescent_def)
qed

text \<open>The changes are the steps of a walk of the state machine.\<close>

fun linked :: "client_state \<Rightarrow> (client_state \<times> client_state) list \<Rightarrow> client_state \<Rightarrow> bool" where
  "linked s [] t = (s = t)"
| "linked s ((old, new) # xs) t = (old = s \<and> new \<in> set (client_transitions old) \<and> linked new xs t)"

lemma linked_append: "linked s (xs @ ys) t \<longleftrightarrow> (\<exists>u. linked s xs u \<and> linked u ys t)"
  by (induction xs arbitrary: s) auto

lemma linked_last: "linked s xs t \<Longrightarrow> xs \<noteq> [] \<Longrightarrow> snd (last xs) = t"
  by (induction s xs t rule: linked.induct) (auto split: if_splits)

lemma linked_reset:
  "linked s xs CONNECTED \<Longrightarrow> s \<noteq> CONNECTED \<Longrightarrow> \<exists>old. (old, CONNECTED) \<in> set xs \<and> old \<in> {CONNECTING, RECONNECTING}"
proof (induction xs arbitrary: s)
  case (Cons x xs)
  obtain old new where x: "x = (old, new)" by force
  show ?case
  proof (cases "new = CONNECTED")
    case True
    with Cons.prems x have "CONNECTED \<in> set (client_transitions old)" by auto
    then have "old \<in> {CONNECTING, RECONNECTING}" by (cases old) auto
    with True x show ?thesis by auto
  next
    case False
    with Cons x show ?thesis by auto
  qed
qed simp

definition wired :: "iface_client \<Rightarrow> bool" where
  "wired cl \<longleftrightarrow> csm_event_bus (cl_state_machine cl) \<and> csm_interface_id (cl_state_machine cl) = cl_interface_id cl \<and>
     cl_subscribed cl"

definition section_ok :: "client_world \<Rightarrow> client_world \<Rightarrow> client_output list \<Rightarrow> bool" where
  "section_ok w w' out \<longleftrightarrow>
     (let iid = cl_interface_id (cw_client w) in
      cl_interface_id (cw_client w') = iid \<and> wired (cw_client w') \<and>
      (\<forall>i. statuses i (published out) = []) \<and> (\<forall>i. i \<noteq> iid \<longrightarrow> changes i (published out) = []) \<and>
      linked (client_state (cw_client w)) (changes iid (published out)) (client_state (cw_client w')) \<and>
      (cw_devices w' = cw_devices w \<or>
       (\<exists>t. cw_devices w' = fst (force_devices t iid FORCE_FALSE (cw_devices w))) \<and> client_state (cw_client w') \<noteq> CONNECTED))"

lemma force_devices_silent [simp]:
  "changes i (snd (force_devices now iid fa ds)) = []" "statuses i (snd (force_devices now iid fa ds)) = []"
  by (induction ds) (auto simp: set_forced_availability_def set_forced_def Let_def case_prod_beta)

lemma transition_published [simp]:
  "wired (cw_client w) \<Longrightarrow> published (transition_outputs now target reason w) =
     [ClientStateChangedEvent now (cl_interface_id (cw_client w)) (client_state (cw_client w)) target (or_none reason)]"
  by (simp add: transition_outputs_def client_emit_state_change_def wired_def client_state_def Let_def)

lemma wired_enter [simp]: "wired (cw_client (enter_state target reason fr w)) = wired (cw_client w)"
  by (simp add: wired_def enter_state_def)

lemma wired_update [simp]:
  "wired (c\<lparr>cl_ping_pong_tracker := pp\<rparr>) = wired c"
  "wired (c\<lparr>cl_reconnect_attempts := n\<rparr>) = wired c"
  "wired (c\<lparr>cl_connection_error_count := k\<rparr>) = wired c"
  "wired (c\<lparr>cl_reconnect_attempts := n, cl_connection_error_count := k\<rparr>) = wired c"
  "wired (c\<lparr>cl_is_callback_alive := b\<rparr>) = wired c"
  "wired (set_modified_at t mt c) = wired c"
  by (simp_all add: wired_def set_modified_at_def)

definition result_ok :: "client_world \<Rightarrow> task_run \<Rightarrow> bool" where
  "result_ok w r \<longleftrightarrow> (case r of ((w', pc, v), out, e) \<Rightarrow> section_ok w w' out)"

lemma result_ok_simp [simp]: "result_ok w ((w', pc, v), out, e) = section_ok w w' out"
  by (simp add: result_ok_def)

lemma section_ok_refl [simp]: "wired (cw_client w) \<Longrightarrow> section_ok w w []"
  by (simp add: section_ok_def)

lemma init_begin_ok: "wired (cw_client w) \<Longrightarrow> result_ok w (init_proxy_begin now r w)"
  by (auto simp: section_defs sm_transition_eq section_ok_def Let_def)

lemma reconnect_begin_ok: "wired (cw_client w) \<Longrightarrow> result_ok w (reconnect_begin tc now w)"
  by (auto simp: section_defs sm_transition_eq section_ok_def Let_def can_reconnect_state)

lemma reinit_begin_ok: "wired (cw_client w) \<Longrightarrow> result_ok w (reinit_proxy_begin now w)"
  by (auto simp: section_defs sm_transition_eq section_ok_def Let_def)

lemma deinit_answered_ok: "wired (cw_client w) \<Longrightarrow> result_ok w (reinit_proxy_deinit_answered now mt a w)"
  by (cases a) (auto simp: section_defs sm_transition_eq section_ok_def Let_def)

lemma init_listed_ok: "wired (cw_client w) \<Longrightarrow> result_ok w (init_proxy_listed now r a w)"
  by (cases a) (auto simp: section_defs sm_transition_eq section_ok_def Let_def split: bool.splits)

lemma init_added_ok: "wired (cw_client w) \<Longrightarrow> result_ok w (init_proxy_added now r a w)"
  by (cases a) (auto simp: section_defs sm_transition_eq section_ok_def Let_def)

lemma init_connected_ok: "wired (cw_client w) \<Longrightarrow> result_ok w (init_proxy_connected now mt r w)"
  by (auto simp: section_defs sm_transition_eq section_ok_def Let_def client_available_state)

lemma init_answered_ok: "wired (cw_client w) \<Longrightarrow> result_ok w (init_proxy_answered now mt r t a w)"
  by (cases a)
    (auto simp: init_connected_ok init_proxy_answered_def finish_init_def init_result_def on_client_def
      sm_transition_eq section_ok_def Let_def)

lemma check_begin_ok:
  assumes "wired (cw_client w)"
  shows "result_ok w (keep_pc pc (check_begin now token cs h w))"
proof -
  obtain pp out where p: "handle_send_ping now cs token (cl_ping_pong_tracker (cw_client w)) = (pp, out)" by force
  have "statuses i (published (map CO_PingPong out)) = [] \<and> changes i (published (map CO_PingPong out)) = []" for i
    using p
    by (auto simp: handle_send_ping_def check_pending_def pp_publish_def published_def List.map_filter_def
        changes_def statuses_def empty_status_def Let_def split: if_splits)
  with assms p show ?thesis
    by (auto simp: keep_pc_def check_begin_def section_ok_def Let_def)
qed

lemma check_evaluate_ok:
  assumes "wired (cw_client w)"
  shows "result_ok w (keep_pc pc (fst (check_evaluate tc now mt w)))"
  using assms
  by (cases "client_state (cw_client w) = CONNECTED")
    (auto simp: keep_pc_def check_evaluate_def sm_transition_eq section_ok_def Let_def)

lemma check_end_ok:
  assumes "wired (cw_client w)"
  shows "result_ok w (keep_pc pc (fst (is_connected_end tc dt now mt a w)))"
proof -
  obtain r w1 where a: "check_connection_availability dt mt a w = (r, w1)" by force
  have w1: "wired (cw_client w1)" "cl_interface_id (cw_client w1) = cl_interface_id (cw_client w)"
    "client_state (cw_client w1) = client_state (cw_client w)" "cw_devices w1 = cw_devices w"
    using a assms
    by (auto simp: check_connection_availability_def split: sum.splits bool.splits if_splits)
  show ?thesis
  proof (cases r)
    case (Inl e)
    with a w1 show ?thesis by (simp add: keep_pc_def is_connected_end_def section_ok_def)
  next
    case (Inr ok)
    have "wired (cw_client (count_check ok w1))"
      using w1 by (simp add: count_check_def)
    from check_evaluate_ok [OF this, of pc tc now mt] a Inr w1 show ?thesis
      by (auto simp: keep_pc_def is_connected_end_def section_ok_def count_check_def Let_def split: prod.splits)
  qed
qed

lemma callback_alive_ok:
  "wired (cw_client w) \<Longrightarrow> result_ok w (keep_pc pc (fst (is_callback_alive tc now mt t w)))"
  by (auto simp: keep_pc_def is_callback_alive_def section_ok_def callback_status_def empty_status_def Let_def
      published_def List.map_filter_def changes_def statuses_def split: option.splits)

lemma keep_on_client [simp]: "keep_pc pc (on_client f w) = ((w\<lparr>cw_client := f (cw_client w)\<rparr>, pc, None), [], None)"
  by (simp add: keep_pc_def on_client_def)

lemma client_react_ok:
  assumes "wired (cw_client w)"
  shows "result_ok w (client_react tc w pc ev)"
  using assms
  by (cases ev)
    (auto simp: init_begin_ok reconnect_begin_ok reinit_begin_ok deinit_answered_ok init_listed_ok init_added_ok
      init_answered_ok check_begin_ok check_end_ok callback_alive_ok section_ok_def
      on_system_status_event_def split: client_pc.splits option.splits)

subsection \<open>The network keeps devices and clients together\<close>

lemma find_client_put [simp]:
  "find_client i (put_client iid cl c) = (if i = iid then map_option (\<lambda>_. cl) (find_client iid c) else find_client i c)"
proof -
  have "dict_get (map (\<lambda>(i, n, cl'). if i = iid then (i, n, cl) else (i, n, cl')) d) i =
      (if i = iid then map_option (\<lambda>(n, _). (n, cl)) (dict_get d i) else dict_get d i)" for d :: "(string, nat \<times> iface_client) dict"
    by (induction d) (auto simp: dict_simps)
  then show ?thesis
    by (auto simp: find_client_def put_client_def option.map_comp comp_def case_prod_beta)
qed

lemma find_client_devices [simp]: "find_client i (c\<lparr>cu_devices := ds\<rparr>) = find_client i c"
  by (simp add: find_client_def)

lemma put_client_devices [simp]: "cu_devices (put_client iid cl c) = cu_devices c"
  by (simp add: put_client_def)

lemma find_client_status [simp]:
  "find_client i (clients_on_status st c) =
     map_option (\<lambda>cl. if cl_subscribed cl then on_system_status_event st cl else cl) (find_client i c)"
proof -
  let ?f = "\<lambda>cl. if cl_subscribed cl then on_system_status_event st cl else cl"
  have "dict_get (map (\<lambda>(i, n, cl). (i, n, ?f cl)) d) i = map_option (\<lambda>(n, cl). (n, ?f cl)) (dict_get d i)"
    for d :: "(string, nat \<times> iface_client) dict"
    by (induction d) (auto simp: dict_simps)
  from this [of "cc_clients (cu_coord c)"] show ?thesis
    unfolding find_client_def clients_on_status_def by (simp add: option.map_comp comp_def case_prod_beta)
qed

lemma on_status_keeps [simp]:
  "client_state (on_system_status_event st cl) = client_state cl"
  "wired (on_system_status_event st cl) = wired cl"
  "cl_interface_id (on_system_status_event st cl) = cl_interface_id cl"
  by (auto simp: on_system_status_event_def split: option.splits)

lemma get_client_find:
  "get_client (Some iid) None (cu_coord c) = (case find_client iid c of None \<Rightarrow> Inl (Interface_Missing iid) | Some cl \<Rightarrow> Inr cl)"
  by (auto simp: get_client_def find_client_def split: option.splits)

lemma evaluate_keeps:
  assumes "evaluate_central_state now tr fs r c = (c', es)"
  shows "cu_coord c' = cu_coord c" and "cu_devices c' = cu_devices c"
    and "changes i es = []" and "statuses i es = []"
proof -
  have move: "cu_coord (fst (central_move a t c)) = cu_coord c \<and> cu_devices (fst (central_move a t c)) = cu_devices c \<and>
      changes i (snd (central_move a t c)) = [] \<and> statuses i (snd (central_move a t c)) = []" for a t
    by (auto simp: central_move_def central_transition_to_def publish_state_change_event_def empty_status_def Let_def
        split: if_splits)
  have "(\<exists>a t. evaluate_central_state now tr fs r c = central_move a t c) \<or> evaluate_central_state now tr fs r c = (c, [])"
    unfolding evaluate_central_state_def Let_def by (auto split: prod.splits)
  with assms move show "cu_coord c' = cu_coord c" "cu_devices c' = cu_devices c" "changes i es = []" "statuses i es = []"
    by (metis fst_conv snd_conv changes_simps(1) statuses_simps(1))+
qed

lemma health_events_silent [simp]:
  "changes i (snd (update_client_health now st iid old new t)) = []"
  "statuses i (snd (update_client_health now st iid old new t)) = []"
  by (auto simp: update_client_health_def emit_health_event_def emit_health_def Let_def split: option.splits)

lemma cu_set_tracker_sel [simp]:
  "find_client i (cu_set_tracker t c) = find_client i c" "cu_devices (cu_set_tracker t c) = cu_devices c"
  "cu_machine (cu_set_tracker t c) = cu_machine c"
  by (simp_all add: cu_set_tracker_def find_client_def)

definition marked_devices :: "client_state option \<Rightarrow> string \<Rightarrow> client_state \<Rightarrow> client_state \<Rightarrow> device list \<Rightarrow> device list \<Rightarrow> bool" where
  \<comment> \<open>how the handler changes the devices, given the state the client has\<close>
  "marked_devices current iid old new ds ds' \<longleftrightarrow>
     (if new \<in> {DISCONNECTED, FAILED} \<and> (current = None \<or> current \<in> {Some DISCONNECTED, Some FAILED})
      then \<exists>t. ds' = fst (force_devices t iid FORCE_FALSE ds)
      else if new = CONNECTED \<and> old \<in> {CONNECTING, DISCONNECTED, FAILED, RECONNECTING}
      then \<exists>t. ds' = fst (force_devices t iid NOT_SET ds)
      else ds' = ds)"

lemma mark_on_event_effect:
  assumes "mark_on_event now iid old new c = (c', es)"
  shows "find_client i c' = find_client i c" and "cu_machine c' = cu_machine c" and "cu_coord c' = cu_coord c"
    and "changes i es = []" and "statuses i es = []"
    and "marked_devices (map_option client_state (find_client iid c)) iid old new (cu_devices c) (cu_devices c')"
  using assms
  by (auto simp: mark_on_event_def cu_force_devices_def marked_devices_def find_client_def case_prod_beta Let_def
      get_client_find split: if_splits option.splits)

lemma central_handler_effect:
  assumes "on_central_status_event now r st c = (c', es)"
  shows "find_client i c' = find_client i c" and "changes i es = []" and "statuses i es = []"
    and "case ss_client_state st of
           None \<Rightarrow> cu_devices c' = cu_devices c
         | Some (iid, old, new) \<Rightarrow>
             marked_devices (map_option client_state (find_client iid c)) iid old new (cu_devices c) (cu_devices c')"
proof -
  have "find_client i c' = find_client i c \<and> changes i es = [] \<and> statuses i es = [] \<and>
      (case ss_client_state st of
         None \<Rightarrow> cu_devices c' = cu_devices c
       | Some (iid, old, new) \<Rightarrow>
           marked_devices (map_option client_state (find_client iid c)) iid old new (cu_devices c) (cu_devices c'))"
  proof (cases "ss_client_state st")
    case None
    with assms show ?thesis by (simp add: on_central_status_event_def)
  next
    case (Some x)
    obtain iid old new where x: "x = (iid, old, new)" by (cases x)
    let ?u = "update_client_health now (zsm_state (cu_machine c)) iid old new (cc_tracker (cu_coord c))"
    obtain c1 es1 where m: "mark_on_event now iid old new (cu_set_tracker (fst ?u) c) = (c1, es1)" by force
    obtain c2 es2 where e: "evaluate_central_state now (''triggered by '' @ iid) False r c1 = (c2, es2)" by force
    from assms Some x m e have c': "(c' = c1 \<and> es = snd ?u @ es1) \<or>
        (c' = cu_set_tracker (sync_central_state (zsm_state (cu_machine c2)) (cc_tracker (cu_coord c2))) c2 \<and>
         es = snd ?u @ es1 @ es2)"
      by (auto simp: on_central_status_event_def case_prod_beta Let_def split: if_splits)
    note k = evaluate_keeps [OF e]
    have f2: "find_client i c2 = find_client i c1" for i
      by (simp add: find_client_def k)
    from c' Some x mark_on_event_effect(1,4,5) [OF m, of i] mark_on_event_effect(6) [OF m] f2 k(2) k(3,4) [of i]
    show ?thesis by auto
  qed
  then show "find_client i c' = find_client i c" and "changes i es = []" and "statuses i es = []"
    and "case ss_client_state st of
           None \<Rightarrow> cu_devices c' = cu_devices c
         | Some (iid, old, new) \<Rightarrow>
             marked_devices (map_option client_state (find_client iid c)) iid old new (cu_devices c) (cu_devices c')"
    by blast+
qed

text \<open>A delivery, seen from one interface with a client.\<close>

definition delivered :: "string \<Rightarrow> event \<Rightarrow> central \<Rightarrow> central \<Rightarrow> event list \<Rightarrow> bool" where
  "delivered i e c c' es \<longleftrightarrow>
     changes i es = [] \<and> statuses i es = (case change_of i e of None \<Rightarrow> [] | Some x \<Rightarrow> [x]) \<and>
     (case status_of i e of
        None \<Rightarrow> all_forced i FORCE_FALSE (cu_devices c') = all_forced i FORCE_FALSE (cu_devices c) \<and>
                none_forced i FORCE_FALSE (cu_devices c') = none_forced i FORCE_FALSE (cu_devices c)
      | Some (old, new) \<Rightarrow>
          marked_devices (map_option client_state (find_client i c)) i old new (cu_devices c) (cu_devices c'))"

definition same_client :: "string \<Rightarrow> central \<Rightarrow> central \<Rightarrow> bool" where
  "same_client i c c' \<longleftrightarrow>
     (case find_client i c of
        None \<Rightarrow> find_client i c' = None
      | Some cl \<Rightarrow> (\<exists>cl'. find_client i c' = Some cl' \<and> client_state cl' = client_state cl \<and>
                          wired cl' = wired cl \<and> cl_interface_id cl' = cl_interface_id cl))"

lemma marked_other:
  assumes "marked_devices cur iid old new ds ds'" and "i \<noteq> iid"
  shows "all_forced i fa ds' = all_forced i fa ds" and "none_forced i fa ds' = none_forced i fa ds"
  using assms by (auto simp: marked_devices_def split: if_splits)

lemma handle_event_same_client:
  assumes "handle_event now r e c = (c', es)"
  shows "same_client i c c'"
proof (cases e)
  case (SystemStatusChangedEvent t st)
  with assms central_handler_effect(1) [of now r st "clients_on_status st c" c' es i] show ?thesis
    by (auto simp: same_client_def split: option.splits)
qed (use assms in \<open>auto simp: same_client_def split: option.splits\<close>)

lemma handle_event_delivered:
  assumes h: "handle_event now r e c = (c', es)" and cl: "find_client i c = Some cl" and w: "wired cl"
  shows "delivered i e c c' es"
proof (cases e)
  case (ClientStateChangedEvent t iid old new trig)
  with assms show ?thesis
    by (auto simp: delivered_def on_client_state_changed_event_def wired_def empty_status_def
        split: option.splits if_splits)
next
  case (SystemStatusChangedEvent t st)
  with h have hc: "on_central_status_event now r st (clients_on_status st c) = (c', es)" by simp
  have st: "map_option client_state (find_client i (clients_on_status st c)) = map_option client_state (find_client i c)" for i
    by (cases "find_client i c") simp_all
  have dv: "cu_devices (clients_on_status st c) = cu_devices c"
    by (simp add: clients_on_status_def)
  note eff = central_handler_effect [OF hc, unfolded st dv]
  show ?thesis
  proof (cases "ss_client_state st")
    case None
    with eff SystemStatusChangedEvent show ?thesis by (simp add: delivered_def)
  next
    case (Some x)
    obtain iid old new where x: "x = (iid, old, new)" by (cases x)
    with eff(2-4) Some SystemStatusChangedEvent marked_other [of _ iid old new "cu_devices c" "cu_devices c'" i]
    show ?thesis by (auto simp: delivered_def)
  qed
qed (use h in \<open>auto simp: delivered_def\<close>)

lemma queue_split:
  assumes "k < length q"
  shows "changes i q = changes i (take k q) @ (case change_of i (q ! k) of None \<Rightarrow> [] | Some x \<Rightarrow> [x]) @ changes i (drop (Suc k) q)"
    and "statuses i q = statuses i (take k q) @ (case status_of i (q ! k) of None \<Rightarrow> [] | Some x \<Rightarrow> [x]) @ statuses i (drop (Suc k) q)"
proof -
  have "q = take k q @ q ! k # drop (Suc k) q"
    by (rule id_take_nth_drop [OF assms])
  then have "changes i q = changes i (take k q @ q ! k # drop (Suc k) q)"
    and "statuses i q = statuses i (take k q @ q ! k # drop (Suc k) q)" by simp_all
  then show "changes i q = changes i (take k q) @ (case change_of i (q ! k) of None \<Rightarrow> [] | Some x \<Rightarrow> [x]) @ changes i (drop (Suc k) q)"
    and "statuses i q = statuses i (take k q) @ (case status_of i (q ! k) of None \<Rightarrow> [] | Some x \<Rightarrow> [x]) @ statuses i (drop (Suc k) q)"
    by (simp_all split: option.split)
qed

subsubsection \<open>The two invariants\<close>

definition reset_pending :: "string \<Rightarrow> event list \<Rightarrow> bool" where
  "reset_pending iid q \<longleftrightarrow>
     (\<exists>old \<in> {CONNECTING, DISCONNECTED, FAILED, RECONNECTING}. (old, CONNECTED) \<in> set (changes iid q) \<union> set (statuses iid q))"

definition client_inv :: "string \<Rightarrow> network \<Rightarrow> iface_client \<Rightarrow> bool" where
  "client_inv i s cl \<longleftrightarrow>
     wired cl \<and> cl_interface_id cl = i \<and>
     (client_state cl = CONNECTED \<longrightarrow>
        none_forced i FORCE_FALSE (cu_devices (nt_central s)) \<or> reset_pending i (nt_queue s))"

definition client_fifo_inv :: "string \<Rightarrow> network \<Rightarrow> iface_client \<Rightarrow> bool" where
  "client_fifo_inv i s cl \<longleftrightarrow>
     client_inv i s cl \<and>
     (let pending = statuses i (nt_queue s) @ changes i (nt_queue s)
      in if pending = []
         then client_state cl \<in> {DISCONNECTED, FAILED} \<longrightarrow> all_forced i FORCE_FALSE (cu_devices (nt_central s))
         else snd (last pending) = client_state cl)"

definition net_inv :: "(string \<Rightarrow> network \<Rightarrow> iface_client \<Rightarrow> bool) \<Rightarrow> network \<Rightarrow> bool" where
  "net_inv P s \<longleftrightarrow> (\<forall>i cl. find_client i (nt_central s) = Some cl \<longrightarrow> P i s cl)"

lemma own_section_inv:
  assumes inv: "client_inv i s cl"
    and ok: "section_ok \<lparr>cw_client = cl, cw_devices = cu_devices (nt_central s)\<rparr> w out"
    and s': "nt_queue s' = nt_queue s @ published out" "cu_devices (nt_central s') = cw_devices w"
  shows "client_inv i s' (cw_client w)"
proof -
  from inv have id: "cl_interface_id cl = i" by (simp add: client_inv_def)
  note ok' = ok [unfolded section_ok_def Let_def, simplified, unfolded id]
  have "none_forced i FORCE_FALSE (cu_devices (nt_central s')) \<or> reset_pending i (nt_queue s')"
    if con: "client_state (cw_client w) = CONNECTED"
  proof (cases "client_state cl = CONNECTED")
    case True
    with inv ok' con show ?thesis
      by (auto simp: client_inv_def reset_pending_def s')
  next
    case False
    have "linked (client_state cl) (changes i (published out)) CONNECTED"
      using ok' con by simp
    from linked_reset [OF this False] show ?thesis
      by (auto simp: reset_pending_def s')
  qed
  with ok' show ?thesis by (simp add: client_inv_def)
qed

lemma own_section_fifo:
  assumes inv: "client_fifo_inv i s cl"
    and ok: "section_ok \<lparr>cw_client = cl, cw_devices = cu_devices (nt_central s)\<rparr> w out"
    and s': "nt_queue s' = nt_queue s @ published out" "cu_devices (nt_central s') = cw_devices w"
  shows "client_fifo_inv i s' (cw_client w)"
proof -
  from inv have ci: "client_inv i s cl" by (simp add: client_fifo_inv_def)
  then have id: "cl_interface_id cl = i" by (simp add: client_inv_def)
  note ok' = ok [unfolded section_ok_def Let_def, simplified, unfolded id]
  let ?ch = "changes i (published out)"
  have q: "statuses i (nt_queue s') @ changes i (nt_queue s') =
      (statuses i (nt_queue s) @ changes i (nt_queue s)) @ ?ch"
    using ok' by (simp add: s')
  show ?thesis
  proof (cases "?ch = []")
    case True
    with ok' have "client_state (cw_client w) = client_state cl" by simp
    with True q inv ok' own_section_inv [OF ci ok s'] show ?thesis
      by (auto simp: client_fifo_inv_def Let_def s' split: if_splits)
  next
    case False
    have "linked (client_state cl) ?ch (client_state (cw_client w))" using ok' by simp
    from linked_last [OF this False] False q own_section_inv [OF ci ok s'] show ?thesis
      by (simp add: client_fifo_inv_def Let_def)
  qed
qed

lemma section_inv:
  assumes inv: "net_inv P s" and P: "P = client_inv \<or> P = client_fifo_inv"
  shows "net_inv P (client_section tc iid ev s)"
proof (cases "find_client iid (nt_central s)")
  case None
  with inv show ?thesis by (simp add: client_section_def)
next
  case (Some cl)
  let ?w = "\<lparr>cw_client = cl, cw_devices = cu_devices (nt_central s)\<rparr>"
  obtain w pc r out e where re: "client_react tc ?w (nt_pc s iid) ev = ((w, pc, r), out, e)"
    by (metis prod.exhaust)
  let ?s = "client_section tc iid ev s"
  from inv Some P have cl: "wired cl" "cl_interface_id cl = iid"
    by (auto simp: net_inv_def client_inv_def client_fifo_inv_def)
  from client_react_ok [of ?w tc "nt_pc s iid" ev] cl re have ok: "section_ok ?w w out" by simp
  have s': "nt_queue ?s = nt_queue s @ published out" "cu_devices (nt_central ?s) = cw_devices w"
    "\<And>i. find_client i (nt_central ?s) = (if i = iid then Some (cw_client w) else find_client i (nt_central s))"
    using Some re by (auto simp: client_section_def)
  show ?thesis
    unfolding net_inv_def
  proof (intro allI impI)
    fix i cl'
    assume fi: "find_client i (nt_central ?s) = Some cl'"
    show "P i ?s cl'"
    proof (cases "i = iid")
      case True
      with fi s' have cl': "cl' = cw_client w" by simp
      have old: "P iid s cl" using inv Some by (simp add: net_inv_def)
      have "client_inv iid ?s (cw_client w)" if "client_inv iid s cl"
        using own_section_inv [OF that ok] s' cl by simp
      moreover have "client_fifo_inv iid ?s (cw_client w)" if "client_fifo_inv iid s cl"
        using own_section_fifo [OF that ok] s' cl by simp
      ultimately show ?thesis
        using P old cl' True by auto
    next
      case False
      with fi s' have "find_client i (nt_central s) = Some cl'" by simp
      with inv have pi: "P i s cl'" by (simp add: net_inv_def)
      have q: "changes i (nt_queue ?s) = changes i (nt_queue s)" "statuses i (nt_queue ?s) = statuses i (nt_queue s)"
        using ok False cl by (simp_all add: section_ok_def Let_def s')
      have "cw_devices w = cu_devices (nt_central s) \<or>
          (\<exists>t. cw_devices w = fst (force_devices t iid FORCE_FALSE (cu_devices (nt_central s))))"
        using ok cl by (auto simp: section_ok_def Let_def)
      then have dv: "all_forced i FORCE_FALSE (cu_devices (nt_central ?s)) = all_forced i FORCE_FALSE (cu_devices (nt_central s))"
        "none_forced i FORCE_FALSE (cu_devices (nt_central ?s)) = none_forced i FORCE_FALSE (cu_devices (nt_central s))"
        using False s'(2) by auto
      from P pi show ?thesis
        unfolding client_inv_def client_fifo_inv_def reset_pending_def Let_def
        by (elim disjE) (simp_all add: client_inv_def client_fifo_inv_def reset_pending_def Let_def q dv)
    qed
  qed
qed

lemma deliver_client_inv:
  assumes inv: "client_inv i s cl" and cl: "find_client i (nt_central s) = Some cl"
    and cl': "find_client i (nt_central (deliver now r k s)) = Some cl'" and k: "k < length (nt_queue s)"
  shows "client_inv i (deliver now r k s) cl'"
proof -
  let ?q = "nt_queue s" and ?c = "nt_central s"
  obtain c' es where h: "handle_event now r (?q ! k) ?c = (c', es)" by force
  have s': "nt_central (deliver now r k s) = c'" "nt_queue (deliver now r k s) = take k ?q @ drop (Suc k) ?q @ es"
    using k h by (simp_all add: deliver_def)
  from inv have w: "wired cl" by (simp add: client_inv_def)
  have same: "client_state cl' = client_state cl" "wired cl'" "cl_interface_id cl' = i"
    using handle_event_same_client [OF h, of i] cl cl' inv by (auto simp: same_client_def s' client_inv_def)
  from handle_event_delivered [OF h cl w] have d: "delivered i (?q ! k) ?c c' es" .
  have "none_forced i FORCE_FALSE (cu_devices c') \<or> reset_pending i (take k ?q @ drop (Suc k) ?q @ es)"
    if con: "client_state cl = CONNECTED"
  proof (cases "status_of i (?q ! k)")
    case None
    with d inv con queue_split [OF k, of i] show ?thesis
      by (auto simp: client_inv_def delivered_def reset_pending_def split: option.splits)
  next
    case (Some x)
    obtain old new where x: "x = (old, new)" by force
    have m: "marked_devices (Some CONNECTED) i old new (cu_devices ?c) (cu_devices c')"
      using d Some x cl con by (simp add: delivered_def)
    show ?thesis
    proof (cases "new = CONNECTED \<and> old \<in> {CONNECTING, DISCONNECTED, FAILED, RECONNECTING}")
      case True
      with m show ?thesis by (auto simp: marked_devices_def)
    next
      case False
      with m have "cu_devices c' = cu_devices ?c" by (auto simp: marked_devices_def split: if_splits)
      with False Some x d inv con queue_split [OF k, of i] show ?thesis
        by (auto simp: client_inv_def delivered_def reset_pending_def split: option.splits)
    qed
  qed
  with same s' show ?thesis by (simp add: client_inv_def)
qed

lemma deliver_fifo_inv:
  assumes inv: "client_fifo_inv i s cl" and cl: "find_client i (nt_central s) = Some cl"
    and cl': "find_client i (nt_central (deliver now r 0 s)) = Some cl'" and k: "0 < length (nt_queue s)"
  shows "client_fifo_inv i (deliver now r 0 s) cl'"
proof -
  let ?q = "nt_queue s" and ?c = "nt_central s" and ?e = "nt_queue s ! 0"
  obtain c' es where h: "handle_event now r ?e ?c = (c', es)" by force
  have s': "nt_central (deliver now r 0 s) = c'" "nt_queue (deliver now r 0 s) = drop (Suc 0) ?q @ es"
    using k h by (simp_all add: deliver_def)
  from inv have ci: "client_inv i s cl" by (simp add: client_fifo_inv_def)
  then have w: "wired cl" by (simp add: client_inv_def)
  have st: "client_state cl' = client_state cl"
    using handle_event_same_client [OF h, of i] cl cl' by (auto simp: same_client_def s')
  from handle_event_delivered [OF h cl w] have d: "delivered i ?e ?c c' es" .
  have ex: "change_of i ?e = None \<or> status_of i ?e = None" by (cases ?e) simp_all
  note q = queue_split [OF k, of i]
  let ?S = "statuses i (drop (Suc 0) ?q)" and ?C = "changes i (drop (Suc 0) ?q)"
  have "if statuses i (drop (Suc 0) ?q @ es) @ changes i (drop (Suc 0) ?q @ es) = []
        then client_state cl \<in> {DISCONNECTED, FAILED} \<longrightarrow> all_forced i FORCE_FALSE (cu_devices c')
        else snd (last (statuses i (drop (Suc 0) ?q @ es) @ changes i (drop (Suc 0) ?q @ es))) = client_state cl"
  proof (cases "status_of i ?e")
    case None
    with d inv q show ?thesis
      by (auto simp: client_fifo_inv_def delivered_def Let_def split: option.splits if_splits)
  next
    case (Some x)
    obtain old new where x: "x = (old, new)" by force
    with Some ex d q have pend: "statuses i ?q @ changes i ?q = (old, new) # ?S @ ?C"
      and es: "statuses i es = []" "changes i es = []"
      by (auto simp: delivered_def)
    have last: "snd (last ((old, new) # ?S @ ?C)) = client_state cl"
      using inv pend by (simp add: client_fifo_inv_def Let_def)
    have m: "marked_devices (Some (client_state cl)) i old new (cu_devices ?c) (cu_devices c')"
      using d Some x cl by (simp add: delivered_def)
    show ?thesis
    proof (cases "?S @ ?C = []")
      case True
      with last have "new = client_state cl" by simp
      with m True es show ?thesis by (auto simp: marked_devices_def)
    next
      case False
      with last es show ?thesis by auto
    qed
  qed
  with deliver_client_inv [OF ci cl cl' k] show ?thesis
    unfolding client_fifo_inv_def Let_def s' st by blast
qed

lemma deliver_had_client:
  assumes "find_client i (nt_central (deliver now r k s)) = Some cl'"
  shows "\<exists>cl. find_client i (nt_central s) = Some cl"
proof (cases "k < length (nt_queue s)")
  case True
  obtain c' es where h: "handle_event now r (nt_queue s ! k) (nt_central s) = (c', es)" by force
  with handle_event_same_client [OF h, of i] True assms show ?thesis
    by (auto simp: same_client_def deliver_def split: option.splits)
next
  case False
  with assms show ?thesis by (simp add: deliver_def)
qed

interpretation any_order: step_system net_step "net_inv client_inv" "\<lambda>_. True"
proof
  fix s e
  assume inv: "net_inv client_inv s"
  show "net_inv client_inv (net_step s e)"
  proof (cases e)
    case (NE_Client tc iid ev)
    with section_inv [OF inv] show ?thesis by simp
  next
    case (NE_Deliver now r k)
    show ?thesis
    proof (cases "k < length (nt_queue s)")
      case True
      with inv deliver_had_client deliver_client_inv [OF _ _ _ True] NE_Deliver show ?thesis
        unfolding net_inv_def by (metis net_step.simps(2))
    next
      case False
      with inv NE_Deliver show ?thesis by (simp add: deliver_def)
    qed
  qed
qed

interpretation in_order: step_system net_step "net_inv client_fifo_inv" first_in_first_out
proof
  fix s e
  assume inv: "net_inv client_fifo_inv s" and fifo: "first_in_first_out e"
  show "net_inv client_fifo_inv (net_step s e)"
  proof (cases e)
    case (NE_Client tc iid ev)
    with section_inv [OF inv] show ?thesis by simp
  next
    case (NE_Deliver now r k)
    with fifo have k: "k = 0" by (simp add: first_in_first_out_def)
    show ?thesis
    proof (cases "0 < length (nt_queue s)")
      case True
      with inv deliver_had_client deliver_fifo_inv [OF _ _ _ True] NE_Deliver k show ?thesis
        unfolding net_inv_def by (metis net_step.simps(2))
    next
      case False
      with inv NE_Deliver k show ?thesis by (simp add: deliver_def)
    qed
  qed
qed

subsection \<open>Evaluation of the central state\<close>

definition connected_clients :: "central \<Rightarrow> iface_client list" where
  "connected_clients c = filter (\<lambda>cl. client_state cl = CONNECTED) (cu_clients c)"

definition lost_clients :: "central \<Rightarrow> iface_client list" where
  "lost_clients c = filter (\<lambda>cl. client_state cl \<noteq> CONNECTED) (cu_clients c)"

lemma all_connected_iff: "list_all (\<lambda>cl. client_state cl = CONNECTED) (cu_clients c) \<longleftrightarrow> lost_clients c = []"
  by (simp add: lost_clients_def filter_empty_conv list_all_iff)

lemma any_connected_iff: "list_ex (\<lambda>cl. client_state cl = CONNECTED) (cu_clients c) \<longleftrightarrow> connected_clients c \<noteq> []"
  by (auto simp: connected_clients_def filter_empty_conv list_ex_iff)

lemma dict_of_distinct:
  assumes "distinct (map f xs)" and "\<forall>x \<in> set xs. f x \<notin> fst ` set d"
  shows "foldl (\<lambda>d x. dict_set (f x) (g x) d) d xs = d @ map (\<lambda>x. (f x, g x)) xs"
  using assms
proof (induction xs arbitrary: d)
  case (Cons x xs)
  have new: "dict_set (f x) (g x) d = d @ [(f x, g x)]"
    using Cons.prems(2) by (induction d) (auto simp: dict_set_def)
  have "foldl (\<lambda>d x. dict_set (f x) (g x) d) (d @ [(f x, g x)]) xs = (d @ [(f x, g x)]) @ map (\<lambda>x. (f x, g x)) xs"
    using Cons.prems by (intro Cons.IH) (simp_all, metis image_eqI)
  with new show ?case by simp
qed simp

lemma degraded_map_eq:
  assumes "distinct (map cl_interface_id (cu_clients c))"
  shows "build_degraded_interfaces_map c =
           map (\<lambda>cl. (cl_interface_id cl,
                      if csm_failure_reason (cl_state_machine cl) \<noteq> FR_NONE
                      then csm_failure_reason (cl_state_machine cl) else FR_UNKNOWN)) (lost_clients c)"
proof -
  have "distinct (map cl_interface_id (lost_clients c))"
    using assms by (simp add: lost_clients_def distinct_map_filter)
  from dict_of_distinct [OF this, where d = "[]"] show ?thesis
    by (simp add: build_degraded_interfaces_map_def lost_clients_def Let_def)
qed

lemma central_move_valid:
  assumes "central_can_transition_to (cu_machine c) t"
  shows "zsm_state (cu_machine (fst (central_move a t c))) = t"
    and "t = C_DEGRADED \<Longrightarrow> zsm_degraded_interfaces (cu_machine (fst (central_move a t c))) =
           (case ta_degraded_interfaces a of None \<Rightarrow> [] | Some d \<Rightarrow> d)"
    and "t = C_FAILED \<Longrightarrow> zsm_failure_reason (cu_machine (fst (central_move a t c))) = ta_failure_reason a"
  using assms
  by (auto simp: central_move_def central_transition_to_def track_failure_def record_history_def Let_def)

lemmas evaluate_simps =
  evaluate_central_state_def Let_def all_connected_iff any_connected_iff central_can_transition_to_def

subsection \<open>Properties\<close>

text \<open>
  C2: Devices follow their client. Take clients that are initialised, with their subscriptions, and
  any history of client sections (reconnects, answers of the backend, connection checks, callbacks)
  interleaved with deliveries of the scheduled events. Once no state change of a client is pending:
  if the client is CONNECTED, none of its devices is forced to be unavailable, whatever the order of
  the deliveries was; and if the events were delivered in the order of their publication and the
  client is DISCONNECTED or FAILED, all of its devices are forced to be unavailable.
\<close>

theorem devices_follow_clients:
  assumes start: "\<forall>i cl. find_client i (nt_central s0) = Some cl \<longrightarrow>
                    wired cl \<and> cl_interface_id cl = i \<and> client_state cl = INITIALIZED"
    and queue: "nt_queue s0 = []"
    and client: "find_client iid (nt_central (foldl net_step s0 es)) = Some cl"
    and rest: "quiescent iid (foldl net_step s0 es)"
  shows "(client_state cl = CONNECTED \<longrightarrow>
            none_forced iid FORCE_FALSE (cu_devices (nt_central (foldl net_step s0 es)))) \<and>
         (list_all first_in_first_out es \<and> client_state cl \<in> {DISCONNECTED, FAILED} \<longrightarrow>
            all_forced iid FORCE_FALSE (cu_devices (nt_central (foldl net_step s0 es))))"
proof -
  let ?s = "foldl net_step s0 es"
  have init: "net_inv client_fifo_inv s0" "net_inv client_inv s0"
    using start queue by (auto simp: net_inv_def client_fifo_inv_def client_inv_def)
  have "client_inv iid ?s cl"
    using any_order.run_inv [OF init(2), of es] client by (simp add: net_inv_def list_all_iff)
  moreover have "client_fifo_inv iid ?s cl" if "list_all first_in_first_out es"
    using in_order.run_inv [OF init(1) that] client by (simp add: net_inv_def)
  ultimately show ?thesis
    using rest by (auto simp: quiescent_iff client_inv_def client_fifo_inv_def reset_pending_def)
qed

definition sample_network :: network where
  \<comment> \<open>one initialised client without callbacks and one device of it\<close>
  "sample_network =
     \<lparr>nt_central =
        \<lparr>cu_machine = (central_sm_init 0 ''c'' True)\<lparr>zsm_state := C_STARTING\<rparr>,
         cu_coord = (client_coord_init ''c'' (health_tracker_init ''c'' True True) [])
           \<lparr>cc_clients := [(''i'', 0, (iface_client_init ''i'' CUXD False False True)
              \<lparr>cl_state_machine := (client_sm_init ''i'' True)\<lparr>csm_state := INITIALIZED\<rparr>\<rparr>)]\<rparr>,
         cu_devices = [\<lparr>dev_address = ''d'', dev_name = ''d'', dev_interface_id = ''i'', dev_forced = NOT_SET,
                        dev_un_reach = None, dev_sticky_un_reach = None\<rparr>]\<rparr>,
      nt_pc = (\<lambda>_. P_Idle), nt_queue = []\<rparr>"

definition sample_history :: "net_event list" where
  "sample_history =
     [NE_Client default_timeout_config ''i'' (CE_StartInit 1),
      NE_Client default_timeout_config ''i'' (CE_ListAnswer 2 (Inr False)),
      NE_Deliver 3 False 0, NE_Deliver 3 False 0, NE_Deliver 3 False 0, NE_Deliver 3 False 0, NE_Deliver 3 False 0]"

theorem devices_follow_clients_witness:
  "all_forced ''i'' FORCE_FALSE (cu_devices (nt_central (foldl net_step sample_network sample_history)))"
proof -
  let ?s = "foldl net_step sample_network sample_history"
  have client: "map_option client_state (find_client ''i'' (nt_central ?s)) = Some FAILED"
    and rest: "quiescent ''i'' ?s"
    by code_simp+
  then obtain cl where cl: "find_client ''i'' (nt_central ?s) = Some cl" "client_state cl = FAILED"
    by auto
  have start: "\<forall>i cl. find_client i (nt_central sample_network) = Some cl \<longrightarrow>
      wired cl \<and> cl_interface_id cl = i \<and> client_state cl = INITIALIZED"
    by (auto simp: sample_network_def find_client_def client_coord_init_def dict_get_def wired_def
        client_state_def client_sm_init_def iface_client_init_def split: if_splits)
  have fifo: "list_all first_in_first_out sample_history"
    by (simp add: sample_history_def first_in_first_out_def)
  show ?thesis
    using devices_follow_clients [OF start _ cl(1) rest] cl(2) fifo
    by (simp add: sample_network_def)
qed

text \<open>
  The central state after an evaluation outside of start. With all clients connected and no
  recovery running an INITIALIZING, DEGRADED or RECOVERING central becomes RUNNING; with some but not
  all connected a RUNNING one becomes DEGRADED and reports exactly the clients that are not connected,
  each with its own failure reason or UNKNOWN; with none connected a DEGRADED one becomes FAILED with
  the reason of the first failed client or NETWORK; in every other case it stays as it is.
\<close>

theorem evaluate_outcome:
  assumes "distinct (map cl_interface_id (cu_clients c))"
  shows "let c' = fst (evaluate_central_state now trigger False in_recovery c); st = zsm_state (cu_machine c) in
         (if cu_clients c \<noteq> [] \<and> lost_clients c = [] \<and> \<not> in_recovery \<and> st \<in> {C_INITIALIZING, C_DEGRADED, C_RECOVERING}
          then zsm_state (cu_machine c') = C_RUNNING
          else if connected_clients c \<noteq> [] \<and> lost_clients c \<noteq> [] \<and> st = C_RUNNING
          then zsm_state (cu_machine c') = C_DEGRADED \<and>
               zsm_degraded_interfaces (cu_machine c') =
                 map (\<lambda>cl. (cl_interface_id cl,
                            if csm_failure_reason (cl_state_machine cl) \<noteq> FR_NONE
                            then csm_failure_reason (cl_state_machine cl) else FR_UNKNOWN)) (lost_clients c)
          else if connected_clients c = [] \<and> st = C_DEGRADED
          then zsm_state (cu_machine c') = C_FAILED \<and>
               zsm_failure_reason (cu_machine c') = fst (determine_failure_info c)
          else c' = c)"
proof -
  obtain fr fi where d: "determine_failure_info c = (fr, fi)" by force
  have none: "cu_clients c = [] \<Longrightarrow> connected_clients c = []"
    by (simp add: connected_clients_def)
  show ?thesis
    using degraded_map_eq [OF assms] d none
    by (cases "zsm_state (cu_machine c)")
      (auto simp: evaluate_simps central_move_valid [unfolded central_can_transition_to_def])
qed

definition sample_central :: central where
  \<comment> \<open>a RUNNING central with one client, whose connection was lost, and one device of it\<close>
  "sample_central =
     \<lparr>cu_machine = (central_sm_init 0 ''c'' True)\<lparr>zsm_state := C_RUNNING\<rparr>,
      cu_coord = (client_coord_init ''c'' (health_tracker_init ''c'' True True) [])
        \<lparr>cc_clients := [(''i'', 0, (iface_client_init ''i'' HMIP_RF True True True)
           \<lparr>cl_state_machine := (client_sm_init ''i'' True)\<lparr>csm_state := DISCONNECTED\<rparr>\<rparr>)]\<rparr>,
      cu_devices = [\<lparr>dev_address = ''d'', dev_name = ''d'', dev_interface_id = ''i'', dev_forced = NOT_SET,
                     dev_un_reach = None, dev_sticky_un_reach = None\<rparr>]\<rparr>"

theorem evaluate_outcome_witness:
  "fst (evaluate_central_state 1 ''t'' False False sample_central) = sample_central"
  using evaluate_outcome [of sample_central 1 "''t''" False]
  by (simp add: sample_central_def cu_clients_def coord_clients_def dict_values_def client_coord_init_def
      connected_clients_def lost_clients_def client_state_def Let_def)

text \<open>
  A RUNNING central that loses all its clients stays RUNNING. Whatever status event arrives, as
  long as no client is connected the handler does not leave RUNNING: FAILED cannot be reached from
  RUNNING, and DEGRADED needs a connected client.
\<close>

theorem all_clients_lost_stays_running:
  assumes "zsm_state (cu_machine c) = C_RUNNING" and "connected_clients c = []"
  shows "zsm_state (cu_machine (fst (on_central_status_event now in_recovery st c))) = C_RUNNING"
proof (cases "ss_client_state st")
  case None
  with assms show ?thesis by (simp add: on_central_status_event_def)
next
  case (Some x)
  obtain iid old new where x: "x = (iid, old, new)" by (cases x)
  let ?u = "update_client_health now (zsm_state (cu_machine c)) iid old new (cc_tracker (cu_coord c))"
  obtain c1 es1 where m: "mark_on_event now iid old new (cu_set_tracker (fst ?u) c) = (c1, es1)" by force
  have c1: "cu_clients c1 = cu_clients c" "cu_machine c1 = cu_machine c"
    using mark_on_event_effect(2,3) [OF m] by (simp_all add: cu_clients_def coord_clients_def cu_set_tracker_def)
  have "cu_clients c1 \<noteq> [] \<longrightarrow> lost_clients c1 \<noteq> []" and "connected_clients c1 = []"
    using assms(2) c1(1) by (auto simp: connected_clients_def lost_clients_def filter_empty_conv neq_Nil_conv)
  then have "evaluate_central_state now (''triggered by '' @ iid) False in_recovery c1 = (c1, [])"
    using assms(1) c1(2) by (auto simp: evaluate_simps)
  with Some x m assms(1) c1(2) show ?thesis
    by (simp add: on_central_status_event_def case_prod_beta Let_def)
qed

theorem all_clients_lost_stays_running_witness:
  "zsm_state (cu_machine (fst (on_central_status_event 1 False
     (empty_status\<lparr>ss_client_state := Some (''i'', CONNECTED, DISCONNECTED)\<rparr>) sample_central))) = C_RUNNING"
  using all_clients_lost_stays_running [of sample_central 1 False
      "empty_status\<lparr>ss_client_state := Some (''i'', CONNECTED, DISCONNECTED)\<rparr>"]
  by (simp add: sample_central_def cu_clients_def coord_clients_def dict_values_def client_coord_init_def
      connected_clients_def client_state_def)

end
