(* ===== verification/Circuit_Breaker.thy ===== *)
theory Circuit_Breaker
  imports Connection_State
begin

section \<open>The circuit breaker (\<open>client/circuit_breaker.py\<close>)\<close>

text \<open>
  \<open>CircuitBreaker\<close> with its three states. The connection state it reports to is shared by all
  breakers of a central, so it is passed to the operations and returned by them next to the
  breaker. What an operation schedules (events on the bus, incident recordings as tasks) is
  returned in order. The several \<open>datetime.now()\<close> of one synchronous operation are one \<open>now\<close>.
\<close>

subsection \<open>Definitions\<close>

record cb_config =
  failure_threshold :: int
  recovery_timeout :: time
  success_threshold :: int

definition default_cb_config :: cb_config where
  "default_cb_config = \<lparr>failure_threshold = 5, recovery_timeout = 30, success_threshold = 2\<rparr>"

record circuit_breaker =
  cb_config :: cb_config
  cb_interface_id :: string
  cb_issuer :: "issuer option"
  cb_event_bus :: bool
  cb_incident_recorder :: bool
  cb_state :: circuit_state
  cb_failure_count :: int
  cb_success_count :: int
  cb_total_requests :: int
  cb_last_failure_time :: "time option"

datatype incident =
    CircuitBreakerTripped string circuit_state int int time "time option" int
  | CircuitBreakerRecovered string int int

datatype cb_output = Publish event | Record_Incident incident

text \<open>The breaker and the connection state, \<open>None\<close> when the breaker was created without one.\<close>

type_synonym cb_world = "circuit_breaker \<times> conn_state option"

definition cb_init :: "cb_config option \<Rightarrow> string \<Rightarrow> issuer option \<Rightarrow> bool \<Rightarrow> bool \<Rightarrow> circuit_breaker" where
  "cb_init config interface_id i event_bus incident_recorder =
     \<lparr>cb_config = (case config of None \<Rightarrow> default_cb_config | Some c \<Rightarrow> c), cb_interface_id = interface_id,
      cb_issuer = i, cb_event_bus = event_bus, cb_incident_recorder = incident_recorder,
      cb_state = CLOSED, cb_failure_count = 0, cb_success_count = 0, cb_total_requests = 0,
      cb_last_failure_time = None\<rparr>"

definition cb_emit_counter :: "time \<Rightarrow> circuit_breaker \<Rightarrow> string \<Rightarrow> cb_output list" where
  "cb_emit_counter now b metric =
     (if \<not> cb_event_bus b then []
      else if metric = ''failure'' then [Publish (emit_counter now (metric_key ''circuit'' ''failure'' (cb_interface_id b)) 1)]
      else if metric = ''rejection'' then [Publish (emit_counter now (metric_key ''circuit'' ''rejection'' (cb_interface_id b)) 1)]
      else [])"

definition cb_emit_state_change_event :: "time \<Rightarrow> circuit_breaker \<Rightarrow> circuit_state \<Rightarrow> circuit_state \<Rightarrow> cb_output list" where
  "cb_emit_state_change_event now b old_state new_state =
     (if \<not> cb_event_bus b then []
      else [Publish (CircuitBreakerStateChangedEvent now (cb_interface_id b) old_state new_state
              (cb_failure_count b) (cb_success_count b) (cb_last_failure_time b))])"

definition cb_emit_state_transition_counter :: "time \<Rightarrow> circuit_breaker \<Rightarrow> cb_output list" where
  "cb_emit_state_transition_counter now b =
     (if \<not> cb_event_bus b then []
      else [Publish (emit_counter now (metric_key ''circuit'' ''state_transition'' (cb_interface_id b)) 1)])"

definition cb_emit_tripped_event :: "time \<Rightarrow> circuit_breaker \<Rightarrow> cb_output list" where
  "cb_emit_tripped_event now b =
     (if \<not> cb_event_bus b then []
      else [Publish (CircuitBreakerTrippedEvent now (cb_interface_id b) (cb_failure_count b) None
              (recovery_timeout (cb_config b)))])"

definition cb_record_recovered_incident :: "circuit_breaker \<Rightarrow> cb_output list" where
  "cb_record_recovered_incident b =
     (if \<not> cb_incident_recorder b then []
      else [Record_Incident (CircuitBreakerRecovered (cb_interface_id b) (cb_success_count b)
              (success_threshold (cb_config b)))])"

definition cb_record_tripped_incident :: "circuit_breaker \<Rightarrow> circuit_state \<Rightarrow> cb_output list" where
  "cb_record_tripped_incident b old_state =
     (if \<not> cb_incident_recorder b then []
      else [Record_Incident (CircuitBreakerTripped (cb_interface_id b) old_state (cb_failure_count b)
              (failure_threshold (cb_config b)) (recovery_timeout (cb_config b)) (cb_last_failure_time b)
              (cb_total_requests b))])"

text \<open>
  The notification of the connection state: skipped unless both the connection state and the issuer
  were given.
\<close>

definition cb_notify ::
  "(issuer \<Rightarrow> string \<Rightarrow> conn_state \<Rightarrow> bool \<times> conn_state \<times> event list) \<Rightarrow> cb_world \<Rightarrow> cb_world \<times> cb_output list" where
  "cb_notify f w =
     (case w of
        (b, Some cs) \<Rightarrow>
          (case cb_issuer b of
             Some i \<Rightarrow> let (_, cs', es) = f i (cb_interface_id b) cs in ((b, Some cs'), map Publish es)
           | None \<Rightarrow> (w, []))
      | (b, None) \<Rightarrow> (w, []))"

definition cb_transition_to :: "time \<Rightarrow> circuit_state \<Rightarrow> cb_world \<Rightarrow> cb_world \<times> cb_output list" where
  "cb_transition_to now new_state w =
     (let (b, cs) = w; old_state = cb_state b
      in if old_state = new_state then (w, [])
         else
           let b1 = b\<lparr>cb_state := new_state\<rparr>;
               out = cb_emit_state_transition_counter now b1
                   @ cb_emit_state_change_event now b1 old_state new_state
                   @ (if new_state = OPEN then cb_emit_tripped_event now b1 @ cb_record_tripped_incident b1 old_state else [])
                   @ (if old_state = HALF_OPEN \<and> new_state = CLOSED then cb_record_recovered_incident b1 else []);
               (w', out') =
                 (case new_state of
                    CLOSED \<Rightarrow> cb_notify (remove_issue now) (b1\<lparr>cb_failure_count := 0, cb_success_count := 0\<rparr>, cs)
                  | OPEN \<Rightarrow> cb_notify (add_issue now) (b1\<lparr>cb_success_count := 0\<rparr>, cs)
                  | HALF_OPEN \<Rightarrow> ((b1\<lparr>cb_success_count := 0\<rparr>, cs), []))
           in (w', out @ out'))"

definition cb_is_available :: "time \<Rightarrow> cb_world \<Rightarrow> bool \<times> cb_world \<times> cb_output list" where
  "cb_is_available now w =
     (let (b, cs) = w
      in case cb_state b of
           CLOSED \<Rightarrow> (True, w, [])
         | OPEN \<Rightarrow>
             (case cb_last_failure_time b of
                Some t \<Rightarrow> if now - t \<ge> recovery_timeout (cb_config b)
                           then let (w', out) = cb_transition_to now HALF_OPEN w in (True, w', out)
                           else (False, w, [])
              | None \<Rightarrow> (False, w, []))
         | HALF_OPEN \<Rightarrow> (True, w, []))"

definition cb_record_failure :: "time \<Rightarrow> cb_world \<Rightarrow> cb_world \<times> cb_output list" where
  "cb_record_failure now w =
     (let (b, cs) = w;
          b1 = b\<lparr>cb_failure_count := cb_failure_count b + 1, cb_total_requests := cb_total_requests b + 1,
                 cb_last_failure_time := Some now\<rparr>;
          (w', out) =
            (case cb_state b1 of
               CLOSED \<Rightarrow> if cb_failure_count b1 \<ge> failure_threshold (cb_config b1)
                          then cb_transition_to now OPEN (b1, cs) else ((b1, cs), [])
             | HALF_OPEN \<Rightarrow> cb_transition_to now OPEN (b1, cs)
             | OPEN \<Rightarrow> ((b1, cs), []))
      in (w', out @ cb_emit_counter now (fst w') ''failure''))"

definition cb_record_rejection :: "time \<Rightarrow> cb_world \<Rightarrow> cb_output list" where
  "cb_record_rejection now w = cb_emit_counter now (fst w) ''rejection''"

definition cb_record_success :: "time \<Rightarrow> cb_world \<Rightarrow> cb_world \<times> cb_output list" where
  "cb_record_success now w =
     (let (b, cs) = w; b1 = b\<lparr>cb_total_requests := cb_total_requests b + 1\<rparr>
      in case cb_state b1 of
           CLOSED \<Rightarrow> ((b1\<lparr>cb_failure_count := 0\<rparr>, cs), [])
         | HALF_OPEN \<Rightarrow>
             let b2 = b1\<lparr>cb_success_count := cb_success_count b1 + 1\<rparr>
             in if cb_success_count b2 \<ge> success_threshold (cb_config b2)
                then cb_transition_to now CLOSED (b2, cs) else ((b2, cs), [])
         | OPEN \<Rightarrow> ((b1, cs), []))"

definition cb_reset :: "cb_world \<Rightarrow> cb_world" where
  "cb_reset w =
     ((fst w)\<lparr>cb_state := CLOSED, cb_failure_count := 0, cb_success_count := 0, cb_total_requests := 0,
              cb_last_failure_time := None\<rparr>, snd w)"

text \<open>The calls of the RPC clients, with the world after each.\<close>

datatype cb_call = Is_Available time | Record_Failure time | Record_Success time | Record_Rejection time | Reset_Breaker

fun cb_step :: "cb_world \<Rightarrow> cb_call \<Rightarrow> cb_world" where
  "cb_step w (Is_Available now) = fst (snd (cb_is_available now w))"
| "cb_step w (Record_Failure now) = fst (cb_record_failure now w)"
| "cb_step w (Record_Success now) = fst (cb_record_success now w)"
| "cb_step w (Record_Rejection now) = w"
| "cb_step w Reset_Breaker = cb_reset w"

definition cb_inv :: "circuit_breaker \<Rightarrow> bool" where
  "cb_inv b \<longleftrightarrow>
     0 \<le> cb_failure_count b \<and> 0 \<le> cb_success_count b \<and> 0 \<le> cb_total_requests b \<and>
     (case cb_state b of
        CLOSED \<Rightarrow> cb_success_count b = 0 \<and> cb_failure_count b < failure_threshold (cb_config b)
      | OPEN \<Rightarrow> cb_success_count b = 0 \<and> cb_last_failure_time b \<noteq> None \<and>
                 failure_threshold (cb_config b) \<le> cb_failure_count b
      | HALF_OPEN \<Rightarrow> cb_success_count b < success_threshold (cb_config b) \<and> cb_last_failure_time b \<noteq> None \<and>
                 failure_threshold (cb_config b) \<le> cb_failure_count b)"

subsection \<open>The breaker and the connection state of one call\<close>

lemma fst_notify [simp]: "fst (fst (cb_notify f w)) = fst w"
  by (simp add: cb_notify_def split: prod.splits option.splits)

lemma cb_transition_breaker [step_simps]:
  "fst (fst (cb_transition_to now s (b, cs))) =
     (if cb_state b = s then b
      else if s = CLOSED then b\<lparr>cb_state := CLOSED, cb_failure_count := 0, cb_success_count := 0\<rparr>
      else b\<lparr>cb_state := s, cb_success_count := 0\<rparr>)"
  by (cases s) (simp_all add: cb_transition_to_def Let_def split_beta)

lemma cb_available_breaker [step_simps]:
  "fst (fst (snd (cb_is_available now (b, cs)))) =
     (case (cb_state b, cb_last_failure_time b) of
        (OPEN, Some t) \<Rightarrow> if recovery_timeout (cb_config b) \<le> now - t
                          then b\<lparr>cb_state := HALF_OPEN, cb_success_count := 0\<rparr> else b
      | _ \<Rightarrow> b)"
  by (simp add: cb_is_available_def Let_def split_beta cb_transition_breaker split: circuit_state.split option.split)

lemma cb_failure_breaker [step_simps]:
  "fst (fst (cb_record_failure now (b, cs))) =
     (let b1 = b\<lparr>cb_failure_count := cb_failure_count b + 1, cb_total_requests := cb_total_requests b + 1,
                  cb_last_failure_time := Some now\<rparr>
      in if cb_state b = HALF_OPEN \<or> cb_state b = CLOSED \<and> failure_threshold (cb_config b) \<le> cb_failure_count b + 1
         then b1\<lparr>cb_state := OPEN, cb_success_count := 0\<rparr> else b1)"
  by (cases "cb_state b") (simp_all add: cb_record_failure_def Let_def split_beta cb_transition_breaker)

lemma cb_success_breaker [step_simps]:
  "fst (fst (cb_record_success now (b, cs))) =
     (let b1 = b\<lparr>cb_total_requests := cb_total_requests b + 1\<rparr>
      in case cb_state b of
           CLOSED \<Rightarrow> b1\<lparr>cb_failure_count := 0\<rparr>
         | OPEN \<Rightarrow> b1
         | HALF_OPEN \<Rightarrow>
             if success_threshold (cb_config b) \<le> cb_success_count b + 1
             then b1\<lparr>cb_state := CLOSED, cb_failure_count := 0, cb_success_count := 0\<rparr>
             else b1\<lparr>cb_success_count := cb_success_count b + 1\<rparr>)"
  by (cases "cb_state b") (simp_all add: cb_record_success_def Let_def split_beta cb_transition_breaker)

text \<open>The configuration, identity and issuer of a breaker never change.\<close>

definition cb_same :: "circuit_breaker \<Rightarrow> circuit_breaker \<Rightarrow> bool" where
  "cb_same b b' \<longleftrightarrow> cb_config b' = cb_config b \<and> cb_interface_id b' = cb_interface_id b \<and> cb_issuer b' = cb_issuer b \<and>
     cb_event_bus b' = cb_event_bus b \<and> cb_incident_recorder b' = cb_incident_recorder b"

lemma cb_step_same: "cb_same (fst w) (fst (cb_step w c))"
  by (cases w; cases c)
    (auto simp: cb_same_def step_simps cb_reset_def Let_def split: circuit_state.split option.split)

lemma cb_run_same: "cb_same (fst w) (fst (foldl cb_step w cs))"
proof (induction cs arbitrary: w)
  case (Cons c cs)
  from Cons [of "cb_step w c"] cb_step_same [of w c] show ?case
    by (simp add: cb_same_def)
qed (simp add: cb_same_def)

lemma cb_step_inv [inv_intros]:
  assumes "cb_inv (fst w)" "0 < failure_threshold (cb_config (fst w))" "0 < success_threshold (cb_config (fst w))"
  shows "cb_inv (fst (cb_step w c))"
proof -
  obtain b cs where w: "w = (b, cs)" by force
  show ?thesis
    using assms unfolding w
    by (cases c; cases "cb_state b")
      (auto simp: cb_inv_def step_simps cb_reset_def Let_def split: option.split)
qed

lemma cb_run_inv:
  "cb_inv (fst w) \<Longrightarrow> 0 < failure_threshold (cb_config (fst w)) \<Longrightarrow> 0 < success_threshold (cb_config (fst w)) \<Longrightarrow>
     cb_inv (fst (foldl cb_step w cs))"
proof (induction cs arbitrary: w)
  case (Cons c cs)
  have "cb_config (fst (cb_step w c)) = cb_config (fst w)"
    using cb_step_same [of w c] by (simp add: cb_same_def)
  with Cons cb_step_inv [of w c] show ?case by simp
qed simp

text \<open>The flag of the breaker in the connection state, when both are attached.\<close>

definition cb_flag_inv :: "cb_world \<Rightarrow> bool" where
  "cb_flag_inv w \<longleftrightarrow>
     (case (snd w, cb_issuer (fst w)) of
        (Some cs, Some i) \<Rightarrow>
          conn_state_inv cs \<and> (is_issue i (cb_interface_id (fst w)) cs \<longleftrightarrow> cb_state (fst w) \<noteq> CLOSED)
      | _ \<Rightarrow> True)"

lemma cb_flag_inv_cong:
  "cb_issuer b' = cb_issuer b \<Longrightarrow> cb_interface_id b' = cb_interface_id b \<Longrightarrow> cb_state b' = cb_state b \<Longrightarrow>
     cb_flag_inv (b', cs) = cb_flag_inv (b, cs)"
  by (auto simp: cb_flag_inv_def split: option.split)

lemma cb_transition_flag:
  assumes "cb_flag_inv (b, cs)" and "s = HALF_OPEN \<longrightarrow> cb_state b = OPEN"
  shows "cb_flag_inv (fst (cb_transition_to now s (b, cs)))"
proof (cases "cb_state b = s \<or> cs = None \<or> cb_issuer b = None")
  case True
  then show ?thesis
    using assms
    by (cases s) (auto simp: cb_flag_inv_def cb_transition_to_def cb_notify_def Let_def split: prod.splits option.splits)
next
  case False
  then obtain c i where ci: "cs = Some c" "cb_issuer b = Some i" by auto
  with assms have inv: "conn_state_inv c" by (simp add: cb_flag_inv_def)
  show ?thesis
    using assms False ci conn.member_add [OF inv, of "(i, cb_interface_id b)" "(i, cb_interface_id b)"]
      conn.member_remove [OF inv, of "(i, cb_interface_id b)" "(i, cb_interface_id b)"]
      conn.inv_add [OF inv] conn.inv_remove [OF inv]
    by (cases s) (auto simp: cb_flag_inv_def cb_transition_to_def cb_notify_def Let_def
        add_issue_conn_add remove_issue_conn_remove)
qed

text \<open>Each operation leaves the world alone, updates counters, or makes one transition.\<close>

lemma cb_available_world:
  "fst (snd (cb_is_available now (b, cs))) =
     (case (cb_state b, cb_last_failure_time b) of
        (OPEN, Some t) \<Rightarrow> if recovery_timeout (cb_config b) \<le> now - t
                          then fst (cb_transition_to now HALF_OPEN (b, cs)) else (b, cs)
      | _ \<Rightarrow> (b, cs))"
  by (simp add: cb_is_available_def Let_def split_beta split: circuit_state.split option.split)

lemma cb_failure_world:
  "fst (cb_record_failure now (b, cs)) =
     (let b1 = b\<lparr>cb_failure_count := cb_failure_count b + 1, cb_total_requests := cb_total_requests b + 1,
                  cb_last_failure_time := Some now\<rparr>
      in if cb_state b = HALF_OPEN \<or> cb_state b = CLOSED \<and> failure_threshold (cb_config b) \<le> cb_failure_count b + 1
         then fst (cb_transition_to now OPEN (b1, cs)) else (b1, cs))"
  by (cases "cb_state b") (simp_all add: cb_record_failure_def Let_def split_beta)

lemma cb_success_world:
  "fst (cb_record_success now (b, cs)) =
     (let b1 = b\<lparr>cb_total_requests := cb_total_requests b + 1\<rparr>;
          b2 = b1\<lparr>cb_success_count := cb_success_count b + 1\<rparr>
      in case cb_state b of
           CLOSED \<Rightarrow> (b1\<lparr>cb_failure_count := 0\<rparr>, cs)
         | OPEN \<Rightarrow> (b1, cs)
         | HALF_OPEN \<Rightarrow>
             if success_threshold (cb_config b) \<le> cb_success_count b + 1
             then fst (cb_transition_to now CLOSED (b2, cs)) else (b2, cs))"
  by (cases "cb_state b") (simp_all add: cb_record_success_def Let_def split_beta)

lemma cb_available_flag: "cb_flag_inv w \<Longrightarrow> cb_flag_inv (fst (snd (cb_is_available now w)))"
  by (cases w) (auto simp: cb_available_world intro: cb_transition_flag split: circuit_state.split option.split)

lemma cb_failure_flag: 
  assumes "cb_flag_inv w"
  shows "cb_flag_inv (fst (cb_record_failure now w))"
proof -
  obtain b cs where w: "w = (b, cs)" by force
  let ?b1 = "b\<lparr>cb_failure_count := cb_failure_count b + 1, cb_total_requests := cb_total_requests b + 1,
                  cb_last_failure_time := Some now\<rparr>"
  have "cb_flag_inv (?b1, cs)"
    using assms w cb_flag_inv_cong [of ?b1 b cs] by simp
  then show ?thesis
    unfolding w cb_failure_world Let_def by (auto intro: cb_transition_flag)
qed

lemma cb_success_flag:
  assumes "cb_flag_inv w"
  shows "cb_flag_inv (fst (cb_record_success now w))"
proof -
  obtain b cs where w: "w = (b, cs)" by force
  have f: "cb_flag_inv (b\<lparr>cb_total_requests := t, cb_failure_count := f\<rparr>, cs)"
    "cb_flag_inv (b\<lparr>cb_total_requests := t, cb_success_count := u\<rparr>, cs)"
    "cb_flag_inv (b\<lparr>cb_total_requests := t\<rparr>, cs)" for f t u
    by (rule cb_flag_inv_cong [of _ b cs, THEN iffD2], use assms w in simp_all)+
  show ?thesis
    unfolding w cb_success_world Let_def
    by (auto intro: cb_transition_flag f split: circuit_state.split)
qed

lemma cb_step_flag: "cb_flag_inv w \<Longrightarrow> c \<noteq> Reset_Breaker \<Longrightarrow> cb_flag_inv (cb_step w c)"
  by (cases c) (auto intro: cb_available_flag cb_failure_flag cb_success_flag simp del: split_paired_All)

lemma cb_run_flag: "cb_flag_inv w \<Longrightarrow> Reset_Breaker \<notin> set cs \<Longrightarrow> cb_flag_inv (foldl cb_step w cs)"
proof (induction cs arbitrary: w)
  case (Cons c cs)
  then have "c \<noteq> Reset_Breaker" by auto
  with Cons cb_step_flag [of w c] show ?case by simp
qed simp

subsection \<open>Runs of failures and of successes\<close>

lemma cb_failures_closed:
  assumes "cb_state (fst w) = CLOSED"
    and "cb_failure_count (fst w) + int (length ts) < failure_threshold (cb_config (fst w))"
  shows "cb_state (fst (foldl cb_step w (map Record_Failure ts))) = CLOSED \<and>
         cb_failure_count (fst (foldl cb_step w (map Record_Failure ts))) = cb_failure_count (fst w) + int (length ts)"
  using assms
proof (induction ts arbitrary: w)
  case (Cons t ts)
  obtain b cs where w: "w = (b, cs)" by force
  from Cons.prems w have "cb_state (fst (cb_step w (Record_Failure t))) = CLOSED"
    "cb_failure_count (fst (cb_step w (Record_Failure t))) = cb_failure_count (fst w) + 1"
    "cb_config (fst (cb_step w (Record_Failure t))) = cb_config (fst w)"
    by (simp_all add: cb_failure_breaker Let_def)
  with Cons.IH [of "cb_step w (Record_Failure t)"] Cons.prems show ?case by simp
qed simp

lemma cb_successes_half_open:
  assumes "cb_state (fst w) = HALF_OPEN"
    and "cb_success_count (fst w) + int (length ts) < success_threshold (cb_config (fst w))"
  shows "cb_state (fst (foldl cb_step w (map Record_Success ts))) = HALF_OPEN \<and>
         cb_success_count (fst (foldl cb_step w (map Record_Success ts))) = cb_success_count (fst w) + int (length ts)"
  using assms
proof (induction ts arbitrary: w)
  case (Cons t ts)
  obtain b cs where w: "w = (b, cs)" by force
  from Cons.prems w have "cb_state (fst (cb_step w (Record_Success t))) = HALF_OPEN"
    "cb_success_count (fst (cb_step w (Record_Success t))) = cb_success_count (fst w) + 1"
    "cb_config (fst (cb_step w (Record_Success t))) = cb_config (fst w)"
    by (simp_all add: cb_success_breaker Let_def)
  with Cons.IH [of "cb_step w (Record_Success t)"] Cons.prems show ?case by simp
qed simp

subsection \<open>Properties\<close>

text \<open>
  The breaker's invariant. With positive thresholds, after any history of calls (availability
  checks, failures, successes, rejections and resets in any order and at any times) the counters are
  non-negative, a CLOSED breaker has fewer failures than the threshold, an OPEN or HALF_OPEN one
  knows the time of the last failure and has at least the threshold of failures, and a HALF_OPEN
  one has fewer successes than needed to close.
\<close>

theorem cb_invariant:
  assumes "0 < failure_threshold c" and "0 < success_threshold c"
  shows "cb_inv (fst (foldl cb_step (cb_init (Some c) iid i bus rec, conn) calls))"
  using assms by (intro cb_run_inv) (simp_all add: cb_inv_def cb_init_def)

theorem cb_invariant_witness:
  "0 < failure_threshold default_cb_config \<and> 0 < success_threshold default_cb_config \<and>
   cb_inv (fst (foldl cb_step (cb_init (Some default_cb_config) ''i'' None True True, None)
     [Record_Failure 1, Is_Available 2, Record_Success 3]))"
  using cb_invariant [of default_cb_config "''i''" None True True None "[Record_Failure 1, Is_Available 2, Record_Success 3]"]
  by (simp add: default_cb_config_def)

text \<open>
  C14: The breaker opens after exactly \<open>failure_threshold\<close> consecutive failures: from a CLOSED
  breaker that has just seen a success, any shorter run of failures leaves it CLOSED, and the
  failure that completes the run opens it, at its own time.
\<close>

theorem cb_opens_at_threshold:
  assumes "cb_state b = CLOSED" and "0 < failure_threshold (cb_config b)"
    and "int (length ts) < failure_threshold (cb_config b)"
  shows "let w = cb_step (b, cs) (Record_Success t0); w' = foldl cb_step w (map Record_Failure ts)
         in cb_state (fst w') = CLOSED \<and>
            (int (length ts) + 1 = failure_threshold (cb_config b) \<longrightarrow>
               cb_state (fst (cb_step w' (Record_Failure t))) = OPEN \<and>
               cb_last_failure_time (fst (cb_step w' (Record_Failure t))) = Some t)"
proof -
  let ?w = "cb_step (b, cs) (Record_Success t0)"
  let ?w' = "foldl cb_step ?w (map Record_Failure ts)"
  have 0: "cb_state (fst ?w) = CLOSED" "cb_failure_count (fst ?w) = 0"
    "cb_config (fst ?w) = cb_config b"
    using assms by (simp_all add: cb_success_breaker Let_def)
  with cb_failures_closed [of ?w ts] assms
  have 1: "cb_state (fst ?w') = CLOSED" "cb_failure_count (fst ?w') = int (length ts)" by simp_all
  have 2: "cb_config (fst ?w') = cb_config b"
    using cb_run_same [of ?w "map Record_Failure ts"] 0 by (simp add: cb_same_def)
  obtain b' cs' where w': "?w' = (b', cs')" by force
  with 1 2 show ?thesis
    unfolding Let_def w' by (simp add: cb_failure_breaker Let_def)
qed

theorem cb_opens_at_threshold_witness:
  "cb_state (fst (foldl cb_step (cb_init None ''i'' None True True, None)
     (Record_Success 0 # map Record_Failure [1, 2, 3, 4]))) = CLOSED \<and>
   cb_state (fst (foldl cb_step (cb_init None ''i'' None True True, None)
     (Record_Success 0 # map Record_Failure [1, 2, 3, 4, 5]))) = OPEN"
  using cb_opens_at_threshold [of "cb_init None ''i'' None True True" "[1, 2, 3, 4]" None 0 5]
  by (simp add: cb_init_def default_cb_config_def Let_def)

text \<open>
  Recovery. An OPEN breaker whose last failure was at time \<open>t\<close> rejects and stays exactly as it
  is before \<open>t + recovery_timeout\<close>, and lets a request through and is HALF_OPEN from then on. From
  there \<open>success_threshold\<close> consecutive successes close it with cleared counters, no shorter
  run does, and a failure before that opens it again, which starts a new timeout.
\<close>

theorem cb_recovery:
  assumes "cb_state b = OPEN" and "cb_last_failure_time b = Some t"
    and "0 < success_threshold (cb_config b)"
    and "int (length ts) + 1 = success_threshold (cb_config b)"
  shows "(now < t + recovery_timeout (cb_config b) \<longrightarrow> cb_is_available now (b, cs) = (False, (b, cs), [])) \<and>
         (t + recovery_timeout (cb_config b) \<le> now \<longrightarrow>
            fst (cb_is_available now (b, cs)) \<and>
            (let w = fst (snd (cb_is_available now (b, cs))); w' = foldl cb_step w (map Record_Success ts)
             in cb_state (fst w) = HALF_OPEN \<and> cb_state (fst w') = HALF_OPEN \<and>
                cb_state (fst (cb_step w' (Record_Success u))) = CLOSED \<and>
                cb_failure_count (fst (cb_step w' (Record_Success u))) = 0 \<and>
                cb_state (fst (cb_step w' (Record_Failure u))) = OPEN \<and>
                cb_last_failure_time (fst (cb_step w' (Record_Failure u))) = Some u))"
proof (intro conjI impI)
  assume "now < t + recovery_timeout (cb_config b)"
  with assms show "cb_is_available now (b, cs) = (False, (b, cs), [])"
    by (simp add: cb_is_available_def Let_def)
next
  assume late: "t + recovery_timeout (cb_config b) \<le> now"
  with assms show "fst (cb_is_available now (b, cs))"
    by (simp add: cb_is_available_def Let_def split_beta)
  let ?w = "fst (snd (cb_is_available now (b, cs)))"
  let ?w' = "foldl cb_step ?w (map Record_Success ts)"
  have 0: "cb_state (fst ?w) = HALF_OPEN" "cb_success_count (fst ?w) = 0" "cb_config (fst ?w) = cb_config b"
    using assms late by (simp_all add: cb_available_breaker)
  with cb_successes_half_open [of ?w ts] assms
  have 1: "cb_state (fst ?w') = HALF_OPEN" "cb_success_count (fst ?w') = int (length ts)" by simp_all
  have 2: "cb_config (fst ?w') = cb_config b"
    using cb_run_same [of ?w "map Record_Success ts"] 0 by (simp add: cb_same_def)
  obtain b' cs' where w': "?w' = (b', cs')" by force
  with 0 1 2 assms show "let w = ?w; w' = foldl cb_step w (map Record_Success ts)
             in cb_state (fst w) = HALF_OPEN \<and> cb_state (fst w') = HALF_OPEN \<and>
                cb_state (fst (cb_step w' (Record_Success u))) = CLOSED \<and>
                cb_failure_count (fst (cb_step w' (Record_Success u))) = 0 \<and>
                cb_state (fst (cb_step w' (Record_Failure u))) = OPEN \<and>
                cb_last_failure_time (fst (cb_step w' (Record_Failure u))) = Some u"
    unfolding Let_def w' by (simp add: cb_success_breaker cb_failure_breaker Let_def)
qed

theorem cb_recovery_witness:
  "let b = (cb_init None ''i'' None True True)\<lparr>cb_state := OPEN, cb_last_failure_time := Some 10\<rparr>
   in \<not> fst (cb_is_available 39 (b, None)) \<and> fst (cb_is_available 40 (b, None)) \<and>
      cb_state (fst (cb_step (cb_step (fst (snd (cb_is_available 40 (b, None)))) (Record_Success 41)) (Record_Success 42))) = CLOSED"
  using cb_recovery [of "(cb_init None ''i'' None True True)\<lparr>cb_state := OPEN, cb_last_failure_time := Some 10\<rparr>"
      10 "[41]" 39 None 42]
    cb_recovery [of "(cb_init None ''i'' None True True)\<lparr>cb_state := OPEN, cb_last_failure_time := Some 10\<rparr>"
      10 "[41]" 40 None 42]
  by (simp add: cb_init_def default_cb_config_def Let_def)

text \<open>
  The connection state mirrors the breaker. If a breaker is created with a connection state
  that has no issue for it, then after any history of calls without \<open>reset\<close> the connection state
  has an issue for the breaker's interface exactly while the breaker is not CLOSED.
\<close>

theorem cb_issue_mirror:
  assumes "Reset_Breaker \<notin> set calls" and "conn_state_inv cs" and "\<not> is_issue i iid cs"
    and "foldl cb_step (cb_init c iid (Some i) bus rec, Some cs) calls = (b, Some cs')"
  shows "is_issue i iid cs' \<longleftrightarrow> cb_state b \<noteq> CLOSED"
proof -
  let ?w0 = "(cb_init c iid (Some i) bus rec, Some cs)"
  have "cb_flag_inv ?w0"
    using assms(2,3) by (simp add: cb_flag_inv_def cb_init_def)
  from cb_run_flag [OF this assms(1)] assms(4) cb_run_same [of ?w0 calls]
  show ?thesis by (simp add: cb_flag_inv_def cb_same_def cb_init_def)
qed

text \<open>
  The breaker keeps its connection state attached, so the hypothesis above is met by every run.
\<close>

theorem cb_issue_mirror_witness:
  "\<exists>b cs'. foldl cb_step (cb_init None ''i'' (Some RpcProxy) False False, Some (conn_state_init False))
     (map Record_Failure [1, 2, 3, 4, 5]) = (b, Some cs') \<and> cb_state b = OPEN \<and> is_issue RpcProxy ''i'' cs'"
proof -
  let ?w = "foldl cb_step (cb_init None ''i'' (Some RpcProxy) False False, Some (conn_state_init False))
     (map Record_Failure [1, 2, 3, 4, 5])"
  obtain b cs' where w: "?w = (b, Some cs')" and o: "cb_state b = OPEN"
    by (simp add: cb_init_def default_cb_config_def cb_record_failure_def cb_transition_to_def cb_notify_def
        add_issue_def conn_state_init_def Let_def)
  with cb_issue_mirror [of "map Record_Failure [1, 2, 3, 4, 5]" "conn_state_init False" RpcProxy "''i''" None False False b cs']
  show ?thesis
    by (auto simp: conn_state_init_def is_issue_def conn_state_inv_def)
qed

text \<open>
  What a trip publishes. The failure that opens a CLOSED breaker publishes, in this order, the
  transition counter, the state change with the failure count that caused it, the tripped event with
  the cooldown, the tripped incident, the status event of the connection state when the issue is
  new, and the failure counter.
\<close>

theorem cb_trip_outputs:
  assumes "cb_state b = CLOSED" and "failure_threshold (cb_config b) \<le> cb_failure_count b + 1"
    and "cb_event_bus b" and "cb_incident_recorder b" and "cb_issuer b = Some i"
  shows "snd (cb_record_failure now (b, Some cs)) =
     [Publish (CounterMetricEvent now (metric_key ''circuit'' ''state_transition'' (cb_interface_id b)) 1),
      Publish (CircuitBreakerStateChangedEvent now (cb_interface_id b) CLOSED OPEN (cb_failure_count b + 1)
        (cb_success_count b) (Some now)),
      Publish (CircuitBreakerTrippedEvent now (cb_interface_id b) (cb_failure_count b + 1) None
        (recovery_timeout (cb_config b))),
      Record_Incident (CircuitBreakerTripped (cb_interface_id b) CLOSED (cb_failure_count b + 1)
        (failure_threshold (cb_config b)) (recovery_timeout (cb_config b)) (Some now) (cb_total_requests b + 1))] @
     (if is_issue i (cb_interface_id b) cs \<or> \<not> cs_event_bus_provider cs then []
      else [Publish (SystemStatusChangedEvent now
              (empty_status\<lparr>ss_connection_state := Some (cb_interface_id b, False)\<rparr>))]) @
     [Publish (CounterMetricEvent now (metric_key ''circuit'' ''failure'' (cb_interface_id b)) 1)]"
  using assms
  by (simp add: cb_record_failure_def cb_transition_to_def cb_notify_def Let_def add_issue_conn_add
      cb_emit_counter_def cb_emit_state_change_event_def cb_emit_state_transition_counter_def
      cb_emit_tripped_event_def cb_record_tripped_incident_def conn_publish_state_change_def emit_counter_def)

theorem cb_trip_outputs_witness:
  "length (snd (cb_record_failure 9 ((cb_init None ''i'' (Some RpcProxy) True True)\<lparr>cb_failure_count := 4\<rparr>,
     Some (conn_state_init True)))) = 6"
  using cb_trip_outputs [of "(cb_init None ''i'' (Some RpcProxy) True True)\<lparr>cb_failure_count := 4\<rparr>"
      RpcProxy 9 "conn_state_init True"]
  by (simp add: cb_init_def default_cb_config_def conn_state_init_def is_issue_def)

end
