(* ===== verification/Rpc_Proxy.thy ===== *)
theory Rpc_Proxy
  imports Circuit_Breaker Rpc_Errors
begin

section \<open>The XML-RPC proxy (\<open>client/rpc_proxy.py\<close>)\<close>

text \<open>
  \<open>AioXmlRpcProxy._async_request\<close> is the client of the circuit breaker and of the connection state.
  It suspends once, while the request runs in the thread pool, so a request is two atomic parts:
  \<open>rpc_begin\<close> up to the network call and \<open>rpc_finish\<close> from its outcome to the end; other requests
  may run between the two. The outcome of the network call belongs to the environment.
\<close>

subsection \<open>Definitions\<close>

definition bypass_methods :: "string list" where
  "bypass_methods = [''getVersion'', ''clientServerInitialized'', ''init'', ''ping'', ''system.listMethods'']"

text \<open>Error numbers of Linux: ENOEXEC 8, ECONNREFUSED 111, EHOSTUNREACH 113, ENETUNREACH 101, ETIMEDOUT 110.\<close>

definition ssl_error_codes :: "int list" where
  "ssl_error_codes = [8]"

definition os_error_codes :: "int list" where
  "os_error_codes = [111, 113, 101, 8, 110]"

definition expected_xmlrpc_fault_codes :: "int list" where
  "expected_xmlrpc_fault_codes = [-1, -2, -3, -5, -9, -10]"

text \<open>An argument of an operating system exception: \<open>args[0]\<close> is the error number, or a text for some timeouts.\<close>

datatype exn_arg = ArgInt int | ArgStr string

definition arg_in :: "exn_arg \<Rightarrow> int list \<Rightarrow> bool" where
  "arg_in a cs = (case a of ArgInt n \<Rightarrow> n \<in> set cs | ArgStr _ \<Rightarrow> False)"

datatype 'v transport_outcome =
    Response 'v
  | Homematic_Error exn
  | SSL_Error "exn_arg list"
  | OS_Error "exn_arg list"
  | Fault int string
  | Type_Error string
  | Protocol_Error string
  | Improper_Connection_State string
  | Expat_Error string
  | Other_Error string string \<comment> \<open>type name and message\<close>
  | Cancelled

datatype 'v rpc_result = Return 'v | Return_None | Raise exn

datatype rpc_output =
    Breaker_Output cb_output
  | Session_Recorded string
  | Rpc_Error_Incident string string bool \<comment> \<open>method, error type, is_expected\<close>

record rpc_proxy =
  rp_supported_methods :: "string list"
  rp_session_active :: bool
  rp_incident_recorder :: bool
  rp_breaker :: circuit_breaker

type_synonym rpc_world = "rpc_proxy \<times> conn_state"

definition rp_iid :: "rpc_world \<Rightarrow> string" where
  "rp_iid w = cb_interface_id (rp_breaker (fst w))"

text \<open>The breaker of the proxy is created with the proxy as issuer and with its connection state.\<close>

definition rpc_proxy_init :: "cb_config option \<Rightarrow> string \<Rightarrow> bool \<Rightarrow> bool \<Rightarrow> bool \<Rightarrow> rpc_proxy" where
  "rpc_proxy_init config iid event_bus incident_recorder session_active =
     \<lparr>rp_supported_methods = [], rp_session_active = session_active, rp_incident_recorder = incident_recorder,
      rp_breaker = cb_init config iid (Some RpcProxy) event_bus incident_recorder\<rparr>"

text \<open>An operation of the breaker inside the proxy, and operations of the connection state for the proxy.\<close>

definition on_breaker :: "(cb_world \<Rightarrow> cb_world \<times> cb_output list) \<Rightarrow> rpc_world \<Rightarrow> rpc_world \<times> rpc_output list" where
  "on_breaker f w =
     (let ((b, cs), out) = f (rp_breaker (fst w), Some (snd w))
      in (((fst w)\<lparr>rp_breaker := b\<rparr>, case cs of Some c \<Rightarrow> c | None \<Rightarrow> snd w), map Breaker_Output out))"

definition rpc_is_issue :: "rpc_world \<Rightarrow> bool" where
  "rpc_is_issue w \<longleftrightarrow> is_issue RpcProxy (rp_iid w) (snd w)"

definition rpc_add_issue :: "time \<Rightarrow> rpc_world \<Rightarrow> rpc_world \<times> rpc_output list" where
  "rpc_add_issue now w =
     (let (_, cs, es) = add_issue now RpcProxy (rp_iid w) (snd w)
      in ((fst w, cs), map (\<lambda>e. Breaker_Output (Publish e)) es))"

text \<open>\<open>clear_connection_issue\<close>.\<close>

definition rpc_clear_connection_issue :: "time \<Rightarrow> rpc_world \<Rightarrow> rpc_world \<times> rpc_output list" where
  "rpc_clear_connection_issue now w =
     (let (_, cs, es) = remove_issue now RpcProxy (rp_iid w) (snd w)
      in ((fst w, cs), map (\<lambda>e. Breaker_Output (Publish e)) es))"

definition rpc_record_session :: "rpc_world \<Rightarrow> string \<Rightarrow> rpc_output list" where
  "rpc_record_session w method =
     (if method = ''ping'' then [] else if rp_session_active (fst w) then [Session_Recorded method] else [])"

definition rpc_error_incident :: "rpc_world \<Rightarrow> string \<Rightarrow> string \<Rightarrow> bool \<Rightarrow> rpc_output list" where
  "rpc_error_incident w method error_type is_expected =
     (if rp_incident_recorder (fst w) then [Rpc_Error_Incident method error_type is_expected] else [])"

text \<open>\<open>do_init\<close>: the methods the backend lists, with \<open>ping\<close> added.\<close>

definition rpc_do_init :: "string list \<Rightarrow> rpc_proxy \<Rightarrow> rpc_proxy" where
  "rpc_do_init supported p =
     (if supported \<noteq> [] then p\<lparr>rp_supported_methods := supported @ [''ping'']\<rparr> else p)"

text \<open>The handler of the library's own exceptions, which raises the exception again.\<close>

definition rpc_on_homematic :: "time \<Rightarrow> string \<Rightarrow> exn \<Rightarrow> rpc_world \<Rightarrow> rpc_world \<times> rpc_output list" where
  "rpc_on_homematic now method e w =
     (let out = rpc_record_session w method
      in if isinstance e NoConnectionException \<and> \<not> isinstance e CircuitBreakerOpenException
         then let (w', out') = on_breaker (cb_record_failure now) w in (w', out @ out')
         else (w, out))"

text \<open>
  The part of \<open>_async_request\<close> before the network call: the exception that leaves the method, or
  \<open>None\<close> when the call is made.
\<close>

definition rpc_begin :: "time \<Rightarrow> string \<Rightarrow> rpc_world \<Rightarrow> exn option \<times> rpc_world \<times> rpc_output list" where
  "rpc_begin now method w =
     (if rp_supported_methods (fst w) \<noteq> [] \<and> method \<notin> set (rp_supported_methods (fst w))
      then let e = new_exn UnsupportedException ''exception.client.xmlrpc.method_unsupported''
           in (Some e, rpc_on_homematic now method e w)
      else
        let (available, w1, out1) =
          (if method \<in> set bypass_methods then (True, w, [])
           else let (a, (b, cs), out) = cb_is_available now (rp_breaker (fst w), Some (snd w))
                in (a, ((fst w)\<lparr>rp_breaker := b\<rparr>, case cs of Some c \<Rightarrow> c | None \<Rightarrow> snd w), map Breaker_Output out))
        in if \<not> available
           then let out2 = map Breaker_Output (cb_record_rejection now (rp_breaker (fst w1), Some (snd w1)));
                    e = new_exn CircuitBreakerOpenException ''exception.client.xmlrpc.circuit_open'';
                    (w', out3) = rpc_on_homematic now method e w1
                in (Some e, w', out1 @ out2 @ out3)
           else if method \<in> set bypass_methods \<or> \<not> rpc_is_issue w1 then (None, w1, out1)
           else let e = new_exn NoConnectionException ''exception.client.xmlrpc.no_connection'';
                    (w', out3) = rpc_on_homematic now method e w1
                in (Some e, w', out1 @ out3))"

text \<open>A failure of the breaker, the incident and the exception raised from the transport's exception.\<close>

definition rpc_fail :: "time \<Rightarrow> string \<Rightarrow> string \<Rightarrow> exn \<Rightarrow> rpc_world \<Rightarrow> 'v rpc_result \<times> rpc_world \<times> rpc_output list" where
  "rpc_fail now method error_type e w =
     (let (w', out) = on_breaker (cb_record_failure now) w
      in (Raise e, w', out @ rpc_error_incident w' method error_type False))"

text \<open>The rest of \<open>_async_request\<close>: the response, or the exception handler of the outcome.\<close>

definition rpc_finish ::
  "time \<Rightarrow> string \<Rightarrow> 'v transport_outcome \<Rightarrow> rpc_world \<Rightarrow> 'v rpc_result \<times> rpc_world \<times> rpc_output list" where
  "rpc_finish now method outcome w =
     (case outcome of
        Response v \<Rightarrow>
          let out0 = rpc_record_session w method;
              (w1, out1) = rpc_clear_connection_issue now w;
              (w2, out2) = on_breaker (cb_record_success now) w1
          in (Return v, w2, out0 @ out1 @ out2)
      | Homematic_Error e \<Rightarrow> (Raise e, rpc_on_homematic now method e w)
      | SSL_Error args \<Rightarrow>
          (case args of
             [] \<Rightarrow> (Raise (new_exn PyIndexError []), w, [])
           | a # as \<Rightarrow>
               if arg_in a ssl_error_codes
               then (if as = [] then (Raise (new_exn PyIndexError []), w, [])
                     else let (w1, out1) = rpc_add_issue now w;
                              (r, w2, out2) = rpc_fail now method ''SSLError''
                                (raise_from (new_exn NoConnectionException ''exception.client.xmlrpc.ssl_error'') (new_exn PySSLError [])) w1
                          in (r, w2, out1 @ out2))
               else rpc_fail now method ''SSLError''
                      (raise_from (new_exn NoConnectionException ''exception.client.xmlrpc.ssl_error'') (new_exn PySSLError [])) w)
      | OS_Error args \<Rightarrow>
          (case args of
             [] \<Rightarrow> (Raise (new_exn PyIndexError []), w, [])
           | a # as \<Rightarrow>
               let (w1, out1) = (if arg_in a os_error_codes then rpc_add_issue now w else (w, []));
                   (r, w2, out2) = rpc_fail now method ''OSError''
                     (raise_from (new_exn NoConnectionException ''exception.client.xmlrpc.os_error'') (new_exn PyOSError [])) w1
               in (r, w2, out1 @ out2))
      | Fault code fs \<Rightarrow>
          (Raise (raise_from
             (map_xmlrpc_fault code fs \<lparr>rc_protocol = ''xml-rpc'', rc_method = method, rc_host = None, rc_interface = Some (rp_iid w)\<rparr>)
             (Exn PyXmlRpcFault fs (Some code) None)),
           w, rpc_error_incident w method ''XMLRPCFault'' (code \<in> set expected_xmlrpc_fault_codes))
      | Type_Error msg \<Rightarrow>
          (Raise (raise_from (new_exn ClientException msg) (new_exn PyTypeError msg)), w,
           rpc_error_incident w method ''TypeError'' False)
      | Protocol_Error errmsg \<Rightarrow>
          (if \<not> rpc_is_issue w
           then (if errmsg = ''Unauthorized''
                 then (Raise (raise_from (new_exn AuthFailure errmsg) (new_exn PyProtocolError errmsg)), w,
                       rpc_error_incident w method ''ProtocolError'' False)
                 else (Raise (raise_from (new_exn NoConnectionException ''exception.client.xmlrpc.no_connection_with_reason'')
                                (new_exn PyProtocolError errmsg)), w,
                       rpc_error_incident w method ''ProtocolError'' False))
           else (Return_None, w, []))
      | Improper_Connection_State msg \<Rightarrow>
          rpc_fail now method ''ImproperConnectionState''
            (raise_from (new_exn NoConnectionException ''exception.client.xmlrpc.http_connection_state_error'')
               (new_exn PyImproperConnectionState msg)) w
      | Expat_Error msg \<Rightarrow>
          (Raise (raise_from (new_exn ClientException msg) (new_exn PyExpatError msg)), w,
           rpc_error_incident w method ''ExpatError'' False)
      | Other_Error type_name msg \<Rightarrow>
          (Raise (raise_from (new_exn ClientException msg) (new_exn PyException msg)), w,
           rpc_error_incident w method type_name False)
      | Cancelled \<Rightarrow> (Raise (new_exn PyCancelledError []), w, []))"

subsection \<open>Effect on the connection state\<close>

lemma add_issue_keeps: "is_issue i iid cs \<Longrightarrow> is_issue i iid (fst (snd (add_issue now i' iid' cs)))"
  by (cases i; cases i') (auto simp: is_issue_def add_issue_def)

lemma cb_notify_world:
  "fst (cb_notify f (b, Some cs)) =
     (b, Some (case cb_issuer b of Some i \<Rightarrow> fst (snd (f i (cb_interface_id b) cs)) | None \<Rightarrow> cs))"
  by (simp add: cb_notify_def split_beta split: option.split)

lemma cb_failure_conn:
  "\<exists>b' cs'. fst (cb_record_failure now (b, Some cs)) = (b', Some cs') \<and> cb_same b b' \<and>
     (is_issue i iid cs \<longrightarrow> is_issue i iid cs')"
proof -
  let ?w = "fst (cb_record_failure now (b, Some cs))"
  have same: "cb_same b (fst ?w)"
    using cb_step_same [of "(b, Some cs)" "Record_Failure now"] by simp
  have "\<exists>b' cs'. ?w = (b', Some cs') \<and> (is_issue i iid cs \<longrightarrow> is_issue i iid cs')"
    by (auto simp: cb_failure_world cb_transition_to_def cb_notify_world Let_def split_beta
        intro: add_issue_keeps split: option.split circuit_state.split)
  with same show ?thesis by auto
qed

lemma cb_available_conn:
  "\<exists>b'. fst (snd (cb_is_available now (b, Some cs))) = (b', Some cs) \<and> cb_same b b'"
proof -
  let ?w = "fst (snd (cb_is_available now (b, Some cs)))"
  have same: "cb_same b (fst ?w)"
    using cb_step_same [of "(b, Some cs)" "Is_Available now"] by simp
  have "\<exists>b'. ?w = (b', Some cs)"
    by (auto simp: cb_available_world cb_transition_to_def Let_def split_beta split: option.split circuit_state.split)
  with same show ?thesis by auto
qed

lemma on_breaker_failure:
  assumes "rpc_is_issue w"
  shows "rpc_is_issue (fst (on_breaker (cb_record_failure now) w))"
proof -
  obtain b' cs' where "fst (cb_record_failure now (rp_breaker (fst w), Some (snd w))) = (b', Some cs')"
    "cb_same (rp_breaker (fst w)) b'" "is_issue RpcProxy (rp_iid w) cs'"
    using cb_failure_conn [of now "rp_breaker (fst w)" "snd w" RpcProxy "rp_iid w"] assms
    by (auto simp: rpc_is_issue_def)
  then show ?thesis
    by (simp add: on_breaker_def rpc_is_issue_def rp_iid_def cb_same_def split_beta Let_def)
qed

lemma on_breaker_success:
  assumes "conn_state_inv (snd w)" and "\<not> rpc_is_issue w"
  shows "\<not> rpc_is_issue (fst (on_breaker (cb_record_success now) w))"
proof -
  let ?b = "rp_breaker (fst w)" and ?cs = "snd w"
  let ?w = "fst (cb_record_success now (?b, Some ?cs))"
  have same: "cb_same ?b (fst ?w)"
    using cb_step_same [of "(?b, Some ?cs)" "Record_Success now"] by simp
  have "\<exists>b' cs'. ?w = (b', Some cs') \<and> \<not> is_issue RpcProxy (rp_iid w) cs'"
    using assms conn.member_remove [OF assms(1), of "(RpcProxy, rp_iid w)"]
    by (auto simp: cb_success_world cb_transition_to_def cb_notify_world remove_issue_conn_remove Let_def split_beta
        rpc_is_issue_def split: option.split circuit_state.split)
  with same show ?thesis
    by (auto simp: on_breaker_def rpc_is_issue_def rp_iid_def cb_same_def split_beta Let_def)
qed

lemma on_homematic_issue:
  "rpc_is_issue w \<Longrightarrow> rpc_is_issue (fst (rpc_on_homematic now method e w))"
  by (simp add: rpc_on_homematic_def on_breaker_failure split_beta Let_def)

lemma begin_blocked:
  assumes "rpc_is_issue w" and "method \<notin> set bypass_methods"
  shows "(\<exists>e. fst (rpc_begin now method w) = Some e) \<and> rpc_is_issue (fst (snd (rpc_begin now method w)))"
proof -
  obtain b' where "fst (snd (cb_is_available now (rp_breaker (fst w), Some (snd w)))) = (b', Some (snd w))"
    "cb_same (rp_breaker (fst w)) b'"
    using cb_available_conn by blast
  then have "rpc_is_issue ((fst w)\<lparr>rp_breaker := b'\<rparr>, snd w)"
    using assms(1) by (simp add: rpc_is_issue_def rp_iid_def cb_same_def)
  then show ?thesis
    using assms \<open>fst (snd _) = _\<close>
    by (auto simp: rpc_begin_def Let_def split_beta intro: on_homematic_issue)
qed

text \<open>A sequence of requests that end before the network call: the worlds they pass through.\<close>

definition rpc_begin_world :: "rpc_world \<Rightarrow> time \<times> string \<Rightarrow> rpc_world" where
  "rpc_begin_world w r = fst (snd (rpc_begin (fst r) (snd r) w))"

lemma begins_blocked:
  "rpc_is_issue w \<Longrightarrow> \<forall>r \<in> set rs. snd r \<notin> set bypass_methods \<Longrightarrow> rpc_is_issue (foldl rpc_begin_world w rs)"
proof (induction rs arbitrary: w)
  case (Cons r rs)
  then show ?case using begin_blocked [of w "snd r" "fst r"] by (simp add: rpc_begin_world_def)
qed simp

subsection \<open>Properties\<close>

text \<open>
  C18: The gate of the proxy. For a supported method, with the breaker OPEN and its recovery
  timeout not over, a regular request is refused with \<open>CircuitBreakerOpenException\<close> before any
  network traffic; breaker and connection state stay as they are. The methods of session management
  and recovery (getVersion, init, ping, ...) always reach the network, whatever the breaker and the
  connection state say.
\<close>

theorem rpc_gate:
  assumes "rp_supported_methods (fst w) = [] \<or> method \<in> set (rp_supported_methods (fst w))"
  shows "(method \<in> set bypass_methods \<longrightarrow> rpc_begin now method w = (None, w, [])) \<and>
         (method \<notin> set bypass_methods \<longrightarrow> cb_state (rp_breaker (fst w)) = OPEN \<longrightarrow>
          (\<forall>t. cb_last_failure_time (rp_breaker (fst w)) = Some t \<longrightarrow>
               now < t + recovery_timeout (cb_config (rp_breaker (fst w))) \<longrightarrow>
               fst (rpc_begin now method w) =
                 Some (new_exn CircuitBreakerOpenException ''exception.client.xmlrpc.circuit_open'') \<and>
               fst (snd (rpc_begin now method w)) = w))"
proof (intro conjI impI allI)
  show "method \<in> set bypass_methods \<Longrightarrow> rpc_begin now method w = (None, w, [])"
    using assms by (simp add: rpc_begin_def Let_def)
  fix t
  assume m: "method \<notin> set bypass_methods" and o: "cb_state (rp_breaker (fst w)) = OPEN"
    and l: "cb_last_failure_time (rp_breaker (fst w)) = Some t"
    and n: "now < t + recovery_timeout (cb_config (rp_breaker (fst w)))"
  have a: "cb_is_available now (rp_breaker (fst w), Some (snd w)) = (False, (rp_breaker (fst w), Some (snd w)), [])"
    using o l n by (simp add: cb_is_available_def Let_def)
  have e: "rpc_on_homematic now method (new_exn CircuitBreakerOpenException ''exception.client.xmlrpc.circuit_open'') w =
      (w, rpc_record_session w method)"
    by (simp add: rpc_on_homematic_def isinstance_def new_exn_def)
  show "fst (rpc_begin now method w) =
      Some (new_exn CircuitBreakerOpenException ''exception.client.xmlrpc.circuit_open'')"
    using assms m a e by (auto simp: rpc_begin_def Let_def)
  show "fst (snd (rpc_begin now method w)) = w"
    using assms m a e by (auto simp: rpc_begin_def Let_def)
qed

theorem rpc_gate_witness:
  "let p = rpc_proxy_init None ''i'' True True False;
       w = (p\<lparr>rp_breaker := (rp_breaker p)\<lparr>cb_state := OPEN, cb_last_failure_time := Some 5\<rparr>\<rparr>, conn_state_init True)
   in fst (rpc_begin 20 ''setValue'' w) =
        Some (new_exn CircuitBreakerOpenException ''exception.client.xmlrpc.circuit_open'') \<and>
      rpc_begin 20 ''ping'' w = (None, w, [])"
proof -
  let ?p = "rpc_proxy_init None ''i'' True True False"
  let ?w = "(?p\<lparr>rp_breaker := (rp_breaker ?p)\<lparr>cb_state := OPEN, cb_last_failure_time := Some 5\<rparr>\<rparr>, conn_state_init True)"
  have s: "rp_supported_methods (fst ?w) = []" "cb_state (rp_breaker (fst ?w)) = OPEN"
    "cb_last_failure_time (rp_breaker (fst ?w)) = Some 5" "cb_config (rp_breaker (fst ?w)) = default_cb_config"
    by (simp_all add: rpc_proxy_init_def cb_init_def)
  show ?thesis
    using rpc_gate [of ?w "''setValue''" 20] rpc_gate [of ?w "''ping''" 20] s
    by (simp add: bypass_methods_def default_cb_config_def Let_def)
qed

text \<open>
  A flagged interface is silent until it is probed. While the connection state has an issue for
  the proxy's interface, no sequence of regular requests, at whatever times, makes a network call or
  clears the issue; in particular the request that finds the breaker's recovery timeout elapsed
  opens the breaker again. Only the response to one of the bypass methods (or
  \<open>clear_connection_issue\<close>) clears the issue.
\<close>

theorem rpc_silent_until_probe:
  assumes "conn_state_inv (snd w)" and "rpc_is_issue w" and "\<forall>r \<in> set rs. snd r \<notin> set bypass_methods" and "method \<notin> set bypass_methods"
  shows "(\<exists>e. fst (rpc_begin now method (foldl rpc_begin_world w rs)) = Some e) \<and>
         rpc_is_issue (foldl rpc_begin_world w rs) \<and>
         (cb_state (rp_breaker (fst w)) = HALF_OPEN \<longrightarrow> rp_supported_methods (fst w) = [] \<longrightarrow>
            cb_state (rp_breaker (fst (rpc_begin_world w (now, method)))) = OPEN) \<and>
         \<not> rpc_is_issue (fst (snd (rpc_finish now probe (Response v) w)))"
proof (intro conjI impI)
  have i: "rpc_is_issue (foldl rpc_begin_world w rs)"
    using begins_blocked [OF assms(2,3)] .
  then show "rpc_is_issue (foldl rpc_begin_world w rs)" .
  show "\<exists>e. fst (rpc_begin now method (foldl rpc_begin_world w rs)) = Some e"
    using begin_blocked [OF i assms(4)] by blast
next
  assume h: "cb_state (rp_breaker (fst w)) = HALF_OPEN" and s: "rp_supported_methods (fst w) = []"
  let ?b = "rp_breaker (fst w)"
  have a: "cb_is_available now (?b, Some (snd w)) = (True, (?b, Some (snd w)), [])"
    using h by (simp add: cb_is_available_def Let_def)
  have "cb_state (fst (fst (cb_record_failure now (?b, Some (snd w))))) = OPEN"
    using h by (simp add: cb_failure_breaker Let_def)
  then have "cb_state (rp_breaker (fst (fst (on_breaker (cb_record_failure now) w)))) = OPEN"
    by (simp add: on_breaker_def Let_def split_beta)
  then show "cb_state (rp_breaker (fst (rpc_begin_world w (now, method)))) = OPEN"
    using a s assms(2,4)
    by (simp add: rpc_begin_world_def rpc_begin_def rpc_on_homematic_def isinstance_def new_exn_def Let_def split_beta)
next
  let ?w1 = "fst (rpc_clear_connection_issue now w)"
  have c: "\<not> rpc_is_issue ?w1" "rp_iid ?w1 = rp_iid w"
    using conn.member_remove [OF assms(1), of "(RpcProxy, rp_iid w)" "(RpcProxy, rp_iid w)"]
    by (simp_all add: rpc_clear_connection_issue_def remove_issue_conn_remove rpc_is_issue_def rp_iid_def)
  have "\<not> rpc_is_issue (fst (on_breaker (cb_record_success now) ?w1))"
    using on_breaker_success [of ?w1] assms(1) c
    by (auto simp: rpc_clear_connection_issue_def remove_issue_conn_remove conn.inv_remove)
  then show "\<not> rpc_is_issue (fst (snd (rpc_finish now probe (Response v) w)))"
    by (simp add: rpc_finish_def Let_def split_beta)
qed

theorem rpc_silent_until_probe_witness:
  "let w = (rpc_proxy_init None ''i'' True True False, conn_add (RpcProxy, ''i'') (conn_state_init True))
   in (\<exists>e. fst (rpc_begin 9 ''setValue'' (foldl rpc_begin_world w [(1, ''getValue''), (2, ''setValue'')])) = Some e) \<and>
      \<not> rpc_is_issue (fst (snd (rpc_finish 10 ''ping'' (Response (0 :: nat)) w)))"
proof -
  let ?w = "(rpc_proxy_init None ''i'' True True False, conn_add (RpcProxy, ''i'') (conn_state_init True))"
  have "rpc_is_issue ?w"
    using conn.member_add [OF conn_state_init_inv, of "(RpcProxy, ''i'')" "(RpcProxy, ''i'')"]
    by (simp add: rpc_is_issue_def rp_iid_def rpc_proxy_init_def cb_init_def)
  then show ?thesis
    using rpc_silent_until_probe [of ?w "[(1, ''getValue''), (2, ''setValue'')]" "''setValue''" 9 "''ping''" "0 :: nat"]
      rpc_silent_until_probe [of ?w "[(1, ''getValue''), (2, ''setValue'')]" "''setValue''" 10 "''ping''" "0 :: nat"]
      conn.inv_add [OF conn_state_init_inv]
    by (simp add: bypass_methods_def Let_def)
qed

text \<open>
  What counts for the breaker. Only a response counts as a success; only errors of the
  connection (SSL and operating system errors, an improper HTTP state, a \<open>NoConnectionException\<close>)
  count as a failure and are then raised as \<open>NoConnectionException\<close>; a fault of the backend, a
  malformed answer, an authentication error and a cancellation leave the breaker and the connection
  state as they are, so a backend that answers is never cut off.
\<close>

theorem rpc_breaker_accounting:
  "let (r, w', _) = rpc_finish now method out w; b = rp_breaker (fst w); b' = rp_breaker (fst w')
   in case out of
        Response v \<Rightarrow> r = Return v \<and> cb_total_requests b' = cb_total_requests b + 1 \<and> cb_last_failure_time b' = cb_last_failure_time b
      | SSL_Error (a # a' # as) \<Rightarrow> (\<exists>e. r = Raise e \<and> isinstance e NoConnectionException) \<and> cb_last_failure_time b' = Some now \<and>
                             cb_total_requests b' = cb_total_requests b + 1
      | OS_Error (a # as) \<Rightarrow> (\<exists>e. r = Raise e \<and> isinstance e NoConnectionException) \<and> cb_last_failure_time b' = Some now \<and>
                             cb_total_requests b' = cb_total_requests b + 1
      | Improper_Connection_State msg \<Rightarrow> (\<exists>e. r = Raise e \<and> isinstance e NoConnectionException) \<and>
                             cb_last_failure_time b' = Some now \<and> cb_total_requests b' = cb_total_requests b + 1
      | Fault code fs \<Rightarrow> (\<exists>e. r = Raise e \<and> \<not> isinstance e NoConnectionException) \<and> w' = w
      | Type_Error msg \<Rightarrow> (\<exists>e. r = Raise e \<and> isinstance e ClientException) \<and> w' = w
      | Expat_Error msg \<Rightarrow> (\<exists>e. r = Raise e \<and> isinstance e ClientException) \<and> w' = w
      | Protocol_Error msg \<Rightarrow> w' = w
      | Cancelled \<Rightarrow> w' = w
      | _ \<Rightarrow> True"
proof -
  have f: "cb_last_failure_time (rp_breaker (fst (fst (on_breaker (cb_record_failure now) v)))) = Some now"
    "cb_total_requests (rp_breaker (fst (fst (on_breaker (cb_record_failure now) v)))) = cb_total_requests (rp_breaker (fst v)) + 1" for v
    by (simp_all add: on_breaker_def cb_failure_breaker split_beta Let_def)
  have s: "cb_last_failure_time (rp_breaker (fst (fst (on_breaker (cb_record_success now) v)))) =
        cb_last_failure_time (rp_breaker (fst v))"
    "cb_total_requests (rp_breaker (fst (fst (on_breaker (cb_record_success now) v)))) = cb_total_requests (rp_breaker (fst v)) + 1" for v
    by (simp_all add: on_breaker_def cb_success_breaker split_beta Let_def split: circuit_state.split)
  have c: "fst (fst (rpc_clear_connection_issue now v)) = fst v" "fst (fst (rpc_add_issue now v)) = fst v" for v
    by (simp_all add: rpc_clear_connection_issue_def rpc_add_issue_def split_beta Let_def)
  show ?thesis
    by (cases out)
      (auto simp: rpc_finish_def rpc_fail_def f s c isinstance_def new_exn_def raise_from_def map_xmlrpc_fault_def
        Let_def split_beta split: list.split)
qed

text \<open>
  A probe of a flagged interface hides an authentication failure. When the connection state has
  an issue for the proxy's interface, a supported \<open>ping\<close>, \<open>init\<close> or other bypass request reaches the
  backend, and if the backend answers with an HTTP error status, unauthorised or not, the request
  returns \<open>None\<close> as a method without result does: nothing is raised or recorded and the issue
  stays. The same answer on an interface without issue raises an authentication failure.
\<close>

theorem rpc_probe_hides_auth_failure:
  assumes "rpc_is_issue w" and "method \<in> set bypass_methods"
    and "rp_supported_methods (fst w) = [] \<or> method \<in> set (rp_supported_methods (fst w))"
  shows "rpc_begin now method w = (None, w, []) \<and>
         rpc_finish now method (Protocol_Error msg) w = (Return_None, w, []) \<and>
         (\<not> rpc_is_issue w' \<longrightarrow>
            (\<exists>e out. rpc_finish now method (Protocol_Error ''Unauthorized'') w' = (Raise e, w', out) \<and>
               exception_to_failure_reason e = FR_AUTH))"
  using assms
  by (auto simp: rpc_begin_def rpc_finish_def Let_def exception_to_failure_reason_def isinstance_def raise_from_def new_exn_def)

theorem rpc_probe_hides_auth_failure_witness:
  "rpc_finish 1 ''ping'' (Protocol_Error ''Unauthorized'')
     (rpc_proxy_init None ''i'' True True False, conn_add (RpcProxy, ''i'') (conn_state_init True)) =
   (Return_None :: nat rpc_result,
    (rpc_proxy_init None ''i'' True True False, conn_add (RpcProxy, ''i'') (conn_state_init True)), [])"
proof -
  let ?w = "(rpc_proxy_init None ''i'' True True False, conn_add (RpcProxy, ''i'') (conn_state_init True))"
  have "rpc_is_issue ?w" "rp_supported_methods (fst ?w) = []"
    using conn.member_add [OF conn_state_init_inv, of "(RpcProxy, ''i'')" "(RpcProxy, ''i'')"]
    by (simp_all add: rpc_is_issue_def rp_iid_def rpc_proxy_init_def cb_init_def)
  then show ?thesis
    using rpc_probe_hides_auth_failure [of ?w "''ping''" 1 "''Unauthorized''" ?w, where 'a = nat]
    by (simp add: bypass_methods_def)
qed

end
