(* ===== verification/Command_Retry.thy ===== *)
theory Command_Retry
  imports Rpc_Errors
begin

section \<open>Command retry (\<open>client/command_retry.py\<close>)\<close>

text \<open>
  \<open>CommandRetryHandler\<close>. Any number of commands retry at the same time, so the model is a system of
  tasks that share the handler. \<open>execute_with_retry\<close> is cut at its \<open>await\<close>s: a task waits for the
  operation, sleeps, or waits for the recovery of the connection, and each event of the environment
  (the outcome of the operation, the end of a wait, a cancellation by another caller) runs the code up
  to the next \<open>await\<close>. A cancel event (\<open>asyncio.Event\<close>) is identified by the number of the task that
  created it.
\<close>

subsection \<open>Classification of failures\<close>

definition retryable_fault_codes :: "int list" where
  "retryable_fault_codes = [-1, -8, -9, -10]"

definition non_retryable_exceptions :: "exn_class list" where
  "non_retryable_exceptions =
     [AuthFailure, CircuitBreakerOpenException, CommandSupersededError, UnsupportedException, ValidationException]"

text \<open>\<open>_get_fault_code\<close> walks the \<open>__cause__\<close> chain; only XML-RPC faults have a fault code.\<close>

fun fault_in_chain :: "exn option \<Rightarrow> int option" where
  "fault_in_chain None = None"
| "fault_in_chain (Some (Exn c m f cause)) = (case f of Some n \<Rightarrow> Some n | None \<Rightarrow> fault_in_chain cause)"

definition get_fault_code :: "exn \<Rightarrow> int option" where
  "get_fault_code e = fault_in_chain (exn_cause e)"

definition is_retryable :: "exn \<Rightarrow> bool" where
  "is_retryable e =
     (if list_ex (isinstance e) non_retryable_exceptions then False
      else if isinstance e PyTimeoutError \<or> isinstance e NoConnectionException \<or> isinstance e InternalBackendException
      then True
      else if isinstance e BaseHomematicException
      then (case get_fault_code e of Some c \<Rightarrow> c \<in> set retryable_fault_codes | None \<Rightarrow> False)
      else False)"

text \<open>\<open>_calculate_delay\<close>: \<open>u\<close> is the value \<open>random.uniform(-0.2, 0.2)\<close> returns.\<close>

definition calculate_delay :: "timeout_config \<Rightarrow> int \<Rightarrow> exn \<Rightarrow> real \<Rightarrow> time" where
  "calculate_delay tc attempt e u =
     (let fault_code = get_fault_code e
      in if fault_code = Some (-8) then command_retry_duty_cycle_delay tc
         else if fault_code = Some (-10) then command_retry_transmission_pending_delay tc
         else let delay = command_retry_base_delay tc * command_retry_backoff_factor tc ^ nat (attempt - 1);
                  delay = min delay (command_retry_max_delay tc);
                  jitter = delay * u
              in max 0 (delay + jitter))"

subsection \<open>Handler, tasks and operations\<close>

record retry_metrics =
  total_retries :: int
  successful_retries :: int
  exhausted_retries :: int
  recovery_waits :: int
  recovery_wait_timeouts :: int
  cancelled_retries :: int

definition zero_metrics :: retry_metrics where
  "zero_metrics = \<lparr>total_retries = 0, successful_retries = 0, exhausted_retries = 0, recovery_waits = 0,
     recovery_wait_timeouts = 0, cancelled_retries = 0\<rparr>"

datatype 'v retry_phase =
    Running int \<comment> \<open>awaiting the operation of an attempt\<close>
  | Sleeping int exn time
  | Recovery_Wait int exn
  | Done "exn + 'v"

record 'v retry_task =
  rt_dpk :: data_point_key
  rt_phase :: "'v retry_phase"

text \<open>The handler with its tasks: \<open>rh_set\<close> holds the cancel events that are set.\<close>

record 'v retry_sys =
  rh_config :: timeout_config
  rh_metrics :: retry_metrics
  rh_active :: "(data_point_key, nat) dict"
  rh_set :: "nat list"
  rh_tasks :: "'v retry_task list"

definition retry_init :: "timeout_config \<Rightarrow> 'v retry_sys" where
  "retry_init tc = \<lparr>rh_config = tc, rh_metrics = zero_metrics, rh_active = [], rh_set = [], rh_tasks = []\<rparr>"

definition active_retry_count :: "'v retry_sys \<Rightarrow> nat" where
  "active_retry_count s = length (rh_active s)"

definition retry_enabled :: "'v retry_sys \<Rightarrow> bool" where
  "retry_enabled s \<longleftrightarrow> command_retry_max_attempts (rh_config s) > 0"

definition count_cancelled :: "retry_metrics \<Rightarrow> retry_metrics" where
  "count_cancelled mt = mt\<lparr>cancelled_retries := cancelled_retries mt + 1\<rparr>"

definition cancel_retry_for_dpk :: "data_point_key \<Rightarrow> 'v retry_sys \<Rightarrow> nat \<times> 'v retry_sys" where
  "cancel_retry_for_dpk dpk s =
     (case dict_get (rh_active s) dpk of
        Some i \<Rightarrow> (1, s\<lparr>rh_active := dict_del dpk (rh_active s), rh_set := i # rh_set s,
                        rh_metrics := count_cancelled (rh_metrics s)\<rparr>)
      | None \<Rightarrow> (0, s))"

fun cancel_all :: "data_point_key list \<Rightarrow> 'v retry_sys \<Rightarrow> 'v retry_sys" where
  "cancel_all [] s = s"
| "cancel_all (dpk # ks) s = cancel_all ks (snd (cancel_retry_for_dpk dpk s))"

definition of_device :: "string \<Rightarrow> data_point_key \<Rightarrow> bool" where
  "of_device device_address dpk \<longleftrightarrow>
     dpk_channel_address dpk = device_address \<or> prefix (device_address @ '':'') (dpk_channel_address dpk)"

definition cancel_retries_for_device :: "string \<Rightarrow> 'v retry_sys \<Rightarrow> nat \<times> 'v retry_sys" where
  "cancel_retries_for_device device_address s =
     (let to_cancel = filter (of_device device_address) (dict_keys (rh_active s))
      in (length to_cancel, cancel_all to_cancel s))"

definition cancel_retries_for_interface :: "'v retry_sys \<Rightarrow> nat \<times> 'v retry_sys" where
  "cancel_retries_for_interface s = (length (rh_active s), cancel_all (dict_keys (rh_active s)) s)"

text \<open>\<open>_register_retry\<close>: the new task supersedes the active one of the same data point.\<close>

definition register_retry :: "data_point_key \<Rightarrow> 'v retry_sys \<Rightarrow> 'v retry_sys" where
  "register_retry dpk s =
     (let s1 = (case dict_get (rh_active s) dpk of
                  Some i \<Rightarrow> s\<lparr>rh_set := i # rh_set s, rh_metrics := count_cancelled (rh_metrics s)\<rparr>
                | None \<Rightarrow> s);
          i = length (rh_tasks s)
      in s1\<lparr>rh_active := dict_set dpk i (rh_active s1),
            rh_tasks := rh_tasks s1 @ [\<lparr>rt_dpk = dpk, rt_phase = Running 1\<rparr>]\<rparr>)"

definition set_phase :: "nat \<Rightarrow> 'v retry_phase \<Rightarrow> 'v retry_sys \<Rightarrow> 'v retry_sys" where
  "set_phase i p s = s\<lparr>rh_tasks := (rh_tasks s)[i := (rh_tasks s ! i)\<lparr>rt_phase := p\<rparr>]\<rparr>"

text \<open>The end of \<open>execute_with_retry\<close> with its \<open>finally\<close> clause.\<close>

definition retry_finish :: "nat \<Rightarrow> exn + 'v \<Rightarrow> 'v retry_sys \<Rightarrow> 'v retry_sys" where
  "retry_finish i r s =
     (let dpk = rt_dpk (rh_tasks s ! i);
          s1 = (if dict_get (rh_active s) dpk = Some i then s\<lparr>rh_active := dict_del dpk (rh_active s)\<rparr> else s)
      in set_phase i (Done r) s1)"

text \<open>The head of the loop: the check of the cancel event, then the next attempt or the end of the range.\<close>

definition retry_attempt :: "nat \<Rightarrow> int \<Rightarrow> exn \<Rightarrow> 'v retry_sys \<Rightarrow> 'v retry_sys" where
  "retry_attempt i attempt last_exception s =
     (if attempt > command_retry_max_attempts (rh_config s) then retry_finish i (Inl last_exception) s
      else if i \<in> set (rh_set s) then retry_finish i (Inl (new_exn CommandSupersededError [])) s
      else set_phase i (Running attempt) s)"

definition upd_metrics :: "(retry_metrics \<Rightarrow> retry_metrics) \<Rightarrow> 'v retry_sys \<Rightarrow> 'v retry_sys" where
  "upd_metrics f s = s\<lparr>rh_metrics := f (rh_metrics s)\<rparr>"

text \<open>The operation of an attempt has returned or raised.\<close>

definition retry_op_result :: "nat \<Rightarrow> int \<Rightarrow> exn + 'v \<Rightarrow> real \<Rightarrow> 'v retry_sys \<Rightarrow> 'v retry_sys" where
  "retry_op_result i attempt r u s =
     (case r of
        Inl e \<Rightarrow>
          if \<not> is_retryable e then retry_finish i (Inl e) s
          else if attempt \<ge> command_retry_max_attempts (rh_config s)
          then retry_finish i (Inl e) (upd_metrics (\<lambda>mt. mt\<lparr>exhausted_retries := exhausted_retries mt + 1\<rparr>) s)
          else
            let delay = calculate_delay (rh_config s) attempt e u;
                s1 = upd_metrics (\<lambda>mt. mt\<lparr>total_retries := total_retries mt + 1\<rparr>) s
            in if isinstance e NoConnectionException
               then set_phase i (Recovery_Wait attempt e)
                      (upd_metrics (\<lambda>mt. mt\<lparr>recovery_waits := recovery_waits mt + 1\<rparr>) s1)
               else set_phase i (Sleeping attempt e delay) s1
      | Inr v \<Rightarrow>
          retry_finish i (Inr v)
            (if attempt > 1 then upd_metrics (\<lambda>mt. mt\<lparr>successful_retries := successful_retries mt + 1\<rparr>) s else s))"

text \<open>
  \<open>_interruptible_sleep\<close> returns because the cancel event is set or because the delay is over; the
  loop then checks the event again.
\<close>

definition retry_sleep_end :: "nat \<Rightarrow> int \<Rightarrow> exn \<Rightarrow> 'v retry_sys \<Rightarrow> 'v retry_sys" where
  "retry_sleep_end i attempt e s =
     (if i \<in> set (rh_set s) then retry_finish i (Inl (new_exn CommandSupersededError [])) s
      else retry_attempt i (attempt + 1) e s)"

text \<open>\<open>_wait_for_recovery\<close> returns; \<open>recovered\<close> tells whether a matching \<open>RecoveryCompletedEvent\<close> came.\<close>

definition retry_recovery_end :: "nat \<Rightarrow> int \<Rightarrow> exn \<Rightarrow> bool \<Rightarrow> 'v retry_sys \<Rightarrow> 'v retry_sys" where
  "retry_recovery_end i attempt e recovered s =
     (if i \<in> set (rh_set s) then retry_finish i (Inl (new_exn CommandSupersededError [])) s
      else if recovered then retry_attempt i (attempt + 1) e s
      else retry_finish i (Inl e) (upd_metrics (\<lambda>mt. mt\<lparr>recovery_wait_timeouts := recovery_wait_timeouts mt + 1\<rparr>) s))"

text \<open>
  The events. \<open>Start_Retry\<close> is a call of \<open>execute_with_retry\<close>; with retries disabled for the call or
  globally it awaits the operation directly and touches nothing of the handler. An event for a task
  in another phase cannot happen and changes nothing.
\<close>

datatype 'v retry_event =
    Start_Retry data_point_key bool
  | Op_Result nat "exn + 'v" real
  | Wait_End nat bool
  | Task_Cancelled nat
  | Cancel_Dpk data_point_key
  | Cancel_Device string
  | Cancel_Interface

fun retry_step :: "'v retry_sys \<Rightarrow> 'v retry_event \<Rightarrow> 'v retry_sys" where
  "retry_step s (Start_Retry dpk retry) =
     (if \<not> retry \<or> command_retry_max_attempts (rh_config s) \<le> 0 then s else register_retry dpk s)"
| "retry_step s (Op_Result i r u) =
     (if i < length (rh_tasks s)
      then (case rt_phase (rh_tasks s ! i) of Running a \<Rightarrow> retry_op_result i a r u s | _ \<Rightarrow> s) else s)"
| "retry_step s (Wait_End i recovered) =
     (if i < length (rh_tasks s)
      then (case rt_phase (rh_tasks s ! i) of
              Sleeping a e d \<Rightarrow> retry_sleep_end i a e s
            | Recovery_Wait a e \<Rightarrow> retry_recovery_end i a e recovered s
            | _ \<Rightarrow> s) else s)"
| "retry_step s (Task_Cancelled i) =
     (if i < length (rh_tasks s)
      then (case rt_phase (rh_tasks s ! i) of
              Sleeping a e d \<Rightarrow> retry_finish i (Inl (new_exn PyCancelledError [])) s
            | Recovery_Wait a e \<Rightarrow> retry_finish i (Inl (new_exn PyCancelledError [])) s
            | _ \<Rightarrow> s) else s)"
| "retry_step s (Cancel_Dpk dpk) = snd (cancel_retry_for_dpk dpk s)"
| "retry_step s (Cancel_Device a) = snd (cancel_retries_for_device a s)"
| "retry_step s Cancel_Interface = snd (cancel_retries_for_interface s)"

subsection \<open>Invariant\<close>

definition live :: "'v retry_sys \<Rightarrow> nat \<Rightarrow> bool" where
  "live s i \<longleftrightarrow> i < length (rh_tasks s) \<and> (case rt_phase (rh_tasks s ! i) of Done _ \<Rightarrow> False | _ \<Rightarrow> True)"

fun attempt_of :: "'v retry_phase \<Rightarrow> int" where
  "attempt_of (Running a) = a"
| "attempt_of (Sleeping a e d) = a"
| "attempt_of (Recovery_Wait a e) = a"
| "attempt_of (Done r) = 1"

definition retry_inv :: "'v retry_sys \<Rightarrow> bool" where
  "retry_inv s \<longleftrightarrow>
     dict_wf (rh_active s) \<and>
     (\<forall>i \<in> set (rh_set s). i < length (rh_tasks s)) \<and>
     (\<forall>dpk i. dict_get (rh_active s) dpk = Some i \<longrightarrow> live s i \<and> i \<notin> set (rh_set s) \<and> rt_dpk (rh_tasks s ! i) = dpk) \<and>
     (\<forall>i. live s i \<longrightarrow> i \<in> set (rh_set s) \<or> dict_get (rh_active s) (rt_dpk (rh_tasks s ! i)) = Some i) \<and>
     (\<forall>i < length (rh_tasks s). 1 \<le> attempt_of (rt_phase (rh_tasks s ! i)) \<and>
        attempt_of (rt_phase (rh_tasks s ! i)) \<le> max 1 (command_retry_max_attempts (rh_config s)))"

lemma retry_invI:
  assumes "dict_wf (rh_active s)"
    and "\<And>i. i \<in> set (rh_set s) \<Longrightarrow> i < length (rh_tasks s)"
    and "\<And>dpk i. dict_get (rh_active s) dpk = Some i \<Longrightarrow> live s i \<and> i \<notin> set (rh_set s) \<and> rt_dpk (rh_tasks s ! i) = dpk"
    and "\<And>i. live s i \<Longrightarrow> i \<in> set (rh_set s) \<or> dict_get (rh_active s) (rt_dpk (rh_tasks s ! i)) = Some i"
    and "\<And>i. i < length (rh_tasks s) \<Longrightarrow> 1 \<le> attempt_of (rt_phase (rh_tasks s ! i)) \<and>
        attempt_of (rt_phase (rh_tasks s ! i)) \<le> max 1 (command_retry_max_attempts (rh_config s))"
  shows "retry_inv s"
  using assms by (simp add: retry_inv_def)

lemma retry_invD:
  assumes "retry_inv s"
  shows "dict_wf (rh_active s)"
    and "i \<in> set (rh_set s) \<Longrightarrow> i < length (rh_tasks s)"
    and "dict_get (rh_active s) dpk = Some i \<Longrightarrow> live s i"
    and "dict_get (rh_active s) dpk = Some i \<Longrightarrow> i \<notin> set (rh_set s)"
    and "dict_get (rh_active s) dpk = Some i \<Longrightarrow> rt_dpk (rh_tasks s ! i) = dpk"
    and "live s i \<Longrightarrow> i \<notin> set (rh_set s) \<Longrightarrow> dict_get (rh_active s) (rt_dpk (rh_tasks s ! i)) = Some i"
    and "i < length (rh_tasks s) \<Longrightarrow> 1 \<le> attempt_of (rt_phase (rh_tasks s ! i))"
    and "i < length (rh_tasks s) \<Longrightarrow>
      attempt_of (rt_phase (rh_tasks s ! i)) \<le> max 1 (command_retry_max_attempts (rh_config s))"
  using assms unfolding retry_inv_def by blast+

lemma retry_init_inv: "retry_inv (retry_init tc)"
  by (rule retry_invI) (simp_all add: retry_init_def live_def)

lemma inv_metrics [simp]: "retry_inv (upd_metrics f s) = retry_inv s"
  by (simp add: retry_inv_def upd_metrics_def live_def)

lemma live_metrics [simp]: "live (upd_metrics f s) i = live s i"
  by (simp add: upd_metrics_def live_def)

lemma upd_metrics_simps [simp]:
  "rh_config (upd_metrics f s) = rh_config s" "rh_tasks (upd_metrics f s) = rh_tasks s"
  "rh_active (upd_metrics f s) = rh_active s" "rh_set (upd_metrics f s) = rh_set s"
  by (simp_all add: upd_metrics_def)

lemma set_phase_simps [simp]:
  "rh_config (set_phase i p s) = rh_config s" "rh_active (set_phase i p s) = rh_active s"
  "rh_set (set_phase i p s) = rh_set s" "rh_metrics (set_phase i p s) = rh_metrics s"
  "length (rh_tasks (set_phase i p s)) = length (rh_tasks s)"
  by (simp_all add: set_phase_def)

lemma task_set_phase:
  "i < length (rh_tasks s) \<Longrightarrow>
     rh_tasks (set_phase i p s) ! j = (if j = i then (rh_tasks s ! i)\<lparr>rt_phase := p\<rparr> else rh_tasks s ! j)"
  by (simp add: set_phase_def)

lemma liveD: "live s i \<Longrightarrow> i < length (rh_tasks s)"
  by (simp add: live_def)

lemma live_set_phase:
  "i < length (rh_tasks s) \<Longrightarrow>
     live (set_phase i p s) j = (if j = i then (case p of Done _ \<Rightarrow> False | _ \<Rightarrow> True) else live s j)"
  by (auto simp: live_def task_set_phase)

lemma dpk_set_phase [simp]: "rt_dpk (rh_tasks (set_phase i p s) ! j) = rt_dpk (rh_tasks s ! j)"
  by (cases "i < length (rh_tasks s)") (simp_all add: set_phase_def nth_list_update list_update_beyond)

lemma set_phase_inv [inv_intros]:
  assumes inv: "retry_inv s" and l: "live s i"
    and p: "case p of Done _ \<Rightarrow> False | _ \<Rightarrow> True" "1 \<le> attempt_of p" "attempt_of p \<le> max 1 (command_retry_max_attempts (rh_config s))"
  shows "retry_inv (set_phase i p s)"
proof -
  note i = liveD [OF l]
  have lv: "live (set_phase i p s) j = live s j" for j
    using p(1) l by (simp add: live_set_phase [OF i])
  show ?thesis
  proof (rule retry_invI, unfold lv set_phase_simps dpk_set_phase)
    fix j
    show "live s j \<Longrightarrow> j \<in> set (rh_set s) \<or> dict_get (rh_active s) (rt_dpk (rh_tasks s ! j)) = Some j"
      using retry_invD(6) [OF inv] by blast
    assume "j < length (rh_tasks s)"
    then show "1 \<le> attempt_of (rt_phase (rh_tasks (set_phase i p s) ! j)) \<and>
        attempt_of (rt_phase (rh_tasks (set_phase i p s) ! j)) \<le> max 1 (command_retry_max_attempts (rh_config s))"
      using retry_invD(7,8) [OF inv] p by (simp add: task_set_phase [OF i])
  qed (use retry_invD [OF inv] in blast)+
qed

lemma retry_finish_simps [simp]:
  "rh_config (retry_finish i r s) = rh_config s" "rh_set (retry_finish i r s) = rh_set s"
  "rh_metrics (retry_finish i r s) = rh_metrics s"
  "length (rh_tasks (retry_finish i r s)) = length (rh_tasks s)"
  "rt_dpk (rh_tasks (retry_finish i r s) ! j) = rt_dpk (rh_tasks s ! j)"
  by (simp_all add: retry_finish_def Let_def)

lemma live_finish: "i < length (rh_tasks s) \<Longrightarrow> live (retry_finish i r s) j \<longleftrightarrow> j \<noteq> i \<and> live s j"
  by (simp add: retry_finish_def Let_def live_set_phase) (auto simp: live_def)

lemma active_finish:
  "dict_get (rh_active (retry_finish i r s)) d =
     (if dict_get (rh_active s) (rt_dpk (rh_tasks s ! i)) = Some i \<and> d = rt_dpk (rh_tasks s ! i) then None
      else dict_get (rh_active s) d)"
  by (simp add: retry_finish_def Let_def)

lemma task_finish:
  "i < length (rh_tasks s) \<Longrightarrow>
     rt_phase (rh_tasks (retry_finish i r s) ! j) = (if j = i then Done r else rt_phase (rh_tasks s ! j))"
  by (simp add: retry_finish_def Let_def task_set_phase)

lemma retry_finish_inv [inv_intros]:
  assumes inv: "retry_inv s" and l: "live s i"
  shows "retry_inv (retry_finish i r s)"
proof (rule retry_invI, unfold live_finish [OF liveD [OF l]] retry_finish_simps)
  show "dict_wf (rh_active (retry_finish i r s))"
    using retry_invD(1) [OF inv] by (simp add: retry_finish_def Let_def)
  show "j \<in> set (rh_set s) \<Longrightarrow> j < length (rh_tasks s)" for j
    using retry_invD(2) [OF inv] .
  show "(j \<noteq> i \<and> live s j) \<and> j \<notin> set (rh_set s) \<and> rt_dpk (rh_tasks s ! j) = dpk"
    if "dict_get (rh_active (retry_finish i r s)) dpk = Some j" for dpk j
  proof -
    from that have a: "dict_get (rh_active s) dpk = Some j"
      and n: "\<not> (dict_get (rh_active s) (rt_dpk (rh_tasks s ! i)) = Some i \<and> dpk = rt_dpk (rh_tasks s ! i))"
      by (simp_all add: active_finish split: if_splits)
    have "j \<noteq> i"
      using n a retry_invD(5) [OF inv a] by auto
    with retry_invD(3-5) [OF inv a] show ?thesis by simp
  qed
  show "j \<in> set (rh_set s) \<or> dict_get (rh_active (retry_finish i r s)) (rt_dpk (rh_tasks s ! j)) = Some j"
    if "j \<noteq> i \<and> live s j" for j
  proof (cases "j \<in> set (rh_set s)")
    case False
    with that retry_invD(6) [OF inv, of j] have "dict_get (rh_active s) (rt_dpk (rh_tasks s ! j)) = Some j" by blast
    with that show ?thesis by (auto simp: active_finish)
  qed simp
  show "1 \<le> attempt_of (rt_phase (rh_tasks (retry_finish i r s) ! j)) \<and>
      attempt_of (rt_phase (rh_tasks (retry_finish i r s) ! j)) \<le> max 1 (command_retry_max_attempts (rh_config s))"
    if "j < length (rh_tasks s)" for j
    using that retry_invD(7,8) [OF inv] by (simp add: task_finish [OF liveD [OF l]])
qed

lemma cancel_dpk_inv [inv_intros]:
  assumes inv: "retry_inv s"
  shows "retry_inv (snd (cancel_retry_for_dpk dpk s))"
proof (cases "dict_get (rh_active s) dpk")
  case (Some i)
  let ?s = "snd (cancel_retry_for_dpk dpk s)"
  have s: "rh_tasks ?s = rh_tasks s" "rh_config ?s = rh_config s" "rh_set ?s = i # rh_set s"
    "rh_active ?s = dict_del dpk (rh_active s)"
    using Some by (simp_all add: cancel_retry_for_dpk_def)
  have lv: "live ?s j = live s j" for j by (simp add: live_def s)
  note D = retry_invD [OF inv]
  show ?thesis
  proof (rule retry_invI, unfold lv s)
    show "j \<in> set (i # rh_set s) \<Longrightarrow> j < length (rh_tasks s)" for j
      using D(2) liveD [OF D(3) [OF Some]] by auto
    show "live s j \<and> j \<notin> set (i # rh_set s) \<and> rt_dpk (rh_tasks s ! j) = d"
      if "dict_get (dict_del dpk (rh_active s)) d = Some j" for d j
      using that D(3-5) D(5) [OF Some] by (auto split: if_splits)
    show "j \<in> set (i # rh_set s) \<or> dict_get (dict_del dpk (rh_active s)) (rt_dpk (rh_tasks s ! j)) = Some j"
      if "live s j" for j
      using D(6) [OF that] Some by auto
  qed (use D in auto)
next
  case None
  with inv show ?thesis by (simp add: cancel_retry_for_dpk_def)
qed

lemma cancel_all_inv [inv_intros]: "retry_inv s \<Longrightarrow> retry_inv (cancel_all ks s)"
  by (induction ks s rule: cancel_all.induct) (auto intro: cancel_dpk_inv)

lemma register_inv [inv_intros]:
  assumes inv: "retry_inv s"
  shows "retry_inv (register_retry dpk s)"
proof -
  let ?s = "register_retry dpk s" and ?n = "length (rh_tasks s)"
  let ?set = "(case dict_get (rh_active s) dpk of Some i \<Rightarrow> [i] | None \<Rightarrow> []) @ rh_set s"
  let ?t = "\<lparr>rt_dpk = dpk, rt_phase = Running 1\<rparr>"
  note D = retry_invD [OF inv]
  have s: "rh_tasks ?s = rh_tasks s @ [?t]" "rh_config ?s = rh_config s" "rh_set ?s = ?set"
    "rh_active ?s = dict_set dpk ?n (rh_active s)"
    by (simp_all add: register_retry_def Let_def split: option.split)
  have lv: "live ?s j \<longleftrightarrow> j = ?n \<or> live s j" for j
    by (auto simp: live_def s nth_append less_Suc_eq)
  have set_lt: "j < ?n" if "j \<in> set ?set" for j
    using that D(2) liveD [OF D(3)] by (auto split: option.splits)
  show ?thesis
  proof (rule retry_invI, unfold lv s)
    show "j < length (rh_tasks s @ [?t])" if "j \<in> set ?set" for j
      using set_lt [OF that] by simp
    show "(j = ?n \<or> live s j) \<and> j \<notin> set ?set \<and> rt_dpk ((rh_tasks s @ [?t]) ! j) = d"
      if g: "dict_get (dict_set dpk ?n (rh_active s)) d = Some j" for d j
    proof (cases "d = dpk")
      case True
      with g have "j = ?n" by simp
      with True show ?thesis using set_lt [of ?n] by auto
    next
      case False
      with g have a: "dict_get (rh_active s) d = Some j" by simp
      have "j \<notin> set ?set"
        using D(4) [OF a] D(5) [OF a] D(5) [of dpk j] False by (auto split: option.splits)
      with D(3,5) [OF a] liveD [OF D(3) [OF a]] show ?thesis by (simp add: nth_append)
    qed
    show "j \<in> set ?set \<or> dict_get (dict_set dpk ?n (rh_active s)) (rt_dpk ((rh_tasks s @ [?t]) ! j)) = Some j"
      if "j = ?n \<or> live s j" for j
      using that
    proof
      assume l: "live s j"
      from D(6) [OF l] liveD [OF l] show ?thesis by (auto simp: nth_append split: option.splits)
    qed simp
    show "1 \<le> attempt_of (rt_phase ((rh_tasks s @ [?t]) ! j)) \<and>
        attempt_of (rt_phase ((rh_tasks s @ [?t]) ! j)) \<le> max 1 (command_retry_max_attempts (rh_config s))"
      if "j < length (rh_tasks s @ [?t])" for j
      using that D(7,8) by (auto simp: nth_append less_Suc_eq)
  qed (use D(1) in simp)
qed

lemma retry_attempt_inv [inv_intros]:
  "retry_inv s \<Longrightarrow> live s i \<Longrightarrow> 1 \<le> a \<Longrightarrow> retry_inv (retry_attempt i a e s)"
  by (auto simp: retry_attempt_def intro!: retry_finish_inv set_phase_inv)

lemma retry_step_inv [inv_intros]:
  assumes inv: "retry_inv s"
  shows "retry_inv (retry_step s ev)"
proof (cases ev)
  case (Op_Result i r u)
  show ?thesis
  proof (cases "i < length (rh_tasks s) \<and> (\<exists>a. rt_phase (rh_tasks s ! i) = Running a)")
    case True
    then obtain a where i: "i < length (rh_tasks s)" and a: "rt_phase (rh_tasks s ! i) = Running a" by auto
    then have l: "live s i" by (simp add: live_def)
    have b: "1 \<le> a" "a \<le> max 1 (command_retry_max_attempts (rh_config s))"
      using retry_invD(7,8) [OF inv i] a by simp_all
    have "retry_inv (retry_op_result i a r u s)"
      using inv l b
      by (auto simp: retry_op_result_def Let_def intro!: retry_finish_inv set_phase_inv split: sum.split)
    with i a show ?thesis by (simp add: Op_Result)
  next
    case False
    with inv show ?thesis by (auto simp: Op_Result split: retry_phase.split)
  qed
next
  case (Wait_End i recovered)
  show ?thesis
  proof (cases "i < length (rh_tasks s)")
    case i: True
    have b: "1 \<le> attempt_of (rt_phase (rh_tasks s ! i))"
      using retry_invD(7) [OF inv i] .
    show ?thesis
      using inv b i
      by (auto simp: Wait_End retry_sleep_end_def retry_recovery_end_def live_def
          intro!: retry_finish_inv retry_attempt_inv split: retry_phase.split)
  qed (use inv in \<open>simp add: Wait_End\<close>)
next
  case (Task_Cancelled i)
  with inv show ?thesis by (auto intro!: retry_finish_inv simp: live_def split: retry_phase.split)
qed (use inv in \<open>auto simp: cancel_retries_for_device_def cancel_retries_for_interface_def Let_def
    intro: register_inv cancel_dpk_inv cancel_all_inv\<close>)

lemma retry_run_inv: "retry_inv s \<Longrightarrow> retry_inv (foldl retry_step s evs)"
  by (induction evs arbitrary: s) (auto intro: retry_step_inv)

subsection \<open>Superseded tasks\<close>

text \<open>
  How a step may change the phase of a task whose cancel event is set: not at all, to the end, or
  from the running operation to a wait.
\<close>

definition wind_down :: "'v retry_phase \<Rightarrow> 'v retry_phase \<Rightarrow> bool" where
  "wind_down p p' \<longleftrightarrow> (\<forall>a. p' = Running a \<longrightarrow> p = Running a) \<and> (\<forall>r. p = Done r \<longrightarrow> p' = Done r)"

lemma wind_down_refl [simp]: "wind_down p p"
  by (simp add: wind_down_def)

lemma wind_down_trans: "wind_down p q \<Longrightarrow> wind_down q r \<Longrightarrow> wind_down p r"
  unfolding wind_down_def by blast

lemma cancel_dpk_tasks [simp]:
  "rh_tasks (snd (cancel_retry_for_dpk dpk s)) = rh_tasks s"
  "rh_config (snd (cancel_retry_for_dpk dpk s)) = rh_config s"
  "set (rh_set s) \<subseteq> set (rh_set (snd (cancel_retry_for_dpk dpk s)))"
  by (auto simp: cancel_retry_for_dpk_def split: option.split)

lemma cancel_all_tasks [simp]:
  "rh_tasks (cancel_all ks s) = rh_tasks s" "rh_config (cancel_all ks s) = rh_config s"
  by (induction ks s rule: cancel_all.induct) simp_all

lemma cancel_all_set: "set (rh_set s) \<subseteq> set (rh_set (cancel_all ks s))"
proof (induction ks s rule: cancel_all.induct)
  case (2 dpk ks s)
  then show ?case using cancel_dpk_tasks(3) [of s dpk] unfolding cancel_all.simps by (rule subset_trans [rotated])
qed simp

lemma retry_attempt_simps [simp]:
  "rh_config (retry_attempt i a e s) = rh_config s" "rh_set (retry_attempt i a e s) = rh_set s"
  "length (rh_tasks (retry_attempt i a e s)) = length (rh_tasks s)"
  by (simp_all add: retry_attempt_def)

lemma retry_step_frame:
  "rh_config (retry_step s ev) = rh_config s \<and> length (rh_tasks s) \<le> length (rh_tasks (retry_step s ev)) \<and>
   set (rh_set s) \<subseteq> set (rh_set (retry_step s ev))"
  by (cases ev)
    (auto simp: register_retry_def retry_op_result_def retry_sleep_end_def retry_recovery_end_def
      cancel_retries_for_device_def cancel_retries_for_interface_def Let_def
      dest: subsetD [OF cancel_dpk_tasks(3)] subsetD [OF cancel_all_set]
      split: option.split retry_phase.split sum.split)

lemma wind_down_step:
  assumes i: "i < length (rh_tasks s)" and c: "i \<in> set (rh_set s)"
  shows "wind_down (rt_phase (rh_tasks s ! i)) (rt_phase (rh_tasks (retry_step s ev) ! i))"
  by (cases ev)
    (use i c in \<open>auto simp: wind_down_def register_retry_def retry_op_result_def retry_sleep_end_def
      retry_recovery_end_def retry_attempt_def task_finish task_set_phase nth_append
      cancel_retries_for_device_def cancel_retries_for_interface_def Let_def
      split: option.splits retry_phase.splits sum.splits if_splits\<close>)

lemma wind_down_run:
  "i < length (rh_tasks s) \<Longrightarrow> i \<in> set (rh_set s) \<Longrightarrow>
     wind_down (rt_phase (rh_tasks s ! i)) (rt_phase (rh_tasks (foldl retry_step s evs) ! i))"
proof (induction evs arbitrary: s)
  case (Cons ev evs)
  have "i < length (rh_tasks (retry_step s ev))" "i \<in> set (rh_set (retry_step s ev))"
    using retry_step_frame [of s ev] Cons.prems by auto
  from wind_down_trans [OF wind_down_step [OF Cons.prems] Cons.IH [OF this]] show ?case by simp
qed simp

subsection \<open>Properties\<close>

text \<open>
  C9: One active retry per data point. After any interleaving of starts, operation results, waits,
  task cancellations and purges: the active dictionary has an entry for a data point exactly when a
  command for it is in flight that nobody superseded or cancelled; there is never more than one such
  command per data point; and no task is beyond the configured number of attempts.
\<close>

theorem retry_single_flight:
  fixes evs :: "'v retry_event list"
  shows "let s = foldl retry_step (retry_init tc) evs
   in (\<forall>dpk i. dict_get (rh_active s) dpk = Some i \<longleftrightarrow>
          live s i \<and> i \<notin> set (rh_set s) \<and> rt_dpk (rh_tasks s ! i) = dpk) \<and>
      (\<forall>i j. live s i \<and> live s j \<and> i \<notin> set (rh_set s) \<and> j \<notin> set (rh_set s) \<and>
          rt_dpk (rh_tasks s ! i) = rt_dpk (rh_tasks s ! j) \<longrightarrow> i = j) \<and>
      (\<forall>i < length (rh_tasks s). attempt_of (rt_phase (rh_tasks s ! i)) \<le> max 1 (command_retry_max_attempts tc))"
proof -
  let ?s = "foldl retry_step (retry_init tc) evs :: 'v retry_sys"
  have inv: "retry_inv ?s" using retry_run_inv [OF retry_init_inv] .
  note D = retry_invD [OF inv]
  have cfg: "rh_config (foldl retry_step s evs) = rh_config s" for s :: "'v retry_sys" and evs
    by (induction evs arbitrary: s) (use retry_step_frame in auto)
  have a: "dict_get (rh_active ?s) dpk = Some i \<longleftrightarrow> live ?s i \<and> i \<notin> set (rh_set ?s) \<and> rt_dpk (rh_tasks ?s ! i) = dpk" for dpk i
    using D(3-6) by blast
  have b: "i = j" if "live ?s i \<and> live ?s j \<and> i \<notin> set (rh_set ?s) \<and> j \<notin> set (rh_set ?s) \<and>
      rt_dpk (rh_tasks ?s ! i) = rt_dpk (rh_tasks ?s ! j)" for i j
  proof -
    from that have "dict_get (rh_active ?s) (rt_dpk (rh_tasks ?s ! j)) = Some i"
      "dict_get (rh_active ?s) (rt_dpk (rh_tasks ?s ! j)) = Some j" by (simp_all add: a)
    then show ?thesis by simp
  qed
  have c: "attempt_of (rt_phase (rh_tasks ?s ! i)) \<le> max 1 (command_retry_max_attempts tc)"
    if "i < length (rh_tasks ?s)" for i
    using D(8) [OF that] by (simp add: cfg retry_init_def)
  show ?thesis unfolding Let_def using a b c by blast
qed

text \<open>Two commands for one data point: the second supersedes the first, whose operation still runs.\<close>

theorem retry_single_flight_witness:
  "let d = \<lparr>dpk_interface_id = ''i'', dpk_channel_address = ''A:1'', dpk_paramset_key = PK_VALUES, dpk_parameter = ''STATE''\<rparr>;
       s = foldl retry_step (retry_init default_timeout_config) [Start_Retry d True, Start_Retry d True :: nat retry_event]
   in live s 0 \<and> live s 1 \<and> 0 \<in> set (rh_set s) \<and> dict_get (rh_active s) d = Some 1"
proof -
  let ?d = "\<lparr>dpk_interface_id = ''i'', dpk_channel_address = ''A:1'', dpk_paramset_key = PK_VALUES, dpk_parameter = ''STATE''\<rparr>"
  let ?evs = "[Start_Retry ?d True, Start_Retry ?d True :: nat retry_event]"
  let ?s = "foldl retry_step (retry_init default_timeout_config) ?evs"
  have "live ?s 0" "live ?s 1" "rt_dpk (rh_tasks ?s ! 1) = ?d" "0 \<in> set (rh_set ?s)" "1 \<notin> set (rh_set ?s)"
    by (simp_all add: retry_init_def register_retry_def default_timeout_config_def live_def Let_def)
  then show ?thesis
    using retry_single_flight [of default_timeout_config ?evs] unfolding Let_def by blast
qed

text \<open>
  A superseded or cancelled command issues no further operation. From a state in which its cancel
  event is set, whatever happens later, the command never starts another attempt: if it is running
  an attempt at the end, it is the attempt it was running at the start, and once it has ended it
  stays ended with the same result.
\<close>

theorem retry_superseded_stops:
  assumes "i < length (rh_tasks s)" and "i \<in> set (rh_set s)"
  shows "(\<forall>a. rt_phase (rh_tasks (foldl retry_step s evs) ! i) = Running a \<longrightarrow> rt_phase (rh_tasks s ! i) = Running a) \<and>
         (\<forall>r. rt_phase (rh_tasks s ! i) = Done r \<longrightarrow> rt_phase (rh_tasks (foldl retry_step s evs) ! i) = Done r)"
  using wind_down_run [OF assms] by (simp add: wind_down_def)

theorem retry_superseded_stops_witness:
  "let d = \<lparr>dpk_interface_id = ''i'', dpk_channel_address = ''A:1'', dpk_paramset_key = PK_VALUES, dpk_parameter = ''STATE''\<rparr>;
       s = foldl retry_step (retry_init default_timeout_config)
             [Start_Retry d True, Op_Result 0 (Inl (new_exn PyTimeoutError [])) 0, Cancel_Dpk d :: nat retry_event]
   in \<forall>evs a. rt_phase (rh_tasks (foldl retry_step s evs) ! 0) \<noteq> Running a"
proof -
  let ?d = "\<lparr>dpk_interface_id = ''i'', dpk_channel_address = ''A:1'', dpk_paramset_key = PK_VALUES, dpk_parameter = ''STATE''\<rparr>"
  let ?s = "foldl retry_step (retry_init default_timeout_config)
             [Start_Retry ?d True, Op_Result 0 (Inl (new_exn PyTimeoutError [])) 0, Cancel_Dpk ?d :: nat retry_event]"
  obtain e d' where "0 < length (rh_tasks ?s)" "0 \<in> set (rh_set ?s)" "rt_phase (rh_tasks ?s ! 0) = Sleeping 1 e d'"
    by (simp add: retry_init_def register_retry_def default_timeout_config_def retry_op_result_def is_retryable_def
        non_retryable_exceptions_def isinstance_def new_exn_def cancel_retry_for_dpk_def upd_metrics_def set_phase_def
        dict_get_def dict_set_def Let_def)
  then show ?thesis
    using retry_superseded_stops [of 0 ?s] unfolding Let_def by (metis retry_phase.distinct(1))
qed

lemma retry_fail_then_wait:
  assumes "i < length (rh_tasks s)" and "i \<notin> set (rh_set s)" and "rt_phase (rh_tasks s ! i) = Running a"
    and "is_retryable e" and "a < command_retry_max_attempts (rh_config s)"
  shows "let s' = retry_step (retry_step s (Op_Result i (Inl e) u)) (Wait_End i True)
         in i < length (rh_tasks s') \<and> rt_phase (rh_tasks s' ! i) = Running (a + 1) \<and> rh_set s' = rh_set s \<and>
            rt_dpk (rh_tasks s' ! i) = rt_dpk (rh_tasks s ! i) \<and> rh_config s' = rh_config s \<and> rh_active s' = rh_active s \<and>
            total_retries (rh_metrics s') = total_retries (rh_metrics s) + 1 \<and>
            successful_retries (rh_metrics s') = successful_retries (rh_metrics s) \<and>
            exhausted_retries (rh_metrics s') = exhausted_retries (rh_metrics s)"
  using assms
  by (simp add: retry_op_result_def retry_sleep_end_def retry_recovery_end_def retry_attempt_def upd_metrics_def
      set_phase_def Let_def)

fun failing_rounds :: "nat \<Rightarrow> (exn \<times> real) list \<Rightarrow> 'v retry_event list" where
  "failing_rounds i [] = []"
| "failing_rounds i ((e, u) # es) = Op_Result i (Inl e) u # Wait_End i True # failing_rounds i es"

lemma retry_failing_rounds:
  assumes "i < length (rh_tasks s)" and "i \<notin> set (rh_set s)" and "rt_phase (rh_tasks s ! i) = Running a"
    and "\<forall>(e, u) \<in> set es. is_retryable e" and "a + int (length es) \<le> command_retry_max_attempts (rh_config s)"
  shows "let s' = foldl retry_step s (failing_rounds i es)
         in i < length (rh_tasks s') \<and> rt_phase (rh_tasks s' ! i) = Running (a + int (length es)) \<and> rh_set s' = rh_set s \<and>
            rt_dpk (rh_tasks s' ! i) = rt_dpk (rh_tasks s ! i) \<and> rh_config s' = rh_config s \<and> rh_active s' = rh_active s \<and>
            total_retries (rh_metrics s') = total_retries (rh_metrics s) + int (length es) \<and>
            successful_retries (rh_metrics s') = successful_retries (rh_metrics s) \<and>
            exhausted_retries (rh_metrics s') = exhausted_retries (rh_metrics s)"
  using assms
proof (induction es arbitrary: s a)
  case (Cons p es)
  obtain e u where p: "p = (e, u)" by force
  let ?s = "retry_step (retry_step s (Op_Result i (Inl e) u)) (Wait_End i True)"
  have *: "let s' = ?s in i < length (rh_tasks s') \<and> rt_phase (rh_tasks s' ! i) = Running (a + 1) \<and> rh_set s' = rh_set s \<and>
            rt_dpk (rh_tasks s' ! i) = rt_dpk (rh_tasks s ! i) \<and> rh_config s' = rh_config s \<and> rh_active s' = rh_active s \<and>
            total_retries (rh_metrics s') = total_retries (rh_metrics s) + 1 \<and>
            successful_retries (rh_metrics s') = successful_retries (rh_metrics s) \<and>
            exhausted_retries (rh_metrics s') = exhausted_retries (rh_metrics s)"
    using retry_fail_then_wait [of i s a e u] Cons.prems p by simp
  have fr: "foldl retry_step s (failing_rounds i (p # es)) = foldl retry_step ?s (failing_rounds i es)"
    by (simp add: p)
  show ?case
    using Cons.IH [of ?s "a + 1"] Cons.prems * unfolding Let_def fr
    by (simp del: retry_step.simps add: algebra_simps)
qed simp

text \<open>
  C30: Retrying succeeds. A command that is running its attempt \<open>a\<close>, is not superseded, and whose
  operation fails \<open>k\<close> times with retryable errors (sleeping or waiting for a recovery that comes in
  between) and then returns \<open>v\<close>, ends with \<open>v\<close> provided the attempts suffice
  (\<open>a + k \<le> max_attempts\<close>); the handler counts \<open>k\<close> retries, one success after retry when it is one,
  and forgets the command.
\<close>

theorem retry_eventually_succeeds:
  assumes "i < length (rh_tasks s)" and "i \<notin> set (rh_set s)" and "rt_phase (rh_tasks s ! i) = Running a"
    and "dict_get (rh_active s) (rt_dpk (rh_tasks s ! i)) = Some i" and "1 \<le> a"
    and "\<forall>(e, u) \<in> set es. is_retryable e" and "a + int (length es) \<le> command_retry_max_attempts (rh_config s)"
  shows "let s' = foldl retry_step s (failing_rounds i es @ [Op_Result i (Inr v) 0])
         in rt_phase (rh_tasks s' ! i) = Done (Inr v) \<and>
            dict_get (rh_active s') (rt_dpk (rh_tasks s ! i)) = None \<and>
            total_retries (rh_metrics s') = total_retries (rh_metrics s) + int (length es) \<and>
            successful_retries (rh_metrics s') = successful_retries (rh_metrics s) + (if a + int (length es) > 1 then 1 else 0)"
proof -
  let ?s = "foldl retry_step s (failing_rounds i es)"
  have r: "i < length (rh_tasks ?s)" "rt_phase (rh_tasks ?s ! i) = Running (a + int (length es))"
    "rt_dpk (rh_tasks ?s ! i) = rt_dpk (rh_tasks s ! i)" "rh_active ?s = rh_active s"
    "total_retries (rh_metrics ?s) = total_retries (rh_metrics s) + int (length es)"
    "successful_retries (rh_metrics ?s) = successful_retries (rh_metrics s)"
    using retry_failing_rounds [of i s a es] assms unfolding Let_def by blast+
  then show ?thesis
    using assms(4) by (simp add: retry_op_result_def task_finish active_finish upd_metrics_def Let_def)
qed

theorem retry_eventually_succeeds_witness:
  "let d = \<lparr>dpk_interface_id = ''i'', dpk_channel_address = ''A:1'', dpk_paramset_key = PK_VALUES, dpk_parameter = ''STATE''\<rparr>;
       s = foldl retry_step (retry_init default_timeout_config) [Start_Retry d True :: nat retry_event];
       s' = foldl retry_step s (failing_rounds 0 [(new_exn PyTimeoutError [], 0), (new_exn NoConnectionException [], 0)]
              @ [Op_Result 0 (Inr 7) 0])
   in rt_phase (rh_tasks s' ! 0) = Done (Inr 7) \<and> total_retries (rh_metrics s') = 2 \<and> successful_retries (rh_metrics s') = 1"
proof -
  let ?d = "\<lparr>dpk_interface_id = ''i'', dpk_channel_address = ''A:1'', dpk_paramset_key = PK_VALUES, dpk_parameter = ''STATE''\<rparr>"
  let ?s = "foldl retry_step (retry_init default_timeout_config) [Start_Retry ?d True :: nat retry_event]"
  let ?es = "[(new_exn PyTimeoutError [], 0), (new_exn NoConnectionException [], 0 :: real)]"
  have s: "?s = \<lparr>rh_config = default_timeout_config, rh_metrics = zero_metrics, rh_active = [(?d, 0)], rh_set = [],
      rh_tasks = [\<lparr>rt_dpk = ?d, rt_phase = Running 1\<rparr>]\<rparr>"
    by (simp add: retry_init_def register_retry_def default_timeout_config_def dict_set_def Let_def)
  have e: "is_retryable (new_exn PyTimeoutError [])" "is_retryable (new_exn NoConnectionException [])"
    by (simp_all add: is_retryable_def non_retryable_exceptions_def isinstance_def new_exn_def)
  show ?thesis
    using retry_eventually_succeeds [of 0 ?s 1 ?es 7] e unfolding s Let_def
    by (simp add: default_timeout_config_def zero_metrics_def dict_get_def del: retry_step.simps failing_rounds.simps)
qed

text \<open>
  Giving up. When the last allowed attempt fails with a retryable error, or any attempt with a
  permanent one (authentication, unsupported, validation, open circuit breaker, cancellation of the
  task), the command ends with exactly that exception and is forgotten; exhaustion is counted, a
  permanent error is not.
\<close>

theorem retry_gives_up:
  assumes "i < length (rh_tasks s)" and "rt_phase (rh_tasks s ! i) = Running a"
    and "dict_get (rh_active s) (rt_dpk (rh_tasks s ! i)) = Some i"
    and "a \<ge> command_retry_max_attempts (rh_config s) \<or>
         exn_cls e \<in> {AuthFailure, CircuitBreakerOpenException, CommandSupersededError, UnsupportedException,
                      ValidationException, PyCancelledError, PyTypeError, PyValueError}"
  shows "let s' = retry_step s (Op_Result i (Inl e) u)
         in rt_phase (rh_tasks s' ! i) = Done (Inl e) \<and> dict_get (rh_active s') (rt_dpk (rh_tasks s ! i)) = None \<and>
            exhausted_retries (rh_metrics s') = exhausted_retries (rh_metrics s) + (if is_retryable e then 1 else 0) \<and>
            total_retries (rh_metrics s') = total_retries (rh_metrics s)"
proof (cases "is_retryable e")
  case False
  then show ?thesis
    using assms by (simp add: retry_op_result_def task_finish active_finish Let_def)
next
  case True
  have "exn_cls e \<notin> {AuthFailure, CircuitBreakerOpenException, CommandSupersededError, UnsupportedException,
                      ValidationException, PyCancelledError, PyTypeError, PyValueError}"
    using True by (auto simp: is_retryable_def non_retryable_exceptions_def isinstance_def split: if_splits)
  with True show ?thesis
    using assms by (simp add: retry_op_result_def task_finish active_finish upd_metrics_def Let_def)
qed

theorem retry_gives_up_witness:
  "let d = \<lparr>dpk_interface_id = ''i'', dpk_channel_address = ''A:1'', dpk_paramset_key = PK_VALUES, dpk_parameter = ''STATE''\<rparr>;
       s = foldl retry_step (retry_init default_timeout_config) [Start_Retry d True :: nat retry_event];
       s' = retry_step s (Op_Result 0 (Inl (new_exn AuthFailure [])) 0)
   in rt_phase (rh_tasks s' ! 0) = Done (Inl (new_exn AuthFailure []))"
proof -
  let ?d = "\<lparr>dpk_interface_id = ''i'', dpk_channel_address = ''A:1'', dpk_paramset_key = PK_VALUES, dpk_parameter = ''STATE''\<rparr>"
  let ?s = "foldl retry_step (retry_init default_timeout_config) [Start_Retry ?d True :: nat retry_event]"
  have s: "?s = \<lparr>rh_config = default_timeout_config, rh_metrics = zero_metrics, rh_active = [(?d, 0)], rh_set = [],
      rh_tasks = [\<lparr>rt_dpk = ?d, rt_phase = Running 1\<rparr>]\<rparr>"
    by (simp add: retry_init_def register_retry_def default_timeout_config_def dict_set_def Let_def)
  show ?thesis
    using retry_gives_up [of 0 ?s 1 "new_exn AuthFailure []" 0] unfolding s Let_def
    by (simp add: dict_get_def new_exn_def del: retry_step.simps)
qed

text \<open>
  The waiting time before a retry. With a sane configuration and a jitter between -0.2 and 0.2
  the delay is never negative and never exceeds the larger of the fixed delays and 1.2 times the
  maximal backoff delay; for an ordinary failure below the cap it lies within 20 per cent of
  \<open>base * factor ^ (attempt - 1)\<close>.
\<close>

theorem retry_delay_bounds:
  assumes "0 \<le> command_retry_base_delay tc" and "0 \<le> command_retry_backoff_factor tc" and "0 \<le> command_retry_max_delay tc"
    and "0 \<le> command_retry_duty_cycle_delay tc" and "0 \<le> command_retry_transmission_pending_delay tc"
    and "- (1/5) \<le> u" and "u \<le> 1/5"
  shows "0 \<le> calculate_delay tc attempt e u \<and>
         calculate_delay tc attempt e u \<le>
           max (6/5 * command_retry_max_delay tc)
               (max (command_retry_duty_cycle_delay tc) (command_retry_transmission_pending_delay tc)) \<and>
         (let b = command_retry_base_delay tc * command_retry_backoff_factor tc ^ nat (attempt - 1)
          in get_fault_code e \<notin> {Some (-8), Some (-10)} \<longrightarrow> b \<le> command_retry_max_delay tc \<longrightarrow>
             4/5 * b \<le> calculate_delay tc attempt e u \<and> calculate_delay tc attempt e u \<le> 6/5 * b)"
proof -
  let ?b = "command_retry_base_delay tc * command_retry_backoff_factor tc ^ nat (attempt - 1)"
  have b: "0 \<le> ?b" using assms by simp
  have j: "4/5 * x \<le> x + x * u" "x + x * u \<le> 6/5 * x" if "0 \<le> x" for x :: real
  proof -
    have "x * - (1/5) \<le> x * u" "x * u \<le> x * (1/5)"
      using that assms(6,7) by (intro mult_left_mono; simp)+
    then show "4/5 * x \<le> x + x * u" "x + x * u \<le> 6/5 * x" by simp_all
  qed
  let ?d = "min ?b (command_retry_max_delay tc)"
  have d: "0 \<le> ?d" "?d \<le> command_retry_max_delay tc" using b assms by simp_all
  have k: "0 \<le> ?d + ?d * u" "?d + ?d * u \<le> 6/5 * command_retry_max_delay tc"
    using j [OF d(1)] d by linarith+
  show ?thesis
    using assms k j [OF b] b by (auto simp: calculate_delay_def Let_def min_def)
qed

theorem retry_delay_bounds_witness:
  "0 \<le> calculate_delay default_timeout_config 2 (new_exn PyTimeoutError []) (1/10) \<and>
   calculate_delay default_timeout_config 2 (new_exn PyTimeoutError []) (1/10) \<le> 40"
  using retry_delay_bounds [of default_timeout_config "1/10" 2 "new_exn PyTimeoutError []"]
  by (simp add: default_timeout_config_def)

end
