(* ===== verification/Heapq.thy ===== *)
theory Heapq
  imports Prelude
begin

section \<open>Binary heaps of the standard library module \<open>heapq\<close>\<close>

text \<open>
  \<open>heappush\<close>, \<open>heappop\<close> and \<open>heapify\<close> as Python implements them, on a list, with elements compared
  by a key: \<open>siftdown\<close> moves an element up to its place, \<open>siftup\<close> moves the smaller children up along a
  path to a leaf and then sifts the element back. The priority queue interface \<open>min_queue\<close> is what
  the command throttle relies on.
\<close>

subsection \<open>Definitions\<close>

definition parent :: "nat \<Rightarrow> nat" where
  "parent k = (k - 1) div 2"

lemma parent_less [simp]: "0 < k \<Longrightarrow> parent k < k"
  by (simp add: parent_def)

lemma parent_less' [simp]: "s < k \<Longrightarrow> parent k < k"
  by (simp add: parent_def)

lemma parent_bound [simp]: "k < n \<Longrightarrow> parent k < n"
  by (simp add: parent_def)

lemma parent_iff: "0 < k \<Longrightarrow> parent k = p \<longleftrightarrow> k = 2 * p + 1 \<or> k = 2 * p + 2"
  unfolding parent_def by presburger

function siftdown_loop :: "('a \<Rightarrow> 'k::linorder) \<Rightarrow> nat \<Rightarrow> nat \<Rightarrow> 'a \<Rightarrow> 'a list \<Rightarrow> 'a list" where
  "siftdown_loop key startpos pos newitem heap =
     (if pos > startpos \<and> key newitem < key (heap ! parent pos)
      then siftdown_loop key startpos (parent pos) newitem (heap[pos := heap ! parent pos])
      else heap[pos := newitem])"
  by pat_completeness auto
termination by (relation "measure (\<lambda>(_, _, pos, _, _). pos)") simp_all

definition siftdown :: "('a \<Rightarrow> 'k::linorder) \<Rightarrow> nat \<Rightarrow> nat \<Rightarrow> 'a list \<Rightarrow> 'a list" where
  "siftdown key startpos pos heap = siftdown_loop key startpos pos (heap ! pos) heap"

definition smaller_child :: "('a \<Rightarrow> 'k::linorder) \<Rightarrow> 'a list \<Rightarrow> nat \<Rightarrow> nat" where
  "smaller_child key heap pos =
     (let childpos = 2 * pos + 1; rightpos = childpos + 1
      in if rightpos < length heap \<and> \<not> key (heap ! childpos) < key (heap ! rightpos) then rightpos else childpos)"

function siftup_loop :: "('a \<Rightarrow> 'k::linorder) \<Rightarrow> nat \<Rightarrow> 'a list \<Rightarrow> nat \<times> 'a list" where
  "siftup_loop key pos heap =
     (if 2 * pos + 1 < length heap
      then siftup_loop key (smaller_child key heap pos) (heap[pos := heap ! smaller_child key heap pos])
      else (pos, heap))"
  by pat_completeness auto
termination
  by (relation "measure (\<lambda>(_, pos, heap). length heap - pos)") (auto simp: smaller_child_def Let_def)

definition siftup :: "('a \<Rightarrow> 'k::linorder) \<Rightarrow> nat \<Rightarrow> 'a list \<Rightarrow> 'a list" where
  "siftup key pos heap =
     (let newitem = heap ! pos; (p, h) = siftup_loop key pos heap
      in siftdown key pos p (h[p := newitem]))"

definition heappush :: "('a \<Rightarrow> 'k::linorder) \<Rightarrow> 'a \<Rightarrow> 'a list \<Rightarrow> 'a list" where
  "heappush key x heap = siftdown key 0 (length heap) (heap @ [x])"

text \<open>\<open>heappop\<close> raises \<open>IndexError\<close> on an empty heap.\<close>

definition heappop :: "('a \<Rightarrow> 'k::linorder) \<Rightarrow> 'a list \<Rightarrow> ('a \<times> 'a list) option" where
  "heappop key heap =
     (if heap = [] then None
      else let lastelt = last heap; h = butlast heap
           in if h = [] then Some (lastelt, []) else Some (h ! 0, siftup key 0 (h[0 := lastelt])))"

fun heapify_from :: "('a \<Rightarrow> 'k::linorder) \<Rightarrow> nat \<Rightarrow> 'a list \<Rightarrow> 'a list" where
  "heapify_from key 0 heap = heap"
| "heapify_from key (Suc i) heap = heapify_from key i (siftup key i heap)"

definition heapify :: "('a \<Rightarrow> 'k::linorder) \<Rightarrow> 'a list \<Rightarrow> 'a list" where
  "heapify key heap = heapify_from key (length heap div 2) heap"

text \<open>The heap order on the part of the tree whose parents are at or behind \<open>s\<close>.\<close>

definition heap_from :: "('a \<Rightarrow> 'k::linorder) \<Rightarrow> nat \<Rightarrow> 'a list \<Rightarrow> bool" where
  "heap_from key s h \<longleftrightarrow> (\<forall>k < length h. 0 < k \<longrightarrow> s \<le> parent k \<longrightarrow> key (h ! parent k) \<le> key (h ! k))"

abbreviation is_heap :: "('a \<Rightarrow> 'k::linorder) \<Rightarrow> 'a list \<Rightarrow> bool" where
  "is_heap key h \<equiv> heap_from key 0 h"

subsection \<open>Sifting towards the root\<close>

declare siftdown_loop.simps [simp del] siftup_loop.simps [simp del]

text \<open>The heap order except at position \<open>p\<close>, whose children are not below its parent.\<close>

definition heap_except :: "('a \<Rightarrow> 'k::linorder) \<Rightarrow> nat \<Rightarrow> nat \<Rightarrow> 'a list \<Rightarrow> bool" where
  "heap_except key s p h \<longleftrightarrow>
     (\<forall>k < length h. 0 < k \<longrightarrow> s \<le> parent k \<longrightarrow> k \<noteq> p \<longrightarrow> key (h ! parent k) \<le> key (h ! k)) \<and>
     (\<forall>k < length h. 0 < k \<longrightarrow> parent k = p \<longrightarrow> s < p \<longrightarrow> s \<le> parent p \<longrightarrow> key (h ! parent p) \<le> key (h ! k))"

lemma heap_exceptD:
  assumes "heap_except key s p h"
  shows "k < length h \<Longrightarrow> 0 < k \<Longrightarrow> s \<le> parent k \<Longrightarrow> k \<noteq> p \<Longrightarrow> key (h ! parent k) \<le> key (h ! k)"
    and "k < length h \<Longrightarrow> 0 < k \<Longrightarrow> parent k = p \<Longrightarrow> s < p \<Longrightarrow> s \<le> parent p \<Longrightarrow> key (h ! parent p) \<le> key (h ! k)"
  using assms unfolding heap_except_def by blast+

lemma mset_swap_hole:
  "pos < length h \<Longrightarrow> q < length h \<Longrightarrow> q \<noteq> pos \<Longrightarrow> mset ((h[pos := h ! q])[q := x]) = mset (h[pos := x])"
  by (simp add: mset_update nth_list_update)

text \<open>
  The startpositions of \<open>heapq\<close> are ancestors of the position that is sifted, so the walk to the root
  meets them.
\<close>

function ancestor :: "nat \<Rightarrow> nat \<Rightarrow> bool" where
  "ancestor s k = (if k = s then True else if s < k then ancestor s (parent k) else False)"
  by pat_completeness auto
termination by (relation "measure snd") auto

declare ancestor.simps [simp del]

lemma ancestor_le: "ancestor s k \<Longrightarrow> s \<le> k"
  by (subst (asm) ancestor.simps) (auto split: if_splits)

lemma ancestor_parent: "ancestor s k \<Longrightarrow> s < k \<Longrightarrow> ancestor s (parent k)"
  by (subst (asm) ancestor.simps) (auto split: if_splits)

lemma ancestor_zero: "ancestor 0 k"
  by (induction k rule: less_induct) (subst ancestor.simps, auto)

lemma siftdown_loop_correct:
  assumes "pos < length h" and "ancestor s pos" and "heap_except key s pos (h[pos := x])"
  shows "heap_from key s (siftdown_loop key s pos x h) \<and> mset (siftdown_loop key s pos x h) = mset (h[pos := x]) \<and>
         length (siftdown_loop key s pos x h) = length h"
  using assms
proof (induction key s pos x h rule: siftdown_loop.induct)
  case (1 key s pos x h)
  let ?q = "parent pos"
  show ?case
  proof (cases "pos > s \<and> key x < key (h ! ?q)")
    case True
    then have q: "?q < pos" "?q < length h" "ancestor s ?q" "s \<le> ?q"
      using 1(2,3) ancestor_parent [of s pos] ancestor_le [of s ?q] parent_less' [of s pos] by auto
    let ?h = "h[pos := h ! ?q]"
    let ?g = "h[pos := x]"
    have g: "?h[?q := x] ! k = (if k = ?q then x else if k = pos then h ! ?q else h ! k)" if "k < length h" for k
      using that q by (auto simp: nth_list_update)
    have gk: "?g ! k = (if k = pos then x else h ! k)" if "k < length h" for k
      using that by (auto simp: nth_list_update)
    note D = heap_exceptD [OF 1(4)]
    have "heap_except key s ?q (?h[?q := x])"
      unfolding heap_except_def
    proof (intro conjI allI impI)
      fix k assume k: "k < length (?h[?q := x])" "0 < k" "s \<le> parent k" "k \<noteq> ?q"
      then have kl: "k < length h" "parent k < length h"
        by simp_all
      show "key (?h[?q := x] ! parent k) \<le> key (?h[?q := x] ! k)"
      proof (cases "k = pos")
        case True
        then show ?thesis using g [of k] g [of "parent k"] kl \<open>pos > s \<and> _\<close> q by simp
      next
        case kp: False
        have b: "key (?g ! parent k) \<le> key (?g ! k)"
          using D(1) [of k] k kp by simp
        show ?thesis
        proof (cases "parent k = pos")
          case True
          then have "key (?g ! ?q) \<le> key (?g ! k)"
            by (intro D(2)) (use k q \<open>pos > s \<and> _\<close> in simp_all)
          then show ?thesis using g [of k] g [of "parent k"] gk kl q k kp True by auto
        next
          case False
          show ?thesis
          proof (cases "parent k = ?q")
            case True
            then have "key (h ! ?q) \<le> key (h ! k)"
              using b gk kl q kp by auto
            then show ?thesis using g [of k] g [of "parent k"] kl True k kp \<open>pos > s \<and> _\<close> q by auto
          next
            case False
            then show ?thesis using b g [of k] g [of "parent k"] gk kl k kp \<open>parent k \<noteq> pos\<close> by auto
          qed
        qed
      qed
    next
      fix k assume k: "k < length (?h[?q := x])" "0 < k" "parent k = ?q" "s < ?q" "s \<le> parent ?q"
      then have kl: "k < length h" "parent ?q < length h" "parent ?q < ?q"
        using q parent_less [of ?q] by simp_all
      have p: "key (h ! parent ?q) \<le> key (h ! ?q)"
        using D(1) [of ?q] gk [of ?q] gk [of "parent ?q"] k kl q by auto
      show "key (?h[?q := x] ! parent ?q) \<le> key (?h[?q := x] ! k)"
      proof (cases "k = pos")
        case True
        then show ?thesis using p g [of k] g [of "parent ?q"] kl q by auto
      next
        case False
        have kq: "k \<noteq> ?q" using k kl by (metis less_irrefl)
        have "key (h ! ?q) \<le> key (h ! k)"
          using D(1) [of k] gk [of k] gk [of ?q] k kl False q by auto
        with p show ?thesis using g [of k] g [of "parent ?q"] kl False kq q by auto
      qed
    qed
    then have "heap_from key s (siftdown_loop key s ?q x ?h) \<and>
        mset (siftdown_loop key s ?q x ?h) = mset (?h[?q := x]) \<and> length (siftdown_loop key s ?q x ?h) = length ?h"
      using 1(1) [OF True] q by simp
    moreover have "mset (?h[?q := x]) = mset (h[pos := x])"
      using q 1(2) by (intro mset_swap_hole) auto
    ultimately show ?thesis
      using True by (subst (1 2 3) siftdown_loop.simps) simp
  next
    case False
    have "key (h[pos := x] ! ?q) \<le> key (h[pos := x] ! pos)" if "0 < pos" "s \<le> ?q"
    proof -
      have "s < pos" using that le_less_trans [OF that(2) parent_less [OF that(1)]] by simp
      with False have "key (h ! ?q) \<le> key x" by simp
      then show ?thesis using that 1(2) by (cases "?q = pos") auto
    qed
    then have "heap_from key s (h[pos := x])"
      using heap_exceptD(1) [OF 1(4)] unfolding heap_from_def by (metis length_list_update)
    moreover have "siftdown_loop key s pos x h = h[pos := x]"
      using False by (subst siftdown_loop.simps) auto
    ultimately show ?thesis by simp
  qed
qed

subsection \<open>Sifting towards the leaves\<close>

lemma smaller_child_props:
  assumes "2 * pos + 1 < length h"
  shows "smaller_child key h pos < length h" and "pos < smaller_child key h pos"
    and "parent (smaller_child key h pos) = pos"
    and "k < length h \<Longrightarrow> 0 < k \<Longrightarrow> parent k = pos \<Longrightarrow> key (h ! smaller_child key h pos) \<le> key (h ! k)"
  using assms by (auto simp: smaller_child_def Let_def parent_iff)

lemma siftup_loop_correct:
  assumes "pos < length h" and "ancestor s pos" and "heap_from key (if pos = s then Suc s else s) h"
    and "siftup_loop key pos h = (p, h')"
  shows "p < length h' \<and> length h' = length h \<and> ancestor s p \<and> length h \<le> 2 * p + 1 \<and>
         heap_from key (if p = s then Suc s else s) h' \<and> mset (h'[p := x]) = mset (h[pos := x])"
  using assms
proof (induction key pos h arbitrary: p h' rule: siftup_loop.induct)
  case (1 key pos h)
  show ?case
  proof (cases "2 * pos + 1 < length h")
    case True
    let ?c = "smaller_child key h pos"
    let ?h = "h[pos := h ! ?c]"
    note c = smaller_child_props [OF True]
    have as: "ancestor s ?c"
      using c(2,3) [of key] ancestor_le [OF 1(3)] 1(3) by (subst ancestor.simps) auto
    have cs: "?c \<noteq> s" using c(2) [of key] ancestor_le [OF 1(3)] by simp
    have H: "k < length h \<Longrightarrow> 0 < k \<Longrightarrow> (if pos = s then Suc s else s) \<le> parent k \<Longrightarrow> key (h ! parent k) \<le> key (h ! k)" for k
      using 1(4) unfolding heap_from_def by blast
    have "heap_from key s ?h"
      unfolding heap_from_def
    proof (intro allI impI)
      fix k assume k: "k < length ?h" "0 < k" "s \<le> parent k"
      then have kl: "k < length h" "parent k < length h" by simp_all
      show "key (?h ! parent k) \<le> key (?h ! k)"
      proof (cases "k = pos")
        case True
        with k have "pos \<noteq> s" using le_less_trans [OF k(3) parent_less [OF k(2)]] by simp
        then have "key (h ! parent pos) \<le> key (h ! pos)" "key (h ! pos) \<le> key (h ! ?c)"
          using H [of pos] H [of ?c] True k kl c(1,3) [of key] le_less_trans [OF k(3) parent_less [OF k(2)]] c(2) [of key]
          by (simp_all)
        then show ?thesis using True kl k parent_less [OF k(2)] by simp
      next
        case kp: False
        show ?thesis
        proof (cases "parent k = pos")
          case True
          then show ?thesis using c(4) [of k key] kl k kp by simp
        next
          case False
          then have "(if pos = s then Suc s else s) \<le> parent k" using k(3) by auto
          with H [of k] kl k kp False show ?thesis by simp
        qed
      qed
    qed
    then have "p < length h' \<and> length h' = length ?h \<and> ancestor s p \<and> length ?h \<le> 2 * p + 1 \<and>
         heap_from key (if p = s then Suc s else s) h' \<and> mset (h'[p := x]) = mset (?h[?c := x])"
      using 1(1) [OF True, of p h'] 1(5) True as cs c(1) [of key] by (subst (asm) siftup_loop.simps) simp
    moreover have "mset (?h[?c := x]) = mset (h[pos := x])"
      using c(1,2) [of key] 1(2) by (intro mset_swap_hole) auto
    ultimately show ?thesis by simp
  next
    case False
    then have "siftup_loop key pos h = (pos, h)" by (subst siftup_loop.simps) simp
    with 1(5) have "p = pos" "h' = h" by simp_all
    with False 1(2-4) show ?thesis by simp
  qed
qed

lemma siftup_correct:
  assumes "pos < length h" and "heap_from key (Suc pos) h"
  shows "heap_from key pos (siftup key pos h) \<and> mset (siftup key pos h) = mset h \<and> length (siftup key pos h) = length h"
proof -
  obtain p h' where ph: "siftup_loop key pos h = (p, h')" by force
  let ?x = "h ! pos"
  have "ancestor pos pos" by (simp add: ancestor.simps)
  from siftup_loop_correct [OF assms(1) this _ ph, of ?x] assms(2)
  have p: "p < length h'" "length h' = length h" "ancestor pos p" "length h \<le> 2 * p + 1"
    "heap_from key (if p = pos then Suc pos else pos) h'" "mset (h'[p := ?x]) = mset h" by simp_all
  have ex: "heap_except key pos p (h'[p := ?x])"
    unfolding heap_except_def
  proof (intro conjI allI impI)
    fix k assume k: "k < length (h'[p := ?x])" "0 < k" "pos \<le> parent k" "k \<noteq> p"
    then have np: "parent k \<noteq> p" using p(2,4) by (auto simp: parent_iff)
    then have "(if p = pos then Suc pos else pos) \<le> parent k" using k(3) by auto
    with p(5) k np show "key (h'[p := ?x] ! parent k) \<le> key (h'[p := ?x] ! k)"
      unfolding heap_from_def by simp
  next
    fix k assume "k < length (h'[p := ?x])" "0 < k" "parent k = p"
    then have False using p(2,4) by (auto simp: parent_iff)
    then show "key (h'[p := ?x] ! parent p) \<le> key (h'[p := ?x] ! k)" ..
  qed
  have "siftup key pos h = siftdown_loop key pos p ?x (h'[p := ?x])"
    using p by (simp add: siftup_def siftdown_def ph Let_def)
  then show ?thesis
    using siftdown_loop_correct [of p "h'[p := ?x]" pos key ?x] p ex by simp
qed

subsection \<open>The operations\<close>

lemma heappush_correct:
  assumes "is_heap key h"
  shows "is_heap key (heappush key x h)" and "mset (heappush key x h) = add_mset x (mset h)"
proof -
  let ?h = "h @ [x]"
  have "heap_except key 0 (length h) ?h"
    unfolding heap_except_def
  proof (intro conjI allI impI)
    fix k assume "k < length ?h" "0 < k" "k \<noteq> length h"
    then have "k < length h" "parent k < length h" by simp_all
    with assms \<open>0 < k\<close> show "key (?h ! parent k) \<le> key (?h ! k)"
      by (simp add: heap_from_def nth_append)
  next
    fix k assume "k < length ?h" "0 < k" "parent k = length h"
    then have False by (auto simp: parent_iff)
    then show "key (?h ! parent (length h)) \<le> key (?h ! k)" ..
  qed
  then have "heap_except key 0 (length h) (?h[length h := x])" by simp
  from siftdown_loop_correct [OF _ ancestor_zero this]
  show "is_heap key (heappush key x h)" "mset (heappush key x h) = add_mset x (mset h)"
    by (simp_all add: heappush_def siftdown_def)
qed

lemma heap_root_min:
  "is_heap key h \<Longrightarrow> k < length h \<Longrightarrow> key (h ! 0) \<le> key (h ! k)"
proof (induction k rule: less_induct)
  case (less k)
  show ?case
  proof (cases "k = 0")
    case False
    then have "key (h ! 0) \<le> key (h ! parent k)"
      using less by simp
    also have "\<dots> \<le> key (h ! k)"
      using less.prems False unfolding heap_from_def by simp
    finally show ?thesis .
  qed simp
qed

lemma heap_from_butlast: "heap_from key s h \<Longrightarrow> heap_from key s (butlast h)"
  by (simp add: heap_from_def nth_butlast)

lemma heappop_correct:
  assumes "is_heap key h" and "heappop key h = Some (x, h')"
  shows "is_heap key h'" and "mset h = add_mset x (mset h')" and "y \<in> set h \<Longrightarrow> key x \<le> key y"
proof -
  have ne: "h \<noteq> []" using assms(2) by (auto simp: heappop_def)
  have x: "x = h ! 0"
  proof (cases "butlast h = []")
    case True
    with ne have "h = [last h]" by (metis append_Nil append_butlast_last_id)
    then have "last h = h ! 0" by (metis nth_Cons_0)
    with assms(2) ne True show ?thesis by (simp add: heappop_def)
  next
    case False
    then have "0 < length (butlast h)" by (simp only: length_greater_0_conv not_False_eq_True)
    then have "butlast h ! 0 = h ! 0" by (rule nth_butlast)
    with assms(2) ne False show ?thesis by (simp add: heappop_def Let_def)
  qed
  have "is_heap key h' \<and> mset h = add_mset x (mset h')"
  proof (cases "butlast h = []")
    case True
    with assms(2) ne have "h' = []" "x = last h" by (simp_all add: heappop_def)
    with True ne show ?thesis
      by (metis add_mset_add_single append_Nil append_butlast_last_id heap_from_def length_0_conv less_nat_zero_code mset.simps)
  next
    case False
    let ?b = "butlast h" and ?l = "last h"
    have h': "h' = siftup key 0 (?b[0 := ?l])" and xb: "x = ?b ! 0"
      using assms(2) ne False by (simp_all add: heappop_def Let_def)
    have "heap_from key 1 (?b[0 := ?l])"
      unfolding heap_from_def
    proof (intro allI impI)
      fix k assume k: "k < length (?b[0 := ?l])" "0 < k" "1 \<le> parent k"
      then have "key (?b ! parent k) \<le> key (?b ! k)"
        using heap_from_butlast [OF assms(1)] unfolding heap_from_def by simp
      with k show "key (?b[0 := ?l] ! parent k) \<le> key (?b[0 := ?l] ! k)" by simp
    qed
    moreover have pos: "0 < length ?b" using False by (simp only: length_greater_0_conv not_False_eq_True)
    ultimately have "is_heap key h' \<and> mset h' = mset (?b[0 := ?l])"
      using siftup_correct [of 0 "?b[0 := ?l]" key] h' by simp
    moreover have "add_mset x (mset (?b[0 := ?l])) = mset (?b @ [?l])"
      using pos xb by (simp add: mset_update)
    moreover have "?b @ [?l] = h" using ne by simp
    ultimately show ?thesis by simp
  qed
  then show "is_heap key h'" "mset h = add_mset x (mset h')" by blast+
  show "y \<in> set h \<Longrightarrow> key x \<le> key y"
    using heap_root_min [OF assms(1)] x by (auto simp: in_set_conv_nth)
qed

lemma heapify_from_correct:
  "i \<le> length h \<Longrightarrow> heap_from key i h \<Longrightarrow> is_heap key (heapify_from key i h) \<and> mset (heapify_from key i h) = mset h"
proof (induction key i h rule: heapify_from.induct)
  case (2 key i h)
  with siftup_correct [of i h key] show ?case by simp
qed simp

lemma heapify_correct: "is_heap key (heapify key h) \<and> mset (heapify key h) = mset h"
proof -
  have "heap_from key (length h div 2) h"
    by (auto simp: heap_from_def parent_def)
  then show ?thesis by (simp add: heapify_def heapify_from_correct)
qed

subsection \<open>The interface of a priority queue\<close>

text \<open>Popping until the queue is empty, at most \<open>n\<close> times.\<close>

fun drain :: "('q \<Rightarrow> ('a \<times> 'q) option) \<Rightarrow> nat \<Rightarrow> 'q \<Rightarrow> 'a list" where
  "drain pop 0 q = []"
| "drain pop (Suc n) q = (case pop q of None \<Rightarrow> [] | Some (x, q') \<Rightarrow> x # drain pop n q')"

locale min_queue =
  fixes inv :: "'q \<Rightarrow> bool" and elems :: "'q \<Rightarrow> 'a multiset" and key :: "'a \<Rightarrow> 'k::linorder"
    and push :: "'a \<Rightarrow> 'q \<Rightarrow> 'q" and pop :: "'q \<Rightarrow> ('a \<times> 'q) option" and build :: "'a list \<Rightarrow> 'q"
  assumes inv_push: "inv q \<Longrightarrow> inv (push x q)"
    and elems_push: "inv q \<Longrightarrow> elems (push x q) = add_mset x (elems q)"
    and pop_empty: "inv q \<Longrightarrow> pop q = None \<longleftrightarrow> elems q = {#}"
    and inv_pop: "inv q \<Longrightarrow> pop q = Some (x, q') \<Longrightarrow> inv q'"
    and elems_pop: "inv q \<Longrightarrow> pop q = Some (x, q') \<Longrightarrow> elems q = add_mset x (elems q')"
    and pop_min: "inv q \<Longrightarrow> pop q = Some (x, q') \<Longrightarrow> y \<in># elems q \<Longrightarrow> key x \<le> key y"
    and inv_build: "inv (build xs)"
    and elems_build: "elems (build xs) = mset xs"
begin

lemma drain_sorted:
  "inv q \<Longrightarrow> size (elems q) \<le> n \<Longrightarrow> mset (drain pop n q) = elems q \<and> sorted (map key (drain pop n q))"
proof (induction n arbitrary: q)
  case (Suc n)
  show ?case
  proof (cases "pop q")
    case None
    with pop_empty [OF Suc.prems(1)] have "elems q = {#}" by simp
    with None show ?thesis by simp
  next
    case (Some p)
    obtain x q' where p: "p = (x, q')" by force
    note s = Some [unfolded p]
    have q: "inv q'" "elems q = add_mset x (elems q')"
      using inv_pop [OF Suc.prems(1) s] elems_pop [OF Suc.prems(1) s] .
    with Suc have IH: "mset (drain pop n q') = elems q'" "sorted (map key (drain pop n q'))" by simp_all
    have "key x \<le> key y" if "y \<in> set (drain pop n q')" for y
    proof -
      from that have "y \<in># elems q" by (simp flip: IH(1) add: q(2))
      then show ?thesis using pop_min [OF Suc.prems(1) s] by blast
    qed
    with IH q s show ?thesis by simp
  qed
qed simp

end

interpretation heapq: min_queue "is_heap key" mset key "heappush key" "heappop key" "heapify key"
  for key :: "'a \<Rightarrow> 'k::linorder"
proof unfold_locales
  show "is_heap key q \<Longrightarrow> heappop key q = None \<longleftrightarrow> mset q = {#}" for q :: "'a list"
    by (simp add: heappop_def Let_def)
  show "is_heap key q \<Longrightarrow> heappop key q = Some (x, q') \<Longrightarrow> y \<in># mset q \<Longrightarrow> key x \<le> key y" for q q' x y
    using heappop_correct(3) [of key q x q' y] by simp
qed (auto intro: heappush_correct heappop_correct(1,2) simp: heapify_correct)

end
