(* ===== verification/Command_Throttle.thy ===== *)
theory Command_Throttle
  imports Const Heapq "HOL-Library.Product_Lexorder"
begin

section \<open>Command throttle (\<open>client/command_throttle.py\<close>)\<close>

text \<open>
  \<open>CommandThrottle\<close>: \<open>acquire\<close>, \<open>stop\<close>, burst detection, purging and the background worker, which
  share one priority queue. The lock is never held across an \<open>await\<close>, so its critical sections are
  atomic; the worker suspends while it waits for a command and while it delays one, and the model
  has a phase for each. Futures are numbered; the outcome of each is kept, since \<open>acquire\<close> ends with
  it. An event that does not fit the phase of the worker cannot happen and changes nothing.
\<close>

subsection \<open>Data\<close>

instantiation command_priority :: linorder
begin

definition less_eq_command_priority :: "command_priority \<Rightarrow> command_priority \<Rightarrow> bool" where
  "p \<le> q \<longleftrightarrow> command_priority_value p \<le> command_priority_value q"

definition less_command_priority :: "command_priority \<Rightarrow> command_priority \<Rightarrow> bool" where
  "p < q \<longleftrightarrow> command_priority_value p < command_priority_value q"

instance
proof
  show "p = q" if "p \<le> q" "q \<le> p" for p q :: command_priority
    using that by (cases p; cases q) (simp_all add: less_eq_command_priority_def)
qed (auto simp: less_eq_command_priority_def less_command_priority_def)

end

record prioritized_command =
  pc_priority :: command_priority
  pc_timestamp :: time
  pc_future :: nat
  pc_device_address :: string

definition pc_key :: "prioritized_command \<Rightarrow> command_priority \<times> time" where
  "pc_key c = (pc_priority c, pc_timestamp c)"

datatype future_state = Pending | Granted | Superseded | Stopped_Error | Waiter_Gone

datatype worker_phase =
    No_Worker \<comment> \<open>throttling disabled\<close>
  | Loop_Head
  | Awaiting_Command
  | Delaying prioritized_command time \<comment> \<open>asleep until the given time\<close>
  | Ended

record throttle =
  th_interval :: time
  th_last_command_time :: time
  th_queue :: "prioritized_command list"
  th_command_available :: bool
  th_stopped :: bool
  th_burst_threshold :: int
  th_burst_window :: time
  th_burst_timestamps :: "time list"
  th_throttled_count :: int
  th_critical_count :: int
  th_burst_count :: int
  th_purged_count :: int
  th_worker :: worker_phase
  th_futures :: "future_state list"

subsection \<open>Operations\<close>

definition throttle_init :: "time \<Rightarrow> int \<Rightarrow> time \<Rightarrow> throttle" where
  "throttle_init interval burst_threshold burst_window =
     \<lparr>th_interval = interval, th_last_command_time = 0, th_queue = [], th_command_available = False,
      th_stopped = False, th_burst_threshold = burst_threshold, th_burst_window = burst_window,
      th_burst_timestamps = [], th_throttled_count = 0, th_critical_count = 0, th_burst_count = 0,
      th_purged_count = 0, th_worker = (if interval > 0 then Loop_Head else No_Worker), th_futures = []\<rparr>"

definition throttle_is_enabled :: "throttle \<Rightarrow> bool" where
  "throttle_is_enabled t \<longleftrightarrow> th_interval t > 0"

definition queue_size :: "throttle \<Rightarrow> nat" where
  "queue_size t = length (th_queue t)"

text \<open>\<open>fut.set_result\<close> or \<open>fut.set_exception\<close>, guarded by \<open>not fut.done()\<close>.\<close>

definition resolve :: "nat \<Rightarrow> future_state \<Rightarrow> future_state list \<Rightarrow> future_state list" where
  "resolve f r fs = (if f < length fs \<and> fs ! f = Pending then fs[f := r] else fs)"

definition detect_burst :: "time \<Rightarrow> throttle \<Rightarrow> bool \<times> throttle" where
  "detect_burst now t =
     (if th_burst_threshold t = 0 then (False, t)
      else let ts = dropWhile (\<lambda>x. x < now - th_burst_window t) (th_burst_timestamps t @ [now])
           in (int (length ts) > th_burst_threshold t, t\<lparr>th_burst_timestamps := ts\<rparr>))"

fun resolve_all :: "prioritized_command list \<Rightarrow> future_state \<Rightarrow> future_state list \<Rightarrow> future_state list" where
  "resolve_all [] r fs = fs"
| "resolve_all (c # cs) r fs = resolve_all cs r (resolve (pc_future c) r fs)"

definition purge_commands :: "string list \<Rightarrow> throttle \<Rightarrow> throttle" where
  "purge_commands purge_addresses t =
     (let hit = filter (\<lambda>c. pc_device_address c \<in> set purge_addresses) (th_queue t);
          remaining = filter (\<lambda>c. pc_device_address c \<notin> set purge_addresses) (th_queue t);
          t1 = t\<lparr>th_futures := resolve_all hit Superseded (th_futures t)\<rparr>
      in if length hit > 0
         then t1\<lparr>th_queue := heapify pc_key remaining, th_purged_count := th_purged_count t + int (length hit)\<rparr>
         else t1)"

datatype acquire_result = Returns | Raises_Cancelled | Waits nat

definition acquire ::
  "time \<Rightarrow> command_priority \<Rightarrow> string \<Rightarrow> string list \<Rightarrow> throttle \<Rightarrow> acquire_result \<times> throttle" where
  "acquire now priority device_address purge_addresses t =
     (if th_interval t = 0 then (Returns, t)
      else if priority = CRITICAL
      then let t1 = t\<lparr>th_critical_count := th_critical_count t + 1\<rparr>
           in (Returns, if purge_addresses \<noteq> [] then purge_commands purge_addresses t1 else t1)
      else
        let (burst, t1) = (if priority = HIGH then detect_burst now t else (False, t));
            (priority', t2) = (if burst then (LOW, t1\<lparr>th_burst_count := th_burst_count t1 + 1\<rparr>) else (priority, t1))
        in if th_stopped t2 then (Raises_Cancelled, t2)
           else
             let f = length (th_futures t2);
                 cmd = \<lparr>pc_priority = priority', pc_timestamp = now, pc_future = f, pc_device_address = device_address\<rparr>
             in (Waits f, t2\<lparr>th_futures := th_futures t2 @ [Pending],
                              th_queue := heappush pc_key cmd (th_queue t2),
                              th_command_available := True\<rparr>))"

text \<open>\<open>stop\<close>: the worker task is cancelled, wherever it waits, and the queue is emptied by popping.\<close>

definition throttle_stop :: "throttle \<Rightarrow> throttle" where
  "throttle_stop t =
     (if th_stopped t then t
      else t\<lparr>th_stopped := True, th_command_available := True,
             th_worker := (if th_worker t = No_Worker then No_Worker else Ended),
             th_futures := resolve_all (drain (heappop pc_key) (length (th_queue t)) (th_queue t)) Stopped_Error (th_futures t),
             th_queue := []\<rparr>)"

definition grant :: "time \<Rightarrow> prioritized_command \<Rightarrow> throttle \<Rightarrow> throttle" where
  "grant now cmd t =
     t\<lparr>th_last_command_time := now, th_futures := resolve (pc_future cmd) Granted (th_futures t), th_worker := Loop_Head\<rparr>"

text \<open>The worker takes the first command of a queue that is not empty, and grants or delays it.\<close>

definition worker_take :: "time \<Rightarrow> throttle \<Rightarrow> throttle" where
  "worker_take now t =
     (case heappop pc_key (th_queue t) of
        None \<Rightarrow> t\<lparr>th_worker := Loop_Head\<rparr>
      | Some (cmd, q) \<Rightarrow>
          let t1 = t\<lparr>th_queue := q\<rparr>; elapsed = now - th_last_command_time t
          in if elapsed < th_interval t
             then t1\<lparr>th_throttled_count := th_throttled_count t + 1,
                     th_worker := Delaying cmd (now + (th_interval t - elapsed))\<rparr>
             else grant now cmd t1)"

text \<open>One iteration from the head of the loop.\<close>

definition worker_iteration :: "time \<Rightarrow> throttle \<Rightarrow> throttle" where
  "worker_iteration now t =
     (if th_stopped t then t\<lparr>th_worker := Ended\<rparr>
      else if th_queue t = []
      then (if th_command_available t then t\<lparr>th_command_available := False, th_worker := Loop_Head\<rparr>
            else t\<lparr>th_worker := Awaiting_Command\<rparr>)
      else worker_take now t)"

text \<open>The worker returns from waiting for a command.\<close>

definition worker_woken :: "time \<Rightarrow> throttle \<Rightarrow> throttle" where
  "worker_woken now t =
     (let t1 = t\<lparr>th_command_available := False\<rparr>
      in if th_stopped t1 then t1\<lparr>th_worker := Ended\<rparr> else worker_take now t1)"

datatype throttle_event =
    Acquire time command_priority string "string list"
  | Worker_Runs time
  | Waiter_Cancelled nat
  | Stop_Throttle

fun throttle_step :: "throttle \<Rightarrow> throttle_event \<Rightarrow> throttle" where
  "throttle_step t (Acquire now p a purge) = snd (acquire now p a purge t)"
| "throttle_step t (Worker_Runs now) =
     (case th_worker t of
        Loop_Head \<Rightarrow> worker_iteration now t
      | Awaiting_Command \<Rightarrow> if th_command_available t then worker_woken now t else t
      | Delaying cmd wake \<Rightarrow> if wake \<le> now then grant now cmd t else t
      | _ \<Rightarrow> t)"
| "throttle_step t (Waiter_Cancelled f) = t\<lparr>th_futures := resolve f Waiter_Gone (th_futures t)\<rparr>"
| "throttle_step t Stop_Throttle = throttle_stop t"

subsection \<open>Invariant\<close>

text \<open>The commands the throttle is responsible for: the queue and the command the worker delays.\<close>

definition held :: "throttle \<Rightarrow> prioritized_command list" where
  "held t = (case th_worker t of Delaying c _ \<Rightarrow> [c] | _ \<Rightarrow> [])"

definition throttle_inv :: "throttle \<Rightarrow> bool" where
  "throttle_inv t \<longleftrightarrow>
     is_heap pc_key (th_queue t) \<and>
     distinct (map pc_future (held t @ th_queue t)) \<and>
     (\<forall>c \<in> set (held t @ th_queue t). pc_future c < length (th_futures t)) \<and>
     (\<not> th_stopped t \<longrightarrow>
        (\<forall>f < length (th_futures t). th_futures t ! f = Pending \<longrightarrow> f \<in> pc_future ` set (held t @ th_queue t))) \<and>
     (th_stopped t \<longrightarrow> th_queue t = []) \<and>
     (th_worker t = Awaiting_Command \<longrightarrow> th_queue t \<noteq> [] \<longrightarrow> th_command_available t) \<and>
     (\<forall>c w. th_worker t = Delaying c w \<longrightarrow> w = th_last_command_time t + th_interval t)"

lemma length_resolve [simp]: "length (resolve f r fs) = length fs"
  by (simp add: resolve_def)

lemma resolve_nth:
  "g < length fs \<Longrightarrow> resolve f r fs ! g = (if g = f \<and> fs ! f = Pending then r else fs ! g)"
  by (auto simp: resolve_def)

lemma length_resolve_all [simp]: "length (resolve_all cs r fs) = length fs"
  by (induction cs r fs rule: resolve_all.induct) simp_all

lemma resolve_all_nth:
  "r \<noteq> Pending \<Longrightarrow> g < length fs \<Longrightarrow>
     resolve_all cs r fs ! g = (if g \<in> pc_future ` set cs \<and> fs ! g = Pending then r else fs ! g)"
  by (induction cs r fs rule: resolve_all.induct) (auto simp: resolve_nth)

lemma distinct_map_perm: "mset xs = mset ys \<Longrightarrow> distinct (map f xs) = distinct (map f ys)"
  by (metis mset_eq_imp_distinct_iff mset_map)

lemma queue_push:
  assumes "is_heap pc_key q"
  shows "set (heappush pc_key c q) = insert c (set q)"
    and "distinct (map pc_future (heappush pc_key c q)) = distinct (map pc_future (c # q))"
proof -
  have m: "mset (heappush pc_key c q) = mset (c # q)"
    using heappush_correct(2) [OF assms] by simp
  show "set (heappush pc_key c q) = insert c (set q)"
    using mset_eq_setD [OF m] by simp
  show "distinct (map pc_future (heappush pc_key c q)) = distinct (map pc_future (c # q))"
    by (rule distinct_map_perm [OF m])
qed

lemma queue_pop:
  assumes "is_heap pc_key q" and "heappop pc_key q = Some (c, q')"
  shows "set q = insert c (set q')" and "distinct (map pc_future q) = distinct (map pc_future (c # q'))"
    and "is_heap pc_key q'"
proof -
  have m: "mset q = mset (c # q')"
    using heappop_correct(2) [OF assms] by simp
  show "set q = insert c (set q')"
    using mset_eq_setD [OF m] by simp
  show "distinct (map pc_future q) = distinct (map pc_future (c # q'))"
    by (rule distinct_map_perm [OF m])
  show "is_heap pc_key q'"
    by (rule heappop_correct(1) [OF assms])
qed

lemma throttle_invI:
  assumes "is_heap pc_key (th_queue t)"
    and "distinct (map pc_future (held t @ th_queue t))"
    and "\<And>c. c \<in> set (held t @ th_queue t) \<Longrightarrow> pc_future c < length (th_futures t)"
    and "\<And>f. \<not> th_stopped t \<Longrightarrow> f < length (th_futures t) \<Longrightarrow> th_futures t ! f = Pending \<Longrightarrow>
           f \<in> pc_future ` set (held t @ th_queue t)"
    and "th_stopped t \<Longrightarrow> th_queue t = []"
    and "th_worker t = Awaiting_Command \<Longrightarrow> th_queue t \<noteq> [] \<Longrightarrow> th_command_available t"
    and "\<And>c w. th_worker t = Delaying c w \<Longrightarrow> w = th_last_command_time t + th_interval t"
  shows "throttle_inv t"
  using assms unfolding throttle_inv_def by blast

lemma throttle_invD:
  assumes "throttle_inv t"
  shows "is_heap pc_key (th_queue t)"
    and "distinct (map pc_future (held t @ th_queue t))"
    and "c \<in> set (held t @ th_queue t) \<Longrightarrow> pc_future c < length (th_futures t)"
    and "\<not> th_stopped t \<Longrightarrow> f < length (th_futures t) \<Longrightarrow> th_futures t ! f = Pending \<Longrightarrow>
           f \<in> pc_future ` set (held t @ th_queue t)"
    and "th_stopped t \<Longrightarrow> th_queue t = []"
    and "th_worker t = Awaiting_Command \<Longrightarrow> th_queue t \<noteq> [] \<Longrightarrow> th_command_available t"
    and "th_worker t = Delaying c w \<Longrightarrow> w = th_last_command_time t + th_interval t"
  using assms unfolding throttle_inv_def by blast+

lemma throttle_init_inv: "throttle_inv (throttle_init i b w)"
  by (rule throttle_invI) (auto simp: throttle_init_def held_def heap_from_def split: if_splits)

text \<open>The fields the invariant does not mention.\<close>

lemma throttle_inv_change:
  assumes "throttle_inv t" "th_queue t' = th_queue t" "th_worker t' = th_worker t" "th_futures t' = th_futures t"
    "th_stopped t' = th_stopped t" "th_command_available t' = th_command_available t"
    "th_last_command_time t' = th_last_command_time t" "th_interval t' = th_interval t"
  shows "throttle_inv t'"
  using assms by (simp add: throttle_inv_def held_def)

definition enqueue :: "prioritized_command \<Rightarrow> throttle \<Rightarrow> throttle" where
  "enqueue c t = t\<lparr>th_futures := th_futures t @ [Pending], th_queue := heappush pc_key c (th_queue t),
     th_command_available := True\<rparr>"

lemma enqueue_inv:
  assumes inv: "throttle_inv t" and c: "pc_future c = length (th_futures t)" and s: "\<not> th_stopped t"
  shows "throttle_inv (enqueue c t)"
proof -
  note D = throttle_invD [OF inv]
  note q = queue_push [OF D(1), of c]
  have h: "held (enqueue c t) = held t" by (simp add: held_def enqueue_def)
  have fresh: "pc_future c \<notin> pc_future ` set (held t @ th_queue t)"
    using D(3) c by (metis image_iff less_irrefl)
  show ?thesis
  proof (rule throttle_invI, unfold h)
    show "is_heap pc_key (th_queue (enqueue c t))"
      using heappush_correct(1) [OF D(1)] by (simp add: enqueue_def)
    show "distinct (map pc_future (held t @ th_queue (enqueue c t)))"
      using D(2) fresh q by (auto simp: enqueue_def)
    show "x \<in> set (held t @ th_queue (enqueue c t)) \<Longrightarrow> pc_future x < length (th_futures (enqueue c t))" for x
      using D(3) [of x] c q(1) by (auto simp: enqueue_def)
    show "f \<in> pc_future ` set (held t @ th_queue (enqueue c t))"
      if "f < length (th_futures (enqueue c t))" "th_futures (enqueue c t) ! f = Pending" for f
      using that D(4) [OF s, of f] c q(1) by (auto simp: enqueue_def nth_append less_Suc_eq split: if_splits)
  qed (use D(5-7) s in \<open>auto simp: enqueue_def\<close>)
qed

lemma purge_inv:
  assumes inv: "throttle_inv t"
  shows "throttle_inv (purge_commands as t)"
proof -
  note D = throttle_invD [OF inv]
  let ?hit = "filter (\<lambda>c. pc_device_address c \<in> set as) (th_queue t)"
  let ?rest = "filter (\<lambda>c. pc_device_address c \<notin> set as) (th_queue t)"
  let ?q = "if ?hit = [] then th_queue t else heapify pc_key ?rest"
  let ?t = "purge_commands as t"
  have t: "th_queue ?t = ?q" "held ?t = held t" "th_futures ?t = resolve_all ?hit Superseded (th_futures t)"
    "th_stopped ?t = th_stopped t" "th_worker ?t = th_worker t" "th_command_available ?t = th_command_available t"
    "th_last_command_time ?t = th_last_command_time t" "th_interval ?t = th_interval t"
    by (simp_all add: purge_commands_def held_def Let_def)
  have none: "?hit = [] \<Longrightarrow> ?rest = th_queue t"
    by (metis (mono_tags, lifting) filter_True filter_empty_conv)
  have m: "mset ?q = mset ?rest"
    using heapify_correct [of pc_key ?rest] none by (cases "?hit = []") (simp_all del: mset_filter)
  have setq: "set ?q = set ?rest" and dq: "distinct (map pc_future ?q) = distinct (map pc_future ?rest)"
    by (rule mset_eq_setD [OF m], rule distinct_map_perm [OF m])
  have d: "distinct (map pc_future (held t))" "distinct (map pc_future (th_queue t))"
    "pc_future ` set (held t) \<inter> pc_future ` set (th_queue t) = {}"
    using D(2) by auto
  show ?thesis
  proof (rule throttle_invI, unfold t)
    show "is_heap pc_key ?q" using D(1) heapify_correct [of pc_key ?rest] by simp
    show "distinct (map pc_future (held t @ ?q))"
      using d setq dq distinct_map_filter [of pc_future "th_queue t"] by auto
    show "c \<in> set (held t @ ?q) \<Longrightarrow> pc_future c < length (resolve_all ?hit Superseded (th_futures t))" for c
      using D(3) [of c] setq by auto
    show "f \<in> pc_future ` set (held t @ ?q)"
      if "\<not> th_stopped t" "f < length (resolve_all ?hit Superseded (th_futures t))"
        "resolve_all ?hit Superseded (th_futures t) ! f = Pending" for f
      using that D(4) [of f] setq by (auto simp: resolve_all_nth split: if_splits)
    show "th_stopped t \<Longrightarrow> ?q = []" using D(5) setq by fastforce
    show "th_worker t = Awaiting_Command \<Longrightarrow> ?q \<noteq> [] \<Longrightarrow> th_command_available t"
      using D(6) setq by fastforce
  qed (use D(7) in blast)
qed

lemma acquire_inv:
  assumes inv: "throttle_inv t"
  shows "throttle_inv (snd (acquire now p a as t))"
proof -
  let ?p = "\<lambda>b. if b then LOW else p"
  let ?bt = "if p = HIGH then detect_burst now t else (False, t)"
  let ?t2 = "if fst ?bt then (snd ?bt)\<lparr>th_burst_count := th_burst_count (snd ?bt) + 1\<rparr> else snd ?bt"
  have b: "throttle_inv ?t2"
    by (rule throttle_inv_change [OF inv]) (simp_all add: detect_burst_def Let_def)
  have c: "throttle_inv (t\<lparr>th_critical_count := x\<rparr>)" for x
    by (rule throttle_inv_change [OF inv]) simp_all
  have e: "snd (acquire now p a as t) =
      (if th_interval t = 0 then t
       else if p = CRITICAL
       then let t1 = t\<lparr>th_critical_count := th_critical_count t + 1\<rparr> in if as \<noteq> [] then purge_commands as t1 else t1
       else if th_stopped ?t2 then ?t2
       else enqueue \<lparr>pc_priority = ?p (fst ?bt), pc_timestamp = now, pc_future = length (th_futures ?t2),
                     pc_device_address = a\<rparr> ?t2)"
    by (simp add: acquire_def enqueue_def Let_def split_beta)
  show ?thesis
    unfolding e using inv b c by (auto simp: Let_def intro!: purge_inv enqueue_inv)
qed

lemma grant_inv:
  assumes "is_heap pc_key (th_queue t)" and "distinct (map pc_future (c # th_queue t))"
    and "\<And>x. x \<in> set (c # th_queue t) \<Longrightarrow> pc_future x < length (th_futures t)"
    and "\<And>f. \<not> th_stopped t \<Longrightarrow> f < length (th_futures t) \<Longrightarrow> th_futures t ! f = Pending \<Longrightarrow>
           f \<in> pc_future ` set (c # th_queue t)"
    and "th_stopped t \<Longrightarrow> th_queue t = []"
  shows "throttle_inv (grant now c t)"
proof (rule throttle_invI)
  have h: "held (grant now c t) = []" by (simp add: held_def grant_def)
  show "distinct (map pc_future (held (grant now c t) @ th_queue (grant now c t)))"
    using assms(2) unfolding h by (simp add: grant_def)
  show "x \<in> set (held (grant now c t) @ th_queue (grant now c t)) \<Longrightarrow> pc_future x < length (th_futures (grant now c t))" for x
    using assms(3) [of x] unfolding h by (simp add: grant_def)
  show "f \<in> pc_future ` set (held (grant now c t) @ th_queue (grant now c t))"
    if "\<not> th_stopped (grant now c t)" "f < length (th_futures (grant now c t))" "th_futures (grant now c t) ! f = Pending" for f
    using that assms(4) [of f] unfolding h by (auto simp: grant_def resolve_nth split: if_splits)
qed (use assms(1,5) in \<open>simp_all add: grant_def\<close>)

lemma phase_inv:
  assumes inv: "throttle_inv t" and h: "held t = []" and p: "p \<in> {Loop_Head, Ended, Awaiting_Command}"
    and a: "p = Awaiting_Command \<longrightarrow> th_queue t = []"
  shows "throttle_inv (t\<lparr>th_worker := p\<rparr>)" and "throttle_inv (t\<lparr>th_command_available := b, th_worker := p\<rparr>)"
proof -
  note D = throttle_invD [OF inv, unfolded h append_Nil]
  have h': "held (t\<lparr>th_worker := p\<rparr>) = []" "held (t\<lparr>th_command_available := b, th_worker := p\<rparr>) = []"
    using p by (auto simp: held_def)
  show "throttle_inv (t\<lparr>th_worker := p\<rparr>)"
    by (rule throttle_invI, unfold h' append_Nil) (use D p a in auto)
  show "throttle_inv (t\<lparr>th_command_available := b, th_worker := p\<rparr>)"
    by (rule throttle_invI, unfold h' append_Nil) (use D p a in auto)
qed

lemma worker_take_inv:
  assumes inv: "throttle_inv t" and h: "held t = []" and s: "\<not> th_stopped t"
  shows "throttle_inv (worker_take now t)"
proof (cases "heappop pc_key (th_queue t)")
  case None
  then show ?thesis using phase_inv(1) [OF inv h] by (simp add: worker_take_def)
next
  case (Some p)
  obtain c q where p: "p = (c, q)" by force
  note D = throttle_invD [OF inv, unfolded h append_Nil] and P = queue_pop [OF throttle_invD(1) [OF inv] Some [unfolded p]]
  have F: "is_heap pc_key q" "distinct (map pc_future (c # q))"
    "\<And>x. x \<in> set (c # q) \<Longrightarrow> pc_future x < length (th_futures t)"
    "\<And>f. f < length (th_futures t) \<Longrightarrow> th_futures t ! f = Pending \<Longrightarrow> f \<in> pc_future ` set (c # q)"
    using P D(2-4) s by simp_all
  show ?thesis
  proof (cases "now - th_last_command_time t < th_interval t")
    case True
    let ?t = "t\<lparr>th_queue := q, th_throttled_count := th_throttled_count t + 1,
                th_worker := Delaying c (now + (th_interval t - (now - th_last_command_time t)))\<rparr>"
    have "throttle_inv ?t"
      by (rule throttle_invI) (use F s in \<open>auto simp: held_def\<close>)
    then show ?thesis using Some p True by (simp add: worker_take_def Let_def)
  next
    case False
    have "throttle_inv (grant now c (t\<lparr>th_queue := q\<rparr>))"
      by (rule grant_inv) (use F s in auto)
    then show ?thesis using Some p False by (simp add: worker_take_def Let_def)
  qed
qed

lemma worker_runs_inv:
  assumes inv: "throttle_inv t"
  shows "throttle_inv (throttle_step t (Worker_Runs now))"
proof (cases "th_worker t")
  case Loop_Head
  then have h: "held t = []" by (simp add: held_def)
  have "throttle_inv (worker_iteration now t)"
    using phase_inv [OF inv h] worker_take_inv [OF inv h] by (simp add: worker_iteration_def)
  with Loop_Head show ?thesis by simp
next
  case Awaiting_Command
  then have h: "held t = []" by (simp add: held_def)
  let ?t = "t\<lparr>th_command_available := False, th_worker := Loop_Head\<rparr>"
  have "throttle_inv (worker_take now ?t)" if "\<not> th_stopped t"
    by (rule worker_take_inv) (use phase_inv(2) [OF inv h] that in \<open>simp_all add: held_def\<close>)
  moreover have "worker_take now (t\<lparr>th_command_available := False\<rparr>) = worker_take now ?t"
    by (simp add: worker_take_def grant_def Let_def split: option.split)
  moreover have "throttle_inv (t\<lparr>th_command_available := False, th_worker := Ended\<rparr>)"
    using phase_inv(2) [OF inv h] by simp
  ultimately show ?thesis
    using inv Awaiting_Command by (simp add: worker_woken_def Let_def)
next
  case (Delaying c w)
  then have h: "held t = [c]" by (simp add: held_def)
  note D = throttle_invD [OF inv, unfolded h]
  have "throttle_inv (grant now c t)"
    by (rule grant_inv) (use D in auto)
  with Delaying inv show ?thesis by simp
qed (use inv in simp_all)

lemma stop_inv:
  assumes inv: "throttle_inv t"
  shows "throttle_inv (throttle_stop t)"
  by (rule throttle_invI) (use throttle_invD [OF inv] in \<open>auto simp: throttle_stop_def held_def heap_from_def split: if_splits\<close>)

lemma waiter_inv:
  assumes inv: "throttle_inv t"
  shows "throttle_inv (t\<lparr>th_futures := resolve f Waiter_Gone (th_futures t)\<rparr>)"
proof -
  note D = throttle_invD [OF inv]
  have h: "held (t\<lparr>th_futures := resolve f Waiter_Gone (th_futures t)\<rparr>) = held t" by (simp add: held_def)
  show ?thesis
    by (rule throttle_invI, unfold h) (use D in \<open>auto simp: resolve_nth split: if_splits\<close>)
qed

lemma throttle_step_inv [inv_intros]: "throttle_inv t \<Longrightarrow> throttle_inv (throttle_step t e)"
  by (cases e) (auto intro: acquire_inv worker_runs_inv stop_inv waiter_inv simp del: throttle_step.simps(2))

lemma throttle_run_inv: "throttle_inv t \<Longrightarrow> throttle_inv (foldl throttle_step t es)"
  by (induction es arbitrary: t) (auto intro: throttle_step_inv)

text \<open>The worker runs as long as the throttle is enabled and not stopped.\<close>

definition worker_alive :: "throttle \<Rightarrow> bool" where
  "worker_alive t \<longleftrightarrow> (0 < th_interval t \<longrightarrow> \<not> th_stopped t \<longrightarrow> th_worker t \<notin> {No_Worker, Ended})"

lemma detect_burst_frame:
  "th_interval (snd (detect_burst now t)) = th_interval t" "th_stopped (snd (detect_burst now t)) = th_stopped t"
  "th_worker (snd (detect_burst now t)) = th_worker t" "th_futures (snd (detect_burst now t)) = th_futures t"
  "th_last_command_time (snd (detect_burst now t)) = th_last_command_time t" "th_queue (snd (detect_burst now t)) = th_queue t"
  by (simp_all add: detect_burst_def Let_def)

lemma acquire_frame:
  "th_interval (snd (acquire now p a as t)) = th_interval t" "th_stopped (snd (acquire now p a as t)) = th_stopped t"
  "th_worker (snd (acquire now p a as t)) = th_worker t"
  "th_last_command_time (snd (acquire now p a as t)) = th_last_command_time t"
  by (simp_all add: acquire_def purge_commands_def Let_def split_beta detect_burst_frame)

lemma worker_take_frame:
  "th_interval (worker_take now t) = th_interval t" "th_stopped (worker_take now t) = th_stopped t"
  "th_worker (worker_take now t) \<notin> {No_Worker, Ended}"
  by (simp_all add: worker_take_def grant_def Let_def split: option.split)

lemma worker_runs_frame:
  "th_interval (throttle_step t (Worker_Runs now)) = th_interval t"
  "th_stopped (throttle_step t (Worker_Runs now)) = th_stopped t"
  "worker_alive t \<Longrightarrow> worker_alive (throttle_step t (Worker_Runs now))"
  using worker_take_frame
  by (simp_all add: worker_iteration_def worker_woken_def grant_def worker_alive_def Let_def split: worker_phase.split)
    blast

lemma throttle_step_frame:
  "th_interval (throttle_step t e) = th_interval t"
  "worker_alive t \<Longrightarrow> worker_alive (throttle_step t e)"
proof -
  show "th_interval (throttle_step t e) = th_interval t"
    by (cases e) (simp_all add: acquire_frame worker_runs_frame throttle_stop_def del: throttle_step.simps(2))
  assume a: "worker_alive t"
  show "worker_alive (throttle_step t e)"
  proof (cases e)
    case (Worker_Runs now)
    then show ?thesis using worker_runs_frame(3) [OF a] by simp
  qed (use a in \<open>simp_all add: acquire_frame throttle_stop_def worker_alive_def\<close>)
qed

lemma throttle_run_alive: "worker_alive t \<Longrightarrow> worker_alive (foldl throttle_step t es)"
  by (induction es arbitrary: t) (simp_all add: throttle_step_frame(2) del: throttle_step.simps)

lemma throttle_run_interval: "th_interval (foldl throttle_step t es) = th_interval t"
  by (induction es arbitrary: t) (simp_all add: throttle_step_frame(1) del: throttle_step.simps)

lemma throttle_init_alive: "worker_alive (throttle_init i b w)"
  by (simp add: worker_alive_def throttle_init_def)

subsection \<open>Spacing of the granted commands\<close>

fun spaced :: "time \<Rightarrow> time \<Rightarrow> time list \<Rightarrow> bool" where
  "spaced d l [] = True"
| "spaced d l (x # xs) = (l + d \<le> x \<and> spaced d x xs)"

lemma spaced_mono: "l \<le> l' \<Longrightarrow> spaced d l' xs \<Longrightarrow> spaced d l xs"
  by (cases xs) auto

definition newly_granted :: "throttle \<Rightarrow> throttle \<Rightarrow> bool" where
  "newly_granted t t' \<longleftrightarrow> list_ex (\<lambda>f. th_futures t' ! f = Granted \<and> th_futures t ! f \<noteq> Granted) [0..<length (th_futures t)]"

text \<open>The times at which the worker grants a command in a history.\<close>

fun grant_times :: "throttle \<Rightarrow> throttle_event list \<Rightarrow> time list" where
  "grant_times t [] = []"
| "grant_times t (e # es) =
     (let t' = throttle_step t e
      in (if newly_granted t t' then [th_last_command_time t'] else []) @ grant_times t' es)"

lemma not_granted_same: "th_futures t' = th_futures t \<Longrightarrow> \<not> newly_granted t t'"
  by (simp add: newly_granted_def list_ex_iff)

lemma acquire_no_grant: "\<not> newly_granted t (snd (acquire now p a as t))"
  by (auto simp: newly_granted_def list_ex_iff acquire_def purge_commands_def Let_def split_beta
      detect_burst_frame resolve_all_nth nth_append)

lemma worker_take_last:
  assumes "0 \<le> th_interval t"
  shows "(th_last_command_time (worker_take now t) = th_last_command_time t \<and> \<not> newly_granted t (worker_take now t)) \<or>
         th_last_command_time t + th_interval t \<le> th_last_command_time (worker_take now t)"
  by (auto simp: worker_take_def grant_def Let_def not_granted_same split: option.split)

lemma throttle_step_last:
  assumes inv: "throttle_inv t" and i: "0 \<le> th_interval t"
  shows "(th_last_command_time (throttle_step t e) = th_last_command_time t \<and> \<not> newly_granted t (throttle_step t e)) \<or>
         th_last_command_time t + th_interval t \<le> th_last_command_time (throttle_step t e)"
proof (cases e)
  case (Worker_Runs now)
  let ?t1 = "t\<lparr>th_command_available := False\<rparr>"
  have w: "newly_granted ?t1 = newly_granted t" by (simp add: newly_granted_def fun_eq_iff)
  show ?thesis
    using throttle_invD(7) [OF inv] worker_take_last [OF i, of now] worker_take_last [of ?t1 now] i
    by (auto simp: Worker_Runs worker_iteration_def worker_woken_def grant_def w not_granted_same Let_def
        split: worker_phase.split)
next
  case Stop_Throttle
  then show ?thesis
    by (auto simp: throttle_stop_def newly_granted_def list_ex_iff resolve_all_nth split: if_splits)
next
  case (Waiter_Cancelled f)
  then show ?thesis by (auto simp: newly_granted_def list_ex_iff resolve_nth)
qed (simp add: acquire_no_grant acquire_frame)

lemma grant_times_spaced:
  assumes "throttle_inv t" and "0 \<le> th_interval t"
  shows "spaced (th_interval t) (th_last_command_time t) (grant_times t es)"
  using assms
proof (induction es arbitrary: t)
  case (Cons e es)
  let ?t = "throttle_step t e"
  have i: "th_interval ?t = th_interval t" by (rule throttle_step_frame)
  have IH: "spaced (th_interval t) (th_last_command_time ?t) (grant_times ?t es)"
    using Cons.IH [of ?t] throttle_step_inv [OF Cons.prems(1)] Cons.prems(2) i by simp
  show ?case
    using throttle_step_last [OF Cons.prems, of e] IH Cons.prems(2)
      spaced_mono [of "th_last_command_time t" "th_last_command_time ?t" "th_interval t" "grant_times ?t es"]
    by (auto simp: Let_def)
qed simp

subsection \<open>Progress of the worker\<close>

text \<open>A run of the worker at a time when the interval is over, with a command to grant, grants one.\<close>

text \<open>
  A run of a worker that holds no command takes the first one of the queue, and grants it or holds it
  until the interval is over.
\<close>

definition takes_first :: "time \<Rightarrow> throttle \<Rightarrow> throttle \<Rightarrow> bool" where
  "takes_first now t t' \<longleftrightarrow>
     (\<exists>c. mset (th_queue t) = add_mset c (mset (th_queue t')) \<and> (\<forall>y \<in> set (th_queue t). pc_key c \<le> pc_key y) \<and>
        (if now < th_last_command_time t + th_interval t
         then held t' = [c] \<and> th_futures t' = th_futures t
         else held t' = [] \<and> th_futures t' = resolve (pc_future c) Granted (th_futures t)))"

lemma worker_take_first:
  assumes inv: "throttle_inv t" and ne: "th_queue t \<noteq> []"
  shows "takes_first now t (worker_take now (t\<lparr>th_command_available := x\<rparr>))"
proof -
  note h = throttle_invD(1) [OF inv]
  obtain c q where p: "heappop pc_key (th_queue t) = Some (c, q)"
    using heapq.pop_empty [OF h] ne by (cases "heappop pc_key (th_queue t)") auto
  have least: "\<forall>y \<in> set (th_queue t). pc_key c \<le> pc_key y"
    using heapq.pop_min [OF h p] by simp
  show ?thesis
    unfolding takes_first_def
    using least heapq.elems_pop [OF h p]
    by (intro exI [of _ c]) (auto simp: worker_take_def p grant_def held_def Let_def)
qed

lemma worker_takes:
  assumes inv: "throttle_inv t" and alive: "worker_alive t" and "0 < th_interval t" and "\<not> th_stopped t"
    and h: "held t = []" and ne: "th_queue t \<noteq> []"
  shows "takes_first now t (throttle_step t (Worker_Runs now))"
proof (cases "th_worker t")
  case Loop_Head
  have "t\<lparr>th_command_available := th_command_available t\<rparr> = t" by simp
  with worker_take_first [OF inv ne, of now "th_command_available t"] Loop_Head ne assms(4) show ?thesis
    by (simp add: worker_iteration_def)
next
  case Awaiting_Command
  with worker_take_first [OF inv ne, of now False] throttle_invD(6) [OF inv Awaiting_Command ne] assms(4) show ?thesis
    by (simp add: worker_woken_def)
next
  case (Delaying c w)
  with h show ?thesis by (simp add: held_def)
qed (use alive assms(3,4) in \<open>simp_all add: worker_alive_def\<close>)

lemma worker_holds:
  assumes inv: "throttle_inv t" and h: "held t = [c]"
  shows "if now < th_last_command_time t + th_interval t then throttle_step t (Worker_Runs now) = t
    else held (throttle_step t (Worker_Runs now)) = [] \<and> th_queue (throttle_step t (Worker_Runs now)) = th_queue t \<and>
         th_futures (throttle_step t (Worker_Runs now)) = resolve (pc_future c) Granted (th_futures t)"
proof -
  obtain w where w: "th_worker t = Delaying c w"
    using h by (cases "th_worker t") (simp_all add: held_def)
  then show ?thesis
    using throttle_invD(7) [OF inv w] by (simp add: grant_def held_def)
qed

subsection \<open>Properties\<close>

text \<open>
  C11: Rate limit. In every history of a throttle (any interleaving of acquisitions, purges, worker
  runs, abandoned waits and a stop) the times at which commands are granted are at least the
  interval apart.
\<close>

theorem throttle_rate_limit:
  assumes "0 \<le> interval"
  shows "spaced interval 0 (grant_times (throttle_init interval bt bw) es)"
  using grant_times_spaced [OF throttle_init_inv, of interval bt bw es] assms
  by (simp add: throttle_init_def)

theorem throttle_rate_limit_witness:
  "spaced 1 0 (grant_times (throttle_init 1 0 0)
     [Acquire 5 HIGH ''a'' [], Acquire 5 LOW ''b'' [], Worker_Runs 6, Worker_Runs 6, Worker_Runs 7])"
  using throttle_rate_limit [of 1 0 0
      "[Acquire 5 HIGH ''a'' [], Acquire 5 LOW ''b'' [], Worker_Runs 6, Worker_Runs 6, Worker_Runs 7]"]
  by simp



lemma dropWhile_sorted_filter:
  "sorted xs \<Longrightarrow> dropWhile (\<lambda>x. x < c) xs = filter (\<lambda>x. \<not> x < c) (xs :: time list)"
proof (induction xs)
  case (Cons x xs)
  then show ?case
    by (cases "x < c") (auto simp: not_less intro!: filter_True [symmetric] intro: order_trans)
qed simp

lemma burst_window:
  assumes "sorted (ts @ [now])" and "th_burst_threshold t \<noteq> 0"
    and "th_burst_timestamps t = filter (\<lambda>x. c \<le> x) ts" and "c \<le> now - th_burst_window t" and "0 \<le> th_burst_window t"
  shows "th_burst_timestamps (snd (detect_burst now t)) = filter (\<lambda>x. now - th_burst_window t \<le> x) (ts @ [now])"
    and "fst (detect_burst now t) \<longleftrightarrow>
           int (length (filter (\<lambda>x. now - th_burst_window t \<le> x) (ts @ [now]))) > th_burst_threshold t"
proof -
  let ?k = "now - th_burst_window t"
  have "sorted (filter (\<lambda>x. c \<le> x) ts @ [now])"
    using assms(1) by (auto simp: sorted_append intro: sorted_wrt_filter)
  then have "dropWhile (\<lambda>x. x < ?k) (filter (\<lambda>x. c \<le> x) ts @ [now]) = filter (\<lambda>x. \<not> x < ?k) (filter (\<lambda>x. c \<le> x) ts @ [now])"
    by (rule dropWhile_sorted_filter)
  also have "\<dots> = filter (\<lambda>x. ?k \<le> x) (ts @ [now])"
    using assms(4,5) by (auto simp: not_less intro!: filter_cong)
  finally show "th_burst_timestamps (snd (detect_burst now t)) = filter (\<lambda>x. ?k \<le> x) (ts @ [now])"
    and "fst (detect_burst now t) \<longleftrightarrow> int (length (filter (\<lambda>x. ?k \<le> x) (ts @ [now]))) > th_burst_threshold t"
    using assms(2,3) by (simp_all add: detect_burst_def Let_def)
qed

fun detect_bursts :: "throttle \<Rightarrow> time list \<Rightarrow> throttle" where
  "detect_bursts t [] = t"
| "detect_bursts t (x # xs) = detect_bursts (snd (detect_burst x t)) xs"

lemma detect_bursts_snoc: "detect_bursts t (xs @ [x]) = snd (detect_burst x (detect_bursts t xs))"
  by (induction t xs rule: detect_bursts.induct) simp_all

lemma detect_bursts_config:
  "th_burst_threshold (detect_bursts t xs) = th_burst_threshold t" "th_burst_window (detect_bursts t xs) = th_burst_window t"
  by (induction t xs rule: detect_bursts.induct) (simp_all add: detect_burst_def Let_def)

lemma detect_bursts_window:
  assumes "sorted (ts @ [now])" and "th_burst_threshold t \<noteq> 0" and "0 \<le> th_burst_window t" and "th_burst_timestamps t = []"
  shows "th_burst_timestamps (detect_bursts t (ts @ [now])) = filter (\<lambda>x. now - th_burst_window t \<le> x) (ts @ [now]) \<and>
         (fst (detect_burst now (detect_bursts t ts)) \<longleftrightarrow>
           int (length (filter (\<lambda>x. now - th_burst_window t \<le> x) (ts @ [now]))) > th_burst_threshold t)"
  using assms
proof (induction ts arbitrary: now rule: rev_induct)
  case Nil
  then show ?case
    using burst_window [of "[]" now t "now - th_burst_window t"] by simp
next
  case (snoc y ts)
  let ?t = "detect_bursts t (ts @ [y])"
  have "sorted (ts @ [y])" "y \<le> now"
    using snoc.prems(1) by (simp_all add: sorted_append)
  with snoc.IH [of y] snoc.prems(2-4)
  have "th_burst_timestamps ?t = filter (\<lambda>x. y - th_burst_window t \<le> x) (ts @ [y])" by blast
  with burst_window [OF snoc.prems(1), of ?t "y - th_burst_window t"] snoc.prems \<open>y \<le> now\<close>
  show ?case
    unfolding detect_bursts_snoc [of t "ts @ [y]"] by (simp add: detect_bursts_config)
qed

text \<open>
  Burst detection is an exact sliding window. When HIGH priority commands arrive at the times
  \<open>ts\<close> followed by \<open>now\<close>, in order, the command at \<open>now\<close> is downgraded exactly when more than the
  threshold of all of them, itself included, lie within the window that ends at \<open>now\<close>, and the
  timestamps kept are exactly those.
\<close>

theorem throttle_burst_window:
  assumes "sorted (ts @ [now])" and "burst_threshold \<noteq> 0" and "0 \<le> burst_window"
  shows "let t = detect_bursts (throttle_init interval burst_threshold burst_window) ts;
             in_window = filter (\<lambda>x. now - burst_window \<le> x) (ts @ [now])
         in (fst (detect_burst now t) \<longleftrightarrow> int (length in_window) > burst_threshold) \<and>
            th_burst_timestamps (snd (detect_burst now t)) = in_window"
  using detect_bursts_window [OF assms(1), of "throttle_init interval burst_threshold burst_window"] assms(2,3)
  by (simp add: detect_bursts_snoc throttle_init_def Let_def)

theorem throttle_burst_window_witness:
  "fst (detect_burst 3 (detect_bursts (throttle_init 1 2 2) [0, 1, 2])) \<and>
   th_burst_timestamps (snd (detect_burst 3 (detect_bursts (throttle_init 1 2 2) [0, 1, 2]))) = [1, 2, 3]"
  using throttle_burst_window [of "[0, 1, 2]" 3 2 2 1] by (simp add: Let_def)

lemma resolve_other: "f \<noteq> g \<Longrightarrow> f < length fs \<Longrightarrow> resolve g r fs ! f = fs ! f"
  by (simp add: resolve_nth)

lemma stopped_future_stays:
  assumes "throttle_inv t" and "th_stopped t" and "th_worker t \<in> {Ended, No_Worker}" and "f < length (th_futures t)"
    and "th_futures t ! f = Pending" and "Waiter_Cancelled f \<notin> set es"
  shows "th_futures (foldl throttle_step t es) ! f = Pending"
  using assms
proof (induction es arbitrary: t)
  case (Cons e es)
  let ?t = "throttle_step t e"
  have q: "th_queue t = []" using throttle_invD(5) [OF Cons.prems(1,2)] .
  have "th_futures ?t ! f = Pending \<and> f < length (th_futures ?t) \<and> th_stopped ?t \<and> th_worker ?t \<in> {Ended, No_Worker}"
    using Cons.prems(2-6) q
    by (cases e) (auto simp: acquire_def purge_commands_def throttle_stop_def detect_burst_frame resolve_other Let_def split_beta)
  with Cons.IH [of ?t] throttle_step_inv [OF Cons.prems(1), of e] Cons.prems(6) show ?case by simp
qed simp

text \<open>
  Stopping rejects the queue but abandons the command the worker delays. After \<open>stop\<close> every
  command that was queued has an outcome, while the caller whose command the worker had taken and
  was delaying waits for ever: whatever happens later, its future stays pending unless the caller
  itself gives up.
\<close>

theorem throttle_stop_abandons:
  assumes t: "t = foldl throttle_step (throttle_init interval bt bw) es" and "\<not> th_stopped t"
    and "th_worker t = Delaying c w" and "th_futures t ! pc_future c = Pending"
    and "Waiter_Cancelled (pc_future c) \<notin> set es'"
  shows "(\<forall>x \<in> set (th_queue t). th_futures (throttle_stop t) ! pc_future x \<noteq> Pending) \<and>
         th_futures (foldl throttle_step (throttle_stop t) es') ! pc_future c = Pending"
proof -
  have inv: "throttle_inv t" unfolding t by (rule throttle_run_inv [OF throttle_init_inv])
  note D = throttle_invD [OF inv]
  let ?d = "drain (heappop pc_key) (length (th_queue t)) (th_queue t)"
  have m: "mset ?d = mset (th_queue t)"
    using heapq.drain_sorted [OF D(1), of "length (th_queue t)"] by simp
  have sd: "set ?d = set (th_queue t)" using mset_eq_setD [OF m] .
  have h: "held t = [c]" using assms(3) by (simp add: held_def)
  have cl: "pc_future c < length (th_futures t)" and cq: "pc_future c \<notin> pc_future ` set (th_queue t)"
    using D(2,3) [unfolded h] by auto
  let ?s = "throttle_stop t"
  have s: "th_futures ?s = resolve_all ?d Stopped_Error (th_futures t)" "th_stopped ?s" "th_worker ?s = Ended"
    using assms(2,3) by (simp_all add: throttle_stop_def)
  have "th_futures (foldl throttle_step ?s es') ! pc_future c = Pending"
    by (rule stopped_future_stays)
      (use stop_inv [OF inv] s cl cq sd assms(4,5) in \<open>simp_all add: resolve_all_nth\<close>)
  moreover have "th_futures ?s ! pc_future x \<noteq> Pending" if "x \<in> set (th_queue t)" for x
    using that D(3) [of x] s sd by (simp add: resolve_all_nth)
  ultimately show ?thesis by blast
qed

theorem throttle_stop_abandons_witness:
  "th_futures (foldl throttle_step (throttle_stop
     (foldl throttle_step (throttle_init 10 0 0) [Acquire 5 LOW ''a'' [], Worker_Runs 5]))
       [Worker_Runs 100, Acquire 101 HIGH ''b'' [], Worker_Runs 102]) ! 0 = Pending"
proof -
  let ?es = "[Acquire 5 LOW ''a'' [], Worker_Runs 5]"
  let ?es' = "[Worker_Runs 100, Acquire 101 HIGH ''b'' [], Worker_Runs 102]"
  let ?t = "foldl throttle_step (throttle_init 10 0 0) ?es"
  let ?c = "\<lparr>pc_priority = LOW, pc_timestamp = 5, pc_future = 0, pc_device_address = ''a''\<rparr>"
  have p: "heappush pc_key ?c [] = [?c]"
    by (simp add: heappush_def siftdown_def siftdown_loop.simps)
  have "th_worker ?t = Delaying ?c 10" "\<not> th_stopped ?t" "th_futures ?t ! 0 = Pending"
    using p by (simp_all add: acquire_def throttle_init_def worker_iteration_def worker_take_def heappop_def Let_def)
  with throttle_stop_abandons [of ?t 10 0 0 ?es ?c 10 ?es']
  show "th_futures (foldl throttle_step (throttle_stop ?t) ?es') ! 0 = Pending" by simp
qed

end
