(* ===== verification/Request_Coalescer.thy ===== *)
theory Request_Coalescer
  imports Rpc_Errors
begin

section \<open>Request coalescer (\<open>client/request_coalescer.py\<close>)\<close>

text \<open>
  \<open>RequestCoalescer\<close>: the first caller of a key owns the execution, later callers of the same key
  await its future. The model is a system of executions, each with its future and the result of its
  owner; \<open>execute\<close> is cut at its two \<open>await\<close>s. Cancelling a task that awaits a future cancels that
  future (documented behaviour of \<open>asyncio\<close>), which the event \<open>Waiter_Abandons\<close> does.
\<close>

subsection \<open>Definitions\<close>

datatype 'v fut = Fut_Pending | Fut_Result 'v | Fut_Exception exn | Fut_Cancelled

record 'v execution =
  ex_key :: string
  ex_future :: "'v fut"
  ex_owner :: "(exn + 'v) option" \<comment> \<open>what the owner's call returned or raised, once it ended\<close>

record pending_request =
  pr_future :: nat
  pr_created_at :: time
  pr_waiter_count :: int

record 'v coalescer =
  co_interface_id :: string
  co_event_bus :: bool
  co_pending :: "(string, pending_request) dict"
  co_total_requests :: int
  co_executed_requests :: int
  co_executions :: "'v execution list"

definition coalescer_init :: "string \<Rightarrow> bool \<Rightarrow> string option \<Rightarrow> 'v coalescer" where
  "coalescer_init name event_bus interface_id =
     \<lparr>co_interface_id = or_else interface_id name, co_event_bus = event_bus, co_pending = [],
      co_total_requests = 0, co_executed_requests = 0, co_executions = []\<rparr>"

definition pending_count :: "'v coalescer \<Rightarrow> nat" where
  "pending_count s = length (co_pending s)"

definition set_future :: "nat \<Rightarrow> 'v fut \<Rightarrow> 'v coalescer \<Rightarrow> 'v coalescer" where
  "set_future i r s = s\<lparr>co_executions := (co_executions s)[i := (co_executions s ! i)\<lparr>ex_future := r\<rparr>]\<rparr>"

text \<open>\<open>future.cancel()\<close> has no effect on a future that is done.\<close>

definition cancel_future :: "nat \<Rightarrow> 'v coalescer \<Rightarrow> 'v coalescer" where
  "cancel_future i s =
     (if i < length (co_executions s) \<and> ex_future (co_executions s ! i) = Fut_Pending then set_future i Fut_Cancelled s else s)"

definition coalescer_clear :: "'v coalescer \<Rightarrow> 'v coalescer" where
  "coalescer_clear s = (foldl (\<lambda>s p. cancel_future (pr_future p) s) s (dict_values (co_pending s)))\<lparr>co_pending := []\<rparr>"

definition emit_coalesce_event :: "time \<Rightarrow> 'v coalescer \<Rightarrow> string \<Rightarrow> int \<Rightarrow> event list" where
  "emit_coalesce_event now s key coalesced_count =
     (if co_event_bus s then [RequestCoalescedEvent now key coalesced_count (co_interface_id s)] else [])"

definition emit_coalesced_counter :: "time \<Rightarrow> 'v coalescer \<Rightarrow> event list" where
  "emit_coalesced_counter now s =
     (if co_event_bus s then [emit_counter now (metric_key ''coalescer'' ''coalesced'' (co_interface_id s)) 1] else [])"

definition emit_failure_counter :: "time \<Rightarrow> 'v coalescer \<Rightarrow> event list" where
  "emit_failure_counter now s =
     (if co_event_bus s then [emit_counter now (metric_key ''coalescer'' ''failure'' (co_interface_id s)) 1] else [])"

text \<open>
  A call of \<open>execute\<close> up to its first \<open>await\<close>: the number of the future it waits for, and whether it
  owns the execution.
\<close>

definition co_execute :: "time \<Rightarrow> string \<Rightarrow> 'v coalescer \<Rightarrow> (nat \<times> bool) \<times> 'v coalescer \<times> event list" where
  "co_execute now key s =
     (let s1 = s\<lparr>co_total_requests := co_total_requests s + 1\<rparr>
      in case dict_get (co_pending s1) key of
           Some p \<Rightarrow>
             let p' = p\<lparr>pr_waiter_count := pr_waiter_count p + 1\<rparr>
             in ((pr_future p, False), s1\<lparr>co_pending := dict_set key p' (co_pending s1)\<rparr>,
                 emit_coalesced_counter now s1 @ emit_coalesce_event now s1 key (pr_waiter_count p'))
         | None \<Rightarrow>
             let i = length (co_executions s1)
             in ((i, True),
                 s1\<lparr>co_pending := dict_set key \<lparr>pr_future = i, pr_created_at = now, pr_waiter_count = 1\<rparr> (co_pending s1),
                    co_executed_requests := co_executed_requests s1 + 1,
                    co_executions := co_executions s1 @ [\<lparr>ex_key = key, ex_future = Fut_Pending, ex_owner = None\<rparr>]\<rparr>,
                 []))"

text \<open>\<open>future.set_result\<close> and \<open>future.set_exception\<close> raise \<open>InvalidStateError\<close> on a future that is done.\<close>

definition invalid_state_error :: exn where
  "invalid_state_error = new_exn PyException ''InvalidStateError''"

text \<open>The \<open>try\<close> of the owner: the future is resolved and the result of the call determined.\<close>

definition co_settle :: "time \<Rightarrow> nat \<Rightarrow> exn + 'v \<Rightarrow> 'v coalescer \<Rightarrow> (exn + 'v) \<times> 'v coalescer \<times> event list" where
  "co_settle now i r s =
     (let pending = (ex_future (co_executions s ! i) = Fut_Pending)
      in case r of
           Inr v \<Rightarrow>
             if pending then (Inr v, set_future i (Fut_Result v) s, [])
             else (Inl invalid_state_error, s, emit_failure_counter now s)
         | Inl e \<Rightarrow>
             if isinstance e PyException
             then if pending then (Inl e, set_future i (Fut_Exception e) s, emit_failure_counter now s)
                  else (Inl invalid_state_error, s, emit_failure_counter now s)
             else (Inl e, s, []))"

text \<open>The rest of \<open>execute\<close> of the owner, with the \<open>finally\<close> clause, whose \<open>del\<close> may raise.\<close>

definition co_finish :: "time \<Rightarrow> nat \<Rightarrow> exn + 'v \<Rightarrow> 'v coalescer \<Rightarrow> 'v coalescer \<times> event list" where
  "co_finish now i r s =
     (let (res, s1, out) = co_settle now i r s;
          key = ex_key (co_executions s ! i);
          res' = (case dict_get (co_pending s1) key of None \<Rightarrow> Inl (new_exn PyException ''KeyError'') | Some _ \<Rightarrow> res);
          s2 = s1\<lparr>co_pending := dict_del key (co_pending s1)\<rparr>
      in (s2\<lparr>co_executions := (co_executions s2)[i := (co_executions s2 ! i)\<lparr>ex_owner := Some res'\<rparr>]\<rparr>, out))"

datatype 'v co_event =
    Execute time string
  | Executor_Ends time nat "exn + 'v"
  | Waiter_Abandons nat
  | Clear_All

fun co_step :: "'v coalescer \<Rightarrow> 'v co_event \<Rightarrow> 'v coalescer" where
  "co_step s (Execute now key) = fst (snd (co_execute now key s))"
| "co_step s (Executor_Ends now i r) =
     (if i < length (co_executions s) \<and> ex_owner (co_executions s ! i) = None then fst (co_finish now i r s) else s)"
| "co_step s (Waiter_Abandons i) = cancel_future i s"
| "co_step s Clear_All = coalescer_clear s"

text \<open>\<open>make_coalesce_key\<close>, for arguments that are already strings.\<close>

definition make_coalesce_key :: "string \<Rightarrow> string list \<Rightarrow> string" where
  "make_coalesce_key method args = method @ '':'' @ py_join '':'' args"

subsection \<open>Invariant of a coalescer that is not cleared\<close>

definition in_flight :: "'v coalescer \<Rightarrow> nat \<Rightarrow> bool" where
  "in_flight s i \<longleftrightarrow> i < length (co_executions s) \<and> ex_owner (co_executions s ! i) = None"

definition co_inv :: "'v coalescer \<Rightarrow> bool" where
  "co_inv s \<longleftrightarrow>
     dict_wf (co_pending s) \<and>
     (\<forall>key p. dict_get (co_pending s) key = Some p \<longrightarrow>
        in_flight s (pr_future p) \<and> ex_key (co_executions s ! pr_future p) = key) \<and>
     (\<forall>i. in_flight s i \<longrightarrow> (\<exists>p. dict_get (co_pending s) (ex_key (co_executions s ! i)) = Some p \<and> pr_future p = i)) \<and>
     co_executed_requests s = int (length (co_executions s))"

lemma co_invI:
  assumes "dict_wf (co_pending s)"
    and "\<And>key p. dict_get (co_pending s) key = Some p \<Longrightarrow> in_flight s (pr_future p) \<and> ex_key (co_executions s ! pr_future p) = key"
    and "\<And>i. in_flight s i \<Longrightarrow> \<exists>p. dict_get (co_pending s) (ex_key (co_executions s ! i)) = Some p \<and> pr_future p = i"
    and "co_executed_requests s = int (length (co_executions s))"
  shows "co_inv s"
  using assms unfolding co_inv_def by blast

lemma co_invD:
  assumes "co_inv s"
  shows "dict_wf (co_pending s)"
    and "dict_get (co_pending s) key = Some p \<Longrightarrow> in_flight s (pr_future p)"
    and "dict_get (co_pending s) key = Some p \<Longrightarrow> ex_key (co_executions s ! pr_future p) = key"
    and "in_flight s i \<Longrightarrow> \<exists>p. dict_get (co_pending s) (ex_key (co_executions s ! i)) = Some p \<and> pr_future p = i"
    and "co_executed_requests s = int (length (co_executions s))"
  using assms unfolding co_inv_def by blast+

lemma co_init_inv: "co_inv (coalescer_init n b i)"
  by (rule co_invI) (simp_all add: coalescer_init_def in_flight_def)

lemma set_future_simps [simp]:
  "co_pending (set_future i r s) = co_pending s" "co_executed_requests (set_future i r s) = co_executed_requests s"
  "co_total_requests (set_future i r s) = co_total_requests s"
  "length (co_executions (set_future i r s)) = length (co_executions s)"
  "ex_key (co_executions (set_future i r s) ! j) = ex_key (co_executions s ! j)"
  "ex_owner (co_executions (set_future i r s) ! j) = ex_owner (co_executions s ! j)"
  "in_flight (set_future i r s) j = in_flight s j"
  by (cases "i < length (co_executions s)"; auto simp: set_future_def in_flight_def nth_list_update list_update_beyond)+

lemma set_future_inv: "co_inv (set_future i r s) = co_inv s"
  by (simp add: co_inv_def)

lemma co_execute_inv:
  assumes inv: "co_inv s"
  shows "co_inv (fst (snd (co_execute now key s)))"
proof (cases "dict_get (co_pending s) key")
  case (Some p)
  note D = co_invD [OF inv]
  let ?s = "fst (snd (co_execute now key s))"
  have s: "co_executions ?s = co_executions s" "co_executed_requests ?s = co_executed_requests s"
    "co_pending ?s = dict_set key (p\<lparr>pr_waiter_count := pr_waiter_count p + 1\<rparr>) (co_pending s)"
    using Some by (simp_all add: co_execute_def Let_def)
  have f: "in_flight ?s j = in_flight s j" for j by (simp add: in_flight_def s)
  show ?thesis
    by (rule co_invI, unfold f s) (use D Some in \<open>fastforce split: if_splits\<close>)+
next
  case None
  note D = co_invD [OF inv]
  let ?s = "fst (snd (co_execute now key s))" and ?n = "length (co_executions s)"
  let ?x = "\<lparr>ex_key = key, ex_future = Fut_Pending, ex_owner = None\<rparr>"
  have s: "co_executions ?s = co_executions s @ [?x]" "co_executed_requests ?s = co_executed_requests s + 1"
    "co_pending ?s = dict_set key \<lparr>pr_future = ?n, pr_created_at = now, pr_waiter_count = 1\<rparr> (co_pending s)"
    using None by (simp_all add: co_execute_def Let_def)
  have f: "in_flight ?s j \<longleftrightarrow> j = ?n \<or> in_flight s j" for j
    by (auto simp: in_flight_def s nth_append less_Suc_eq)
  have old: "ex_key ((co_executions s @ [?x]) ! j) = ex_key (co_executions s ! j)" if "in_flight s j" for j
    using that by (simp add: in_flight_def nth_append)
  show ?thesis
  proof (rule co_invI, unfold f s)
    show "(pr_future p = ?n \<or> in_flight s (pr_future p)) \<and> ex_key ((co_executions s @ [?x]) ! pr_future p) = k"
      if "dict_get (dict_set key \<lparr>pr_future = ?n, pr_created_at = now, pr_waiter_count = 1\<rparr> (co_pending s)) k = Some p" for k p
      using that D(2,3) [of k p] old by (auto split: if_splits)
    show "\<exists>p. dict_get (dict_set key \<lparr>pr_future = ?n, pr_created_at = now, pr_waiter_count = 1\<rparr> (co_pending s))
        (ex_key ((co_executions s @ [?x]) ! i)) = Some p \<and> pr_future p = i" if "i = ?n \<or> in_flight s i" for i
      using that
    proof
      assume i: "in_flight s i"
      from D(4) [OF this] obtain p where p: "dict_get (co_pending s) (ex_key (co_executions s ! i)) = Some p" "pr_future p = i" by blast
      with None have "ex_key (co_executions s ! i) \<noteq> key" by auto
      with p show ?thesis by (simp add: old [OF i])
    qed simp
  qed (use D in simp_all)
qed

lemma co_settle_simps:
  "fst (snd (co_settle now i r s)) = s \<or> (\<exists>f. fst (snd (co_settle now i r s)) = set_future i f s)"
  by (auto simp: co_settle_def Let_def split: sum.split)

lemma co_settle_frame [simp]:
  "co_pending (fst (snd (co_settle now i r s))) = co_pending s"
  "co_executed_requests (fst (snd (co_settle now i r s))) = co_executed_requests s"
  "co_total_requests (fst (snd (co_settle now i r s))) = co_total_requests s"
  "length (co_executions (fst (snd (co_settle now i r s)))) = length (co_executions s)"
  "ex_key (co_executions (fst (snd (co_settle now i r s))) ! j) = ex_key (co_executions s ! j)"
  "ex_owner (co_executions (fst (snd (co_settle now i r s))) ! j) = ex_owner (co_executions s ! j)"
  using co_settle_simps [of now i r s] by auto

text \<open>The part of the owner's end that the invariant sees: key \<open>i\<close> leaves and its owner is done.\<close>

lemma co_finish_frame:
  assumes i: "i < length (co_executions s)" and s': "s' = fst (co_finish now i r s)"
  shows "co_pending s' = dict_del (ex_key (co_executions s ! i)) (co_pending s)"
    and "co_executed_requests s' = co_executed_requests s" and "co_total_requests s' = co_total_requests s"
    and "length (co_executions s') = length (co_executions s)"
    and "ex_key (co_executions s' ! j) = ex_key (co_executions s ! j)"
    and "in_flight s' j \<longleftrightarrow> j \<noteq> i \<and> in_flight s j"
  using i by (auto simp: s' co_finish_def Let_def split_beta in_flight_def nth_list_update)

lemma co_finish_inv:
  assumes inv: "co_inv s" and i: "in_flight s i"
  shows "co_inv (fst (co_finish now i r s))"
proof -
  note D = co_invD [OF inv]
  have il: "i < length (co_executions s)" using i by (simp add: in_flight_def)
  note F = co_finish_frame [OF il refl]
  obtain p where p: "dict_get (co_pending s) (ex_key (co_executions s ! i)) = Some p" "pr_future p = i"
    using D(4) [OF i] by blast
  show ?thesis
  proof (rule co_invI, unfold F)
    show "(pr_future q \<noteq> i \<and> in_flight s (pr_future q)) \<and> ex_key (co_executions s ! pr_future q) = k"
      if "dict_get (dict_del (ex_key (co_executions s ! i)) (co_pending s)) k = Some q" for k q
      using that D(2,3) [of k q] by (auto split: if_splits)
    show "\<exists>q. dict_get (dict_del (ex_key (co_executions s ! i)) (co_pending s)) (ex_key (co_executions s ! j)) = Some q \<and> pr_future q = j"
      if "j \<noteq> i \<and> in_flight s j" for j
    proof -
      from that D(4) [of j] obtain q where q: "dict_get (co_pending s) (ex_key (co_executions s ! j)) = Some q" "pr_future q = j"
        by blast
      with p that have "ex_key (co_executions s ! j) \<noteq> ex_key (co_executions s ! i)" by auto
      with q show ?thesis by auto
    qed
  qed (use D in simp_all)
qed

lemma cancel_future_inv: "co_inv s \<Longrightarrow> co_inv (cancel_future i s)"
  by (simp add: cancel_future_def set_future_inv)

lemma co_step_inv [inv_intros]: "co_inv s \<Longrightarrow> e \<noteq> Clear_All \<Longrightarrow> co_inv (co_step s e)"
  by (cases e) (auto intro: co_execute_inv co_finish_inv cancel_future_inv simp: in_flight_def)

lemma co_run_inv: "co_inv s \<Longrightarrow> Clear_All \<notin> set es \<Longrightarrow> co_inv (foldl co_step s es)"
proof (induction es arbitrary: s)
  case (Cons e es)
  then have "e \<noteq> Clear_All" by auto
  with Cons show ?case using co_step_inv [of s e] by simp
qed simp

subsection \<open>Properties\<close>

text \<open>
  C12: Single flight. In every history without \<open>clear\<close>, two executions of the same key are never in
  flight together, and the number of executed requests is the number of calls that found no
  execution of their key in flight.
\<close>

theorem coalescer_single_flight:
  fixes es :: "'v co_event list"
  assumes "Clear_All \<notin> set es"
  shows "let s = foldl co_step (coalescer_init n b i) es
         in (\<forall>x y. in_flight s x \<and> in_flight s y \<and> ex_key (co_executions s ! x) = ex_key (co_executions s ! y) \<longrightarrow> x = y) \<and>
            (\<forall>key now. snd (fst (co_execute now key s)) \<longleftrightarrow> (\<forall>x. in_flight s x \<longrightarrow> ex_key (co_executions s ! x) \<noteq> key)) \<and>
            co_executed_requests s = int (length (co_executions s))"
proof -
  let ?s = "foldl co_step (coalescer_init n b i) es :: 'v coalescer"
  have inv: "co_inv ?s" using co_run_inv [OF co_init_inv assms] .
  note D = co_invD [OF inv]
  have 1: "x = y" if "in_flight ?s x \<and> in_flight ?s y \<and> ex_key (co_executions ?s ! x) = ex_key (co_executions ?s ! y)" for x y
  proof -
    from that obtain p q where "dict_get (co_pending ?s) (ex_key (co_executions ?s ! y)) = Some p" "pr_future p = x"
      "dict_get (co_pending ?s) (ex_key (co_executions ?s ! y)) = Some q" "pr_future q = y"
      using D(4) [of x] D(4) [of y] by metis
    then show ?thesis by simp
  qed
  have 2: "snd (fst (co_execute now key ?s)) \<longleftrightarrow> dict_get (co_pending ?s) key = None" for now key
    by (simp add: co_execute_def Let_def split: option.split)
  have 3: "dict_get (co_pending ?s) key = None \<longleftrightarrow> (\<forall>x. in_flight ?s x \<longrightarrow> ex_key (co_executions ?s ! x) \<noteq> key)" for key
  proof
    assume "dict_get (co_pending ?s) key = None"
    then show "\<forall>x. in_flight ?s x \<longrightarrow> ex_key (co_executions ?s ! x) \<noteq> key" using D(4) by fastforce
  next
    assume "\<forall>x. in_flight ?s x \<longrightarrow> ex_key (co_executions ?s ! x) \<noteq> key"
    then show "dict_get (co_pending ?s) key = None"
      using D(2,3) [of key] by (cases "dict_get (co_pending ?s) key") blast+
  qed
  show ?thesis unfolding Let_def using 1 2 3 D(5) by blast
qed

theorem coalescer_single_flight_witness:
  "let s = foldl co_step (coalescer_init ''c'' True None) [Execute 0 ''k'', Execute 1 ''k'' :: nat co_event]
   in co_executed_requests s = int (length (co_executions s)) \<and> length (co_executions s) = 1 \<and> co_total_requests s = 2"
  using coalescer_single_flight [of "[Execute 0 ''k'', Execute 1 ''k'' :: nat co_event]" "''c''" True None]
  by (simp add: co_execute_def coalescer_init_def Let_def)

text \<open>
  Result sharing. When the executor of an execution in flight returns a value or raises an
  exception, and nobody cancelled the shared future, the owner's call ends with exactly that outcome,
  every other caller of the key gets the same one from the future, and the key is free again.
\<close>

theorem coalescer_shares_result:
  fixes es :: "'v co_event list"
  assumes "Clear_All \<notin> set es" and s: "s = foldl co_step (coalescer_init n b iid) es"
    and "in_flight s i" and "ex_future (co_executions s ! i) = Fut_Pending"
    and "case r of Inl e \<Rightarrow> isinstance e PyException | Inr v \<Rightarrow> True"
  shows "let s' = co_step s (Executor_Ends now i r); key = ex_key (co_executions s ! i)
         in ex_owner (co_executions s' ! i) = Some r \<and>
            ex_future (co_executions s' ! i) = (case r of Inr v \<Rightarrow> Fut_Result v | Inl e \<Rightarrow> Fut_Exception e) \<and>
            dict_get (co_pending s') key = None"
proof -
  have inv: "co_inv s" unfolding s using co_run_inv [OF co_init_inv assms(1)] .
  obtain p where "dict_get (co_pending s) (ex_key (co_executions s ! i)) = Some p"
    using co_invD(4) [OF inv assms(3)] by blast
  moreover have "i < length (co_executions s)" "ex_owner (co_executions s ! i) = None"
    using assms(3) by (simp_all add: in_flight_def)
  ultimately show ?thesis
    using assms(4,5)
    by (auto simp: co_finish_def co_settle_def set_future_def Let_def split: sum.split)
qed

theorem coalescer_shares_result_witness:
  "let s = foldl co_step (coalescer_init ''c'' False None) [Execute 0 ''k'', Execute 1 ''k'' :: nat co_event];
       s' = co_step s (Executor_Ends 2 0 (Inr 5))
   in ex_owner (co_executions s' ! 0) = Some (Inr 5) \<and> ex_future (co_executions s' ! 0) = Fut_Result 5"
proof -
  let ?es = "[Execute 0 ''k'', Execute 1 ''k'' :: nat co_event]"
  let ?s = "foldl co_step (coalescer_init ''c'' False None) ?es"
  have "in_flight ?s 0" "ex_future (co_executions ?s ! 0) = Fut_Pending"
    by (simp_all add: in_flight_def co_execute_def coalescer_init_def Let_def)
  with coalescer_shares_result [of ?es ?s "''c''" False None 0 "Inr 5" 2]
  show ?thesis unfolding Let_def by simp
qed

text \<open>
  One impatient caller breaks the request for everybody. If any caller that waits for the shared
  future is cancelled, for example by a timeout, then when the executor later succeeds with \<open>v\<close> the
  owner's call raises an error instead of returning \<open>v\<close>, and all other callers find the future
  cancelled.
\<close>

theorem coalescer_cancelled_waiter_breaks_owner:
  fixes es :: "'v co_event list"
  assumes "Clear_All \<notin> set es" and s: "s = foldl co_step (coalescer_init n b iid) es"
    and "in_flight s i" and "ex_future (co_executions s ! i) = Fut_Pending"
  shows "let s' = co_step (co_step s (Waiter_Abandons i)) (Executor_Ends now i (Inr v))
         in ex_owner (co_executions s' ! i) = Some (Inl invalid_state_error) \<and>
            ex_future (co_executions s' ! i) = Fut_Cancelled"
proof -
  have inv: "co_inv s" unfolding s using co_run_inv [OF co_init_inv assms(1)] .
  obtain p where "dict_get (co_pending s) (ex_key (co_executions s ! i)) = Some p"
    using co_invD(4) [OF inv assms(3)] by blast
  moreover have "i < length (co_executions s)" "ex_owner (co_executions s ! i) = None"
    using assms(3) by (simp_all add: in_flight_def)
  ultimately show ?thesis
    using assms(4) by (simp add: cancel_future_def co_finish_def co_settle_def set_future_def Let_def)
qed

theorem coalescer_cancelled_waiter_breaks_owner_witness:
  "let s = foldl co_step (coalescer_init ''c'' False None) [Execute 0 ''k'', Execute 1 ''k'' :: nat co_event];
       s' = co_step (co_step s (Waiter_Abandons 0)) (Executor_Ends 2 0 (Inr 5))
   in ex_owner (co_executions s' ! 0) = Some (Inl invalid_state_error)"
proof -
  let ?es = "[Execute 0 ''k'', Execute 1 ''k'' :: nat co_event]"
  let ?s = "foldl co_step (coalescer_init ''c'' False None) ?es"
  have "in_flight ?s 0" "ex_future (co_executions ?s ! 0) = Fut_Pending"
    by (simp_all add: in_flight_def co_execute_def coalescer_init_def Let_def)
  with coalescer_cancelled_waiter_breaks_owner [of ?es ?s "''c''" False None 0 2 5]
  show ?thesis unfolding Let_def by simp
qed

end
