(* ===== verification/Spec2Isabelle.thy ===== *)
theory Spec2Isabelle
  imports Climate_Device Schedule_Device Data_Point_Factory Cover Thermostat On_Off Value_Cache Event_Bus Connection_Recovery Central_Unit Rpc_Proxy Command_Retry Command_Throttle Request_Coalescer Command_Tracker
begin

text \<open>
  This library models the core of \<^emph>\<open>aiohomematic\<close>, an asynchronous Python client for Homematic
  backends (a CCU or Homegear): the code that keeps connections alive, sends commands, distributes
  events, holds the values of data points and edits the week schedules of devices. File names are
  relative to \<open>src/aiohomematic/\<close>.

  \<^bold>\<open>The program.\<close> A \<^emph>\<open>central unit\<close> owns one \<^emph>\<open>client\<close> per interface of the backend. A client talks to the
  backend through an \<^emph>\<open>RPC proxy\<close> guarded by a circuit breaker, answers are events on the central's
  \<^emph>\<open>event bus\<close>. Commands pass the \<^emph>\<open>retry handler\<close> and the \<^emph>\<open>throttle\<close>; identical requests are coalesced;
  values sent are remembered by the \<^emph>\<open>command tracker\<close> until the backend confirms them; pings are matched
  with pongs. When a connection is lost, the \<^emph>\<open>recovery coordinator\<close> walks each interface through its
  stages, and falls back to a heartbeat; the \<^emph>\<open>client coordinator\<close> creates, starts and stops clients;
  \<^emph>\<open>health\<close> records and the state machines of clients and central follow. On top, devices have \<^emph>\<open>data
  points\<close>, whose value is the last one reported or an optimistic one that awaits its confirmation, and
  \<^emph>\<open>week profiles\<close>, which translate schedules to flat parameters and back.

  \<^bold>\<open>Theories and sources.\<close>
  \<^item> \<open>Prelude\<close>, \<open>Const\<close>, \<open>Events\<close>, \<open>Eviction\<close>, \<open>Heapq\<close>, \<open>Text_Format\<close>: dictionaries with insertion order as
    association lists, runs of state machines, the enumerations and constants of \<open>const.py\<close>, the event
    classes of \<open>central/events/\<close> and \<open>metrics/\<close>, eviction of the oldest entries, Python's \<open>heapq\<close> and text
    operations, with the lemmas the components share.
  \<^item> \<open>Client_State_Machine\<close> (\<open>client/state_machine.py\<close>), \<open>Central_State_Machine\<close> (\<open>central/state_machine.py\<close>),
    \<open>Connection_State\<close> (\<open>central/connection_state.py\<close>): transitions, failure tracking, issues. Both
    machines interpret one locale of table-driven machines.
  \<^item> \<open>Circuit_Breaker\<close>, \<open>Rpc_Errors\<close>, \<open>Rpc_Proxy\<close>, \<open>Command_Retry\<close>, \<open>Command_Throttle\<close>, \<open>Request_Coalescer\<close>
    (\<open>client/circuit_breaker.py\<close>, \<open>client/_rpc_errors.py\<close>, \<open>client/rpc_proxy.py\<close>, \<open>client/command_retry.py\<close>,
    \<open>client/command_throttle.py\<close>, \<open>client/request_coalescer.py\<close>): the path of a request, with the
    interleaving of concurrent tasks cut at their awaits.
  \<^item> \<open>Command_Tracker\<close>, \<open>Ping_Pong\<close> (\<open>store/dynamic/\<close>): bounded stores of what awaits an answer.
  \<^item> \<open>Event_Bus\<close> (\<open>central/events/bus.py\<close>): subscriptions by type and key with priorities, and who is called.
  \<^item> \<open>Recovery_Stages\<close>, \<open>Connection_Recovery\<close> (\<open>central/coordinators/connection_recovery.py\<close>), \<open>Health\<close>
    (\<open>central/health.py\<close>), \<open>Device_Availability\<close> (\<open>model/device.py\<close>), \<open>Interface_Client\<close>
    (\<open>client/interface_client.py\<close>), \<open>Client_Coordinator\<close> (\<open>central/coordinators/client.py\<close>),
    \<open>Central_Unit\<close> (\<open>central/central_unit.py\<close>): the life of a connection from start to shutdown.
  \<^item> \<open>Parameter_Value\<close>, \<open>Data_Point\<close>, \<open>Data_Point_Values\<close>, \<open>Data_Point_Factory\<close>, \<open>Collector\<close>
    (\<open>model/support.py\<close>, \<open>model/optimistic.py\<close>,
    \<open>model/data_point.py\<close>, \<open>model/generic/\<close>): values of parameters, their conversion behind a cache, data
    points with optimistic values over their histories, the collector that groups commands, and the
    wrapper of service methods with its request context (\<open>context.py\<close>).
  \<^item> \<open>Value_Cache\<close> (\<open>store/dynamic/data.py\<close>, \<open>model/device.py\<close>): the values of a central and of a device, when
    they are served from a cache, and what a load asks the backend for.
  \<^item> \<open>Machine_Float\<close>, \<open>Level\<close>, \<open>Brightness\<close>, \<open>Custom_Data_Point\<close>, \<open>Cover\<close>, \<open>Thermostat\<close>, \<open>On_Off\<close>
    (\<open>model/custom/mixins.py\<close>, \<open>converter.py\<close>, \<open>cover.py\<close>, \<open>climate.py\<close>, \<open>light.py\<close>, \<open>switch.py\<close>, \<open>valve.py\<close>,
    \<open>lock.py\<close>, \<open>access_permission.py\<close> of \<open>model/custom/\<close>, \<open>timer.py\<close> and \<open>garage_door_mode.py\<close> of
    \<open>model/combined/\<close>): the rounding of floats, levels, positions and brightness, combined parameters,
    and the custom data points for covers, blinds, garage doors, thermostats, switches, valves, locks and
    dimmers. \<open>Custom_Data_Point\<close> holds what they share: an environment of generic data points, of which a
    custom one names its fields, and the sending of their values alone or through the collector.
  \<^item> \<open>Schedule_Time\<close>, \<open>Schedule_Const\<close>, \<open>Climate_Profile\<close>, \<open>Climate_Device\<close>, \<open>Simple_Schedule\<close>, \<open>Week_Profile\<close>,
    \<open>Schedule_Device\<close> (\<open>model/schedule_models.py\<close>, \<open>model/week_profile.py\<close>): times and durations, the thirteen
    slots of thermostats, the entries of switches, lights, covers, valves and locks, and what a device
    holds once a schedule was written.

  A Python class is a record with the fields of the class, prefixed by its initials; a method is a
  function from the record to the record, the value it returns and the events it publishes. A raise is
  a value of an error type. A coroutine is cut at its awaits: each section between two of them is one
  step, and the concurrent tasks of one object are a transition system whose histories are arbitrary
  interleavings of such steps. What the backend, a socket or a timer answers is an argument of the step.

  \<^bold>\<open>What is shown.\<close> Invariants over every history of calls: state machines leave no stale failure, at
  most one execution per key is in flight, trackers stay within their bounds, at most two recoveries
  run, the heartbeat runs exactly in the failed state. Outcomes: every recovery and every reconnect ends
  and how, the port probe returns, throttled commands are granted in order and at their distance, no
  waiting command is lost. Contracts refined by the code: the deliveries of the event bus against the
  list of live subscriptions, the health tracker against the history, the breaker against the issues of
  the connection state. Round trips: durations, thermostat weekdays and schedules written to a device
  and read back. Data points: what an optimistic value ends as, which
  positions of a cover and which brightness of a dimmer survive, which setpoint a thermostat restores,
  what a timed switch sends, and which values the caches serve. And the cases in which the code does not
  do what it says, each as a theorem about the model.

  \<^bold>\<open>Bounds and fuel.\<close> Loops are structural or have a termination proof; no operation runs on fuel. Time
  stamps are real numbers given to each step, so a property quantifies over all clocks that its
  hypotheses allow. The evaluation of a rounding searches the exponent of a fraction among 50 in each
  direction, and its lemmas ask for fractions within them. Bounds are those of the source: 13 slots, 24 groups, 30 as the largest duration
  factor, 2048 cached conversions, the sizes of the trackers and queues.

  \<^bold>\<open>Idealisations.\<close> Floats are real numbers; operations on levels and brightness round to 53 bits by \<open>fl\<close>, elsewhere
  rounding is absent, and infinities and not-a-number are absent everywhere. Strings
  are lists of characters with codes below 256. Messages are their translation keys. Sections between
  awaits are atomic, as the event loop makes them. An error of the validation library, which collects
  all that is wrong, is represented by the first. Members of integer enumerations are integers where the
  code only tests \<open>isinstance(x, int)\<close>. \<open>asyncio.gather\<close> runs its parts in the order of the list. In the
  network of clients, bus and central, messages of one client arrive in order; other orders are free.
  The sets of interfaces and devices are fixed during a history. Logging has no effect.

  \<^bold>\<open>Not modelled.\<close> The JSON-RPC client and the backends behind a client (calls of remote methods and the
  shape of their answers), the XML-RPC server, sessions and file storage: input and output, whose
  results are arguments here. The caches of descriptions, visibility rules and registries, sirens,
  displays and lights with colours or effects, calculated and hub data points, the coordinators for
  devices, events, hub, links and configuration, the scheduler and the metrics observer: they are large
  tables or compositions of the parts above. Names, translations, diagnostics and the protocol classes of
  \<open>interfaces/\<close> carry no behaviour. The manifest lists these parts one by one.
\<close>

section \<open>From a failed start to the heartbeat\<close>

lemma register_interfaces:
  fixes c :: coordinator and now :: time
  defines "register \<equiv> foldl (\<lambda>c ic. put_state (ic_interface_id ic) (state_of now (ic_interface_id ic) c) c)"
  shows "rc_in_failed_state (register c ics) = rc_in_failed_state c"
    and "rc_heartbeats (register c ics) = rc_heartbeats c" and "rc_shutdown (register c ics) = rc_shutdown c"
    and "rc_name (register c ics) = rc_name c"
    and "get_recovery_state iid (register c ics) = None \<longleftrightarrow>
           get_recovery_state iid c = None \<and> iid \<notin> ic_interface_id ` set ics"
  unfolding register_def
  by (induction ics arbitrary: c) (auto simp: put_state_def get_recovery_state_def)

text \<open>A heartbeat at the head of its loop fires when it runs twice, for the interfaces without an available client.\<close>

lemma new_heartbeat_fires:
  assumes "rc_in_failed_state c" and "\<not> rc_shutdown c" and "rc_heartbeats c = hs @ [HB_Loop_Head]"
    and "get_recovery_state iid c \<noteq> None" and "\<not> available iid"
  shows "\<exists>ids. iid \<in> set ids \<and>
    snd (heartbeat_step now2 (length hs) available (fst (heartbeat_step now1 (length hs) available c))) =
      [Rec_Publish (HeartbeatTimerFiredEvent now2 (rc_name c) ids)]"
proof -
  let ?c = "c\<lparr>rc_heartbeats := hs @ [HB_Sleeping]\<rparr>"
  have failed: "iid \<in> set (failed_interfaces available ?c)"
    using assms(4,5)
    by (auto simp: failed_interfaces_def get_recovery_state_def dict_get_def dest!: map_of_SomeD intro!: image_eqI)
  then have some: "failed_interfaces available ?c \<noteq> []" by auto
  have "fst (heartbeat_step now1 (length hs) available c) = ?c"
    using assms(1-3) by (simp add: heartbeat_step_def set_heartbeat_def)
  moreover have "snd (heartbeat_step now2 (length hs) available ?c) =
      [Rec_Publish (HeartbeatTimerFiredEvent now2 (rc_name c) (failed_interfaces available ?c))]"
    using assms(1,2) some by (simp add: heartbeat_step_def Let_def)
  ultimately show ?thesis using failed by auto
qed

text \<open>
  C17: A start that connects no client ends in a heartbeat. When \<open>start\<close> finds no connected client,
  the central becomes FAILED with the failure the client coordinator recorded and publishes a state
  change whose trigger the recovery coordinator recognises: delivered to it, the coordinator is in
  the failed state, every enabled interface has a recovery state, and one more heartbeat is started, whether or not
  there is one already. When that heartbeat runs and wakes up, it demands the recovery of every enabled
  interface whose client is not available. (As in every history the coordinator has no handle of a heartbeat.)
\<close>

theorem failed_start_begins_heartbeat:
  assumes "zsm_state (cu_machine c) = C_INITIALIZING" and "zsm_event_bus (cu_machine c)"
    and "connected_clients c = []" and "\<not> rc_shutdown rc" and "rc_heartbeat_task rc = None"
  shows "\<exists>trigger.
           CentralStateChangedEvent now (zsm_central_name (cu_machine c)) C_INITIALIZING C_FAILED (Some trigger)
             \<in> set (snd (start_evaluation now c)) \<and>
           zsm_state (cu_machine (fst (start_evaluation now c))) = C_FAILED \<and>
           zsm_failure_reason (cu_machine (fst (start_evaluation now c))) = cc_last_failure_reason (cu_coord c) \<and>
           (let rc' = on_central_state_changed later C_INITIALIZING C_FAILED (Some trigger) rc; i = length (rc_heartbeats rc)
            in rc_in_failed_state rc' \<and> rc_heartbeats rc' = rc_heartbeats rc @ [HB_Loop_Head] \<and>
               (\<forall>ic \<in> set (rc_configs rc). get_recovery_state (ic_interface_id ic) rc' \<noteq> None \<and>
                  (\<forall>available now1 now2. \<not> available (ic_interface_id ic) \<longrightarrow>
                     (\<exists>ids. ic_interface_id ic \<in> set ids \<and>
                        snd (heartbeat_step now2 i available (fst (heartbeat_step now1 i available rc'))) =
                          [Rec_Publish (HeartbeatTimerFiredEvent now2 (rc_name rc) ids)]))))"
proof -
  let ?t = "''no clients connected (start() completed)''"
  have some: "cu_clients c \<noteq> [] \<longrightarrow> lost_clients c \<noteq> []"
    using assms(3) by (auto simp: connected_clients_def lost_clients_def filter_empty_conv neq_Nil_conv)
  have "CentralStateChangedEvent now (zsm_central_name (cu_machine c)) C_INITIALIZING C_FAILED (Some ?t)
          \<in> set (snd (start_evaluation now c)) \<and>
        zsm_state (cu_machine (fst (start_evaluation now c))) = C_FAILED \<and>
        zsm_failure_reason (cu_machine (fst (start_evaluation now c))) = cc_last_failure_reason (cu_coord c)"
    using assms(1-3) some
    by (auto simp: start_evaluation_def evaluate_simps central_move_def central_transition_to_def track_failure_def
        record_history_def publish_state_change_event_def default_args_def)
  moreover
  let ?rc1 = "rc\<lparr>rc_in_failed_state := True, rc_heartbeats := rc_heartbeats rc @ [HB_Loop_Head]\<rparr>"
  let ?rc' = "on_central_state_changed later C_INITIALIZING C_FAILED (Some ?t) rc"
  have "start_heartbeat_timer (rc\<lparr>rc_in_failed_state := True\<rparr>) = ?rc1"
    using assms(5) by (cases rc) (simp add: start_heartbeat_timer_def heartbeat_task_running_def create_task_result_def)
  then have rc': "?rc' = foldl (\<lambda>c ic. put_state (ic_interface_id ic) (state_of later (ic_interface_id ic) c) c) ?rc1 (rc_configs rc)"
    using assms(4) by (simp add: on_central_state_changed_def no_clients_connected_def Let_def)
  have facts: "rc_in_failed_state ?rc'" "\<not> rc_shutdown ?rc'" "rc_heartbeats ?rc' = rc_heartbeats rc @ [HB_Loop_Head]" "rc_name ?rc' = rc_name rc"
    unfolding rc' using assms(4) by (simp_all add: register_interfaces)
  have states: "get_recovery_state (ic_interface_id ic) ?rc' \<noteq> None" if "ic \<in> set (rc_configs rc)" for ic
    unfolding rc' using that by (simp add: register_interfaces)
  note fires = new_heartbeat_fires [OF facts(1-3) states, unfolded facts(4)]
  ultimately show ?thesis
    unfolding Let_def using facts states fires by blast
qed

theorem failed_start_begins_heartbeat_witness:
  "\<exists>trigger ids. let rc' = on_central_state_changed 2 C_INITIALIZING C_FAILED (Some trigger)
                    (coordinator_init ''c'' [\<lparr>ic_interface_id = ''i'', ic_interface = HMIP_RF, ic_port = None\<rparr>] False None)
     in ''i'' \<in> set ids \<and>
        snd (heartbeat_step 70 0 (\<lambda>_. False) (fst (heartbeat_step 10 0 (\<lambda>_. False) rc'))) = [Rec_Publish (HeartbeatTimerFiredEvent 70 ''c'' ids)]"
proof -
  let ?rc = "coordinator_init ''c'' [\<lparr>ic_interface_id = ''i'', ic_interface = HMIP_RF, ic_port = None\<rparr>] False None"
  let ?c = "sample_central\<lparr>cu_machine := (central_sm_init 0 ''c'' True)\<lparr>zsm_state := C_INITIALIZING\<rparr>\<rparr>"
  have "zsm_state (cu_machine ?c) = C_INITIALIZING" "zsm_event_bus (cu_machine ?c)" "connected_clients ?c = []"
    by (auto simp: sample_central_def connected_clients_def cu_clients_def coord_clients_def dict_values_def
        client_coord_init_def client_state_def central_sm_init_def)
  moreover have rc: "\<not> rc_shutdown ?rc" "rc_heartbeat_task ?rc = None" "length (rc_heartbeats ?rc) = 0" "rc_name ?rc = ''c''"
    "rc_configs ?rc = [\<lparr>ic_interface_id = ''i'', ic_interface = HMIP_RF, ic_port = None\<rparr>]"
    by (simp_all add: coordinator_init_def)
  ultimately obtain trigger where "\<forall>ic \<in> set (rc_configs ?rc). \<forall>available now1 now2. \<not> available (ic_interface_id ic) \<longrightarrow>
      (\<exists>ids. ic_interface_id ic \<in> set ids \<and>
         snd (heartbeat_step now2 (length (rc_heartbeats ?rc)) available
           (fst (heartbeat_step now1 (length (rc_heartbeats ?rc)) available
             (on_central_state_changed 2 C_INITIALIZING C_FAILED (Some trigger) ?rc)))) =
           [Rec_Publish (HeartbeatTimerFiredEvent now2 (rc_name ?rc) ids)])"
    using failed_start_begins_heartbeat [of ?c ?rc 1 2] unfolding Let_def by blast
  note fires = this [unfolded rc(3-5), simplified, rule_format, of "\<lambda>_. False" 70 10]
  then show ?thesis unfolding Let_def by blast
qed

end
